(* ===== verification/Prelude.thy ===== *)
theory Prelude
  imports Main "HOL-Library.AList"
begin

text \<open>
  What every component of the development shares: the errors a handler can end in, the sum type its
  result has, the sequencing of fallible steps, and runs of a handler over a list of inputs.

  A C++ handler that fails (an \<open>assert\<close>, an \<open>ASSERT\<close>, a thrown \<open>cRuntimeError\<close> or
  \<open>std::range_error\<close>, or an access the language leaves undefined) has the value \<open>Inl e\<close>;
  one that returns has \<open>Inr s\<close> with the state it leaves.
\<close>

datatype sim_error =
    AssertFailed string        \<comment> \<open>\<open>assert\<close> or \<open>ASSERT\<close> with a false condition\<close>
  | RuntimeError string        \<comment> \<open>\<open>throw cRuntimeError\<close>, or the simulation kernel's own errors\<close>
  | RangeError string          \<comment> \<open>\<open>throw std::range_error\<close>\<close>
  | UndefinedBehaviour string  \<comment> \<open>a dangling iterator, a read past the end, a freed object\<close>

type_synonym 'a res = "sim_error + 'a"

named_theorems res_simps "evaluation of fallible steps"

section \<open>Sequencing fallible steps\<close>

definition res_bind :: "'a res \<Rightarrow> ('a \<Rightarrow> 'b res) \<Rightarrow> 'b res" where
  "res_bind m f = (case m of Inl e \<Rightarrow> Inl e | Inr a \<Rightarrow> f a)"

definition check_that :: "bool \<Rightarrow> sim_error \<Rightarrow> 'a res \<Rightarrow> 'a res" where
  "check_that b e m = (if b then m else Inl e)"

fun is_ok :: "'a res \<Rightarrow> bool" where
  "is_ok (Inl e) = False"
| "is_ok (Inr a) = True"

lemma res_bind_Inl [simp, res_simps]: "res_bind (Inl e) f = Inl e"
  by (simp add: res_bind_def)

lemma res_bind_Inr [simp, res_simps]: "res_bind (Inr a) f = f a"
  by (simp add: res_bind_def)

lemma check_that_True [simp, res_simps]: "check_that True e m = m"
  by (simp add: check_that_def)

lemma check_that_False [simp, res_simps]: "check_that False e m = Inl e"
  by (simp add: check_that_def)

lemma res_bind_eq_Inr: "res_bind m f = Inr b \<longleftrightarrow> (\<exists>a. m = Inr a \<and> f a = Inr b)"
  by (cases m) auto

lemma check_that_eq_Inr: "check_that b e m = Inr a \<longleftrightarrow> b \<and> m = Inr a"
  by (cases b) auto

lemma is_ok_iff: "is_ok m \<longleftrightarrow> (\<exists>a. m = Inr a)"
  by (cases m) auto

lemma res_bind_assoc: "res_bind (res_bind m f) g = res_bind m (\<lambda>a. res_bind (f a) g)"
  by (cases m) auto

lemmas res_inr = res_bind_eq_Inr check_that_eq_Inr

section \<open>Running a handler over a list of inputs\<close>

text \<open>The run stops at the first error, as the simulation does.\<close>

fun res_run :: "('s \<Rightarrow> 'e \<Rightarrow> 's res) \<Rightarrow> 's \<Rightarrow> 'e list \<Rightarrow> 's res" where
  "res_run f s [] = Inr s"
| "res_run f s (e # es) = res_bind (f s e) (\<lambda>s'. res_run f s' es)"

lemma res_run_append:
  "res_run f s (xs @ ys) = res_bind (res_run f s xs) (\<lambda>s'. res_run f s' ys)"
  by (induction xs arbitrary: s) (auto simp: res_bind_assoc)

lemma res_run_invariant:
  assumes step: "\<And>s e s'. I s \<Longrightarrow> f s e = Inr s' \<Longrightarrow> I s'"
    and "I s" and "res_run f s es = Inr s'"
  shows "I s'"
  using assms(2,3)
proof (induction es arbitrary: s)
  case Nil
  then show ?case by simp
next
  case (Cons e es)
  then show ?case by (auto simp: res_inr intro: step)
qed

lemma res_run_total:
  assumes step: "\<And>s e. I s \<Longrightarrow> \<exists>s'. f s e = Inr s' \<and> I s'"
    and "I s"
  shows "\<exists>s'. res_run f s es = Inr s' \<and> I s'"
  using assms(2)
proof (induction es arbitrary: s)
  case Nil
  then show ?case by simp
next
  case (Cons e es)
  from step[OF Cons.prems] obtain s1 where s1: "f s e = Inr s1" "I s1" by blast
  from Cons.IH[OF s1(2)] s1(1) show ?case by simp
qed

end
