(* ===== verification/SimKernel.thy ===== *)
theory SimKernel
  imports Prelude
begin

text \<open>
  The simulation kernel (OMNeT++) is not part of the repository. What the modules use of it is the
  parameter \<open>('f, 't) sim_kernel\<close>: the current time, the future event set of type \<open>'f\<close> holding a
  module's timers (of type \<open>'t\<close>), \<open>scheduleAt\<close>, \<open>cancelEvent\<close>, the delivery of a due timer and
  \<open>intuniform\<close>. The locale \<open>sim_kernel_laws\<close> states the documented behaviour the modules rely on:
  \<open>scheduleAt\<close> throws for a message that is already scheduled and for a time in the past,
  \<open>cancelEvent\<close> of an idle message does nothing, a delivered timer is no longer scheduled.
  \<open>ref_kernel\<close> is an executable kernel with these laws, used to evaluate runs.

  Simulation time (\<open>simtime_t\<close>) is an \<open>int\<close>, the number of ticks.
\<close>

type_synonym simtime = int

record ('f, 't) sim_kernel =
  k_now :: "'f \<Rightarrow> simtime"
  k_pending :: "'f \<Rightarrow> 't \<Rightarrow> simtime option"
  k_schedule :: "simtime \<Rightarrow> 't \<Rightarrow> 'f \<Rightarrow> 'f option"
  k_cancel :: "'t \<Rightarrow> 'f \<Rightarrow> 'f"
  k_advance :: "simtime \<Rightarrow> 'f \<Rightarrow> 'f"
  k_deliver :: "'t \<Rightarrow> 'f \<Rightarrow> 'f"
  k_intuniform :: "int \<Rightarrow> int \<Rightarrow> 'f \<Rightarrow> int \<times> 'f"

locale sim_kernel_laws =
  fixes K :: "('f, 't) sim_kernel"
  assumes schedule_None:
      "k_schedule K t x f = None \<longleftrightarrow> k_pending K f x \<noteq> None \<or> t < k_now K f"
    and schedule_Some:
      "k_schedule K t x f = Some f' \<Longrightarrow>
         k_pending K f' = (k_pending K f)(x \<mapsto> t) \<and> k_now K f' = k_now K f"
    and pending_cancel: "k_pending K (k_cancel K x f) = (k_pending K f)(x := None)"
    and now_cancel: "k_now K (k_cancel K x f) = k_now K f"
    and pending_advance: "k_pending K (k_advance K d f) = k_pending K f"
    and now_advance: "k_now K (k_advance K d f) = k_now K f + max 0 d"
    and pending_deliver: "k_pending K (k_deliver K x f) = (k_pending K f)(x := None)"
    and now_deliver:
      "k_now K (k_deliver K x f) =
         (case k_pending K f x of None \<Rightarrow> k_now K f | Some t \<Rightarrow> max t (k_now K f))"
    and pending_intuniform: "k_pending K (snd (k_intuniform K a b f)) = k_pending K f"
    and now_intuniform: "k_now K (snd (k_intuniform K a b f)) = k_now K f"
    and intuniform_range:
      "a \<le> b \<Longrightarrow> a \<le> fst (k_intuniform K a b f) \<and> fst (k_intuniform K a b f) \<le> b"

section \<open>The kernel calls of the modules\<close>

definition sim_scheduleAt ::
    "('f, 't) sim_kernel \<Rightarrow> simtime \<Rightarrow> 't \<Rightarrow> 'f \<Rightarrow> 'f res" where
  "sim_scheduleAt K t x f =
     (case k_schedule K t x f of
        None \<Rightarrow> Inl (RuntimeError ''scheduleAt'')
      | Some f' \<Rightarrow> Inr f')"

text \<open>
  No scheduled event lies in the past; the event the kernel delivers next is one that is due first; time
  passes up to the next scheduled event.
\<close>

definition k_timely :: "('f, 't) sim_kernel \<Rightarrow> 'f \<Rightarrow> bool" where
  "k_timely K f \<longleftrightarrow> (\<forall>x t. k_pending K f x = Some t \<longrightarrow> k_now K f \<le> t)"

definition k_due :: "('f, 't) sim_kernel \<Rightarrow> 'f \<Rightarrow> 't \<Rightarrow> bool" where
  "k_due K f x \<longleftrightarrow> (\<exists>t. k_pending K f x = Some t \<and> (\<forall>y u. k_pending K f y = Some u \<longrightarrow> t \<le> u))"

definition k_may_advance :: "('f, 't) sim_kernel \<Rightarrow> 'f \<Rightarrow> simtime \<Rightarrow> bool" where
  "k_may_advance K f d \<longleftrightarrow>
     0 \<le> d \<and> (\<forall>x t. k_pending K f x = Some t \<longrightarrow> k_now K f + d \<le> t)"

context sim_kernel_laws
begin

lemma scheduleAt_ok:
  assumes "k_pending K f x = None" and "k_now K f \<le> t"
  shows "\<exists>f'. sim_scheduleAt K t x f = Inr f' \<and>
           k_pending K f' = (k_pending K f)(x \<mapsto> t) \<and> k_now K f' = k_now K f"
proof -
  from assms have "k_schedule K t x f \<noteq> None" by (simp add: schedule_None)
  then obtain f' where f': "k_schedule K t x f = Some f'" by blast
  from schedule_Some[OF f'] f' show ?thesis by (simp add: sim_scheduleAt_def)
qed

lemma scheduleAt_twice:
  assumes "k_pending K f x \<noteq> None"
  shows "sim_scheduleAt K t x f = Inl (RuntimeError ''scheduleAt'')"
  using assms by (simp add: sim_scheduleAt_def schedule_None split: option.split)

lemma scheduleAt_past:
  assumes "t < k_now K f"
  shows "sim_scheduleAt K t x f = Inl (RuntimeError ''scheduleAt'')"
  using assms by (simp add: sim_scheduleAt_def schedule_None split: option.split)

lemma scheduleAt_Inr:
  assumes "sim_scheduleAt K t x f = Inr f'"
  shows "k_pending K f x = None" and "k_now K f \<le> t"
    and "k_pending K f' = (k_pending K f)(x \<mapsto> t)" and "k_now K f' = k_now K f"
proof -
  from assms obtain *: "k_schedule K t x f = Some f'"
    by (auto simp: sim_scheduleAt_def split: option.splits)
  then have "k_schedule K t x f \<noteq> None" by simp
  then show "k_pending K f x = None" and "k_now K f \<le> t"
    by (auto simp: schedule_None not_less)
  from schedule_Some[OF *] show "k_pending K f' = (k_pending K f)(x \<mapsto> t)"
    and "k_now K f' = k_now K f" by auto
qed

lemmas kernel_pending = pending_cancel pending_advance pending_deliver pending_intuniform

lemma scheduleAt_timely:
  "k_timely K f \<Longrightarrow> sim_scheduleAt K t x f = Inr f' \<Longrightarrow> k_timely K f'"
  using scheduleAt_Inr[of t x f f'] by (auto simp: k_timely_def split: if_splits)

lemma cancel_timely: "k_timely K f \<Longrightarrow> k_timely K (k_cancel K x f)"
  by (auto simp: k_timely_def pending_cancel now_cancel split: if_splits)

lemma deliver_timely: "k_timely K f \<Longrightarrow> k_due K f x \<Longrightarrow> k_timely K (k_deliver K x f)"
  by (fastforce simp: k_timely_def k_due_def pending_deliver now_deliver split: if_splits)

lemma deliver_now:
  "k_timely K f \<Longrightarrow> k_pending K f x = Some t \<Longrightarrow> k_now K (k_deliver K x f) = t"
  by (auto simp: k_timely_def now_deliver max_def intro: antisym)

lemma advance_timely: "k_timely K f \<Longrightarrow> k_may_advance K f d \<Longrightarrow> k_timely K (k_advance K d f)"
  by (auto simp: k_timely_def k_may_advance_def pending_advance now_advance)

lemma intuniform_timely: "k_timely K f \<Longrightarrow> k_timely K (snd (k_intuniform K a b f))"
  by (simp add: k_timely_def pending_intuniform now_intuniform)

lemmas kernel_now = now_cancel now_advance now_deliver now_intuniform

end

section \<open>An executable kernel\<close>

record 't ref_fes =
  rf_now :: simtime
  rf_pending :: "'t \<Rightarrow> simtime option"
  rf_random :: "int list"

definition ref_kernel :: "('t ref_fes, 't) sim_kernel" where
  "ref_kernel = \<lparr>
     k_now = rf_now,
     k_pending = rf_pending,
     k_schedule = (\<lambda>t x f. if rf_pending f x \<noteq> None \<or> t < rf_now f then None
                           else Some (f\<lparr>rf_pending := (rf_pending f)(x \<mapsto> t)\<rparr>)),
     k_cancel = (\<lambda>x f. f\<lparr>rf_pending := (rf_pending f)(x := None)\<rparr>),
     k_advance = (\<lambda>d f. f\<lparr>rf_now := rf_now f + max 0 d\<rparr>),
     k_deliver = (\<lambda>x f. f\<lparr>rf_now := (case rf_pending f x of None \<Rightarrow> rf_now f
                                                     | Some t \<Rightarrow> max t (rf_now f)),
                           rf_pending := (rf_pending f)(x := None)\<rparr>),
     k_intuniform = (\<lambda>a b f. case rf_random f of
                               [] \<Rightarrow> (a, f)
                             | r # rs \<Rightarrow> (a + r mod (b - a + 1), f\<lparr>rf_random := rs\<rparr>)) \<rparr>"

definition ref_start :: "int list \<Rightarrow> 't ref_fes" where
  "ref_start rs = \<lparr>rf_now = 0, rf_pending = (\<lambda>_. None), rf_random = rs\<rparr>"

lemma ref_kernel_range:
  fixes a b r :: int
  assumes "a \<le> b"
  shows "a \<le> a + r mod (b - a + 1)" and "a + r mod (b - a + 1) \<le> b"
proof -
  from assms have "0 \<le> r mod (b - a + 1)" by (intro pos_mod_sign) simp
  moreover from assms have "r mod (b - a + 1) < b - a + 1" by (intro pos_mod_bound) simp
  ultimately show "a \<le> a + r mod (b - a + 1)" and "a + r mod (b - a + 1) \<le> b" by auto
qed

interpretation ref_kernel: sim_kernel_laws ref_kernel
  by unfold_locales
    (auto simp: ref_kernel_def ref_kernel_range split: option.splits list.splits if_splits)

lemmas ref_eval = ref_kernel_def ref_start_def sim_scheduleAt_def

end
