(* ===== verification/Operational.thy ===== *)
theory Operational
  imports SimKernel
begin

text \<open>
  The lifecycle of an application (\<open>common/lifecycle/OperationalBase.h\<close>, \<open>OperationalBase.cc\<close>): which
  messages reach the application in which operational state, and how start, stop and crash operations
  drive the state, with the two timers that bound a stop operation that does not finish at once.

  The virtual functions of the application (\<open>handleStartOperation\<close>, \<open>handleStopOperation\<close>,
  \<open>handleCrashOperation\<close>, \<open>handleMessageWhenUp\<close>) are arguments; applications extend the record
  \<open>operational\<close>, so that their handlers see and change the state of the base class.
\<close>

text \<open>\<open>InvalidState\<close> is \<open>(State)(-1)\<close>, the end state of the cleared operation.\<close>

datatype op_state =
    STARTING_OPERATION | OPERATING | STOPPING_OPERATION | CRASHING_OPERATION | NOT_OPERATING
  | InvalidState

datatype lifecycle_operation = ModuleStartOperation | ModuleStopOperation | ModuleCrashOperation

datatype 't op_timer = ActiveOperationTimeout | ActiveOperationExtraTimer | AppTimer 't

text \<open>\<open>op_done\<close> counts the calls \<open>doneCallback->invoke()\<close>.\<close>

record 'f operational =
  operationalState :: op_state
  lastChange :: simtime
  activeOperation :: "lifecycle_operation option"
  endState :: op_state
  isDelayedFinish :: bool
  op_done :: nat
  fes :: 'f

type_synonym ('f, 't) op_kernel = "('f, 't op_timer) sim_kernel"

section \<open>Utility functions\<close>

definition op_now :: "('f, 't) op_kernel \<Rightarrow> ('f, 'z) operational_scheme \<Rightarrow> simtime" where
  "op_now K s = k_now K (fes s)"

definition op_scheduleAt ::
    "('f, 't) op_kernel \<Rightarrow> simtime \<Rightarrow> 't op_timer \<Rightarrow> ('f, 'z) operational_scheme \<Rightarrow>
     ('f, 'z) operational_scheme res" where
  "op_scheduleAt K t x s = res_bind (sim_scheduleAt K t x (fes s)) (\<lambda>f. Inr (s\<lparr>fes := f\<rparr>))"

definition op_cancelEvent ::
    "('f, 't) op_kernel \<Rightarrow> 't op_timer \<Rightarrow> ('f, 'z) operational_scheme \<Rightarrow>
     ('f, 'z) operational_scheme" where
  "op_cancelEvent K x s = s\<lparr>fes := k_cancel K x (fes s)\<rparr>"

definition op_isScheduled ::
    "('f, 't) op_kernel \<Rightarrow> 't op_timer \<Rightarrow> ('f, 'z) operational_scheme \<Rightarrow> bool" where
  "op_isScheduled K x s \<longleftrightarrow> k_pending K (fes s) x \<noteq> None"

definition setOperationalState ::
    "('f, 't) op_kernel \<Rightarrow> op_state \<Rightarrow> ('f, 'z) operational_scheme \<Rightarrow>
     ('f, 'z) operational_scheme" where
  "setOperationalState K st s = s\<lparr>operationalState := st, lastChange := op_now K s\<rparr>"

definition setupActiveOperation ::
    "lifecycle_operation \<Rightarrow> op_state \<Rightarrow> ('f, 'z) operational_scheme \<Rightarrow>
     ('f, 'z) operational_scheme res" where
  "setupActiveOperation op st s =
     check_that (activeOperation s = None) (AssertFailed ''activeOperation'')
       (Inr (s\<lparr>activeOperation := Some op, endState := st, isDelayedFinish := False\<rparr>))"

definition finishActiveOperation ::
    "('f, 't) op_kernel \<Rightarrow> ('f, 'z) operational_scheme \<Rightarrow> ('f, 'z) operational_scheme" where
  "finishActiveOperation K s =
     (let s1 = setOperationalState K (endState s) s;
          s2 = (if isDelayedFinish s1
                then (let s' = op_cancelEvent K ActiveOperationTimeout
                                 (op_cancelEvent K ActiveOperationExtraTimer s1)
                      in s'\<lparr>op_done := Suc (op_done s')\<rparr>)
                else s1)
      in s2\<lparr>activeOperation := None, endState := InvalidState, isDelayedFinish := False\<rparr>)"

definition scheduleOperationTimeout ::
    "('f, 't) op_kernel \<Rightarrow> simtime \<Rightarrow> ('f, 'z) operational_scheme \<Rightarrow>
     ('f, 'z) operational_scheme res" where
  "scheduleOperationTimeout K timeout s =
     check_that (isDelayedFinish s) (AssertFailed ''isDelayedFinish'')
       (check_that (\<not> op_isScheduled K ActiveOperationTimeout s) (AssertFailed ''timeout scheduled'')
         (op_scheduleAt K (op_now K s + timeout) ActiveOperationTimeout s))"

definition delayActiveOperationFinish ::
    "('f, 't) op_kernel \<Rightarrow> simtime \<Rightarrow> ('f, 'z) operational_scheme \<Rightarrow>
     ('f, 'z) operational_scheme res" where
  "delayActiveOperationFinish K timeout s =
     check_that (activeOperation s \<noteq> None) (AssertFailed ''no active operation'')
       (scheduleOperationTimeout K timeout (s\<lparr>isDelayedFinish := True\<rparr>))"

definition startActiveOperationExtraTime ::
    "('f, 't) op_kernel \<Rightarrow> simtime \<Rightarrow> ('f, 'z) operational_scheme \<Rightarrow>
     ('f, 'z) operational_scheme res" where
  "startActiveOperationExtraTime K extraTime s =
     check_that (0 \<le> extraTime) (AssertFailed ''extraTime'')
       (check_that (\<not> op_isScheduled K ActiveOperationExtraTimer s) (AssertFailed ''extra timer scheduled'')
         (let s1 = setOperationalState K (endState s) (s\<lparr>isDelayedFinish := True\<rparr>)
          in op_scheduleAt K (op_now K s1 + extraTime) ActiveOperationExtraTimer s1))"

definition startActiveOperationExtraTimeOrFinish ::
    "('f, 't) op_kernel \<Rightarrow> simtime \<Rightarrow> ('f, 'z) operational_scheme \<Rightarrow>
     ('f, 'z) operational_scheme res" where
  "startActiveOperationExtraTimeOrFinish K extraTime s =
     (if 0 \<le> extraTime then startActiveOperationExtraTime K extraTime s
      else Inr (finishActiveOperation K s))"

section \<open>Messages and operations\<close>

text \<open>
  A message is a due timer, which the kernel takes out of the event set before it is handled, or an
  arriving message \<open>'m\<close>. \<open>hCrash\<close> and \<open>whenUp\<close> are the application's functions; \<open>whenUp\<close> sees the
  application's own timers and messages only.
\<close>

datatype ('t, 'm) app_event = SelfMessage 't | Arrival 'm

datatype ('t, 'm) op_event = Timer "'t op_timer" | Message 'm

fun op_app_event :: "('t, 'm) op_event \<Rightarrow> ('t, 'm) app_event option" where
  "op_app_event (Timer (AppTimer t)) = Some (SelfMessage t)"
| "op_app_event (Message m) = Some (Arrival m)"
| "op_app_event _ = None"

definition handleMessageWhenDown ::
    "('f, 't) op_kernel \<Rightarrow> ('t, 'm) app_event \<Rightarrow> ('f, 'z) operational_scheme \<Rightarrow>
     ('f, 'z) operational_scheme res" where
  "handleMessageWhenDown K ev s =
     (case ev of
        SelfMessage t \<Rightarrow> Inl (RuntimeError ''Self message received when down'')
      | Arrival m \<Rightarrow> (if op_now K s = lastChange s then Inr s
                      else Inl (RuntimeError ''Message received when down'')))"

definition handleActiveOperationTimeout ::
    "('f, 't) op_kernel \<Rightarrow>
     (('f, 'z) operational_scheme \<Rightarrow> ('f, 'z) operational_scheme res) \<Rightarrow>
     ('f, 'z) operational_scheme \<Rightarrow> ('f, 'z) operational_scheme res" where
  "handleActiveOperationTimeout K hCrash s =
     res_bind (hCrash s) (\<lambda>s1. Inr (finishActiveOperation K s1))"

definition op_dispatch ::
    "('f, 't) op_kernel \<Rightarrow>
     (('t, 'm) app_event \<Rightarrow> ('f, 'z) operational_scheme \<Rightarrow> ('f, 'z) operational_scheme res) \<Rightarrow>
     ('t, 'm) app_event \<Rightarrow> ('f, 'z) operational_scheme \<Rightarrow> ('f, 'z) operational_scheme res" where
  "op_dispatch K whenUp ev s =
     (case operationalState s of
        STARTING_OPERATION \<Rightarrow> whenUp ev s
      | OPERATING \<Rightarrow> whenUp ev s
      | STOPPING_OPERATION \<Rightarrow> whenUp ev s
      | NOT_OPERATING \<Rightarrow> handleMessageWhenDown K ev s
      | CRASHING_OPERATION \<Rightarrow> Inl (RuntimeError ''Invalid operational state'')
      | InvalidState \<Rightarrow> Inl (RuntimeError ''Invalid operational state''))"

definition op_handleMessage ::
    "('f, 't) op_kernel \<Rightarrow>
     (('f, 'z) operational_scheme \<Rightarrow> ('f, 'z) operational_scheme res) \<Rightarrow>
     (('t, 'm) app_event \<Rightarrow> ('f, 'z) operational_scheme \<Rightarrow> ('f, 'z) operational_scheme res) \<Rightarrow>
     ('t, 'm) op_event \<Rightarrow> ('f, 'z) operational_scheme \<Rightarrow> ('f, 'z) operational_scheme res" where
  "op_handleMessage K hCrash whenUp ev s =
     (case ev of
        Timer ActiveOperationExtraTimer \<Rightarrow> Inr (finishActiveOperation K s)
      | Timer ActiveOperationTimeout \<Rightarrow>
          handleActiveOperationTimeout K hCrash (op_cancelEvent K ActiveOperationExtraTimer s)
      | Timer (AppTimer t) \<Rightarrow> op_dispatch K whenUp (SelfMessage t) s
      | Message m \<Rightarrow> op_dispatch K whenUp (Arrival m) s)"

text \<open>The kernel delivers an event: a due timer leaves the event set and time moves on.\<close>

definition op_deliver ::
    "('f, 't) op_kernel \<Rightarrow>
     (('f, 'z) operational_scheme \<Rightarrow> ('f, 'z) operational_scheme res) \<Rightarrow>
     (('t, 'm) app_event \<Rightarrow> ('f, 'z) operational_scheme \<Rightarrow> ('f, 'z) operational_scheme res) \<Rightarrow>
     ('t, 'm) op_event \<Rightarrow> ('f, 'z) operational_scheme \<Rightarrow> ('f, 'z) operational_scheme res" where
  "op_deliver K hCrash whenUp ev s =
     (case ev of
        Timer x \<Rightarrow> op_handleMessage K hCrash whenUp ev (s\<lparr>fes := k_deliver K x (fes s)\<rparr>)
      | Message m \<Rightarrow> op_handleMessage K hCrash whenUp ev s)"

text \<open>
  \<open>handleOperationStage\<close>, with \<open>here\<close> telling whether the stage is the one the application acts in;
  the result says whether the operation is finished.
\<close>

definition op_settle ::
    "('f, 't) op_kernel \<Rightarrow> ('f, 'z) operational_scheme \<Rightarrow> bool \<times> ('f, 'z) operational_scheme" where
  "op_settle K s =
     (let s1 = (if activeOperation s \<noteq> None \<and> \<not> isDelayedFinish s then finishActiveOperation K s else s)
      in (activeOperation s1 = None, s1))"

definition handleOperationStage ::
    "('f, 't) op_kernel \<Rightarrow>
     (('f, 'z) operational_scheme \<Rightarrow> ('f, 'z) operational_scheme res) \<Rightarrow>
     (('f, 'z) operational_scheme \<Rightarrow> ('f, 'z) operational_scheme res) \<Rightarrow>
     (('f, 'z) operational_scheme \<Rightarrow> ('f, 'z) operational_scheme res) \<Rightarrow>
     lifecycle_operation \<Rightarrow> bool \<Rightarrow> ('f, 'z) operational_scheme \<Rightarrow>
     (bool \<times> ('f, 'z) operational_scheme) res" where
  "handleOperationStage K hStart hStop hCrash op here s =
     (if \<not> here then Inr (True, s)
      else case op of
        ModuleStartOperation \<Rightarrow>
          res_bind (setupActiveOperation op OPERATING (s\<lparr>operationalState := STARTING_OPERATION\<rparr>))
            (\<lambda>s1. res_bind (hStart s1) (\<lambda>s2. Inr (op_settle K s2)))
      | ModuleStopOperation \<Rightarrow>
          res_bind (setupActiveOperation op NOT_OPERATING (s\<lparr>operationalState := STOPPING_OPERATION\<rparr>))
            (\<lambda>s1. res_bind (hStop s1) (\<lambda>s2. Inr (op_settle K s2)))
      | ModuleCrashOperation \<Rightarrow>
          res_bind (setupActiveOperation op NOT_OPERATING (s\<lparr>operationalState := CRASHING_OPERATION\<rparr>))
            (\<lambda>s1. res_bind (hCrash s1) (\<lambda>s2. Inr (True, finishActiveOperation K s2))))"

text \<open>
  \<open>initialize\<close> in the stage of the application layer; \<open>up\<close> is what the node's status says
  (\<open>getInitialOperationalState\<close>).
\<close>

definition getInitialOperationalState :: "bool option \<Rightarrow> op_state" where
  "getInitialOperationalState nodeStatus =
     (if nodeStatus = None \<or> nodeStatus = Some True then OPERATING else NOT_OPERATING)"

definition op_initialize ::
    "('f, 't) op_kernel \<Rightarrow>
     (('f, 'z) operational_scheme \<Rightarrow> ('f, 'z) operational_scheme res) \<Rightarrow>
     bool option \<Rightarrow> ('f, 'z) operational_scheme \<Rightarrow> ('f, 'z) operational_scheme res" where
  "op_initialize K hStart nodeStatus s =
     (let s1 = setOperationalState K (getInitialOperationalState nodeStatus) s
      in if operationalState s1 = OPERATING then hStart s1 else Inr s1)"

end
