(* ===== verification/CLib.thy ===== *)
theory CLib
  imports Prelude "HOL-Library.Word"
begin

text \<open>
  The text of numbers as the C and C++ libraries print and read it, which several components use:
  decimal and hexadecimal digits, the scanning of blanks, a sign and digits, and that what is printed is
  read back.
\<close>

section \<open>Printing\<close>

definition dec_digit :: "nat \<Rightarrow> char" where
  "dec_digit d = char_of (48 + d)"

text \<open>\<open>%u\<close> and \<open>std::to_string\<close>\<close>

fun show_nat :: "nat \<Rightarrow> string" where
  "show_nat n = (if n < 10 then [dec_digit n] else show_nat (n div 10) @ [dec_digit (n mod 10)])"

declare show_nat.simps [simp del]

definition show_int :: "int \<Rightarrow> string" where
  "show_int i = (if i < 0 then CHR ''-'' # show_nat (nat (- i)) else show_nat (nat i))"

text \<open>\<open>std::ostream << std::hex\<close> of a non-negative number\<close>

definition hex_digit :: "nat \<Rightarrow> char" where
  "hex_digit n = (if n < 10 then char_of (48 + n) else char_of (87 + n))"

fun show_hex :: "nat \<Rightarrow> string" where
  "show_hex n = (if n < 16 then [hex_digit n] else show_hex (n div 16) @ [hex_digit (n mod 16)])"

declare show_hex.simps [simp del]

section \<open>Scanning\<close>

definition is_digit :: "char \<Rightarrow> bool" where
  "is_digit c \<longleftrightarrow> (48 :: nat) \<le> of_char c \<and> of_char c \<le> (57 :: nat)"

definition c_isspace :: "char \<Rightarrow> bool" where
  "c_isspace c \<longleftrightarrow> of_char c = (32 :: nat) \<or> (9 :: nat) \<le> of_char c \<and> of_char c \<le> (13 :: nat)"

text \<open>The value of a character as a digit of the base, or nothing.\<close>

definition c_digit :: "nat \<Rightarrow> char \<Rightarrow> nat option" where
  "c_digit base c =
     (let n = of_char c;
          v = (if 48 \<le> n \<and> n \<le> 57 then n - 48
               else if 97 \<le> n \<and> n \<le> 122 then n - 97 + 10
               else if 65 \<le> n \<and> n \<le> 90 then n - 65 + 10 else 36)
      in if v < base then Some v else None)"

fun c_read_digits :: "nat \<Rightarrow> nat \<Rightarrow> string \<Rightarrow> nat \<times> string" where
  "c_read_digits base n [] = (n, [])"
| "c_read_digits base n (c # s) =
     (case c_digit base c of None \<Rightarrow> (n, c # s) | Some d \<Rightarrow> c_read_digits base (base * n + d) s)"

text \<open>Blanks and a sign in front of a number\<close>

definition strtoul_sign :: "string \<Rightarrow> bool \<times> string" where
  "strtoul_sign s =
     (case dropWhile c_isspace s of
        [] \<Rightarrow> (False, [])
      | c # t \<Rightarrow> if c = CHR ''-'' then (True, t) else if c = CHR ''+'' then (False, t) else (False, c # t))"

section \<open>Facts\<close>

lemma of_char_dec_digit: "d < 10 \<Longrightarrow> of_char (dec_digit d) = 48 + d"
  by (simp add: dec_digit_def)

lemma is_digit_dec_digit [simp]: "d < 10 \<Longrightarrow> is_digit (dec_digit d)"
  by (simp add: is_digit_def of_char_dec_digit)

lemma show_nat_digits: "c \<in> set (show_nat n) \<Longrightarrow> is_digit c"
proof (induction n rule: show_nat.induct)
  case (1 n)
  show ?case
  proof (cases "n < 10")
    case True
    with "1.prems" show ?thesis by (simp add: show_nat.simps[of n])
  next
    case False
    with "1.prems" have "c \<in> set (show_nat (n div 10)) \<or> c = dec_digit (n mod 10)"
      by (auto simp: show_nat.simps[of n])
    with "1.IH"[OF False] show ?thesis by auto
  qed
qed

lemma show_nat_nonempty [simp]: "show_nat n \<noteq> []"
  by (simp add: show_nat.simps)

lemma show_nat_1 [simp]: "show_nat (Suc 0) = ''1''"
  by (simp add: show_nat.simps dec_digit_def char_of_def bit_Suc_0_iff)

lemma show_nat_hd: "\<exists>c s. show_nat n = c # s \<and> is_digit c"
  using show_nat_digits[of "hd (show_nat n)" n] by (cases "show_nat n") auto

lemma show_nat_at_most: "n < 10 ^ k \<Longrightarrow> 0 < k \<Longrightarrow> length (show_nat n) \<le> k"
proof (induction n arbitrary: k rule: show_nat.induct)
  case (1 n)
  show ?case
  proof (cases "n < 10")
    case True
    with "1.prems" show ?thesis by (simp add: show_nat.simps[of n])
  next
    case False
    with "1.prems" obtain j where k: "k = Suc j" "0 < j" by (cases k; cases "k - 1") auto
    with "1.prems" have "n div 10 < 10 ^ j" by (simp add: div_less_iff_less_mult mult.commute)
    from "1.IH"[OF False this k(2)] False k(1) show ?thesis by (simp add: show_nat.simps[of n])
  qed
qed

lemma c_read_digits_length: "length (snd (c_read_digits base n s)) \<le> length s"
  by (induction s arbitrary: n) (auto split: option.splits intro: le_SucI)

lemma strtoul_sign_length: "length (snd (strtoul_sign s)) \<le> length s"
  using length_dropWhile_le[of c_isspace s] by (auto simp: strtoul_sign_def split: list.splits)

lemma c_digit_dec [simp]: "d < 10 \<Longrightarrow> c_digit 10 (dec_digit d) = Some d"
  by (simp add: c_digit_def of_char_dec_digit Let_def)

lemma c_read_dec: "c_read_digits 10 0 (show_nat n @ t) = c_read_digits 10 n t"
proof (induction n arbitrary: t rule: show_nat.induct)
  case (1 n)
  show ?case
  proof (cases "n < 10")
    case True
    then show ?thesis by (simp add: show_nat.simps[of n])
  next
    case False
    from "1.IH"[OF False, of "dec_digit (n mod 10) # t"] False show ?thesis
      by (simp add: show_nat.simps[of n])
  qed
qed

lemma digit_is:
  assumes "is_digit c"
  shows "c \<noteq> CHR ''-''" "c \<noteq> CHR ''+''" "c \<noteq> CHR ''.''" "c \<noteq> CHR '':''" "c \<noteq> CHR ''<''" "\<not> c_isspace c"
    "\<exists>d. c_digit 10 c = Some d"
  using assms by (auto simp: is_digit_def c_isspace_def c_digit_def Let_def)

end
