(* ===== verification/Ipv4Address.thy ===== *)
theory Ipv4Address
  imports CLib
begin

unbundle bit_operations_syntax

text \<open>
  IPv4 addresses (\<open>networklayer/contract/ipv4/Ipv4Address.h\<close>, \<open>Ipv4Address.cc\<close>): the 32-bit address, its
  classification, its text form \<open>str\<close> and the parser \<open>parseIPAddress\<close>.

  The parser accumulates a number in an \<open>int\<close> before it compares it with 255, so a long digit string
  overflows; the overflow is undefined behaviour and a value of the model.

  Shown: the parser reads back what \<open>str\<close> prints, for every address.
\<close>

type_synonym ipv4 = "32 word"

section \<open>Classification\<close>

definition ipv4_isUnspecified :: "ipv4 \<Rightarrow> bool" where
  "ipv4_isUnspecified a \<longleftrightarrow> a = 0"

definition ipv4_isLimitedBroadcastAddress :: "ipv4 \<Rightarrow> bool" where
  "ipv4_isLimitedBroadcastAddress a \<longleftrightarrow> a = 0xFFFFFFFF"

definition ipv4_isMulticast :: "ipv4 \<Rightarrow> bool" where
  "ipv4_isMulticast a \<longleftrightarrow> a AND 0xF0000000 = 0xE0000000"

definition ipv4_isUnicast :: "ipv4 \<Rightarrow> bool" where
  "ipv4_isUnicast a \<longleftrightarrow> \<not> ipv4_isMulticast a \<and> \<not> ipv4_isLimitedBroadcastAddress a"

section \<open>Text\<close>

definition ipv4_byte :: "ipv4 \<Rightarrow> nat \<Rightarrow> nat" where
  "ipv4_byte a k = unat (drop_bit k a AND 255)"

definition ipv4_str :: "ipv4 \<Rightarrow> string" where
  "ipv4_str a =
     (if ipv4_isUnspecified a then ''<unspec>''
      else show_nat (ipv4_byte a 24) @ CHR ''.'' # show_nat (ipv4_byte a 16) @ CHR ''.''
           # show_nat (ipv4_byte a 8) @ CHR ''.'' # show_nat (ipv4_byte a 0))"

text \<open>\<open>while (*s >= '0' && *s <= '9') num = 10 * num + ( *s++ - '0');\<close>\<close>

fun ipv4_read_number :: "nat \<Rightarrow> string \<Rightarrow> (nat \<times> string) res" where
  "ipv4_read_number num [] = Inr (num, [])"
| "ipv4_read_number num (c # s) =
     (if is_digit c
      then (let num' = 10 * num + (of_char c - 48)
            in if 2147483647 < num' then Inl (UndefinedBehaviour ''int overflow'')
               else ipv4_read_number num' s)
      else Inr (num, c # s))"

lemma ipv4_read_number_length:
  "ipv4_read_number num s = Inr (n, r) \<Longrightarrow> length r \<le> length s"
  by (induction num s arbitrary: n r rule: ipv4_read_number.induct)
    (auto simp: Let_def split: if_splits dest: le_SucI)

text \<open>The \<open>while (true)\<close> loop; \<open>None\<close> is \<open>return false\<close>, \<open>tobytes\<close> has the \<open>i\<close> bytes stored so far.\<close>

function ipv4_parse_loop :: "nat list \<Rightarrow> string \<Rightarrow> nat list option res" where
  "ipv4_parse_loop tobytes s =
     (case s of
        [] \<Rightarrow> Inr None
      | c # s1 \<Rightarrow>
          if \<not> is_digit c then Inr None
          else case ipv4_read_number 0 (c # s1) of
                 Inl e \<Rightarrow> Inl e
               | Inr (num, r) \<Rightarrow>
                   if 255 < num then Inr None
                   else (case r of
                           [] \<Rightarrow> Inr (if length (tobytes @ [num]) = 4 then Some (tobytes @ [num]) else None)
                         | d # r' \<Rightarrow>
                             if d \<noteq> CHR ''.'' then Inr None
                             else if length (tobytes @ [num]) = 4 then Inr None
                             else ipv4_parse_loop (tobytes @ [num]) r'))"
  by pat_completeness auto
termination
  by (relation "measure (\<lambda>(b, s). length s)") (auto simp del: ipv4_read_number.simps dest!: ipv4_read_number_length)

declare ipv4_parse_loop.simps [simp del]

definition ipv4_parseIPAddress :: "string \<Rightarrow> nat list option res" where
  "ipv4_parseIPAddress text =
     (if text = ''<unspec>'' then Inr (Some [0, 0, 0, 0]) else ipv4_parse_loop [] text)"

definition ipv4_set_bytes :: "nat \<Rightarrow> nat \<Rightarrow> nat \<Rightarrow> nat \<Rightarrow> ipv4" where
  "ipv4_set_bytes i0 i1 i2 i3 =
     push_bit 24 (word_of_nat i0) OR push_bit 16 (word_of_nat i1) OR push_bit 8 (word_of_nat i2)
     OR word_of_nat i3"

text \<open>\<open>Ipv4Address(const char *)\<close>\<close>

definition ipv4_of_string :: "string \<Rightarrow> ipv4 res" where
  "ipv4_of_string text =
     res_bind (ipv4_parseIPAddress text) (\<lambda>ok.
       case ok of
         Some [i0, i1, i2, i3] \<Rightarrow> Inr (ipv4_set_bytes i0 i1 i2 i3)
       | _ \<Rightarrow> Inl (RuntimeError ''Invalid Ipv4 address string''))"

definition ipv4_isWellFormed :: "string \<Rightarrow> bool res" where
  "ipv4_isWellFormed text = res_bind (ipv4_parseIPAddress text) (\<lambda>ok. Inr (ok \<noteq> None))"

section \<open>Printing and parsing numbers\<close>

lemma ipv4_read_digits:
  assumes "n \<le> 2147483647" and "r = [] \<or> \<not> is_digit (hd r)"
  shows "ipv4_read_number 0 (show_nat n @ r) = Inr (n, r)"
proof -
  have "ipv4_read_number 0 (show_nat n @ t) = ipv4_read_number n t" if "n \<le> 2147483647" for t
    using that
  proof (induction n arbitrary: t rule: show_nat.induct)
    case (1 n)
    show ?case
    proof (cases "n < 10")
      case True
      then show ?thesis by (simp add: show_nat.simps[of n] of_char_dec_digit)
    next
      case False
      have "n div 10 \<le> 2147483647" using "1.prems" by simp
      from "1.IH"[OF False this, of "dec_digit (n mod 10) # t"] False "1.prems"
      show ?thesis by (simp add: show_nat.simps[of n] of_char_dec_digit Let_def)
    qed
  qed
  from this[OF assms(1), of r] assms(2) show ?thesis by (cases r) auto
qed

section \<open>Round trip\<close>

lemma ipv4_parse_step:
  assumes "n \<le> 255" and "length bs < 3"
  shows "ipv4_parse_loop bs (show_nat n @ CHR ''.'' # r) = ipv4_parse_loop (bs @ [n]) r"
proof -
  obtain c s where s: "show_nat n = c # s" "is_digit c" using show_nat_hd by blast
  have "ipv4_read_number 0 (show_nat n @ CHR ''.'' # r) = Inr (n, CHR ''.'' # r)"
    by (rule ipv4_read_digits) (use assms in \<open>auto simp: is_digit_def\<close>)
  with s assms show ?thesis by (simp add: ipv4_parse_loop.simps[of bs])
qed

lemma ipv4_parse_last:
  assumes "n \<le> 255" and "length bs = 3"
  shows "ipv4_parse_loop bs (show_nat n) = Inr (Some (bs @ [n]))"
proof -
  obtain c s where s: "show_nat n = c # s" "is_digit c" using show_nat_hd by blast
  have "ipv4_read_number 0 (show_nat n @ []) = Inr (n, [])"
    by (rule ipv4_read_digits) (use assms in auto)
  with s assms show ?thesis by (simp add: ipv4_parse_loop.simps[of bs])
qed

lemma ipv4_byte_le: "ipv4_byte a k \<le> 255"
proof -
  have "unat (drop_bit k a AND 255) \<le> unat (255 :: ipv4)"
    by (rule word_le_nat_alt[THEN iffD1]) (rule word_and_le1)
  then show ?thesis by (simp add: ipv4_byte_def)
qed

lemma ipv4_set_bytes_byte:
  "ipv4_set_bytes (ipv4_byte a 24) (ipv4_byte a 16) (ipv4_byte a 8) (ipv4_byte a 0) = a"
proof -
  have ff: "(255 :: ipv4) = mask 8" by (simp add: mask_eq_exp_minus_1)
  have "bit (push_bit 24 (drop_bit 24 a AND mask 8) OR push_bit 16 (drop_bit 16 a AND mask 8) OR
      push_bit 8 (drop_bit 8 a AND mask 8) OR (a AND mask 8)) n = bit a n" if n: "n < 32" for n
  proof -
    consider "n < 8" | k where "n = 8 + k" "k < 8" | k where "n = 16 + k" "k < 8"
      | k where "n = 24 + k" "k < 8"
    proof -
      assume *: "n < 8 \<Longrightarrow> thesis" "\<And>k. n = 8 + k \<Longrightarrow> k < 8 \<Longrightarrow> thesis"
        "\<And>k. n = 16 + k \<Longrightarrow> k < 8 \<Longrightarrow> thesis" "\<And>k. n = 24 + k \<Longrightarrow> k < 8 \<Longrightarrow> thesis"
      show thesis
        using n *(1) *(2)[of "n - 8"] *(3)[of "n - 16"] *(4)[of "n - 24"] by linarith
    qed
    then show ?thesis by cases (simp_all add: bit_simps)
  qed
  then show ?thesis
    unfolding ipv4_set_bytes_def ipv4_byte_def ff by (intro bit_word_eqI) simp
qed

lemma ipv4_str_not_unspec:
  assumes "\<not> ipv4_isUnspecified a"
  shows "ipv4_str a \<noteq> ''<unspec>''"
proof -
  obtain c s where s: "show_nat (ipv4_byte a 24) = c # s" "is_digit c" using show_nat_hd by blast
  from s(2) have "c \<noteq> CHR ''<''" by (auto simp: is_digit_def)
  with s(1) assms show ?thesis by (simp add: ipv4_str_def)
qed

lemma ipv4_parse_str:
  "\<exists>i0 i1 i2 i3. ipv4_parseIPAddress (ipv4_str a) = Inr (Some [i0, i1, i2, i3]) \<and>
     ipv4_set_bytes i0 i1 i2 i3 = a"
proof (cases "ipv4_isUnspecified a")
  case True
  then show ?thesis
    by (simp add: ipv4_parseIPAddress_def ipv4_str_def ipv4_isUnspecified_def ipv4_set_bytes_def)
next
  case False
  have "ipv4_parseIPAddress (ipv4_str a) =
      Inr (Some [ipv4_byte a 24, ipv4_byte a 16, ipv4_byte a 8, ipv4_byte a 0])"
    unfolding ipv4_parseIPAddress_def if_not_P[OF ipv4_str_not_unspec[OF False]]
    unfolding ipv4_str_def if_not_P[OF False]
    by (simp only: ipv4_parse_step ipv4_parse_last ipv4_byte_le list.size append.simps)
  then show ?thesis using ipv4_set_bytes_byte[of a] by blast
qed

text \<open>What \<open>str\<close> prints, \<open>Ipv4Address(const char *)\<close> reads back, for every address.\<close>

theorem ipv4_roundtrip: "ipv4_of_string (ipv4_str a) = Inr a \<and> ipv4_isWellFormed (ipv4_str a) = Inr True"
  using ipv4_parse_str[of a] by (auto simp: ipv4_of_string_def ipv4_isWellFormed_def)

lemma ipv4_str_inj:
  assumes "ipv4_str a = ipv4_str b"
  shows "a = b"
proof -
  from ipv4_parse_str[of a] have "ipv4_of_string (ipv4_str a) = Inr a"
    by (auto simp: ipv4_of_string_def)
  moreover from ipv4_parse_str[of b] have "ipv4_of_string (ipv4_str b) = Inr b"
    by (auto simp: ipv4_of_string_def)
  ultimately show ?thesis unfolding assms by simp
qed

end
