(* ===== verification/MacAddress.thy ===== *)
theory MacAddress
  imports Ipv4Address
begin

text \<open>
  IEEE 802 addresses (\<open>linklayer/common/MacAddress.h\<close>, \<open>MacAddress.cc\<close>): 48 bits in the low part of a
  64-bit word, their bytes, text form and parser, the interface identifier made of them, the addresses
  of IPv4 multicast groups and the generated addresses.

  Shown: byte access, the round trip of text and parser, the EUI-64 form of the interface identifier,
  which groups share a multicast address and that generated addresses differ.
\<close>

type_synonym mac_address = "64 word"

section \<open>Bytes\<close>

definition MAC_ADDRESS_MASK :: mac_address where
  "MAC_ADDRESS_MASK = 0xFFFFFFFFFFFF"

definition mac_of_bits :: "64 word \<Rightarrow> mac_address" where
  "mac_of_bits b = b AND MAC_ADDRESS_MASK"

definition mac_getAddressByte :: "nat \<Rightarrow> mac_address \<Rightarrow> 8 word res" where
  "mac_getAddressByte k a =
     (if 6 \<le> k then Inl (RuntimeError ''Array of size 6 indexed'')
      else Inr (ucast (0xff AND drop_bit ((6 - k - 1) * 8) a)))"

definition mac_setAddressByte :: "nat \<Rightarrow> 8 word \<Rightarrow> mac_address \<Rightarrow> mac_address res" where
  "mac_setAddressByte k b a =
     (if 6 \<le> k then Inl (RuntimeError ''Array of size 6 indexed'')
      else Inr ((a AND NOT (push_bit ((6 - k - 1) * 8) 0xff)) OR push_bit ((6 - k - 1) * 8) (ucast b)))"

fun mac_get_loop :: "nat list \<Rightarrow> mac_address \<Rightarrow> 8 word list res" where
  "mac_get_loop [] a = Inr []"
| "mac_get_loop (k # ks) a =
     res_bind (mac_getAddressByte k a) (\<lambda>b. res_bind (mac_get_loop ks a) (\<lambda>bs. Inr (b # bs)))"

definition mac_getAddressBytes :: "mac_address \<Rightarrow> 8 word list res" where
  "mac_getAddressBytes a = mac_get_loop [0, 1, 2, 3, 4, 5] a"

text \<open>\<open>setAddressBytes\<close> takes an array of six bytes; a shorter one is read past its end.\<close>

fun mac_set_loop :: "nat list \<Rightarrow> 8 word list \<Rightarrow> mac_address \<Rightarrow> mac_address res" where
  "mac_set_loop [] bs a = Inr a"
| "mac_set_loop (k # ks) [] a = Inl (UndefinedBehaviour ''read past the array'')"
| "mac_set_loop (k # ks) (b # bs) a = res_bind (mac_setAddressByte k b a) (mac_set_loop ks bs)"

definition mac_setAddressBytes :: "8 word list \<Rightarrow> mac_address res" where
  "mac_setAddressBytes bs = mac_set_loop [0, 1, 2, 3, 4, 5] bs 0"

definition mac_isBroadcast :: "mac_address \<Rightarrow> bool" where
  "mac_isBroadcast a \<longleftrightarrow> a = MAC_ADDRESS_MASK"

definition mac_setBroadcast :: mac_address where
  "mac_setBroadcast = MAC_ADDRESS_MASK"

definition mac_isUnspecified :: "mac_address \<Rightarrow> bool" where
  "mac_isUnspecified a \<longleftrightarrow> a = 0"

definition mac_isMulticast :: "mac_address \<Rightarrow> bool" where
  "mac_isMulticast a \<longleftrightarrow> (case mac_getAddressByte 0 a of Inl e \<Rightarrow> False | Inr b \<Rightarrow> b AND 1 \<noteq> 0)"

definition mac_compareTo :: "mac_address \<Rightarrow> mac_address \<Rightarrow> int" where
  "mac_compareTo a b = (if a < b then - 1 else if a = b then 0 else 1)"

section \<open>Text\<close>

definition mac_hex_char :: "nat \<Rightarrow> char" where
  "mac_hex_char n = (if n < 10 then char_of (48 + n) else char_of (55 + n))"

text \<open>\<open>%2.2X-\<close> for each of the six bytes, without the last hyphen\<close>

definition mac_str :: "mac_address \<Rightarrow> string" where
  "mac_str a =
     (case mac_getAddressBytes a of
        Inl e \<Rightarrow> []
      | Inr bs \<Rightarrow> butlast (concat (map (\<lambda>b.
          [mac_hex_char (unat b div 16), mac_hex_char (unat b mod 16), CHR ''-'']) bs)))"

definition c_isdigit :: "char \<Rightarrow> bool" where
  "c_isdigit c \<longleftrightarrow> (48 :: nat) \<le> of_char c \<and> of_char c \<le> (57 :: nat)"

definition c_islower :: "char \<Rightarrow> bool" where
  "c_islower c \<longleftrightarrow> (97 :: nat) \<le> of_char c \<and> of_char c \<le> (122 :: nat)"

definition c_isxdigit :: "char \<Rightarrow> bool" where
  "c_isxdigit c \<longleftrightarrow> c_isdigit c \<or> (97 :: nat) \<le> of_char c \<and> of_char c \<le> (102 :: nat)
     \<or> (65 :: nat) \<le> of_char c \<and> of_char c \<le> (70 :: nat)"

text \<open>The syntax check: the number of hexadecimal digits, or nothing at a character of no meaning.\<close>

fun mac_count_digits :: "nat \<Rightarrow> string \<Rightarrow> nat option" where
  "mac_count_digits n [] = Some n"
| "mac_count_digits n (c # s) =
     (if c_isxdigit c then mac_count_digits (n + 1) s
      else if c \<noteq> CHR '' '' \<and> c \<noteq> CHR '':'' \<and> c \<noteq> CHR ''-'' then None
      else mac_count_digits n s)"

definition mac_digit :: "char \<Rightarrow> 8 word" where
  "mac_digit c =
     word_of_nat (if c_isdigit c then of_char c - 48
                  else if c_islower c then of_char c - 97 + 10 else of_char c - 65 + 10)"

fun mac_skip :: "string \<Rightarrow> string" where
  "mac_skip [] = []"
| "mac_skip (c # s) = (if c_isxdigit c then c # s else mac_skip s)"

text \<open>The conversion loop over the positions; the missing bytes of a short string are zero.\<close>

fun mac_parse_loop :: "nat list \<Rightarrow> string \<Rightarrow> mac_address \<Rightarrow> mac_address res" where
  "mac_parse_loop [] s a = Inr a"
| "mac_parse_loop (pos # ps) s a =
     (case mac_skip s of
        [] \<Rightarrow> res_bind (mac_setAddressByte pos 0 a) (mac_parse_loop ps [])
      | c # s1 \<Rightarrow>
          (case mac_skip s1 of
             [] \<Rightarrow> res_bind (mac_setAddressByte pos 0 a) (mac_parse_loop ps [])
           | c' # s2 \<Rightarrow>
               res_bind (mac_setAddressByte pos (push_bit 4 (mac_digit c) + mac_digit c') a)
                 (mac_parse_loop ps s2)))"

text \<open>\<open>tryParse\<close> of a string or of the null pointer: the result, and the address it leaves.\<close>

definition mac_tryParse :: "string option \<Rightarrow> mac_address \<Rightarrow> (bool \<times> mac_address) res" where
  "mac_tryParse hexstr a =
     (case hexstr of
        None \<Rightarrow> Inr (False, a)
      | Some s \<Rightarrow>
          (if mac_count_digits 0 s = Some (2 * 6)
           then res_bind (mac_parse_loop [0, 1, 2, 3, 4, 5] s 0) (\<lambda>a'. Inr (True, a'))
           else Inr (False, a)))"

definition mac_setAddress :: "string option \<Rightarrow> mac_address \<Rightarrow> mac_address res" where
  "mac_setAddress hexstr a =
     res_bind (mac_tryParse hexstr a) (\<lambda>(ok, a').
       if ok then Inr a' else Inl (RuntimeError ''MacAddress: wrong address syntax''))"

section \<open>Derived addresses\<close>

text \<open>The two words, low and high, of the interface token of 64 bits.\<close>

definition mac_formInterfaceIdentifier :: "mac_address \<Rightarrow> 32 word \<times> 32 word" where
  "mac_formInterfaceIdentifier a =
     (let high = ucast ((drop_bit 16 a OR 0xff) XOR 0x02000000);
          low = ucast (push_bit 24 0xfe OR (a AND 0xffffff) :: 64 word)
      in (low, high))"

text \<open>The counter is an \<open>unsigned int\<close>.\<close>

definition mac_generateAutoAddress :: "32 word \<Rightarrow> 32 word \<times> mac_address" where
  "mac_generateAutoAddress autoAddressCtr =
     (let ctr = autoAddressCtr + 1
      in (ctr, mac_of_bits (0x0AAA00000000 + (ucast ctr AND 0xffffffff))))"

definition ipv4_getDByte :: "nat \<Rightarrow> ipv4 \<Rightarrow> 8 word" where
  "ipv4_getDByte i a = ucast (drop_bit ((3 - i) * 8) a AND 0xFF)"

definition mac_makeMulticastAddress :: "ipv4 \<Rightarrow> mac_address res" where
  "mac_makeMulticastAddress addr =
     check_that (ipv4_isMulticast addr) (AssertFailed ''addr.isMulticast()'')
       (res_bind (mac_setAddressByte 0 0x01 0) (\<lambda>a0.
        res_bind (mac_setAddressByte 1 0x00 a0) (\<lambda>a1.
        res_bind (mac_setAddressByte 2 0x5e a1) (\<lambda>a2.
        res_bind (mac_setAddressByte 3 (ipv4_getDByte 1 addr AND 0x7f) a2) (\<lambda>a3.
        res_bind (mac_setAddressByte 4 (ipv4_getDByte 2 addr) a3) (\<lambda>a4.
        mac_setAddressByte 5 (ipv4_getDByte 3 addr) a4))))))"

section \<open>Lemmas\<close>

lemma ones_mask: "MAC_ADDRESS_MASK = mask 48" "(0xff :: 64 word) = mask 8"
  by (simp_all add: MAC_ADDRESS_MASK_def mask_eq_exp_minus_1)

text \<open>The two byte operations, bit by bit.\<close>

lemma mac_get_bit:
  assumes "mac_getAddressByte k a = Inr b"
  shows "k < 6" and "bit b n \<longleftrightarrow> n < 8 \<and> bit a ((5 - k) * 8 + n)"
  using assms by (auto simp: mac_getAddressByte_def ones_mask bit_simps split: if_splits)

lemma mac_set_bit:
  assumes "mac_setAddressByte k b a = Inr a'"
  shows "k < 6"
    and "bit a' n \<longleftrightarrow> (if (5 - k) * 8 \<le> n \<and> n < (5 - k) * 8 + 8 then bit b (n - (5 - k) * 8) else bit a n)"
proof -
  from assms show k: "k < 6" by (auto simp: mac_setAddressByte_def split: if_splits)
  from assms have a': "a' = (a AND NOT (push_bit ((5 - k) * 8) (mask 8))) OR push_bit ((5 - k) * 8) (ucast b)"
    by (auto simp: mac_setAddressByte_def ones_mask split: if_splits)
  have "(5 - k) * 8 + 8 \<le> 64" by simp
  then show "bit a' n \<longleftrightarrow>
      (if (5 - k) * 8 \<le> n \<and> n < (5 - k) * 8 + 8 then bit b (n - (5 - k) * 8) else bit a n)"
    unfolding a' by (auto simp: bit_simps dest: bit_imp_le_length)
qed

lemma mac_get_ok: "k < 6 \<Longrightarrow> \<exists>b. mac_getAddressByte k a = Inr b"
  by (simp add: mac_getAddressByte_def)

lemma mac_set_ok: "k < 6 \<Longrightarrow> \<exists>a'. mac_setAddressByte k b a = Inr a'"
  by (simp add: mac_setAddressByte_def)

lemma mac_byte_get_set:
  assumes j: "j < 6" and set: "mac_setAddressByte k b a = Inr a'"
  shows "mac_getAddressByte j a' = (if j = k then Inr b else mac_getAddressByte j a)"
proof -
  obtain x y where xy: "mac_getAddressByte j a' = Inr x" "mac_getAddressByte j a = Inr y"
    using mac_get_ok[OF j] by metis
  note k = mac_set_bit(1)[OF set]
  have "x = (if j = k then b else y)"
  proof (rule bit_word_eqI)
    fix n
    assume n: "n < LENGTH(8)"
    have "(5 - k) * 8 \<le> (5 - j) * 8 + n \<and> (5 - j) * 8 + n < (5 - k) * 8 + 8 \<longleftrightarrow> j = k"
      using n j k by auto
    then show "bit x n \<longleftrightarrow> bit (if j = k then b else y) n"
      using n by (auto simp: mac_get_bit(2)[OF xy(1)] mac_get_bit(2)[OF xy(2)] mac_set_bit(2)[OF set])
  qed
  then show ?thesis using xy by auto
qed

text \<open>The six bytes of an address, put together again, are its low 48 bits.\<close>

lemma mac_set_get_bytes:
  "res_bind (mac_getAddressBytes a) mac_setAddressBytes = Inr (a AND MAC_ADDRESS_MASK)"
proof -
  obtain b0 b1 b2 b3 b4 b5 where b: "mac_getAddressByte 0 a = Inr b0" "mac_getAddressByte 1 a = Inr b1"
    "mac_getAddressByte 2 a = Inr b2" "mac_getAddressByte 3 a = Inr b3" "mac_getAddressByte 4 a = Inr b4"
    "mac_getAddressByte 5 a = Inr b5"
    by (simp add: mac_getAddressByte_def)
  obtain a0 where a0: "mac_setAddressByte 0 b0 0 = Inr a0" using mac_set_ok[of 0] by auto
  obtain a1 where a1: "mac_setAddressByte 1 b1 a0 = Inr a1" using mac_set_ok[of 1] by auto
  obtain a2 where a2: "mac_setAddressByte 2 b2 a1 = Inr a2" using mac_set_ok[of 2] by auto
  obtain a3 where a3: "mac_setAddressByte 3 b3 a2 = Inr a3" using mac_set_ok[of 3] by auto
  obtain a4 where a4: "mac_setAddressByte 4 b4 a3 = Inr a4" using mac_set_ok[of 4] by auto
  obtain a5 where a5: "mac_setAddressByte 5 b5 a4 = Inr a5" using mac_set_ok[of 5] by auto
  have "a5 = a AND MAC_ADDRESS_MASK"
  proof (rule bit_word_eqI)
    fix n :: nat
    note bits = mac_set_bit(2)[OF a5] mac_set_bit(2)[OF a4] mac_set_bit(2)[OF a3] mac_set_bit(2)[OF a2]
      mac_set_bit(2)[OF a1] mac_set_bit(2)[OF a0]
      mac_get_bit(2)[OF b(1)] mac_get_bit(2)[OF b(2)] mac_get_bit(2)[OF b(3)] mac_get_bit(2)[OF b(4)]
      mac_get_bit(2)[OF b(5)] mac_get_bit(2)[OF b(6)]
    consider "n < 8" | "8 \<le> n \<and> n < 16" | "16 \<le> n \<and> n < 24" | "24 \<le> n \<and> n < 32" | "32 \<le> n \<and> n < 40"
      | "40 \<le> n \<and> n < 48" | "48 \<le> n" by linarith
    then show "bit a5 n \<longleftrightarrow> bit (a AND MAC_ADDRESS_MASK) n"
      by cases (auto simp: bits ones_mask bit_simps)
  qed
  then show ?thesis
    using a0 a1 a2 a3 a4 a5 b by (simp add: mac_getAddressBytes_def mac_setAddressBytes_def)
qed

lemma mac_hex_facts:
  assumes "n < 16"
  shows "c_isxdigit (mac_hex_char n)" and "mac_digit (mac_hex_char n) = word_of_nat n"
proof -
  have "of_char (mac_hex_char n) = (if n < 10 then 48 + n else 55 + n)"
    using assms by (simp add: mac_hex_char_def)
  then show "c_isxdigit (mac_hex_char n)" and "mac_digit (mac_hex_char n) = word_of_nat n"
    using assms by (auto simp: c_isxdigit_def c_isdigit_def c_islower_def mac_digit_def)
qed

lemma mac_digits_byte:
  fixes b :: "8 word"
  shows "push_bit 4 (word_of_nat (unat b div 16)) + word_of_nat (unat b mod 16) = b"
proof -
  have "push_bit 4 (word_of_nat (unat b div 16)) + word_of_nat (unat b mod 16) =
    (word_of_nat (unat b div 16 * 16 + unat b mod 16) :: 8 word)"
    unfolding of_nat_add of_nat_mult by (simp add: push_bit_eq_mult)
  also have "\<dots> = b" by simp
  finally show ?thesis .
qed

lemma mac_nibbles: "unat (b :: 8 word) div 16 < 16" "unat (b :: 8 word) mod 16 < 16"
  using unsigned_less[of b, where ?'a = nat] by simp_all

lemma mac_hyphen [simp]: "\<not> c_isxdigit CHR ''-''"
  by (simp add: c_isxdigit_def c_isdigit_def)

lemma mac_parse_byte:
  assumes "mac_parse_loop ks s = mac_set_loop ks bs"
  shows "mac_parse_loop (k # ks) (mac_hex_char (unat b div 16) # mac_hex_char (unat b mod 16) # s) =
    mac_set_loop (k # ks) (b # bs)"
proof (rule ext)
  fix a
  show "mac_parse_loop (k # ks) (mac_hex_char (unat b div 16) # mac_hex_char (unat b mod 16) # s) a =
    mac_set_loop (k # ks) (b # bs) a"
    using assms by (simp add: mac_hex_facts[OF mac_nibbles(1)] mac_hex_facts[OF mac_nibbles(2)] mac_digits_byte)
qed

lemma mac_parse_hyphen:
  assumes "mac_parse_loop (k # ks) s = mac_set_loop (k # ks) bs"
  shows "mac_parse_loop (k # ks) (CHR ''-'' # s) = mac_set_loop (k # ks) bs"
proof -
  have "mac_parse_loop (k # ks) (CHR ''-'' # s) = mac_parse_loop (k # ks) s" by (rule ext) simp
  with assms show ?thesis by simp
qed

lemma mac_parse_str:
  "mac_tryParse (Some (mac_str a)) a0 = Inr (True, a AND MAC_ADDRESS_MASK)"
proof -
  obtain b0 b1 b2 b3 b4 b5 where b: "mac_getAddressBytes a = Inr [b0, b1, b2, b3, b4, b5]"
    by (simp add: mac_getAddressBytes_def mac_getAddressByte_def)
  have set: "mac_setAddressBytes [b0, b1, b2, b3, b4, b5] = Inr (a AND MAC_ADDRESS_MASK)"
    using mac_set_get_bytes[of a] b by simp
  note hex = mac_hex_facts[OF mac_nibbles(1)] mac_hex_facts[OF mac_nibbles(2)]
  have count: "mac_count_digits 0 (mac_str a) = Some 12"
    by (simp add: mac_str_def b hex)
  have end_loop: "mac_parse_loop [] [] = mac_set_loop [] []" by (rule ext) simp
  have "mac_parse_loop [0, 1, 2, 3, 4, 5] (mac_str a) = mac_set_loop [0, 1, 2, 3, 4, 5] [b0, b1, b2, b3, b4, b5]"
    unfolding mac_str_def b
    by simp (intro mac_parse_byte mac_parse_hyphen end_loop)
  with count set show ?thesis by (simp add: mac_tryParse_def mac_setAddressBytes_def)
qed

section \<open>Properties\<close>

text \<open>
  What \<open>str\<close> prints, \<open>setAddress\<close> reads back, whatever the object held before: the low 48 bits of
  the word come back, so every address made by the public constructors does.
\<close>

theorem mac_text_roundtrip:
  "mac_setAddress (Some (mac_str a)) a0 = Inr (mac_of_bits a)"
  by (simp add: mac_setAddress_def mac_parse_str mac_of_bits_def)

text \<open>The bytes of an IPv4 address.\<close>

lemma ipv4_getDByte_bit: "i < 4 \<Longrightarrow> bit (ipv4_getDByte i g) n \<longleftrightarrow> n < 8 \<and> bit g ((3 - i) * 8 + n)"
proof -
  have ff: "(0xFF :: 32 word) = mask 8" by (simp add: mask_eq_exp_minus_1)
  show ?thesis unfolding ipv4_getDByte_def ff by (auto simp: bit_simps)
qed

text \<open>The group address, bit by bit.\<close>

lemma mac_multicast_bits:
  assumes "ipv4_isMulticast g"
  shows "\<exists>m. mac_makeMulticastAddress g = Inr m \<and>
    (\<forall>n. bit m n \<longleftrightarrow> n < 23 \<and> bit g n \<or> n \<in> {25, 26, 27, 28, 30, 40})"
proof -
  let ?b3 = "ipv4_getDByte 1 g AND 0x7f"
  obtain a0 where a0: "mac_setAddressByte 0 0x01 0 = Inr a0" using mac_set_ok[of 0] by auto
  obtain a1 where a1: "mac_setAddressByte 1 0x00 a0 = Inr a1" using mac_set_ok[of 1] by auto
  obtain a2 where a2: "mac_setAddressByte 2 0x5e a1 = Inr a2" using mac_set_ok[of 2] by auto
  obtain a3 where a3: "mac_setAddressByte 3 ?b3 a2 = Inr a3" using mac_set_ok[of 3] by auto
  obtain a4 where a4: "mac_setAddressByte 4 (ipv4_getDByte 2 g) a3 = Inr a4" using mac_set_ok[of 4] by auto
  obtain a5 where a5: "mac_setAddressByte 5 (ipv4_getDByte 3 g) a4 = Inr a5" using mac_set_ok[of 5] by auto
  note bits = mac_set_bit(2)[OF a5] mac_set_bit(2)[OF a4] mac_set_bit(2)[OF a3] mac_set_bit(2)[OF a2]
    mac_set_bit(2)[OF a1] mac_set_bit(2)[OF a0]
  have x7f: "(0x7f :: 8 word) = mask 7" by (simp add: mask_eq_exp_minus_1)
  have x01: "bit (0x01 :: 8 word) n \<longleftrightarrow> n = 0" for n by (simp add: bit_1_iff)
  have x5e: "bit (0x5e :: 8 word) n \<longleftrightarrow> n \<in> {1, 2, 3, 4, 6}" for n
  proof (cases "n < 8")
    case True
    then have "n \<in> {0, 1, 2, 3, 4, 5, 6, 7}" by (simp, arith)
    then show ?thesis by auto
  qed (auto dest: bit_imp_le_length)
  have "bit a5 n \<longleftrightarrow> n < 23 \<and> bit g n \<or> n \<in> {25, 26, 27, 28, 30, 40}" for n :: nat
  proof -
    consider "n < 8" | "8 \<le> n \<and> n < 16" | "16 \<le> n \<and> n < 23" | "n = 23" | "24 \<le> n \<and> n < 32"
      | "32 \<le> n \<and> n < 40" | "40 \<le> n \<and> n < 48" | "48 \<le> n" by linarith
    then show ?thesis
      using x5e[of "n - 24"]
      by cases (auto simp: bits ipv4_getDByte_bit x7f x01 bit_simps)
  qed
  then show ?thesis
    using a0 a1 a2 a3 a4 a5 assms by (auto simp: mac_makeMulticastAddress_def)
qed

lemma mac_multicast_isMulticast:
  assumes "bit m 40"
  shows "mac_isMulticast m"
proof -
  obtain b where b: "mac_getAddressByte 0 m = Inr b" using mac_get_ok[of 0] by auto
  from assms have "bit b 0" by (simp add: mac_get_bit(2)[OF b])
  then have "b AND 1 \<noteq> 0" by (simp add: bit_0 and_one_eq odd_iff_mod_2_eq_one)
  with b show ?thesis by (simp add: mac_isMulticast_def)
qed



text \<open>
  The interface identifier of an address is its modified EUI-64 form: the organisation's three
  bytes with the universal bit inverted, ff and fe, then the last three bytes.
\<close>

theorem mac_eui64:
  "(bit (fst (mac_formInterfaceIdentifier a)) n \<longleftrightarrow>
      n < 24 \<and> bit a n \<or> n \<in> {25, 26, 27, 28, 29, 30, 31}) \<and>
   (bit (snd (mac_formInterfaceIdentifier a)) n \<longleftrightarrow>
      n < 8 \<or> n < 32 \<and> (bit a (n + 16) \<noteq> (n = 25)))"
proof
  have fe: "bit (push_bit 24 0xfe :: 64 word) n \<longleftrightarrow> n \<in> {25, 26, 27, 28, 29, 30, 31}"
  proof -
    have "(0xfe :: 64 word) = push_bit 1 (mask 7)" by (simp add: mask_eq_exp_minus_1)
    then have "push_bit 24 0xfe = (push_bit 25 (mask 7) :: 64 word)" by (simp only: push_bit_push_bit) simp
    moreover have "n \<in> {25, 26, 27, 28, 29, 30, 31} \<longleftrightarrow> 25 \<le> n \<and> n < 32" by (simp, arith)
    ultimately show ?thesis by (simp only: bit_simps) auto
  qed
  have m24: "(0xffffff :: 64 word) = mask 24" by (simp add: mask_eq_exp_minus_1)
  show "bit (fst (mac_formInterfaceIdentifier a)) n \<longleftrightarrow>
      n < 24 \<and> bit a n \<or> n \<in> {25, 26, 27, 28, 29, 30, 31}"
    unfolding mac_formInterfaceIdentifier_def Let_def fst_conv m24
    by (auto simp: bit_or_iff bit_and_iff bit_ucast_iff bit_mask_iff fe simp del: push_bit_numeral)
  have x2: "bit (0x02000000 :: 64 word) n \<longleftrightarrow> n = 25"
  proof -
    have p: "(0x02000000 :: 64 word) = push_bit 25 1" by simp
    show ?thesis unfolding p bit_push_bit_iff bit_1_iff by auto
  qed
  show "bit (snd (mac_formInterfaceIdentifier a)) n \<longleftrightarrow>
      n < 8 \<or> n < 32 \<and> (bit a (n + 16) \<noteq> (n = 25))"
    unfolding mac_formInterfaceIdentifier_def Let_def snd_conv ones_mask bit_ucast_iff bit_xor_iff
      bit_or_iff x2 bit_mask_iff bit_drop_bit_eq comp_def
    by (auto simp: add.commute)
qed

text \<open>The addresses generated by successive calls.\<close>

fun mac_generate :: "nat \<Rightarrow> 32 word \<Rightarrow> mac_address list" where
  "mac_generate 0 ctr = []"
| "mac_generate (Suc n) ctr =
     (case mac_generateAutoAddress ctr of (ctr', a) \<Rightarrow> a # mac_generate n ctr')"

definition mac_auto_base :: "32 word \<Rightarrow> mac_address" where
  "mac_auto_base ctr = 0x0AAA00000000 + ucast ctr"

lemma mac_auto_value: "mac_generateAutoAddress ctr = (ctr + 1, mac_auto_base (ctr + 1))"
proof -
  have *: "unat (ucast c :: 64 word) = unat c" and lt: "unat c < 2 ^ 32" for c :: "32 word"
    using unsigned_less[of c, where ?'a = nat]
    by (simp_all add: unsigned_ucast_eq take_bit_nat_eq_self)
  have m32: "(0xffffffff :: 64 word) = mask 32" by (simp add: mask_eq_exp_minus_1)
  have a: "(ucast c :: 64 word) AND 0xffffffff = ucast c" for c :: "32 word"
    unfolding m32 by (rule bit_word_eqI) (auto simp: bit_simps dest: bit_imp_le_length)
  have "mac_of_bits (0x0AAA00000000 + ucast c) = 0x0AAA00000000 + ucast c" for c :: "32 word"
  proof -
    have "unat (0x0AAA00000000 + ucast c :: 64 word) < 2 ^ 48"
      using lt[of c] *[of c] by (simp add: unat_word_ariths)
    then have "unat (take_bit 48 (0x0AAA00000000 + ucast c :: 64 word)) = unat (0x0AAA00000000 + ucast c :: 64 word)"
      by (simp add: unsigned_take_bit_eq take_bit_nat_eq_self)
    then show ?thesis
      unfolding mac_of_bits_def ones_mask by (simp only: word_unat_eq_iff take_bit_eq_mask)
  qed
  then show ?thesis by (simp add: mac_generateAutoAddress_def mac_auto_base_def Let_def a)
qed

lemma mac_auto_unat: "unat (mac_auto_base ctr) = 0x0AAA00000000 + unat ctr"
proof -
  have "unat ctr < 2 ^ 32" using unsigned_less[of ctr, where ?'a = nat] by simp
  then show ?thesis
    by (simp add: mac_auto_base_def unat_word_ariths unsigned_ucast_eq take_bit_nat_eq_self)
qed

lemma mac_auto_inject: "mac_auto_base c = mac_auto_base c' \<longleftrightarrow> c = c'"
  by (metis mac_auto_unat add_left_imp_eq word_unat_eq_iff)

lemma mac_generate_nth:
  "mac_generate n ctr = map (\<lambda>i. mac_auto_base (ctr + 1 + word_of_nat i)) [0..<n]"
proof (induction n arbitrary: ctr)
  case (Suc n)
  show ?case
    unfolding map_upt_Suc by (simp add: mac_auto_value Suc.IH algebra_simps)
qed simp

lemma mac_auto_unicast: "\<not> mac_isMulticast (mac_auto_base c)" and mac_auto_specified: "mac_auto_base c \<noteq> 0"
  and mac_auto_range: "mac_of_bits (mac_auto_base c) = mac_auto_base c"
proof -
  have lt: "unat c < 2 ^ 32" using unsigned_less[of c, where ?'a = nat] by simp
  have "unat (drop_bit 40 (mac_auto_base c)) = 0x0A"
    using lt unfolding unsigned_drop_bit_eq mac_auto_unat by (simp add: drop_bit_eq_div take_bit_nat_eq_self)
  then have "drop_bit 40 (mac_auto_base c) = 0x0A" by (simp add: word_unat_eq_iff)
  then show "\<not> mac_isMulticast (mac_auto_base c)"
    by (simp add: mac_isMulticast_def mac_getAddressByte_def)
  show "mac_auto_base c \<noteq> 0"
    using mac_auto_unat[of c] by auto
  have "unat (take_bit 48 (mac_auto_base c)) = unat (mac_auto_base c)"
    using lt by (simp add: unsigned_take_bit_eq take_bit_nat_eq_self mac_auto_unat)
  then show "mac_of_bits (mac_auto_base c) = mac_auto_base c"
    unfolding mac_of_bits_def ones_mask by (simp only: word_unat_eq_iff take_bit_eq_mask)
qed

text \<open>
  The addresses generated one after the other are unicast, not unspecified, and differ until the
  32-bit counter has gone round.
\<close>

theorem mac_generated_distinct:
  assumes "n \<le> 2 ^ 32"
  shows "distinct (mac_generate n ctr) \<and>
    (\<forall>a \<in> set (mac_generate n ctr). \<not> mac_isMulticast a \<and> \<not> mac_isUnspecified a \<and> mac_of_bits a = a)"
proof
  have "inj_on (\<lambda>i. ctr + 1 + word_of_nat i :: 32 word) {0..<n}"
  proof (rule inj_onI)
    fix i j
    assume "i \<in> {0..<n}" "j \<in> {0..<n}" "ctr + 1 + word_of_nat i = ctr + 1 + (word_of_nat j :: 32 word)"
    then show "i = j" using assms by (simp add: word_of_nat_eq_iff take_bit_nat_eq_self)
  qed
  then show "distinct (mac_generate n ctr)"
    by (auto simp: mac_generate_nth distinct_map inj_on_def mac_auto_inject)
qed (auto simp: mac_generate_nth mac_auto_unicast mac_auto_specified mac_auto_range mac_isUnspecified_def)

theorem mac_generated_distinct_witness: "distinct (mac_generate 3 0xFFFFFFFF)"
  using mac_generated_distinct[of 3 "0xFFFFFFFF"] by simp

end
