(* ===== verification/Ipv6Address.thy ===== *)
theory Ipv6Address
  imports MacAddress
begin

text \<open>
  IPv6 addresses (\<open>networklayer/contract/ipv6/Ipv6Address.h\<close>, \<open>Ipv6Address.cc\<close>): four 32-bit words, their
  text with the gap of zeroes, the parser built on \<open>strtoul\<close>, scopes, and the operations on prefixes.

  The pointer into the text is the text that is left. \<open>unsigned long\<close> has 64 bits. The interface token
  of \<open>formLinkLocalAddress\<close> is given by its two words and its length.

  Shown: the parser reads back what \<open>str\<close> prints, for every address; the gap printed as \<open>::\<close> is the
  leftmost of the longest runs of zero groups; the operations on prefixes act on the first bits.
\<close>

record ipv6 =
  ip6_d0 :: "32 word"
  ip6_d1 :: "32 word"
  ip6_d2 :: "32 word"
  ip6_d3 :: "32 word"

definition ipv6_of_words :: "32 word \<Rightarrow> 32 word \<Rightarrow> 32 word \<Rightarrow> 32 word \<Rightarrow> ipv6" where
  "ipv6_of_words s0 s1 s2 s3 = \<lparr>ip6_d0 = s0, ip6_d1 = s1, ip6_d2 = s2, ip6_d3 = s3\<rparr>"

definition ipv6_zero :: ipv6 where
  "ipv6_zero = ipv6_of_words 0 0 0 0"

definition ipv6_of_hi_lo :: "64 word \<Rightarrow> 64 word \<Rightarrow> ipv6" where
  "ipv6_of_hi_lo hi lo =
     ipv6_of_words (ucast (drop_bit 32 hi AND 0xFFFFFFFF)) (ucast (hi AND 0xFFFFFFFF))
       (ucast (drop_bit 32 lo AND 0xFFFFFFFF)) (ucast (lo AND 0xFFFFFFFF))"

definition ipv6_isUnspecified :: "ipv6 \<Rightarrow> bool" where
  "ipv6_isUnspecified a \<longleftrightarrow> ip6_d0 a OR ip6_d1 a OR ip6_d2 a OR ip6_d3 a = 0"

definition ipv6_eq :: "ipv6 \<Rightarrow> ipv6 \<Rightarrow> bool" where
  "ipv6_eq a b \<longleftrightarrow> ip6_d3 a = ip6_d3 b \<and> ip6_d2 a = ip6_d2 b \<and> ip6_d1 a = ip6_d1 b \<and> ip6_d0 a = ip6_d0 b"

definition ipv6_compare :: "ipv6 \<Rightarrow> ipv6 \<Rightarrow> int" where
  "ipv6_compare a b =
     (if ip6_d0 a < ip6_d0 b then -1 else if ip6_d0 b < ip6_d0 a then 1
      else if ip6_d1 a < ip6_d1 b then -1 else if ip6_d1 b < ip6_d1 a then 1
      else if ip6_d2 a < ip6_d2 b then -1 else if ip6_d2 b < ip6_d2 a then 1
      else if ip6_d3 a < ip6_d3 b then -1 else if ip6_d3 b < ip6_d3 a then 1 else 0)"

section \<open>Numbers of the C library\<close>

text \<open>
  \<open>strtoul\<close>: blanks, a sign, the prefix \<open>0x\<close> for base 16, digits; the value saturates and is negated for a
  minus sign. Nothing when no digit is converted.
\<close>

fun strtoul_0x :: "nat \<Rightarrow> string \<Rightarrow> string" where
  "strtoul_0x base (z # x # c # s) =
     (if base = 16 \<and> z = CHR ''0'' \<and> (x = CHR ''x'' \<or> x = CHR ''X'') \<and> c_digit 16 c \<noteq> None then c # s
      else z # x # c # s)"
| "strtoul_0x base s = s"

definition c_strtoul :: "nat \<Rightarrow> string \<Rightarrow> (nat \<times> string) option" where
  "c_strtoul base s =
     (case strtoul_sign s of (neg, s1) \<Rightarrow>
        case strtoul_0x base s1 of
          [] \<Rightarrow> None
        | c # t \<Rightarrow>
            if c_digit base c = None then None
            else case c_read_digits base 0 (c # t) of
                   (n, rest) \<Rightarrow>
                     Some (if 2 ^ 64 \<le> n then 2 ^ 64 - 1 else if neg then (2 ^ 64 - n) mod 2 ^ 64 else n, rest))"

section \<open>The parser\<close>

lemma strtoul_0x_length: "length (strtoul_0x base s) \<le> length s"
  by (cases "(base, s)" rule: strtoul_0x.cases) auto

lemma c_strtoul_length:
  assumes "c_strtoul base s = Some (n, rest)"
  shows "length rest < length s"
proof -
  obtain neg s1 where s1: "strtoul_sign s = (neg, s1)" by (cases "strtoul_sign s")
  with assms obtain c t d where t: "strtoul_0x base s1 = c # t" "c_digit base c = Some d"
    and rest: "snd (c_read_digits base d t) = rest"
    by (auto simp: c_strtoul_def split: list.splits if_splits prod.splits)
  have "length rest \<le> length t" using c_read_digits_length[of base d t] rest by simp
  with t strtoul_0x_length[of base s1] strtoul_sign_length[of s] s1 show ?thesis by simp
qed

text \<open>The groups so far and the text that is left.\<close>

function parseGroups :: "nat list \<Rightarrow> string \<Rightarrow> nat list \<times> string" where
  "parseGroups groups s =
     (case c_strtoul 16 s of
        None \<Rightarrow> (groups, if groups \<noteq> [] then CHR '':'' # s else s)
      | Some (grp, e) \<Rightarrow>
          if 0xffff < grp then (groups, s)
          else let groups1 = groups @ [grp]
               in if e = [] \<or> hd e \<noteq> CHR '':'' \<or> length groups1 = 8 then (groups1, e)
                  else parseGroups groups1 (tl e))"
  by pat_completeness auto
termination
  by (relation "measure (\<lambda>(groups, s). length s)") (auto dest!: c_strtoul_length)

declare parseGroups.simps [simp del]

text \<open>Two groups in a word.\<close>

definition ipv6_word :: "nat list \<Rightarrow> nat \<Rightarrow> 32 word" where
  "ipv6_word groups i = push_bit 16 (word_of_nat (groups ! (2 * i))) + word_of_nat (groups ! (2 * i + 1))"

definition ipv6_of_groups :: "nat list \<Rightarrow> ipv6" where
  "ipv6_of_groups groups =
     ipv6_of_words (ipv6_word groups 0) (ipv6_word groups 1) (ipv6_word groups 2) (ipv6_word groups 3)"

text \<open>The loop that merges the groups behind \<open>::\<close>.\<close>

definition merge_groups :: "nat list \<Rightarrow> nat list \<Rightarrow> nat list" where
  "merge_groups groups suffixGroups =
     groups @ map (\<lambda>i. if int i - 8 + int (length suffixGroups) < 0 then 0
                       else suffixGroups ! (i + length suffixGroups - 8)) [length groups..<8]"

text \<open>The result, the text left, and the address in the object.\<close>

definition ipv6_doTryParse :: "string \<Rightarrow> ipv6 \<Rightarrow> bool \<times> string \<times> ipv6" where
  "ipv6_doTryParse addr a =
     (if addr = ''<unspec>'' then (True, [], ipv6_zero)
      else case parseGroups [] addr of (groups, s) \<Rightarrow>
        let finish = (\<lambda>groups s. if length groups \<noteq> 8 then (False, s, a) else (True, s, ipv6_of_groups groups))
        in if take 2 s = ''::'' then
             (case parseGroups [] (drop 2 s) of (suffixGroups, s1) \<Rightarrow>
                if 8 < length groups + length suffixGroups then (False, s1, a)
                else finish (merge_groups groups suffixGroups) s1)
           else finish groups s)"

definition ipv6_tryParse :: "string option \<Rightarrow> ipv6 \<Rightarrow> bool \<times> ipv6" where
  "ipv6_tryParse addr a =
     (case addr of
        None \<Rightarrow> (False, a)
      | Some text \<Rightarrow> (case ipv6_doTryParse text a of (ok, rest, a') \<Rightarrow> (ok \<and> rest = [], a')))"

text \<open>The address with a prefix length; the object and \<open>prefixLen\<close> as they are left.\<close>

definition ipv6_tryParseAddrWithPrefix :: "string option \<Rightarrow> ipv6 \<Rightarrow> int \<Rightarrow> bool \<times> ipv6 \<times> int" where
  "ipv6_tryParseAddrWithPrefix addr a prefixLen =
     (case addr of
        None \<Rightarrow> (False, a, prefixLen)
      | Some text \<Rightarrow>
          (case ipv6_doTryParse text a of (ok, s, a') \<Rightarrow>
             if \<not> ok \<or> s = [] \<or> hd s \<noteq> CHR ''/'' then (False, a', prefixLen)
             else case c_strtoul 10 (tl s) of
                    None \<Rightarrow> (False, a', 0)
                  | Some (n, e) \<Rightarrow>
                      let len = sint (word_of_nat n :: 32 word)
                      in (e = [] \<and> 0 \<le> len \<and> len \<le> 128, a', len)))"

definition ipv6_set_text :: "string option \<Rightarrow> ipv6 \<Rightarrow> ipv6 res" where
  "ipv6_set_text addr a =
     (case ipv6_tryParse addr a of (ok, a') \<Rightarrow>
        if ok then Inr a' else Inl (RuntimeError ''Ipv6Address: cannot interpret address string''))"

section \<open>Text\<close>

text \<open>One turn of the loop of \<open>findGap\<close>: \<open>start\<close>, \<open>end\<close> and \<open>beg\<close>, nothing for -1.\<close>

fun gap_step :: "nat list \<Rightarrow> nat \<times> nat \<times> nat option \<Rightarrow> nat \<Rightarrow> nat \<times> nat \<times> nat option" where
  "gap_step groups (start, stop, None) i =
     (if groups ! i = 0 then (start, stop, Some i) else (start, stop, None))"
| "gap_step groups (start, stop, Some beg) i =
     (if groups ! i \<noteq> 0 then
        (if 2 \<le> i - beg \<and> stop - start < i - beg then (beg, i, None) else (start, stop, None))
      else (start, stop, Some beg))"

definition findGap :: "nat list \<Rightarrow> nat \<times> nat" where
  "findGap groups =
     (case foldl (gap_step groups) (0, 0, None) [0..<8] of (start, stop, beg) \<Rightarrow>
        case beg of
          None \<Rightarrow> (start, stop)
        | Some b \<Rightarrow> if b \<le> 6 \<and> stop - start < 8 - b then (b, 8) else (start, stop))"

definition ipv6_groups :: "ipv6 \<Rightarrow> nat list" where
  "ipv6_groups a =
     concat (map (\<lambda>d. [unat (drop_bit 16 d), unat (d AND 0xffff)]) [ip6_d0 a, ip6_d1 a, ip6_d2 a, ip6_d3 a])"

text \<open>The loops that print the groups before and behind the gap.\<close>

fun join_groups :: "nat list \<Rightarrow> string" where
  "join_groups [] = []"
| "join_groups [g] = show_hex g"
| "join_groups (g # gs) = show_hex g @ CHR '':'' # join_groups gs"

definition ipv6_str :: "ipv6 \<Rightarrow> string" where
  "ipv6_str a =
     (if ipv6_isUnspecified a then ''<unspec>''
      else let groups = ipv6_groups a
      in case findGap groups of (start, stop) \<Rightarrow>
           if start = 0 \<and> stop = 8 then ''::0''
           else join_groups (take start groups) @ (if start \<noteq> stop then ''::'' else []) @ join_groups (drop stop groups))"

section \<open>Scopes\<close>

datatype ipv6_scope = SCOPE_UNSPECIFIED | SCOPE_LOOPBACK | SCOPE_MULTICAST | SCOPE_LINK | SCOPE_SITE | SCOPE_GLOBAL

definition ipv6_getScope :: "ipv6 \<Rightarrow> ipv6_scope" where
  "ipv6_getScope a =
     (if ip6_d0 a AND 0xFFC00000 = 0xFE800000 then SCOPE_LINK
      else if ip6_d0 a AND 0xFFC00000 = 0xFEC00000 then SCOPE_SITE
      else if ip6_d0 a AND 0xFF000000 = 0xFF000000 then SCOPE_MULTICAST
      else if ip6_d0 a = 0 \<and> ip6_d1 a = 0 \<and> ip6_d2 a = 0 then
        (if ip6_d3 a = 0 then SCOPE_UNSPECIFIED else if ip6_d3 a = 1 then SCOPE_LOOPBACK else SCOPE_GLOBAL)
      else SCOPE_GLOBAL)"

fun ipv6_scopeName :: "ipv6_scope \<Rightarrow> string" where
  "ipv6_scopeName SCOPE_UNSPECIFIED = ''unspec''"
| "ipv6_scopeName SCOPE_LOOPBACK = ''loopback''"
| "ipv6_scopeName SCOPE_MULTICAST = ''mcast''"
| "ipv6_scopeName SCOPE_LINK = ''link''"
| "ipv6_scopeName SCOPE_SITE = ''site''"
| "ipv6_scopeName SCOPE_GLOBAL = ''global''"

definition ipv6_isMulticast :: "ipv6 \<Rightarrow> bool" where
  "ipv6_isMulticast a \<longleftrightarrow> ipv6_getScope a = SCOPE_MULTICAST"

definition ipv6_isUnicast :: "ipv6 \<Rightarrow> bool" where
  "ipv6_isUnicast a \<longleftrightarrow> ipv6_getScope a \<noteq> SCOPE_MULTICAST \<and> ipv6_getScope a \<noteq> SCOPE_UNSPECIFIED"

definition ipv6_isLoopback :: "ipv6 \<Rightarrow> bool" where
  "ipv6_isLoopback a \<longleftrightarrow> ipv6_getScope a = SCOPE_LOOPBACK"

definition ipv6_isSiteLocal :: "ipv6 \<Rightarrow> bool" where
  "ipv6_isSiteLocal a \<longleftrightarrow> ipv6_getScope a = SCOPE_SITE"

definition ipv6_isGlobal :: "ipv6 \<Rightarrow> bool" where
  "ipv6_isGlobal a \<longleftrightarrow> ipv6_getScope a = SCOPE_GLOBAL"

definition ipv6_isLinkLocal :: "ipv6 \<Rightarrow> bool" where
  "ipv6_isLinkLocal a \<longleftrightarrow> ipv6_getScope a = SCOPE_LINK"

definition ipv6_getMulticastScope :: "ipv6 \<Rightarrow> nat res" where
  "ipv6_getMulticastScope a =
     (if ip6_d0 a AND 0xFF000000 \<noteq> 0xFF000000 then Inl (RuntimeError ''getMulticastScope: not a multicast address'')
      else Inr (unat (drop_bit 16 (ip6_d0 a) AND 0x0F)))"

section \<open>Prefixes\<close>

definition ipv6_constructMask :: "int \<Rightarrow> ipv6 res" where
  "ipv6_constructMask prefixLength =
     check_that (0 \<le> prefixLength \<and> prefixLength \<le> 128) (AssertFailed ''constructMask'')
       (let p = nat prefixLength; ones = 0xFFFFFFFF
        in Inr (if p = 0 then ipv6_zero
           else if p \<le> 32 then ipv6_of_words (push_bit (32 - p) ones) 0 0 0
           else if p \<le> 64 then ipv6_of_words ones (push_bit (64 - p) ones) 0 0
           else if p \<le> 96 then ipv6_of_words ones ones (push_bit (96 - p) ones) 0
           else ipv6_of_words ones ones ones (push_bit (128 - p) ones)))"

text \<open>An operation on the four words of two addresses\<close>

definition ipv6_map2 :: "(32 word \<Rightarrow> 32 word \<Rightarrow> 32 word) \<Rightarrow> ipv6 \<Rightarrow> ipv6 \<Rightarrow> ipv6" where
  "ipv6_map2 f a b =
     ipv6_of_words (f (ip6_d0 a) (ip6_d0 b)) (f (ip6_d1 a) (ip6_d1 b)) (f (ip6_d2 a) (ip6_d2 b)) (f (ip6_d3 a) (ip6_d3 b))"

definition ipv6_getPrefix :: "ipv6 \<Rightarrow> int \<Rightarrow> ipv6 res" where
  "ipv6_getPrefix a prefixLength =
     res_bind (ipv6_constructMask prefixLength) (\<lambda>mask. Inr (ipv6_map2 (\<lambda>d m. d AND m) a mask))"

definition ipv6_getSuffix :: "ipv6 \<Rightarrow> int \<Rightarrow> ipv6 res" where
  "ipv6_getSuffix a prefixLength =
     res_bind (ipv6_constructMask prefixLength) (\<lambda>mask. Inr (ipv6_map2 (\<lambda>d m. d AND NOT m) a mask))"

definition ipv6_setPrefix :: "ipv6 \<Rightarrow> ipv6 \<Rightarrow> int \<Rightarrow> ipv6 res" where
  "ipv6_setPrefix a fromAddr prefixLength =
     res_bind (ipv6_constructMask prefixLength) (\<lambda>mask.
       Inr (ipv6_map2 (\<lambda>x y. x OR y) (ipv6_map2 (\<lambda>d m. d AND NOT m) a mask)
              (ipv6_map2 (\<lambda>d m. d AND m) fromAddr mask)))"

definition ipv6_setSuffix :: "ipv6 \<Rightarrow> ipv6 \<Rightarrow> int \<Rightarrow> ipv6 res" where
  "ipv6_setSuffix a fromAddr prefixLength =
     res_bind (ipv6_constructMask prefixLength) (\<lambda>mask.
       Inr (ipv6_map2 (\<lambda>x y. x OR y) (ipv6_map2 (\<lambda>d m. d AND m) a mask)
              (ipv6_map2 (\<lambda>d m. d AND NOT m) fromAddr mask)))"

definition ipv6_matches :: "ipv6 \<Rightarrow> ipv6 \<Rightarrow> int \<Rightarrow> bool res" where
  "ipv6_matches a prefix prefixLength =
     res_bind (ipv6_constructMask prefixLength) (\<lambda>mask.
       let x = ipv6_map2 (\<lambda>d m. d AND m) (ipv6_map2 (\<lambda>c d. c XOR d) a prefix) mask
       in Inr (ip6_d0 x OR ip6_d1 x OR ip6_d2 x OR ip6_d3 x = 0))"

text \<open>\<open>SOLICITED_NODE_PREFIX\<close> is \<open>FF02:0:0:0:0:1:FF00:0\<close>, \<open>LINKLOCAL_PREFIX\<close> is \<open>FE80::\<close>.\<close>

definition SOLICITED_NODE_PREFIX :: ipv6 where
  "SOLICITED_NODE_PREFIX = ipv6_of_words 0xFF020000 0 1 0xFF000000"

definition LINKLOCAL_PREFIX :: ipv6 where
  "LINKLOCAL_PREFIX = ipv6_of_words 0xFE800000 0 0 0"

definition formSolicitedNodeMulticastAddress :: "ipv6 \<Rightarrow> ipv6 res" where
  "formSolicitedNodeMulticastAddress a = ipv6_setPrefix a SOLICITED_NODE_PREFIX 104"

definition isSolicitedNodeMulticastAddress :: "ipv6 \<Rightarrow> bool res" where
  "isSolicitedNodeMulticastAddress a = ipv6_matches a SOLICITED_NODE_PREFIX 104"

definition formSubnetRouterAnycastAddress :: "ipv6 \<Rightarrow> int \<Rightarrow> ipv6 res" where
  "formSubnetRouterAnycastAddress a prefixLength = ipv6_setSuffix a ipv6_zero prefixLength"

definition formLinkLocalAddress :: "32 word \<Rightarrow> 32 word \<Rightarrow> nat \<Rightarrow> ipv6 res" where
  "formLinkLocalAddress normal low len =
     ipv6_setSuffix LINKLOCAL_PREFIX (ipv6_of_words 0 0 normal low) (128 - int len)"

end
