(* ===== verification/Ipv6Proofs.thy ===== *)
theory Ipv6Proofs
  imports Ipv6Address
begin

text \<open>
  The text of IPv6 addresses: the gap that \<open>str\<close> prints as \<open>::\<close> is the first of the longest runs of zero
  groups, and \<open>tryParse\<close> reads every printed address back.
\<close>

section \<open>Hexadecimal numbers\<close>

lemma hex_digit_char: "d < 16 \<Longrightarrow> of_char (hex_digit d) = (if d < 10 then 48 + d else 87 + d)"
  by (simp add: hex_digit_def)

lemma c_digit_hex [simp]: "d < 16 \<Longrightarrow> c_digit 16 (hex_digit d) = Some d"
  by (auto simp: c_digit_def hex_digit_char Let_def)

lemma show_hex_digits: "c \<in> set (show_hex n) \<Longrightarrow> \<exists>d < 16. c = hex_digit d"
proof (induction n rule: show_hex.induct)
  case (1 n)
  show ?case
  proof (cases "n < 16")
    case True
    with "1.prems" show ?thesis by (auto simp: show_hex.simps[of n])
  next
    case False
    with "1.prems" have "c \<in> set (show_hex (n div 16)) \<or> c = hex_digit (n mod 16)"
      by (auto simp: show_hex.simps[of n])
    moreover have "n mod 16 < 16" by simp
    ultimately show ?thesis using "1.IH"[OF False] by blast
  qed
qed

lemma show_hex_nonempty [simp]: "show_hex n \<noteq> []"
  by (simp add: show_hex.simps)

lemma show_hex_Cons: "\<exists>d t. d < 16 \<and> show_hex n = hex_digit d # t"
  using show_hex_digits[of "hd (show_hex n)" n] by (cases "show_hex n") auto

lemma hex_digit_not:
  assumes "d < 16"
  shows "hex_digit d \<noteq> CHR ''-''" "hex_digit d \<noteq> CHR ''+''" "hex_digit d \<noteq> CHR ''x''" "hex_digit d \<noteq> CHR ''X''"
    "hex_digit d \<noteq> CHR '':''" "hex_digit d \<noteq> CHR ''<''" "\<not> c_isspace (hex_digit d)"
proof -
  have n: "of_char (hex_digit d) = (if d < 10 then 48 + d else 87 + d)" using hex_digit_char[OF assms] .
  have eq: "hex_digit d = c \<Longrightarrow> of_char c = (if d < 10 then 48 + d else 87 + d)" for c using n by simp
  show "hex_digit d \<noteq> CHR ''-''" "hex_digit d \<noteq> CHR ''+''" "hex_digit d \<noteq> CHR ''x''" "hex_digit d \<noteq> CHR ''X''"
    "hex_digit d \<noteq> CHR '':''" "hex_digit d \<noteq> CHR ''<''"
    using assms by (auto dest!: eq split: if_splits)
  show "\<not> c_isspace (hex_digit d)" using assms by (auto simp: c_isspace_def n)
qed

lemma c_digit_colon [simp]: "c_digit 16 CHR '':'' = None"
  by (simp add: c_digit_def)

lemma c_read_hex: "c_read_digits 16 0 (show_hex n @ t) = c_read_digits 16 n t"
proof (induction n arbitrary: t rule: show_hex.induct)
  case (1 n)
  show ?case
  proof (cases "n < 16")
    case True
    then show ?thesis by (simp add: show_hex.simps[of n])
  next
    case False
    from "1.IH"[OF False, of "hex_digit (n mod 16) # t"] False show ?thesis
      by (simp add: show_hex.simps[of n])
  qed
qed

text \<open>Where a number ends: at the end of the text or at a colon.\<close>

definition number_ends :: "string \<Rightarrow> bool" where
  "number_ends t \<longleftrightarrow> t = [] \<or> hd t = CHR '':''"

lemma strtoul_0x_id:
  "(\<And>z x t. s = z # x # t \<Longrightarrow> x \<noteq> CHR ''x'' \<and> x \<noteq> CHR ''X'') \<Longrightarrow> strtoul_0x base s = s"
  by (cases "(base, s)" rule: strtoul_0x.cases) auto

lemma c_strtoul_hex:
  assumes "g \<le> 0xffff" and "number_ends t"
  shows "c_strtoul 16 (show_hex g @ t) = Some (g, t)"
proof -
  obtain d r where d: "d < 16" "show_hex g = hex_digit d # r" using show_hex_Cons by blast
  have sign: "strtoul_sign (show_hex g @ t) = (False, show_hex g @ t)"
    using hex_digit_not[OF d(1)] d(2) by (simp add: strtoul_sign_def)
  have "strtoul_0x 16 (show_hex g @ t) = show_hex g @ t"
  proof (rule strtoul_0x_id)
    fix z x u assume "show_hex g @ t = z # x # u"
    then have "x \<in> set (show_hex g) \<or> x = hd t \<and> t \<noteq> []" using d(2) by (cases r) auto
    then show "x \<noteq> CHR ''x'' \<and> x \<noteq> CHR ''X''"
      using show_hex_digits[of x g] hex_digit_not(3)[THEN not_sym] hex_digit_not(4)[THEN not_sym] assms(2)
      by (fastforce simp: number_ends_def)
  qed
  moreover have "c_read_digits 16 0 (show_hex g @ t) = (g, t)"
    using c_read_hex[of g t] assms(2) by (cases t) (auto simp: number_ends_def)
  ultimately show ?thesis using sign d assms(1) by (simp add: c_strtoul_def)
qed

lemma c_strtoul_none [simp]: "c_strtoul 16 [] = None" "c_strtoul 16 (CHR '':'' # t) = None"
proof -
  show "c_strtoul 16 [] = None" by (simp add: c_strtoul_def strtoul_sign_def)
  have "strtoul_sign (CHR '':'' # t) = (False, CHR '':'' # t)"
    by (simp add: strtoul_sign_def c_isspace_def)
  moreover have "\<exists>u. strtoul_0x 16 (CHR '':'' # t) = CHR '':'' # u"
    by (cases "(16 :: nat, CHR '':'' # t)" rule: strtoul_0x.cases) auto
  ultimately show "c_strtoul 16 (CHR '':'' # t) = None" by (auto simp: c_strtoul_def)
qed

section \<open>Groups\<close>

lemma parse_last:
  "g \<le> 0xffff \<Longrightarrow> length gs < 8 \<Longrightarrow> parseGroups gs (show_hex g) = (gs @ [g], [])"
  using c_strtoul_hex[of g "[]"] by (simp add: parseGroups.simps[of gs] number_ends_def)

lemma parse_step:
  "g \<le> 0xffff \<Longrightarrow> length gs < 7 \<Longrightarrow> parseGroups gs (show_hex g @ CHR '':'' # t) = parseGroups (gs @ [g]) t"
  using c_strtoul_hex[of g "CHR '':'' # t"] by (simp add: parseGroups.simps[of gs] number_ends_def)

lemma parse_all:
  "\<forall>g \<in> set hs. g \<le> 0xffff \<Longrightarrow> hs \<noteq> [] \<Longrightarrow> length gs + length hs \<le> 8 \<Longrightarrow>
   parseGroups gs (join_groups hs) = (gs @ hs, [])"
proof (induction hs arbitrary: gs rule: join_groups.induct)
  case 1
  then show ?case by simp
next
  case (2 g)
  then show ?case by (simp add: parse_last)
next
  case (3 g h hs)
  then show ?case by (simp add: parse_step)
qed

lemma parse_gap:
  "\<forall>g \<in> set hs. g \<le> 0xffff \<Longrightarrow> hs \<noteq> [] \<Longrightarrow> length gs + length hs < 8 \<Longrightarrow>
   parseGroups gs (join_groups hs @ ''::'' @ t) = (gs @ hs, ''::'' @ t)"
proof (induction hs arbitrary: gs rule: join_groups.induct)
  case 1
  then show ?case by simp
next
  case (2 g)
  have "parseGroups (gs @ [g]) (CHR '':'' # t) = (gs @ [g], ''::'' @ t)"
    by (simp add: parseGroups.simps[of "gs @ [g]"])
  with 2 show ?case by (simp add: parse_step)
next
  case (3 g h hs)
  then show ?case by (simp add: parse_step)
qed

lemma parse_before:
  assumes "\<forall>g \<in> set hs. g \<le> 0xffff" and "length hs < 8"
  shows "parseGroups [] (join_groups hs @ ''::'' @ t) = (hs, ''::'' @ t)"
  using parse_gap[OF assms(1), of "[]" t] assms(2)
  by (cases "hs = []") (auto simp: parseGroups.simps[of "[]"])

lemma parse_behind:
  assumes "\<forall>g \<in> set hs. g \<le> 0xffff" and "length hs \<le> 8"
  shows "parseGroups [] (join_groups hs) = (hs, [])"
  using parse_all[OF assms(1), of "[]"] assms(2) by (cases "hs = []") (auto simp: parseGroups.simps[of "[]"])

section \<open>The gap\<close>

text \<open>A run of zero groups from \<open>a\<close> up to \<open>b\<close>.\<close>

definition zero_run :: "nat list \<Rightarrow> nat \<Rightarrow> nat \<Rightarrow> bool" where
  "zero_run gs a b \<longleftrightarrow> a < b \<and> b \<le> length gs \<and> (\<forall>i. a \<le> i \<and> i < b \<longrightarrow> gs ! i = 0)"

text \<open>The best gap among the runs that end at or before \<open>m\<close>.\<close>

definition best_gap :: "nat list \<Rightarrow> nat \<Rightarrow> nat \<Rightarrow> nat \<Rightarrow> bool" where
  "best_gap gs m s e \<longleftrightarrow>
     (s = 0 \<and> e = 0 \<or> zero_run gs s e \<and> s + 2 \<le> e) \<and>
     (\<forall>a b. zero_run gs a b \<and> a + 2 \<le> b \<and> b \<le> m \<longrightarrow> s \<noteq> e \<and> (b - a < e - s \<or> b - a = e - s \<and> s \<le> a))"

definition gap_inv :: "nat list \<Rightarrow> nat \<Rightarrow> nat \<times> nat \<times> nat option \<Rightarrow> bool" where
  "gap_inv gs i st \<longleftrightarrow>
     (case st of (s, e, None) \<Rightarrow> best_gap gs i s e \<and> e \<le> i \<and> (0 < i \<longrightarrow> gs ! (i - 1) \<noteq> 0)
      | (s, e, Some b) \<Rightarrow>
          best_gap gs b s e \<and> e \<le> b \<and> zero_run gs b i \<and> (0 < b \<longrightarrow> gs ! (b - 1) \<noteq> 0))"

lemma zero_run_nth: "zero_run gs a b \<Longrightarrow> a \<le> i \<Longrightarrow> i < b \<Longrightarrow> gs ! i = 0"
  by (simp add: zero_run_def)

text \<open>A run that ends behind a group that is not zero starts behind it.\<close>

lemma zero_run_behind: "zero_run gs a b \<Longrightarrow> gs ! i \<noteq> 0 \<Longrightarrow> i < b \<Longrightarrow> i < a"
  by (meson not_less zero_run_nth)

lemma best_gapD:
  "best_gap gs m s e \<Longrightarrow> zero_run gs a b \<Longrightarrow> a + 2 \<le> b \<Longrightarrow> b \<le> m \<Longrightarrow>
   s \<noteq> e \<and> (b - a < e - s \<or> b - a = e - s \<and> s \<le> a)"
  unfolding best_gap_def by blast

text \<open>Closing the run from \<open>b\<close> to \<open>i\<close>.\<close>

lemma best_gap_close:
  assumes best: "best_gap gs b s e" and run: "zero_run gs b i" and start: "0 < b \<longrightarrow> gs ! (b - 1) \<noteq> 0" and "e \<le> b"
  shows "best_gap gs i (if 2 \<le> i - b \<and> e - s < i - b then b else s) (if 2 \<le> i - b \<and> e - s < i - b then i else e)"
proof -
  have split: "c \<le> b \<or> b \<le> a" if "zero_run gs a c" "c \<le> i" for a c
  proof (rule ccontr)
    assume "\<not> (c \<le> b \<or> b \<le> a)"
    then have b: "0 < b" "b - 1 < c" "\<not> b \<le> a" by auto
    with zero_run_behind[OF that(1), of "b - 1"] start have "b - 1 < a" by blast
    with b show False by simp
  qed
  have long: "c - a \<le> i - b \<and> (c - a = i - b \<longrightarrow> a = b)" if "zero_run gs a c" "c \<le> i" "b \<le> a" for a c
    using that by (auto simp: zero_run_def)
  show ?thesis
  proof (cases "2 \<le> i - b \<and> e - s < i - b")
    case True
    have "b \<noteq> i \<and> (c - a < i - b \<or> c - a = i - b \<and> b \<le> a)"
      if r: "zero_run gs a c" "a + 2 \<le> c" "c \<le> i" for a c
    proof (cases "c \<le> b")
      case True
      with best_gapD[OF best r(1,2)] have "c - a \<le> e - s" by auto
      with \<open>2 \<le> i - b \<and> e - s < i - b\<close> show ?thesis by linarith
    next
      case False
      with split[OF r(1,3)] long[OF r(1,3)] True show ?thesis by auto
    qed
    with True run show ?thesis by (auto simp: best_gap_def)
  next
    case False
    have "s \<noteq> e \<and> (c - a < e - s \<or> c - a = e - s \<and> s \<le> a)"
      if r: "zero_run gs a c" "a + 2 \<le> c" "c \<le> i" for a c
    proof (cases "c \<le> b")
      case True
      with best r show ?thesis by (auto simp: best_gap_def)
    next
      case False
      with split[OF r(1,3)] have ba: "b \<le> a" by simp
      with long[OF r(1,3)] have "c - a \<le> i - b" by simp
      moreover have "2 \<le> c - a" using r(2) by simp
      ultimately have "c - a \<le> e - s" "2 \<le> e - s" using \<open>\<not> (2 \<le> i - b \<and> e - s < i - b)\<close> by linarith+
      moreover have "s \<le> a" using best ba assms(4) by (auto simp: best_gap_def zero_run_def)
      ultimately show ?thesis by auto
    qed
    with False best show ?thesis by (auto simp: best_gap_def)
  qed
qed

text \<open>A group that is not zero opens no run.\<close>

lemma best_gap_skip: "best_gap gs i s e \<Longrightarrow> gs ! i \<noteq> 0 \<Longrightarrow> best_gap gs (Suc i) s e"
  by (auto simp: best_gap_def le_Suc_eq dest: zero_run_behind)

lemma gap_step_inv:
  assumes "gap_inv gs i st" and "i < length gs"
  shows "gap_inv gs (Suc i) (gap_step gs st i)"
proof -
  obtain s e o' where st: "st = (s, e, o')" by (cases st) auto
  show ?thesis
  proof (cases o')
    case None
    with assms st show ?thesis
      by (auto simp: gap_inv_def zero_run_def less_Suc_eq intro: best_gap_skip)
  next
    case (Some b)
    with assms st have I: "best_gap gs b s e" "e \<le> b" "zero_run gs b i" "0 < b \<longrightarrow> gs ! (b - 1) \<noteq> 0"
      by (auto simp: gap_inv_def)
    show ?thesis
    proof (cases "gs ! i = 0")
      case True
      with I assms(2) st Some show ?thesis by (auto simp: gap_inv_def zero_run_def less_Suc_eq)
    next
      case False
      from best_gap_skip[OF best_gap_close[OF I(1,3,4,2)] False] False I st Some show ?thesis
        by (auto simp: gap_inv_def zero_run_def split: if_splits)
    qed
  qed
qed

lemma gap_loop_inv:
  "n \<le> length gs \<Longrightarrow> gap_inv gs n (foldl (gap_step gs) (0, 0, None) [0..<n])"
proof (induction n)
  case 0
  then show ?case by (auto simp: gap_inv_def best_gap_def)
next
  case (Suc n)
  then show ?case using gap_step_inv[of gs n] by simp
qed

lemma findGap_best:
  assumes "length gs = 8" and "findGap gs = (s, e)"
  shows "best_gap gs 8 s e" "e \<le> 8"
proof -
  obtain s0 e0 o' where st: "foldl (gap_step gs) (0, 0, None) [0..<8] = (s0, e0, o')"
    by (cases "foldl (gap_step gs) (0, 0, None) [0..<8]") auto
  have inv: "gap_inv gs 8 (s0, e0, o')" using gap_loop_inv[of 8 gs] assms(1) st by simp
  have "best_gap gs 8 s e \<and> e \<le> 8"
  proof (cases o')
    case None
    with inv st assms(2) show ?thesis by (simp add: gap_inv_def findGap_def)
  next
    case (Some b)
    with inv have I: "best_gap gs b s0 e0" "zero_run gs b 8" "0 < b \<longrightarrow> gs ! (b - 1) \<noteq> 0" "e0 \<le> b"
      by (auto simp: gap_inv_def)
    have "b < 8" using I(2) by (simp add: zero_run_def)
    moreover have "(b \<le> 6 \<and> e0 - s0 < 8 - b) = (2 \<le> 8 - b \<and> e0 - s0 < 8 - b)" by auto
    ultimately show ?thesis using best_gap_close[OF I] I(4) st Some assms(2)
      by (auto simp: findGap_def split: if_splits)
  qed
  then show "best_gap gs 8 s e" "e \<le> 8" by auto
qed


section \<open>Round trip\<close>

lemma ipv6_groups_facts:
  "length (ipv6_groups a) = 8" "\<forall>g \<in> set (ipv6_groups a). g \<le> 0xffff"
proof -
  have hi: "unat (drop_bit 16 d) \<le> 0xffff" for d :: "32 word"
  proof -
    have "unat (drop_bit 16 d) = unat d div 65536" by (simp add: drop_bit_eq_div unat_div)
    moreover have "unat d < 2 ^ LENGTH(32)" by (rule unsigned_less)
    ultimately show ?thesis by simp
  qed
  have lo: "unat (d AND 0xffff) \<le> 0xffff" for d :: "32 word"
  proof -
    have "d AND 0xffff \<le> 0xffff" by (rule word_and_le1)
    then show ?thesis by (simp add: word_le_nat_alt)
  qed
  show "length (ipv6_groups a) = 8" "\<forall>g \<in> set (ipv6_groups a). g \<le> 0xffff"
    using hi lo by (auto simp: ipv6_groups_def)
qed

lemma word_halves: "push_bit 16 (drop_bit 16 d) + (d AND 65535) = (d :: 32 word)"
proof -
  have "(65535 :: 32 word) = mask 16" by (simp add: mask_eq_exp_minus_1)
  then show ?thesis using bits_ident[of 16 d] by (simp add: take_bit_eq_mask)
qed

lemma ipv6_groups_back: "ipv6_of_groups (ipv6_groups a) = a"
  by (simp add: ipv6_of_groups_def ipv6_word_def ipv6_groups_def ipv6_of_words_def word_halves)

lemma merge_groups_gap:
  assumes "length gs = 8" and "s \<le> e" and "e \<le> 8" and "\<forall>i. s \<le> i \<and> i < e \<longrightarrow> gs ! i = 0"
  shows "merge_groups (take s gs) (drop e gs) = gs"
proof (rule nth_equalityI)
  show "length (merge_groups (take s gs) (drop e gs)) = length gs" using assms by (simp add: merge_groups_def)
  fix i assume "i < length (merge_groups (take s gs) (drop e gs))"
  with assms show "merge_groups (take s gs) (drop e gs) ! i = gs ! i"
    by (auto simp: merge_groups_def nth_append)
qed

lemma join_groups_hd: "hs \<noteq> [] \<Longrightarrow> \<exists>d t. d < 16 \<and> join_groups hs = hex_digit d # t"
  using show_hex_Cons[of "hd hs"] by (cases hs rule: join_groups.cases) auto

text \<open>The text of an address that is not unspecified.\<close>

lemma ipv6_str_gap:
  assumes "\<not> ipv6_isUnspecified a"
  obtains s e where "s \<le> e" "e \<le> 8" "s < 8" "\<forall>i. s \<le> i \<and> i < e \<longrightarrow> ipv6_groups a ! i = 0"
    "s = e \<longrightarrow> s = 0"
    "ipv6_str a = join_groups (take s (ipv6_groups a)) @ (if s \<noteq> e then ''::'' else []) @
       join_groups (drop e (ipv6_groups a))"
proof -
  obtain s e where f: "findGap (ipv6_groups a) = (s, e)" by (cases "findGap (ipv6_groups a)")
  note best = findGap_best[OF ipv6_groups_facts(1) f]
  from best(1) have gap: "s = 0 \<and> e = 0 \<or> zero_run (ipv6_groups a) s e" by (auto simp: best_gap_def)
  have "\<not> (s = 0 \<and> e = 8)"
  proof
    assume "s = 0 \<and> e = 8"
    with gap have "zero_run (ipv6_groups a) 0 8" by auto
    then have "ipv6_groups a ! i = 0" if "i < 8" for i using that by (simp add: zero_run_def)
    then have "ipv6_groups a = replicate 8 0"
      using ipv6_groups_facts(1)[of a] by (intro nth_equalityI) auto
    then have "ipv6_of_groups (ipv6_groups a) = ipv6_zero"
      by (simp add: ipv6_of_groups_def ipv6_word_def ipv6_zero_def)
    with assms show False by (simp add: ipv6_groups_back ipv6_isUnspecified_def ipv6_zero_def ipv6_of_words_def)
  qed
  then show ?thesis using gap best(2) f assms that[of s e]
    by (auto simp: ipv6_str_def zero_run_def Let_def)
qed

lemma ipv6_parse_str:
  assumes "\<not> ipv6_isUnspecified a"
  shows "ipv6_doTryParse (ipv6_str a) x = (True, [], a)"
proof -
  let ?gs = "ipv6_groups a"
  obtain s e where g: "s \<le> e" "e \<le> 8" "s < 8" "\<forall>i. s \<le> i \<and> i < e \<longrightarrow> ?gs ! i = 0" "s = e \<longrightarrow> s = 0"
    and shown: "ipv6_str a = join_groups (take s ?gs) @ (if s \<noteq> e then ''::'' else []) @ join_groups (drop e ?gs)"
    using ipv6_str_gap[OF assms] .
  note facts = ipv6_groups_facts[of a]
  have small: "\<forall>g \<in> set (take s ?gs). g \<le> 0xffff" "\<forall>g \<in> set (drop e ?gs). g \<le> 0xffff"
    using facts(2) by (auto dest: in_set_takeD in_set_dropD)
  show ?thesis
  proof (cases "s = e")
    case True
    with g(5) have t: "ipv6_str a = join_groups ?gs" by (simp add: shown)
    obtain d r where "d < 16" "ipv6_str a = hex_digit d # r"
      using join_groups_hd[of ?gs] facts(1) t by fastforce
    then have "ipv6_str a \<noteq> ''<unspec>''" using hex_digit_not(6) by auto
    moreover have "parseGroups [] (ipv6_str a) = (?gs, [])"
      unfolding t by (rule parse_behind) (use facts in auto)
    ultimately show ?thesis using facts(1) by (simp add: ipv6_doTryParse_def ipv6_groups_back)
  next
    case False
    then have t: "ipv6_str a = join_groups (take s ?gs) @ ''::'' @ join_groups (drop e ?gs)" by (simp add: shown)
    have first: "parseGroups [] (ipv6_str a) = (take s ?gs, ''::'' @ join_groups (drop e ?gs))"
      unfolding t by (rule parse_before) (use small g facts in auto)
    have second: "parseGroups [] (join_groups (drop e ?gs)) = (drop e ?gs, [])"
      by (rule parse_behind) (use small facts in auto)
    have "ipv6_str a \<noteq> ''<unspec>''"
    proof (cases "take s ?gs = []")
      case True
      show ?thesis unfolding t True by simp
    next
      case False
      from join_groups_hd[OF this] show ?thesis using hex_digit_not(6) by (auto simp: t)
    qed
    with first second g(1,2) facts(1) merge_groups_gap[OF facts(1) g(1,2,4)] show ?thesis
      by (simp add: ipv6_doTryParse_def ipv6_groups_back)
  qed
qed

text \<open>
  What \<open>str\<close> prints, \<open>tryParse\<close> reads back, for every IPv6 address and whatever the object held.
\<close>

theorem ipv6_text_roundtrip: "ipv6_tryParse (Some (ipv6_str a)) x = (True, a)"
proof (cases "ipv6_isUnspecified a")
  case True
  then have "a = ipv6_zero"
    by (cases a) (simp add: ipv6_isUnspecified_def ipv6_zero_def ipv6_of_words_def or_eq_0_iff)
  with True show ?thesis by (simp add: ipv6_tryParse_def ipv6_doTryParse_def ipv6_str_def)
next
  case False
  then show ?thesis by (simp add: ipv6_tryParse_def ipv6_parse_str)
qed

text \<open>
  (C23) The gap that \<open>findGap\<close> gives \<open>str\<close> to shorten is the leftmost of the longest runs of at least two
  zero groups of the address, and empty when there is no such run.
\<close>

theorem ipv6_gap_longest:
  assumes "findGap (ipv6_groups a) = (s, e)"
  shows "if \<exists>b c. zero_run (ipv6_groups a) b c \<and> b + 2 \<le> c
    then zero_run (ipv6_groups a) s e \<and> s + 2 \<le> e \<and>
      (\<forall>b c. zero_run (ipv6_groups a) b c \<longrightarrow> c - b < e - s \<or> c - b = e - s \<and> s \<le> b)
    else s = 0 \<and> e = 0"
proof -
  note best = findGap_best(1)[OF ipv6_groups_facts(1) assms]
  have in_range: "c \<le> 8" if "zero_run (ipv6_groups a) b c" for b c
    using that ipv6_groups_facts(1)[of a] by (simp add: zero_run_def)
  show ?thesis
  proof (cases "\<exists>b c. zero_run (ipv6_groups a) b c \<and> b + 2 \<le> c")
    case True
    with best in_range have se: "zero_run (ipv6_groups a) s e" "s + 2 \<le> e" unfolding best_gap_def by blast+
    have "c - b < e - s \<or> c - b = e - s \<and> s \<le> b" if r: "zero_run (ipv6_groups a) b c" for b c
      using best_gapD[OF best r _ in_range[OF r]] se(2) by (cases "b + 2 \<le> c") auto
    with True se show ?thesis by simp
  next
    case False
    with best show ?thesis unfolding best_gap_def by auto
  qed
qed

definition ipv6_example :: ipv6 where
  "ipv6_example = ipv6_of_words 0x20010000 0 0x10000 1"

lemma ipv6_example_groups: "ipv6_groups ipv6_example = [8193, 0, 0, 0, 1, 0, 0, 1]"
  by (simp add: ipv6_groups_def ipv6_example_def ipv6_of_words_def)

lemma ipv6_example_gap: "findGap (ipv6_groups ipv6_example) = (1, 4)"
  by (simp add: ipv6_example_groups findGap_def upt_rec)

theorem ipv6_gap_longest_witness: "\<not> zero_run (ipv6_groups ipv6_example) 3 7 \<and> zero_run (ipv6_groups ipv6_example) 1 4"
proof -
  have "zero_run (ipv6_groups ipv6_example) 5 7"
    by (auto simp: zero_run_def ipv6_example_groups less_Suc_eq numeral_eq_Suc)
  then have "\<exists>b c. zero_run (ipv6_groups ipv6_example) b c \<and> b + 2 \<le> c" by fastforce
  with ipv6_gap_longest[OF ipv6_example_gap] have
    "zero_run (ipv6_groups ipv6_example) 1 4"
    "\<forall>b c. zero_run (ipv6_groups ipv6_example) b c \<longrightarrow> c - b < 4 - 1 \<or> c - b = 4 - 1 \<and> 1 \<le> b"
    by simp_all
  then show ?thesis by fastforce
qed

end
