(* ===== verification/Ipv6Prefix.thy ===== *)
theory Ipv6Prefix
  imports Ipv6Address
begin

text \<open>
  The operations on prefixes of IPv6 addresses, bit by bit: the mask of a length has exactly the first
  bits, so prefixes, suffixes and the comparison of prefixes act on the first bits of the address.
\<close>

text \<open>Bit \<open>n\<close> of an address, the most significant one first.\<close>

definition ipv6_words :: "ipv6 \<Rightarrow> 32 word list" where
  "ipv6_words a = [ip6_d0 a, ip6_d1 a, ip6_d2 a, ip6_d3 a]"

definition ipv6_bit :: "ipv6 \<Rightarrow> nat \<Rightarrow> bool" where
  "ipv6_bit a n \<longleftrightarrow> n < 128 \<and> bit (ipv6_words a ! (n div 32)) (31 - n mod 32)"

lemma ipv6_words_of [simp]: "ipv6_words (ipv6_of_words w0 w1 w2 w3) = [w0, w1, w2, w3]"
  by (simp add: ipv6_words_def ipv6_of_words_def)

lemma word_index: "(n :: nat) < 128 \<Longrightarrow> n div 32 = 0 \<or> n div 32 = 1 \<or> n div 32 = 2 \<or> n div 32 = 3"
  by auto

lemma ipv6_eqI:
  assumes "\<And>n. n < 128 \<Longrightarrow> ipv6_bit a n = ipv6_bit b n"
  shows "a = b"
proof -
  have "ipv6_words a ! k = ipv6_words b ! k" if "k < 4" for k
  proof (rule bit_word_eqI)
    fix j assume "j < LENGTH(32)"
    then have i: "31 - j < 32" "j = 31 - (31 - j)" by auto
    then obtain i where i: "i < 32" "j = 31 - i" by blast
    then have "(32 * k + i) div 32 = k" "(32 * k + i) mod 32 = i" "32 * k + i < 128" using \<open>k < 4\<close> by auto
    with assms[of "32 * k + i"] show "bit (ipv6_words a ! k) j = bit (ipv6_words b ! k) j"
      by (simp add: ipv6_bit_def i)
  qed
  from this[of 0] this[of 1] this[of 2] this[of 3] show ?thesis
    by (cases a; cases b) (simp add: ipv6_words_def)
qed

lemma ipv6_bit_map2:
  assumes "\<And>x y k. bit (f x y) k = g (bit x k) (bit y k)" and "n < 128"
  shows "ipv6_bit (ipv6_map2 f a b) n = g (ipv6_bit a n) (ipv6_bit b n)"
  using word_index[OF assms(2)] assms by (auto simp: ipv6_bit_def ipv6_map2_def) (auto simp: ipv6_words_def)

lemma mask_word_bit:
  "j < 32 \<Longrightarrow> bit (push_bit s (0xFFFFFFFF :: 32 word)) j \<longleftrightarrow> s \<le> j"
proof -
  assume "j < 32"
  have m: "(0xFFFFFFFF :: 32 word) = mask 32" by (simp add: mask_eq_exp_minus_1)
  from \<open>j < 32\<close> show ?thesis unfolding m by (auto simp: bit_simps)
qed

text \<open>The mask of length \<open>p\<close> has the first \<open>p\<close> bits.\<close>

lemma ipv6_mask_bits:
  assumes "p \<le> 128"
  obtains m where "ipv6_constructMask (int p) = Inr m" "\<And>n. n < 128 \<Longrightarrow> ipv6_bit m n \<longleftrightarrow> n < p"
proof -
  define w where "w k = push_bit (32 * (k + 1) - p) (0xFFFFFFFF :: 32 word)" for k
  define m where "m = (if p = 0 then ipv6_zero
           else if p \<le> 32 then ipv6_of_words (w 0) 0 0 0
           else if p \<le> 64 then ipv6_of_words 0xFFFFFFFF (w 1) 0 0
           else if p \<le> 96 then ipv6_of_words 0xFFFFFFFF 0xFFFFFFFF (w 2) 0
           else ipv6_of_words 0xFFFFFFFF 0xFFFFFFFF 0xFFFFFFFF (w 3))"
  have ones: "j < 32 \<Longrightarrow> bit (0xFFFFFFFF :: 32 word) j" for j using mask_word_bit[of j 0] by simp
  have inr: "ipv6_constructMask (int p) = Inr m"
    using assms by (auto simp: ipv6_constructMask_def m_def w_def Let_def)
  have "ipv6_bit m n \<longleftrightarrow> n < p" if n: "n < 128" for n
  proof -
    define q r where "q = n div 32" and "r = n mod 32"
    have r: "r < 32" "n = 32 * q + r" by (simp_all add: q_def r_def)
    have wq: "bit (w q) (31 - r) \<longleftrightarrow> n < p" if "32 * q < p"
      using r that by (auto simp: w_def mask_word_bit)
    have "ipv6_bit m n = bit (ipv6_words m ! q) (31 - r)" using n by (simp add: ipv6_bit_def q_def r_def)
    also have "\<dots> \<longleftrightarrow> n < p"
    proof -
      from word_index[OF n, folded q_def] consider "q = 0" | "q = 1" | "q = 2" | "q = 3" by blast
      then show ?thesis
        using wq r assms ones[of "31 - r"]
        by cases (auto simp: m_def ipv6_zero_def)
    qed
    finally show ?thesis .
  qed
  with inr that show ?thesis by blast
qed

lemma ipv6_or_zero:
  "ip6_d0 x OR ip6_d1 x OR ip6_d2 x OR ip6_d3 x = 0 \<longleftrightarrow> (\<forall>n < 128. \<not> ipv6_bit x n)"
proof -
  have "ip6_d0 x OR ip6_d1 x OR ip6_d2 x OR ip6_d3 x = 0 \<longleftrightarrow> x = ipv6_zero"
    by (cases x) (simp add: ipv6_zero_def ipv6_of_words_def or_eq_0_iff)
  moreover have "\<not> ipv6_bit ipv6_zero n" for n
    by (auto simp: ipv6_bit_def ipv6_zero_def dest!: word_index)
  ultimately show ?thesis using ipv6_eqI[of x ipv6_zero] by auto
qed

lemma ipv6_matches_bits:
  assumes "p \<le> 128"
  shows "ipv6_matches a b (int p) = Inr (\<forall>n < p. ipv6_bit a n = ipv6_bit b n)"
proof -
  obtain m where m: "ipv6_constructMask (int p) = Inr m" "\<And>n. n < 128 \<Longrightarrow> ipv6_bit m n \<longleftrightarrow> n < p"
    using ipv6_mask_bits[OF assms] by blast
  have "ipv6_bit (ipv6_map2 (\<lambda>d m. d AND m) (ipv6_map2 (\<lambda>c d. c XOR d) a b) m) n
      \<longleftrightarrow> ipv6_bit a n \<noteq> ipv6_bit b n \<and> n < p" if n: "n < 128" for n
    using ipv6_bit_map2[of "\<lambda>d m. d AND m" "(\<and>)" n] ipv6_bit_map2[of "\<lambda>c d. c XOR d" "(\<noteq>)" n] n m(2)
    by (simp add: bit_simps)
  moreover have "(\<forall>n < 128. \<not> (ipv6_bit a n \<noteq> ipv6_bit b n \<and> n < p)) \<longleftrightarrow> (\<forall>n < p. ipv6_bit a n = ipv6_bit b n)"
    using assms by (meson order_less_le_trans)
  ultimately show ?thesis using m(1) by (simp add: ipv6_matches_def Let_def ipv6_or_zero)
qed

lemma ipv6_getPrefix_bits:
  assumes "p \<le> 128"
  obtains a' where "ipv6_getPrefix a (int p) = Inr a'" "\<And>n. n < 128 \<Longrightarrow> ipv6_bit a' n \<longleftrightarrow> ipv6_bit a n \<and> n < p"
proof -
  obtain m where m: "ipv6_constructMask (int p) = Inr m" "\<And>n. n < 128 \<Longrightarrow> ipv6_bit m n \<longleftrightarrow> n < p"
    using ipv6_mask_bits[OF assms] by blast
  have "ipv6_bit (ipv6_map2 (\<lambda>d m. d AND m) a m) n \<longleftrightarrow> ipv6_bit a n \<and> n < p" if "n < 128" for n
    using ipv6_bit_map2[of "\<lambda>d m. d AND m" "(\<and>)" n] that m(2) by (simp add: bit_simps)
  with m(1) that show ?thesis by (auto simp: ipv6_getPrefix_def)
qed

lemma ipv6_setPrefix_bits:
  assumes "p \<le> 128"
  obtains a' where "ipv6_setPrefix a b (int p) = Inr a'"
    "\<And>n. n < 128 \<Longrightarrow> ipv6_bit a' n \<longleftrightarrow> (if n < p then ipv6_bit b n else ipv6_bit a n)"
proof -
  obtain m where m: "ipv6_constructMask (int p) = Inr m" "\<And>n. n < 128 \<Longrightarrow> ipv6_bit m n \<longleftrightarrow> n < p"
    using ipv6_mask_bits[OF assms] by blast
  let ?a = "ipv6_map2 (\<lambda>x y. x OR y) (ipv6_map2 (\<lambda>d m. d AND NOT m) a m) (ipv6_map2 (\<lambda>d m. d AND m) b m)"
  have f: "bit (x AND NOT y) k \<longleftrightarrow> bit x k \<and> \<not> bit y k" for x y :: "32 word" and k
    by (auto simp: bit_simps dest: bit_imp_le_length)
  have andnot: "ipv6_bit (ipv6_map2 (\<lambda>d m. d AND NOT m) a m) n \<longleftrightarrow> ipv6_bit a n \<and> \<not> ipv6_bit m n" if "n < 128" for n
    using ipv6_bit_map2[of "\<lambda>d m. d AND NOT m" "\<lambda>x y. x \<and> \<not> y", OF f that] .
  have "ipv6_bit ?a n \<longleftrightarrow> (if n < p then ipv6_bit b n else ipv6_bit a n)" if "n < 128" for n
    using ipv6_bit_map2[of "\<lambda>d m. d AND m" "(\<and>)" n] ipv6_bit_map2[of "\<lambda>x y. x OR y" "(\<or>)" n] andnot[OF that] that m(2)
    by (auto simp: bit_simps)
  with m(1) that show ?thesis by (auto simp: ipv6_setPrefix_def)
qed

text \<open>Putting a prefix in front and asking for it.\<close>

lemma ipv6_setPrefix_matches:
  assumes "p \<le> 128"
  shows "\<exists>a'. ipv6_setPrefix a b (int p) = Inr a' \<and> ipv6_matches a' b (int p) = Inr True"
proof -
  obtain a' where a': "ipv6_setPrefix a b (int p) = Inr a'"
    "\<And>n. n < 128 \<Longrightarrow> ipv6_bit a' n \<longleftrightarrow> (if n < p then ipv6_bit b n else ipv6_bit a n)"
    using ipv6_setPrefix_bits[OF assms] by blast
  then show ?thesis using ipv6_matches_bits[OF assms] assms by auto
qed

lemma solicited_node: "\<exists>a'. formSolicitedNodeMulticastAddress a = Inr a' \<and> isSolicitedNodeMulticastAddress a' = Inr True"
  using ipv6_setPrefix_matches[of 104 a SOLICITED_NODE_PREFIX]
  by (simp add: formSolicitedNodeMulticastAddress_def isSolicitedNodeMulticastAddress_def)

end
