(* ===== verification/ClnsAddress.thy ===== *)
theory ClnsAddress
  imports Ipv6Address
begin

text \<open>
  CLNS addresses (\<open>networklayer/contract/clns/ClnsAddress.h\<close>, \<open>ClnsAddress.cc\<close>): area, system and selector,
  the text \<open>49.0001.1921.6800.1001.00\<close> and the constructor that reads it. A constructor that returns early
  leaves what it has set so far.
\<close>

record clns =
  clns_areaID :: "64 word"
  clns_systemID :: "64 word"
  clns_nsel :: "8 word"

definition clns_zero :: clns where
  "clns_zero = \<lparr>clns_areaID = 0, clns_systemID = 0, clns_nsel = 0\<rparr>"

definition clns_isUnspecified :: "clns \<Rightarrow> bool" where
  "clns_isUnspecified a \<longleftrightarrow> clns_systemID a = 0 \<and> clns_areaID a = 0"

definition clns_equals :: "clns \<Rightarrow> clns \<Rightarrow> bool" where
  "clns_equals a b \<longleftrightarrow> clns_systemID a = clns_systemID b \<and> clns_areaID a = clns_areaID b"

definition clns_less :: "clns \<Rightarrow> clns \<Rightarrow> bool" where
  "clns_less a b =
     (if clns_areaID a = clns_areaID b then clns_systemID a < clns_systemID b else clns_areaID a < clns_areaID b)"

text \<open>\<open>%0wX\<close> of a number of at most \<open>w\<close> digits\<close>

fun show_HEX :: "nat \<Rightarrow> nat \<Rightarrow> string" where
  "show_HEX 0 n = []"
| "show_HEX (Suc w) n = show_HEX w (n div 16) @ [mac_hex_char (n mod 16)]"

definition clns_str :: "clns \<Rightarrow> string" where
  "clns_str a =
     (if clns_isUnspecified a then ''<unspec>''
      else show_HEX 2 (unat (drop_bit 16 (clns_areaID a) AND 0xFF)) @ ''.'' @
           show_HEX 4 (unat (clns_areaID a AND 0xFFFF)) @ ''.'' @
           show_HEX 4 (unat (drop_bit 32 (clns_systemID a) AND 0xFFFF)) @ ''.'' @
           show_HEX 4 (unat (drop_bit 16 (clns_systemID a) AND 0xFFFF)) @ ''.'' @
           show_HEX 4 (unat (clns_systemID a AND 0xFFFF)) @ ''.'' @ show_HEX 2 (unat (clns_nsel a)))"

text \<open>\<open>strtoul(net.substr(pos, n).c_str(), NULL, 16)\<close>\<close>

definition clns_number :: "string \<Rightarrow> nat \<Rightarrow> nat \<Rightarrow> 64 word" where
  "clns_number net pos n =
     (case c_strtoul 16 (take n (drop pos net)) of None \<Rightarrow> 0 | Some (v, _) \<Rightarrow> word_of_nat v)"

text \<open>The positions of the dots.\<close>

definition clns_dots :: "string \<Rightarrow> nat list" where
  "clns_dots net = filter (\<lambda>i. net ! i = CHR ''.'') [0..<length net]"

text \<open>The loop over the dots; nothing is returned by a dot in a wrong place, with the address so far.\<close>

fun clns_loop :: "string \<Rightarrow> nat list \<Rightarrow> nat \<Rightarrow> clns \<Rightarrow> nat option \<times> clns" where
  "clns_loop net [] dots a = (Some dots, a)"
| "clns_loop net (found # ds) dots a =
     (if found = 2 then clns_loop net ds (Suc dots) (a\<lparr>clns_areaID := clns_areaID a + push_bit 16 (clns_number net 0 2)\<rparr>)
      else if found = 7 then clns_loop net ds (Suc dots) (a\<lparr>clns_areaID := clns_areaID a + clns_number net 3 4\<rparr>)
      else if found = 12
        then clns_loop net ds (Suc dots) (a\<lparr>clns_systemID := clns_systemID a + push_bit 32 (clns_number net 8 4)\<rparr>)
      else if found = 17
        then clns_loop net ds (Suc dots) (a\<lparr>clns_systemID := clns_systemID a + push_bit 16 (clns_number net 13 4)\<rparr>)
      else if found = 22
        then clns_loop net ds (Suc dots) (a\<lparr>clns_systemID := clns_systemID a + clns_number net 18 4\<rparr>)
      else (None, a))"

definition clns_of_string :: "string \<Rightarrow> clns" where
  "clns_of_string net =
     (if clns_dots net = [] \<or> hd (clns_dots net) \<noteq> 2 \<or> length net \<noteq> 25 then clns_zero
      else case clns_loop net (clns_dots net) 0 clns_zero of
             (None, a) \<Rightarrow> a
           | (Some dots, a) \<Rightarrow> if dots \<noteq> 5 then a else a\<lparr>clns_nsel := ucast (clns_number net 23 2)\<rparr>)"

end
