(* ===== verification/L3Address.thy ===== *)
theory L3Address
  imports Ipv4Prefix Ipv6Proofs Ipv6Prefix ClnsAddress
begin

text \<open>
  Generic network addresses (\<open>networklayer/common/L3Address.h\<close>, \<open>L3Address.cc\<close>, with \<open>ModuleIdAddress\<close> and
  \<open>ModulePathAddress\<close>): two 64-bit words, of which the first either has the reserved prefix \<open>8000\<close> and the
  address type in its low byte, or is the upper half of an IPv6 address.

  The modules of the simulation are a parameter: \<open>path i\<close> is the path of the module with identifier \<open>i\<close>
  behind its first dot, and \<open>module_at\<close> finds the interface module at a path.

  Shown: what is set is read back, the text of an address is read back as the same address whatever its
  type, and prefixes of both versions of IP match exactly when their first bits agree.
\<close>

datatype address_type = NONE | IPv4 | IPv6 | CLNS | MAC | MODULEPATH | MODULEID | UnknownType nat

fun type_code :: "address_type \<Rightarrow> nat" where
  "type_code NONE = 0"
| "type_code IPv4 = 1"
| "type_code IPv6 = 2"
| "type_code CLNS = 3"
| "type_code MAC = 4"
| "type_code MODULEPATH = 5"
| "type_code MODULEID = 6"
| "type_code (UnknownType n) = n"

definition type_of_code :: "nat \<Rightarrow> address_type" where
  "type_of_code n =
     (if n = 0 then NONE else if n = 1 then IPv4 else if n = 2 then IPv6 else if n = 3 then CLNS
      else if n = 4 then MAC else if n = 5 then MODULEPATH else if n = 6 then MODULEID
      else UnknownType n)"

record l3address =
  l3_hi :: "64 word"
  l3_lo :: "64 word"

text \<open>\<open>RESERVED_IPV6_ADDRESS_RANGE\<close>\<close>

definition l3_set :: "address_type \<Rightarrow> 64 word \<Rightarrow> l3address" where
  "l3_set t lo = \<lparr>l3_hi = push_bit 48 0x8000 + word_of_nat (type_code t), l3_lo = lo\<rparr>"

definition l3_getType :: "l3address \<Rightarrow> address_type" where
  "l3_getType a =
     (if drop_bit 48 (l3_hi a) = 0x8000 then type_of_code (unat (l3_hi a AND 0xFF)) else IPv6)"

definition l3_get :: "address_type \<Rightarrow> l3address \<Rightarrow> 64 word res" where
  "l3_get t a =
     (if l3_getType a = t then Inr (l3_lo a)
      else Inl (RuntimeError ''Address is not of the given type''))"

definition l3_of_ipv6 :: "ipv6 \<Rightarrow> l3address res" where
  "l3_of_ipv6 addr =
     (let a = \<lparr>l3_hi = push_bit 32 (ucast (ip6_d0 addr)) + ucast (ip6_d1 addr),
               l3_lo = push_bit 32 (ucast (ip6_d2 addr)) + ucast (ip6_d3 addr)\<rparr>
      in if l3_getType a \<noteq> IPv6 then Inl (RuntimeError ''Cannot set Ipv6 address'') else Inr a)"

definition l3_of_clns :: "clns \<Rightarrow> l3address" where
  "l3_of_clns addr =
     \<lparr>l3_hi = push_bit 48 0x8000 OR push_bit 16 (clns_areaID addr AND 0xFFFFFFFF)
                OR push_bit 8 (ucast (clns_nsel addr)) OR word_of_nat (type_code CLNS),
      l3_lo = clns_systemID addr\<rparr>"

definition l3_empty :: l3address where
  "l3_empty = l3_set NONE 0"

definition l3_of_ipv4 :: "ipv4 \<Rightarrow> l3address" where
  "l3_of_ipv4 a = l3_set IPv4 (ucast a)"

definition l3_of_mac :: "64 word \<Rightarrow> l3address" where
  "l3_of_mac a = l3_set MAC a"

definition l3_of_module_id :: "32 word \<Rightarrow> l3address" where
  "l3_of_module_id i = l3_set MODULEID (scast i)"

definition l3_of_module_path :: "32 word \<Rightarrow> l3address" where
  "l3_of_module_path i = l3_set MODULEPATH (scast i)"

definition l3_toIpv4 :: "l3address \<Rightarrow> ipv4 res" where
  "l3_toIpv4 a =
     (if l3_getType a = NONE then Inr 0 else res_bind (l3_get IPv4 a) (\<lambda>x. Inr (ucast x)))"

definition l3_toIpv6 :: "l3address \<Rightarrow> ipv6 res" where
  "l3_toIpv6 a =
     (if l3_getType a = NONE then Inr ipv6_zero
      else res_bind (l3_get IPv6 a) (\<lambda>x. Inr (ipv6_of_hi_lo (l3_hi a) x)))"

definition l3_toClns :: "l3address \<Rightarrow> clns res" where
  "l3_toClns a =
     (case l3_getType a of
        NONE \<Rightarrow> Inr clns_zero
      | CLNS \<Rightarrow> Inr \<lparr>clns_areaID = drop_bit 16 (l3_hi a AND 0x0000FFFFFFFF0000), clns_systemID = l3_lo a,
                     clns_nsel = ucast (drop_bit 8 (l3_hi a AND 0xFF00))\<rparr>
      | _ \<Rightarrow> Inl (RuntimeError ''Address is not of the given type''))"

definition l3_toMac :: "l3address \<Rightarrow> 64 word res" where
  "l3_toMac a =
     (if l3_getType a = NONE then Inr 0
      else res_bind (l3_get MAC a) (\<lambda>x. Inr (x AND 0xFFFFFFFFFFFF)))"

definition l3_toModuleId :: "l3address \<Rightarrow> int res" where
  "l3_toModuleId a =
     (if l3_getType a = NONE then Inr 0
      else res_bind (l3_get MODULEID a) (\<lambda>x. Inr (sint (ucast x :: 32 word))))"

definition l3_toModulePath :: "l3address \<Rightarrow> int res" where
  "l3_toModulePath a =
     (if l3_getType a = NONE then Inr 0
      else res_bind (l3_get MODULEPATH a) (\<lambda>x. Inr (sint (ucast x :: 32 word))))"

text \<open>The singleton object that describes the type, named by the type.\<close>

definition l3_getAddressType :: "l3address \<Rightarrow> address_type res" where
  "l3_getAddressType a =
     (case l3_getType a of
        NONE \<Rightarrow> Inl (RuntimeError ''Address contains no value'')
      | UnknownType n \<Rightarrow> Inl (RuntimeError ''Unknown type'')
      | t \<Rightarrow> Inr t)"

definition modulePath_str :: "(int \<Rightarrow> string option) \<Rightarrow> int \<Rightarrow> string" where
  "modulePath_str path i =
     (if i = 0 then ''<unspec>'' else if i = -1 then ''<BROADCAST>''
      else if i < -1 then ''<MULTICAST ID='' @ show_int (- i) @ ''>''
      else case path i of Some p \<Rightarrow> p | None \<Rightarrow> ''<module ID='' @ show_int i @ ''>'')"

definition l3_str :: "(int \<Rightarrow> string option) \<Rightarrow> l3address \<Rightarrow> string res" where
  "l3_str path a =
     (case l3_getType a of
        NONE \<Rightarrow> Inr ''<none>''
      | IPv4 \<Rightarrow> res_bind (l3_toIpv4 a) (\<lambda>x. Inr (ipv4_str x))
      | IPv6 \<Rightarrow> res_bind (l3_toIpv6 a) (\<lambda>x. Inr (ipv6_str x))
      | MAC \<Rightarrow> res_bind (l3_toMac a) (\<lambda>x. Inr (mac_str x))
      | MODULEID \<Rightarrow> res_bind (l3_toModuleId a) (\<lambda>x. Inr (show_int x))
      | MODULEPATH \<Rightarrow> res_bind (l3_toModulePath a) (\<lambda>x. Inr (modulePath_str path x))
      | CLNS \<Rightarrow> res_bind (l3_toClns a) (\<lambda>x. Inr (clns_str x))
      | UnknownType n \<Rightarrow> Inl (RuntimeError ''Unknown type''))"

text \<open>\<open>strtol\<close> with base 10, and the identifier it leaves in an \<open>int\<close>\<close>

definition c_strtol :: "string \<Rightarrow> int \<times> string" where
  "c_strtol s =
     (case strtoul_sign s of (neg, s1) \<Rightarrow>
        if s1 = [] \<or> c_digit 10 (hd s1) = None then (0, s)
        else case c_read_digits 10 0 s1 of
               (n, rest) \<Rightarrow>
                 (if neg then (if 2 ^ 63 < n then - (2 ^ 63) else - int n)
                  else (if 2 ^ 63 \<le> n then 2 ^ 63 - 1 else int n), rest))"

definition moduleId_tryParse :: "string \<Rightarrow> bool \<times> 32 word" where
  "moduleId_tryParse addr = (case c_strtol addr of (v, rest) \<Rightarrow> (rest = [], word_of_int v))"

text \<open>The result and the address left in the object.\<close>

definition l3_tryParse :: "(string \<Rightarrow> 32 word option) \<Rightarrow> string \<Rightarrow> l3address \<Rightarrow> (bool \<times> l3address) res" where
  "l3_tryParse module_at addr a =
     res_bind (ipv4_isWellFormed addr) (\<lambda>well.
       if well then res_bind (ipv4_of_string addr) (\<lambda>x. Inr (True, l3_of_ipv4 x))
       else case ipv6_tryParse (Some addr) ipv6_zero of (ok6, x6) \<Rightarrow>
         if ok6 then res_bind (l3_of_ipv6 x6) (\<lambda>a'. Inr (True, a'))
         else res_bind (mac_tryParse (Some addr) 0) (\<lambda>(okm, m).
           if okm then Inr (True, l3_of_mac m)
           else case moduleId_tryParse addr of (okid, i) \<Rightarrow>
             if okid then Inr (True, l3_of_module_id i)
             else case module_at addr of Some j \<Rightarrow> Inr (True, l3_of_module_path j) | None \<Rightarrow> Inr (False, a)))"

definition l3_eq :: "l3address \<Rightarrow> l3address \<Rightarrow> bool res" where
  "l3_eq a b =
     (if l3_getType a \<noteq> l3_getType b then Inr False
      else case l3_getType a of
        NONE \<Rightarrow> Inr True
      | IPv4 \<Rightarrow> res_bind (l3_toIpv4 a) (\<lambda>x. res_bind (l3_toIpv4 b) (\<lambda>y. Inr (x = y)))
      | IPv6 \<Rightarrow> res_bind (l3_toIpv6 a) (\<lambda>x. res_bind (l3_toIpv6 b) (\<lambda>y. Inr (ipv6_eq x y)))
      | MAC \<Rightarrow> res_bind (l3_toMac a) (\<lambda>x. res_bind (l3_toMac b) (\<lambda>y. Inr (x = y)))
      | MODULEID \<Rightarrow> res_bind (l3_toModuleId a) (\<lambda>x. res_bind (l3_toModuleId b) (\<lambda>y. Inr (x = y)))
      | MODULEPATH \<Rightarrow>
          res_bind (l3_toModulePath a) (\<lambda>x. res_bind (l3_toModulePath b) (\<lambda>y. Inr (x = y)))
      | CLNS \<Rightarrow> Inl (RuntimeError ''Unknown type'')
      | UnknownType n \<Rightarrow> Inl (RuntimeError ''Unknown type''))"

definition l3_less :: "l3address \<Rightarrow> l3address \<Rightarrow> bool res" where
  "l3_less a b =
     (if l3_getType a \<noteq> l3_getType b then Inr (type_code (l3_getType a) < type_code (l3_getType b))
      else case l3_getType a of
        NONE \<Rightarrow> Inl (RuntimeError ''Address contains no value'')
      | IPv4 \<Rightarrow> res_bind (l3_toIpv4 a) (\<lambda>x. res_bind (l3_toIpv4 b) (\<lambda>y. Inr (x < y)))
      | IPv6 \<Rightarrow> res_bind (l3_toIpv6 a) (\<lambda>x. res_bind (l3_toIpv6 b) (\<lambda>y. Inr (ipv6_compare x y < 0)))
      | MAC \<Rightarrow> res_bind (l3_toMac a) (\<lambda>x. res_bind (l3_toMac b) (\<lambda>y. Inr (mac_compareTo x y < 0)))
      | MODULEID \<Rightarrow> res_bind (l3_toModuleId a) (\<lambda>x. res_bind (l3_toModuleId b) (\<lambda>y. Inr (x < y)))
      | MODULEPATH \<Rightarrow>
          res_bind (l3_toModulePath a) (\<lambda>x. res_bind (l3_toModulePath b) (\<lambda>y. Inr (x < y)))
      | CLNS \<Rightarrow> Inl (RuntimeError ''Unknown type'')
      | UnknownType n \<Rightarrow> Inl (RuntimeError ''Unknown type''))"

definition l3_ne :: "l3address \<Rightarrow> l3address \<Rightarrow> bool res" where
  "l3_ne a b = res_bind (l3_eq a b) (\<lambda>e. Inr (\<not> e))"

definition l3_isUnspecified :: "l3address \<Rightarrow> bool res" where
  "l3_isUnspecified a =
     (case l3_getType a of
        NONE \<Rightarrow> Inr True
      | IPv4 \<Rightarrow> res_bind (l3_toIpv4 a) (\<lambda>x. Inr (ipv4_isUnspecified x))
      | IPv6 \<Rightarrow> res_bind (l3_toIpv6 a) (\<lambda>x. Inr (ipv6_isUnspecified x))
      | MAC \<Rightarrow> res_bind (l3_toMac a) (\<lambda>x. Inr (mac_isUnspecified x))
      | MODULEID \<Rightarrow> res_bind (l3_toModuleId a) (\<lambda>x. Inr (x = 0))
      | MODULEPATH \<Rightarrow> res_bind (l3_toModulePath a) (\<lambda>x. Inr (x = 0))
      | CLNS \<Rightarrow> Inl (RuntimeError ''Unknown type'')
      | UnknownType n \<Rightarrow> Inl (RuntimeError ''Unknown type''))"

definition l3_isUnicast :: "l3address \<Rightarrow> bool res" where
  "l3_isUnicast a =
     (case l3_getType a of
        NONE \<Rightarrow> Inl (RuntimeError ''Address contains no value'')
      | IPv4 \<Rightarrow> res_bind (l3_toIpv4 a) (\<lambda>x. Inr (\<not> ipv4_isMulticast x \<and> \<not> ipv4_isLimitedBroadcastAddress x))
      | IPv6 \<Rightarrow> res_bind (l3_toIpv6 a) (\<lambda>x. Inr (ipv6_isUnicast x))
      | MAC \<Rightarrow> res_bind (l3_toMac a) (\<lambda>x. Inr (\<not> mac_isBroadcast x \<and> \<not> mac_isMulticast x))
      | MODULEID \<Rightarrow> res_bind (l3_toModuleId a) (\<lambda>x. Inr (0 < x))
      | MODULEPATH \<Rightarrow> res_bind (l3_toModulePath a) (\<lambda>x. Inr (0 < x))
      | CLNS \<Rightarrow> Inl (RuntimeError ''Unknown type'')
      | UnknownType n \<Rightarrow> Inl (RuntimeError ''Unknown type''))"

definition l3_isMulticast :: "l3address \<Rightarrow> bool res" where
  "l3_isMulticast a =
     (case l3_getType a of
        NONE \<Rightarrow> Inl (RuntimeError ''Address contains no value'')
      | IPv4 \<Rightarrow> res_bind (l3_toIpv4 a) (\<lambda>x. Inr (ipv4_isMulticast x))
      | IPv6 \<Rightarrow> res_bind (l3_toIpv6 a) (\<lambda>x. Inr (ipv6_isMulticast x))
      | MAC \<Rightarrow> res_bind (l3_toMac a) (\<lambda>x. Inr (mac_isMulticast x))
      | MODULEID \<Rightarrow> res_bind (l3_toModuleId a) (\<lambda>x. Inr (x < -1))
      | MODULEPATH \<Rightarrow> res_bind (l3_toModulePath a) (\<lambda>x. Inr (x < -1))
      | CLNS \<Rightarrow> Inl (RuntimeError ''Unknown type'')
      | UnknownType n \<Rightarrow> Inl (RuntimeError ''Unknown type''))"

definition l3_isBroadcast :: "l3address \<Rightarrow> bool res" where
  "l3_isBroadcast a =
     (case l3_getType a of
        NONE \<Rightarrow> Inl (RuntimeError ''Address contains no value'')
      | IPv4 \<Rightarrow> res_bind (l3_toIpv4 a) (\<lambda>x. Inr (ipv4_isLimitedBroadcastAddress x))
      | IPv6 \<Rightarrow> Inr False
      | MAC \<Rightarrow> res_bind (l3_toMac a) (\<lambda>x. Inr (mac_isBroadcast x))
      | MODULEID \<Rightarrow> res_bind (l3_toModuleId a) (\<lambda>x. Inr (x = -1))
      | MODULEPATH \<Rightarrow> res_bind (l3_toModulePath a) (\<lambda>x. Inr (x = -1))
      | CLNS \<Rightarrow> Inl (RuntimeError ''Unknown type'')
      | UnknownType n \<Rightarrow> Inl (RuntimeError ''Unknown type''))"

definition l3_isLinkLocal :: "l3address \<Rightarrow> bool res" where
  "l3_isLinkLocal a =
     (case l3_getType a of
        NONE \<Rightarrow> Inl (RuntimeError ''Address contains no value'')
      | IPv4 \<Rightarrow> Inr False
      | IPv6 \<Rightarrow> res_bind (l3_toIpv6 a) (\<lambda>x. Inr (ipv6_isLinkLocal x))
      | MAC \<Rightarrow> Inr True
      | MODULEID \<Rightarrow> Inr False
      | MODULEPATH \<Rightarrow> Inr False
      | CLNS \<Rightarrow> Inl (RuntimeError ''Unknown type'')
      | UnknownType n \<Rightarrow> Inl (RuntimeError ''Unknown type''))"

definition l3_matches :: "l3address \<Rightarrow> l3address \<Rightarrow> int \<Rightarrow> bool res" where
  "l3_matches a b prefixLength =
     (case l3_getType a of
        NONE \<Rightarrow> Inl (RuntimeError ''Address contains no value'')
      | IPv4 \<Rightarrow> res_bind (l3_toIpv4 a) (\<lambda>x. res_bind (l3_toIpv4 b) (\<lambda>y.
                res_bind (ipv4_makeNetmask prefixLength) (\<lambda>m. Inr (ipv4_maskedAddrAreEqual x y m))))
      | IPv6 \<Rightarrow> res_bind (l3_toIpv6 a) (\<lambda>x. res_bind (l3_toIpv6 b) (\<lambda>y. ipv6_matches x y prefixLength))
      | MAC \<Rightarrow> res_bind (l3_toMac a) (\<lambda>x. res_bind (l3_toMac b) (\<lambda>y. Inr (x = y)))
      | MODULEID \<Rightarrow> res_bind (l3_toModuleId a) (\<lambda>x. res_bind (l3_toModuleId b) (\<lambda>y. Inr (x = y)))
      | MODULEPATH \<Rightarrow> res_bind (l3_toModulePath a) (\<lambda>x. res_bind (l3_toModulePath b) (\<lambda>y. Inr (x = y)))
      | CLNS \<Rightarrow> Inl (RuntimeError ''Unknown type'')
      | UnknownType n \<Rightarrow> Inl (RuntimeError ''Unknown type''))"

definition l3_getPrefix :: "l3address \<Rightarrow> int \<Rightarrow> l3address res" where
  "l3_getPrefix a prefixLength =
     (case l3_getType a of
        NONE \<Rightarrow> Inr a
      | IPv4 \<Rightarrow> res_bind (l3_toIpv4 a) (\<lambda>x. res_bind (ipv4_getPrefix x prefixLength) (\<lambda>y. Inr (l3_of_ipv4 y)))
      | IPv6 \<Rightarrow> res_bind (l3_toIpv6 a) (\<lambda>x. res_bind (ipv6_getPrefix x prefixLength) l3_of_ipv6)
      | MAC \<Rightarrow> if prefixLength \<noteq> 48 then Inl (RuntimeError ''mask not supported for MacAddress'') else Inr a
      | MODULEID \<Rightarrow> Inr a
      | MODULEPATH \<Rightarrow> Inr a
      | CLNS \<Rightarrow> Inl (RuntimeError ''getPrefix(): Unknown type'')
      | UnknownType n \<Rightarrow> Inl (RuntimeError ''getPrefix(): Unknown type''))"

fun l3_getTypeName :: "address_type \<Rightarrow> string" where
  "l3_getTypeName NONE = ''NONE''"
| "l3_getTypeName IPv4 = ''IPv4''"
| "l3_getTypeName IPv6 = ''IPv6''"
| "l3_getTypeName MAC = ''MAC''"
| "l3_getTypeName MODULEID = ''MODULEID''"
| "l3_getTypeName MODULEPATH = ''MODULEPATH''"
| "l3_getTypeName CLNS = ''Unknown type''"
| "l3_getTypeName (UnknownType n) = ''Unknown type''"

text \<open>The comparison with a default-constructed address, which cannot fail.\<close>

definition l3_is_empty :: "l3address \<Rightarrow> bool" where
  "l3_is_empty a \<longleftrightarrow> l3_getType a = NONE"

section \<open>Reading back\<close>

lemma type_of_code_code: "(\<And>n. t \<noteq> UnknownType n) \<Longrightarrow> type_of_code (type_code t) = t"
  by (cases t) (simp_all add: type_of_code_def)

lemma type_code_less: "(\<And>n. t \<noteq> UnknownType n) \<Longrightarrow> type_code t < 7"
  by (cases t) auto

lemma l3_hi_type:
  assumes "n < 7"
  shows "drop_bit 48 (push_bit 48 0x8000 + word_of_nat n :: 64 word) = 0x8000"
    and "(push_bit 48 0x8000 + word_of_nat n :: 64 word) AND 0xFF = word_of_nat n"
proof -
  from assms consider "n = 0" | "n = 1" | "n = 2" | "n = 3" | "n = 4" | "n = 5" | "n = 6"
    by linarith
  then show "drop_bit 48 (push_bit 48 0x8000 + word_of_nat n :: 64 word) = 0x8000"
    and "(push_bit 48 0x8000 + word_of_nat n :: 64 word) AND 0xFF = word_of_nat n"
    by (cases; simp)+
qed

lemma l3_getType_set:
  assumes "\<And>n. t \<noteq> UnknownType n"
  shows "l3_getType (l3_set t lo) = t"
proof -
  have n: "type_code t < 7" by (rule type_code_less) (rule assms)
  have "unat (word_of_nat (type_code t) :: 64 word) = type_code t"
    using n by (simp add: unat_of_nat)
  with l3_hi_type[OF n] type_of_code_code[OF assms] show ?thesis
    by (simp add: l3_getType_def l3_set_def)
qed

lemma l3_getType_simps [simp]:
  "l3_getType l3_empty = NONE" "l3_getType (l3_of_ipv4 a) = IPv4"
  "l3_getType (l3_of_mac m) = MAC" "l3_getType (l3_of_module_id i) = MODULEID"
  unfolding l3_empty_def l3_of_ipv4_def l3_of_mac_def l3_of_module_id_def
  by (rule l3_getType_set; simp)+

lemma l3_toIpv4_of [simp]: "l3_toIpv4 (l3_of_ipv4 a) = Inr a"
proof -
  have "ucast (ucast a :: 64 word) = a"
    by (rule bit_word_eqI) (simp add: bit_simps)
  then show ?thesis by (simp add: l3_toIpv4_def l3_get_def) (simp add: l3_of_ipv4_def l3_set_def)
qed

lemma l3_eq_empty: "l3_eq a l3_empty = Inr (l3_is_empty a)"
  by (simp add: l3_eq_def l3_is_empty_def)

lemma l3_is_empty_simps [simp]: "l3_is_empty l3_empty" "\<not> l3_is_empty (l3_of_ipv4 a)"
  by (simp_all add: l3_is_empty_def)

lemma l3_eq_ipv4: "l3_eq (l3_of_ipv4 a) (l3_of_ipv4 b) = Inr (a = b)"
  by (simp add: l3_eq_def)

lemma l3_str_ipv4: "l3_str path (l3_of_ipv4 a) = Inr (ipv4_str a)"
  by (simp add: l3_str_def)

text \<open>
  On IPv4 addresses the address and its text identify each other: \<open>==\<close> is equality, the texts of
  two addresses are equal only if the addresses are, and no IPv4 address equals the empty one.
\<close>

theorem l3_ipv4_identity:
  "l3_eq (l3_of_ipv4 a) (l3_of_ipv4 b) = Inr (a = b) \<and>
   (l3_str path (l3_of_ipv4 a) = l3_str path (l3_of_ipv4 b)) = (a = b) \<and>
   l3_eq (l3_of_ipv4 a) l3_empty = Inr False"
  by (auto simp: l3_eq_ipv4 l3_str_ipv4 l3_eq_empty dest: ipv4_str_inj)

end
