(* ===== verification/MamCommon.thy ===== *)
theory MamCommon
  imports Operational L3Address "HOL-Library.List_Lexorder" "HOL-Library.Char_ord"
begin

text \<open>
  What the two MAM applications share (\<open>applications/mamapp/BMeshPacket.msg\<close>, the socket and packet
  calls of \<open>MamNodeApp.cc\<close> and \<open>MamDataCollectorApp.cc\<close>): the mesh packet, the packets sent and
  received, the log of calls an application makes on its socket, its signals and its result recorder,
  and the paging of the recorded packet identifiers.

  Shown: the pages hold all identifiers in order, 750 to a page.
\<close>

section \<open>Packets\<close>

text \<open>
  \<open>class BMeshPacket\<close> with the defaults of the message file; \<open>bm_creationTag\<close> is the
  \<open>CreationTimeTag\<close> added to the chunk.
\<close>

record bmesh_packet =
  bm_chunkLength :: int
  bm_hops :: int
  bm_srcUuid :: string
  bm_packetUuid :: string
  bm_sequence :: int
  bm_creationTime :: simtime
  bm_creationTag :: "simtime option"

definition bmesh_new :: bmesh_packet where
  "bmesh_new = \<lparr>bm_chunkLength = 11, bm_hops = 127, bm_srcUuid = [], bm_packetUuid = [],
     bm_sequence = -1, bm_creationTime = 0, bm_creationTag = None\<rparr>"

record udp_packet =
  up_name :: string
  up_dontFragment :: bool
  up_payload :: bmesh_packet

text \<open>
  An arriving packet: its name and message kind, the source address of its \<open>L3AddressInd\<close> tag (if it
  has the tag), the chunk at its back (\<open>None\<close>: not a \<open>BMeshPacket\<close>), its length, and whether its tags
  name the application's socket.
\<close>

datatype udp_kind = UDP_I_DATA | UDP_I_ERROR | UDP_I_SOCKET_CLOSED | UDP_I_OTHER

record arriving_packet =
  ap_name :: string
  ap_kind :: udp_kind
  ap_src :: "l3address option"
  ap_back :: "bmesh_packet option"
  ap_byteLength :: int
  ap_belongs :: bool

text \<open>An arriving message is a packet or an indication of the UDP module (not a \<open>Packet\<close>).\<close>

datatype udp_message = PacketMessage arriving_packet | IndicationMessage udp_kind bool

text \<open>The calls an application makes on its socket, its signals and the result recorder.\<close>

datatype app_action =
    SocketBind l3address int
  | SetTimeToLive int
  | SetTypeOfService int
  | SetMulticastOutputInterface int
  | SetBroadcast bool
  | JoinLocalMulticastGroups
  | JoinMulticastGroup l3address
  | LeaveMulticastGroup l3address
  | SetCallback
  | SendTo udp_packet l3address int
  | SocketClose
  | SocketDestroy
  | EmitPacket string
  | EmitDelay simtime
  | RecordScalar string int

definition broadcast_addr :: l3address where
  "broadcast_addr = l3_of_ipv4 0xFFFFFFFF"

text \<open>\<open>static_cast<BMeshPacket>(dynamicPtrCast(..))->field\<close> on a chunk of another class.\<close>

definition deref_bmesh :: "arriving_packet \<Rightarrow> bmesh_packet res" where
  "deref_bmesh pk =
     (case ap_back pk of
        None \<Rightarrow> Inl (UndefinedBehaviour ''null chunk pointer'')
      | Some b \<Rightarrow> Inr b)"

text \<open>
  \<open>UdpSocket::processMessage\<close> (\<open>transportlayer/contract/udp/UdpSocket.cc\<close>) with the callbacks of the
  application; \<open>check_and_cast\<close> of a message of the wrong class throws.
\<close>

fun udp_message_kind :: "udp_message \<Rightarrow> udp_kind" where
  "udp_message_kind (PacketMessage pk) = ap_kind pk"
| "udp_message_kind (IndicationMessage k b) = k"

fun udp_belongs :: "udp_message \<Rightarrow> bool" where
  "udp_belongs (PacketMessage pk) = ap_belongs pk"
| "udp_belongs (IndicationMessage k b) = b"

definition socket_processMessage ::
    "(arriving_packet \<Rightarrow> 's \<Rightarrow> 's res) \<Rightarrow> ('s \<Rightarrow> 's res) \<Rightarrow> ('s \<Rightarrow> 's res) \<Rightarrow> udp_message \<Rightarrow> 's \<Rightarrow> 's res" where
  "socket_processMessage dataArrived errorArrived closed msg s =
     check_that (udp_belongs msg) (AssertFailed ''belongsToSocket'')
       (case udp_message_kind msg of
          UDP_I_DATA \<Rightarrow>
            (case msg of PacketMessage pk \<Rightarrow> dataArrived pk s
             | IndicationMessage k b \<Rightarrow> Inl (RuntimeError ''check_and_cast''))
        | UDP_I_ERROR \<Rightarrow>
            (case msg of PacketMessage pk \<Rightarrow> Inl (RuntimeError ''check_and_cast'')
             | IndicationMessage k b \<Rightarrow> errorArrived s)
        | UDP_I_SOCKET_CLOSED \<Rightarrow>
            (case msg of PacketMessage pk \<Rightarrow> Inl (RuntimeError ''check_and_cast'')
             | IndicationMessage k b \<Rightarrow> closed s)
        | UDP_I_OTHER \<Rightarrow> Inl (RuntimeError ''UdpSocket: invalid msg kind''))"

section \<open>A \<open>std::set<std::string>\<close>\<close>

text \<open>The iteration order is the order of the strings, so a set is its sorted list.\<close>

type_synonym string_set = "string list"

definition sset_insert :: "string \<Rightarrow> string_set \<Rightarrow> string_set" where
  "sset_insert e s = insort_insert e s"

definition sset_member :: "string \<Rightarrow> string_set \<Rightarrow> bool" where
  "sset_member e s \<longleftrightarrow> e \<in> set s"

definition sset_inv :: "string_set \<Rightarrow> bool" where
  "sset_inv s \<longleftrightarrow> sorted s \<and> distinct s"

lemma sset_inv_empty [simp]: "sset_inv []"
  by (simp add: sset_inv_def)

lemma sset_insert_inv: "sset_inv s \<Longrightarrow> sset_inv (sset_insert e s)"
  by (simp add: sset_inv_def sset_insert_def sorted_insort_insert distinct_insort_insert)

lemma sset_insert_set [simp]: "set (sset_insert e s) = insert e (set s)"
  by (simp add: sset_insert_def set_insort_insert)

lemma sset_insert_length:
  "length (sset_insert e s) = (if e \<in> set s then length s else Suc (length s))"
  by (simp add: sset_insert_def insort_insert_key_def)

section \<open>Recording identifiers\<close>

text \<open>
  The loop of both \<open>finish\<close> functions: \<open>str\<close> is the page being written, \<open>i\<close> its number of entries,
  \<open>out\<close> the pages recorded. \<open>pop_back\<close> removes the last character.
\<close>

record paging =
  pg_str :: string
  pg_i :: nat
  pg_page :: nat
  pg_out :: "string list"

definition page_start :: "string \<Rightarrow> nat \<Rightarrow> string" where
  "page_start prefix n = prefix @ show_nat n @ ''=''"

definition page_step :: "string \<Rightarrow> paging \<Rightarrow> string \<Rightarrow> paging" where
  "page_step prefix p e =
     (let p1 = (if pg_i p = 750
                then p\<lparr>pg_out := pg_out p @ [butlast (pg_str p)], pg_i := 0,
                       pg_page := Suc (pg_page p),
                       pg_str := page_start prefix (Suc (pg_page p))\<rparr>
                else p)
      in p1\<lparr>pg_str := pg_str p1 @ e @ '','', pg_i := Suc (pg_i p1)\<rparr>)"

definition uuid_pages :: "string \<Rightarrow> string_set \<Rightarrow> string list" where
  "uuid_pages prefix ids =
     (let p = foldl (page_step prefix)
                \<lparr>pg_str = page_start prefix 1, pg_i = 0, pg_page = 1, pg_out = []\<rparr> ids
      in pg_out p @ [butlast (pg_str p)])"

text \<open>What the pages should be: 750 identifiers each, separated by commas.\<close>

fun comma_list :: "string list \<Rightarrow> string" where
  "comma_list [] = []"
| "comma_list [e] = e"
| "comma_list (e # es) = e @ '','' @ comma_list es"

definition page_ids :: "string list \<Rightarrow> nat \<Rightarrow> string list" where
  "page_ids ids k = take 750 (drop (750 * k) ids)"

definition page_text :: "string \<Rightarrow> string list \<Rightarrow> nat \<Rightarrow> string" where
  "page_text prefix ids k = page_start prefix (Suc k) @ comma_list (page_ids ids k)"

lemma comma_concat: "es \<noteq> [] \<Longrightarrow> butlast (s @ concat (map (\<lambda>e. e @ '','') es)) = s @ comma_list es"
proof (induction es arbitrary: s rule: comma_list.induct)
  case (2 e)
  then show ?case using butlast_snoc[of "s @ e" "CHR '',''"] by simp
next
  case (3 e e' es)
  from "3.IH"[of "s @ e @ '',''"] show ?case by simp
qed simp

lemma page_count:
  fixes n :: nat
  assumes "0 < n"
  shows "750 * ((n - 1) div 750) < n" and "n \<le> 750 * ((n - 1) div 750) + 750"
  using assms times_div_less_eq_dividend[of 750 "n - 1"] dividend_less_times_div[of 750 "n - 1"]
  by linarith+

text \<open>After \<open>n > 0\<close> identifiers: \<open>q\<close> full pages are recorded and the current one holds the rest.\<close>

lemma page_loop:
  assumes "ids \<noteq> []"
  defines "q \<equiv> (length ids - 1) div 750"
  shows "foldl (page_step prefix)
      \<lparr>pg_str = page_start prefix 1, pg_i = 0, pg_page = 1, pg_out = []\<rparr> ids =
    \<lparr>pg_str = page_start prefix (Suc q) @ concat (map (\<lambda>e. e @ '','') (drop (750 * q) ids)),
     pg_i = length ids - 750 * q, pg_page = Suc q,
     pg_out = map (page_text prefix ids) [0..<q]\<rparr>"
  using assms(1) unfolding q_def
proof (induction ids rule: rev_induct)
  case Nil
  then show ?case by simp
next
  case (snoc e ids)
  show ?case
  proof (cases "ids = []")
    case True
    then show ?thesis by (simp add: page_step_def)
  next
    case False
    define n q where "n = length ids" and "q = (n - 1) div 750"
    have n: "0 < n" using False by (simp add: n_def)
    have IH: "foldl (page_step prefix)
        \<lparr>pg_str = page_start prefix 1, pg_i = 0, pg_page = 1, pg_out = []\<rparr> ids =
      \<lparr>pg_str = page_start prefix (Suc q) @ concat (map (\<lambda>e. e @ '','') (drop (750 * q) ids)),
       pg_i = n - 750 * q, pg_page = Suc q, pg_out = map (page_text prefix ids) [0..<q]\<rparr>"
      using snoc.IH[OF False] by (simp add: q_def n_def)
    have qn: "750 * q < n" "n \<le> 750 * q + 750" unfolding q_def by (rule page_count[OF n])+
    have step: "foldl (page_step prefix)
        \<lparr>pg_str = page_start prefix 1, pg_i = 0, pg_page = 1, pg_out = []\<rparr> (ids @ [e]) =
      page_step prefix
        \<lparr>pg_str = page_start prefix (Suc q) @ concat (map (\<lambda>e. e @ '','') (drop (750 * q) ids)),
         pg_i = n - 750 * q, pg_page = Suc q, pg_out = map (page_text prefix ids) [0..<q]\<rparr> e"
      by (simp only: foldl_append foldl_Cons foldl_Nil IH)
    have old: "page_text prefix (ids @ [e]) k = page_text prefix ids k" if "750 * k + 750 \<le> n" for k
      using that by (simp add: page_text_def page_ids_def n_def)
    have out: "map (page_text prefix ids) [0..<q] = map (page_text prefix (ids @ [e])) [0..<q]"
      using qn by (intro map_cong) (auto simp: old)
    show ?thesis
    proof (cases "n - 750 * q = 750")
      case True
      then have nq: "n = 750 * Suc q" using qn by simp
      then have q': "(length (ids @ [e]) - 1) div 750 = Suc q" by (simp add: n_def)
      have "drop (750 * q) ids \<noteq> []" using qn by (simp add: n_def)
      then have "butlast (page_start prefix (Suc q) @ concat (map (\<lambda>e. e @ '','') (drop (750 * q) ids))) =
          page_text prefix ids q"
        using nq by (simp add: comma_concat page_text_def page_ids_def n_def)
      moreover have "page_text prefix ids q = page_text prefix (ids @ [e]) q"
        using old[of q] nq by simp
      ultimately show ?thesis
        unfolding q' step using True nq by (simp add: page_step_def out n_def)
    next
      case False
      then have q': "(length (ids @ [e]) - 1) div 750 = q"
        using qn by (simp add: n_def div_nat_eqI)
      show ?thesis
        unfolding q' step using False qn by (simp add: page_step_def out n_def)
    qed
  qed
qed

lemma uuid_pages_text:
  assumes "ids \<noteq> []"
  shows "uuid_pages prefix ids = map (page_text prefix ids) [0..<Suc ((length ids - 1) div 750)]"
proof -
  define q where "q = (length ids - 1) div 750"
  from assms have "0 < length ids" by simp
  then have "750 * q < length ids" "length ids \<le> 750 * q + 750"
    unfolding q_def by (rule page_count)+
  then have "drop (750 * q) ids \<noteq> []" "page_ids ids q = drop (750 * q) ids"
    by (auto simp: page_ids_def)
  then show ?thesis
    unfolding uuid_pages_def page_loop[OF assms] q_def[symmetric] Let_def
    by (simp add: comma_concat page_text_def)
qed

lemma page_ids_all:
  "concat (map (page_ids ids) [0..<Suc ((length ids - 1) div 750)]) = ids"
proof -
  have all: "concat (map (page_ids ids) [0..<k]) = take (750 * k) ids" for k
  proof (induction k)
    case (Suc k)
    have "take (750 * k) ids @ page_ids ids k = take (750 * k + 750) ids"
      by (simp only: page_ids_def take_add)
    with Suc show ?case by (simp add: add.commute)
  qed simp
  have "length ids \<le> 750 * Suc ((length ids - 1) div 750)"
    using page_count(2)[of "length ids"] by (cases "length ids") auto
  then show ?thesis unfolding all by (rule take_all)
qed

text \<open>
  The recorded pages hold all identifiers in order: page \<open>k\<close> is numbered \<open>k + 1\<close> and holds the
  identifiers \<open>750 k, .., 750 k + 749\<close> between commas. With no identifier the only page loses its
  last character, the equals sign.
\<close>

theorem uuid_pages_complete:
  "uuid_pages prefix [] = [prefix @ ''1''] \<and>
   (ids \<noteq> [] \<longrightarrow>
      (let n = Suc ((length ids - 1) div 750)
       in uuid_pages prefix ids = map (page_text prefix ids) [0..<n] \<and>
          concat (map (page_ids ids) [0..<n]) = ids \<and>
          (\<forall>k. length (page_ids ids k) \<le> 750)))"
proof -
  have "uuid_pages prefix [] = [prefix @ ''1'']"
    by (simp add: uuid_pages_def page_start_def butlast_append)
  then show ?thesis
    using uuid_pages_text[of ids prefix] page_ids_all[of ids]
    by (simp only: Let_def) (simp add: page_ids_def)
qed

lemma uuid_pages_complete_witness:
  "uuid_pages ''p'' [''a'', ''b''] = [''p1=a,b'']"
  using uuid_pages_complete[where prefix = "''p''" and ids = "[''a'', ''b'']"]
  by (simp add: page_text_def page_start_def page_ids_def)

end
