(* ===== verification/LruCache.thy ===== *)
theory LruCache
  imports Prelude
begin

text \<open>
  The time-limited LRU cache of the MAM node (\<open>applications/mamapp/LruCache.h\<close>), in which the node
  remembers the data packets it has relayed.

  A \<open>std::list\<close> iterator is the identity of a list cell, so the list is a list of (cell, node) pairs
  and the map takes a key to a cell; \<open>push_front\<close> allocates a fresh cell. Following an iterator whose
  cell is gone is undefined behaviour and is a value of the model.

  Shown: the pointer structure is consistent after every operation (no iterator ever dangles), the
  operations implement a plain most-recent-first list of bounded length, and an entry survives fewer
  than \<open>_max_size\<close> insertions of other keys.
\<close>

section \<open>The code\<close>

record ('k, 'v) node_t =
  node_key :: 'k
  node_value :: 'v
  node_expiry :: int

record ('k, 'v) lru_cache =
  cache_items_list :: "(nat \<times> ('k, 'v) node_t) list"
  cache_items_map :: "('k \<times> nat) list"
  cache_max_size :: nat
  cache_next_cell :: nat

definition lru_new :: "nat \<Rightarrow> ('k, 'v) lru_cache" where
  "lru_new n = \<lparr>cache_items_list = [], cache_items_map = [], cache_max_size = n, cache_next_cell = 0\<rparr>"

text \<open>\<open>std::list::erase\<close> of an iterator.\<close>

definition list_erase :: "nat \<Rightarrow> (nat \<times> 'n) list \<Rightarrow> (nat \<times> 'n) list" where
  "list_erase i xs = filter (\<lambda>x. fst x \<noteq> i) xs"

definition lru_put :: "('k, 'v) lru_cache \<Rightarrow> 'k \<Rightarrow> 'v \<Rightarrow> int \<Rightarrow> ('k, 'v) lru_cache" where
  "lru_put c key v expiry =
     (let it = map_of (cache_items_map c) key;
          cell = cache_next_cell c;
          node = \<lparr>node_key = key, node_value = v, node_expiry = expiry\<rparr>;
          l1 = (cell, node) # cache_items_list c;
          (l2, m2) = (case it of
                        None \<Rightarrow> (l1, cache_items_map c)
                      | Some old \<Rightarrow> (list_erase old l1, AList.delete key (cache_items_map c)));
          m3 = AList.update key cell m2;
          (l4, m4) = (if length m3 > cache_max_size c
                      then (butlast l2, AList.delete (node_key (snd (last l2))) m3)
                      else (l2, m3))
      in c\<lparr>cache_items_list := l4, cache_items_map := m4, cache_next_cell := Suc cell\<rparr>)"

definition lru_put_no_expiry :: "('k, 'v) lru_cache \<Rightarrow> 'k \<Rightarrow> 'v \<Rightarrow> ('k, 'v) lru_cache" where
  "lru_put_no_expiry c key v = lru_put c key v 0"

definition lru_get :: "('k, 'v) lru_cache \<Rightarrow> 'k \<Rightarrow> int \<Rightarrow> ('v \<times> ('k, 'v) lru_cache) res" where
  "lru_get c key clock =
     (case map_of (cache_items_map c) key of
        None \<Rightarrow> Inl (RangeError ''There is no such key in cache'')
      | Some cell \<Rightarrow>
          (case map_of (cache_items_list c) cell of
             None \<Rightarrow> Inl (UndefinedBehaviour ''dangling iterator'')
           | Some node \<Rightarrow>
               Inr (node_value node,
                    c\<lparr>cache_items_list := (cell, node) # list_erase cell (cache_items_list c)\<rparr>)))"

definition lru_exists :: "('k, 'v) lru_cache \<Rightarrow> 'k \<Rightarrow> int \<Rightarrow> bool res" where
  "lru_exists c key time =
     (case map_of (cache_items_map c) key of
        None \<Rightarrow> Inr False
      | Some cell \<Rightarrow>
          (case map_of (cache_items_list c) cell of
             None \<Rightarrow> Inl (UndefinedBehaviour ''dangling iterator'')
           | Some node \<Rightarrow> Inr (time < node_expiry node)))"

definition lru_size :: "('k, 'v) lru_cache \<Rightarrow> nat" where
  "lru_size c = length (cache_items_map c)"

section \<open>The specification\<close>

text \<open>A cache is a list of (key, value, expiry), most recent first.\<close>

type_synonym ('k, 'v) lru_spec = "('k \<times> 'v \<times> int) list"

fun lru_entry :: "nat \<times> ('k, 'v) node_t \<Rightarrow> 'k \<times> 'v \<times> int" where
  "lru_entry (i, n) = (node_key n, node_value n, node_expiry n)"

definition lru_abs :: "('k, 'v) lru_cache \<Rightarrow> ('k, 'v) lru_spec" where
  "lru_abs c = map lru_entry (cache_items_list c)"

definition spec_put :: "nat \<Rightarrow> ('k, 'v) lru_spec \<Rightarrow> 'k \<Rightarrow> 'v \<Rightarrow> int \<Rightarrow> ('k, 'v) lru_spec" where
  "spec_put n xs k v e = take n ((k, v, e) # filter (\<lambda>x. fst x \<noteq> k) xs)"

definition spec_get :: "('k, 'v) lru_spec \<Rightarrow> 'k \<Rightarrow> ('v \<times> ('k, 'v) lru_spec) option" where
  "spec_get xs k =
     (case map_of xs k of
        None \<Rightarrow> None
      | Some (v, e) \<Rightarrow> Some (v, (k, v, e) # filter (\<lambda>x. fst x \<noteq> k) xs))"

definition spec_exists :: "('k, 'v) lru_spec \<Rightarrow> 'k \<Rightarrow> int \<Rightarrow> bool" where
  "spec_exists xs k t = (case map_of xs k of None \<Rightarrow> False | Some (v, e) \<Rightarrow> t < e)"

section \<open>The pointer structure\<close>

definition cell_key :: "nat \<times> ('k, 'v) node_t \<Rightarrow> 'k \<times> nat" where
  "cell_key x = (node_key (snd x), fst x)"

definition lru_links ::
    "(nat \<times> ('k, 'v) node_t) list \<Rightarrow> ('k \<times> nat) list \<Rightarrow> nat \<Rightarrow> bool" where
  "lru_links xs m next \<longleftrightarrow>
     distinct (map fst xs) \<and>
     distinct (map (node_key \<circ> snd) xs) \<and>
     distinct (map fst m) \<and>
     set m = cell_key ` set xs \<and>
     (\<forall>x \<in> set xs. fst x < next)"

definition lru_inv :: "('k, 'v) lru_cache \<Rightarrow> bool" where
  "lru_inv c \<longleftrightarrow>
     lru_links (cache_items_list c) (cache_items_map c) (cache_next_cell c) \<and>
     length (cache_items_list c) \<le> cache_max_size c"

lemma lru_linksD:
  assumes "lru_links xs m nx"
  shows "distinct (map fst xs)" and "distinct (map (node_key \<circ> snd) xs)"
    and "distinct (map fst m)" and "set m = cell_key ` set xs"
    and "\<And>x. x \<in> set xs \<Longrightarrow> fst x < nx"
  using assms unfolding lru_links_def by blast+

lemma lru_linksI:
  assumes "distinct (map fst xs)" and "distinct (map (node_key \<circ> snd) xs)"
    and "distinct (map fst m)" and "set m = cell_key ` set xs"
    and "\<And>x. x \<in> set xs \<Longrightarrow> fst x < nx"
  shows "lru_links xs m nx"
  using assms unfolding lru_links_def by blast

lemma lru_invD:
  assumes "lru_inv c"
  shows "distinct (map fst (cache_items_list c))"
    and "distinct (map (node_key \<circ> snd) (cache_items_list c))"
    and "distinct (map fst (cache_items_map c))"
    and "set (cache_items_map c) = cell_key ` set (cache_items_list c)"
    and "\<And>x. x \<in> set (cache_items_list c) \<Longrightarrow> fst x < cache_next_cell c"
    and "length (cache_items_list c) \<le> cache_max_size c"
  using assms unfolding lru_inv_def by (auto dest: lru_linksD)

lemma lru_inv_new: "lru_inv (lru_new n)"
  by (simp add: lru_inv_def lru_links_def lru_new_def)

lemma lru_abs_new: "lru_abs (lru_new n) = []"
  by (simp add: lru_abs_def lru_new_def)

lemma lru_keys: "map fst (lru_abs c) = map (node_key \<circ> snd) (cache_items_list c)"
  by (auto simp: lru_abs_def)

lemma lru_distinct_abs: "lru_inv c \<Longrightarrow> distinct (map fst (lru_abs c))"
  by (simp only: lru_keys lru_invD)

lemma lru_length_map:
  assumes "lru_inv c"
  shows "length (cache_items_map c) = length (cache_items_list c)"
proof -
  from lru_invD(1)[OF assms] have "inj_on cell_key (set (cache_items_list c))"
    by (auto simp: cell_key_def distinct_map inj_on_def)
  then have "card (cell_key ` set (cache_items_list c)) = card (set (cache_items_list c))"
    by (rule card_image)
  moreover have "distinct (cache_items_map c)" "distinct (cache_items_list c)"
    using lru_invD(1,3)[OF assms] by (auto simp: distinct_map)
  ultimately show ?thesis using lru_invD(4)[OF assms] by (metis distinct_card)
qed

lemma lru_map_of:
  assumes "lru_inv c"
  shows "map_of (cache_items_map c) k = Some i \<longleftrightarrow>
           (\<exists>n. (i, n) \<in> set (cache_items_list c) \<and> node_key n = k)"
proof -
  have "map_of (cache_items_map c) k = Some i \<longleftrightarrow> (k, i) \<in> set (cache_items_map c)"
    by (rule map_of_eq_Some_iff[OF lru_invD(3)[OF assms]])
  also have "\<dots> \<longleftrightarrow> (\<exists>n. (i, n) \<in> set (cache_items_list c) \<and> node_key n = k)"
    unfolding lru_invD(4)[OF assms] by (force simp: cell_key_def)
  finally show ?thesis .
qed

lemma lru_map_of_None:
  assumes "lru_inv c"
  shows "map_of (cache_items_map c) k = None \<longleftrightarrow> k \<notin> (node_key \<circ> snd) ` set (cache_items_list c)"
proof -
  have "fst ` set (cache_items_map c) = (node_key \<circ> snd) ` set (cache_items_list c)"
    unfolding lru_invD(4)[OF assms] by (simp add: image_image cell_key_def comp_def)
  then show ?thesis by (simp add: map_of_eq_None_iff)
qed

text \<open>Looking a key up follows a live iterator to the entry of the specification's list.\<close>

lemma lru_lookup:
  assumes "lru_inv c" and "map_of (cache_items_map c) k = Some i"
  obtains n where "map_of (cache_items_list c) i = Some n" and "node_key n = k"
    and "(i, n) \<in> set (cache_items_list c)"
    and "map_of (lru_abs c) k = Some (node_value n, node_expiry n)"
proof -
  from lru_map_of[OF assms(1)] assms(2) obtain n
    where n: "(i, n) \<in> set (cache_items_list c)" "node_key n = k" by blast
  have "map_of (cache_items_list c) i = Some n"
    by (rule map_of_is_SomeI[OF lru_invD(1)[OF assms(1)] n(1)])
  moreover from n have "(k, node_value n, node_expiry n) \<in> set (lru_abs c)"
    by (force simp: lru_abs_def)
  then have "map_of (lru_abs c) k = Some (node_value n, node_expiry n)"
    by (rule map_of_is_SomeI[OF lru_distinct_abs[OF assms(1)]])
  ultimately show ?thesis using that n by blast
qed

lemma lru_lookup_None:
  assumes "lru_inv c"
  shows "map_of (cache_items_map c) k = None \<longleftrightarrow> map_of (lru_abs c) k = None"
proof -
  have "fst ` set (lru_abs c) = (node_key \<circ> snd) ` set (cache_items_list c)"
    by (metis lru_keys list.set_map)
  with lru_map_of_None[OF assms] show ?thesis by (metis map_of_eq_None_iff)
qed

section \<open>Insertion\<close>

lemma lru_filter_absent:
  "k \<notin> (node_key \<circ> snd) ` set xs \<Longrightarrow> filter (\<lambda>x. node_key (snd x) \<noteq> k) xs = xs"
  by (induction xs) auto

lemma alist_update_fresh: "k \<notin> fst ` set m \<Longrightarrow> AList.update k v m = m @ [(k, v)]"
  by (induction m) auto

text \<open>Dropping the cell of a key, in the list and in the map.\<close>

lemma lru_links_drop:
  assumes "lru_links xs m nx"
  shows "lru_links (filter (\<lambda>x. node_key (snd x) \<noteq> k) xs) (AList.delete k m) nx"
proof (rule lru_linksI)
  show "set (AList.delete k m) = cell_key ` set (filter (\<lambda>x. node_key (snd x) \<noteq> k) xs)"
    by (auto simp: AList.delete_eq lru_linksD(4)[OF assms] cell_key_def)
  show "distinct (map fst (AList.delete k m))"
    using lru_linksD(3)[OF assms] by (rule distinct_delete)
qed (use lru_linksD[OF assms] in \<open>auto simp: distinct_map_filter\<close>)

text \<open>Linking a fresh cell of an absent key in front.\<close>

lemma lru_links_push:
  assumes "lru_links xs m nx" and "k \<notin> (node_key \<circ> snd) ` set xs" and "node_key n = k"
  shows "lru_links ((nx, n) # xs) (AList.update k nx m) (Suc nx)"
proof -
  have "fst ` set m = (node_key \<circ> snd) ` set xs"
    unfolding lru_linksD(4)[OF assms(1)] by (simp add: image_image cell_key_def comp_def)
  with assms(2) have fresh: "k \<notin> fst ` set m" by simp
  have cell: "nx \<notin> fst ` set xs" using lru_linksD(5)[OF assms(1)] by blast
  show ?thesis
    unfolding alist_update_fresh[OF fresh]
  proof (rule lru_linksI)
    show "set (m @ [(k, nx)]) = cell_key ` set ((nx, n) # xs)"
      using assms(3) by (simp add: lru_linksD(4)[OF assms(1)] cell_key_def)
    show "\<And>x. x \<in> set ((nx, n) # xs) \<Longrightarrow> fst x < Suc nx"
      using lru_linksD(5)[OF assms(1)] by (auto intro: less_SucI)
  qed (use lru_linksD[OF assms(1)] assms(2,3) fresh cell in auto)
qed

text \<open>Dropping the last cell, as the eviction does.\<close>

lemma lru_links_evict:
  assumes "lru_links xs m nx" and "xs \<noteq> []"
  shows "lru_links (butlast xs) (AList.delete (node_key (snd (last xs))) m) nx"
proof -
  obtain ys y where xs: "xs = ys @ [y]" using assms(2) by (cases xs rule: rev_cases) auto
  have "node_key (snd y) \<notin> (node_key \<circ> snd) ` set ys"
    using lru_linksD(2)[OF assms(1)] by (simp add: xs)
  then have "filter (\<lambda>x. node_key (snd x) \<noteq> node_key (snd y)) ys = ys"
    by (rule lru_filter_absent)
  then have "filter (\<lambda>x. node_key (snd x) \<noteq> node_key (snd y)) xs = butlast xs"
    by (simp add: xs)
  with lru_links_drop[OF assms(1), of "node_key (snd y)"] show ?thesis by (simp add: xs)
qed

text \<open>Erasing the old cell of a key is dropping the key.\<close>

lemma lru_erase_old:
  assumes "lru_links xs m nx" and "map_of m k = Some i"
  shows "list_erase i xs = filter (\<lambda>x. node_key (snd x) \<noteq> k) xs" and "i < nx"
proof -
  from map_of_SomeD[OF assms(2)] obtain x where x: "x \<in> set xs" "fst x = i" "node_key (snd x) = k"
    unfolding lru_linksD(4)[OF assms(1)] by (auto simp: cell_key_def)
  with lru_linksD(5)[OF assms(1)] show "i < nx" by blast
  have "fst y \<noteq> i \<longleftrightarrow> node_key (snd y) \<noteq> k" if "y \<in> set xs" for y
  proof
    assume "fst y \<noteq> i"
    with x that lru_linksD(2)[OF assms(1)] show "node_key (snd y) \<noteq> k"
      by (auto simp: distinct_map dest: inj_onD[of "node_key \<circ> snd" _ y x])
  next
    assume "node_key (snd y) \<noteq> k"
    with x that lru_linksD(1)[OF assms(1)] show "fst y \<noteq> i"
      by (auto simp: distinct_map dest: inj_onD[of fst _ y x])
  qed
  then show "list_erase i xs = filter (\<lambda>x. node_key (snd x) \<noteq> k) xs"
    unfolding list_erase_def by (rule filter_cong[OF refl])
qed

text \<open>The two steps of \<open>put\<close>: linking the new node in front, then evicting when the map is too large.\<close>

definition lru_linked ::
    "('k, 'v) lru_cache \<Rightarrow> 'k \<Rightarrow> ('k, 'v) node_t \<Rightarrow> (nat \<times> ('k, 'v) node_t) list" where
  "lru_linked c k n =
     (cache_next_cell c, n) # filter (\<lambda>x. node_key (snd x) \<noteq> k) (cache_items_list c)"

definition lru_linked_map :: "('k, 'v) lru_cache \<Rightarrow> 'k \<Rightarrow> ('k \<times> nat) list" where
  "lru_linked_map c k = AList.update k (cache_next_cell c) (AList.delete k (cache_items_map c))"

lemma lru_put_steps:
  assumes "lru_inv c"
  shows "lru_put c k v e =
    (let n = \<lparr>node_key = k, node_value = v, node_expiry = e\<rparr>;
         l = lru_linked c k n; m = lru_linked_map c k
     in c\<lparr>cache_items_list := if length m > cache_max_size c then butlast l else l,
          cache_items_map := if length m > cache_max_size c
                             then AList.delete (node_key (snd (last l))) m else m,
          cache_next_cell := Suc (cache_next_cell c)\<rparr>)"
proof (cases "map_of (cache_items_map c) k")
  case None
  with lru_map_of_None[OF assms] have "k \<notin> (node_key \<circ> snd) ` set (cache_items_list c)" by blast
  then have 1: "filter (\<lambda>x. node_key (snd x) \<noteq> k) (cache_items_list c) = cache_items_list c"
    by (rule lru_filter_absent)
  from None have 2: "AList.delete k (cache_items_map c) = cache_items_map c"
    by (intro delete_id) (simp add: map_of_eq_None_iff)
  show ?thesis
    by (simp add: lru_put_def lru_linked_def lru_linked_map_def None 1 2 Let_def)
next
  case (Some i)
  from assms have "lru_links (cache_items_list c) (cache_items_map c) (cache_next_cell c)"
    by (simp add: lru_inv_def)
  note old = lru_erase_old[OF this Some]
  then have "list_erase i ((cache_next_cell c, n) # cache_items_list c) = lru_linked c k n" for n
    by (simp add: lru_linked_def list_erase_def)
  then show ?thesis
    by (simp add: lru_put_def lru_linked_map_def Some Let_def)
qed

lemma lru_linked_links:
  assumes "lru_inv c" and "node_key n = k"
  shows "lru_links (lru_linked c k n) (lru_linked_map c k) (Suc (cache_next_cell c))"
  unfolding lru_linked_def lru_linked_map_def
  by (rule lru_links_push[OF lru_links_drop]) (use assms in \<open>auto simp: lru_inv_def\<close>)

lemma lru_links_length:
  assumes "lru_links xs m nx"
  shows "length m = length xs"
proof -
  have "distinct m" "distinct xs" using lru_linksD(1,3)[OF assms] by (auto simp: distinct_map)
  moreover have "inj_on cell_key (set xs)"
    using lru_linksD(1)[OF assms] by (auto simp: cell_key_def distinct_map inj_on_def)
  ultimately show ?thesis using lru_linksD(4)[OF assms] by (metis distinct_card card_image)
qed

lemma lru_linked_length:
  assumes "lru_inv c"
  shows "length (lru_linked c k n) \<le> Suc (cache_max_size c)"
  using lru_invD(6)[OF assms] by (simp add: lru_linked_def le_trans[OF length_filter_le])

lemma lru_put_inv:
  assumes "lru_inv c"
  shows "lru_inv (lru_put c k v e)"
proof -
  let ?n = "\<lparr>node_key = k, node_value = v, node_expiry = e\<rparr>"
  have l: "lru_links (lru_linked c k ?n) (lru_linked_map c k) (Suc (cache_next_cell c))"
    by (rule lru_linked_links[OF assms]) simp
  show ?thesis
  proof (cases "length (lru_linked_map c k) > cache_max_size c")
    case True
    have "lru_linked c k ?n \<noteq> []" by (simp add: lru_linked_def)
    from lru_links_evict[OF l this] True lru_linked_length[OF assms, of k ?n] show ?thesis
      by (simp add: lru_put_steps[OF assms] Let_def lru_inv_def)
  next
    case False
    with l lru_links_length[OF l] show ?thesis
      by (simp add: lru_put_steps[OF assms] Let_def lru_inv_def)
  qed
qed

lemma lru_put_abs:
  assumes "lru_inv c"
  shows "lru_abs (lru_put c k v e) = spec_put (cache_max_size c) (lru_abs c) k v e"
proof -
  let ?n = "\<lparr>node_key = k, node_value = v, node_expiry = e\<rparr>"
  let ?l = "lru_linked c k ?n"
  have len: "length (lru_linked_map c k) = length ?l"
    by (rule lru_links_length[OF lru_linked_links[OF assms]]) simp
  have abs: "map lru_entry ?l = (k, v, e) # filter (\<lambda>x. fst x \<noteq> k) (lru_abs c)"
    by (auto simp: lru_linked_def lru_abs_def filter_map comp_def intro!: arg_cong[of _ _ "map lru_entry"] filter_cong)
  have "cache_items_list (lru_put c k v e) = take (cache_max_size c) ?l"
    using lru_linked_length[OF assms, of k ?n]
    by (auto simp: lru_put_steps[OF assms] Let_def len butlast_conv_take le_Suc_eq)
  then have "lru_abs (lru_put c k v e) = take (cache_max_size c) (map lru_entry ?l)"
    by (simp add: lru_abs_def take_map)
  then show ?thesis by (simp add: abs spec_put_def)
qed

lemma lru_put_max_size [simp]: "cache_max_size (lru_put c k v e) = cache_max_size c"
  by (simp add: lru_put_def Let_def split: prod.split)

section \<open>Lookup\<close>

lemma lru_get_inv:
  assumes "lru_inv c" and "lru_get c k t = Inr (v, c')"
  shows "lru_inv c'"
proof -
  from assms(2) obtain i n where i: "map_of (cache_items_map c) k = Some i"
    and n: "map_of (cache_items_list c) i = Some n"
    and c': "c' = c\<lparr>cache_items_list := (i, n) # list_erase i (cache_items_list c)\<rparr>"
    by (auto simp: lru_get_def split: option.splits)
  have mem: "(i, n) \<in> set (cache_items_list c)" using n by (rule map_of_SomeD)
  let ?xs = "(i, n) # list_erase i (cache_items_list c)"
  from mem lru_invD(1)[OF assms(1)] have set_eq: "set ?xs = set (cache_items_list c)"
    by (auto simp: list_erase_def dest: eq_key_imp_eq_value)
  have "length (filter (\<lambda>x. fst x \<noteq> i) (cache_items_list c)) < length (cache_items_list c)"
    by (rule length_filter_less[OF mem]) simp
  then have len: "length ?xs \<le> length (cache_items_list c)" by (simp add: list_erase_def)
  have dist: "distinct ?xs"
    using lru_invD(1)[OF assms(1)] by (auto simp: list_erase_def distinct_map)
  have inj: "inj_on fst (set ?xs)" "inj_on (node_key \<circ> snd) (set ?xs)"
    unfolding set_eq using lru_invD(1,2)[OF assms(1)] by (simp_all add: distinct_map)
  have "lru_links ?xs (cache_items_map c) (cache_next_cell c)"
  proof (rule lru_linksI)
    show "distinct (map fst ?xs)" using dist inj(1) by (simp only: distinct_map)
    show "distinct (map (node_key \<circ> snd) ?xs)" using dist inj(2) by (simp only: distinct_map)
    show "set (cache_items_map c) = cell_key ` set ?xs"
      unfolding set_eq by (rule lru_invD(4)[OF assms(1)])
    show "\<And>x. x \<in> set ?xs \<Longrightarrow> fst x < cache_next_cell c"
      unfolding set_eq by (rule lru_invD(5)[OF assms(1)])
  qed (rule lru_invD(3)[OF assms(1)])
  with len lru_invD(6)[OF assms(1)] show ?thesis by (simp add: lru_inv_def c')
qed

lemma lru_get_abs:
  assumes "lru_inv c"
  shows "case lru_get c k t of
           Inl e \<Rightarrow> e = RangeError ''There is no such key in cache'' \<and> spec_get (lru_abs c) k = None
         | Inr (v, c') \<Rightarrow> spec_get (lru_abs c) k = Some (v, lru_abs c') \<and> lru_inv c'"
proof (cases "map_of (cache_items_map c) k")
  case None
  moreover with lru_lookup_None[OF assms] have "map_of (lru_abs c) k = None" by blast
  ultimately show ?thesis by (simp add: lru_get_def spec_get_def)
next
  case (Some i)
  from lru_lookup[OF assms Some] obtain n where n: "map_of (cache_items_list c) i = Some n"
    "node_key n = k" "map_of (lru_abs c) k = Some (node_value n, node_expiry n)" by blast
  let ?c = "c\<lparr>cache_items_list := (i, n) # list_erase i (cache_items_list c)\<rparr>"
  have g: "lru_get c k t = Inr (node_value n, ?c)" using Some n(1) by (simp add: lru_get_def)
  from assms have "lru_links (cache_items_list c) (cache_items_map c) (cache_next_cell c)"
    by (simp add: lru_inv_def)
  from lru_erase_old(1)[OF this Some]
  have "map lru_entry (list_erase i (cache_items_list c)) = filter (\<lambda>x. fst x \<noteq> k) (lru_abs c)"
    by (auto simp: lru_abs_def filter_map comp_def intro!: arg_cong[of _ _ "map lru_entry"] filter_cong)
  with n have "spec_get (lru_abs c) k = Some (node_value n, lru_abs ?c)"
    by (simp add: spec_get_def lru_abs_def)
  with g lru_get_inv[OF assms g] show ?thesis by simp
qed

lemma lru_exists_abs:
  assumes "lru_inv c"
  shows "lru_exists c k t = Inr (spec_exists (lru_abs c) k t)"
proof (cases "map_of (cache_items_map c) k")
  case None
  moreover with lru_lookup_None[OF assms] have "map_of (lru_abs c) k = None" by blast
  ultimately show ?thesis by (simp add: lru_exists_def spec_exists_def)
next
  case (Some i)
  from lru_lookup[OF assms Some] obtain n where "map_of (cache_items_list c) i = Some n"
    "map_of (lru_abs c) k = Some (node_value n, node_expiry n)" by blast
  with Some show ?thesis by (simp add: lru_exists_def spec_exists_def)
qed

section \<open>The contract of a cache with expiring entries\<close>

text \<open>
  What a client relies on: \<open>entry c k\<close> is the rank of a key (0 for the most recent) with its expiry.
\<close>

locale expiring_cache =
  fixes put :: "'c \<Rightarrow> 'k \<Rightarrow> 'v \<Rightarrow> int \<Rightarrow> 'c"
    and exists :: "'c \<Rightarrow> 'k \<Rightarrow> int \<Rightarrow> bool res"
    and entry :: "'c \<Rightarrow> 'k \<Rightarrow> (nat \<times> int) option"
    and capacity :: "'c \<Rightarrow> nat"
    and invar :: "'c \<Rightarrow> bool"
  assumes put_invar: "invar c \<Longrightarrow> invar (put c k v e)"
    and put_capacity: "capacity (put c k v e) = capacity c"
    and exists_entry: "invar c \<Longrightarrow>
          exists c k t = Inr (case entry c k of None \<Rightarrow> False | Some (r, e) \<Rightarrow> t < e)"
    and entry_put_same: "invar c \<Longrightarrow> 0 < capacity c \<Longrightarrow> entry (put c k v e) k = Some (0, e)"
    and entry_put_other: "invar c \<Longrightarrow> k \<noteq> k' \<Longrightarrow> entry c k = Some (r, e) \<Longrightarrow> Suc r < capacity c \<Longrightarrow>
          \<exists>r' \<le> Suc r. entry (put c k' v' e') k = Some (r', e)"
    and entry_put_absent: "invar c \<Longrightarrow> k \<noteq> k' \<Longrightarrow> entry c k = None \<Longrightarrow> entry (put c k' v' e') k = None"
begin

lemma exists_total: "invar c \<Longrightarrow> \<exists>b. exists c k t = Inr b"
  by (simp add: exists_entry)

lemma exists_put: "invar c \<Longrightarrow> 0 < capacity c \<Longrightarrow> exists (put c k v e) k t = Inr (t < e)"
  by (simp add: exists_entry put_invar entry_put_same)

lemma puts_keep:
  assumes "invar c" and "entry c k = Some (r, e)" and "r + length ops < capacity c"
    and "k \<notin> fst ` set ops"
  shows "\<exists>r'. entry (foldl (\<lambda>c (k, v, e). put c k v e) c ops) k = Some (r', e) \<and>
              invar (foldl (\<lambda>c (k, v, e). put c k v e) c ops)"
  using assms
proof (induction ops arbitrary: c r)
  case Nil
  then show ?case by simp
next
  case (Cons op ops)
  obtain k' v' e' where op: "op = (k', v', e')" by (cases op)
  with Cons.prems have "k \<noteq> k'" by auto
  with entry_put_other[OF Cons.prems(1) this Cons.prems(2)] Cons.prems(3) obtain r'
    where r': "r' \<le> Suc r" "entry (put c k' v' e') k = Some (r', e)" by fastforce
  have "r' + length ops < capacity (put c k' v' e')"
    using r'(1) Cons.prems(3) by (simp add: put_capacity)
  from Cons.IH[OF put_invar[OF Cons.prems(1)] r'(2) this] Cons.prems(4) show ?case
    by (simp add: op)
qed

lemma retention:
  assumes "invar c" and "length ops < capacity c" and "k \<notin> fst ` set ops"
  shows "exists (foldl (\<lambda>c (k, v, e). put c k v e) (put c k v e) ops) k t = Inr (t < e)"
proof -
  have "0 < capacity c" using assms(2) by simp
  from entry_put_same[OF assms(1) this] have "entry (put c k v e) k = Some (0, e)" .
  from puts_keep[OF put_invar[OF assms(1)] this, of ops] assms(2,3) show ?thesis
    by (auto simp: put_capacity exists_entry)
qed

end

fun spec_rank :: "('k, 'v) lru_spec \<Rightarrow> 'k \<Rightarrow> (nat \<times> int) option" where
  "spec_rank [] k = None"
| "spec_rank ((k', v, e) # xs) k =
     (if k' = k then Some (0, e) else map_option (\<lambda>(r, e). (Suc r, e)) (spec_rank xs k))"

definition lru_rank :: "('k, 'v) lru_cache \<Rightarrow> 'k \<Rightarrow> (nat \<times> int) option" where
  "lru_rank c k = spec_rank (lru_abs c) k"

lemma spec_exists_rank:
  "spec_exists xs k t = (case spec_rank xs k of None \<Rightarrow> False | Some (r, e) \<Rightarrow> t < e)"
  by (induction xs) (auto simp: spec_exists_def split: option.splits)

lemma spec_rank_take:
  "spec_rank xs k = Some (r, e) \<Longrightarrow> r < n \<Longrightarrow> spec_rank (take n xs) k = Some (r, e)"
proof (induction xs arbitrary: n r)
  case Nil
  then show ?case by simp
next
  case (Cons x xs)
  then show ?case by (cases n; cases x) (auto split: if_splits)
qed

lemma spec_rank_take_None: "spec_rank xs k = None \<Longrightarrow> spec_rank (take n xs) k = None"
proof (induction xs arbitrary: n)
  case Nil
  then show ?case by simp
next
  case (Cons x xs)
  then show ?case by (cases n; cases x) (auto split: if_splits)
qed

lemma spec_rank_filter:
  "spec_rank xs k = Some (r, e) \<Longrightarrow> k \<noteq> k' \<Longrightarrow>
     \<exists>r' \<le> r. spec_rank (filter (\<lambda>x. fst x \<noteq> k') xs) k = Some (r', e)"
proof (induction xs arbitrary: r)
  case Nil
  then show ?case by simp
next
  case (Cons x xs)
  obtain k1 v1 e1 where x: "x = (k1, v1, e1)" by (cases x)
  show ?case
  proof (cases "k1 = k")
    case True
    with Cons.prems show ?thesis by (simp add: x)
  next
    case False
    with Cons.prems obtain r1 where "spec_rank xs k = Some (r1, e)" "r = Suc r1" by (auto simp: x)
    with Cons.IH[of r1] Cons.prems(2) False show ?thesis by (fastforce simp: x)
  qed
qed

lemma spec_rank_filter_None:
  "spec_rank xs k = None \<Longrightarrow> spec_rank (filter P xs) k = None"
  by (induction xs k rule: spec_rank.induct) (auto split: if_splits)

lemma lru_rank_put_other:
  assumes "lru_inv c" and "k \<noteq> k'" and "lru_rank c k = Some (r, e)" and "Suc r < cache_max_size c"
  shows "\<exists>r' \<le> Suc r. lru_rank (lru_put c k' v' e') k = Some (r', e)"
proof -
  from spec_rank_filter[of "lru_abs c" k r e k'] assms(2,3) obtain r1
    where r1: "r1 \<le> r" "spec_rank (filter (\<lambda>x. fst x \<noteq> k') (lru_abs c)) k = Some (r1, e)"
    by (auto simp: lru_rank_def)
  with assms(2)
  have "spec_rank ((k', v', e') # filter (\<lambda>x. fst x \<noteq> k') (lru_abs c)) k = Some (Suc r1, e)" by simp
  from spec_rank_take[OF this, of "cache_max_size c"] r1(1) assms(4)
  have "lru_rank (lru_put c k' v' e') k = Some (Suc r1, e)"
    by (simp add: lru_rank_def lru_put_abs[OF assms(1)] spec_put_def)
  with r1(1) show ?thesis by blast
qed

interpretation lru: expiring_cache lru_put lru_exists lru_rank cache_max_size lru_inv
proof unfold_locales
  fix c :: "('k, 'v) lru_cache" and k k' :: 'k and v v' :: 'v and e e' t r
  assume inv: "lru_inv c"
  show "lru_inv (lru_put c k v e)" by (rule lru_put_inv[OF inv])
  show "lru_exists c k t = Inr (case lru_rank c k of None \<Rightarrow> False | Some (r, e) \<Rightarrow> t < e)"
    by (simp add: lru_exists_abs[OF inv] spec_exists_rank lru_rank_def)
  show "0 < cache_max_size c \<Longrightarrow> lru_rank (lru_put c k v e) k = Some (0, e)"
    by (cases "cache_max_size c") (simp_all add: lru_rank_def lru_put_abs[OF inv] spec_put_def)
  show "k \<noteq> k' \<Longrightarrow> lru_rank c k = Some (r, e) \<Longrightarrow> Suc r < cache_max_size c \<Longrightarrow>
          \<exists>r' \<le> Suc r. lru_rank (lru_put c k' v' e') k = Some (r', e)"
    by (rule lru_rank_put_other[OF inv])
  show "k \<noteq> k' \<Longrightarrow> lru_rank c k = None \<Longrightarrow> lru_rank (lru_put c k' v' e') k = None"
    by (simp add: lru_rank_def lru_put_abs[OF inv] spec_put_def spec_rank_take_None
        spec_rank_filter_None)
qed (rule lru_put_max_size)

section \<open>Properties\<close>

text \<open>
  (C1) On every cache whose list and map are linked consistently, \<open>put\<close>, \<open>get\<close> and \<open>exists\<close> keep the
  links consistent (so no iterator dangles) and behave as the operations of a most-recent-first list
  of at most \<open>_max_size\<close> entries with distinct keys: \<open>put\<close> moves the key to the front with its new
  value and drops the oldest entry when there is one too many, \<open>get\<close> returns the value and moves
  the entry to the front or throws \<open>range_error\<close>, \<open>exists\<close> holds iff the entry has not expired.
\<close>

theorem lru_refines:
  assumes "lru_inv c"
  shows "lru_inv (lru_put c k v e) \<and>
         lru_abs (lru_put c k v e) = spec_put (cache_max_size c) (lru_abs c) k v e \<and>
         (case lru_get c k t of
            Inl err \<Rightarrow> err = RangeError ''There is no such key in cache'' \<and>
                         spec_get (lru_abs c) k = None
          | Inr (w, c') \<Rightarrow> spec_get (lru_abs c) k = Some (w, lru_abs c') \<and> lru_inv c') \<and>
         lru_exists c k t = Inr (spec_exists (lru_abs c) k t) \<and>
         lru_size c = length (lru_abs c) \<and> lru_size c \<le> cache_max_size c"
  using lru_put_inv[OF assms] lru_put_abs[OF assms] lru_get_abs[OF assms] lru_exists_abs[OF assms]
    lru_length_map[OF assms] lru_invD(6)[OF assms]
  by (auto simp: lru_size_def lru_abs_def)

definition lru_example :: "(string, int) lru_cache" where
  "lru_example = lru_put (lru_put (lru_put (lru_new 2) ''a'' 1 10) ''b'' 2 20) ''a'' 3 30"

lemma lru_example_inv: "lru_inv lru_example"
  unfolding lru_example_def by (intro lru_put_inv lru_inv_new)

lemma lru_example_abs: "lru_abs lru_example = [(''a'', 3, 30), (''b'', 2, 20)]"
  by code_simp

theorem lru_refines_witness:
  "lru_abs (lru_put lru_example ''c'' 4 40) = [(''c'', 4, 40), (''a'', 3, 30)] \<and>
   lru_exists lru_example ''a'' 29 = Inr True"
  using lru_refines[OF lru_example_inv, of "''c''" 4 40 0] lru_refines[OF lru_example_inv, of "''a''" 0 0 29]
  by (simp add: lru_example_abs spec_put_def spec_exists_def) (simp add: lru_example_def lru_put_max_size lru_new_def)

text \<open>
  (C19) An entry stays visible until it expires as long as fewer than \<open>_max_size\<close> insertions of other
  keys follow it: the loop suppression of the node depends on this retention.
\<close>

theorem lru_retention:
  assumes "lru_inv c" and "length ops < cache_max_size c" and "k \<notin> fst ` set ops"
  shows "lru_exists (foldl (\<lambda>c (k, v, e). lru_put c k v e) (lru_put c k v e) ops) k t = Inr (t < e)"
  using assms by (rule lru.retention)

theorem lru_retention_witness:
  "lru_exists (foldl (\<lambda>c (k, v, e). lru_put c k v e) (lru_put lru_example ''c'' 4 40) [(''d'', 5, 50)])
     ''c'' 39 = Inr True"
  using lru_retention[OF lru_example_inv, of "[(''d'', 5, 50)]" "''c''" 4 40 39]
  by (simp add: lru_example_def lru_new_def)

end
