(* ===== verification/Md5.thy ===== *)
theory Md5
  imports Prelude "HOL-Library.Word"
begin

unbundle bit_operations_syntax

text \<open>
  The MD5 digest (\<open>applications/mamapp/Md5.cc\<close>, \<open>Md5.h\<close>) that the node uses for its cache keys:
  the round functions, the block transformation, the streaming interface \<open>init\<close>, \<open>update\<close>,
  \<open>finalize\<close>, \<open>hexdigest\<close> and the function \<open>md5\<close>.

  \<open>size_type\<close> and \<open>uint4\<close> are 32-bit words and wrap, \<open>uint1\<close> is an 8-bit word. An access outside the
  \<open>length\<close> bytes handed to \<open>update\<close>, or outside the 64 bytes of the buffer, is undefined behaviour
  and a value of the model.

  Shown: \<open>update\<close> absorbs its input whatever the way it is cut into pieces, the whole computes the
  padded block iteration of RFC 1321, and exactly which lengths make the counter of the block loop
  wrap and read past the input.
\<close>

type_synonym uint1 = "8 word"
type_synonym uint4 = "32 word"

lemma uint4_bound: "unat (x :: uint4) < 4294967296"
proof -
  have "unat x < 2 ^ LENGTH(32)" by (rule unsigned_less)
  then show ?thesis by simp
qed

section \<open>Round functions\<close>

definition md5_F :: "uint4 \<Rightarrow> uint4 \<Rightarrow> uint4 \<Rightarrow> uint4" where
  "md5_F x y z = (x AND y) OR (NOT x AND z)"

definition md5_G :: "uint4 \<Rightarrow> uint4 \<Rightarrow> uint4 \<Rightarrow> uint4" where
  "md5_G x y z = (x AND z) OR (y AND NOT z)"

definition md5_H :: "uint4 \<Rightarrow> uint4 \<Rightarrow> uint4 \<Rightarrow> uint4" where
  "md5_H x y z = (x XOR y) XOR z"

definition md5_I :: "uint4 \<Rightarrow> uint4 \<Rightarrow> uint4 \<Rightarrow> uint4" where
  "md5_I x y z = y XOR (x OR NOT z)"

definition md5_rotate_left :: "uint4 \<Rightarrow> nat \<Rightarrow> uint4" where
  "md5_rotate_left x n = push_bit n x OR drop_bit (32 - n) x"

text \<open>The code updates its first argument in place; here it is the result.\<close>

definition md5_FF :: "uint4 \<Rightarrow> uint4 \<Rightarrow> uint4 \<Rightarrow> uint4 \<Rightarrow> uint4 \<Rightarrow> nat \<Rightarrow> uint4 \<Rightarrow> uint4" where
  "md5_FF a b c d x s ac = md5_rotate_left (a + md5_F b c d + x + ac) s + b"

definition md5_GG :: "uint4 \<Rightarrow> uint4 \<Rightarrow> uint4 \<Rightarrow> uint4 \<Rightarrow> uint4 \<Rightarrow> nat \<Rightarrow> uint4 \<Rightarrow> uint4" where
  "md5_GG a b c d x s ac = md5_rotate_left (a + md5_G b c d + x + ac) s + b"

definition md5_HH :: "uint4 \<Rightarrow> uint4 \<Rightarrow> uint4 \<Rightarrow> uint4 \<Rightarrow> uint4 \<Rightarrow> nat \<Rightarrow> uint4 \<Rightarrow> uint4" where
  "md5_HH a b c d x s ac = md5_rotate_left (a + md5_H b c d + x + ac) s + b"

definition md5_II :: "uint4 \<Rightarrow> uint4 \<Rightarrow> uint4 \<Rightarrow> uint4 \<Rightarrow> uint4 \<Rightarrow> nat \<Rightarrow> uint4 \<Rightarrow> uint4" where
  "md5_II a b c d x s ac = md5_rotate_left (a + md5_I b c d + x + ac) s + b"

section \<open>Words and bytes\<close>

text \<open>Both loops assume a multiple of four bytes, as their comments say.\<close>

fun md5_decode :: "uint1 list \<Rightarrow> uint4 list" where
  "md5_decode (b0 # b1 # b2 # b3 # bs) =
     (ucast b0 OR push_bit 8 (ucast b1) OR push_bit 16 (ucast b2) OR push_bit 24 (ucast b3))
     # md5_decode bs"
| "md5_decode _ = []"

fun md5_encode :: "uint4 list \<Rightarrow> uint1 list" where
  "md5_encode [] = []"
| "md5_encode (w # ws) =
     ucast (w AND 0xff) # ucast (drop_bit 8 w AND 0xff) # ucast (drop_bit 16 w AND 0xff)
     # ucast (drop_bit 24 w AND 0xff) # md5_encode ws"

section \<open>The block transformation\<close>

text \<open>The rotation amounts, by round.\<close>

abbreviation (input) md5_S11 :: nat where "md5_S11 \<equiv> 7"
abbreviation (input) md5_S12 :: nat where "md5_S12 \<equiv> 12"
abbreviation (input) md5_S13 :: nat where "md5_S13 \<equiv> 17"
abbreviation (input) md5_S14 :: nat where "md5_S14 \<equiv> 22"
abbreviation (input) md5_S21 :: nat where "md5_S21 \<equiv> 5"
abbreviation (input) md5_S22 :: nat where "md5_S22 \<equiv> 9"
abbreviation (input) md5_S23 :: nat where "md5_S23 \<equiv> 14"
abbreviation (input) md5_S24 :: nat where "md5_S24 \<equiv> 20"
abbreviation (input) md5_S31 :: nat where "md5_S31 \<equiv> 4"
abbreviation (input) md5_S32 :: nat where "md5_S32 \<equiv> 11"
abbreviation (input) md5_S33 :: nat where "md5_S33 \<equiv> 16"
abbreviation (input) md5_S34 :: nat where "md5_S34 \<equiv> 23"
abbreviation (input) md5_S41 :: nat where "md5_S41 \<equiv> 6"
abbreviation (input) md5_S42 :: nat where "md5_S42 \<equiv> 10"
abbreviation (input) md5_S43 :: nat where "md5_S43 \<equiv> 15"
abbreviation (input) md5_S44 :: nat where "md5_S44 \<equiv> 21"

type_synonym md5_state = "uint4 \<times> uint4 \<times> uint4 \<times> uint4"

type_synonym md5_op = "uint4 \<Rightarrow> uint4 \<Rightarrow> uint4 \<Rightarrow> uint4 \<Rightarrow> uint4 \<Rightarrow> nat \<Rightarrow> uint4 \<Rightarrow> uint4"

text \<open>
  One line of \<open>transform\<close> updates the variable it names first, the others in the order it names them:
  \<open>FF (a, b, c, d, ..)\<close>, \<open>FF (d, a, b, c, ..)\<close>, \<open>FF (c, d, a, b, ..)\<close> or \<open>FF (b, c, d, a, ..)\<close>.
\<close>

fun md5_abcd :: "md5_op \<Rightarrow> uint4 \<Rightarrow> nat \<Rightarrow> uint4 \<Rightarrow> md5_state \<Rightarrow> md5_state" where
  "md5_abcd f x s k (a, b, c, d) = (f a b c d x s k, b, c, d)"

fun md5_dabc :: "md5_op \<Rightarrow> uint4 \<Rightarrow> nat \<Rightarrow> uint4 \<Rightarrow> md5_state \<Rightarrow> md5_state" where
  "md5_dabc f x s k (a, b, c, d) = (a, b, c, f d a b c x s k)"

fun md5_cdab :: "md5_op \<Rightarrow> uint4 \<Rightarrow> nat \<Rightarrow> uint4 \<Rightarrow> md5_state \<Rightarrow> md5_state" where
  "md5_cdab f x s k (a, b, c, d) = (a, b, f c d a b x s k, d)"

fun md5_bcda :: "md5_op \<Rightarrow> uint4 \<Rightarrow> nat \<Rightarrow> uint4 \<Rightarrow> md5_state \<Rightarrow> md5_state" where
  "md5_bcda f x s k (a, b, c, d) = (a, f b c d a x s k, c, d)"

definition md5_round1 :: "uint4 list \<Rightarrow> (md5_state \<Rightarrow> md5_state) list" where
  "md5_round1 x =
    [md5_abcd md5_FF (x ! 0) md5_S11 0xd76aa478,
     md5_dabc md5_FF (x ! 1) md5_S12 0xe8c7b756,
     md5_cdab md5_FF (x ! 2) md5_S13 0x242070db,
     md5_bcda md5_FF (x ! 3) md5_S14 0xc1bdceee,
     md5_abcd md5_FF (x ! 4) md5_S11 0xf57c0faf,
     md5_dabc md5_FF (x ! 5) md5_S12 0x4787c62a,
     md5_cdab md5_FF (x ! 6) md5_S13 0xa8304613,
     md5_bcda md5_FF (x ! 7) md5_S14 0xfd469501,
     md5_abcd md5_FF (x ! 8) md5_S11 0x698098d8,
     md5_dabc md5_FF (x ! 9) md5_S12 0x8b44f7af,
     md5_cdab md5_FF (x ! 10) md5_S13 0xffff5bb1,
     md5_bcda md5_FF (x ! 11) md5_S14 0x895cd7be,
     md5_abcd md5_FF (x ! 12) md5_S11 0x6b901122,
     md5_dabc md5_FF (x ! 13) md5_S12 0xfd987193,
     md5_cdab md5_FF (x ! 14) md5_S13 0xa679438e,
     md5_bcda md5_FF (x ! 15) md5_S14 0x49b40821]"

definition md5_round2 :: "uint4 list \<Rightarrow> (md5_state \<Rightarrow> md5_state) list" where
  "md5_round2 x =
    [md5_abcd md5_GG (x ! 1) md5_S21 0xf61e2562,
     md5_dabc md5_GG (x ! 6) md5_S22 0xc040b340,
     md5_cdab md5_GG (x ! 11) md5_S23 0x265e5a51,
     md5_bcda md5_GG (x ! 0) md5_S24 0xe9b6c7aa,
     md5_abcd md5_GG (x ! 5) md5_S21 0xd62f105d,
     md5_dabc md5_GG (x ! 10) md5_S22 0x2441453,
     md5_cdab md5_GG (x ! 15) md5_S23 0xd8a1e681,
     md5_bcda md5_GG (x ! 4) md5_S24 0xe7d3fbc8,
     md5_abcd md5_GG (x ! 9) md5_S21 0x21e1cde6,
     md5_dabc md5_GG (x ! 14) md5_S22 0xc33707d6,
     md5_cdab md5_GG (x ! 3) md5_S23 0xf4d50d87,
     md5_bcda md5_GG (x ! 8) md5_S24 0x455a14ed,
     md5_abcd md5_GG (x ! 13) md5_S21 0xa9e3e905,
     md5_dabc md5_GG (x ! 2) md5_S22 0xfcefa3f8,
     md5_cdab md5_GG (x ! 7) md5_S23 0x676f02d9,
     md5_bcda md5_GG (x ! 12) md5_S24 0x8d2a4c8a]"

definition md5_round3 :: "uint4 list \<Rightarrow> (md5_state \<Rightarrow> md5_state) list" where
  "md5_round3 x =
    [md5_abcd md5_HH (x ! 5) md5_S31 0xfffa3942,
     md5_dabc md5_HH (x ! 8) md5_S32 0x8771f681,
     md5_cdab md5_HH (x ! 11) md5_S33 0x6d9d6122,
     md5_bcda md5_HH (x ! 14) md5_S34 0xfde5380c,
     md5_abcd md5_HH (x ! 1) md5_S31 0xa4beea44,
     md5_dabc md5_HH (x ! 4) md5_S32 0x4bdecfa9,
     md5_cdab md5_HH (x ! 7) md5_S33 0xf6bb4b60,
     md5_bcda md5_HH (x ! 10) md5_S34 0xbebfbc70,
     md5_abcd md5_HH (x ! 13) md5_S31 0x289b7ec6,
     md5_dabc md5_HH (x ! 0) md5_S32 0xeaa127fa,
     md5_cdab md5_HH (x ! 3) md5_S33 0xd4ef3085,
     md5_bcda md5_HH (x ! 6) md5_S34 0x4881d05,
     md5_abcd md5_HH (x ! 9) md5_S31 0xd9d4d039,
     md5_dabc md5_HH (x ! 12) md5_S32 0xe6db99e5,
     md5_cdab md5_HH (x ! 15) md5_S33 0x1fa27cf8,
     md5_bcda md5_HH (x ! 2) md5_S34 0xc4ac5665]"

definition md5_round4 :: "uint4 list \<Rightarrow> (md5_state \<Rightarrow> md5_state) list" where
  "md5_round4 x =
    [md5_abcd md5_II (x ! 0) md5_S41 0xf4292244,
     md5_dabc md5_II (x ! 7) md5_S42 0x432aff97,
     md5_cdab md5_II (x ! 14) md5_S43 0xab9423a7,
     md5_bcda md5_II (x ! 5) md5_S44 0xfc93a039,
     md5_abcd md5_II (x ! 12) md5_S41 0x655b59c3,
     md5_dabc md5_II (x ! 3) md5_S42 0x8f0ccc92,
     md5_cdab md5_II (x ! 10) md5_S43 0xffeff47d,
     md5_bcda md5_II (x ! 1) md5_S44 0x85845dd1,
     md5_abcd md5_II (x ! 8) md5_S41 0x6fa87e4f,
     md5_dabc md5_II (x ! 15) md5_S42 0xfe2ce6e0,
     md5_cdab md5_II (x ! 6) md5_S43 0xa3014314,
     md5_bcda md5_II (x ! 13) md5_S44 0x4e0811a1,
     md5_abcd md5_II (x ! 4) md5_S41 0xf7537e82,
     md5_dabc md5_II (x ! 11) md5_S42 0xbd3af235,
     md5_cdab md5_II (x ! 2) md5_S43 0x2ad7d2bb,
     md5_bcda md5_II (x ! 9) md5_S44 0xeb86d391]"

definition md5_transform :: "md5_state \<Rightarrow> uint1 list \<Rightarrow> md5_state" where
  "md5_transform s block =
     (let x = md5_decode block
      in case foldl (\<lambda>s step. step s) s
                (md5_round1 x @ md5_round2 x @ md5_round3 x @ md5_round4 x) of
           (a, b, c, d) \<Rightarrow>
             (case s of (a0, b0, c0, d0) \<Rightarrow> (a0 + a, b0 + b, c0 + c, d0 + d)))"

section \<open>The streaming interface\<close>

record md5_ctx =
  md5_finalized :: bool
  md5_buffer :: "uint1 list"
  md5_count0 :: uint4
  md5_count1 :: uint4
  md5_st :: md5_state
  md5_digest :: "uint1 list"

text \<open>\<open>init\<close> leaves the buffer and the digest as they are (uninitialised memory in a new object).\<close>

definition md5_init :: "md5_ctx \<Rightarrow> md5_ctx" where
  "md5_init m = m\<lparr>md5_finalized := False, md5_count0 := 0, md5_count1 := 0,
     md5_st := (0x67452301, 0xefcdab89, 0x98badcfe, 0x10325476)\<rparr>"

text \<open>\<open>memcpy (&buffer[index], bytes, n)\<close>.\<close>

definition md5_memcpy :: "nat \<Rightarrow> uint1 list \<Rightarrow> md5_ctx \<Rightarrow> md5_ctx res" where
  "md5_memcpy index bs m =
     check_that (index + length bs \<le> 64) (UndefinedBehaviour ''write past buffer'')
       (Inr (m\<lparr>md5_buffer := take index (md5_buffer m) @ bs @
                              drop (index + length bs) (md5_buffer m)\<rparr>))"

text \<open>
  \<open>for (i = firstpart; i + blocksize <= length; i += blocksize) transform(&input[i]);\<close> with the
  32-bit arithmetic of \<open>i\<close>; the result is \<open>i\<close> after the loop and the state.
\<close>

function md5_blocks ::
    "uint1 list \<Rightarrow> uint4 \<Rightarrow> uint4 \<Rightarrow> md5_state \<Rightarrow> (uint4 \<times> md5_state) res" where
  "md5_blocks input len i s =
     (if i + 64 \<le> len
      then (if unat i + 64 \<le> unat len
            then md5_blocks input len (i + 64) (md5_transform s (take 64 (drop (unat i) input)))
            else Inl (UndefinedBehaviour ''read past input''))
      else Inr (i, s))"
  by pat_completeness auto
termination
proof (relation "measure (\<lambda>(input, len, i, s). unat len - unat i)")
  fix input s and len i :: uint4
  assume "i + 64 \<le> len" and le: "unat i + 64 \<le> unat len"
  have "unat i + 64 < 2 ^ 32" using le uint4_bound[of len] by simp
  then have "unat (i + 64) = unat i + 64" by (simp add: unat_word_ariths)
  with le show "((input, len, i + 64, md5_transform s (take 64 (drop (unat i) input))),
      (input, len, i, s)) \<in> measure (\<lambda>(input, len, i, s). unat len - unat i)" by simp
qed simp

declare md5_blocks.simps [simp del]

text \<open>\<open>update\<close> on the \<open>length\<close> bytes of \<open>input\<close> (a caller's longer text is cut to 32 bits of length).\<close>

definition md5_update :: "md5_ctx \<Rightarrow> uint1 list \<Rightarrow> md5_ctx res" where
  "md5_update m input =
     (let len = word_of_nat (length input) :: uint4;
          index = unat (md5_count0 m div 8 mod 64);
          bits = push_bit 3 len;
          c0 = md5_count0 m + bits;
          c1 = (if c0 < bits then md5_count1 m + 1 else md5_count1 m) + drop_bit 29 len;
          m1 = m\<lparr>md5_count0 := c0, md5_count1 := c1\<rparr>;
          firstpart = 64 - index
      in if firstpart \<le> unat len
         then res_bind (md5_memcpy index (take firstpart input) m1) (\<lambda>m2.
              res_bind (md5_blocks input len (word_of_nat firstpart)
                          (md5_transform (md5_st m2) (md5_buffer m2))) (\<lambda>(i, s).
              md5_memcpy 0 (drop (unat i) input) (m2\<lparr>md5_st := s\<rparr>)))
         else md5_memcpy index input m1)"

definition md5_padding :: "uint1 list" where
  "md5_padding = 0x80 # replicate 63 0"

definition md5_finalize :: "md5_ctx \<Rightarrow> md5_ctx res" where
  "md5_finalize m =
     (if md5_finalized m then Inr m
      else
        let bits = md5_encode [md5_count0 m, md5_count1 m];
            index = unat (md5_count0 m div 8 mod 64);
            padLen = (if index < 56 then 56 - index else 120 - index)
        in res_bind (md5_update m (take padLen md5_padding)) (\<lambda>m1.
           res_bind (md5_update m1 bits) (\<lambda>m2.
           case md5_st m2 of (a, b, c, d) \<Rightarrow>
           Inr (m2\<lparr>md5_digest := md5_encode [a, b, c, d], md5_buffer := replicate 64 0,
                   md5_count0 := 0, md5_count1 := 0, md5_finalized := True\<rparr>))))"

definition md5_hex_char :: "nat \<Rightarrow> char" where
  "md5_hex_char n = (if n < 10 then char_of (48 + n) else char_of (87 + n))"

text \<open>\<open>sprintf(buf, "%02x", b)\<close>\<close>

definition md5_hex_byte :: "uint1 \<Rightarrow> string" where
  "md5_hex_byte b = [md5_hex_char (unat b div 16), md5_hex_char (unat b mod 16)]"

definition md5_hexdigest :: "md5_ctx \<Rightarrow> string" where
  "md5_hexdigest m =
     (if md5_finalized m then concat (map md5_hex_byte (take 16 (md5_digest m))) else [])"

definition md5_bytes :: "string \<Rightarrow> uint1 list" where
  "md5_bytes s = map of_char s"

text \<open>A new object: the array members hold arbitrary bytes.\<close>

definition md5_object :: "uint1 list \<Rightarrow> uint1 list \<Rightarrow> md5_ctx" where
  "md5_object buf dig = \<lparr>md5_finalized = False, md5_buffer = buf, md5_count0 = 0, md5_count1 = 0,
     md5_st = (0, 0, 0, 0), md5_digest = dig\<rparr>"

definition md5_of_string :: "md5_ctx \<Rightarrow> string \<Rightarrow> md5_ctx res" where
  "md5_of_string m0 text =
     res_bind (md5_update (md5_init m0) (take (unat (word_of_nat (length text) :: uint4)) (md5_bytes text)))
       md5_finalize"

definition md5 :: "string \<Rightarrow> string res" where
  "md5 str = res_bind (md5_of_string (md5_object (replicate 64 0) (replicate 16 0)) str)
     (\<lambda>m. Inr (md5_hexdigest m))"

fun md5_fold :: "md5_state \<Rightarrow> uint1 list \<Rightarrow> md5_state" where
  "md5_fold s xs = (if length xs < 64 then s else md5_fold (md5_transform s (take 64 xs)) (drop 64 xs))"

declare md5_fold.simps [simp del]

lemma md5_fold_short [simp]: "length xs < 64 \<Longrightarrow> md5_fold s xs = s"
  by (simp add: md5_fold.simps)

lemma md5_fold_block: "length b = 64 \<Longrightarrow> md5_fold s (b @ xs) = md5_fold (md5_transform s b) xs"
  by (simp add: md5_fold.simps[of s "b @ xs"])

lemma md5_fold_append:
  "64 dvd length xs \<Longrightarrow> md5_fold s (xs @ ys) = md5_fold (md5_fold s xs) ys"
proof (induction s xs rule: md5_fold.induct)
  case (1 s xs)
  show ?case
  proof (cases "length xs < 64")
    case True
    with "1.prems" have "xs = []" by (auto dest: dvd_imp_le)
    then show ?thesis by simp
  next
    case False
    have "64 dvd length (drop 64 xs)" using "1.prems" by simp
    from "1.IH"[OF False this]
    have "md5_fold (md5_transform s (take 64 xs)) (drop 64 xs @ ys) =
        md5_fold (md5_fold (md5_transform s (take 64 xs)) (drop 64 xs)) ys" .
    with False show ?thesis by (simp add: md5_fold.simps[of s "xs @ ys"] md5_fold.simps[of s xs])
  qed
qed

lemma md5_fold_rest:
  assumes "64 dvd n" and "n \<le> length xs"
  shows "md5_fold s (xs @ ys) = md5_fold (md5_fold s (take n xs)) (drop n xs @ ys)"
proof -
  from assms have "64 dvd length (take n xs)" by simp
  from md5_fold_append[OF this, of s "drop n xs @ ys"] show ?thesis
    by (simp only: append_assoc[symmetric] append_take_drop_id)
qed

text \<open>The last value of \<open>i\<close>; the loop's test then adds 64 to it.\<close>

definition md5_last :: "nat \<Rightarrow> nat \<Rightarrow> nat" where
  "md5_last len i = i + 64 * ((len - i) div 64)"

lemma md5_last_step: "i + 64 \<le> len \<Longrightarrow> md5_last len (i + 64) = md5_last len i"
proof -
  assume "i + 64 \<le> len"
  then obtain k where k: "len = i + 64 + k" by (auto simp: nat_le_iff_add)
  have "(64 + k) div 64 = Suc (k div 64)" by simp
  then show ?thesis by (simp only: md5_last_def k) simp
qed

lemma md5_last_stop: "len < i + 64 \<Longrightarrow> md5_last len i = i"
  by (simp add: md5_last_def)

lemma md5_last_le: "i \<le> len \<Longrightarrow> md5_last len i \<le> len"
  by (simp add: md5_last_def minus_mod_eq_mult_div[symmetric])

lemma md5_blocks_run:
  assumes "length input = unat len" and "unat i \<le> unat len"
  shows "md5_blocks input len i s =
     (if md5_last (unat len) (unat i) + 64 < 2 ^ 32
      then Inr (word_of_nat (md5_last (unat len) (unat i)), md5_fold s (drop (unat i) input))
      else Inl (UndefinedBehaviour ''read past input''))"
  using assms
proof (induction input len i s rule: md5_blocks.induct)
  case (1 input len i s)
  show ?case
  proof (cases "unat i + 64 \<le> unat len")
    case True
    then have plus: "unat (i + 64) = unat i + 64"
      using uint4_bound[of len] by (simp add: unat_word_ariths)
    then have c: "i + 64 \<le> len" using True by (simp add: word_le_nat_alt)
    have dd: "drop 64 (drop (unat i) input) = drop (unat (i + 64)) input"
      by (simp add: plus add.commute)
    have ge: "\<not> length (drop (unat i) input) < 64" using True "1.prems"(1) by simp
    have fold: "md5_fold s (drop (unat i) input) =
        md5_fold (md5_transform s (take 64 (drop (unat i) input))) (drop (unat (i + 64)) input)"
      by (subst md5_fold.simps) (simp only: ge if_False dd)
    have last: "md5_last (unat len) (unat (i + 64)) = md5_last (unat len) (unat i)"
      using md5_last_step[OF True] by (simp add: plus)
    have "unat (i + 64) \<le> unat len" using True by (simp add: plus)
    from "1.IH"[OF c True "1.prems"(1) this] show ?thesis using c True
      by (simp only: md5_blocks.simps[of input len i s] fold last if_True)
  next
    case False
    then have last: "md5_last (unat len) (unat i) = unat i" by (simp add: md5_last_stop)
    from False "1.prems" have short: "length (drop (unat i) input) < 64" by auto
    show ?thesis
    proof (cases "unat i + 64 < 2 ^ 32")
      case True
      then have "unat (i + 64) = unat i + 64" by (simp add: unat_word_ariths)
      with False have "\<not> i + 64 \<le> len" by (simp add: word_le_nat_alt)
      with True short show ?thesis by (simp add: md5_blocks.simps[of input len i s] last)
    next
      case wrap: False
      then have "unat (i + 64) = unat i + 64 - 2 ^ 32"
        using uint4_bound[of i] by (simp add: unat_word_ariths mod_if)
      with "1.prems"(2) have "i + 64 \<le> len" by (simp add: word_le_nat_alt)
      with wrap False show ?thesis by (simp add: md5_blocks.simps[of input len i s] last)
    qed
  qed
qed

section \<open>The bit counter\<close>

lemma md5_unat_of_nat: "unat (word_of_nat n :: uint4) = n mod 2 ^ 32"
proof -
  have "unat (word_of_nat n :: uint4) = n mod 2 ^ LENGTH(32)" by (rule unat_of_nat)
  then show ?thesis by simp
qed

lemma md5_index:
  assumes "c = (word_of_nat (8 * n) :: uint4)"
  shows "unat (c div 8 mod 64) = n mod 64"
proof -
  have "unat c = (8 * n) mod 2 ^ 32"
    unfolding assms by (rule md5_unat_of_nat)
  then have "unat (c div 8 mod 64) = (8 * n) mod 2 ^ 32 div 8 mod 64"
    by (simp add: unat_div unat_mod)
  also have "(8 * n) mod 2 ^ 32 = 8 * (n mod 2 ^ 29)"
    using mult_mod_right[of 8 n "2 ^ 29"] by simp
  finally show ?thesis by (simp add: mod_mod_cancel)
qed

lemma md5_carry:
  fixes x y M :: nat
  assumes "x < M" and "y < M"
  shows "(x + y) div M = (if (x + y) mod M < y then 1 else 0)"
proof (cases "x + y < M")
  case True
  then show ?thesis by simp
next
  case False
  with assms have "(x + y) mod M = x + y - M" by (simp add: mod_if)
  moreover from False assms have "(x + y) div M = 1" by (simp add: div_nat_eqI)
  ultimately show ?thesis using assms False by simp
qed

lemma md5_count_carry:
  fixes a b M :: nat
  assumes "0 < M"
  shows "(a + b) div M = a div M + b div M + (if (a + b) mod M < b mod M then 1 else 0)"
proof -
  have "(a mod M + b mod M) div M = (if (a mod M + b mod M) mod M < b mod M then 1 else 0)"
    by (rule md5_carry) (use assms in simp_all)
  then show ?thesis by (simp add: div_add1_eq[of a b M] mod_add_eq)
qed

lemma md5_push_bits: "push_bit 3 (word_of_nat n :: uint4) = word_of_nat (8 * n)"
  by (simp add: push_bit_eq_mult)

lemma md5_drop_bits:
  assumes "n < 2 ^ 32"
  shows "drop_bit 29 (word_of_nat n :: uint4) = word_of_nat (8 * n div 2 ^ 32)"
proof -
  have "unat (drop_bit 29 (word_of_nat n :: uint4)) = n div 2 ^ 29"
    using assms by (simp only: unat_drop_bit_eq md5_unat_of_nat) (simp add: drop_bit_eq_div)
  also have "\<dots> = 8 * n div 2 ^ 32" by simp
  also have "\<dots> = unat (word_of_nat (8 * n div 2 ^ 32) :: uint4)"
    using assms by (simp only: md5_unat_of_nat) simp
  finally show ?thesis by (simp only: word_unat_eq_iff)
qed

text \<open>The two counter words hold the 64-bit number of bits.\<close>

lemma md5_count_update:
  fixes l n :: nat
  assumes "n < 2 ^ 32"
  defines "bits \<equiv> push_bit 3 (word_of_nat n :: uint4)"
  defines "c0 \<equiv> word_of_nat (8 * l) + bits"
  shows "c0 = word_of_nat (8 * (l + n))"
    and "(if c0 < bits then word_of_nat (8 * l div 2 ^ 32) + 1 else word_of_nat (8 * l div 2 ^ 32))
           + drop_bit 29 (word_of_nat n) = (word_of_nat (8 * (l + n) div 2 ^ 32) :: uint4)"
proof -
  have bits: "bits = word_of_nat (8 * n)" by (simp add: bits_def md5_push_bits)
  show c0: "c0 = word_of_nat (8 * (l + n))" by (simp add: c0_def bits algebra_simps)
  have "unat bits = (8 * n) mod 2 ^ 32" unfolding bits by (rule md5_unat_of_nat)
  moreover have "unat c0 = (8 * (l + n)) mod 2 ^ 32" unfolding c0 by (rule md5_unat_of_nat)
  ultimately have lt: "c0 < bits \<longleftrightarrow> (8 * l + 8 * n) mod 2 ^ 32 < (8 * n) mod 2 ^ 32"
    by (simp only: word_less_nat_alt distrib_left)
  have "(8 * l + 8 * n) div 2 ^ 32 = 8 * l div 2 ^ 32 + 8 * n div 2 ^ 32 +
      (if c0 < bits then 1 else 0)"
    unfolding lt by (rule md5_count_carry) simp
  then have "(word_of_nat (8 * (l + n) div 2 ^ 32) :: uint4) =
      word_of_nat (8 * l div 2 ^ 32) + word_of_nat (8 * n div 2 ^ 32) + (if c0 < bits then 1 else 0)"
    by (simp add: distrib_left)
  then show "(if c0 < bits then word_of_nat (8 * l div 2 ^ 32) + 1 else word_of_nat (8 * l div 2 ^ 32))
           + drop_bit 29 (word_of_nat n) = (word_of_nat (8 * (l + n) div 2 ^ 32) :: uint4)"
    by (simp only: md5_drop_bits[OF assms(1)] split: if_split) simp
qed

section \<open>Absorbing input\<close>

abbreviation md5_iv :: md5_state where
  "md5_iv \<equiv> (0x67452301, 0xefcdab89, 0x98badcfe, 0x10325476)"

definition md5_absorbed :: "md5_ctx \<Rightarrow> uint1 list \<Rightarrow> bool" where
  "md5_absorbed m xs \<longleftrightarrow>
     \<not> md5_finalized m \<and>
     md5_count0 m = word_of_nat (8 * length xs) \<and>
     md5_count1 m = word_of_nat (8 * length xs div 2 ^ 32) \<and>
     md5_st m = md5_fold md5_iv xs \<and>
     length (md5_buffer m) = 64 \<and>
     take (length xs mod 64) (md5_buffer m) = drop (64 * (length xs div 64)) xs"

lemma md5_absorbed_init: "length (md5_buffer m) = 64 \<Longrightarrow> md5_absorbed (md5_init m) []"
  by (simp add: md5_absorbed_def md5_init_def)

definition md5_fits :: "nat \<Rightarrow> nat \<Rightarrow> bool" where
  "md5_fits l n \<longleftrightarrow> n < 64 - l mod 64 \<or> md5_last n (64 - l mod 64) + 64 < 2 ^ 32"

lemma md5_update_absorbed:
  assumes abs: "md5_absorbed m xs" and len: "length ys < 2 ^ 32"
  shows "md5_update m ys =
    (let r = length xs mod 64;
         m1 = m\<lparr>md5_count0 := word_of_nat (8 * (length xs + length ys)),
                md5_count1 := word_of_nat (8 * (length xs + length ys) div 2 ^ 32)\<rparr>
     in if 64 - r \<le> length ys
        then res_bind (md5_memcpy r (take (64 - r) ys) m1) (\<lambda>m2.
             res_bind (md5_blocks ys (word_of_nat (length ys)) (word_of_nat (64 - r))
                         (md5_transform (md5_st m2) (md5_buffer m2))) (\<lambda>(i, s).
             md5_memcpy 0 (drop (unat i) ys) (m2\<lparr>md5_st := s\<rparr>)))
        else md5_memcpy r ys m1)"
proof -
  have unat_len: "unat (word_of_nat (length ys) :: uint4) = length ys"
    using len by (simp add: md5_unat_of_nat)
  from abs have c: "md5_count0 m = word_of_nat (8 * length xs)"
    "md5_count1 m = word_of_nat (8 * length xs div 2 ^ 32)"
    unfolding md5_absorbed_def by blast+
  have idx: "unat (md5_count0 m div 8 mod 64) = length xs mod 64"
    by (rule md5_index[OF c(1)])
  note count = md5_count_update[OF len, of "length xs", folded c]
  show ?thesis
    unfolding md5_update_def Let_def idx unat_len
    unfolding count(2)
    unfolding count(1) by (rule refl)
qed

lemma md5_fold_whole:
  "md5_fold s (xs @ ys) =
     md5_fold (md5_fold s xs) (drop (64 * (length xs div 64)) xs @ ys)"
proof -
  let ?n = "64 * (length xs div 64)"
  have n: "64 dvd ?n" "?n \<le> length xs" by auto
  have "length (drop ?n xs) < 64" by (simp add: minus_mult_div_eq_mod)
  then have "md5_fold s xs = md5_fold s (take ?n xs)"
    using md5_fold_rest[OF n, of s "[]"] by simp
  with md5_fold_rest[OF n, of s ys] show ?thesis by simp
qed

lemma md5_update_short:
  assumes abs: "md5_absorbed m xs" and len: "length ys < 2 ^ 32"
    and short: "length ys < 64 - length xs mod 64"
  shows "\<exists>m'. md5_update m ys = Inr m' \<and> md5_absorbed m' (xs @ ys)"
proof -
  define r q where "r = length xs mod 64" and "q = length xs div 64"
  have l: "length xs = 64 * q + r" and r: "r + length ys < 64"
    using short by (auto simp: r_def q_def)
  then have mod: "length (xs @ ys) mod 64 = r + length ys" "length (xs @ ys) div 64 = q"
    by (auto simp: add.assoc)
  from abs have buf: "length (md5_buffer m) = 64" "take r (md5_buffer m) = drop (64 * q) xs"
    unfolding md5_absorbed_def r_def q_def by blast+
  have "length (drop (64 * q) xs @ ys) < 64" using r by (simp add: l)
  then have st: "md5_fold md5_iv (xs @ ys) = md5_fold md5_iv xs"
    unfolding md5_fold_whole[of _ xs ys] q_def[symmetric] by (rule md5_fold_short)
  let ?m = "m\<lparr>md5_count0 := word_of_nat (8 * (length xs + length ys)),
      md5_count1 := word_of_nat (8 * (length xs + length ys) div 2 ^ 32),
      md5_buffer := take r (md5_buffer m) @ ys @ drop (r + length ys) (md5_buffer m)\<rparr>"
  have nl: "\<not> 64 - r \<le> length ys" using r by simp
  have "md5_update m ys = Inr ?m"
    unfolding md5_update_absorbed[OF abs len] r_def[symmetric]
    using r nl by (simp add: Let_def md5_memcpy_def)
  moreover have "md5_absorbed ?m (xs @ ys)"
    unfolding md5_absorbed_def mod st using abs r buf l
    by (simp add: md5_absorbed_def)
  ultimately show ?thesis by blast
qed

lemma md5_update_long:
  assumes abs: "md5_absorbed m xs" and len: "length ys < 2 ^ 32"
    and long: "64 - length xs mod 64 \<le> length ys"
  shows "if md5_fits (length xs) (length ys)
         then \<exists>m'. md5_update m ys = Inr m' \<and> md5_absorbed m' (xs @ ys)
         else md5_update m ys = Inl (UndefinedBehaviour ''read past input'')"
proof -
  define r q f where "r = length xs mod 64" and "q = length xs div 64" and "f = 64 - r"
  define i where "i = md5_last (length ys) f"
  have l: "length xs = 64 * q + r" and r: "r < 64" "r + f = 64" "f \<le> 64" "f \<le> length ys"
    using long by (auto simp: r_def q_def f_def)
  from abs have buf: "length (md5_buffer m) = 64" "take r (md5_buffer m) = drop (64 * q) xs"
    unfolding md5_absorbed_def r_def q_def by blast+
  let ?b = "drop (64 * q) xs @ take f ys"
  let ?m1 = "m\<lparr>md5_count0 := word_of_nat (8 * (length xs + length ys)),
      md5_count1 := word_of_nat (8 * (length xs + length ys) div 2 ^ 32), md5_buffer := ?b\<rparr>"
  have copy: "md5_memcpy r (take f ys) (m\<lparr>md5_count0 := word_of_nat (8 * (length xs + length ys)),
      md5_count1 := word_of_nat (8 * (length xs + length ys) div 2 ^ 32)\<rparr>) = Inr ?m1"
    using r buf by (simp add: md5_memcpy_def)
  have lb: "length ?b = 64" using r by (simp add: l)
  have st: "md5_fold md5_iv (xs @ ys) =
      md5_fold (md5_transform (md5_st m) ?b) (drop f ys)"
  proof -
    from abs have "md5_st m = md5_fold md5_iv xs" unfolding md5_absorbed_def by blast
    with md5_fold_block[OF lb, of "md5_st m" "drop f ys"] show ?thesis
      unfolding md5_fold_whole[of _ xs ys] q_def[symmetric] by simp
  qed
  have unat: "unat (word_of_nat (length ys) :: uint4) = length ys"
    "unat (word_of_nat f :: uint4) = f"
    using len r by (auto simp: md5_unat_of_nat)
  have run: "md5_blocks ys (word_of_nat (length ys)) (word_of_nat f) s =
      (if i + 64 < 2 ^ 32 then Inr (word_of_nat i, md5_fold s (drop f ys))
       else Inl (UndefinedBehaviour ''read past input''))" for s
    using md5_blocks_run[of ys "word_of_nat (length ys)" "word_of_nat f" s] r
    by (simp add: unat i_def)
  have fits: "md5_fits (length xs) (length ys) \<longleftrightarrow> i + 64 < 2 ^ 32"
    using r by (auto simp: md5_fits_def i_def f_def r_def)
  have upd: "md5_update m ys =
      res_bind (md5_blocks ys (word_of_nat (length ys)) (word_of_nat f)
                  (md5_transform (md5_st m) ?b)) (\<lambda>(i, s).
        md5_memcpy 0 (drop (unat i) ys) (?m1\<lparr>md5_st := s\<rparr>))"
    unfolding md5_update_absorbed[OF abs len] Let_def
    unfolding r_def[symmetric]
    unfolding f_def[symmetric]
    unfolding copy if_P[OF r(4)] by simp
  show ?thesis
  proof (cases "i + 64 < 2 ^ 32")
    case False
    then show ?thesis unfolding fits upd run by simp
  next
    case True
    have i: "i \<le> length ys" "length ys - i < 64" "(i - f) mod 64 = 0" "f \<le> i"
      using md5_last_le[OF r(4)] by (auto simp: i_def md5_last_def minus_mult_div_eq_mod)
    have unat_i: "unat (word_of_nat i :: uint4) = i" using True by (simp add: md5_unat_of_nat)
    define k where "k = (i - f) div 64"
    have ik: "i = f + 64 * k" using i by (auto simp: k_def)
    let ?m2 = "?m1\<lparr>md5_st := md5_fold md5_iv (xs @ ys),
        md5_buffer := drop i ys @ drop (length ys - i) ?b\<rparr>"
    have run': "md5_update m ys = Inr ?m2"
      unfolding upd run using True i by (simp add: unat_i md5_memcpy_def st)
    have "length (xs @ ys) = 64 * (q + 1 + k) + (length ys - i)"
      using r i by (simp add: l ik)
    then have len': "length (xs @ ys) mod 64 = length ys - i" "length (xs @ ys) div 64 = q + 1 + k"
      using i(2) by (simp_all only: mod_mult_self4 div_mult_self4) simp_all
    have "drop (64 * (q + 1 + k)) (xs @ ys) = drop i ys"
    proof -
      have "64 * (q + 1 + k) - length xs = i" using r ik by (simp add: l)
      moreover have "length xs \<le> 64 * (q + 1 + k)" using r by (simp add: l)
      ultimately show ?thesis by simp
    qed
    moreover have "length (md5_buffer ?m2) = 64" using lb i(1,2) by simp
    moreover have "\<not> md5_finalized ?m2" using abs by (simp add: md5_absorbed_def)
    ultimately have "md5_absorbed ?m2 (xs @ ys)"
      unfolding md5_absorbed_def len' by simp
    with run' show ?thesis unfolding fits using True by auto
  qed
qed

section \<open>The whole digest\<close>

text \<open>One call of \<open>update\<close>: it absorbs its input, or the block loop reads past it.\<close>

lemma md5_update_absorbs:
  assumes abs: "md5_absorbed m xs" and len: "length ys < 2 ^ 32"
  shows "if md5_fits (length xs) (length ys)
         then \<exists>m'. md5_update m ys = Inr m' \<and> md5_absorbed m' (xs @ ys)
         else md5_update m ys = Inl (UndefinedBehaviour ''read past input'')"
proof (cases "length ys < 64 - length xs mod 64")
  case True
  then have "md5_fits (length xs) (length ys)" by (simp add: md5_fits_def)
  with md5_update_short[OF abs len True] show ?thesis by simp
next
  case False
  then show ?thesis by (intro md5_update_long[OF abs len]) simp
qed

lemma md5_fits_small: "n < 2 ^ 32 - 64 \<Longrightarrow> md5_fits l n"
proof -
  assume n: "n < 2 ^ 32 - 64"
  show "md5_fits l n"
  proof (cases "n < 64 - l mod 64")
    case True
    then show ?thesis by (simp add: md5_fits_def)
  next
    case False
    then have "md5_last n (64 - l mod 64) \<le> n" by (intro md5_last_le) simp
    with n show ?thesis unfolding md5_fits_def by linarith
  qed
qed

lemma md5_fits_start: "md5_fits 0 n \<longleftrightarrow> n < 2 ^ 32 - 64"
proof -
  have "64 * (n div 64) + 64 < 2 ^ 32 \<longleftrightarrow> n < 2 ^ 32 - 64"
  proof -
    have "n div 64 < 67108863 \<longleftrightarrow> n < 67108863 * 64" by (rule div_less_iff_less_mult) simp
    then show ?thesis by simp
  qed
  moreover have "64 \<le> n \<Longrightarrow> md5_last n 64 = 64 * (n div 64)"
    using md5_last_step[of 0 n] by (simp add: md5_last_def)
  ultimately show ?thesis by (cases "n < 64") (auto simp: md5_fits_def)
qed

lemma md5_update_ok:
  assumes "md5_absorbed m xs" and "length ys < 2 ^ 32 - 64"
  shows "\<exists>m'. md5_update m ys = Inr m' \<and> md5_absorbed m' (xs @ ys)"
  using md5_update_absorbs[of m xs ys] md5_fits_small[of "length ys" "length xs"] assms by simp

text \<open>The padding of RFC 1321: a one bit, zero bits up to 56 bytes modulo 64, the length in bits.\<close>

definition md5_le64 :: "nat \<Rightarrow> uint1 list" where
  "md5_le64 n = map (\<lambda>i. word_of_nat (n div 2 ^ (8 * i))) [0..<8]"

definition md5_pad :: "uint1 list \<Rightarrow> uint1 list" where
  "md5_pad xs = xs @ 0x80 # replicate ((119 - length xs mod 64) mod 64) 0 @ md5_le64 (8 * length xs)"

definition md5_spec :: "uint1 list \<Rightarrow> string" where
  "md5_spec xs = (case md5_fold md5_iv (md5_pad xs) of
     (a, b, c, d) \<Rightarrow> concat (map md5_hex_byte (md5_encode [a, b, c, d])))"

lemma md5_byte:
  assumes "k + 8 \<le> 32"
  shows "(ucast (drop_bit k (word_of_nat n :: uint4) AND 0xff) :: uint1) = word_of_nat (n div 2 ^ k)"
proof -
  have ff: "(0xff :: uint4) = mask 8" by (simp add: mask_eq_exp_minus_1)
  show ?thesis unfolding drop_bit_eq_div[symmetric] ff
    by (rule bit_word_eqI) (use assms in \<open>auto simp: bit_simps\<close>)
qed

lemma md5_encode_count: "md5_encode [word_of_nat n, word_of_nat (n div 2 ^ 32)] = md5_le64 n"
proof -
  have u: "[0..<8] = [0, 1, 2, 3, 4, 5, 6, 7::nat]" by (simp add: upt_rec)
  have d: "n div 2 ^ 32 div 2 ^ k = n div 2 ^ (32 + k)" for k
    by (simp add: power_add div_mult2_eq)
  show ?thesis
    using md5_byte[of 0 n] md5_byte[of 8 n] md5_byte[of 16 n] md5_byte[of 24 n]
      md5_byte[of 0 "n div 2 ^ 32"] md5_byte[of 8 "n div 2 ^ 32"]
      md5_byte[of 16 "n div 2 ^ 32"] md5_byte[of 24 "n div 2 ^ 32"]
    unfolding d md5_le64_def u by simp
qed

lemma md5_pad_split:
  fixes n :: nat
  defines "padLen \<equiv> if n mod 64 < 56 then 56 - n mod 64 else 120 - n mod 64"
  shows "take padLen md5_padding = 0x80 # replicate ((119 - n mod 64) mod 64) 0"
    and "length (take padLen md5_padding) \<le> 64"
    and "64 dvd n + length (take padLen md5_padding) + 8"
proof -
  define r where "r = n mod 64"
  have r: "r < 64" by (simp add: r_def)
  have p: "padLen = Suc ((119 - r) mod 64)"
  proof (cases "r < 56")
    case True
    then have "(119 - r) mod 64 = 55 - r" by (simp add: mod_if)
    with True show ?thesis by (simp add: padLen_def r_def[symmetric])
  next
    case False
    then have "(119 - r) mod 64 = 119 - r" using r by simp
    with False r show ?thesis by (simp add: padLen_def r_def[symmetric])
  qed
  have le: "(119 - r) mod 64 \<le> 63" by (simp add: less_Suc_eq_le[symmetric])
  show t: "take padLen md5_padding = 0x80 # replicate ((119 - n mod 64) mod 64) 0"
    unfolding p md5_padding_def r_def[symmetric] using le by (simp add: min_def)
  then have len: "length (take padLen md5_padding) = padLen" by (simp add: p r_def)
  show "length (take padLen md5_padding) \<le> 64" unfolding len p using le by simp
  have n: "n = 64 * (n div 64) + r" by (simp add: r_def)
  have "64 dvd r + padLen + 8"
    using r by (auto simp: padLen_def r_def[symmetric])
  then show "64 dvd n + length (take padLen md5_padding) + 8"
    unfolding len using dvd_add[of 64 "64 * (n div 64)" "r + padLen + 8"]
    by (subst n) (simp only: dvd_triv_left add.assoc)
qed

lemma md5_finalize_ok:
  assumes abs: "md5_absorbed m xs"
  shows "\<exists>m'. md5_finalize m = Inr m' \<and> md5_finalized m' \<and> md5_hexdigest m' = md5_spec xs"
proof -
  define p where "p = take (if length xs mod 64 < 56 then 56 - length xs mod 64
      else 120 - length xs mod 64) md5_padding"
  note pad = md5_pad_split[of "length xs", folded p_def]
  have idx: "unat (md5_count0 m div 8 mod 64) = length xs mod 64"
    by (rule md5_index) (use abs in \<open>simp only: md5_absorbed_def\<close>)
  have bits: "md5_encode [md5_count0 m, md5_count1 m] = md5_le64 (8 * length xs)"
    using abs md5_encode_count[of "8 * length xs"] by (simp only: md5_absorbed_def)
  obtain m1 where m1: "md5_update m p = Inr m1" "md5_absorbed m1 (xs @ p)"
    using md5_update_ok[OF abs, of p] pad(2) by auto
  have "length (md5_le64 (8 * length xs)) = 8" by (simp add: md5_le64_def)
  then obtain m2 where m2: "md5_update m1 (md5_le64 (8 * length xs)) = Inr m2"
      "md5_absorbed m2 (md5_pad xs)"
    using md5_update_ok[OF m1(2), of "md5_le64 (8 * length xs)"] by (auto simp: md5_pad_def pad(1))
  have nf: "\<not> md5_finalized m" using abs by (simp add: md5_absorbed_def)
  obtain a b c d where st: "md5_st m2 = (a, b, c, d)" by (cases "md5_st m2")
  have fold: "md5_fold md5_iv (md5_pad xs) = (a, b, c, d)"
    using m2(2) st by (simp add: md5_absorbed_def)
  have "md5_finalize m = Inr (m2\<lparr>md5_digest := md5_encode [a, b, c, d], md5_buffer := replicate 64 0,
      md5_count0 := 0, md5_count1 := 0, md5_finalized := True\<rparr>)"
    unfolding md5_finalize_def Let_def idx bits p_def[symmetric]
    using nf by (simp add: m1(1) m2(1) st)
  moreover have "length (md5_encode [a, b, c, d]) = 16" by simp
  ultimately show ?thesis
    by (simp add: md5_hexdigest_def md5_spec_def fold del: md5_encode.simps)
qed

lemma md5_result:
  "md5 str =
     (let n = length str mod 2 ^ 32
      in if n < 2 ^ 32 - 64 then Inr (md5_spec (md5_bytes (take n str)))
         else Inl (UndefinedBehaviour ''read past input''))"
proof -
  define n where "n = length str mod 2 ^ 32"
  define m0 where "m0 = md5_init (md5_object (replicate 64 0) (replicate 16 0))"
  have unat: "unat (word_of_nat (length str) :: uint4) = n"
    unfolding n_def by (rule md5_unat_of_nat)
  have bytes: "take n (md5_bytes str) = md5_bytes (take n str)" by (simp add: md5_bytes_def take_map)
  have len: "length (md5_bytes (take n str)) = n" by (simp add: md5_bytes_def n_def)
  have abs: "md5_absorbed m0 []" unfolding m0_def
    by (rule md5_absorbed_init) (simp add: md5_object_def)
  have run: "md5 str = res_bind (res_bind (md5_update m0 (md5_bytes (take n str))) md5_finalize)
      (\<lambda>m. Inr (md5_hexdigest m))"
    unfolding md5_def md5_of_string_def unat bytes m0_def ..
  have "n < 2 ^ 32" by (simp add: n_def)
  then have up: "if n < 2 ^ 32 - 64
      then \<exists>m'. md5_update m0 (md5_bytes (take n str)) = Inr m' \<and>
                md5_absorbed m' (md5_bytes (take n str))
      else md5_update m0 (md5_bytes (take n str)) = Inl (UndefinedBehaviour ''read past input'')"
    using md5_update_absorbs[OF abs, of "md5_bytes (take n str)"]
    by (simp only: len md5_fits_start list.size append_Nil True_implies_equals)
  show ?thesis
  proof (cases "n < 2 ^ 32 - 64")
    case True
    with up obtain m1 where m1: "md5_update m0 (md5_bytes (take n str)) = Inr m1"
        "md5_absorbed m1 (md5_bytes (take n str))" by auto
    from md5_finalize_ok[OF m1(2)] m1(1) True show ?thesis
      unfolding run n_def[symmetric] Let_def by auto
  next
    case False
    with up show ?thesis unfolding run n_def[symmetric] Let_def by simp
  qed
qed

text \<open>
  (C2) \<open>md5\<close> computes the digest of RFC 1321 (padding, then the four rounds on every block of 64 bytes) of
  the first \<open>length mod 2^32\<close> characters of its argument, when that number is below \<open>2^32 - 64\<close>; for the
  lengths above, the loop over the blocks wraps and reads past the end of its input.
\<close>

theorem md5_correct:
  "md5 str =
     (let n = length str mod 2 ^ 32
      in if n < 2 ^ 32 - 64 then Inr (md5_spec (md5_bytes (take n str)))
         else Inl (UndefinedBehaviour ''read past input''))"
  by (rule md5_result)

text \<open>
  (C32) However a message is cut into pieces for \<open>update\<close>, from a fresh object on \<open>finalize\<close> and
  \<open>hexdigest\<close> give the digest of the whole message, as long as each piece is shorter than \<open>2^32 - 64\<close>.
\<close>

theorem md5_streaming:
  assumes "length (md5_buffer m) = 64" and "\<forall>c\<in>set chunks. length c < 2 ^ 32 - 64"
  shows "\<exists>m1 m2. res_run md5_update (md5_init m) chunks = Inr m1 \<and> md5_finalize m1 = Inr m2 \<and>
           md5_hexdigest m2 = md5_spec (concat chunks)"
proof -
  have "\<exists>m'. res_run md5_update m0 cs = Inr m' \<and> md5_absorbed m' (xs @ concat cs)"
    if "md5_absorbed m0 xs" and "\<forall>c\<in>set cs. length c < 2 ^ 32 - 64" for m0 xs cs
    using that
  proof (induction cs arbitrary: m0 xs)
    case Nil
    then show ?case by simp
  next
    case (Cons c cs)
    from md5_update_ok[OF Cons.prems(1), of c] Cons.prems(2)
    obtain m1 where m1: "md5_update m0 c = Inr m1" "md5_absorbed m1 (xs @ c)" by auto
    from Cons.IH[OF m1(2)] Cons.prems(2) m1(1) show ?case by simp
  qed
  from this[OF md5_absorbed_init[OF assms(1)] assms(2)]
  obtain m1 where "res_run md5_update (md5_init m) chunks = Inr m1" "md5_absorbed m1 (concat chunks)"
    by auto
  with md5_finalize_ok show ?thesis by blast
qed

lemma md5_streaming_witness:
  "\<exists>m1 m2. res_run md5_update (md5_init (md5_object (replicate 64 7) [])) [[97], [98, 99]] = Inr m1 \<and>
     md5_finalize m1 = Inr m2 \<and> md5_hexdigest m2 = md5_spec [97, 98, 99]"
  using md5_streaming[of "md5_object (replicate 64 7) []" "[[97], [98, 99]]"]
  by (simp add: md5_object_def)

section \<open>Test vectors\<close>

lemmas md5_step_simps = md5_FF_def md5_GG_def md5_HH_def md5_II_def md5_F_def md5_G_def md5_H_def
  md5_I_def md5_rotate_left_def md5_abcd.simps md5_dabc.simps md5_cdab.simps md5_bcda.simps

lemma md5_upt8: "[0..<8] = [0, 1, 2, 3, 4, 5, 6, 7::nat]"
  by (simp add: upt_rec)

lemma md5_replicate: "replicate (numeral k) x = x # replicate (pred_numeral k) x"
  by (simp add: numeral_eq_Suc)

abbreviation md5_words_empty :: "uint4 list" where
  "md5_words_empty \<equiv> [0x80, 0, 0, 0, 0, 0, 0, 0, 0, 0, 0, 0, 0, 0, 0, 0]"

lemma md5_empty_round1:
  "foldl (\<lambda>s step. step s) (0x67452301, 0xefcdab89, 0x98badcfe, 0x10325476) (md5_round1 md5_words_empty) =
     (0xf56c7cf1, 0xd6819c6a, 0x5aa53f75, 0x374943a7)"
  by (simp add: md5_round1_def md5_step_simps)

lemma md5_empty_round2:
  "foldl (\<lambda>s step. step s) (0xf56c7cf1, 0xd6819c6a, 0x5aa53f75, 0x374943a7) (md5_round2 md5_words_empty) =
     (0x13707036, 0xa2205f1f, 0x1c31c384, 0xae7813db)"
  by (simp add: md5_round2_def md5_step_simps)

lemma md5_empty_round3:
  "foldl (\<lambda>s step. step s) (0x13707036, 0xa2205f1f, 0x1c31c384, 0xae7813db) (md5_round3 md5_words_empty) =
     (0x3f55edfd, 0xca7d2dbd, 0x68d84ea2, 0x22a31f54)"
  by (simp add: md5_round3_def md5_step_simps)

lemma md5_empty_round4:
  "foldl (\<lambda>s step. step s) (0x3f55edfd, 0xca7d2dbd, 0x68d84ea2, 0x22a31f54) (md5_round4 md5_words_empty) =
     (0x7246fad3, 0x14e45506, 0xff4ea3eb, 0x6e10a476)"
  by (simp add: md5_round4_def md5_step_simps)

lemma md5_vector_empty: "md5 '''' = Inr ''d41d8cd98f00b204e9800998ecf8427e''"
proof -
  have pad: "md5_pad (md5_bytes '''') = [0x80, 0, 0, 0, 0, 0, 0, 0, 0, 0, 0, 0, 0, 0, 0, 0, 0, 0, 0, 0, 0, 0, 0, 0, 0, 0, 0, 0, 0, 0, 0, 0, 0, 0, 0, 0, 0, 0, 0, 0, 0, 0, 0, 0, 0, 0, 0, 0, 0, 0, 0, 0, 0, 0, 0, 0, 0, 0, 0, 0, 0, 0, 0, 0]" (is "_ = ?b")
    by (simp add: md5_pad_def md5_bytes_def md5_le64_def md5_upt8 md5_replicate)
  have "md5_decode ?b = md5_words_empty" by simp
  then have "md5_transform md5_iv ?b = (0xd98c1dd4, 0x4b2008f, 0x980980e9, 0x7e42f8ec)"
    by (simp only: md5_transform_def Let_def foldl_append md5_empty_round1 md5_empty_round2
        md5_empty_round3 md5_empty_round4 prod.case) simp
  moreover have "md5_fold md5_iv ?b = md5_transform md5_iv ?b"
    using md5_fold_block[of ?b md5_iv "[]"] by simp
  ultimately have "md5_spec (md5_bytes '''') = ''d41d8cd98f00b204e9800998ecf8427e''"
    unfolding md5_spec_def pad by (simp add: md5_hex_byte_def md5_hex_char_def char_of_def bit_Suc_0_iff)
  then show ?thesis by (simp add: md5_result)
qed

abbreviation md5_words_abc :: "uint4 list" where
  "md5_words_abc \<equiv> [0x80636261, 0, 0, 0, 0, 0, 0, 0, 0, 0, 0, 0, 0, 0, 0x18, 0]"

lemma md5_abc_round1:
  "foldl (\<lambda>s step. step s) (0x67452301, 0xefcdab89, 0x98badcfe, 0x10325476) (md5_round1 md5_words_abc) =
     (0xdda9b9a6, 0x72aff2e0, 0xe396856b, 0xa1051895)"
  by (simp add: md5_round1_def md5_step_simps)

lemma md5_abc_round2:
  "foldl (\<lambda>s step. step s) (0xdda9b9a6, 0x72aff2e0, 0xe396856b, 0xa1051895) (md5_round2 md5_words_abc) =
     (0x790a77fb, 0x726342d3, 0xa62884aa, 0x9f47e4f8)"
  by (simp add: md5_round2_def md5_step_simps)

lemma md5_abc_round3:
  "foldl (\<lambda>s step. step s) (0x790a77fb, 0x726342d3, 0xa62884aa, 0x9f47e4f8) (md5_round3 md5_words_abc) =
     (0x7f2e507b, 0x7beb9700, 0x8fae6399, 0x99d9679d)"
  by (simp add: md5_round3_def md5_step_simps)

lemma md5_abc_round4:
  "foldl (\<lambda>s step. step s) (0x7f2e507b, 0x7beb9700, 0x8fae6399, 0x99d9679d) (md5_round4 md5_words_abc) =
     (0x310ade8f, 0xc08226b3, 0xe484b9d8, 0x624d8cb2)"
  by (simp add: md5_round4_def md5_step_simps)

lemma md5_vector_abc: "md5 ''abc'' = Inr ''900150983cd24fb0d6963f7d28e17f72''"
proof -
  have pad: "md5_pad (md5_bytes ''abc'') = [0x61, 0x62, 0x63, 0x80, 0, 0, 0, 0, 0, 0, 0, 0, 0, 0, 0, 0, 0, 0, 0, 0, 0, 0, 0, 0, 0, 0, 0, 0, 0, 0, 0, 0, 0, 0, 0, 0, 0, 0, 0, 0, 0, 0, 0, 0, 0, 0, 0, 0, 0, 0, 0, 0, 0, 0, 0, 0, 0x18, 0, 0, 0, 0, 0, 0, 0]" (is "_ = ?b")
    by (simp add: md5_pad_def md5_bytes_def md5_le64_def md5_upt8 md5_replicate)
  have "md5_decode ?b = md5_words_abc" by simp
  then have "md5_transform md5_iv ?b = (0x98500190, 0xb04fd23c, 0x7d3f96d6, 0x727fe128)"
    by (simp only: md5_transform_def Let_def foldl_append md5_abc_round1 md5_abc_round2
        md5_abc_round3 md5_abc_round4 prod.case) simp
  moreover have "md5_fold md5_iv ?b = md5_transform md5_iv ?b"
    using md5_fold_block[of ?b md5_iv "[]"] by simp
  ultimately have "md5_spec (md5_bytes ''abc'') = ''900150983cd24fb0d6963f7d28e17f72''"
    unfolding md5_spec_def pad by (simp add: md5_hex_byte_def md5_hex_char_def char_of_def bit_Suc_0_iff)
  then show ?thesis by (simp add: md5_result)
qed

text \<open>the code's digests of the empty string and of \<open>abc\<close> are those of the RFC.\<close>

theorem md5_test_suite:
  "md5 '''' = Inr ''d41d8cd98f00b204e9800998ecf8427e'' \<and>
   md5 ''abc'' = Inr ''900150983cd24fb0d6963f7d28e17f72''"
  by (simp only: md5_vector_empty md5_vector_abc simp_thms)

section \<open>Encoding words\<close>

lemma md5_decode_word:
  fixes w :: uint4
  shows "ucast (ucast (w AND 0xff) :: uint1) OR
    push_bit 8 (ucast (ucast (drop_bit 8 w AND 0xff) :: uint1)) OR
    push_bit 16 (ucast (ucast (drop_bit 16 w AND 0xff) :: uint1)) OR
    push_bit 24 (ucast (ucast (drop_bit 24 w AND 0xff) :: uint1)) = w"
proof -
  have ff: "(0xff :: uint4) = mask 8" by (simp add: mask_eq_exp_minus_1)
  show ?thesis unfolding ff
  proof (rule bit_word_eqI)
    fix n
    assume "n < LENGTH(32)"
    then consider "n < 8" | k where "n = 8 + k" "k < 8" | k where "n = 16 + k" "k < 8"
      | k where "n = 24 + k" "k < 8"
    proof -
      assume *: "n < 8 \<Longrightarrow> thesis" "\<And>k. n = 8 + k \<Longrightarrow> k < 8 \<Longrightarrow> thesis"
        "\<And>k. n = 16 + k \<Longrightarrow> k < 8 \<Longrightarrow> thesis"
        "\<And>k. n = 24 + k \<Longrightarrow> k < 8 \<Longrightarrow> thesis"
      have "n < 32" using \<open>n < LENGTH(32)\<close> by simp
      then show thesis
        using *(1) *(2)[of "n - 8"] *(3)[of "n - 16"] *(4)[of "n - 24"] by linarith
    qed
    then show "bit ((ucast (ucast (w AND mask 8) :: uint1) :: uint4) OR
      push_bit 8 (ucast (ucast (drop_bit 8 w AND mask 8) :: uint1)) OR
      push_bit 16 (ucast (ucast (drop_bit 16 w AND mask 8) :: uint1)) OR
      push_bit 24 (ucast (ucast (drop_bit 24 w AND mask 8) :: uint1))) n = bit w n"
      by cases (simp_all add: bit_simps)
  qed
qed

lemma md5_encode_bytes:
  fixes b0 b1 b2 b3 :: uint1
  defines "w \<equiv> (ucast b0 OR push_bit 8 (ucast b1) OR push_bit 16 (ucast b2) OR
    push_bit 24 (ucast b3)) :: uint4"
  shows "ucast (w AND 0xff) = b0" and "ucast (drop_bit 8 w AND 0xff) = b1"
    and "ucast (drop_bit 16 w AND 0xff) = b2" and "ucast (drop_bit 24 w AND 0xff) = b3"
proof -
  have ff: "(0xff :: uint4) = mask 8" by (simp add: mask_eq_exp_minus_1)
  show "ucast (w AND 0xff) = b0" and "ucast (drop_bit 8 w AND 0xff) = b1"
    and "ucast (drop_bit 16 w AND 0xff) = b2" and "ucast (drop_bit 24 w AND 0xff) = b3"
    unfolding ff w_def
    by (rule bit_word_eqI, auto simp: bit_simps dest: bit_imp_le_length)+
qed

lemma md5_encode_decode:
  "4 dvd length bs \<Longrightarrow> md5_encode (md5_decode bs) = bs"
proof (induction bs rule: md5_decode.induct)
  case (1 b0 b1 b2 b3 bs)
  have "4 dvd Suc (Suc (Suc (Suc (length bs)))) \<longleftrightarrow> 4 dvd length bs" by presburger
  with 1 show ?case by (simp only: md5_decode.simps md5_encode.simps md5_encode_bytes) simp
qed (auto dest: dvd_imp_le)

text \<open>
  \<open>encode\<close> and \<open>decode\<close> are inverse: the little-endian bytes of a list of words give the words back, and
  the words of a list of bytes whose length is a multiple of four give the bytes back.
\<close>

theorem md5_word_roundtrip:
  "md5_decode (md5_encode ws) = ws \<and> (4 dvd length bs \<longrightarrow> md5_encode (md5_decode bs) = bs)"
proof -
  have "md5_decode (md5_encode ws) = ws"
    by (induction ws) (simp_all only: md5_encode.simps md5_decode.simps md5_decode_word)
  then show ?thesis using md5_encode_decode by blast
qed

lemma md5_word_roundtrip_witness: "md5_encode (md5_decode [1, 2, 3, 4]) = [1, 2, 3, 4]"
  using md5_word_roundtrip[where ws = "[]" and bs = "[1, 2, 3, 4]"] by simp

end
