(* ===== verification/MamNode.thy ===== *)
theory MamNode
  imports MamCommon LruCache Md5
begin

text \<open>
  The application of a mesh node (\<open>applications/mamapp/MamNodeApp.h\<close>, \<open>MamNodeApp.cc\<close>): a node relays
  data packets towards a mobile sink, keeps the route to the sink, produces a data packet of its own
  when it hears of the sink, and plays the friend or the low power node of Bluetooth Mesh.

  A handler takes the simulation kernel \<open>K\<close>, the environment \<open>E\<close> and the state of the module to its
  new state, with the calls on the socket, the signals and the result recorder in \<open>mam_log\<close>.
\<close>

section \<open>Parameters and state\<close>

text \<open>
  What the module reads from its configuration and its surroundings. \<open>e_ms\<close> is the number of ticks of
  a millisecond, \<open>e_clock\<close> the conversion \<open>static_cast<long>(simTime().dbl() * 1000)\<close> through a
  floating point number, \<open>e_dis\<close>, \<open>e_dis2\<close> and \<open>e_random_char\<close> the \<open>n\<close>-th draws of the random
  generators, \<open>e_resolve\<close> the address resolver (the empty address if it fails), \<open>e_str\<close> the paths of
  the modules that module path addresses name.
\<close>

record mam_env =
  par_localPort :: int
  par_destPort :: int
  par_startTime :: simtime
  par_stopTime :: simtime
  par_dontFragment :: bool
  par_relayNode :: bool
  par_relayMode :: string
  par_delta :: int
  par_lowPowerNode :: bool
  par_friendNode :: bool
  par_destAddresses :: string
  par_localAddress :: string
  par_timeToLive :: int
  par_typeOfService :: int
  par_multicastInterface :: string
  par_joinLocalMulticastGroups :: bool
  par_stopOperationTimeout :: simtime
  par_stopOperationExtraTime :: simtime
  e_fullPath :: string
  e_nodeStatus :: "bool option"
  e_ms :: simtime
  e_clock :: "simtime \<Rightarrow> int"
  e_dis :: "nat \<Rightarrow> nat"
  e_dis2 :: "nat \<Rightarrow> nat"
  e_random_char :: "nat \<Rightarrow> nat"
  e_tokenize :: "string \<Rightarrow> string list"
  e_resolve :: "string \<Rightarrow> l3address"
  e_interface :: "string \<Rightarrow> int option"
  e_str :: "int \<Rightarrow> string option"

datatype mam_timer = SelfMsg | PollTimer

text \<open>The kind of \<open>selfMsg\<close>; a new message has kind 0.\<close>

datatype self_kind = NO_KIND | START | STOP | SEND_MY_DATA

record 'f mam_node = "'f operational" +
  destAddresses :: "l3address list"
  destAddressStr :: "string list"
  localPort :: int
  destPort :: int
  startTime :: simtime
  stopTime :: simtime
  dontFragment :: bool
  relayNode :: bool
  friendNode :: bool
  lowPowerNode :: bool
  mamRelay :: bool
  delta :: int
  selfKind :: self_kind
  nodeUuid :: string
  lastFoundSinkSent :: simtime
  lastSensorDataSent :: simtime
  scheduledSendData :: bool
  dataSendCache :: "(string, int) lru_cache"
  pollIntervalMs :: int
  connectedFriendNode :: l3address
  friendshipEstablished :: bool
  lowPowerNodes :: "(string \<times> unit list) list"
  numSent :: nat
  numReceived :: nat
  numDataSent :: nat
  numDataResent :: nat
  numDataAckReceived :: nat
  dataSendSequence :: int
  sinkHops :: int
  mobileSink :: l3address
  sinkBestRouteExpiry :: simtime
  uniqueDataSenders :: string_set
  uniqueSentPacketUUIDs :: string_set
  draws :: nat
  mam_log :: "app_action list"

type_synonym 'f mam_kernel = "('f, mam_timer) op_kernel"

type_synonym 'f mam_step = "'f mam_node \<Rightarrow> 'f mam_node res"

text \<open>
  A new module: the constructor, with the uninitialised \<open>sinkHops\<close> arbitrary. The packets queued for
  a low power node are copies of an empty packet, of which only the number matters.
\<close>

definition mam_new :: "'f \<Rightarrow> int \<Rightarrow> 'f mam_node" where
  "mam_new f hops = \<lparr>operationalState = NOT_OPERATING, lastChange = 0, activeOperation = None,
     endState = InvalidState, isDelayedFinish = False, op_done = 0, fes = f,
     destAddresses = [], destAddressStr = [], localPort = -1, destPort = -1,
     startTime = 0, stopTime = 0, dontFragment = False, relayNode = False, friendNode = False,
     lowPowerNode = False, mamRelay = True, delta = 0, selfKind = NO_KIND, nodeUuid = [],
     lastFoundSinkSent = 0, lastSensorDataSent = 0, scheduledSendData = False,
     dataSendCache = lru_new 100, pollIntervalMs = 1700, connectedFriendNode = l3_empty,
     friendshipEstablished = False, lowPowerNodes = [], numSent = 0, numReceived = 0,
     numDataSent = 0, numDataResent = 0, numDataAckReceived = 0, dataSendSequence = 0,
     sinkHops = hops, mobileSink = l3_empty, sinkBestRouteExpiry = 0, uniqueDataSenders = [],
     uniqueSentPacketUUIDs = [], draws = 0, mam_log = []\<rparr>"

text \<open>The packet names.\<close>

abbreviation MAMCDISCOVERY :: string where "MAMCDISCOVERY \<equiv> ''MAMCDISCOVERY''"
abbreviation DATA_SEND :: string where "DATA_SEND \<equiv> ''DATA_SEND''"
abbreviation DISCONNECTED_MOBILE_SINK :: string where
  "DISCONNECTED_MOBILE_SINK \<equiv> ''DISCONNECTED_MOBILE_SINK''"
abbreviation FOUND_MOBILE_SINK :: string where "FOUND_MOBILE_SINK \<equiv> ''FOUND_MOBILE_SINK''"
abbreviation FRIEND_REQUEST :: string where "FRIEND_REQUEST \<equiv> ''FRIEND_REQUEST''"
abbreviation FRIEND_OFFER :: string where "FRIEND_OFFER \<equiv> ''FRIEND_OFFER''"
abbreviation FRIEND_POLL :: string where "FRIEND_POLL \<equiv> ''FRIEND_POLL''"
abbreviation FRIEND_UPDATE :: string where "FRIEND_UPDATE \<equiv> ''FRIEND_UPDATE''"

definition mam_act :: "app_action list \<Rightarrow> 'f mam_node \<Rightarrow> 'f mam_node" where
  "mam_act as s = s\<lparr>mam_log := mam_log s @ as\<rparr>"

section \<open>Random identifiers\<close>

text \<open>\<open>for (i = 0; i < n; i++) ss << disGen(false);\<close>\<close>

definition mam_hex_draws :: "mam_env \<Rightarrow> nat \<Rightarrow> nat \<Rightarrow> string" where
  "mam_hex_draws E from n = concat (map (\<lambda>i. show_hex (e_dis E (from + i))) [0..<n])"

definition generate_uuid_v4 :: "mam_env \<Rightarrow> 'f mam_node \<Rightarrow> string \<times> 'f mam_node" where
  "generate_uuid_v4 E s =
     (let d = draws s;
          uuid = mam_hex_draws E d 8 @ ''-'' @ mam_hex_draws E (d + 8) 4 @ ''-4'' @
                 mam_hex_draws E (d + 12) 3 @ ''-'' @ show_hex (e_dis2 E (d + 15)) @
                 mam_hex_draws E (d + 16) 3 @ ''-'' @ mam_hex_draws E (d + 19) 12
      in (uuid, s\<lparr>draws := d + 31\<rparr>))"

text \<open>\<open>hex.length() < 2 ? '0' + hex : hex\<close>\<close>

definition mam_hex_pair :: "nat \<Rightarrow> string" where
  "mam_hex_pair n = (let hex = show_hex n in if length hex < 2 then CHR ''0'' # hex else hex)"

definition generate_hex :: "mam_env \<Rightarrow> nat \<Rightarrow> 'f mam_node \<Rightarrow> string \<times> 'f mam_node" where
  "generate_hex E len s =
     (concat (map (\<lambda>i. mam_hex_pair (e_random_char E (draws s + i))) [0..<len]),
      s\<lparr>draws := draws s + len\<rparr>)"

section \<open>Sending\<close>

definition sendSimpleMessage ::
    "'f mam_kernel \<Rightarrow> string \<Rightarrow> l3address \<Rightarrow> int \<Rightarrow> 'f mam_step" where
  "sendSimpleMessage K msg dest hops s =
     check_that (0 \<le> hops) (RuntimeError ''Invalid number of hops'')
       (let payload = bmesh_new\<lparr>bm_chunkLength := 1, bm_hops := hops,
              bm_creationTag := Some (op_now K s), bm_creationTime := op_now K s\<rparr>;
            packet = \<lparr>up_name = msg, up_dontFragment = dontFragment s, up_payload = payload\<rparr>
        in Inr (mam_act [EmitPacket ''packetSent'', SendTo packet dest (destPort s)] s))"

definition broadcastSimpleMessage_hops ::
    "'f mam_kernel \<Rightarrow> string \<Rightarrow> int \<Rightarrow> 'f mam_step" where
  "broadcastSimpleMessage_hops K msg hops s =
     check_that (0 \<le> hops) (RuntimeError ''Invalid number of hops'')
       (sendSimpleMessage K msg broadcast_addr hops s)"

definition broadcastSimpleMessage :: "'f mam_kernel \<Rightarrow> string \<Rightarrow> 'f mam_step" where
  "broadcastSimpleMessage K msg = broadcastSimpleMessage_hops K msg 127"

definition sendDataSentAck :: "'f mam_kernel \<Rightarrow> int \<Rightarrow> l3address \<Rightarrow> 'f mam_step" where
  "sendDataSentAck K packetId dest = sendSimpleMessage K (''ACK-'' @ show_int packetId) dest 127"

text \<open>The body that \<open>sendFriendRequest\<close>, \<open>sendFriendEstablishedInternalMessage\<close> and
  \<open>sendFriendPoll\<close> repeat: the hops keep their default.\<close>

definition mam_send_small ::
    "'f mam_kernel \<Rightarrow> string \<Rightarrow> l3address \<Rightarrow> 'f mam_node \<Rightarrow> 'f mam_node" where
  "mam_send_small K name dest s =
     (let payload = bmesh_new\<lparr>bm_chunkLength := 1, bm_creationTag := Some (op_now K s)\<rparr>;
          packet = \<lparr>up_name = name, up_dontFragment = dontFragment s, up_payload = payload\<rparr>
      in mam_act [EmitPacket ''packetSent'', SendTo packet dest (destPort s)] s)"

definition sendFriendRequest :: "'f mam_kernel \<Rightarrow> 'f mam_step" where
  "sendFriendRequest K s =
     check_that (lowPowerNode s) (AssertFailed ''lowPowerNode'')
       (check_that (\<not> friendNode s) (AssertFailed ''!friendNode'')
         (Inr (mam_send_small K FRIEND_REQUEST broadcast_addr s)))"

definition sendFriendEstablishedInternalMessage :: "'f mam_kernel \<Rightarrow> 'f mam_step" where
  "sendFriendEstablishedInternalMessage K s =
     check_that (lowPowerNode s) (AssertFailed ''lowPowerNode'')
       (check_that (\<not> friendNode s) (AssertFailed ''!friendNode'')
         (Inr (mam_send_small K ''FRIEND_ESTABLISHED_INTERNAL'' broadcast_addr s)))"

definition sendFriendPoll :: "'f mam_kernel \<Rightarrow> 'f mam_step" where
  "sendFriendPoll K s =
     check_that (lowPowerNode s) (AssertFailed ''lowPowerNode'')
       (check_that (\<not> friendNode s) (AssertFailed ''!friendNode'')
         (check_that (\<not> l3_is_empty (connectedFriendNode s)) (AssertFailed ''connectedFriendNode'')
           (Inr (mam_send_small K FRIEND_POLL (connectedFriendNode s) s))))"

definition sendData :: "bmesh_packet \<Rightarrow> l3address \<Rightarrow> 'f mam_node \<Rightarrow> 'f mam_node" where
  "sendData bmeshData dest s =
     (let packet = \<lparr>up_name = DATA_SEND, up_dontFragment = dontFragment s, up_payload = bmeshData\<rparr>
      in mam_act [EmitPacket ''packetSent'', EmitPacket ''dataSent'',
                  SendTo packet dest (destPort s)]
           (s\<lparr>numDataSent := Suc (numDataSent s)\<rparr>))"

text \<open>Every queue of a registered low power node gets a dummy packet.\<close>

definition push_dummies :: "'f mam_node \<Rightarrow> 'f mam_node" where
  "push_dummies s = s\<lparr>lowPowerNodes := map (\<lambda>(k, q). (k, q @ [()])) (lowPowerNodes s)\<rparr>"

section \<open>Timers\<close>

definition trunc_ms :: "mam_env \<Rightarrow> simtime \<Rightarrow> simtime" where
  "trunc_ms E t = (t div e_ms E) * e_ms E"

text \<open>\<open>(simTime() + SimTime(pollIntervalMs, SIMTIME_MS)).trunc(SIMTIME_MS)\<close>\<close>

definition poll_time :: "'f mam_kernel \<Rightarrow> mam_env \<Rightarrow> 'f mam_node \<Rightarrow> simtime" where
  "poll_time K E s = trunc_ms E (op_now K s + pollIntervalMs s * e_ms E)"

definition sendMyDataToSink :: "'f mam_kernel \<Rightarrow> mam_env \<Rightarrow> 'f mam_step" where
  "sendMyDataToSink K E s =
     (if scheduledSendData s then Inr s
      else if \<not> l3_is_empty (mobileSink s) \<or> \<not> mamRelay s then
        let start = max (lastSensorDataSent s + 100 * e_ms E) (op_now K s + 1 * e_ms E);
            s1 = op_cancelEvent K (AppTimer SelfMsg) (s\<lparr>scheduledSendData := True\<rparr>)
        in op_scheduleAt K start (AppTimer SelfMsg) (s1\<lparr>selfKind := SEND_MY_DATA\<rparr>)
      else Inr s)"

section \<open>Handlers\<close>

text \<open>The route to the sink: a route that is unset, expired or worse is replaced.\<close>

definition update_route ::
    "'f mam_kernel \<Rightarrow> mam_env \<Rightarrow> l3address \<Rightarrow> int \<Rightarrow> 'f mam_node \<Rightarrow> 'f mam_node" where
  "update_route K E src hops s =
     (if mamRelay s \<and>
         (l3_is_empty (mobileSink s) \<or> sinkBestRouteExpiry s < op_now K s \<or> sinkHops s < hops)
      then s\<lparr>mobileSink := src, sinkHops := hops, sinkBestRouteExpiry := op_now K s + delta s * e_ms E\<rparr>
      else s)"

definition feed_friends :: "'f mam_node \<Rightarrow> 'f mam_node" where
  "feed_friends s = (if lowPowerNodes s \<noteq> [] then push_dummies s else s)"

text \<open>
  The relay of the announcement. \<open>hops--\<close> in the call \<open>broadcastSimpleMessage(FOUND_MOBILE_SINK, hops--)\<close>
  passes \<open>hops\<close> and then decrements the parameter, which is not used again.
\<close>

definition relay_found ::
    "'f mam_kernel \<Rightarrow> mam_env \<Rightarrow> l3address \<Rightarrow> int \<Rightarrow> 'f mam_step" where
  "relay_found K E src hops s =
     (if relayNode s then
        if mamRelay s then
          (if op_now K s div e_ms E - lastFoundSinkSent s div e_ms E > 100
           then broadcastSimpleMessage K FOUND_MOBILE_SINK (s\<lparr>lastFoundSinkSent := op_now K s\<rparr>)
           else Inr s)
        else if 0 < hops then
          res_bind (l3_str (e_str E) src) (\<lambda>srcStr.
          res_bind (md5 (''FOUND_MOBILE_SINK_'' @ srcStr)) (\<lambda>key.
          let ms = e_clock E (op_now K s)
          in res_bind (lru_exists (dataSendCache s) key ms) (\<lambda>inCache.
             if \<not> inCache
             then broadcastSimpleMessage_hops K FOUND_MOBILE_SINK hops
                    (s\<lparr>dataSendCache := lru_put (dataSendCache s) key 1 (ms + 1000)\<rparr>)
             else Inr s)))
        else Inr s
      else Inr s)"

definition processFoundMobileSink ::
    "'f mam_kernel \<Rightarrow> mam_env \<Rightarrow> l3address \<Rightarrow> int \<Rightarrow> 'f mam_step" where
  "processFoundMobileSink K E src hops s =
     res_bind (sendMyDataToSink K E (update_route K E src hops s)) (\<lambda>s1.
     check_that (lowPowerNodes s1 = [] \<or> friendNode s1) (AssertFailed ''friendNode'')
       (relay_found K E src hops (feed_friends s1)))"

definition processDiscovery :: "'f mam_kernel \<Rightarrow> mam_env \<Rightarrow> l3address \<Rightarrow> 'f mam_step" where
  "processDiscovery K E src s =
     (let s1 = s\<lparr>mobileSink := src, sinkHops := 128,
                 sinkBestRouteExpiry := op_now K s + 20000 * e_ms E\<rparr>
      in res_bind (if relayNode s1 then broadcastSimpleMessage K FOUND_MOBILE_SINK s1 else Inr s1)
           (\<lambda>s2. Inr (feed_friends s2)))"

definition processDisconnected :: "'f mam_kernel \<Rightarrow> l3address \<Rightarrow> 'f mam_step" where
  "processDisconnected K src s =
     res_bind (l3_eq src (mobileSink s)) (\<lambda>same.
     let s1 = (if same then s\<lparr>mobileSink := l3_empty\<rparr> else s)
     in res_bind (if relayNode s1 then broadcastSimpleMessage K DISCONNECTED_MOBILE_SINK s1 else Inr s1)
          (\<lambda>s2. Inr (feed_friends s2)))"

definition processDataSend ::
    "'f mam_kernel \<Rightarrow> mam_env \<Rightarrow> arriving_packet \<Rightarrow> l3address \<Rightarrow> 'f mam_step" where
  "processDataSend K E packet src s =
     (if \<not> relayNode s then Inr s
      else if mamRelay s \<and> l3_is_empty (mobileSink s)
      then sendSimpleMessage K DISCONNECTED_MOBILE_SINK src 127 s
      else
        res_bind (deref_bmesh packet) (\<lambda>bmeshData.
        let key = bm_packetUuid bmeshData; ms = e_clock E (op_now K s)
        in res_bind (lru_exists (dataSendCache s) key ms) (\<lambda>inCache.
           if \<not> inCache then
             let s1 = s\<lparr>dataSendCache := lru_put (dataSendCache s) key 1 (ms + 1000),
                        uniqueDataSenders := sset_insert (bm_srcUuid bmeshData) (uniqueDataSenders s)\<rparr>
             in Inr (if mamRelay s1 then sendData bmeshData (mobileSink s1) s1
                     else sendData bmeshData broadcast_addr s1)
           else Inr s)))"

definition processFriendRequest :: "'f mam_kernel \<Rightarrow> l3address \<Rightarrow> 'f mam_step" where
  "processFriendRequest K src s =
     (if friendNode s then sendSimpleMessage K FRIEND_OFFER src 127 s else Inr s)"

definition processFriendOffer :: "'f mam_kernel \<Rightarrow> l3address \<Rightarrow> 'f mam_step" where
  "processFriendOffer K src s =
     check_that (lowPowerNode s) (RuntimeError ''Non-LPN received a friend offer'')
       (if l3_is_empty (connectedFriendNode s)
        then sendFriendPoll K (s\<lparr>connectedFriendNode := src\<rparr>)
        else Inr s)"

text \<open>
  In the second case \<open>q\<close> is a copy of the queue (\<open>auto q = lowPowerNodes[key]\<close>): \<open>q.pop()\<close> changes
  the copy.
\<close>

definition processFriendPoll :: "'f mam_kernel \<Rightarrow> mam_env \<Rightarrow> l3address \<Rightarrow> 'f mam_step" where
  "processFriendPoll K E src s =
     check_that (friendNode s) (AssertFailed ''friendNode'')
       (res_bind (l3_str (e_str E) src) (\<lambda>key.
        case map_of (lowPowerNodes s) key of
          None \<Rightarrow> sendSimpleMessage K FRIEND_UPDATE src 1
                    (s\<lparr>lowPowerNodes := AList.update key [] (lowPowerNodes s)\<rparr>)
        | Some q \<Rightarrow> (if q \<noteq> [] then sendSimpleMessage K FRIEND_UPDATE src 1 s else Inr s)))"

definition processFriendUpdate :: "'f mam_kernel \<Rightarrow> mam_env \<Rightarrow> l3address \<Rightarrow> 'f mam_step" where
  "processFriendUpdate K E src s =
     check_that (lowPowerNode s) (AssertFailed ''lowPowerNode'')
       (res_bind (l3_eq (connectedFriendNode s) src) (\<lambda>same.
        check_that same (AssertFailed ''connectedFriendNode == src'')
          (if \<not> friendshipEstablished s then
             res_bind (sendFriendEstablishedInternalMessage K (s\<lparr>friendshipEstablished := True\<rparr>))
               (\<lambda>s1. res_bind (op_scheduleAt K (poll_time K E s1) (AppTimer PollTimer) s1)
               (\<lambda>s2. sendFriendPoll K s2))
           else processFoundMobileSink K E src 20 s)))"

definition processSendMyData :: "'f mam_kernel \<Rightarrow> mam_env \<Rightarrow> 'f mam_node \<Rightarrow> 'f mam_node" where
  "processSendMyData K E s0 =
     (let s = s0\<lparr>scheduledSendData := False\<rparr>
      in if \<not> mamRelay s \<or> \<not> l3_is_empty (mobileSink s) then
           let addr = (if mamRelay s then mobileSink s else broadcast_addr)
           in case generate_uuid_v4 E s of (uuidStr, s1) \<Rightarrow>
             let s2 = s1\<lparr>uniqueSentPacketUUIDs := sset_insert uuidStr (uniqueSentPacketUUIDs s1),
                         dataSendSequence := dataSendSequence s1 + 1\<rparr>;
                 payload = bmesh_new\<lparr>bm_chunkLength := 11, bm_hops := 127, bm_packetUuid := uuidStr,
                             bm_srcUuid := nodeUuid s2, bm_sequence := dataSendSequence s2,
                             bm_creationTag := Some (op_now K s2)\<rparr>;
                 packet = \<lparr>up_name = DATA_SEND, up_dontFragment = dontFragment s2, up_payload = payload\<rparr>
             in (mam_act [EmitPacket ''packetSent'', SendTo packet addr (destPort s2)] s2)
                  \<lparr>lastSensorDataSent := op_now K s2\<rparr>
         else s)"

section \<open>Start and stop\<close>

definition mam_setSocketOptions :: "mam_env \<Rightarrow> 'f mam_step" where
  "mam_setSocketOptions E s =
     (let ttl = (if par_timeToLive E \<noteq> -1 then [SetTimeToLive (par_timeToLive E)] else []);
          tos = (if par_typeOfService E \<noteq> -1 then [SetTypeOfService (par_typeOfService E)] else []);
          join = (if par_joinLocalMulticastGroups E then [JoinLocalMulticastGroups] else [])
      in if par_multicastInterface E \<noteq> [] then
           (case e_interface E (par_multicastInterface E) of
              None \<Rightarrow> Inl (RuntimeError ''Wrong multicastInterface setting'')
            | Some i \<Rightarrow> Inr (mam_act (ttl @ tos @ [SetMulticastOutputInterface i, SetBroadcast True] @
                                      join @ [SetCallback]) s))
         else Inr (mam_act (ttl @ tos @ [SetBroadcast True] @ join @ [SetCallback]) s))"

definition mam_resolve_step :: "mam_env \<Rightarrow> 'f mam_node \<Rightarrow> string \<Rightarrow> 'f mam_node res" where
  "mam_resolve_step E s token =
     (let result = e_resolve E token;
          s1 = s\<lparr>destAddressStr := destAddressStr s @ [token]\<rparr>
      in res_bind (l3_isUnspecified result) (\<lambda>u.
         Inr (s1\<lparr>destAddresses := destAddresses s1 @ [result]\<rparr>)))"

definition mam_processStart :: "'f mam_kernel \<Rightarrow> mam_env \<Rightarrow> 'f mam_step" where
  "mam_processStart K E s =
     (let local = (if par_localAddress E \<noteq> [] then e_resolve E (par_localAddress E) else l3_empty)
      in res_bind (mam_setSocketOptions E (mam_act [SocketBind local (localPort s)] s)) (\<lambda>s1.
         res_bind (res_run (mam_resolve_step E) s1 (e_tokenize E (par_destAddresses E))) (\<lambda>s2.
         res_bind (if destAddresses s2 \<noteq> [] then Inr (s2\<lparr>selfKind := SEND_MY_DATA\<rparr>)
                   else if 0 \<le> stopTime s2
                   then op_scheduleAt K (stopTime s2) (AppTimer SelfMsg) (s2\<lparr>selfKind := STOP\<rparr>)
                   else Inr s2) (\<lambda>s3.
         if lowPowerNode s3
         then check_that (l3_is_empty (connectedFriendNode s3)) (AssertFailed ''connectedFriendNode == empty'')
                (sendFriendRequest K s3)
         else Inr s3))))"

definition mam_processStop :: "'f mam_node \<Rightarrow> 'f mam_node" where
  "mam_processStop s = mam_act [SocketClose] s"

definition mam_handleStartOperation :: "'f mam_kernel \<Rightarrow> 'f mam_step" where
  "mam_handleStartOperation K s =
     (let start = max (startTime s) (op_now K s)
      in if stopTime s < 0 \<or> start < stopTime s \<or> (start = stopTime s \<and> startTime s = stopTime s)
         then op_scheduleAt K start (AppTimer SelfMsg) (s\<lparr>selfKind := START\<rparr>)
         else Inr s)"

definition mam_handleStopOperation :: "'f mam_kernel \<Rightarrow> mam_env \<Rightarrow> 'f mam_step" where
  "mam_handleStopOperation K E s =
     delayActiveOperationFinish K (par_stopOperationTimeout E)
       (mam_act [SocketClose] (op_cancelEvent K (AppTimer SelfMsg) s))"

definition mam_handleCrashOperation :: "'f mam_kernel \<Rightarrow> 'f mam_step" where
  "mam_handleCrashOperation K s =
     Inr (mam_act [SocketDestroy] (op_cancelEvent K (AppTimer SelfMsg) s))"

section \<open>Socket callbacks and dispatch\<close>

definition mam_processPacket :: "'f mam_node \<Rightarrow> 'f mam_node" where
  "mam_processPacket s = (mam_act [EmitPacket ''packetReceived''] s)\<lparr>numReceived := Suc (numReceived s)\<rparr>"

definition mam_socketClosed :: "'f mam_kernel \<Rightarrow> mam_env \<Rightarrow> 'f mam_step" where
  "mam_socketClosed K E s =
     res_bind (if operationalState s = STOPPING_OPERATION
               then startActiveOperationExtraTimeOrFinish K (par_stopOperationExtraTime E) s
               else Inr s) (\<lambda>s1. Inr (s1\<lparr>mobileSink := l3_empty\<rparr>))"

definition mam_handlePacket ::
    "'f mam_kernel \<Rightarrow> mam_env \<Rightarrow> arriving_packet \<Rightarrow> 'f mam_step" where
  "mam_handlePacket K E packet s =
     (case ap_src packet of
        None \<Rightarrow> Inl (RuntimeError ''Tag L3AddressInd is absent'')
      | Some srcAddr \<Rightarrow>
          res_bind (l3_str (e_str E) srcAddr) (\<lambda>srcStr.
          let name = ap_name packet
          in if srcStr = ''127.0.0.1'' then Inr s
             else if name = FOUND_MOBILE_SINK then
               res_bind (deref_bmesh packet) (\<lambda>b. processFoundMobileSink K E srcAddr (bm_hops b) s)
             else if name = DISCONNECTED_MOBILE_SINK then processDisconnected K srcAddr s
             else if name = MAMCDISCOVERY then processDiscovery K E srcAddr s
             else if name = DATA_SEND then processDataSend K E packet srcAddr s
             else if name = FRIEND_REQUEST then processFriendRequest K srcAddr s
             else if name = FRIEND_OFFER then processFriendOffer K srcAddr s
             else if name = FRIEND_POLL then processFriendPoll K E srcAddr s
             else if name = FRIEND_UPDATE then processFriendUpdate K E srcAddr s
             else socket_processMessage (\<lambda>pk s. Inr (mam_processPacket s)) Inr (mam_socketClosed K E)
                    (PacketMessage packet) s))"

definition mam_handleMessageWhenUp ::
    "'f mam_kernel \<Rightarrow> mam_env \<Rightarrow> (mam_timer, udp_message) app_event \<Rightarrow> 'f mam_step" where
  "mam_handleMessageWhenUp K E ev s =
     (case ev of
        SelfMessage PollTimer \<Rightarrow>
          res_bind (sendFriendPoll K s) (\<lambda>s1.
          op_scheduleAt K (poll_time K E s1) (AppTimer PollTimer) s1)
      | SelfMessage SelfMsg \<Rightarrow>
          (case selfKind s of
             START \<Rightarrow> mam_processStart K E s
           | SEND_MY_DATA \<Rightarrow> Inr (processSendMyData K E s)
           | STOP \<Rightarrow> Inr (mam_processStop s)
           | NO_KIND \<Rightarrow> Inl (RuntimeError ''Invalid kind in self message''))
      | Arrival (IndicationMessage k b) \<Rightarrow> Inl (RuntimeError ''check_and_cast'')
      | Arrival (PacketMessage packet) \<Rightarrow> mam_handlePacket K E packet s)"

section \<open>Initialisation and results\<close>

datatype init_stage = INITSTAGE_LOCAL | INITSTAGE_APPLICATION_LAYER | OtherStage nat

definition mam_initialize_local :: "mam_env \<Rightarrow> 'f mam_step" where
  "mam_initialize_local E s0 =
     (let s1 = s0\<lparr>numSent := 0, numReceived := 0, numDataSent := 0, numDataResent := 0,
                  numDataAckReceived := 0, mobileSink := l3_empty, scheduledSendData := False,
                  localPort := par_localPort E, destPort := par_destPort E,
                  startTime := par_startTime E, stopTime := par_stopTime E,
                  dontFragment := par_dontFragment E, relayNode := par_relayNode E\<rparr>
      in res_bind (if par_relayMode E = ''BMesh'' then Inr (s1\<lparr>mamRelay := False\<rparr>)
                   else if par_relayMode E = ''MAM'' then Inr (s1\<lparr>mamRelay := True\<rparr>)
                   else Inl (RuntimeError ''Invalid relay mode'')) (\<lambda>s2.
         let s3 = s2\<lparr>delta := par_delta E, lowPowerNode := par_lowPowerNode E,
                     friendNode := par_friendNode E, connectedFriendNode := l3_empty,
                     friendshipEstablished := False, lowPowerNodes := [], dataSendSequence := 0,
                     uniqueDataSenders := []\<rparr>
         in case generate_hex E 32 s3 of (h, s4) \<Rightarrow>
            let s5 = s4\<lparr>nodeUuid := e_fullPath E @ h\<rparr>
            in if 0 \<le> stopTime s5 \<and> stopTime s5 < startTime s5
               then Inl (RuntimeError ''Invalid startTime/stopTime parameters'')
               else Inr (s5\<lparr>selfKind := NO_KIND\<rparr>)))"

definition mam_initialize :: "'f mam_kernel \<Rightarrow> mam_env \<Rightarrow> init_stage \<Rightarrow> 'f mam_step" where
  "mam_initialize K E stage s =
     (case stage of
        INITSTAGE_LOCAL \<Rightarrow> mam_initialize_local E s
      | INITSTAGE_APPLICATION_LAYER \<Rightarrow>
          op_initialize K (mam_handleStartOperation K) (e_nodeStatus E) s
      | OtherStage n \<Rightarrow> Inr s)"

definition mam_finish :: "'f mam_node \<Rightarrow> 'f mam_node" where
  "mam_finish s = mam_act
     ([RecordScalar ''packets sent'' (int (numSent s)),
       RecordScalar ''packets received'' (int (numReceived s)),
       RecordScalar ''data packets sent'' (int (numDataSent s)),
       RecordScalar ''data packets resent'' (int (numDataResent s)),
       RecordScalar ''ack packets received'' (int (numDataAckReceived s)),
       RecordScalar ''my data sent'' (int (length (uniqueSentPacketUUIDs s)))] @
      map (\<lambda>p. RecordScalar p 1) (uuid_pages ''generated packet uuids-part'' (uniqueSentPacketUUIDs s))) s"

section \<open>The module as its container runs it\<close>

datatype mam_input =
    Deliver "(mam_timer, udp_message) op_event"
  | Lifecycle lifecycle_operation
  | Pass simtime

definition mam_input_step :: "'f mam_kernel \<Rightarrow> mam_env \<Rightarrow> 'f mam_node \<Rightarrow> mam_input \<Rightarrow> 'f mam_node res" where
  "mam_input_step K E s i =
     (case i of
        Deliver ev \<Rightarrow> op_deliver K (mam_handleCrashOperation K) (mam_handleMessageWhenUp K E) ev s
      | Lifecycle op \<Rightarrow>
          res_bind (handleOperationStage K (mam_handleStartOperation K) (mam_handleStopOperation K E)
                      (mam_handleCrashOperation K) op True s) (\<lambda>(fin, s'). Inr s')
      | Pass d \<Rightarrow> Inr (s\<lparr>fes := k_advance K d (fes s)\<rparr>))"

definition mam_start :: "'f mam_kernel \<Rightarrow> mam_env \<Rightarrow> 'f \<Rightarrow> int \<Rightarrow> 'f mam_node res" where
  "mam_start K E f hops =
     res_bind (mam_initialize K E INITSTAGE_LOCAL (mam_new f hops))
       (mam_initialize K E INITSTAGE_APPLICATION_LAYER)"

end
