(* ===== verification/MamNodeProofs.thy ===== *)
theory MamNodeProofs
  imports MamNode
begin

text \<open>
  What holds of the node application of \<open>MamNode\<close>.
\<close>

section \<open>What a packet can change\<close>

text \<open>The parts of the state a packet leaves as they are.\<close>

definition mam_frame :: "'f mam_node \<Rightarrow> 'f mam_node \<Rightarrow> bool" where
  "mam_frame s s' \<longleftrightarrow>
     relayNode s' = relayNode s \<and> friendNode s' = friendNode s \<and> lowPowerNode s' = lowPowerNode s \<and>
     mamRelay s' = mamRelay s \<and> startTime s' = startTime s \<and> stopTime s' = stopTime s \<and>
     pollIntervalMs s' = pollIntervalMs s \<and> delta s' = delta s \<and>
     operationalState s' = operationalState s \<and> activeOperation s' = activeOperation s \<and>
     endState s' = endState s \<and> isDelayedFinish s' = isDelayedFinish s \<and>
     uniqueSentPacketUUIDs s' = uniqueSentPacketUUIDs s \<and> dataSendSequence s' = dataSendSequence s"

text \<open>Every friend queue is at least as long as before.\<close>

definition queues_grow :: "'f mam_node \<Rightarrow> 'f mam_node \<Rightarrow> bool" where
  "queues_grow s s' \<longleftrightarrow>
     (\<forall>k q. map_of (lowPowerNodes s) k = Some q \<longrightarrow>
        (\<exists>q'. map_of (lowPowerNodes s') k = Some q' \<and> length q \<le> length q'))"

text \<open>Once a packet of the node's own is scheduled, the step leaves the timer alone.\<close>

definition send_frozen :: "'f mam_kernel \<Rightarrow> 'f mam_node \<Rightarrow> 'f mam_node \<Rightarrow> bool" where
  "send_frozen K s s' \<longleftrightarrow>
     (scheduledSendData s \<longrightarrow>
        scheduledSendData s' \<and> selfKind s' = selfKind s \<and>
        k_pending K (fes s') (AppTimer SelfMsg) = k_pending K (fes s) (AppTimer SelfMsg))"

text \<open>The cache gets at most one new entry, for a key it does not have at this time.\<close>

definition cache_step :: "int \<Rightarrow> 'f mam_node \<Rightarrow> 'f mam_node \<Rightarrow> bool" where
  "cache_step ms s s' \<longleftrightarrow>
     dataSendCache s' = dataSendCache s \<or>
     (\<exists>k. lru_exists (dataSendCache s) k ms = Inr False \<and>
          dataSendCache s' = lru_put (dataSendCache s) k 1 (ms + 1000))"

text \<open>The data packets with identifier \<open>u\<close> among the calls of a log.\<close>

fun relays_uuid :: "string \<Rightarrow> app_action \<Rightarrow> bool" where
  "relays_uuid u (SendTo p d n) \<longleftrightarrow> up_name p = DATA_SEND \<and> bm_packetUuid (up_payload p) = u"
| "relays_uuid u _ \<longleftrightarrow> False"

definition relay_count :: "string \<Rightarrow> 'f mam_node \<Rightarrow> nat" where
  "relay_count u s = length (filter (relays_uuid u) (mam_log s))"

named_theorems mam_rel "the relations between the states before and after a step"

lemmas [mam_rel] = mam_frame_def queues_grow_def send_frozen_def cache_step_def relay_count_def

lemma packet_names [simp]:
  "DISCONNECTED_MOBILE_SINK \<noteq> DATA_SEND" "FOUND_MOBILE_SINK \<noteq> DATA_SEND"
  "FRIEND_REQUEST \<noteq> DATA_SEND" "FRIEND_OFFER \<noteq> DATA_SEND" "FRIEND_POLL \<noteq> DATA_SEND"
  "FRIEND_UPDATE \<noteq> DATA_SEND"
  by simp_all

lemma sendSimpleMessage_inr:
  "sendSimpleMessage K msg dest hops s = Inr s' \<longleftrightarrow>
     0 \<le> hops \<and>
     s' = mam_act [EmitPacket ''packetSent'',
       SendTo \<lparr>up_name = msg, up_dontFragment = dontFragment s,
         up_payload = bmesh_new\<lparr>bm_chunkLength := 1, bm_hops := hops,
           bm_creationTag := Some (op_now K s), bm_creationTime := op_now K s\<rparr>\<rparr>
         dest (destPort s)] s"
  by (auto simp: sendSimpleMessage_def res_inr Let_def)

lemma broadcastSimpleMessage_inr:
  "broadcastSimpleMessage_hops K msg hops s = sendSimpleMessage K msg broadcast_addr hops s"
  by (auto simp: broadcastSimpleMessage_hops_def sendSimpleMessage_def check_that_def)

lemmas mam_send_inr = sendSimpleMessage_inr broadcastSimpleMessage_inr broadcastSimpleMessage_def
  sendFriendRequest_def sendFriendEstablishedInternalMessage_def sendFriendPoll_def
  mam_send_small_def sendData_def Let_def res_inr

lemma map_of_push_dummies:
  "map_of (lowPowerNodes (push_dummies s)) k = map_option (\<lambda>q. q @ [()]) (map_of (lowPowerNodes s) k)"
  by (simp add: push_dummies_def map_of_map)

lemma sendMyDataToSink_cases:
  assumes "sendMyDataToSink K E s = Inr s'"
  obtains "s' = s"
  | f where "\<not> scheduledSendData s"
      and "sim_scheduleAt K (max (lastSensorDataSent s + 100 * e_ms E) (op_now K s + e_ms E))
             (AppTimer SelfMsg) (k_cancel K (AppTimer SelfMsg) (fes s)) = Inr f"
      and "s' = s\<lparr>scheduledSendData := True, selfKind := SEND_MY_DATA, fes := f\<rparr>"
proof (cases "scheduledSendData s \<or> (l3_is_empty (mobileSink s) \<and> mamRelay s)")
  case True
  then have "sendMyDataToSink K E s = Inr s" by (auto simp: sendMyDataToSink_def)
  with assms show ?thesis by (intro that(1)) simp
next
  case False
  let ?r = "sim_scheduleAt K (max (lastSensorDataSent s + 100 * e_ms E) (op_now K s + e_ms E))
      (AppTimer SelfMsg) (k_cancel K (AppTimer SelfMsg) (fes s))"
  from False have "sendMyDataToSink K E s =
      res_bind ?r (\<lambda>f. Inr (s\<lparr>scheduledSendData := True, selfKind := SEND_MY_DATA, fes := f\<rparr>))"
    by (simp add: sendMyDataToSink_def Let_def op_cancelEvent_def op_scheduleAt_def op_now_def)
  with assms obtain f where "?r = Inr f"
      "s' = s\<lparr>scheduledSendData := True, selfKind := SEND_MY_DATA, fes := f\<rparr>"
    by (cases ?r) simp_all
  with False show ?thesis by (intro that(2)) simp_all
qed

lemma queues_grow_refl: "queues_grow s s"
  by (simp add: queues_grow_def)

lemma queues_grow_trans: "queues_grow s t \<Longrightarrow> queues_grow t u \<Longrightarrow> queues_grow s u"
  unfolding queues_grow_def by (meson order_trans)

lemma send_frozen_trans: "send_frozen K s t \<Longrightarrow> send_frozen K t u \<Longrightarrow> send_frozen K s u"
  by (simp add: send_frozen_def)

lemma queues_grow_same: "lowPowerNodes s' = lowPowerNodes s \<Longrightarrow> queues_grow s s'"
  by (simp add: queues_grow_def)

text \<open>A step that neither relays a data packet nor touches the cache.\<close>

definition mam_still :: "'f mam_kernel \<Rightarrow> 'f mam_node \<Rightarrow> 'f mam_node \<Rightarrow> bool" where
  "mam_still K s s' \<longleftrightarrow> mam_frame s s' \<and> queues_grow s s' \<and> send_frozen K s s' \<and> op_now K s' = op_now K s \<and>
     (\<forall>u. relay_count u s' = relay_count u s) \<and> dataSendCache s' = dataSendCache s"

text \<open>What any packet does: the cache is updated, and a relay of \<open>u\<close> needs a cache without \<open>u\<close>.\<close>

definition mam_change :: "'f mam_kernel \<Rightarrow> mam_env \<Rightarrow> 'f mam_node \<Rightarrow> 'f mam_node \<Rightarrow> bool" where
  "mam_change K E s s' \<longleftrightarrow> mam_frame s s' \<and> queues_grow s s' \<and> send_frozen K s s' \<and> op_now K s' = op_now K s \<and>
     cache_step (e_clock E (op_now K s)) s s' \<and>
     (\<forall>u. relay_count u s' = relay_count u s \<or>
          relay_count u s' = Suc (relay_count u s) \<and>
          lru_exists (dataSendCache s) u (e_clock E (op_now K s)) = Inr False \<and>
          dataSendCache s' = lru_put (dataSendCache s) u 1 (e_clock E (op_now K s) + 1000))"

lemma mam_still_refl [simp]: "mam_still K s s"
  by (simp add: mam_still_def mam_frame_def queues_grow_refl send_frozen_def)

lemma mam_frame_trans: "mam_frame s t \<Longrightarrow> mam_frame t r \<Longrightarrow> mam_frame s r"
  by (simp add: mam_frame_def)

lemma mam_still_trans [trans]: "mam_still K s t \<Longrightarrow> mam_still K t r \<Longrightarrow> mam_still K s r"
  unfolding mam_still_def by (auto elim: mam_frame_trans queues_grow_trans send_frozen_trans)

lemma mam_still_change: "mam_still K s s' \<Longrightarrow> mam_change K E s s'"
  by (simp add: mam_still_def mam_change_def cache_step_def)

lemma mam_still_change_trans: "mam_still K s t \<Longrightarrow> mam_change K E t r \<Longrightarrow> mam_change K E s r"
  unfolding mam_still_def mam_change_def cache_step_def
  by (auto elim: mam_frame_trans queues_grow_trans send_frozen_trans)

lemma update_route_still: "mam_still K s (update_route K E src hops s)"
  by (simp add: update_route_def mam_still_def mam_rel op_now_def)

lemma feed_friends_still: "mam_still K s (feed_friends s)"
  by (simp add: feed_friends_def mam_still_def mam_rel op_now_def push_dummies_def map_of_map)

lemma send_still:
  "sendSimpleMessage K msg dest hops s = Inr s' \<Longrightarrow> msg \<noteq> DATA_SEND \<Longrightarrow> mam_still K s s'"
  by (simp add: sendSimpleMessage_inr mam_still_def mam_rel op_now_def mam_act_def)

lemma broadcast_still:
  "broadcastSimpleMessage K msg s = Inr s' \<Longrightarrow> msg \<noteq> DATA_SEND \<Longrightarrow> mam_still K s s'"
  by (rule send_still) (simp_all add: broadcastSimpleMessage_def broadcastSimpleMessage_inr)

lemma small_still:
  "name \<noteq> DATA_SEND \<Longrightarrow> mam_still K s (mam_send_small K name dest s)"
  by (simp add: mam_send_small_def Let_def mam_still_def mam_rel op_now_def mam_act_def)

lemma sendFriendPoll_still: "sendFriendPoll K s = Inr s' \<Longrightarrow> mam_still K s s'"
  by (auto simp: sendFriendPoll_def res_inr intro!: small_still)

section \<open>The module and its surroundings\<close>

text \<open>
  The documented behaviour of the kernel, a positive length of a millisecond, a clock that does not run
  backwards, and times that are not negative.
\<close>

locale mam_module = sim_kernel_laws K for K :: "('f, mam_timer) op_kernel" +
  fixes E :: mam_env
  assumes ms_pos: "0 < e_ms E"
    and clock_mono: "a \<le> b \<Longrightarrow> e_clock E a \<le> e_clock E b"
    and timeout_pos: "0 \<le> par_stopOperationTimeout E"
begin

lemma op_scheduleAt_still:
  assumes "op_scheduleAt K t x s = Inr s'" and "x \<noteq> AppTimer SelfMsg"
  shows "mam_still K s s'"
proof -
  from assms(1) obtain f where "sim_scheduleAt K t x (fes s) = Inr f" "s' = s\<lparr>fes := f\<rparr>"
    by (auto simp: op_scheduleAt_def res_inr)
  with scheduleAt_Inr(3,4)[of t x "fes s" f] assms(2) show ?thesis
    by (simp add: mam_still_def mam_rel op_now_def)
qed

lemma sendMyDataToSink_still:
  assumes "sendMyDataToSink K E s = Inr s'"
  shows "mam_still K s s'"
  using assms
proof (cases rule: sendMyDataToSink_cases)
  case 1
  then show ?thesis by simp
next
  case (2 f)
  then show ?thesis
    using scheduleAt_Inr(4)[OF 2(2)] by (simp add: mam_still_def mam_rel op_now_def kernel_now)
qed

lemma relay_found_change:
  assumes "relay_found K E src hops s = Inr s'"
  shows "mam_change K E s s'"
proof (cases "relayNode s \<and> \<not> mamRelay s \<and> 0 < hops")
  case True
  let ?ms = "e_clock E (op_now K s)"
  from True assms obtain key inCache where key: "lru_exists (dataSendCache s) key ?ms = Inr inCache"
      "(if \<not> inCache then broadcastSimpleMessage_hops K FOUND_MOBILE_SINK hops
          (s\<lparr>dataSendCache := lru_put (dataSendCache s) key 1 (?ms + 1000)\<rparr>) else Inr s) = Inr s'"
    by (auto simp: relay_found_def res_inr Let_def)
  show ?thesis
  proof (cases inCache)
    case False
    with key(2) have "mam_still K (s\<lparr>dataSendCache := lru_put (dataSendCache s) key 1 (?ms + 1000)\<rparr>) s'"
      by (auto simp: broadcastSimpleMessage_inr intro: send_still)
    then show ?thesis using key(1) False
      by (auto simp: mam_still_def mam_change_def cache_step_def mam_frame_def queues_grow_def
          send_frozen_def relay_count_def op_now_def)
  qed (use key(2) in \<open>simp add: mam_still_change\<close>)
next
  case False
  with assms have "s' = s \<or> (\<exists>t. broadcastSimpleMessage K FOUND_MOBILE_SINK
      (s\<lparr>lastFoundSinkSent := t\<rparr>) = Inr s')"
    by (auto simp: relay_found_def split: if_splits)
  moreover have "mam_still K s (s\<lparr>lastFoundSinkSent := t\<rparr>)" for t
    by (simp add: mam_still_def mam_rel op_now_def)
  ultimately show ?thesis
    by (auto intro!: mam_still_change dest!: broadcast_still intro: mam_still_trans)
qed

lemma processFoundMobileSink_change:
  assumes "processFoundMobileSink K E src hops s = Inr s'"
  shows "mam_change K E s s'"
proof -
  from assms obtain s1 where s1: "sendMyDataToSink K E (update_route K E src hops s) = Inr s1"
      "relay_found K E src hops (feed_friends s1) = Inr s'"
    by (auto simp: processFoundMobileSink_def res_inr)
  have "mam_still K s (feed_friends s1)"
    using update_route_still sendMyDataToSink_still[OF s1(1)] feed_friends_still
    by (blast intro: mam_still_trans)
  then show ?thesis using relay_found_change[OF s1(2)] by (rule mam_still_change_trans)
qed

lemma announce_still:
  assumes "(if relayNode t then broadcastSimpleMessage K msg t else Inr t) = Inr r" and "msg \<noteq> DATA_SEND"
  shows "mam_still K t (feed_friends r)"
proof -
  have "mam_still K t r" using assms by (cases "relayNode t") (auto intro: broadcast_still)
  then show ?thesis using feed_friends_still by (rule mam_still_trans)
qed

lemma processDiscovery_still:
  assumes "processDiscovery K E src s = Inr s'"
  shows "mam_still K s s'"
proof -
  let ?s1 = "s\<lparr>mobileSink := src, sinkHops := 128,
      sinkBestRouteExpiry := op_now K s + 20000 * e_ms E\<rparr>"
  from assms obtain r where "(if relayNode ?s1 then broadcastSimpleMessage K FOUND_MOBILE_SINK ?s1
      else Inr ?s1) = Inr r" "s' = feed_friends r"
    unfolding processDiscovery_def Let_def res_inr by blast
  then have "mam_still K ?s1 s'" by (auto intro: announce_still)
  moreover have "mam_still K s ?s1" by (simp add: mam_still_def mam_rel op_now_def)
  ultimately show ?thesis by (blast intro: mam_still_trans)
qed

lemma processDisconnected_still:
  assumes "processDisconnected K src s = Inr s'"
  shows "mam_still K s s'"
proof -
  from assms obtain same r where r: "(let s1 = (if same then s\<lparr>mobileSink := l3_empty\<rparr> else s)
      in if relayNode s1 then broadcastSimpleMessage K DISCONNECTED_MOBILE_SINK s1 else Inr s1) = Inr r"
      "s' = feed_friends r"
    unfolding processDisconnected_def Let_def res_inr by blast
  define t where "t = (if same then s\<lparr>mobileSink := l3_empty\<rparr> else s)"
  have "mam_still K s t" by (simp add: t_def mam_still_def mam_rel op_now_def)
  moreover have "mam_still K t s'"
    using r unfolding Let_def t_def[symmetric] by (auto intro: announce_still)
  ultimately show ?thesis by (rule mam_still_trans)
qed

lemma processDataSend_change:
  assumes "processDataSend K E packet src s = Inr s'"
  shows "mam_change K E s s'"
proof -
  let ?ms = "e_clock E (op_now K s)"
  consider "\<not> relayNode s" | "relayNode s" "mamRelay s \<and> l3_is_empty (mobileSink s)"
    | "relayNode s" "\<not> (mamRelay s \<and> l3_is_empty (mobileSink s))" by blast
  then show ?thesis
  proof cases
    case 1
    with assms show ?thesis by (simp add: processDataSend_def mam_still_change)
  next
    case 2
    with assms have "sendSimpleMessage K DISCONNECTED_MOBILE_SINK src 127 s = Inr s'"
      by (simp add: processDataSend_def)
    from send_still[OF this packet_names(1)] show ?thesis by (rule mam_still_change)
  next
    case 3
    with assms obtain b inCache where
      b: "lru_exists (dataSendCache s) (bm_packetUuid b) ?ms = Inr inCache"
      and s': "s' = (if \<not> inCache
         then let s1 = s\<lparr>dataSendCache := lru_put (dataSendCache s) (bm_packetUuid b) 1 (?ms + 1000),
                    uniqueDataSenders := sset_insert (bm_srcUuid b) (uniqueDataSenders s)\<rparr>
              in if mamRelay s1 then sendData b (mobileSink s1) s1 else sendData b broadcast_addr s1
         else s)"
      unfolding processDataSend_def Let_def res_inr by (auto simp: res_inr split: if_splits)
    show ?thesis
    proof (cases inCache)
      case False
      with b s' show ?thesis
        by (auto simp: sendData_def Let_def mam_act_def mam_change_def mam_rel op_now_def)
    qed (simp add: s' mam_still_change)
  qed
qed

lemma processFriendPoll_still:
  assumes "processFriendPoll K E src s = Inr s'"
  shows "mam_still K s s'"
proof -
  from assms obtain key where "l3_str (e_str E) src = Inr key"
    and s': "(case map_of (lowPowerNodes s) key of
          None \<Rightarrow> sendSimpleMessage K FRIEND_UPDATE src 1
                    (s\<lparr>lowPowerNodes := AList.update key [] (lowPowerNodes s)\<rparr>)
        | Some q \<Rightarrow> (if q \<noteq> [] then sendSimpleMessage K FRIEND_UPDATE src 1 s else Inr s)) = Inr s'"
    by (auto simp: processFriendPoll_def res_inr)
  show ?thesis
  proof (cases "map_of (lowPowerNodes s) key")
    case None
    then have "mam_still K s (s\<lparr>lowPowerNodes := AList.update key [] (lowPowerNodes s)\<rparr>)"
      by (auto simp: mam_still_def mam_frame_def queues_grow_def send_frozen_def relay_count_def op_now_def update_conv')
    with None s' show ?thesis by (auto dest: send_still intro: mam_still_trans)
  qed (use s' in \<open>auto dest: send_still split: if_splits\<close>)
qed

lemma processFriendOffer_still:
  assumes "processFriendOffer K src s = Inr s'"
  shows "mam_still K s s'"
proof -
  have "mam_still K s (s\<lparr>connectedFriendNode := src\<rparr>)" by (simp add: mam_still_def mam_rel op_now_def)
  with assms show ?thesis
    by (auto simp: processFriendOffer_def res_inr split: if_splits
        dest: sendFriendPoll_still intro: mam_still_trans)
qed

lemma processFriendUpdate_change:
  assumes "processFriendUpdate K E src s = Inr s'"
  shows "mam_change K E s s'"
proof (cases "friendshipEstablished s")
  case True
  with assms show ?thesis
    by (auto simp: processFriendUpdate_def res_inr intro: processFoundMobileSink_change)
next
  case False
  with assms obtain s1 s2 where
    s1: "sendFriendEstablishedInternalMessage K (s\<lparr>friendshipEstablished := True\<rparr>) = Inr s1"
    and s2: "op_scheduleAt K (poll_time K E s1) (AppTimer PollTimer) s1 = Inr s2"
    and s': "sendFriendPoll K s2 = Inr s'"
    by (auto simp: processFriendUpdate_def res_inr)
  have "mam_still K s (s\<lparr>friendshipEstablished := True\<rparr>)"
    by (simp add: mam_still_def mam_rel op_now_def)
  also from s1 have "mam_still K (s\<lparr>friendshipEstablished := True\<rparr>) s1"
    by (auto simp: sendFriendEstablishedInternalMessage_def res_inr intro!: small_still)
  also note op_scheduleAt_still[OF s2, simplified]
  also note sendFriendPoll_still[OF s']
  finally show ?thesis by (rule mam_still_change)
qed

lemma mam_processPacket_still: "mam_still K s (mam_processPacket s)"
  by (simp add: mam_processPacket_def mam_act_def mam_still_def mam_rel op_now_def)

text \<open>Any packet, whatever its name.\<close>

lemma mam_handlePacket_change:
  assumes "mam_handlePacket K E packet s = Inr s'"
  shows "mam_change K E s s'"
proof -
  from assms obtain src srcStr where "ap_src packet = Some src" "l3_str (e_str E) src = Inr srcStr"
    by (auto simp: mam_handlePacket_def res_inr split: option.splits)
  with assms show ?thesis
    by (auto simp: mam_handlePacket_def res_inr Let_def processFriendRequest_def
        socket_processMessage_def split: if_splits udp_kind.splits
        intro: processFoundMobileSink_change mam_still_change processDisconnected_still
          processDiscovery_still processDataSend_change send_still processFriendOffer_still
          processFriendPoll_still processFriendUpdate_change mam_processPacket_still)
qed

end

section \<open>No data packet is relayed twice within a second\<close>

text \<open>A packet arrives after the time \<open>d\<close>.\<close>

definition mam_receive ::
    "'f mam_kernel \<Rightarrow> mam_env \<Rightarrow> 'f mam_node \<Rightarrow> simtime \<times> arriving_packet \<Rightarrow> 'f mam_node res" where
  "mam_receive K E s = (\<lambda>(d, pk). mam_handlePacket K E pk (s\<lparr>fes := k_advance K d (fes s)\<rparr>))"

definition mam_cached :: "string \<Rightarrow> int \<Rightarrow> nat \<Rightarrow> 'f mam_node \<Rightarrow> bool" where
  "mam_cached u e n s \<longleftrightarrow> lru_inv (dataSendCache s) \<and>
     (\<exists>r. lru_rank (dataSendCache s) u = Some (r, e) \<and> r + n < cache_max_size (dataSendCache s))"

lemma mam_cached_put:
  assumes "lru_inv (dataSendCache s)" and "n < cache_max_size (dataSendCache s)"
    and "dataSendCache s' = lru_put (dataSendCache s) u v e"
  shows "mam_cached u e n s'"
proof -
  have "lru_rank (dataSendCache s') u = Some (0, e)"
    using lru.entry_put_same[OF assms(1), of u v e] assms(2,3) by simp
  moreover have "lru_inv (dataSendCache s')" using lru.put_invar[OF assms(1)] assms(3) by simp
  ultimately show ?thesis using assms(2,3) by (simp add: mam_cached_def)
qed

lemma mam_cached_step:
  assumes c: "mam_cached u e (Suc n) s" and "ms < e" and step: "cache_step ms s s'"
  shows "mam_cached u e n s'"
proof -
  from c obtain r where r: "lru_inv (dataSendCache s)" "lru_rank (dataSendCache s) u = Some (r, e)"
      "r + Suc n < cache_max_size (dataSendCache s)"
    unfolding mam_cached_def by blast
  from step consider "dataSendCache s' = dataSendCache s"
    | k where "lru_exists (dataSendCache s) k ms = Inr False"
        "dataSendCache s' = lru_put (dataSendCache s) k 1 (ms + 1000)"
    unfolding cache_step_def by blast
  then show ?thesis
  proof cases
    case 1
    with r show ?thesis by (auto simp: mam_cached_def)
  next
    case 2
    have "lru_exists (dataSendCache s) u ms = Inr True"
      using lru.exists_entry[OF r(1), of u ms] r(2) assms(2) by simp
    with 2 have "u \<noteq> k" by auto
    from lru.entry_put_other[OF r(1) this r(2)] r(3) 2(2)
    obtain r' where "r' \<le> Suc r" "lru_rank (dataSendCache s') u = Some (r', e)" by auto
    moreover have "lru_inv (dataSendCache s')" using lru.put_invar[OF r(1)] 2(2) by simp
    ultimately show ?thesis using r(3) 2(2) by (auto simp: mam_cached_def)
  qed
qed

context mam_module
begin

lemma mam_receive_change:
  assumes "mam_receive K E s (d, pk) = Inr s'"
  obtains t where "mam_change K E t s'" and "dataSendCache t = dataSendCache s"
    and "\<And>u. relay_count u t = relay_count u s" and "op_now K s \<le> op_now K t"
proof
  let ?t = "s\<lparr>fes := k_advance K d (fes s)\<rparr>"
  show "mam_change K E ?t s'" using assms by (simp add: mam_receive_def mam_handlePacket_change)
  show "dataSendCache ?t = dataSendCache s" "\<And>u. relay_count u ?t = relay_count u s"
    by (simp_all add: relay_count_def)
  show "op_now K s \<le> op_now K ?t" by (simp add: op_now_def kernel_now)
qed

lemma mam_receive_now:
  assumes "res_run (mam_receive K E) s evs = Inr s'"
  shows "op_now K s \<le> op_now K s'"
proof (rule res_run_invariant[where I = "\<lambda>t. op_now K s \<le> op_now K t", OF _ _ assms])
  fix t ev t'
  assume "op_now K s \<le> op_now K t" "mam_receive K E t ev = Inr t'"
  then show "op_now K s \<le> op_now K t'"
    by (cases ev) (auto elim!: mam_receive_change simp: mam_change_def)
qed simp

lemma no_second_relay:
  assumes "mam_cached u e (length evs) s" and "res_run (mam_receive K E) s evs = Inr s'"
    and "e_clock E (op_now K s') < e"
  shows "relay_count u s' = relay_count u s"
  using assms
proof (induction evs arbitrary: s)
  case Nil
  then show ?case by simp
next
  case (Cons ev evs)
  obtain d pk where ev: "ev = (d, pk)" by (cases ev)
  from Cons.prems(2) obtain s1 where s1: "mam_receive K E s (d, pk) = Inr s1"
      "res_run (mam_receive K E) s1 evs = Inr s'"
    by (auto simp: res_inr ev)
  from mam_receive_change[OF s1(1)] obtain t where t: "mam_change K E t s1"
    "dataSendCache t = dataSendCache s" "\<And>u. relay_count u t = relay_count u s" by metis
  have now: "op_now K t \<le> op_now K s'"
    using t(1) mam_receive_now[OF s1(2)] by (simp add: mam_change_def)
  from clock_mono[OF now] Cons.prems(3) have early: "e_clock E (op_now K t) < e" by simp
  have cached: "mam_cached u e (Suc (length evs)) t"
    using Cons.prems(1) t(2) by (simp add: mam_cached_def)
  then have "lru_exists (dataSendCache t) u (e_clock E (op_now K t)) = Inr True"
    using lru.exists_entry[of "dataSendCache t" u "e_clock E (op_now K t)"] early
    by (auto simp: mam_cached_def)
  with t(1,3) have same: "relay_count u s1 = relay_count u s" unfolding mam_change_def by fastforce
  from t(1) have "cache_step (e_clock E (op_now K t)) t s1" by (simp add: mam_change_def)
  from mam_cached_step[OF cached early this] have "mam_cached u e (length evs) s1" .
  from Cons.IH[OF this s1(2) Cons.prems(3)] same show ?case by simp
qed

lemma relayed_once:
  assumes inv: "lru_inv (dataSendCache s)" "cache_max_size (dataSendCache s) = 100"
    and first: "mam_receive K E s ev = Inr s1" "relay_count u s1 \<noteq> relay_count u s"
    and rest: "res_run (mam_receive K E) s1 evs = Inr s2" "length evs < 100"
      "e_clock E (op_now K s2) < e_clock E (op_now K s1) + 1000"
  shows "relay_count u s2 = Suc (relay_count u s)"
proof -
  obtain d pk where ev: "ev = (d, pk)" by (cases ev)
  from mam_receive_change[OF first(1)[unfolded ev]] obtain t where t: "mam_change K E t s1"
    "dataSendCache t = dataSendCache s" "\<And>u. relay_count u t = relay_count u s" by metis
  from t first(2) have "relay_count u s1 = Suc (relay_count u s)"
      "dataSendCache s1 = lru_put (dataSendCache s) u 1 (e_clock E (op_now K s1) + 1000)"
    unfolding mam_change_def by fastforce+
  with no_second_relay[OF mam_cached_put[OF inv(1)] rest(1)] rest(2,3) inv(2)
  show ?thesis by simp
qed

end

end
