(* ===== verification/MamNodeSafety.thy ===== *)
theory MamNodeSafety
  imports MamNodeProofs
begin

text \<open>
  A node without the low power feature never fails: from its start on, whatever well-formed packets,
  timers, pauses and lifecycle operations it sees, every input is handled without an error of the
  simulation, an assertion or undefined behaviour.
\<close>

section \<open>Well-formed inputs\<close>

definition ok_addr :: "l3address \<Rightarrow> bool" where
  "ok_addr a \<longleftrightarrow> (\<exists>i. a = l3_of_ipv4 i)"

definition ok_packet :: "bool \<Rightarrow> arriving_packet \<Rightarrow> bool" where
  "ok_packet friend pk \<longleftrightarrow>
     (case ap_src pk of None \<Rightarrow> False | Some a \<Rightarrow> ok_addr a) \<and>
     (ap_name pk \<in> {FOUND_MOBILE_SINK, DATA_SEND} \<longrightarrow> ap_back pk \<noteq> None) \<and>
     ap_name pk \<noteq> FRIEND_OFFER \<and> ap_name pk \<noteq> FRIEND_UPDATE \<and>
     (ap_name pk = FRIEND_POLL \<longrightarrow> friend) \<and>
     ap_kind pk = UDP_I_DATA \<and> ap_belongs pk"

definition mam_up :: "'f mam_node \<Rightarrow> bool" where
  "mam_up s \<longleftrightarrow> operationalState s = OPERATING \<or> operationalState s = STOPPING_OPERATION"

definition mam_valid :: "'f mam_kernel \<Rightarrow> 'f mam_node \<Rightarrow> mam_input \<Rightarrow> bool" where
  "mam_valid K s i =
     (case i of
        Deliver (Timer x) \<Rightarrow> k_due K (fes s) x
      | Deliver (Message (PacketMessage pk)) \<Rightarrow> mam_up s \<and> ok_packet (friendNode s) pk
      | Deliver (Message (IndicationMessage k b)) \<Rightarrow> False
      | Lifecycle ModuleStartOperation \<Rightarrow> operationalState s = NOT_OPERATING
      | Lifecycle op \<Rightarrow> operationalState s = OPERATING
      | Pass d \<Rightarrow> k_may_advance K (fes s) d)"

section \<open>The invariant\<close>

definition timers_ok :: "'f mam_kernel \<Rightarrow> 'f mam_node \<Rightarrow> bool" where
  "timers_ok K s \<longleftrightarrow>
     k_timely K (fes s) \<and>
     k_pending K (fes s) (AppTimer PollTimer) = None \<and>
     k_pending K (fes s) ActiveOperationExtraTimer = None \<and>
     (\<forall>t. k_pending K (fes s) (AppTimer SelfMsg) = Some t \<longrightarrow>
        selfKind s \<noteq> NO_KIND \<and> (selfKind s = START \<longrightarrow> stopTime s < 0 \<or> t \<le> stopTime s))"

definition lifecycle_ok :: "'f mam_kernel \<Rightarrow> 'f mam_node \<Rightarrow> bool" where
  "lifecycle_ok K s \<longleftrightarrow>
     (operationalState s = OPERATING \<and> activeOperation s = None \<and>
        k_pending K (fes s) ActiveOperationTimeout = None) \<or>
     (operationalState s = NOT_OPERATING \<and> activeOperation s = None \<and>
        k_pending K (fes s) ActiveOperationTimeout = None \<and>
        k_pending K (fes s) (AppTimer SelfMsg) = None) \<or>
     (operationalState s = STOPPING_OPERATION \<and> activeOperation s = Some ModuleStopOperation \<and>
        endState s = NOT_OPERATING \<and> isDelayedFinish s)"

definition data_ok :: "'f mam_node \<Rightarrow> bool" where
  "data_ok s \<longleftrightarrow>
     lru_inv (dataSendCache s) \<and> \<not> lowPowerNode s \<and>
     (ok_addr (mobileSink s) \<or> mobileSink s = l3_empty) \<and>
     (lowPowerNodes s \<noteq> [] \<longrightarrow> friendNode s)"

definition mam_ok :: "'f mam_kernel \<Rightarrow> 'f mam_node \<Rightarrow> bool" where
  "mam_ok K s \<longleftrightarrow> timers_ok K s \<and> lifecycle_ok K s \<and> data_ok s"

lemmas mam_ok_defs = mam_ok_def timers_ok_def lifecycle_ok_def data_ok_def

lemma mam_ok_act [simp]: "mam_ok K (mam_act l s) = mam_ok K s"
  by (simp add: mam_ok_defs mam_act_def)

lemma mam_ok_friends [simp]: "mam_ok K (feed_friends s) = mam_ok K s"
  by (simp add: mam_ok_defs feed_friends_def push_dummies_def)

lemma mam_ok_route: "mam_ok K s \<Longrightarrow> ok_addr src \<Longrightarrow> mam_ok K (update_route K E src hops s)"
  by (simp add: mam_ok_defs update_route_def)

lemma mam_fields_act [simp]:
  "relayNode (mam_act l s) = relayNode s" "friendNode (mam_act l s) = friendNode s"
  "lowPowerNode (mam_act l s) = lowPowerNode s" "mobileSink (mam_act l s) = mobileSink s"
  "lowPowerNodes (mam_act l s) = lowPowerNodes s" "stopTime (mam_act l s) = stopTime s"
  "destAddresses (mam_act l s) = destAddresses s" "fes (mam_act l s) = fes s"
  "operationalState (mam_act l s) = operationalState s"
  by (simp_all add: mam_act_def)

lemma mam_act_act: "mam_act l (mam_act m s) = mam_act (m @ l) s"
  by (simp add: mam_act_def)

lemma setSocketOptions_ok:
  assumes "par_multicastInterface E = [] \<or> e_interface E (par_multicastInterface E) \<noteq> None"
  shows "\<exists>l. mam_setSocketOptions E s = Inr (mam_act l s)"
proof (cases "par_multicastInterface E \<noteq> []")
  case True
  with assms obtain i where i: "e_interface E (par_multicastInterface E) = Some i" by auto
  show ?thesis unfolding mam_setSocketOptions_def Let_def if_P[OF True] i option.case by blast
next
  case False
  show ?thesis unfolding mam_setSocketOptions_def Let_def if_not_P[OF False] by blast
qed

lemma send_ok: "0 \<le> hops \<Longrightarrow> \<exists>l. sendSimpleMessage K msg dest hops s = Inr (mam_act l s)"
  by (simp add: sendSimpleMessage_inr) blast

lemma broadcast_ok: "\<exists>l. broadcastSimpleMessage K msg s = Inr (mam_act l s)"
  unfolding broadcastSimpleMessage_def broadcastSimpleMessage_inr by (rule send_ok) simp

lemma ok_addr_eq: "ok_addr a \<Longrightarrow> ok_addr b \<or> b = l3_empty \<Longrightarrow> \<exists>r. l3_eq a b = Inr r"
  by (auto simp: ok_addr_def l3_eq_ipv4 l3_eq_empty)

lemma ok_addr_str: "ok_addr a \<Longrightarrow> \<exists>i. l3_str path a = Inr (ipv4_str i)"
  by (auto simp: ok_addr_def l3_str_ipv4)

lemma ipv4_str_length: "length (ipv4_str a) \<le> 15"
proof -
  have "length (show_nat (ipv4_byte a k)) \<le> 3" for k
    using show_nat_at_most[of "ipv4_byte a k" 3] ipv4_byte_le[of a k] by simp
  from this[of 24] this[of 16] this[of 8] this[of 0] show ?thesis by (simp add: ipv4_str_def)
qed

lemma md5_short: "length str \<le> 100 \<Longrightarrow> md5 str = Inr (md5_spec (md5_bytes str))"
  by (simp add: md5_result Let_def)

lemma md5_found_key: "md5 (''FOUND_MOBILE_SINK_'' @ ipv4_str i) =
    Inr (md5_spec (md5_bytes (''FOUND_MOBILE_SINK_'' @ ipv4_str i)))"
  by (rule md5_short) (use ipv4_str_length[of i] in simp)

context mam_module
begin

lemma sendMyDataToSink_ok:
  assumes "mam_ok K s" and "mam_up s"
  shows "\<exists>s'. sendMyDataToSink K E s = Inr s' \<and> mam_ok K s'"
proof (cases "scheduledSendData s \<or> (l3_is_empty (mobileSink s) \<and> mamRelay s)")
  case True
  with assms show ?thesis by (auto simp: sendMyDataToSink_def)
next
  case False
  let ?f = "k_cancel K (AppTimer SelfMsg) (fes s)"
  let ?t = "max (lastSensorDataSent s + 100 * e_ms E) (op_now K s + e_ms E)"
  have "k_now K ?f \<le> ?t" using ms_pos by (simp add: kernel_now op_now_def)
  with scheduleAt_ok[of ?f "AppTimer SelfMsg" ?t] obtain f' where
    f': "sim_scheduleAt K ?t (AppTimer SelfMsg) ?f = Inr f'"
      "k_pending K f' = (k_pending K (fes s))(AppTimer SelfMsg \<mapsto> ?t)"
    by (auto simp: kernel_pending)
  have "k_timely K f'"
    using assms(1) scheduleAt_timely[OF _ f'(1)] cancel_timely by (simp add: mam_ok_defs)
  moreover have "sendMyDataToSink K E s =
      Inr (s\<lparr>scheduledSendData := True, selfKind := SEND_MY_DATA, fes := f'\<rparr>)"
    using False f'(1)
    by (simp add: sendMyDataToSink_def Let_def op_cancelEvent_def op_scheduleAt_def op_now_def)
  ultimately show ?thesis using assms f'(2) by (auto simp: mam_ok_defs mam_up_def)
qed

lemma relay_found_ok:
  assumes "mam_ok K s" and "ok_addr src"
  shows "\<exists>s'. relay_found K E src hops s = Inr s' \<and> mam_ok K s'"
proof -
  from assms(2) obtain i where i: "l3_str (e_str E) src = Inr (ipv4_str i)" using ok_addr_str by blast
  let ?key = "md5_spec (md5_bytes (''FOUND_MOBILE_SINK_'' @ ipv4_str i))"
  let ?ms = "e_clock E (op_now K s)"
  have inv: "lru_inv (dataSendCache s)" using assms(1) by (simp add: mam_ok_defs)
  obtain c where c: "lru_exists (dataSendCache s) ?key ?ms = Inr c"
    using lru.exists_total[OF inv] by blast
  have put: "mam_ok K (s\<lparr>dataSendCache := lru_put (dataSendCache s) ?key 1 (?ms + 1000)\<rparr>)"
    using assms(1) lru.put_invar[OF inv] by (simp add: mam_ok_defs)
  have last: "mam_ok K (s\<lparr>lastFoundSinkSent := op_now K s\<rparr>)"
    using assms(1) by (simp add: mam_ok_defs)
  have bc: "\<exists>s'. broadcastSimpleMessage_hops K FOUND_MOBILE_SINK hops t = Inr s' \<and> mam_ok K s'"
    if "mam_ok K t" "0 < hops" for t
    using send_ok[of hops K FOUND_MOBILE_SINK broadcast_addr t] that
    by (auto simp: broadcastSimpleMessage_inr)
  have b: "\<exists>s'. broadcastSimpleMessage K FOUND_MOBILE_SINK t = Inr s' \<and> mam_ok K s'"
    if "mam_ok K t" for t
    using broadcast_ok[of K FOUND_MOBILE_SINK t] that by auto
  show ?thesis
    unfolding relay_found_def Let_def i res_bind_Inr md5_found_key c
    using assms(1) bc[OF put] b[OF last] by simp
qed

lemma processFoundMobileSink_ok:
  assumes "mam_ok K s" and "mam_up s" and "ok_addr src"
  shows "\<exists>s'. processFoundMobileSink K E src hops s = Inr s' \<and> mam_ok K s'"
proof -
  have "mam_up (update_route K E src hops s)" using assms(2) by (simp add: update_route_def mam_up_def)
  from sendMyDataToSink_ok[OF mam_ok_route[OF assms(1,3)] this]
  obtain s1 where s1: "sendMyDataToSink K E (update_route K E src hops s) = Inr s1" "mam_ok K s1"
    by blast
  then have "mam_ok K (feed_friends s1)" by simp
  from relay_found_ok[OF this assms(3)] s1 show ?thesis
    by (auto simp: processFoundMobileSink_def mam_ok_defs)
qed

lemma processDiscovery_ok:
  assumes "mam_ok K s" and "ok_addr src"
  shows "\<exists>s'. processDiscovery K E src s = Inr s' \<and> mam_ok K s'"
proof -
  let ?s1 = "s\<lparr>mobileSink := src, sinkHops := 128,
      sinkBestRouteExpiry := op_now K s + 20000 * e_ms E\<rparr>"
  have "mam_ok K ?s1" using assms by (simp add: mam_ok_defs)
  moreover obtain l where "broadcastSimpleMessage K FOUND_MOBILE_SINK ?s1 = Inr (mam_act l ?s1)"
    using broadcast_ok by blast
  ultimately show ?thesis unfolding processDiscovery_def Let_def by simp
qed

lemma processDisconnected_ok:
  assumes "mam_ok K s" and "ok_addr src"
  shows "\<exists>s'. processDisconnected K src s = Inr s' \<and> mam_ok K s'"
proof -
  obtain same where same: "l3_eq src (mobileSink s) = Inr same"
    using ok_addr_eq[OF assms(2)] assms(1) by (auto simp: mam_ok_defs)
  define s1 where "s1 = (if same then s\<lparr>mobileSink := l3_empty\<rparr> else s)"
  have "mam_ok K s1" using assms(1) by (simp add: s1_def mam_ok_defs)
  moreover obtain l where "broadcastSimpleMessage K DISCONNECTED_MOBILE_SINK s1 = Inr (mam_act l s1)"
    using broadcast_ok by blast
  ultimately show ?thesis
    unfolding processDisconnected_def Let_def same res_bind_Inr s1_def[symmetric] by simp
qed

lemma processDataSend_ok:
  assumes "mam_ok K s" and "ap_back packet = Some b"
  shows "\<exists>s'. processDataSend K E packet src s = Inr s' \<and> mam_ok K s'"
proof -
  have inv: "lru_inv (dataSendCache s)" using assms(1) by (simp add: mam_ok_defs)
  let ?ms = "e_clock E (op_now K s)"
  obtain c where c: "lru_exists (dataSendCache s) (bm_packetUuid b) ?ms = Inr c"
    using lru.exists_total[OF inv] by blast
  let ?s1 = "s\<lparr>dataSendCache := lru_put (dataSendCache s) (bm_packetUuid b) 1 (?ms + 1000),
      uniqueDataSenders := sset_insert (bm_srcUuid b) (uniqueDataSenders s)\<rparr>"
  have "mam_ok K (?s1\<lparr>numDataSent := n\<rparr>)" for n
    using assms(1) lru.put_invar[OF inv] by (simp add: mam_ok_defs)
  then have "mam_ok K (sendData b dest ?s1)" for dest
    unfolding sendData_def Let_def mam_ok_act .
  moreover obtain l where "sendSimpleMessage K DISCONNECTED_MOBILE_SINK src 127 s = Inr (mam_act l s)"
    using send_ok[of 127 K DISCONNECTED_MOBILE_SINK src s] by auto
  ultimately show ?thesis
    using assms(1) by (simp add: processDataSend_def deref_bmesh_def assms(2) Let_def c)
qed

lemma processFriendPoll_ok:
  assumes "mam_ok K s" and "ok_addr src" and "friendNode s"
  shows "\<exists>s'. processFriendPoll K E src s = Inr s' \<and> mam_ok K s'"
proof -
  from assms(2) obtain i where i: "l3_str (e_str E) src = Inr (ipv4_str i)" using ok_addr_str by blast
  let ?s1 = "s\<lparr>lowPowerNodes := AList.update (ipv4_str i) [] (lowPowerNodes s)\<rparr>"
  have "mam_ok K ?s1" using assms(1,3) by (simp add: mam_ok_defs)
  moreover obtain l m where "sendSimpleMessage K FRIEND_UPDATE src 1 s = Inr (mam_act l s)"
      "sendSimpleMessage K FRIEND_UPDATE src 1 ?s1 = Inr (mam_act m ?s1)"
    using send_ok[of 1] by (metis zero_le_one)
  ultimately show ?thesis
    using assms(1,3) by (simp add: processFriendPoll_def i split: option.split)
qed

lemma mam_handlePacket_ok:
  assumes ok: "mam_ok K s" and up: "mam_up s" and pk: "ok_packet (friendNode s) packet"
  shows "\<exists>s'. mam_handlePacket K E packet s = Inr s' \<and> mam_ok K s'"
proof -
  from pk obtain src where src: "ap_src packet = Some src" "ok_addr src"
    by (auto simp: ok_packet_def split: option.splits)
  from ok_addr_str[OF src(2)] obtain i where i: "l3_str (e_str E) src = Inr (ipv4_str i)" by blast
  have other: "mam_ok K (mam_processPacket s)"
    using ok by (simp add: mam_processPacket_def mam_ok_defs mam_act_def)
  obtain l where offer: "sendSimpleMessage K FRIEND_OFFER src 127 s = Inr (mam_act l s)"
    using send_ok[of 127 K FRIEND_OFFER src s] by auto
  consider b where "ap_name packet = FOUND_MOBILE_SINK" "ap_back packet = Some b"
    | b where "ap_name packet = DATA_SEND" "ap_back packet = Some b"
    | "ap_name packet \<noteq> FOUND_MOBILE_SINK" "ap_name packet \<noteq> DATA_SEND"
    using pk by (auto simp: ok_packet_def)
  then show ?thesis
  proof cases
    case 1
    then show ?thesis
      using processFoundMobileSink_ok[OF ok up src(2)] ok
      by (simp add: mam_handlePacket_def Let_def src i deref_bmesh_def)
  next
    case 2
    then show ?thesis
      using processDataSend_ok[OF ok] ok by (simp add: mam_handlePacket_def Let_def src i)
  next
    case 3
    then show ?thesis
      using pk processDiscovery_ok[OF ok src(2)] processDisconnected_ok[OF ok src(2)]
        processFriendPoll_ok[OF ok src(2)] other offer ok
      by (simp add: mam_handlePacket_def Let_def src i ok_packet_def processFriendRequest_def
          socket_processMessage_def)
  qed
qed

text \<open>A due timer, taken out of the event set.\<close>

lemma deliver_ok:
  assumes "mam_ok K s" and "k_due K (fes s) x" and "x \<noteq> ActiveOperationTimeout"
  shows "mam_ok K (s\<lparr>fes := k_deliver K x (fes s)\<rparr>)"
  using assms deliver_timely[of "fes s" x]
  by (auto simp: mam_ok_defs kernel_pending)

lemma mam_processStart_ok:
  assumes ok: "mam_ok K s" and idle: "k_pending K (fes s) (AppTimer SelfMsg) = None"
    and stop: "stopTime s < 0 \<or> op_now K s \<le> stopTime s" and up: "mam_up s"
    and res: "\<forall>t. ok_addr (e_resolve E t)"
    and itf: "par_multicastInterface E = [] \<or> e_interface E (par_multicastInterface E) \<noteq> None"
  shows "\<exists>s'. mam_processStart K E s = Inr s' \<and> mam_ok K s'"
proof -
  obtain s1 where s1: "mam_setSocketOptions E (mam_act [SocketBind
      (if par_localAddress E \<noteq> [] then e_resolve E (par_localAddress E) else l3_empty) (localPort s)] s) = Inr s1"
    and s1': "\<exists>l. s1 = mam_act l s"
    using setSocketOptions_ok[OF itf] by (metis mam_act_act)
  define J where "J = (\<lambda>t. mam_ok K t \<and> fes t = fes s \<and> stopTime t = stopTime s \<and> mam_up t)"
  have "\<exists>t'. mam_resolve_step E t tok = Inr t' \<and> J t'" if "J t" for t tok
  proof -
    from res obtain i where i: "e_resolve E tok = l3_of_ipv4 i" unfolding ok_addr_def by blast
    have "mam_ok K (t\<lparr>destAddressStr := a, destAddresses := b\<rparr>) = mam_ok K t" for a b
      by (simp add: mam_ok_defs)
    then show ?thesis using that
      by (simp add: mam_resolve_step_def Let_def l3_isUnspecified_def i J_def mam_up_def)
  qed
  moreover have "J s1" using s1' ok up by (auto simp: J_def mam_up_def)
  ultimately obtain s2 where s2: "res_run (mam_resolve_step E) s1 (e_tokenize E (par_destAddresses E)) = Inr s2"
      "J s2" using res_run_total[of J] by metis
  have "\<exists>s3. (if destAddresses s2 \<noteq> [] then Inr (s2\<lparr>selfKind := SEND_MY_DATA\<rparr>)
       else if 0 \<le> stopTime s2
       then op_scheduleAt K (stopTime s2) (AppTimer SelfMsg) (s2\<lparr>selfKind := STOP\<rparr>)
       else Inr s2) = Inr s3 \<and> mam_ok K s3"
  proof -
    have "mam_ok K (s2\<lparr>selfKind := SEND_MY_DATA\<rparr>)"
      using s2(2) idle by (auto simp: J_def mam_ok_defs)
    moreover have "\<exists>s3. op_scheduleAt K (stopTime s2) (AppTimer SelfMsg) (s2\<lparr>selfKind := STOP\<rparr>) = Inr s3 \<and> mam_ok K s3"
      if "0 \<le> stopTime s2"
    proof -
      have J: "fes s2 = fes s" "stopTime s2 = stopTime s" "mam_ok K s2" "mam_up s2"
        using s2(2) by (simp_all add: J_def)
      from stop that have "k_now K (fes s) \<le> stopTime s" by (simp add: J op_now_def)
      from scheduleAt_ok[OF idle this] obtain f' where
        f': "sim_scheduleAt K (stopTime s) (AppTimer SelfMsg) (fes s) = Inr f'"
          "k_pending K f' = (k_pending K (fes s))(AppTimer SelfMsg \<mapsto> stopTime s)" by blast
      have "k_timely K f'"
        using J(3) scheduleAt_timely[OF _ f'(1)] by (simp add: mam_ok_defs J(1))
      with f' J show ?thesis
        by (auto simp: op_scheduleAt_def mam_ok_defs mam_up_def)
    qed
    ultimately show ?thesis using s2(2) by (auto simp: J_def)
  qed
  then obtain s3 where s3: "(if destAddresses s2 \<noteq> [] then Inr (s2\<lparr>selfKind := SEND_MY_DATA\<rparr>)
       else if 0 \<le> stopTime s2
       then op_scheduleAt K (stopTime s2) (AppTimer SelfMsg) (s2\<lparr>selfKind := STOP\<rparr>)
       else Inr s2) = Inr s3" "mam_ok K s3" by blast
  then have "\<not> lowPowerNode s3" by (simp add: mam_ok_defs)
  with s3 show ?thesis
    unfolding mam_processStart_def Let_def s1 res_bind_Inr s2(1) s3(1) by simp
qed

lemma mam_handleStart_ok:
  assumes "k_timely K (fes s)" and "k_pending K (fes s) (AppTimer SelfMsg) = None"
  obtains s' where "mam_handleStartOperation K s = Inr s'"
    and "s' = s \<or> (\<exists>f t. s' = s\<lparr>selfKind := START, fes := f\<rparr> \<and> k_timely K f \<and>
          k_pending K f = (k_pending K (fes s))(AppTimer SelfMsg \<mapsto> t) \<and> (stopTime s < 0 \<or> t \<le> stopTime s))"
proof -
  define start where "start = max (startTime s) (op_now K s)"
  show thesis
  proof (cases "stopTime s < 0 \<or> start < stopTime s \<or> (start = stopTime s \<and> startTime s = stopTime s)")
    case True
    have "k_now K (fes s) \<le> start" by (simp add: start_def op_now_def)
    from scheduleAt_ok[OF assms(2) this] obtain f' where
      f': "sim_scheduleAt K start (AppTimer SelfMsg) (fes s) = Inr f'"
        "k_pending K f' = (k_pending K (fes s))(AppTimer SelfMsg \<mapsto> start)" by blast
    from True have "stopTime s < 0 \<or> start \<le> stopTime s" by auto
    moreover have "mam_handleStartOperation K s = Inr (s\<lparr>selfKind := START, fes := f'\<rparr>)"
      unfolding mam_handleStartOperation_def Let_def start_def[symmetric]
      using True f'(1) by (simp add: op_scheduleAt_def)
    ultimately show thesis
      using that f'(2) scheduleAt_timely[OF assms(1) f'(1)] by blast
  next
    case False
    then have "mam_handleStartOperation K s = Inr s"
      unfolding mam_handleStartOperation_def Let_def start_def[symmetric] by (rule if_not_P)
    then show thesis using that by blast
  qed
qed

text \<open>The two ways an operation ends.\<close>

lemma settle_start_ok:
  assumes "timers_ok K s" and "data_ok s" and "operationalState s = STARTING_OPERATION"
    and "activeOperation s = Some ModuleStartOperation" and "endState s = OPERATING"
    and "\<not> isDelayedFinish s" and "k_pending K (fes s) ActiveOperationTimeout = None"
  shows "mam_ok K (snd (op_settle K s))"
  using assms
  by (simp add: op_settle_def finishActiveOperation_def setOperationalState_def Let_def mam_ok_defs)

lemma crash_finish_ok:
  assumes "k_timely K (fes s)" and "k_pending K (fes s) (AppTimer PollTimer) = None"
    and "k_pending K (fes s) ActiveOperationExtraTimer = None"
    and "isDelayedFinish s \<or> k_pending K (fes s) ActiveOperationTimeout = None"
    and "data_ok s" and "endState s = NOT_OPERATING"
  shows "\<exists>s'. mam_handleCrashOperation K s = Inr s' \<and> mam_ok K (finishActiveOperation K s')"
  using assms
  by (auto simp: mam_handleCrashOperation_def finishActiveOperation_def setOperationalState_def Let_def
      mam_ok_defs op_cancelEvent_def kernel_pending cancel_timely mam_act_def)

lemma lifecycle_start_ok:
  assumes ok: "mam_ok K s" and down: "operationalState s = NOT_OPERATING"
  shows "\<exists>s'. mam_input_step K E s (Lifecycle ModuleStartOperation) = Inr s' \<and> mam_ok K s'"
proof -
  let ?s1 = "s\<lparr>operationalState := STARTING_OPERATION, activeOperation := Some ModuleStartOperation,
      endState := OPERATING, isDelayedFinish := False\<rparr>"
  have act: "activeOperation s = None" using ok down by (simp add: mam_ok_defs)
  have f: "k_timely K (fes ?s1)" "k_pending K (fes ?s1) (AppTimer SelfMsg) = None"
    using ok down by (simp_all add: mam_ok_defs)
  from mam_handleStart_ok[OF f] obtain s2 where s2: "mam_handleStartOperation K ?s1 = Inr s2"
    "s2 = ?s1 \<or> (\<exists>f t. s2 = ?s1\<lparr>selfKind := START, fes := f\<rparr> \<and> k_timely K f \<and>
       k_pending K f = (k_pending K (fes ?s1))(AppTimer SelfMsg \<mapsto> t) \<and>
       (stopTime ?s1 < 0 \<or> t \<le> stopTime ?s1))" by blast
  from s2(2) have "mam_ok K (snd (op_settle K s2))"
    using ok down by (intro settle_start_ok) (auto simp: mam_ok_defs)
  moreover have "mam_input_step K E s (Lifecycle ModuleStartOperation) = Inr (snd (op_settle K s2))"
    by (simp add: mam_input_step_def handleOperationStage_def setupActiveOperation_def act s2(1)
        case_prod_unfold)
  ultimately show ?thesis by blast
qed

lemma lifecycle_stop_ok:
  assumes ok: "mam_ok K s" and up: "operationalState s = OPERATING"
  shows "\<exists>s'. mam_input_step K E s (Lifecycle ModuleStopOperation) = Inr s' \<and> mam_ok K s'"
proof -
  let ?f = "k_cancel K (AppTimer SelfMsg) (fes s)"
  let ?s1 = "s\<lparr>operationalState := STOPPING_OPERATION, activeOperation := Some ModuleStopOperation,
      endState := NOT_OPERATING, isDelayedFinish := True, fes := ?f, mam_log := mam_log s @ [SocketClose]\<rparr>"
  let ?t = "op_now K s + par_stopOperationTimeout E"
  have act: "activeOperation s = None" using ok up by (simp add: mam_ok_defs)
  have now: "op_now K ?s1 = op_now K s" by (simp add: op_now_def kernel_now)
  have "k_pending K ?f ActiveOperationTimeout = None" "k_now K ?f \<le> ?t"
    using ok up timeout_pos by (auto simp: mam_ok_defs kernel_pending kernel_now op_now_def)
  from scheduleAt_ok[OF this] obtain f' where
    f': "sim_scheduleAt K ?t ActiveOperationTimeout ?f = Inr f'"
      "k_pending K f' = (k_pending K ?f)(ActiveOperationTimeout \<mapsto> ?t)" by blast
  have "k_timely K f'"
    using ok scheduleAt_timely[OF cancel_timely f'(1)] by (simp add: mam_ok_defs)
  then have "mam_ok K (?s1\<lparr>fes := f'\<rparr>)" using ok f'(2) by (auto simp: mam_ok_defs kernel_pending)
  moreover have "mam_input_step K E s (Lifecycle ModuleStopOperation) = Inr (?s1\<lparr>fes := f'\<rparr>)"
    using ok up f'(1)
    by (simp add: mam_input_step_def handleOperationStage_def setupActiveOperation_def act
        mam_handleStopOperation_def delayActiveOperationFinish_def scheduleOperationTimeout_def
        op_isScheduled_def op_scheduleAt_def op_cancelEvent_def mam_act_def op_settle_def op_now_def
        kernel_now kernel_pending mam_ok_defs)
  ultimately show ?thesis by blast
qed

lemma lifecycle_crash_ok:
  assumes ok: "mam_ok K s" and up: "operationalState s = OPERATING"
  shows "\<exists>s'. mam_input_step K E s (Lifecycle ModuleCrashOperation) = Inr s' \<and> mam_ok K s'"
proof -
  let ?s1 = "s\<lparr>operationalState := CRASHING_OPERATION, activeOperation := Some ModuleCrashOperation,
      endState := NOT_OPERATING, isDelayedFinish := False\<rparr>"
  have act: "activeOperation s = None" using ok up by (simp add: mam_ok_defs)
  have "\<exists>s'. mam_handleCrashOperation K ?s1 = Inr s' \<and> mam_ok K (finishActiveOperation K s')"
    using ok up by (intro crash_finish_ok) (auto simp: mam_ok_defs)
  then show ?thesis
    by (auto simp: mam_input_step_def handleOperationStage_def setupActiveOperation_def act)
qed

lemma self_message_ok:
  assumes ok: "mam_ok K s" and due: "k_due K (fes s) (AppTimer SelfMsg)"
    and res: "\<forall>t. ok_addr (e_resolve E t)"
    and itf: "par_multicastInterface E = [] \<or> e_interface E (par_multicastInterface E) \<noteq> None"
  shows "\<exists>s'. mam_input_step K E s (Deliver (Timer (AppTimer SelfMsg))) = Inr s' \<and> mam_ok K s'"
proof -
  let ?s1 = "s\<lparr>fes := k_deliver K (AppTimer SelfMsg) (fes s)\<rparr>"
  have ok1: "mam_ok K ?s1" by (rule deliver_ok[OF ok due]) simp
  from due obtain t where t: "k_pending K (fes s) (AppTimer SelfMsg) = Some t"
    unfolding k_due_def by blast
  have up: "mam_up s" using ok t by (auto simp: mam_ok_defs mam_up_def)
  have idle: "k_pending K (fes ?s1) (AppTimer SelfMsg) = None" by (simp add: kernel_pending)
  have now: "op_now K ?s1 = t" using deliver_now[OF _ t] ok by (simp add: op_now_def mam_ok_defs)
  have start: "\<exists>s'. mam_processStart K E ?s1 = Inr s' \<and> mam_ok K s'" if "selfKind s = START"
  proof (rule mam_processStart_ok[OF ok1 idle _ _ res itf])
    show "stopTime ?s1 < 0 \<or> op_now K ?s1 \<le> stopTime ?s1"
      using ok t that unfolding now by (auto simp: mam_ok_defs)
  qed (use up in \<open>simp add: mam_up_def\<close>)
  have send: "mam_ok K (processSendMyData K E ?s1)"
    using ok1 by (simp add: processSendMyData_def generate_uuid_v4_def Let_def mam_ok_defs mam_act_def)
  have stop: "mam_ok K (mam_processStop ?s1)" using ok1 by (simp add: mam_processStop_def)
  have "selfKind s \<noteq> NO_KIND" using ok t by (simp add: mam_ok_defs)
  then have "\<exists>s'. mam_handleMessageWhenUp K E (SelfMessage SelfMsg) ?s1 = Inr s' \<and> mam_ok K s'"
    using start send stop by (cases "selfKind s") (simp_all add: mam_handleMessageWhenUp_def)
  then show ?thesis
    using up by (auto simp: mam_input_step_def op_deliver_def op_handleMessage_def op_dispatch_def mam_up_def)
qed

lemma timeout_ok:
  assumes ok: "mam_ok K s" and due: "k_due K (fes s) ActiveOperationTimeout"
  shows "\<exists>s'. mam_input_step K E s (Deliver (Timer ActiveOperationTimeout)) = Inr s' \<and> mam_ok K s'"
proof -
  let ?s1 = "op_cancelEvent K ActiveOperationExtraTimer
      (s\<lparr>fes := k_deliver K ActiveOperationTimeout (fes s)\<rparr>)"
  from due obtain t where t: "k_pending K (fes s) ActiveOperationTimeout = Some t"
    unfolding k_due_def by blast
  have "\<exists>s'. mam_handleCrashOperation K ?s1 = Inr s' \<and> mam_ok K (finishActiveOperation K s')"
    using ok t deliver_timely[OF _ due]
    by (intro crash_finish_ok) (auto simp: mam_ok_defs op_cancelEvent_def kernel_pending cancel_timely)
  then show ?thesis
    by (auto simp: mam_input_step_def op_deliver_def op_handleMessage_def handleActiveOperationTimeout_def)
qed

lemma packet_message_ok:
  assumes ok: "mam_ok K s" and up: "mam_up s" and pk: "ok_packet (friendNode s) packet"
  shows "\<exists>s'. mam_input_step K E s (Deliver (Message (PacketMessage packet))) = Inr s' \<and> mam_ok K s'"
  using mam_handlePacket_ok[OF ok up pk] up
  by (auto simp: mam_input_step_def op_deliver_def op_handleMessage_def op_dispatch_def
      mam_handleMessageWhenUp_def mam_up_def)

lemma pass_ok:
  assumes "mam_ok K s" and "k_may_advance K (fes s) d"
  shows "\<exists>s'. mam_input_step K E s (Pass d) = Inr s' \<and> mam_ok K s'"
  using assms advance_timely[of "fes s" d]
  by (auto simp: mam_input_step_def mam_ok_defs kernel_pending)

lemma mam_step_ok:
  assumes ok: "mam_ok K s" and valid: "mam_valid K s i"
    and res: "\<forall>t. ok_addr (e_resolve E t)"
    and itf: "par_multicastInterface E = [] \<or> e_interface E (par_multicastInterface E) \<noteq> None"
  shows "\<exists>s'. mam_input_step K E s i = Inr s' \<and> mam_ok K s'"
proof -
  have never: "\<not> k_due K (fes s) (AppTimer PollTimer)" "\<not> k_due K (fes s) ActiveOperationExtraTimer"
    using ok by (simp_all add: mam_ok_defs k_due_def)
  show ?thesis
  proof (cases i)
    case (Deliver ev)
    show ?thesis
    proof (cases ev)
      case (Timer x)
      with valid Deliver have due: "k_due K (fes s) x" by (simp add: mam_valid_def)
      with never consider "x = AppTimer SelfMsg" | "x = ActiveOperationTimeout"
        by (cases x) (metis mam_timer.exhaust)+
      then show ?thesis
        using due Deliver Timer self_message_ok[OF ok _ res itf] timeout_ok[OF ok] by cases simp_all
    next
      case (Message m)
      with valid Deliver show ?thesis
        by (cases m) (auto simp: mam_valid_def intro: packet_message_ok[OF ok])
    qed
  next
    case (Lifecycle op)
    with valid show ?thesis
      using lifecycle_start_ok[OF ok] lifecycle_stop_ok[OF ok] lifecycle_crash_ok[OF ok]
      by (cases op) (simp_all add: mam_valid_def)
  next
    case (Pass d)
    with valid pass_ok[OF ok] show ?thesis by (simp add: mam_valid_def)
  qed
qed

end

section \<open>Runs\<close>

inductive mam_run :: "'f mam_kernel \<Rightarrow> mam_env \<Rightarrow> 'f mam_node \<Rightarrow> 'f mam_node \<Rightarrow> bool"
  for K :: "'f mam_kernel" and E :: mam_env and s0 :: "'f mam_node" where
  run_start: "mam_run K E s0 s0"
| run_step: "mam_run K E s0 s \<Longrightarrow> mam_valid K s i \<Longrightarrow> mam_input_step K E s i = Inr s' \<Longrightarrow>
    mam_run K E s0 s'"

definition quiet_env :: "mam_env \<Rightarrow> bool" where
  "quiet_env E \<longleftrightarrow>
     \<not> par_lowPowerNode E \<and> (\<forall>t. ok_addr (e_resolve E t)) \<and>
     (par_multicastInterface E = [] \<or> e_interface E (par_multicastInterface E) \<noteq> None)"

definition idle_kernel :: "'f mam_kernel \<Rightarrow> 'f \<Rightarrow> bool" where
  "idle_kernel K f \<longleftrightarrow> (\<forall>x. k_pending K f x = None)"

lemma mam_initialize_local_ok:
  assumes "mam_initialize_local E (mam_new f hops) = Inr s"
    and "quiet_env E" and "idle_kernel K f"
  shows "k_timely K (fes s)" and "k_pending K (fes s) = (\<lambda>_. None)" and "data_ok s"
    and "activeOperation s = None" and "selfKind s = NO_KIND"
proof -
  from assms(3) have f: "k_pending K f = (\<lambda>_. None)" "k_timely K f"
    by (auto simp: idle_kernel_def k_timely_def)
  have new: "fes (mam_new f hops) = f" "dataSendCache (mam_new f hops) = lru_new 100"
      "activeOperation (mam_new f hops) = None" "\<not> lowPowerNode (mam_new f hops)"
    by (simp_all add: mam_new_def)
  have "fes s = f \<and> dataSendCache s = lru_new 100 \<and> activeOperation s = None \<and> \<not> lowPowerNode s \<and>
      mobileSink s = l3_empty \<and> lowPowerNodes s = [] \<and> selfKind s = NO_KIND"
    using assms(1,2) new
    by (auto simp: mam_initialize_local_def Let_def res_inr generate_hex_def quiet_env_def
        split: if_splits)
  with f show "k_timely K (fes s)" and "k_pending K (fes s) = (\<lambda>_. None)" and "data_ok s"
    and "activeOperation s = None" and "selfKind s = NO_KIND"
    by (simp_all add: data_ok_def lru_inv_new)
qed

context mam_module
begin

lemma mam_start_ok:
  assumes "mam_start K E f hops = Inr s" and env: "quiet_env E" and "idle_kernel K f"
  shows "mam_ok K s"
proof -
  from assms(1) obtain s0 where s0: "mam_initialize_local E (mam_new f hops) = Inr s0"
    and s: "op_initialize K (mam_handleStartOperation K) (e_nodeStatus E) s0 = Inr s"
    by (auto simp: mam_start_def mam_initialize_def res_inr)
  note init = mam_initialize_local_ok[OF s0 env assms(3)]
  let ?s1 = "setOperationalState K (getInitialOperationalState (e_nodeStatus E)) s0"
  have data: "data_ok ?s1" using init(3) by (simp add: setOperationalState_def data_ok_def)
  have f: "k_timely K (fes ?s1)" "k_pending K (fes ?s1) (AppTimer SelfMsg) = None"
      "k_pending K (fes ?s1) = (\<lambda>_. None)" "activeOperation ?s1 = None"
    using init by (simp_all add: setOperationalState_def)
  show ?thesis
  proof (cases "operationalState ?s1 = OPERATING")
    case True
    with s have "mam_handleStartOperation K ?s1 = Inr s" by (simp add: op_initialize_def Let_def)
    with mam_handleStart_ok[OF f(1,2)] have "s = ?s1 \<or> (\<exists>f t. s = ?s1\<lparr>selfKind := START, fes := f\<rparr> \<and>
        k_timely K f \<and> k_pending K f = (k_pending K (fes ?s1))(AppTimer SelfMsg \<mapsto> t) \<and>
        (stopTime ?s1 < 0 \<or> t \<le> stopTime ?s1))" by (metis sum.inject(2))
    then show ?thesis using True data f by (auto simp: mam_ok_def timers_ok_def lifecycle_ok_def data_ok_def)
  next
    case False
    with s have "s = ?s1" by (simp add: op_initialize_def Let_def)
    moreover have "operationalState ?s1 = NOT_OPERATING"
      using False by (simp add: setOperationalState_def getInitialOperationalState_def split: if_splits)
    ultimately show ?thesis using data f by (simp add: mam_ok_def timers_ok_def lifecycle_ok_def)
  qed
qed

lemma mam_run_ok:
  assumes "mam_run K E s0 s" and "mam_ok K s0" and "quiet_env E"
  shows "mam_ok K s"
  using assms
proof (induction rule: mam_run.induct)
  case (run_step s i s')
  then have "\<exists>s'. mam_input_step K E s i = Inr s' \<and> mam_ok K s'"
    by (intro mam_step_ok) (auto simp: quiet_env_def)
  with run_step show ?case by auto
qed simp

lemma never_fails:
  assumes "quiet_env E" and "idle_kernel K f" and "mam_start K E f hops = Inr s0"
    and "mam_run K E s0 s" and "mam_valid K s i"
  shows "is_ok (mam_input_step K E s i)"
proof -
  have "mam_ok K s" using mam_run_ok[OF assms(4) mam_start_ok[OF assms(3,1,2)] assms(1)] .
  from mam_step_ok[OF this assms(5)] assms(1) show ?thesis by (auto simp: quiet_env_def is_ok_iff)
qed

end

section \<open>An example\<close>

definition mam_example_env :: mam_env where
  "mam_example_env = \<lparr>par_localPort = 10, par_destPort = 20, par_startTime = 5, par_stopTime = -1,
     par_dontFragment = False, par_relayNode = True, par_relayMode = ''BMesh'', par_delta = 50,
     par_lowPowerNode = False, par_friendNode = True, par_destAddresses = ''a'',
     par_localAddress = [], par_timeToLive = -1, par_typeOfService = -1, par_multicastInterface = [],
     par_joinLocalMulticastGroups = False, par_stopOperationTimeout = 2, par_stopOperationExtraTime = -1,
     e_fullPath = ''node'', e_nodeStatus = None, e_ms = 1, e_clock = (\<lambda>t. t), e_dis = (\<lambda>n. n mod 16),
     e_dis2 = (\<lambda>n. 8 + n mod 4), e_random_char = (\<lambda>n. n mod 256), e_tokenize = (\<lambda>s. [s]),
     e_resolve = (\<lambda>s. l3_of_ipv4 7), e_interface = (\<lambda>s. None), e_str = (\<lambda>_. None)\<rparr>"

interpretation mam_example: mam_module "ref_kernel :: mam_timer op_timer ref_fes mam_kernel" mam_example_env
  by unfold_locales (simp_all add: mam_example_env_def)

definition mam_example_local :: "mam_timer op_timer ref_fes mam_node" where
  "mam_example_local = (mam_new (ref_start []) 0)\<lparr>localPort := 10, destPort := 20, startTime := 5,
     stopTime := -1, relayNode := True, mamRelay := False, delta := 50, friendNode := True,
     nodeUuid := ''node'' @ fst (generate_hex mam_example_env 32 (mam_new (ref_start [] :: mam_timer op_timer ref_fes) 0)),
     draws := 32\<rparr>"

definition mam_example_state :: "mam_timer op_timer ref_fes mam_node" where
  "mam_example_state = mam_example_local\<lparr>operationalState := OPERATING, selfKind := START,
     fes := (ref_start [])\<lparr>rf_pending := [AppTimer SelfMsg \<mapsto> 5]\<rparr>\<rparr>"

lemma mam_example_start:
  "mam_start ref_kernel mam_example_env (ref_start []) 0 = Inr mam_example_state"
proof -
  have init: "mam_initialize_local mam_example_env (mam_new (ref_start []) 0) = Inr mam_example_local"
    by (simp add: mam_initialize_local_def mam_example_local_def mam_example_env_def generate_hex_def
        mam_new_def Let_def)
  have vals: "startTime mam_example_local = 5" "stopTime mam_example_local = -1"
      "fes mam_example_local = ref_start []" "lastChange mam_example_local = 0"
      "e_nodeStatus mam_example_env = None"
    by (simp_all add: mam_example_local_def mam_example_env_def mam_new_def)
  show ?thesis
    unfolding mam_start_def mam_initialize_def init_stage.case init res_bind_Inr
    by (simp add: op_initialize_def setOperationalState_def getInitialOperationalState_def
        mam_handleStartOperation_def op_scheduleAt_def op_now_def ref_eval mam_example_state_def vals Let_def)
qed

definition mam_example_packet :: "string \<Rightarrow> arriving_packet" where
  "mam_example_packet name = \<lparr>ap_name = name, ap_kind = UDP_I_DATA, ap_src = Some (l3_of_ipv4 9),
     ap_back = Some (bmesh_new\<lparr>bm_packetUuid := ''u''\<rparr>), ap_byteLength = 11, ap_belongs = True\<rparr>"

lemma mam_example_facts:
  "quiet_env mam_example_env" "idle_kernel ref_kernel (ref_start [])"
  "mam_valid ref_kernel mam_example_state (Deliver (Message (PacketMessage (mam_example_packet FOUND_MOBILE_SINK))))"
  by (auto simp: quiet_env_def mam_example_env_def idle_kernel_def ref_eval ok_addr_def mam_valid_def
      mam_up_def mam_example_state_def ok_packet_def mam_example_packet_def)



end
