(* ===== verification/MamNodeProps.thy ===== *)
theory MamNodeProps
  imports MamNodeSafety
begin

text \<open>
  The properties of the node application: what the relays promise (at most one relay of a data packet
  in a second, the choice of the route, the identifiers of the packets) and where the code does less
  than it means to (the hop count that is never decreased, the friend queue that is never drained, the
  node that falls silent after a restart, the messages that end the simulation when a node stops).
\<close>

section \<open>Relaying\<close>

text \<open>
  (C4) No data packet is relayed twice within a second: once the node has relayed the packet with the
  identifier \<open>u\<close>, fewer than a hundred further packets of any kind arriving before its clock has moved
  on by 1000 ms make it relay \<open>u\<close> no second time.
\<close>

theorem mam_relays_once:
  assumes "mam_module K E" and "lru_inv (dataSendCache s)" and "cache_max_size (dataSendCache s) = 100"
    and "mam_receive K E s ev = Inr s1" and "relay_count u s1 \<noteq> relay_count u s"
    and "res_run (mam_receive K E) s1 evs = Inr s2" and "length evs < 100"
    and "e_clock E (op_now K s2) < e_clock E (op_now K s1) + 1000"
  shows "relay_count u s2 = Suc (relay_count u s)"
  using assms by (rule mam_module.relayed_once)

lemma mam_example_fields:
  "relayNode mam_example_state" "\<not> mamRelay mam_example_state" "\<not> lowPowerNode mam_example_state"
  "dataSendCache mam_example_state = lru_new 100" "mam_log mam_example_state = []"
  "fes mam_example_state = (ref_start [])\<lparr>rf_pending := [AppTimer SelfMsg \<mapsto> 5]\<rparr>"
  "friendNode mam_example_state" "lowPowerNodes mam_example_state = []"
  "dontFragment mam_example_state = False" "destPort mam_example_state = 20"
  "uniqueDataSenders mam_example_state = []" "draws mam_example_state = 32"
  by (simp_all add: mam_example_state_def mam_example_local_def mam_new_def)

lemma mam_example_handle:
  "mam_handlePacket K mam_example_env (mam_example_packet DATA_SEND) s =
     processDataSend K mam_example_env (mam_example_packet DATA_SEND) (l3_of_ipv4 9) s"
proof -
  have "ipv4_str 9 \<noteq> ''127.0.0.1''"
    by (simp add: ipv4_str_def ipv4_isUnspecified_def ipv4_byte_def show_nat.simps dec_digit_def
        char_of_def bit_Suc_0_iff)
  then show ?thesis
    by (simp add: mam_handlePacket_def mam_example_packet_def l3_str_ipv4 Let_def)
qed

lemma mam_example_relay:
  defines "s \<equiv> mam_example_state" and "pk \<equiv> mam_example_packet DATA_SEND"
  shows "\<exists>s1 s2. mam_receive ref_kernel mam_example_env s (1, pk) = Inr s1 \<and>
    res_run (mam_receive ref_kernel mam_example_env) s1 [(2, pk)] = Inr s2 \<and>
    relay_count ''u'' s = 0 \<and> relay_count ''u'' s1 = 1 \<and> op_now ref_kernel s1 = 1 \<and>
    op_now ref_kernel s2 = 3"
proof -
  note f = mam_example_fields[folded s_def]
  have clock: "e_clock mam_example_env = (\<lambda>t. t)" by (simp add: mam_example_env_def)
  have pk: "deref_bmesh pk = Inr (bmesh_new\<lparr>bm_packetUuid := ''u''\<rparr>)"
    by (simp add: pk_def mam_example_packet_def deref_bmesh_def)
  let ?b = "bmesh_new\<lparr>bm_packetUuid := ''u''\<rparr>"
  let ?t = "s\<lparr>fes := k_advance ref_kernel 1 (fes s)\<rparr>"
  let ?s1 = "sendData ?b broadcast_addr (?t\<lparr>dataSendCache := lru_put (lru_new 100) ''u'' 1 1001,
      uniqueDataSenders := sset_insert [] []\<rparr>)"
  have now: "op_now ref_kernel ?t = 1"
    by (simp add: f op_now_def ref_eval)
  have fresh: "lru_exists (lru_new 100 :: (string, int) lru_cache) ''u'' t = Inr False" for t
    by (simp add: lru_exists_def lru_new_def)
  have uuid: "bm_packetUuid ?b = ''u''" "bm_srcUuid ?b = []" by (simp_all add: bmesh_new_def)
  have 1: "mam_receive ref_kernel mam_example_env s (1, pk) = Inr ?s1"
    unfolding mam_receive_def prod.case pk_def mam_example_handle
    unfolding processDataSend_def pk[unfolded pk_def] clock now res_bind_Inr uuid Let_def
    using fresh by (simp add: f)
  have cached: "lru_exists (lru_put (lru_new 100) ''u'' (1 :: int) 1001) ''u'' 3 = Inr True"
    by (simp add: lru_exists_def lru_put_def lru_new_def Let_def)
  have now2: "op_now ref_kernel (?s1\<lparr>fes := k_advance ref_kernel 2 (fes ?s1)\<rparr>) = 3"
    by (simp add: f op_now_def ref_eval sendData_def mam_act_def Let_def)
  have 2: "mam_receive ref_kernel mam_example_env ?s1 (2, pk) =
      Inr (?s1\<lparr>fes := k_advance ref_kernel 2 (fes ?s1)\<rparr>)"
    unfolding mam_receive_def prod.case pk_def mam_example_handle
    unfolding processDataSend_def pk[unfolded pk_def] clock res_bind_Inr now2 uuid Let_def
    using cached by (simp add: f sendData_def mam_act_def Let_def)
  show ?thesis
    using 1 2 now2
    by (auto simp: relay_count_def f uuid op_now_def ref_eval sendData_def mam_act_def Let_def)
qed

theorem mam_relays_once_witness:
  "\<exists>s1 s2. mam_receive ref_kernel mam_example_env mam_example_state (1, mam_example_packet DATA_SEND) = Inr s1 \<and>
    res_run (mam_receive ref_kernel mam_example_env) s1 [(2, mam_example_packet DATA_SEND)] = Inr s2 \<and>
    relay_count ''u'' s2 = 1"
proof -
  obtain s1 s2 where s:
    "mam_receive ref_kernel mam_example_env mam_example_state (1, mam_example_packet DATA_SEND) = Inr s1"
    "res_run (mam_receive ref_kernel mam_example_env) s1 [(2, mam_example_packet DATA_SEND)] = Inr s2"
    "relay_count ''u'' mam_example_state = 0" "relay_count ''u'' s1 = 1"
    "op_now ref_kernel s1 = 1" "op_now ref_kernel s2 = 3"
    using mam_example_relay by blast
  have "lru_inv (dataSendCache mam_example_state)" "cache_max_size (dataSendCache mam_example_state) = 100"
    by (simp_all add: mam_example_fields lru_inv_new) (simp add: lru_new_def)
  from mam_relays_once[OF mam_example.mam_module_axioms this s(1) _ s(2), of "''u''"] s
  show ?thesis by (simp add: mam_example_env_def)
qed

section \<open>The route\<close>

text \<open>
  The route to the sink changes exactly when there is none, when it has expired or when the new one
  has more hops left, and then lasts \<open>delta\<close> milliseconds; a discovery message of the sink itself
  always wins and lasts 20 seconds.
\<close>

theorem mam_route_policy:
  "(let s' = update_route K E src hops s in
      (if mamRelay s \<and> (l3_is_empty (mobileSink s) \<or> sinkBestRouteExpiry s < op_now K s \<or> sinkHops s < hops)
       then mobileSink s' = src \<and> sinkHops s' = hops \<and>
            sinkBestRouteExpiry s' = op_now K s + delta s * e_ms E
       else s' = s)) \<and>
   (processDiscovery K E src s = Inr s'' \<longrightarrow>
      mobileSink s'' = src \<and> sinkHops s'' = 128 \<and>
      sinkBestRouteExpiry s'' = op_now K s + 20000 * e_ms E)"
proof -
  have "mobileSink s'' = src \<and> sinkHops s'' = 128 \<and>
      sinkBestRouteExpiry s'' = op_now K s + 20000 * e_ms E" if d: "processDiscovery K E src s = Inr s''"
  proof -
    let ?s1 = "s\<lparr>mobileSink := src, sinkHops := 128,
        sinkBestRouteExpiry := op_now K s + 20000 * e_ms E\<rparr>"
    obtain l where "broadcastSimpleMessage K FOUND_MOBILE_SINK ?s1 = Inr (mam_act l ?s1)"
      using broadcast_ok by blast
    with d have "s'' = feed_friends (mam_act l ?s1) \<or> s'' = feed_friends ?s1"
      unfolding processDiscovery_def Let_def by (auto split: if_splits)
    then show ?thesis by (auto simp: feed_friends_def push_dummies_def mam_act_def)
  qed
  then show ?thesis by (auto simp: update_route_def Let_def)
qed

lemma mam_route_policy_witness:
  "\<exists>s'. processDiscovery ref_kernel mam_example_env (l3_of_ipv4 3) mam_example_state = Inr s' \<and>
     mobileSink s' = l3_of_ipv4 3 \<and> sinkHops s' = 128"
proof -
  let ?s1 = "mam_example_state\<lparr>mobileSink := l3_of_ipv4 3, sinkHops := 128,
      sinkBestRouteExpiry := op_now ref_kernel mam_example_state + 20000 * e_ms mam_example_env\<rparr>"
  obtain l where "broadcastSimpleMessage ref_kernel FOUND_MOBILE_SINK ?s1 = Inr (mam_act l ?s1)"
    using broadcast_ok by blast
  then obtain s' where
    "processDiscovery ref_kernel mam_example_env (l3_of_ipv4 3) mam_example_state = Inr s'"
    by (simp add: processDiscovery_def Let_def mam_example_fields)
  with mam_route_policy[of ref_kernel mam_example_env "l3_of_ipv4 3" 5 mam_example_state s']
  show ?thesis by simp
qed

section \<open>The data path\<close>



section \<open>The announcements of plain Bluetooth Mesh\<close>

text \<open>
  In the mode of plain Bluetooth Mesh a relay passes an announcement on with the hop count it came
  with: \<open>broadcastSimpleMessage(FOUND_MOBILE_SINK, hops--)\<close> decrements \<open>hops\<close> after the call has read
  it. Only the cache stops an announcement, the hop count never does.
\<close>

theorem mam_hops_not_decreased:
  fixes K :: "'f mam_kernel" and E :: mam_env and s :: "'f mam_node" and a :: ipv4
  assumes "relayNode s" and "\<not> mamRelay s" and "0 < hops" and "lru_inv (dataSendCache s)"
  defines "key \<equiv> md5_spec (md5_bytes (''FOUND_MOBILE_SINK_'' @ ipv4_str a))"
    and "ms \<equiv> e_clock E (op_now K s)"
  shows "relay_found K E (l3_of_ipv4 a) hops s =
    (if lru_exists (dataSendCache s) key ms = Inr True then Inr s
     else Inr (mam_act [EmitPacket ''packetSent'',
        SendTo \<lparr>up_name = FOUND_MOBILE_SINK, up_dontFragment = dontFragment s,
           up_payload = bmesh_new\<lparr>bm_chunkLength := 1, bm_hops := hops,
             bm_creationTag := Some (op_now K s), bm_creationTime := op_now K s\<rparr>\<rparr>
          broadcast_addr (destPort s)]
        (s\<lparr>dataSendCache := lru_put (dataSendCache s) key 1 (ms + 1000)\<rparr>)))"
proof -
  obtain c where "lru_exists (dataSendCache s) key ms = Inr c"
    using lru.exists_total[OF assms(4)] by blast
  with assms(1-3) show ?thesis
    unfolding relay_found_def Let_def l3_str_ipv4 res_bind_Inr md5_found_key key_def ms_def
    by (simp add: broadcastSimpleMessage_hops_def sendSimpleMessage_def op_now_def)
qed

lemma mam_hops_not_decreased_witness:
  "\<exists>s' p. relay_found ref_kernel mam_example_env (l3_of_ipv4 9) 5 mam_example_state = Inr s' \<and>
     SendTo p broadcast_addr 20 \<in> set (mam_log s') \<and> bm_hops (up_payload p) = 5"
proof -
  have "lru_exists (lru_new 100 :: (string, int) lru_cache) k t = Inr False" for k t
    by (simp add: lru_exists_def lru_new_def)
  with mam_hops_not_decreased[of mam_example_state 5 ref_kernel mam_example_env 9]
  show ?thesis by (simp add: mam_example_fields lru_inv_new mam_act_def)
qed

section \<open>Identifiers\<close>

definition hex_chars :: string where "hex_chars = ''0123456789abcdef''"

lemma show_hex_digit: "n < 16 \<Longrightarrow> show_hex n = [hex_chars ! n]"
proof -
  assume "n < 16"
  then have "n \<in> {0, 1, 2, 3, 4, 5, 6, 7, 8, 9, 10, 11, 12, 13, 14, 15}"
    by (simp add: numeral_eq_Suc less_Suc_eq)
  then show ?thesis
    by (auto simp: show_hex.simps hex_digit_def hex_chars_def char_of_def bit_Suc_0_iff)
qed

lemma mam_hex_draws_hex:
  assumes "\<And>n. e_dis E n < 16"
  shows "length (mam_hex_draws E d n) = n" and "set (mam_hex_draws E d n) \<subseteq> set hex_chars"
proof -
  have "hex_chars ! k \<in> set hex_chars" if "k < 16" for k
    using that by (intro nth_mem) (simp add: hex_chars_def)
  then show "length (mam_hex_draws E d n) = n" and "set (mam_hex_draws E d n) \<subseteq> set hex_chars"
    using assms by (auto simp: mam_hex_draws_def show_hex_digit length_concat comp_def sum_list_triv)
qed

text \<open>
  The identifiers are version 4 UUIDs: 36 characters, hexadecimal digits but for the hyphens, the
  version 4 and a variant digit 8, 9, a or b, whatever the generators draw in their ranges.
\<close>

theorem mam_uuid_format:
  assumes "\<And>n. e_dis E n < 16" and "\<And>n. 8 \<le> e_dis2 E n \<and> e_dis2 E n \<le> 11"
  shows "\<exists>a b c v d e. fst (generate_uuid_v4 E s) = a @ ''-'' @ b @ ''-4'' @ c @ ''-'' @ [v] @ d @ ''-'' @ e \<and>
    map length [a, b, c, d, e] = [8, 4, 3, 3, 12] \<and> v \<in> set ''89ab'' \<and>
    (\<Union>x\<in>{a, b, c, d, e}. set x) \<subseteq> set hex_chars"
proof -
  define k where "k = draws s"
  have "e_dis2 E (k + 15) \<in> {8, 9, 10, 11}" using assms(2)[of "k + 15"] by auto
  then obtain v where v: "show_hex (e_dis2 E (k + 15)) = [v]" "v \<in> set ''89ab''"
    by (auto simp: show_hex_digit hex_chars_def)
  note draws = mam_hex_draws_hex[of E, OF assms(1)]
  show ?thesis
    by (rule exI[of _ "mam_hex_draws E k 8"], rule exI[of _ "mam_hex_draws E (k + 8) 4"],
        rule exI[of _ "mam_hex_draws E (k + 12) 3"], rule exI[of _ v],
        rule exI[of _ "mam_hex_draws E (k + 16) 3"], rule exI[of _ "mam_hex_draws E (k + 19) 12"])
      (use draws v in \<open>simp add: generate_uuid_v4_def Let_def k_def[symmetric]\<close>)
qed

lemma mam_uuid_format_witness:
  "\<exists>v. v \<in> set ''89ab'' \<and> (\<exists>a b. fst (generate_uuid_v4 mam_example_env mam_example_state) = a @ [v] @ b)"
proof -
  have "\<And>n. e_dis mam_example_env n < 16"
    "\<And>n. 8 \<le> e_dis2 mam_example_env n \<and> e_dis2 mam_example_env n \<le> 11"
    by (simp_all add: mam_example_env_def)
  from mam_uuid_format[OF this, of mam_example_state] show ?thesis by (metis append_assoc)
qed

section \<open>Friends\<close>

context mam_module
begin

lemma receive_queues_grow:
  assumes "res_run (mam_receive K E) s evs = Inr s'"
  shows "queues_grow s s'"
proof (rule res_run_invariant[where I = "queues_grow s", OF _ _ assms])
  fix t ev t'
  assume "queues_grow s t" and r: "mam_receive K E t ev = Inr t'"
  obtain d pk where ev: "ev = (d, pk)" by (cases ev)
  have "mam_change K E (t\<lparr>fes := k_advance K d (fes t)\<rparr>) t'"
    using r by (simp add: mam_receive_def ev mam_handlePacket_change)
  then have "queues_grow t t'" by (simp add: mam_change_def queues_grow_def)
  with \<open>queues_grow s t\<close> show "queues_grow s t'" by (rule queues_grow_trans)
qed (rule queues_grow_refl)

end

text \<open>
  The queue a friend keeps for a low power node never drains: \<open>processFriendPoll\<close> pops from a copy
  of the queue. Whatever packets arrive, polls included, no queue ever gets shorter, and a poll on a
  queue that is not empty is answered and changes nothing else.
\<close>

theorem mam_friend_queue_never_drains:
  assumes "mam_module K E"
  shows "(res_run (mam_receive K E) s evs = Inr s' \<longrightarrow> queues_grow s s') \<and>
    (friendNode s \<longrightarrow> map_of (lowPowerNodes s) (ipv4_str a) = Some (x # q) \<longrightarrow>
       (\<exists>l. processFriendPoll K E (l3_of_ipv4 a) s = Inr (mam_act l s)))"
  using mam_module.receive_queues_grow[OF assms] send_ok[of 1 K FRIEND_UPDATE "l3_of_ipv4 a" s]
  by (simp add: processFriendPoll_def l3_str_ipv4)

lemma mam_friend_queue_never_drains_witness:
  "\<exists>l. processFriendPoll ref_kernel mam_example_env (l3_of_ipv4 4)
     (mam_example_state\<lparr>lowPowerNodes := [(ipv4_str 4, [()])]\<rparr>) =
   Inr (mam_act l (mam_example_state\<lparr>lowPowerNodes := [(ipv4_str 4, [()])]\<rparr>))"
  using mam_friend_queue_never_drains[OF mam_example.mam_module_axioms,
      of "mam_example_state\<lparr>lowPowerNodes := [(ipv4_str 4, [()])]\<rparr>" "[]" _ 4 "()" "[]"]
  by (simp add: mam_example_fields)

section \<open>Stopping and restarting\<close>

text \<open>
  \<open>scheduledSendData\<close> is set and no packet of the node's own is scheduled: the state a node is left
  in when it stops or crashes while a packet is scheduled, since only the timer is cancelled.
\<close>

definition mam_silent :: "'f mam_kernel \<Rightarrow> 'f mam_node \<Rightarrow> bool" where
  "mam_silent K s \<longleftrightarrow> scheduledSendData s \<and>
     (k_pending K (fes s) (AppTimer SelfMsg) \<noteq> None \<longrightarrow> selfKind s \<noteq> SEND_MY_DATA)"

definition mam_sent :: "'f mam_node \<Rightarrow> string_set \<times> int" where
  "mam_sent s = (uniqueSentPacketUUIDs s, dataSendSequence s)"

lemmas mam_silent_defs = mam_silent_def mam_sent_def

lemma finish_silent [simp]:
  "scheduledSendData (finishActiveOperation K s) = scheduledSendData s"
  "selfKind (finishActiveOperation K s) = selfKind s"
  "mam_sent (finishActiveOperation K s) = mam_sent s"
  by (simp_all add: finishActiveOperation_def setOperationalState_def op_cancelEvent_def mam_sent_def Let_def)

context mam_module
begin

lemma finish_pending:
  "k_pending K (fes (finishActiveOperation K s)) (AppTimer x) = k_pending K (fes s) (AppTimer x)"
  by (simp add: finishActiveOperation_def setOperationalState_def op_cancelEvent_def kernel_pending Let_def)

lemma silent_finish: "mam_silent K (finishActiveOperation K s) = mam_silent K s"
  by (simp add: mam_silent_def finish_pending)

lemma silent_settle:
  "mam_silent K (snd (op_settle K s)) = mam_silent K s" "mam_sent (snd (op_settle K s)) = mam_sent s"
  by (simp_all add: op_settle_def Let_def silent_finish)

lemma silent_change:
  assumes "mam_change K E s s'" and "mam_silent K s"
  shows "mam_silent K s' \<and> mam_sent s' = mam_sent s"
  using assms by (auto simp: mam_change_def send_frozen_def mam_frame_def mam_silent_defs)

lemma silent_start:
  assumes "mam_handleStartOperation K s = Inr s'" and "scheduledSendData s" and "mam_silent K s"
  shows "mam_silent K s' \<and> mam_sent s' = mam_sent s"
  using assms
  by (auto simp: mam_handleStartOperation_def Let_def op_scheduleAt_def res_inr mam_silent_defs
      split: if_splits)

lemma silent_crash:
  assumes "mam_handleCrashOperation K s = Inr s'" and "scheduledSendData s"
  shows "mam_silent K s' \<and> mam_sent s' = mam_sent s"
  using assms
  by (auto simp: mam_handleCrashOperation_def mam_act_def op_cancelEvent_def mam_silent_defs kernel_pending)

lemma silent_stop:
  assumes "mam_handleStopOperation K E s = Inr s'" and "scheduledSendData s"
  shows "mam_silent K s' \<and> mam_sent s' = mam_sent s"
proof -
  define s1 where "s1 = (mam_act [SocketClose] (op_cancelEvent K (AppTimer SelfMsg) s))\<lparr>isDelayedFinish := True\<rparr>"
  from assms(1) obtain f where f: "sim_scheduleAt K (op_now K s1 + par_stopOperationTimeout E)
      ActiveOperationTimeout (fes s1) = Inr f" "s' = s1\<lparr>fes := f\<rparr>"
    unfolding mam_handleStopOperation_def delayActiveOperationFinish_def scheduleOperationTimeout_def
      op_scheduleAt_def res_inr s1_def[symmetric] by blast
  then show ?thesis
    using scheduleAt_Inr(3)[OF f(1)] assms(2)
    by (simp add: mam_silent_defs s1_def mam_act_def op_cancelEvent_def kernel_pending)
qed

lemma setSocketOptions_log:
  "mam_setSocketOptions E s = Inr s' \<Longrightarrow> \<exists>l. s' = mam_act l s"
  by (auto simp: mam_setSocketOptions_def Let_def split: if_splits option.splits)

lemma silent_processStart:
  assumes "mam_processStart K E s = Inr s'" and "mam_silent K s"
    and idle: "k_pending K (fes s) (AppTimer SelfMsg) = None"
  shows "mam_silent K s' \<and> mam_sent s' = mam_sent s"
proof -
  define I where "I = (\<lambda>t. scheduledSendData t \<and> mam_sent t = mam_sent s \<and> fes t = fes s)"
  from assms(1) obtain s1 s2 s3 where
    s1: "mam_setSocketOptions E (mam_act [SocketBind (if par_localAddress E \<noteq> []
      then e_resolve E (par_localAddress E) else l3_empty) (localPort s)] s) = Inr s1"
    and s2: "res_run (mam_resolve_step E) s1 (e_tokenize E (par_destAddresses E)) = Inr s2"
    and s3: "(if destAddresses s2 \<noteq> [] then Inr (s2\<lparr>selfKind := SEND_MY_DATA\<rparr>)
        else if 0 \<le> stopTime s2
        then op_scheduleAt K (stopTime s2) (AppTimer SelfMsg) (s2\<lparr>selfKind := STOP\<rparr>)
        else Inr s2) = Inr s3"
    and s': "(if lowPowerNode s3
        then check_that (l3_is_empty (connectedFriendNode s3)) (AssertFailed ''connectedFriendNode == empty'')
               (sendFriendRequest K s3)
        else Inr s3) = Inr s'"
    unfolding mam_processStart_def Let_def res_inr by blast
  have "I s1" using setSocketOptions_log[OF s1] assms(2) by (auto simp: I_def mam_act_def mam_silent_defs)
  have "I s2"
  proof (rule res_run_invariant[where I = I, OF _ \<open>I s1\<close> s2])
    fix t tok t'
    assume "I t" "mam_resolve_step E t tok = Inr t'"
    then show "I t'" by (auto simp: I_def mam_resolve_step_def Let_def res_inr mam_sent_def)
  qed
  then have "mam_silent K s3 \<and> mam_sent s3 = mam_sent s"
    using s3 idle
    by (auto simp: I_def mam_silent_defs op_scheduleAt_def res_inr split: if_splits)
  then show ?thesis
    using s' by (auto simp: sendFriendRequest_def res_inr mam_send_small_def Let_def mam_act_def
        mam_silent_defs split: if_splits)
qed

lemma silent_up:
  assumes "mam_handleMessageWhenUp K E ev s = Inr s'" and silent: "mam_silent K s"
    and idle: "ev = SelfMessage SelfMsg \<Longrightarrow> selfKind s \<noteq> SEND_MY_DATA \<and>
       k_pending K (fes s) (AppTimer SelfMsg) = None"
  shows "mam_silent K s' \<and> mam_sent s' = mam_sent s"
proof -
  have poll: ?thesis if r: "ev = SelfMessage PollTimer"
  proof -
    from assms(1) r obtain s1 where s1: "sendFriendPoll K s = Inr s1"
        "op_scheduleAt K (poll_time K E s1) (AppTimer PollTimer) s1 = Inr s'"
      by (auto simp: mam_handleMessageWhenUp_def res_inr)
    have "mam_still K s s'"
      using sendFriendPoll_still[OF s1(1)] op_scheduleAt_still[OF s1(2)] by (auto intro: mam_still_trans)
    then show ?thesis using silent_change[OF mam_still_change silent] by blast
  qed
  have self: ?thesis if r: "ev = SelfMessage SelfMsg"
  proof (cases "selfKind s")
    case START
    with r assms(1) have "mam_processStart K E s = Inr s'" by (simp add: mam_handleMessageWhenUp_def)
    then show ?thesis using silent_processStart[OF _ silent] idle[OF r] by simp
  next
    case STOP
    with r assms show ?thesis
      by (auto simp: mam_handleMessageWhenUp_def mam_processStop_def mam_act_def mam_silent_defs)
  qed (use r assms in \<open>auto simp: mam_handleMessageWhenUp_def\<close>)
  show ?thesis
  proof (cases ev)
    case (SelfMessage x)
    then show ?thesis using poll self by (cases x) simp_all
  next
    case (Arrival m)
    with assms(1) obtain pk where "mam_handlePacket K E pk s = Inr s'"
      by (cases m) (auto simp: mam_handleMessageWhenUp_def)
    then show ?thesis using silent_change[OF mam_handlePacket_change silent] by blast
  qed
qed

lemma silent_dispatch:
  assumes "op_dispatch K (mam_handleMessageWhenUp K E) ev s = Inr s'" and "mam_silent K s"
    and "ev = SelfMessage SelfMsg \<Longrightarrow> selfKind s \<noteq> SEND_MY_DATA \<and>
       k_pending K (fes s) (AppTimer SelfMsg) = None"
  shows "mam_silent K s' \<and> mam_sent s' = mam_sent s"
proof -
  from assms(1) have "mam_handleMessageWhenUp K E ev s = Inr s' \<or> s' = s"
    by (auto simp: op_dispatch_def handleMessageWhenDown_def split: op_state.splits app_event.splits if_splits)
  then show ?thesis using silent_up[OF _ assms(2,3)] assms(2) by blast
qed

lemma silent_lifecycle_start:
  assumes "mam_input_step K E s (Lifecycle ModuleStartOperation) = Inr s'" and "mam_silent K s"
  shows "mam_silent K s' \<and> mam_sent s' = mam_sent s"
proof -
  define t where "t = s\<lparr>operationalState := STARTING_OPERATION,
      activeOperation := Some ModuleStartOperation, endState := OPERATING, isDelayedFinish := False\<rparr>"
  from assms(1) obtain r where "mam_handleStartOperation K t = Inr r" "s' = snd (op_settle K r)"
    by (auto simp: mam_input_step_def handleOperationStage_def setupActiveOperation_def res_inr t_def)
  moreover have "mam_silent K t" "mam_sent t = mam_sent s" "scheduledSendData t"
    using assms(2) by (simp_all add: t_def mam_silent_defs)
  ultimately show ?thesis using silent_start[of t r] by (simp add: silent_settle)
qed

lemma silent_lifecycle_end:
  assumes "mam_input_step K E s (Lifecycle op) = Inr s'" and "scheduledSendData s"
    and "op = ModuleCrashOperation \<or> op = ModuleStopOperation"
  shows "mam_silent K s' \<and> mam_sent s' = mam_sent s"
  using assms(3)
proof
  assume op: "op = ModuleStopOperation"
  define t where "t = s\<lparr>operationalState := STOPPING_OPERATION, activeOperation := Some op,
      endState := NOT_OPERATING, isDelayedFinish := False\<rparr>"
  from assms(1) op obtain r where "mam_handleStopOperation K E t = Inr r" "s' = snd (op_settle K r)"
    by (auto simp: mam_input_step_def handleOperationStage_def setupActiveOperation_def res_inr t_def)
  moreover have "mam_sent t = mam_sent s" "scheduledSendData t"
    using assms(2) by (simp_all add: t_def mam_sent_def)
  ultimately show ?thesis using silent_stop[of t r] by (simp add: silent_settle)
next
  assume op: "op = ModuleCrashOperation"
  define t where "t = s\<lparr>operationalState := CRASHING_OPERATION, activeOperation := Some op,
      endState := NOT_OPERATING, isDelayedFinish := False\<rparr>"
  from assms(1) op obtain r where "mam_handleCrashOperation K t = Inr r" "s' = finishActiveOperation K r"
    by (auto simp: mam_input_step_def handleOperationStage_def setupActiveOperation_def res_inr t_def)
  moreover have "mam_sent t = mam_sent s" "scheduledSendData t"
    using assms(2) by (simp_all add: t_def mam_sent_def)
  ultimately show ?thesis using silent_crash[of t r] by (simp add: silent_finish)
qed

lemma silent_step:
  assumes step: "mam_input_step K E s i = Inr s'" and valid: "mam_valid K s i"
    and silent: "mam_silent K s"
  shows "mam_silent K s' \<and> mam_sent s' = mam_sent s"
proof (cases i)
  case (Pass d)
  with step silent show ?thesis
    by (auto simp: mam_input_step_def mam_silent_defs kernel_pending)
next
  case (Lifecycle op)
  have "scheduledSendData s" using silent by (simp add: mam_silent_def)
  then show ?thesis
    using step[unfolded Lifecycle] silent_lifecycle_start[OF _ silent] silent_lifecycle_end
    by (cases op) simp_all
next
  case (Deliver ev)
  show ?thesis
  proof (cases ev)
    case (Message m)
    with step Deliver have "op_dispatch K (mam_handleMessageWhenUp K E) (Arrival m) s = Inr s'"
      by (simp add: mam_input_step_def op_deliver_def op_handleMessage_def)
    then show ?thesis by (rule silent_dispatch[OF _ silent]) simp
  next
    case (Timer x)
    let ?t = "s\<lparr>fes := k_deliver K x (fes s)\<rparr>"
    have t: "mam_silent K ?t" "mam_sent ?t = mam_sent s" "scheduledSendData ?t"
      using silent by (auto simp: mam_silent_defs kernel_pending)
    show ?thesis
    proof (cases x)
      case ActiveOperationTimeout
      let ?r = "op_cancelEvent K ActiveOperationExtraTimer ?t"
      from step Deliver Timer ActiveOperationTimeout obtain r where "mam_handleCrashOperation K ?r = Inr r"
          "s' = finishActiveOperation K r"
        by (auto simp: mam_input_step_def op_deliver_def op_handleMessage_def
            handleActiveOperationTimeout_def res_inr)
      moreover have "scheduledSendData ?r" "mam_sent ?r = mam_sent s"
        using t by (simp_all add: op_cancelEvent_def mam_sent_def)
      ultimately show ?thesis using silent_crash[of ?r r] by (simp add: silent_finish)
    next
      case ActiveOperationExtraTimer
      with step Deliver Timer have "s' = finishActiveOperation K ?t"
        by (simp add: mam_input_step_def op_deliver_def op_handleMessage_def)
      with t show ?thesis by (simp add: silent_finish)
    next
      case (AppTimer y)
      with step Deliver Timer have "op_dispatch K (mam_handleMessageWhenUp K E) (SelfMessage y) ?t = Inr s'"
        by (simp add: mam_input_step_def op_deliver_def op_handleMessage_def)
      moreover have "selfKind ?t \<noteq> SEND_MY_DATA \<and> k_pending K (fes ?t) (AppTimer SelfMsg) = None"
        if "y = SelfMsg"
        using valid silent that Deliver Timer AppTimer
        by (auto simp: mam_valid_def k_due_def mam_silent_def kernel_pending)
      ultimately have "mam_silent K s' \<and> mam_sent s' = mam_sent ?t"
        by (intro silent_dispatch[OF _ t(1)]) auto
      with t(2) show ?thesis by simp
    qed
  qed
qed

lemma silent_run:
  "mam_run K E s s' \<Longrightarrow> mam_silent K s \<Longrightarrow> mam_silent K s' \<and> mam_sent s' = mam_sent s"
  by (induction rule: mam_run.induct) (auto dest: silent_step)

lemma silent_after_restart:
  assumes "scheduledSendData s" and "op = ModuleCrashOperation \<or> op = ModuleStopOperation"
    and "mam_input_step K E s (Lifecycle op) = Inr s1" and "mam_run K E s1 s2"
  shows "uniqueSentPacketUUIDs s2 = uniqueSentPacketUUIDs s \<and> dataSendSequence s2 = dataSendSequence s"
  using silent_lifecycle_end[OF assms(3,1,2)] silent_run[OF assms(4)] by (simp add: mam_sent_def)

text \<open>The poll timer of a low power node outlives the node.\<close>

lemma poll_timer_survives:
  assumes "operationalState s = OPERATING" and "activeOperation s = None"
    and "k_pending K (fes s) (AppTimer PollTimer) = Some t"
  shows "\<exists>s'. mam_input_step K E s (Lifecycle ModuleCrashOperation) = Inr s' \<and>
    k_pending K (fes s') (AppTimer PollTimer) = Some t \<and>
    mam_input_step K E s' (Deliver (Timer (AppTimer PollTimer))) =
      Inl (RuntimeError ''Self message received when down'')"
  using assms
  by (simp add: mam_input_step_def handleOperationStage_def setupActiveOperation_def
      mam_handleCrashOperation_def finishActiveOperation_def setOperationalState_def mam_act_def
      op_cancelEvent_def kernel_pending op_deliver_def op_handleMessage_def op_dispatch_def
      handleMessageWhenDown_def Let_def)

text \<open>Stopping closes the socket; the answer of the UDP module is not a packet.\<close>

lemma stop_fails:
  assumes "operationalState s = OPERATING" and "activeOperation s = None"
    and "k_pending K (fes s) ActiveOperationTimeout = None"
  shows "\<exists>s'. mam_input_step K E s (Lifecycle ModuleStopOperation) = Inr s' \<and>
    mam_log s' = mam_log s @ [SocketClose] \<and>
    mam_input_step K E s' (Deliver (Message (IndicationMessage UDP_I_SOCKET_CLOSED True))) =
      Inl (RuntimeError ''check_and_cast'')"
proof -
  let ?f = "k_cancel K (AppTimer SelfMsg) (fes s)"
  let ?t = "op_now K s + par_stopOperationTimeout E"
  let ?s1 = "s\<lparr>operationalState := STOPPING_OPERATION, activeOperation := Some ModuleStopOperation,
      endState := NOT_OPERATING, isDelayedFinish := True, fes := ?f, mam_log := mam_log s @ [SocketClose]\<rparr>"
  have "k_pending K ?f ActiveOperationTimeout = None" "k_now K ?f \<le> ?t"
    using assms timeout_pos by (auto simp: kernel_pending kernel_now op_now_def)
  from scheduleAt_ok[OF this] obtain f' where
    f': "sim_scheduleAt K ?t ActiveOperationTimeout ?f = Inr f'" by blast
  have "mam_input_step K E s (Lifecycle ModuleStopOperation) = Inr (?s1\<lparr>fes := f'\<rparr>)"
    using assms f'
    by (simp add: mam_input_step_def handleOperationStage_def setupActiveOperation_def
        mam_handleStopOperation_def delayActiveOperationFinish_def scheduleOperationTimeout_def
        op_isScheduled_def op_scheduleAt_def op_cancelEvent_def mam_act_def op_settle_def op_now_def
        kernel_now kernel_pending)
  then show ?thesis
    by (simp add: mam_input_step_def op_deliver_def op_handleMessage_def op_dispatch_def
        mam_handleMessageWhenUp_def)
qed

end

text \<open>
  (C34) A node that stops or crashes while a packet of its own is scheduled never sends a packet of its
  own again: the operation cancels the timer but leaves \<open>scheduledSendData\<close> set, so after a restart
  \<open>sendMyDataToSink\<close> takes the packet for scheduled for ever.
\<close>

theorem mam_silent_after_restart:
  assumes "mam_module K E" and "scheduledSendData s"
    and "op = ModuleCrashOperation \<or> op = ModuleStopOperation"
    and "mam_input_step K E s (Lifecycle op) = Inr s1" and "mam_run K E s1 s2"
  shows "uniqueSentPacketUUIDs s2 = uniqueSentPacketUUIDs s \<and> dataSendSequence s2 = dataSendSequence s"
  using assms by (rule mam_module.silent_after_restart)

lemma mam_example_crash:
  "\<exists>s1. mam_input_step ref_kernel mam_example_env (mam_example_state\<lparr>scheduledSendData := True\<rparr>)
     (Lifecycle ModuleCrashOperation) = Inr s1"
  by (simp add: mam_input_step_def handleOperationStage_def setupActiveOperation_def
      mam_handleCrashOperation_def mam_example_state_def mam_example_local_def mam_new_def)

lemma mam_silent_after_restart_witness:
  "\<exists>s1. mam_input_step ref_kernel mam_example_env (mam_example_state\<lparr>scheduledSendData := True\<rparr>)
     (Lifecycle ModuleCrashOperation) = Inr s1 \<and> uniqueSentPacketUUIDs s1 = []"
proof -
  obtain s1 where s1: "mam_input_step ref_kernel mam_example_env
      (mam_example_state\<lparr>scheduledSendData := True\<rparr>) (Lifecycle ModuleCrashOperation) = Inr s1"
    using mam_example_crash by blast
  have "uniqueSentPacketUUIDs (mam_example_state\<lparr>scheduledSendData := True\<rparr>) = []"
    by (simp add: mam_example_state_def mam_example_local_def mam_new_def)
  with mam_silent_after_restart[OF mam_example.mam_module_axioms _ _ s1 run_start] s1
  show ?thesis by simp
qed



end
