(* ===== verification/L3Props.thy ===== *)
theory L3Props
  imports L3Address
begin

text \<open>
  What generic addresses promise whatever their type: prefixes match exactly when the first bits agree,
  and the text of an address is read back as the same address.
\<close>

section \<open>IPv6 addresses in a generic address\<close>

lemma word_halves64:
  fixes x y :: "32 word"
  shows "ucast (drop_bit 32 (push_bit 32 (ucast x) + ucast y :: 64 word) AND 0xFFFFFFFF) = x"
    and "ucast ((push_bit 32 (ucast x) + ucast y :: 64 word) AND 0xFFFFFFFF) = y"
proof -
  have m: "(0xFFFFFFFF :: 64 word) = mask 32" by (simp add: mask_eq_exp_minus_1)
  have s: "(push_bit 32 (ucast x) + ucast y :: 64 word) = push_bit 32 (ucast x) OR ucast y"
    by (rule disjunctive_add_eq_or) (auto simp: bit_simps bit_eq_iff dest: bit_imp_le_length)
  show "ucast (drop_bit 32 (push_bit 32 (ucast x) + ucast y :: 64 word) AND 0xFFFFFFFF) = x"
    unfolding m s by (rule bit_word_eqI) (auto simp: bit_simps dest: bit_imp_le_length)
  show "ucast ((push_bit 32 (ucast x) + ucast y :: 64 word) AND 0xFFFFFFFF) = y"
    unfolding m s by (rule bit_word_eqI) (auto simp: bit_simps dest: bit_imp_le_length)
qed

lemma l3_of_ipv6_facts:
  assumes "l3_of_ipv6 a = Inr x"
  shows "l3_getType x = IPv6" "l3_toIpv6 x = Inr a"
proof -
  from assms have x: "l3_getType x = IPv6"
    "x = \<lparr>l3_hi = push_bit 32 (ucast (ip6_d0 a)) + ucast (ip6_d1 a),
          l3_lo = push_bit 32 (ucast (ip6_d2 a)) + ucast (ip6_d3 a)\<rparr>"
    by (auto simp: l3_of_ipv6_def Let_def split: if_splits)
  then show "l3_getType x = IPv6" by blast
  have "ipv6_of_hi_lo (l3_hi x) (l3_lo x) = a"
    by (cases a) (simp add: x(2) ipv6_of_hi_lo_def word_halves64 ipv6_of_words_def)
  with x(1) show "l3_toIpv6 x = Inr a" by (simp add: l3_toIpv6_def l3_get_def)
qed

section \<open>Texts that are not of a type\<close>

text \<open>A text without a dot whose number stays small is no IPv4 address.\<close>

lemma ipv4_read_short:
  "(n + 1) * 10 ^ length (takeWhile is_digit s) \<le> 2147483648 \<Longrightarrow>
   \<exists>k. ipv4_read_number n s = Inr (k, dropWhile is_digit s)"
proof (induction n s rule: ipv4_read_number.induct)
  case (1 n)
  then show ?case by simp
next
  case (2 n c s)
  show ?case
  proof (cases "is_digit c")
    case True
    define m where "m = 10 * n + (of_char c - 48)"
    have "m + 1 \<le> 10 * (n + 1)" using True by (auto simp: m_def is_digit_def)
    then have "(m + 1) * 10 ^ length (takeWhile is_digit s) \<le> 10 * (n + 1) * 10 ^ length (takeWhile is_digit s)"
      by (rule mult_le_mono1)
    also have "\<dots> \<le> 2147483648" using 2(2) True by (simp add: algebra_simps)
    finally have small: "(m + 1) * 10 ^ length (takeWhile is_digit s) \<le> 2147483648" .
    have "m + 1 \<le> (m + 1) * 10 ^ length (takeWhile is_digit s)"
      using mult_le_mono2[of 1 "10 ^ length (takeWhile is_digit s)" "m + 1"] by simp
    with small have "m \<le> 2147483647" by linarith
    with "2.IH"[OF True m_def] small True show ?thesis by (simp add: m_def[symmetric] Let_def)
  next
    case False
    then show ?thesis by simp
  qed
qed

lemma ipv4_not_text:
  assumes "CHR ''.'' \<notin> set s" "CHR ''<'' \<notin> set s" "ipv4_read_number 0 s = Inr (k, r)" "set r \<subseteq> set s"
  shows "ipv4_isWellFormed s = Inr False"
proof -
  have "s \<noteq> ''<unspec>''" using assms(2) by auto
  moreover have "ipv4_parse_loop [] s = Inr None"
    using assms(1,3,4) by (cases s; cases r) (auto simp: ipv4_parse_loop.simps[of "[]"])
  ultimately show ?thesis by (simp add: ipv4_isWellFormed_def ipv4_parseIPAddress_def)
qed

lemma ipv4_not_short_text:
  assumes "CHR ''.'' \<notin> set s" "CHR ''<'' \<notin> set s" "length (takeWhile is_digit s) \<le> 9"
  shows "ipv4_isWellFormed s = Inr False"
proof -
  have "(0 + 1) * (10 :: nat) ^ length (takeWhile is_digit s) \<le> 10 ^ 9"
    using power_increasing[OF assms(3), of "10 :: nat"] by simp
  then obtain k where "ipv4_read_number 0 s = Inr (k, dropWhile is_digit s)"
    using ipv4_read_short[of 0 s] by fastforce
  with assms(1,2) show ?thesis by (rule ipv4_not_text) (auto dest: set_dropWhileD)
qed

text \<open>A text without a colon is no IPv6 address.\<close>

lemma c_read_digits_set: "set (snd (c_read_digits base n s)) \<subseteq> set s"
  by (induction s arbitrary: n) (auto split: option.splits)

lemma strtoul_sign_set: "set (snd (strtoul_sign s)) \<subseteq> set s"
proof -
  have "set (dropWhile c_isspace s) \<subseteq> set s" by (auto dest: set_dropWhileD)
  then show ?thesis
    unfolding strtoul_sign_def by (cases "dropWhile c_isspace s" rule: list.exhaust) (simp_all del: dropWhile_eq_Nil_conv)
qed

lemma strtoul_0x_set: "set (strtoul_0x base s) \<subseteq> set s"
  by (cases "(base, s)" rule: strtoul_0x.cases) auto

lemma c_strtoul_set:
  assumes "c_strtoul base s = Some (n, rest)"
  shows "set rest \<subseteq> set s"
proof -
  obtain neg s1 where s1: "strtoul_sign s = (neg, s1)" by (cases "strtoul_sign s")
  have "set rest \<subseteq> set (strtoul_0x base s1)"
    using assms c_read_digits_set[of base 0 "strtoul_0x base s1"]
    by (auto simp: c_strtoul_def s1 split: list.splits if_splits prod.splits)
  also have "\<dots> \<subseteq> set s1" by (rule strtoul_0x_set)
  also have "\<dots> \<subseteq> set s" using strtoul_sign_set[of s] by (simp add: s1)
  finally show ?thesis .
qed

lemma ipv6_not_text:
  assumes "CHR '':'' \<notin> set s" "CHR ''<'' \<notin> set s"
  shows "\<exists>y. ipv6_tryParse (Some s) x = (False, y)"
proof -
  have "s \<noteq> ''<unspec>''" using assms(2) by auto
  moreover obtain gs t where g: "parseGroups [] s = (gs, t)" by (cases "parseGroups [] s")
  moreover have "length gs \<le> 1 \<and> CHR '':'' \<notin> set t"
  proof (cases "c_strtoul 16 s")
    case None
    with g assms(1) show ?thesis by (auto simp: parseGroups.simps[of "[]"])
  next
    case (Some p)
    obtain n e where p: "p = (n, e)" by (cases p)
    have "CHR '':'' \<notin> set e" using c_strtoul_set[of 16 s n e] Some p assms(1) by auto
    with g assms(1) Some p show ?thesis
      by (cases e) (auto simp: parseGroups.simps[of "[]"] split: if_splits)
  qed
  moreover from this have "take 2 t \<noteq> ''::''" by (cases t) auto
  ultimately show ?thesis by (auto simp: ipv6_tryParse_def ipv6_doTryParse_def Let_def)
qed

text \<open>A text shorter than twelve characters is no MAC address.\<close>

lemma mac_count_le: "mac_count_digits n s = Some k \<Longrightarrow> k \<le> n + length s"
  by (induction n s rule: mac_count_digits.induct) (auto split: if_splits)

lemma mac_not_text: "length s < 12 \<Longrightarrow> mac_tryParse (Some s) a = Inr (False, a)"
  using mac_count_le[of 0 s 12] by (auto simp: mac_tryParse_def)

section \<open>Characters of the texts\<close>

lemma show_hex_length: "n < 16 ^ k \<Longrightarrow> 0 < k \<Longrightarrow> length (show_hex n) \<le> k"
proof (induction n arbitrary: k rule: show_hex.induct)
  case (1 n)
  show ?case
  proof (cases "n < 16")
    case True
    with "1.prems" show ?thesis by (simp add: show_hex.simps[of n])
  next
    case False
    with "1.prems" obtain j where k: "k = Suc j" "0 < j" by (cases k; cases "k - 1") auto
    with "1.prems" have "n div 16 < 16 ^ j" by (simp add: div_less_iff_less_mult mult.commute)
    from "1.IH"[OF False this k(2)] False k(1) show ?thesis by (simp add: show_hex.simps[of n])
  qed
qed

lemma join_groups_chars:
  "c \<in> set (join_groups hs) \<Longrightarrow> c = CHR '':'' \<or> (\<exists>d < 16. c = hex_digit d)"
  by (induction hs rule: join_groups.induct) (auto dest: show_hex_digits)

lemma hex_digit_not_dot: "d < 16 \<Longrightarrow> hex_digit d \<noteq> CHR ''.''"
  by (auto dest!: arg_cong[where f = "of_char :: char \<Rightarrow> nat"] simp: hex_digit_char split: if_splits)

lemma join_groups_not:
  "CHR ''.'' \<notin> set (join_groups hs)" "CHR ''<'' \<notin> set (join_groups hs)"
  by (auto dest!: join_groups_chars dest: hex_digit_not(6)[THEN not_sym] hex_digit_not_dot[THEN not_sym])

lemma digits_before:
  "\<not> is_digit c \<Longrightarrow> length (takeWhile is_digit (s @ c # t)) \<le> length s"
  by (induction s) auto

lemma colon_not_digit [simp]: "\<not> is_digit CHR '':''"
  by (simp add: is_digit_def)

lemma join_groups_digits:
  assumes "\<forall>g \<in> set hs. g \<le> 0xffff" and "t = [] \<or> hd t = CHR '':''"
  shows "length (takeWhile is_digit (join_groups hs @ t)) \<le> 4"
proof (cases hs rule: join_groups.cases)
  case 1
  with assms(2) show ?thesis by (cases t) auto
next
  case (2 g)
  have "length (show_hex g) \<le> 4" using show_hex_length[of g 4] assms(1) 2 by simp
  with assms(2) 2 digits_before[of "CHR '':''" "show_hex g"] length_takeWhile_le[of is_digit "show_hex g"]
  show ?thesis by (cases t) (auto intro: order_trans)
next
  case (3 g h gs)
  have "length (show_hex g) \<le> 4" using show_hex_length[of g 4] assms(1) 3 by simp
  with 3 digits_before[of "CHR '':''" "show_hex g" "join_groups (h # gs) @ t"] show ?thesis by simp
qed

text \<open>The texts of the other types are no IPv4 addresses.\<close>

lemma ipv6_text_not_ipv4:
  assumes "\<not> ipv6_isUnspecified a"
  shows "ipv4_isWellFormed (ipv6_str a) = Inr False"
proof -
  let ?gs = "ipv6_groups a"
  obtain s e where "s = e \<longrightarrow> s = 0"
    and shown: "ipv6_str a = join_groups (take s ?gs) @ (if s \<noteq> e then ''::'' else []) @ join_groups (drop e ?gs)"
    using ipv6_str_gap[OF assms] .
  have small: "\<forall>g \<in> set (take s ?gs). g \<le> 0xffff" "\<forall>g \<in> set (drop e ?gs). g \<le> 0xffff"
    using ipv6_groups_facts(2)[of a] by (auto dest: in_set_takeD in_set_dropD)
  have "length (takeWhile is_digit (ipv6_str a)) \<le> 4"
  proof (cases "s = e")
    case True
    with \<open>s = e \<longrightarrow> s = 0\<close> join_groups_digits[OF small(2), of "[]"] show ?thesis by (simp add: shown)
  next
    case False
    with join_groups_digits[OF small(1), of "''::'' @ join_groups (drop e ?gs)"] show ?thesis by (simp add: shown)
  qed
  then show ?thesis using join_groups_not by (intro ipv4_not_short_text) (auto simp: shown)
qed

lemma mac_hex_char_not:
  assumes "n < 16"
  shows "mac_hex_char n \<noteq> CHR ''.''" "mac_hex_char n \<noteq> CHR ''<''" "mac_hex_char n \<noteq> CHR '':''"
proof -
  have n: "of_char (mac_hex_char n) = (if n < 10 then 48 + n else 55 + n)"
    using assms by (simp add: mac_hex_char_def)
  have eq: "mac_hex_char n = c \<Longrightarrow> of_char c = (if n < 10 then 48 + n else 55 + n)" for c using n by simp
  show "mac_hex_char n \<noteq> CHR ''.''" "mac_hex_char n \<noteq> CHR ''<''" "mac_hex_char n \<noteq> CHR '':''"
    using assms by (auto dest!: eq split: if_splits)
qed

lemma mac_text_chars:
  "CHR ''.'' \<notin> set (mac_str m)" "CHR ''<'' \<notin> set (mac_str m)" "CHR '':'' \<notin> set (mac_str m)"
  "length (takeWhile is_digit (mac_str m)) \<le> 9"
proof -
  obtain b0 b1 b2 b3 b4 b5 where b: "mac_getAddressBytes m = Inr [b0, b1, b2, b3, b4, b5]"
    by (simp add: mac_getAddressBytes_def mac_getAddressByte_def)
  note not = mac_hex_char_not[OF mac_nibbles(1), THEN not_sym] mac_hex_char_not[OF mac_nibbles(2), THEN not_sym]
  show "CHR ''.'' \<notin> set (mac_str m)" "CHR ''<'' \<notin> set (mac_str m)" "CHR '':'' \<notin> set (mac_str m)"
    by (simp_all add: mac_str_def b not)
  have "\<not> is_digit CHR ''-''" by (simp add: is_digit_def)
  then show "length (takeWhile is_digit (mac_str m)) \<le> 9" by (simp add: mac_str_def b)
qed

section \<open>Reading back\<close>

lemma show_nat_not:
  "CHR ''.'' \<notin> set (show_nat n)" "CHR '':'' \<notin> set (show_nat n)" "CHR ''<'' \<notin> set (show_nat n)"
  using show_nat_digits[of _ n] digit_is by metis+

lemma c_strtol_int:
  assumes "- (2 ^ 63) \<le> v" "v < 2 ^ 63"
  shows "c_strtol (show_int v) = (v, [])"
proof -
  obtain c t where n: "show_nat (nat \<bar>v\<bar>) = c # t" "is_digit c" using show_nat_hd by blast
  have read: "c_read_digits 10 0 (c # t) = (nat \<bar>v\<bar>, [])"
    using c_read_dec[of "nat \<bar>v\<bar>" "[]"] n(1) by simp
  have sign: "strtoul_sign (show_int v) = (v < 0, c # t)"
  proof (cases "v < 0")
    case True
    then have "show_int v = CHR ''-'' # c # t" using n(1) by (simp add: show_int_def)
    then show ?thesis using True by (simp add: strtoul_sign_def c_isspace_def)
  next
    case False
    then have "show_int v = c # t" using n(1) by (simp add: show_int_def)
    then show ?thesis using False digit_is[OF n(2)] by (simp add: strtoul_sign_def)
  qed
  from digit_is(7)[OF n(2)] obtain d where "c_digit 10 c = Some d" by blast
  with sign read assms show ?thesis unfolding c_strtol_def by auto
qed

lemma module_id_text:
  fixes i :: "32 word"
  shows "length (show_int (sint i)) < 12" "ipv4_isWellFormed (show_int (sint i)) = Inr False"
    "\<exists>y. ipv6_tryParse (Some (show_int (sint i))) x = (False, y)"
    "moduleId_tryParse (show_int (sint i)) = (True, i)"
proof -
  define v where "v = sint i"
  have v: "- (2 ^ 31) \<le> v" "v < 2 ^ 31" using sint_ge[of i] sint_lt[of i] by (simp_all add: v_def)
  then have "nat \<bar>v\<bar> < 10 ^ 10" by simp
  then have len: "length (show_nat (nat \<bar>v\<bar>)) \<le> 10" using show_nat_at_most[of _ 10] by simp
  have show_v: "show_int v = (if v < 0 then CHR ''-'' # show_nat (nat \<bar>v\<bar>) else show_nat (nat \<bar>v\<bar>))"
    by (simp add: show_int_def)
  then show "length (show_int (sint i)) < 12" using len by (auto simp flip: v_def)
  have chars: "CHR ''.'' \<notin> set (show_int v)" "CHR '':'' \<notin> set (show_int v)" "CHR ''<'' \<notin> set (show_int v)"
    using show_nat_not by (simp_all add: show_v)
  show "ipv4_isWellFormed (show_int (sint i)) = Inr False"
    unfolding v_def[symmetric]
  proof (cases "v < 0")
    case True
    then have "ipv4_read_number 0 (show_int v) = Inr (0, show_int v)" by (simp add: show_v is_digit_def)
    with chars(1,3) show "ipv4_isWellFormed (show_int v) = Inr False" by (rule ipv4_not_text) simp
  next
    case False
    then have "ipv4_read_number 0 (show_int v) = Inr (nat v, [])"
      using v ipv4_read_digits[of "nat v" "[]"] by (simp add: show_v)
    with chars(1,3) show "ipv4_isWellFormed (show_int v) = Inr False" by (rule ipv4_not_text) simp
  qed
  show "\<exists>y. ipv6_tryParse (Some (show_int (sint i))) x = (False, y)"
    using ipv6_not_text[OF chars(2,3)] by (simp add: v_def)
  have "c_strtol (show_int v) = (v, [])" using v by (intro c_strtol_int) simp_all
  then show "moduleId_tryParse (show_int (sint i)) = (True, i)"
    by (simp add: moduleId_tryParse_def v_def)
qed

text \<open>A path of a module starts with a letter that is no hexadecimal digit, and has no colon.\<close>

definition path_text :: "string \<Rightarrow> bool" where
  "path_text p \<longleftrightarrow> p \<noteq> [] \<and> (hd p \<in> set ''ghijklmnopqrstuvwxyzGHIJKLMNOPQRSTUVWXYZ'')
     \<and> CHR '':'' \<notin> set p \<and> CHR ''<'' \<notin> set p"

lemma path_letter:
  assumes "c \<in> set ''ghijklmnopqrstuvwxyzGHIJKLMNOPQRSTUVWXYZ''"
  shows "\<not> is_digit c" "\<not> c_isxdigit c" "\<not> c_isspace c" "c_digit 10 c = None"
    "c \<noteq> CHR ''-''" "c \<noteq> CHR ''+''" "c \<noteq> CHR '':''" "c \<noteq> CHR '' ''" "c \<noteq> CHR ''<''"
  using assms
  by (auto simp: is_digit_def c_isxdigit_def c_isdigit_def c_isspace_def c_digit_def)

lemma path_text_reads:
  assumes "path_text p"
  shows "ipv4_isWellFormed p = Inr False" "\<exists>y. ipv6_tryParse (Some p) x = (False, y)"
    "mac_tryParse (Some p) a = Inr (False, a)" "\<exists>i. moduleId_tryParse p = (False, i)"
proof -
  from assms obtain c t where p: "p = c # t" by (cases p) (auto simp: path_text_def)
  with assms have c: "c \<in> set ''ghijklmnopqrstuvwxyzGHIJKLMNOPQRSTUVWXYZ''" by (simp add: path_text_def)
  note l = path_letter[OF c]
  from l show "ipv4_isWellFormed p = Inr False"
    by (simp add: ipv4_isWellFormed_def ipv4_parseIPAddress_def ipv4_parse_loop.simps p)
  show "\<exists>y. ipv6_tryParse (Some p) x = (False, y)"
    using assms by (intro ipv6_not_text) (simp_all add: path_text_def)
  from l show "mac_tryParse (Some p) a = Inr (False, a)" by (simp add: mac_tryParse_def p)
  from l show "\<exists>i. moduleId_tryParse p = (False, i)"
    by (simp add: moduleId_tryParse_def c_strtol_def strtoul_sign_def p)
qed

text \<open>
  (C21) For an IPv4 or IPv6 address and a length that its version allows, \<open>matches\<close> answers, without an
  error, whether the first bits of the two addresses agree, and IPv4 addresses match exactly when
  \<open>getPrefix\<close> gives the same prefix for both.
\<close>

theorem l3_prefixes:
  "(p \<le> 32 \<longrightarrow>
     l3_matches (l3_of_ipv4 a) (l3_of_ipv4 b) (int p) = Inr (\<forall>n < p. ipv4_bit a n = ipv4_bit b n) \<and>
     (\<exists>x y. l3_getPrefix (l3_of_ipv4 a) (int p) = Inr x \<and> l3_getPrefix (l3_of_ipv4 b) (int p) = Inr y \<and>
        l3_eq x y = l3_matches (l3_of_ipv4 a) (l3_of_ipv4 b) (int p))) \<and>
   (p \<le> 128 \<and> l3_of_ipv6 a6 = Inr x6 \<and> l3_of_ipv6 b6 = Inr y6 \<longrightarrow>
     l3_matches x6 y6 (int p) = Inr (\<forall>n < p. ipv6_bit a6 n = ipv6_bit b6 n))"
proof (intro conjI impI)
  assume p: "p \<le> 32"
  have mask: "ipv4_makeNetmask (int p) = Inr (ipv4_netmask p)"
    using p by (simp add: ipv4_makeNetmask_def ipv4_checkNetmaskLength_def)
  show m: "l3_matches (l3_of_ipv4 a) (l3_of_ipv4 b) (int p) = Inr (\<forall>n < p. ipv4_bit a n = ipv4_bit b n)"
    using p by (simp add: l3_matches_def mask ipv4_masked_bits)
  have "l3_getPrefix (l3_of_ipv4 c) (int p) = Inr (l3_of_ipv4 (c AND ipv4_netmask p))" for c
    by (simp add: l3_getPrefix_def ipv4_getPrefix_def mask ipv4_doAnd_def)
  then show "\<exists>x y. l3_getPrefix (l3_of_ipv4 a) (int p) = Inr x \<and> l3_getPrefix (l3_of_ipv4 b) (int p) = Inr y \<and>
      l3_eq x y = l3_matches (l3_of_ipv4 a) (l3_of_ipv4 b) (int p)"
    using p by (simp add: m l3_eq_ipv4 ipv4_and_netmask_eq)
next
  assume *: "p \<le> 128 \<and> l3_of_ipv6 a6 = Inr x6 \<and> l3_of_ipv6 b6 = Inr y6"
  with l3_of_ipv6_facts[of a6 x6] l3_of_ipv6_facts[of b6 y6]
  show "l3_matches x6 y6 (int p) = Inr (\<forall>n < p. ipv6_bit a6 n = ipv6_bit b6 n)"
    by (simp add: l3_matches_def ipv6_matches_bits)
qed

text \<open>What \<open>str\<close> prints of an address, \<open>tryParse\<close> reads as the same address, whatever the object held.\<close>

definition l3_reads_back :: "(int \<Rightarrow> string option) \<Rightarrow> (string \<Rightarrow> 32 word option) \<Rightarrow> l3address \<Rightarrow> bool" where
  "l3_reads_back path module_at a \<longleftrightarrow>
     (\<exists>text'. l3_str path a = Inr text' \<and> (\<forall>z. l3_tryParse module_at text' z = Inr (True, a)))"

lemma l3_ipv4_reads_back: "l3_reads_back path module_at (l3_of_ipv4 a)"
  using ipv4_parse_str[of a]
  by (auto simp: l3_reads_back_def l3_str_ipv4 l3_tryParse_def ipv4_isWellFormed_def ipv4_of_string_def)

lemma l3_ipv6_reads_back:
  assumes "l3_of_ipv6 a = Inr x" "\<not> ipv6_isUnspecified a"
  shows "l3_reads_back path module_at x"
  using ipv6_text_not_ipv4[OF assms(2)] ipv6_parse_str[OF assms(2), of ipv6_zero] l3_of_ipv6_facts[OF assms(1)] assms(1)
  by (simp add: l3_reads_back_def l3_str_def l3_tryParse_def ipv6_tryParse_def)

lemma l3_mac_reads_back: "l3_reads_back path module_at (l3_of_mac (mac_of_bits m))"
proof -
  have get: "l3_lo (l3_of_mac n) = n" for n by (simp add: l3_of_mac_def l3_set_def)
  then have "l3_toMac (l3_of_mac (mac_of_bits m)) = Inr (mac_of_bits m)"
    by (simp add: l3_toMac_def l3_get_def mac_of_bits_def MAC_ADDRESS_MASK_def and.assoc)
  moreover have "mac_of_bits m AND MAC_ADDRESS_MASK = mac_of_bits m" by (simp add: mac_of_bits_def and.assoc)
  moreover obtain y where "ipv6_tryParse (Some (mac_str (mac_of_bits m))) ipv6_zero = (False, y)"
    using ipv6_not_text[OF mac_text_chars(3,2)] by blast
  ultimately show ?thesis
    using ipv4_not_short_text[OF mac_text_chars(1,2,4)]
    by (simp add: l3_reads_back_def l3_str_def l3_tryParse_def mac_parse_str)
qed

lemma scast_back: "ucast (scast (i :: 32 word) :: 64 word) = i"
  by (rule bit_word_eqI) (simp add: bit_simps)

lemma l3_module_id_reads_back: "l3_reads_back path module_at (l3_of_module_id i)"
proof -
  have "l3_toModuleId (l3_of_module_id i) = Inr (sint i)"
    by (simp add: l3_toModuleId_def l3_get_def) (simp add: l3_of_module_id_def l3_set_def scast_back)
  moreover obtain y where "ipv6_tryParse (Some (show_int (sint i))) ipv6_zero = (False, y)"
    using module_id_text(3) by blast
  ultimately show ?thesis
    using module_id_text(1,2,4)[of i] mac_not_text
    by (simp add: l3_reads_back_def l3_str_def l3_tryParse_def)
qed

lemma l3_module_path_reads_back:
  assumes "0 < sint i" "path (sint i) = Some p" "module_at p = Some i" "path_text p"
  shows "l3_reads_back path module_at (l3_of_module_path i)"
proof -
  have type: "l3_getType (l3_of_module_path i) = MODULEPATH"
    unfolding l3_of_module_path_def by (rule l3_getType_set) simp
  have "l3_toModulePath (l3_of_module_path i) = Inr (sint i)"
    by (simp add: type l3_toModulePath_def l3_get_def) (simp add: l3_of_module_path_def l3_set_def scast_back)
  then have "l3_str path (l3_of_module_path i) = Inr p"
    using assms(1,2) by (simp add: l3_str_def type modulePath_str_def)
  moreover obtain y where "ipv6_tryParse (Some p) ipv6_zero = (False, y)"
    using path_text_reads(2)[OF assms(4)] by blast
  moreover obtain j where "moduleId_tryParse p = (False, j)" using path_text_reads(4)[OF assms(4)] by blast
  ultimately show ?thesis
    using path_text_reads(1,3)[OF assms(4)] assms(3) by (simp add: l3_reads_back_def l3_tryParse_def)
qed



theorem l3_prefixes_witness:
  "l3_matches (l3_of_ipv4 0x0A000001) (l3_of_ipv4 0x0A000102) 16 = Inr True \<and>
   l3_matches \<lparr>l3_hi = 0x2001000000000000, l3_lo = 0x1000000000001\<rparr>
     \<lparr>l3_hi = 0x2001000000000000, l3_lo = 0x1000000000002\<rparr> 64 = Inr True"
proof -
  define b where "b = ipv6_of_words 0x20010000 0 0x10000 2"
  have v6: "l3_of_ipv6 ipv6_example = Inr \<lparr>l3_hi = 0x2001000000000000, l3_lo = 0x1000000000001\<rparr>"
    "l3_of_ipv6 b = Inr \<lparr>l3_hi = 0x2001000000000000, l3_lo = 0x1000000000002\<rparr>"
    by (simp_all add: l3_of_ipv6_def ipv6_example_def b_def ipv6_of_words_def l3_getType_def)
  have "ipv6_matches ipv6_example b (int 64) = Inr True"
    by (simp add: ipv6_matches_def ipv6_constructMask_def ipv6_map2_def ipv6_example_def b_def ipv6_of_words_def)
  then have bits6: "\<forall>n < 64. ipv6_bit ipv6_example n = ipv6_bit b n" by (simp add: ipv6_matches_bits del: of_nat_numeral)
  have "ipv4_maskedAddrAreEqual 0x0A000001 0x0A000102 (ipv4_netmask 16)"
    by (simp add: ipv4_maskedAddrAreEqual_def ipv4_netmask_def)
  then have bits4: "\<forall>n < 16. ipv4_bit 0x0A000001 n = ipv4_bit 0x0A000102 n" by (simp add: ipv4_masked_bits)
  from l3_prefixes[of 16 "0x0A000001" "0x0A000102"] l3_prefixes[of 64 _ _ ipv6_example _ b] v6 bits4 bits6
  show ?thesis by auto
qed

section \<open>Where generic addresses fail\<close>

lemma first_bit: "n < 128 \<Longrightarrow> ipv6_bit (ipv6_of_words 0x80000000 0 0 0) n \<longleftrightarrow> n = 0"
proof -
  assume n: "n < 128"
  have w: "(0x80000000 :: 32 word) = 2 ^ 31" by simp
  have "bit (2 ^ 31 :: 32 word) k \<longleftrightarrow> k = 31" for k by (simp only: bit_exp_iff possible_bit_word) auto
  then have "bit (0x80000000 :: 32 word) (31 - n mod 32) \<longleftrightarrow> 31 - n mod 32 = 31" unfolding w .
  also have "31 - n mod 32 = 31 \<longleftrightarrow> n mod 32 = 0" by (cases "n mod 32") auto
  finally have "bit (0x80000000 :: 32 word) (31 - n mod 32) \<longleftrightarrow> n mod 32 = 0" .
  with word_index[OF n] n show ?thesis by (auto simp: ipv6_bit_def)
qed

lemma l3_prefix_reserved:
  assumes "l3_of_ipv6 a = Inr x" and "0 < p" "p < 16" "\<forall>n < p. ipv6_bit a n \<longleftrightarrow> n = 0"
  shows "l3_getPrefix x (int p) = Inl (RuntimeError ''Cannot set Ipv6 address'')"
proof -
  obtain a' where a': "ipv6_getPrefix a (int p) = Inr a'"
    "\<And>n. n < 128 \<Longrightarrow> ipv6_bit a' n \<longleftrightarrow> ipv6_bit a n \<and> n < p"
    using ipv6_getPrefix_bits[of p a] assms(3) by (auto simp: less_imp_le)
  have "a' = ipv6_of_words 0x80000000 0 0 0"
    by (rule ipv6_eqI) (use assms(2,4) in \<open>auto simp: a'(2) first_bit\<close>)
  with l3_of_ipv6_facts[OF assms(1)] a'(1) show ?thesis
    by (simp add: l3_getPrefix_def l3_of_ipv6_def ipv6_of_words_def l3_getType_def type_of_code_def)
qed

lemma ipv4_read_overflow:
  "\<forall>c \<in> set s. is_digit c \<Longrightarrow> n \<le> 2147483647 \<Longrightarrow> 2147483647 < n * 10 ^ length s \<Longrightarrow>
   ipv4_read_number n s = Inl (UndefinedBehaviour ''int overflow'')"
proof (induction n s rule: ipv4_read_number.induct)
  case (1 n)
  then show ?case by simp
next
  case (2 n c s)
  define m where "m = 10 * n + (of_char c - 48)"
  have "n * 10 ^ length (c # s) \<le> m * 10 ^ length s"
    using mult_le_mono1[of "10 * n" m "10 ^ length s"] by (simp add: m_def ac_simps)
  with 2(4) have "2147483647 < m * 10 ^ length s" by linarith
  with 2 show ?case by (auto simp: Let_def simp flip: m_def)
qed

lemma mac_count_all: "\<forall>c \<in> set s. is_digit c \<Longrightarrow> mac_count_digits n s = Some (n + length s)"
  by (induction s arbitrary: n) (auto simp: is_digit_def c_isxdigit_def c_isdigit_def)

lemma mac_parse_total: "\<forall>k \<in> set ps. k < 6 \<Longrightarrow> \<exists>a'. mac_parse_loop ps s a = Inr a'"
proof (induction ps s a rule: mac_parse_loop.induct)
  case 1
  then show ?case by simp
next
  case (2 k ps s a)
  from 2(4) obtain a1 where a1: "mac_setAddressByte k b a = Inr (a1 b)" for b
    using mac_set_ok[of k _ a] by (metis list.set_intros(1))
  with 2 show ?case by (auto split: list.split)
qed

text \<open>
  (C38) Two classes of inputs on which generic addresses fail. A short prefix of an IPv6 address can lie in
  the range reserved for other types although the address does not, and asking for it is an error. A MAC
  address of twelve decimal digits without separators is read by \<open>MacAddress\<close>, but \<open>tryParse\<close> tries IPv4
  first, whose parser overflows an \<open>int\<close>.
\<close>

theorem l3_failures:
  "(l3_of_ipv6 a = Inr x \<and> 0 < p \<and> p < 16 \<and> (\<forall>n < p. ipv6_bit a n \<longleftrightarrow> n = 0) \<longrightarrow>
     l3_getPrefix x (int p) = Inl (RuntimeError ''Cannot set Ipv6 address'')) \<and>
   (length digits = 12 \<and> (\<forall>c \<in> set digits. is_digit c) \<and> hd digits \<noteq> CHR ''0'' \<longrightarrow>
     (\<exists>mac. mac_tryParse (Some digits) m = Inr (True, mac)) \<and>
     l3_tryParse module_at digits z = Inl (UndefinedBehaviour ''int overflow''))"
proof (intro conjI impI)
  assume "l3_of_ipv6 a = Inr x \<and> 0 < p \<and> p < 16 \<and> (\<forall>n < p. ipv6_bit a n \<longleftrightarrow> n = 0)"
  then show "l3_getPrefix x (int p) = Inl (RuntimeError ''Cannot set Ipv6 address'')"
    using l3_prefix_reserved by blast
next
  assume d: "length digits = 12 \<and> (\<forall>c \<in> set digits. is_digit c) \<and> hd digits \<noteq> CHR ''0''"
  obtain mac where "mac_parse_loop [0, 1, 2, 3, 4, 5] digits 0 = Inr mac"
    using mac_parse_total[of "[0, 1, 2, 3, 4, 5]" digits 0] by auto
  with mac_count_all[of digits 0] d show "\<exists>mac. mac_tryParse (Some digits) m = Inr (True, mac)"
    by (simp add: mac_tryParse_def)
  from d obtain c t where t: "digits = c # t" "length t = 11" by (cases digits) auto
  have c: "is_digit c" "1 \<le> of_char c - (48 :: nat)" "of_char c - (48 :: nat) \<le> 9"
  proof -
    show "is_digit c" using d t by simp
    moreover have "of_char c \<noteq> (48 :: nat)"
    proof
      assume "of_char c = (48 :: nat)"
      moreover have "of_char (CHR ''0'') = (48 :: nat)" by simp
      ultimately have "c = CHR ''0''" by (metis char_of_char)
      with d t show False by simp
    qed
    ultimately show "1 \<le> of_char c - (48 :: nat)" "of_char c - (48 :: nat) \<le> 9"
      by (auto simp: is_digit_def)
  qed
  have "ipv4_read_number (of_char c - 48) t = Inl (UndefinedBehaviour ''int overflow'')"
    by (rule ipv4_read_overflow) (use d t c in auto)
  with c have "ipv4_parse_loop [] digits = Inl (UndefinedBehaviour ''int overflow'')"
    by (simp add: ipv4_parse_loop.simps[of "[]"] t(1) Let_def)
  moreover have "digits \<noteq> ''<unspec>''" using t(2) by (auto simp: t(1))
  ultimately show "l3_tryParse module_at digits z = Inl (UndefinedBehaviour ''int overflow'')"
    by (simp add: l3_tryParse_def ipv4_isWellFormed_def ipv4_parseIPAddress_def)
qed

theorem l3_failures_witness:
  "l3_getPrefix \<lparr>l3_hi = 0x8001000000000000, l3_lo = 1\<rparr> (int 8) = Inl (RuntimeError ''Cannot set Ipv6 address'') \<and>
   l3_tryParse (\<lambda>_. None) ''123456789012'' l3_empty = Inl (UndefinedBehaviour ''int overflow'')"
proof -
  define a where "a = ipv6_of_words 0x80010000 0 0 1"
  have a: "l3_of_ipv6 a = Inr \<lparr>l3_hi = 0x8001000000000000, l3_lo = 1\<rparr>"
    by (simp add: l3_of_ipv6_def a_def ipv6_of_words_def l3_getType_def)
  have "ipv6_matches a (ipv6_of_words 0x80000000 0 0 0) (int 8) = Inr True"
    by (simp add: ipv6_matches_def ipv6_constructMask_def ipv6_map2_def a_def ipv6_of_words_def)
  then have "\<forall>n < 8. ipv6_bit a n \<longleftrightarrow> n = 0" by (simp add: ipv6_matches_bits first_bit del: of_nat_numeral)
  moreover have "\<forall>c \<in> set ''123456789012''. is_digit c" by (simp add: is_digit_def)
  ultimately show ?thesis
    using l3_failures[of a "\<lparr>l3_hi = 0x8001000000000000, l3_lo = 1\<rparr>" 8 "''123456789012''" _ "\<lambda>_. None" l3_empty] a
    by simp
qed

end
