(* ===== verification/BleMeshMac.thy ===== *)
theory BleMeshMac
  imports SimKernel MacAddress
begin

text \<open>
  The CSMA medium access of the mesh (\<open>linklayer/blemesh/BleMeshMac.h\<close>, \<open>BleMeshMac.cc\<close>): a queue of
  frames, random backoffs with clear channel assessment, acknowledgements with retransmission, sequence
  numbers against duplicates, and the radio of a low power node that is switched on and off.

  \<open>ble_cfg\<close> holds what \<open>initialize\<close> reads from the parameters, \<open>ble_mac\<close> what changes. The radio
  is part of the surroundings: its modes are calls in the log, its signals and the state of the
  channel are inputs. A deleted timer object is remembered in \<open>ble_dead\<close>; any later use of it, the
  front of an empty queue and a null acknowledgement are undefined behaviour.
\<close>

section \<open>Frames\<close>

record ble_header =
  bh_src :: mac_address
  bh_dest :: mac_address
  bh_seq :: int
  bh_protocol :: int
  bh_bits :: int

text \<open>
  A packet: its name, an identity of its payload, the length of the payload in bits, the headers in
  front of it, outermost first, the tags the code reads and writes, the bit error flag and the duration.
\<close>

record ble_packet =
  bp_name :: string
  bp_payload :: nat
  bp_bits :: int
  bp_headers :: "ble_header list"
  bp_destReq :: "mac_address option"
  bp_protocol :: "int option"
  bp_srcInd :: "mac_address option"
  bp_dispatch :: "int option"
  bp_interface :: "int option"
  bp_bitError :: bool
  bp_duration :: simtime

datatype ble_timer = EnableRadioTimer | DisableRadioTimer | BackoffTimer | CcaTimer | SifsTimer | RxAckTimer

datatype mac_state = IDLE_1 | BACKOFF_2 | CCA_3 | TRANSMITFRAME_4 | WAITACK_5 | WAITSIFS_6 | TRANSMITACK_7

datatype mac_timer =
    TIMER_NULL | TIMER_BACKOFF | TIMER_CCA | TIMER_SIFS | TIMER_RX_ACK | TIMER_ENABLE_RADIO
  | TIMER_DISABLE_RADIO

datatype mac_event =
    EV_SEND_REQUEST | EV_TIMER_BACKOFF | EV_FRAME_TRANSMITTED | EV_ACK_RECEIVED | EV_ACK_TIMEOUT
  | EV_FRAME_RECEIVED | EV_DUPLICATE_RECEIVED | EV_TIMER_SIFS | EV_BROADCAST_RECEIVED | EV_TIMER_CCA
  | EV_TIMER_ENABLE_RADIO | EV_TIMER_DISABLE_RADIO

datatype backoff_method = CONSTANT | LINEAR | EXPONENTIAL

datatype radio_mode = RADIO_MODE_OFF | RADIO_MODE_RECEIVER | RADIO_MODE_TRANSMITTER

datatype transmission_state =
    TRANSMISSION_STATE_UNDEFINED | TRANSMISSION_STATE_IDLE | TRANSMISSION_STATE_TRANSMITTING

datatype drop_reason =
    QUEUE_OVERFLOW | CONGESTION | RETRY_LIMIT_REACHED | INCORRECTLY_RECEIVED | NOT_ADDRESSED_TO_US

text \<open>The message an event comes with: a timer object, a packet, or the note that a transmission is over.\<close>

datatype ble_msg = TimerMsg ble_timer | PacketMsg ble_packet | TransmissionOver

datatype ble_action =
    SetRadioMode radio_mode
  | SendDown ble_packet
  | SendDelayed ble_packet simtime
  | SendUp ble_packet
  | PacketDropped drop_reason
  | LinkBroken

section \<open>Configuration and state\<close>

record ble_env =
  env_duration :: "int \<Rightarrow> simtime"
  env_protocolNumber :: "int \<rightharpoonup> int"
  env_protocol :: "int \<rightharpoonup> int"
  env_blemesh :: int
  env_address :: mac_address
  env_interfaceId :: int
  env_ms :: simtime

record ble_par =
  bpar_useMACAcks :: bool
  bpar_queueLength :: nat
  bpar_sifs :: simtime
  bpar_headerLength :: int
  bpar_macMaxCSMABackoffs :: int
  bpar_macMaxFrameRetries :: nat
  bpar_macAckWaitDuration :: simtime
  bpar_aUnitBackoffPeriod :: simtime
  bpar_ccaDetectionTime :: simtime
  bpar_rxSetupTime :: simtime
  bpar_aTurnaroundTime :: simtime
  bpar_ackLength :: int
  bpar_lowPowerNode :: bool
  bpar_backoffMethod :: string
  bpar_macMinBE :: int
  bpar_macMaxBE :: int
  bpar_contentionWindow :: int
  bpar_timeRXToTX :: "simtime option"

text \<open>
  What is fixed besides the parameters: \<open>cfg_duration\<close> is the quotient \<open>getBitLength() / bitrate\<close> of
  floating point numbers, the maps between protocols and their numbers are those of
  \<open>ProtocolGroup::ethertype\<close> and \<open>cfg_blemesh\<close> is the protocol of this layer; \<open>cfg_address\<close> and
  \<open>cfg_interfaceId\<close> come from the interface entry, \<open>cfg_ms\<close> is the number of ticks of a millisecond.
\<close>

record ble_cfg =
  useMACAcks :: bool
  queueLength :: nat
  sifs :: simtime
  headerLength :: int
  macMaxCSMABackoffs :: int
  macMaxFrameRetries :: nat
  macAckWaitDuration :: simtime
  aUnitBackoffPeriod :: simtime
  ccaDetectionTime :: simtime
  rxSetupTime :: simtime
  aTurnaroundTime :: simtime
  ackLength :: int
  ble_lowPowerNode :: bool
  backoffMethod :: backoff_method
  macMinBE :: int
  macMaxBE :: int
  initialCW :: int
  receiveDelayMs :: int
  receiveWindowMs :: int
  cfg_duration :: "int \<Rightarrow> simtime"
  cfg_protocolNumber :: "int \<rightharpoonup> int"
  cfg_protocol :: "int \<rightharpoonup> int"
  cfg_blemesh :: int
  cfg_address :: mac_address
  cfg_interfaceId :: int
  cfg_ms :: simtime

record 'f ble_mac =
  ble_fes :: 'f
  ble_dead :: "ble_timer set"
  macState :: mac_state
  macQueue :: "ble_packet list"
  ackMessage :: "ble_packet option"
  lowPowerMode :: bool
  transmissionAttemptInterruptedByRx :: bool
  NB :: int
  txAttempts :: nat
  transmissionState :: transmission_state
  SeqNrParent :: "mac_address \<rightharpoonup> int"
  SeqNrChild :: "mac_address \<rightharpoonup> int"
  radioIdle :: bool
  nbTxFrames :: nat
  nbRxFrames :: nat
  nbMissedAcks :: nat
  nbRecvdAcks :: nat
  nbDroppedFrames :: nat
  nbTxAcks :: nat
  nbDuplicates :: nat
  nbBackoffs :: nat
  backoffValues :: int
  ble_log :: "ble_action list"

type_synonym 'f ble_kernel = "('f, ble_timer) sim_kernel"

type_synonym 'f ble_step = "'f ble_mac \<Rightarrow> 'f ble_mac res"

text \<open>\<open>initialize\<close>, first stage: the parameters; \<open>macMinBE\<close>, \<open>macMaxBE\<close> and \<open>initialCW\<close> are 0
  where they are not read.\<close>

definition ble_configure ::
    "ble_par \<Rightarrow> ble_env \<Rightarrow> ble_cfg res" where
  "ble_configure p env =
     (let cfg = (\<lambda>m be be' cw. \<lparr>useMACAcks = bpar_useMACAcks p, queueLength = bpar_queueLength p,
            sifs = bpar_sifs p, headerLength = bpar_headerLength p,
            macMaxCSMABackoffs = bpar_macMaxCSMABackoffs p,
            macMaxFrameRetries = bpar_macMaxFrameRetries p,
            macAckWaitDuration = bpar_macAckWaitDuration p,
            aUnitBackoffPeriod = bpar_aUnitBackoffPeriod p,
            ccaDetectionTime = bpar_ccaDetectionTime p, rxSetupTime = bpar_rxSetupTime p,
            aTurnaroundTime = bpar_aTurnaroundTime p, ackLength = bpar_ackLength p,
            ble_lowPowerNode = bpar_lowPowerNode p, backoffMethod = m, macMinBE = be, macMaxBE = be',
            initialCW = cw, receiveDelayMs = 10, receiveWindowMs = 200,
            cfg_duration = env_duration env, cfg_protocolNumber = env_protocolNumber env,
            cfg_protocol = env_protocol env, cfg_blemesh = env_blemesh env,
            cfg_address = env_address env, cfg_interfaceId = env_interfaceId env, cfg_ms = env_ms env\<rparr>)
      in res_bind
           (if bpar_backoffMethod p = ''exponential''
            then Inr (cfg EXPONENTIAL (bpar_macMinBE p) (bpar_macMaxBE p) 0)
            else if bpar_backoffMethod p = ''linear'' then Inr (cfg LINEAR 0 0 (bpar_contentionWindow p))
            else if bpar_backoffMethod p = ''constant'' then Inr (cfg CONSTANT 0 0 (bpar_contentionWindow p))
            else Inl (RuntimeError ''Unknown backoff method'')) (\<lambda>c.
         case bpar_timeRXToTX p of
           None \<Rightarrow> Inr c
         | Some rxToTx \<Rightarrow>
             check_that (rxToTx \<le> aTurnaroundTime c)
               (RuntimeError ''Parameter aTurnaroundTime does not match'') (Inr c)))"

text \<open>The state after both stages of \<open>initialize\<close>; the radio is told to receive.\<close>

definition ble_init :: "'f \<Rightarrow> 'f ble_mac" where
  "ble_init f = \<lparr>ble_fes = f, ble_dead = {}, macState = IDLE_1, macQueue = [], ackMessage = None,
     lowPowerMode = False, transmissionAttemptInterruptedByRx = False, NB = 0, txAttempts = 0,
     transmissionState = TRANSMISSION_STATE_UNDEFINED, SeqNrParent = Map.empty, SeqNrChild = Map.empty,
     radioIdle = False, nbTxFrames = 0, nbRxFrames = 0, nbMissedAcks = 0, nbRecvdAcks = 0,
     nbDroppedFrames = 0, nbTxAcks = 0, nbDuplicates = 0, nbBackoffs = 0, backoffValues = 0,
     ble_log = [SetRadioMode RADIO_MODE_RECEIVER]\<rparr>"

definition ble_act :: "ble_action list \<Rightarrow> 'f ble_mac \<Rightarrow> 'f ble_mac" where
  "ble_act as s = s\<lparr>ble_log := ble_log s @ as\<rparr>"

definition setRadioMode :: "radio_mode \<Rightarrow> 'f ble_mac \<Rightarrow> 'f ble_mac" where
  "setRadioMode m = ble_act [SetRadioMode m]"

definition updateMacState :: "mac_state \<Rightarrow> 'f ble_mac \<Rightarrow> 'f ble_mac" where
  "updateMacState st s = s\<lparr>macState := st\<rparr>"

definition clearQueue :: "'f ble_mac \<Rightarrow> 'f ble_mac" where
  "clearQueue s = s\<lparr>macQueue := []\<rparr>"

section \<open>Timers\<close>

definition ble_now :: "'f ble_kernel \<Rightarrow> 'f ble_mac \<Rightarrow> simtime" where
  "ble_now K s = k_now K (ble_fes s)"

definition ble_alive :: "ble_timer \<Rightarrow> 'f ble_mac \<Rightarrow> 'a res \<Rightarrow> 'a res" where
  "ble_alive x s r = check_that (x \<notin> ble_dead s) (UndefinedBehaviour ''deleted timer'') r"

definition ble_scheduleAt :: "'f ble_kernel \<Rightarrow> simtime \<Rightarrow> ble_timer \<Rightarrow> 'f ble_step" where
  "ble_scheduleAt K t x s =
     ble_alive x s (res_bind (sim_scheduleAt K t x (ble_fes s)) (\<lambda>f. Inr (s\<lparr>ble_fes := f\<rparr>)))"

definition ble_cancelEvent :: "'f ble_kernel \<Rightarrow> ble_timer \<Rightarrow> 'f ble_step" where
  "ble_cancelEvent K x s = ble_alive x s (Inr (s\<lparr>ble_fes := k_cancel K x (ble_fes s)\<rparr>))"

definition ble_isScheduled :: "'f ble_kernel \<Rightarrow> ble_timer \<Rightarrow> 'f ble_mac \<Rightarrow> bool" where
  "ble_isScheduled K x s \<longleftrightarrow> k_pending K (ble_fes s) x \<noteq> None"

text \<open>
  The number of slots a backoff may take, from and to. The largest one of the exponential method is
  \<open>(1 << BE) - 1\<close> in an \<open>int\<close>, which is undefined for a negative \<open>BE\<close> and from 31 on.
\<close>

definition backoff_range :: "ble_cfg \<Rightarrow> int \<Rightarrow> (int \<times> int) res" where
  "backoff_range C nb =
     (case backoffMethod C of
        EXPONENTIAL \<Rightarrow>
          (let BE = min (macMinBE C + nb) (macMaxBE C)
           in check_that (0 \<le> BE \<and> BE < 31) (UndefinedBehaviour ''1 << BE'') (Inr (0, 2 ^ nat BE - 1)))
      | LINEAR \<Rightarrow> Inr (1, initialCW C + nb)
      | CONSTANT \<Rightarrow> Inr (1, initialCW C))"

definition scheduleBackoff ::
    "'f ble_kernel \<Rightarrow> ble_cfg \<Rightarrow> 'f ble_mac \<Rightarrow> (simtime \<times> 'f ble_mac) res" where
  "scheduleBackoff K C s =
     res_bind (backoff_range C (NB s)) (\<lambda>(lo, hi).
       case k_intuniform K lo hi (ble_fes s) of (r, f) \<Rightarrow>
         let backoffTime = r * aUnitBackoffPeriod C;
             s1 = s\<lparr>ble_fes := f, nbBackoffs := Suc (nbBackoffs s),
                    backoffValues := backoffValues s + backoffTime\<rparr>
         in Inr (backoffTime + ble_now K s1, s1))"

definition startTimer :: "'f ble_kernel \<Rightarrow> ble_cfg \<Rightarrow> mac_timer \<Rightarrow> 'f ble_step" where
  "startTimer K C timer s =
     (case timer of
        TIMER_BACKOFF \<Rightarrow>
          res_bind (scheduleBackoff K C s) (\<lambda>(t, s1). ble_scheduleAt K t BackoffTimer s1)
      | TIMER_CCA \<Rightarrow>
          ble_scheduleAt K (ble_now K s + rxSetupTime C + ccaDetectionTime C) CcaTimer s
      | TIMER_SIFS \<Rightarrow>
          check_that (useMACAcks C) (AssertFailed ''useMACAcks'')
            (ble_scheduleAt K (ble_now K s + sifs C) SifsTimer s)
      | TIMER_RX_ACK \<Rightarrow>
          check_that (useMACAcks C) (AssertFailed ''useMACAcks'')
            (ble_scheduleAt K (ble_now K s + macAckWaitDuration C) RxAckTimer s)
      | TIMER_ENABLE_RADIO \<Rightarrow>
          check_that (ble_lowPowerNode C) (AssertFailed ''lowPowerNode'')
            (ble_scheduleAt K (ble_now K s + receiveDelayMs C * cfg_ms C) EnableRadioTimer s)
      | TIMER_DISABLE_RADIO \<Rightarrow>
          check_that (ble_lowPowerNode C) (AssertFailed ''lowPowerNode'')
            (ble_scheduleAt K (ble_now K s + receiveWindowMs C * cfg_ms C) DisableRadioTimer s)
      | TIMER_NULL \<Rightarrow> Inr s)"

section \<open>The queue\<close>

definition ble_front :: "'f ble_mac \<Rightarrow> ble_packet res" where
  "ble_front s =
     (case macQueue s of [] \<Rightarrow> Inl (UndefinedBehaviour ''front of an empty queue'') | p # q \<Rightarrow> Inr p)"

definition ble_pop_front :: "'f ble_mac \<Rightarrow> 'f ble_mac" where
  "ble_pop_front s = s\<lparr>macQueue := tl (macQueue s)\<rparr>"

definition manageQueue :: "'f ble_kernel \<Rightarrow> ble_cfg \<Rightarrow> 'f ble_step" where
  "manageQueue K C s =
     (if macQueue s \<noteq> [] then
        let s1 = (if transmissionAttemptInterruptedByRx s
                  then s\<lparr>transmissionAttemptInterruptedByRx := False\<rparr>
                  else s\<lparr>NB := 0\<rparr>)
        in res_bind (ble_alive BackoffTimer s1
                       (if \<not> ble_isScheduled K BackoffTimer s1 then startTimer K C TIMER_BACKOFF s1
                        else Inr s1)) (\<lambda>s2.
           Inr (updateMacState BACKOFF_2 s2))
      else Inr (updateMacState IDLE_1 s))"

definition flushQueue :: "'f ble_mac \<Rightarrow> 'f ble_mac" where
  "flushQueue s = s\<lparr>macQueue := []\<rparr>"

section \<open>Packets\<close>

definition bp_length :: "ble_packet \<Rightarrow> int" where
  "bp_length p = sum_list (map bh_bits (bp_headers p)) + bp_bits p"

definition attachSignal :: "ble_cfg \<Rightarrow> ble_packet \<Rightarrow> ble_packet" where
  "attachSignal C p = p\<lparr>bp_duration := cfg_duration C (bp_length p)\<rparr>"

definition ble_peek :: "ble_packet \<Rightarrow> ble_header res" where
  "ble_peek p =
     (case bp_headers p of [] \<Rightarrow> Inl (RuntimeError ''peekAtFront'') | h # hs \<Rightarrow> Inr h)"

definition ble_getProtocol :: "ble_cfg \<Rightarrow> int \<Rightarrow> int res" where
  "ble_getProtocol C n =
     (case cfg_protocol C n of None \<Rightarrow> Inl (RuntimeError ''Unknown protocol: number'') | Some p \<Rightarrow> Inr p)"

definition ble_getProtocolNumber :: "ble_cfg \<Rightarrow> int \<Rightarrow> int res" where
  "ble_getProtocolNumber C p =
     (case cfg_protocolNumber C p of None \<Rightarrow> Inl (RuntimeError ''Unknown protocol: id'') | Some n \<Rightarrow> Inr n)"

definition decapsulate :: "ble_cfg \<Rightarrow> ble_packet \<Rightarrow> ble_packet res" where
  "decapsulate C p =
     (case bp_headers p of
        [] \<Rightarrow> Inl (RuntimeError ''popAtFront'')
      | h # hs \<Rightarrow>
          res_bind (ble_getProtocol C (bh_protocol h)) (\<lambda>payloadProtocol.
            Inr (p\<lparr>bp_headers := hs, bp_srcInd := Some (bh_src h), bp_interface := Some (cfg_interfaceId C),
                   bp_dispatch := Some payloadProtocol, bp_protocol := Some payloadProtocol\<rparr>)))"

text \<open>\<open>check_and_cast<Packet *>(msg)\<close>, \<open>decapsulate\<close> and \<open>sendUp\<close>\<close>

definition ble_deliver_up :: "ble_cfg \<Rightarrow> ble_msg \<Rightarrow> 'f ble_step" where
  "ble_deliver_up C msg s =
     (case msg of
        PacketMsg p \<Rightarrow> res_bind (decapsulate C p) (\<lambda>p'. Inr (ble_act [SendUp p'] s))
      | _ \<Rightarrow> Inl (RuntimeError ''check_and_cast''))"

text \<open>\<open>delete msg\<close>: for a packet nothing is left to see, a timer must not be used again.\<close>

definition ble_delete :: "ble_msg \<Rightarrow> 'f ble_mac \<Rightarrow> 'f ble_mac" where
  "ble_delete msg s = (case msg of TimerMsg x \<Rightarrow> s\<lparr>ble_dead := insert x (ble_dead s)\<rparr> | _ \<Rightarrow> s)"

definition fsmError :: "mac_event \<Rightarrow> ble_msg \<Rightarrow> 'f ble_mac \<Rightarrow> 'f ble_mac" where
  "fsmError ev msg s = ble_delete msg s"

text \<open>\<open>macQueue.push_back(static_cast<Packet *>(msg))\<close>\<close>

definition ble_push_back :: "ble_msg \<Rightarrow> 'f ble_step" where
  "ble_push_back msg s =
     (case msg of
        PacketMsg p \<Rightarrow> Inr (s\<lparr>macQueue := macQueue s @ [p]\<rparr>)
      | _ \<Rightarrow> Inl (UndefinedBehaviour ''static_cast''))"

section \<open>The state machine\<close>

text \<open>The four lines that turn a node to the transmission of an acknowledgement.\<close>

definition ble_prepare_ack :: "'f ble_kernel \<Rightarrow> ble_cfg \<Rightarrow> 'f ble_step" where
  "ble_prepare_ack K C s =
     startTimer K C TIMER_SIFS (updateMacState WAITSIFS_6 (setRadioMode RADIO_MODE_TRANSMITTER s))"

definition ble_interrupt :: "'f ble_kernel \<Rightarrow> ble_cfg \<Rightarrow> ble_timer \<Rightarrow> 'f ble_step" where
  "ble_interrupt K C x s =
     res_bind (ble_cancelEvent K x (s\<lparr>transmissionAttemptInterruptedByRx := True\<rparr>)) (ble_prepare_ack K C)"

definition updateStatusIdle :: "'f ble_kernel \<Rightarrow> ble_cfg \<Rightarrow> mac_event \<Rightarrow> ble_msg \<Rightarrow> 'f ble_step" where
  "updateStatusIdle K C ev msg s =
     (if ev = EV_SEND_REQUEST then
        (if length (macQueue s) < queueLength C
         then res_bind (ble_push_back msg s) (\<lambda>s1.
                startTimer K C TIMER_BACKOFF ((updateMacState BACKOFF_2 s1)\<lparr>NB := 0\<rparr>))
         else Inr (updateMacState IDLE_1 (ble_delete msg (ble_act [PacketDropped QUEUE_OVERFLOW] s))))
      else if ev = EV_DUPLICATE_RECEIVED then
        (let s1 = ble_delete msg s in if useMACAcks C then ble_prepare_ack K C s1 else Inr s1)
      else if ev = EV_FRAME_RECEIVED then
        res_bind (ble_deliver_up C msg s) (\<lambda>s1.
          let s2 = s1\<lparr>nbRxFrames := Suc (nbRxFrames s1)\<rparr>
          in if useMACAcks C then ble_prepare_ack K C s2 else Inr s2)
      else if ev = EV_BROADCAST_RECEIVED then
        ble_deliver_up C msg (s\<lparr>nbRxFrames := Suc (nbRxFrames s)\<rparr>)
      else Inr (fsmError ev msg s))"

definition updateStatusBackoff :: "'f ble_kernel \<Rightarrow> ble_cfg \<Rightarrow> mac_event \<Rightarrow> ble_msg \<Rightarrow> 'f ble_step" where
  "updateStatusBackoff K C ev msg s =
     (if ev = EV_TIMER_BACKOFF then
        res_bind (startTimer K C TIMER_CCA s) (\<lambda>s1.
          Inr (setRadioMode RADIO_MODE_RECEIVER (updateMacState CCA_3 s1)))
      else if ev = EV_DUPLICATE_RECEIVED then
        res_bind (if useMACAcks C then ble_interrupt K C BackoffTimer s else Inr s) (\<lambda>s1.
          Inr (ble_delete msg s1))
      else if ev = EV_FRAME_RECEIVED then
        res_bind (if useMACAcks C then ble_interrupt K C BackoffTimer s else Inr s) (\<lambda>s1.
          ble_deliver_up C msg s1)
      else if ev = EV_BROADCAST_RECEIVED then ble_deliver_up C msg s
      else Inr (fsmError ev msg s))"

definition updateStatusCCA :: "'f ble_kernel \<Rightarrow> ble_cfg \<Rightarrow> mac_event \<Rightarrow> ble_msg \<Rightarrow> 'f ble_step" where
  "updateStatusCCA K C ev msg s =
     (if ev = EV_TIMER_CCA then
        (if radioIdle s then
           res_bind (ble_front s) (\<lambda>p.
             let s1 = setRadioMode RADIO_MODE_TRANSMITTER (updateMacState TRANSMITFRAME_4 s);
                 s2 = ble_act [SendDelayed (attachSignal C p) (aTurnaroundTime C)] s1
             in Inr (s2\<lparr>nbTxFrames := Suc (nbTxFrames s2)\<rparr>))
         else
           let s1 = s\<lparr>NB := NB s + 1\<rparr>
           in if macMaxCSMABackoffs C < NB s1 then
                res_bind (ble_front s1) (\<lambda>mac.
                  let s2 = (ble_pop_front s1)\<lparr>txAttempts := 0, nbDroppedFrames := Suc (nbDroppedFrames s1)\<rparr>
                  in manageQueue K C (ble_act [PacketDropped CONGESTION] s2))
              else startTimer K C TIMER_BACKOFF (updateMacState BACKOFF_2 s1))
      else if ev = EV_DUPLICATE_RECEIVED then
        res_bind (if useMACAcks C then ble_interrupt K C CcaTimer s else Inr s) (\<lambda>s1.
          Inr (ble_delete msg s1))
      else if ev = EV_FRAME_RECEIVED then
        res_bind (if useMACAcks C then ble_interrupt K C CcaTimer s else Inr s) (\<lambda>s1.
          ble_deliver_up C msg s1)
      else if ev = EV_BROADCAST_RECEIVED then ble_deliver_up C msg s
      else Inr (fsmError ev msg s))"

definition updateStatusTransmitFrame ::
    "'f ble_kernel \<Rightarrow> ble_cfg \<Rightarrow> mac_event \<Rightarrow> ble_msg \<Rightarrow> 'f ble_step" where
  "updateStatusTransmitFrame K C ev msg s =
     (if ev = EV_FRAME_TRANSMITTED then
        res_bind (ble_front s) (\<lambda>p. res_bind (ble_peek p) (\<lambda>h.
          let s1 = setRadioMode RADIO_MODE_RECEIVER s;
              unicast = (\<not> mac_isBroadcast (bh_dest h) \<and> \<not> mac_isMulticast (bh_dest h))
          in res_bind (if useMACAcks C \<and> unicast
                       then startTimer K C TIMER_RX_ACK (updateMacState WAITACK_5 s1)
                       else manageQueue K C (ble_pop_front s1)) (\<lambda>s2.
               Inr (ble_delete msg s2))))
      else Inr (fsmError ev msg s))"

definition manageMissingAck :: "'f ble_kernel \<Rightarrow> ble_cfg \<Rightarrow> 'f ble_step" where
  "manageMissingAck K C s =
     (if txAttempts s < macMaxFrameRetries C then manageQueue K C (s\<lparr>txAttempts := Suc (txAttempts s)\<rparr>)
      else res_bind (ble_front s) (\<lambda>mac.
             manageQueue K C (ble_act [PacketDropped RETRY_LIMIT_REACHED, LinkBroken]
               ((ble_pop_front s)\<lparr>txAttempts := 0\<rparr>))))"

definition updateStatusWaitAck :: "'f ble_kernel \<Rightarrow> ble_cfg \<Rightarrow> mac_event \<Rightarrow> ble_msg \<Rightarrow> 'f ble_step" where
  "updateStatusWaitAck K C ev msg s =
     check_that (useMACAcks C) (AssertFailed ''useMACAcks'')
       (if ev = EV_ACK_RECEIVED then
          res_bind (ble_alive RxAckTimer s
                      (if ble_isScheduled K RxAckTimer s then ble_cancelEvent K RxAckTimer s else Inr s))
            (\<lambda>s1. res_bind (ble_front s1) (\<lambda>mac.
               manageQueue K C (ble_delete msg ((ble_pop_front s1)\<lparr>txAttempts := 0\<rparr>))))
        else if ev = EV_ACK_TIMEOUT then manageMissingAck K C s
        else if ev = EV_BROADCAST_RECEIVED \<or> ev = EV_FRAME_RECEIVED then ble_deliver_up C msg s
        else if ev = EV_DUPLICATE_RECEIVED then Inr (ble_delete msg s)
        else Inr (fsmError ev msg s))"

definition updateStatusSIFS :: "'f ble_kernel \<Rightarrow> ble_cfg \<Rightarrow> mac_event \<Rightarrow> ble_msg \<Rightarrow> 'f ble_step" where
  "updateStatusSIFS K C ev msg s =
     check_that (useMACAcks C) (AssertFailed ''useMACAcks'')
       (if ev = EV_TIMER_SIFS then
          (case ackMessage s of
             None \<Rightarrow> Inl (UndefinedBehaviour ''null ackMessage'')
           | Some a \<Rightarrow>
               let s1 = ble_act [SendDown (attachSignal C a)] (updateMacState TRANSMITACK_7 s)
               in Inr (s1\<lparr>nbTxAcks := Suc (nbTxAcks s1), ackMessage := None\<rparr>))
        else if ev = EV_TIMER_BACKOFF then startTimer K C TIMER_BACKOFF s
        else if ev = EV_BROADCAST_RECEIVED \<or> ev = EV_FRAME_RECEIVED then ble_deliver_up C msg s
        else Inr (fsmError ev msg s))"

definition updateStatusTransmitAck ::
    "'f ble_kernel \<Rightarrow> ble_cfg \<Rightarrow> mac_event \<Rightarrow> ble_msg \<Rightarrow> 'f ble_step" where
  "updateStatusTransmitAck K C ev msg s =
     check_that (useMACAcks C) (AssertFailed ''useMACAcks'')
       (if ev = EV_FRAME_TRANSMITTED
        then manageQueue K C (ble_delete msg (setRadioMode RADIO_MODE_RECEIVER s))
        else Inr (fsmError ev msg s))"

definition updateStatusNotIdle :: "ble_cfg \<Rightarrow> ble_msg \<Rightarrow> 'f ble_step" where
  "updateStatusNotIdle C msg s =
     (if length (macQueue s) < queueLength C then ble_push_back msg s
      else Inr (ble_delete msg (ble_act [PacketDropped QUEUE_OVERFLOW] s)))"

definition ble_fsm :: "'f ble_kernel \<Rightarrow> ble_cfg \<Rightarrow> mac_event \<Rightarrow> ble_msg \<Rightarrow> 'f ble_step" where
  "ble_fsm K C ev msg s =
     (if macState s \<noteq> IDLE_1 \<and> ev = EV_SEND_REQUEST then updateStatusNotIdle C msg s
      else case macState s of
        IDLE_1 \<Rightarrow> updateStatusIdle K C ev msg s
      | BACKOFF_2 \<Rightarrow> updateStatusBackoff K C ev msg s
      | CCA_3 \<Rightarrow> updateStatusCCA K C ev msg s
      | TRANSMITFRAME_4 \<Rightarrow> updateStatusTransmitFrame K C ev msg s
      | WAITACK_5 \<Rightarrow> updateStatusWaitAck K C ev msg s
      | WAITSIFS_6 \<Rightarrow> updateStatusSIFS K C ev msg s
      | TRANSMITACK_7 \<Rightarrow> updateStatusTransmitAck K C ev msg s)"

text \<open>
  \<open>executeMac\<close>: the radio timers of a low power node come before the state machine; a sleeping node
  wakes up to send and ignores everything else.
\<close>

definition executeMac :: "'f ble_kernel \<Rightarrow> ble_cfg \<Rightarrow> mac_event \<Rightarrow> ble_msg \<Rightarrow> 'f ble_step" where
  "executeMac K C ev msg s =
     (if ev = EV_TIMER_ENABLE_RADIO then
        check_that (ble_lowPowerNode C) (AssertFailed ''lowPowerNode'')
          (check_that (lowPowerMode s) (AssertFailed ''lowPowerMode'')
            (startTimer K C TIMER_DISABLE_RADIO
               ((setRadioMode RADIO_MODE_RECEIVER s)\<lparr>lowPowerMode := False\<rparr>)))
      else if ev = EV_TIMER_DISABLE_RADIO then
        check_that (ble_lowPowerNode C) (AssertFailed ''lowPowerNode'')
          (check_that (\<not> lowPowerMode s) (AssertFailed ''!lowPowerMode'')
            (Inr (updateMacState IDLE_1 (clearQueue
               (setRadioMode RADIO_MODE_OFF (s\<lparr>lowPowerMode := True\<rparr>))))))
      else if ble_lowPowerNode C \<and> lowPowerMode s then
        (if ev = EV_SEND_REQUEST then
           res_bind (ble_cancelEvent K EnableRadioTimer s) (\<lambda>s1.
           res_bind (ble_cancelEvent K DisableRadioTimer s1) (\<lambda>s2.
           res_bind (startTimer K C TIMER_DISABLE_RADIO
                       ((setRadioMode RADIO_MODE_RECEIVER s2)\<lparr>lowPowerMode := False\<rparr>)) (\<lambda>s3.
             ble_fsm K C ev msg s3)))
         else Inr s)
      else ble_fsm K C ev msg s)"

section \<open>The handlers\<close>

definition FRIEND_ESTABLISHED_INTERNAL :: string where
  "FRIEND_ESTABLISHED_INTERNAL = ''FRIEND_ESTABLISHED_INTERNAL''"

text \<open>The sequence number given to a frame for \<open>dest\<close>, and the map afterwards.\<close>

definition ble_next_seq :: "mac_address \<Rightarrow> 'f ble_mac \<Rightarrow> int \<times> 'f ble_mac" where
  "ble_next_seq dest s =
     (case SeqNrParent s dest of
        None \<Rightarrow> (0, s\<lparr>SeqNrParent := (SeqNrParent s)(dest \<mapsto> 1)\<rparr>)
      | Some n \<Rightarrow> (n, s\<lparr>SeqNrParent := (SeqNrParent s)(dest \<mapsto> n + 1)\<rparr>))"

definition ble_handleUpperPacket :: "'f ble_kernel \<Rightarrow> ble_cfg \<Rightarrow> ble_packet \<Rightarrow> 'f ble_step" where
  "ble_handleUpperPacket K C packet s =
     (if bp_name packet = FRIEND_ESTABLISHED_INTERNAL
      then Inr (setRadioMode RADIO_MODE_OFF (s\<lparr>lowPowerMode := True\<rparr>))
      else
        check_that (headerLength C mod 8 = 0) (AssertFailed ''headerLength % 8 == 0'')
          (case bp_destReq packet of
             None \<Rightarrow> Inl (RuntimeError ''Tag MacAddressReq is absent'')
           | Some dest \<Rightarrow>
               (case bp_protocol packet of
                  None \<Rightarrow> Inl (RuntimeError ''Tag PacketProtocolTag is absent'')
                | Some prot \<Rightarrow>
                    res_bind (ble_getProtocolNumber C prot) (\<lambda>n.
                      case (if useMACAcks C then ble_next_seq dest s else (0, s)) of (seq, s1) \<Rightarrow>
                        let macPkt = \<lparr>bh_src = cfg_address C, bh_dest = dest, bh_seq = seq,
                                      bh_protocol = n, bh_bits = headerLength C\<rparr>
                        in executeMac K C EV_SEND_REQUEST
                             (PacketMsg (packet\<lparr>bp_headers := macPkt # bp_headers packet,
                                                bp_protocol := Some (cfg_blemesh C)\<rparr>)) s1))))"

definition ble_handleSelfMessage :: "'f ble_kernel \<Rightarrow> ble_cfg \<Rightarrow> ble_timer \<Rightarrow> 'f ble_step" where
  "ble_handleSelfMessage K C x s =
     (case x of
        EnableRadioTimer \<Rightarrow> executeMac K C EV_TIMER_ENABLE_RADIO (TimerMsg x) s
      | DisableRadioTimer \<Rightarrow> executeMac K C EV_TIMER_DISABLE_RADIO (TimerMsg x) s
      | BackoffTimer \<Rightarrow> executeMac K C EV_TIMER_BACKOFF (TimerMsg x) s
      | CcaTimer \<Rightarrow> executeMac K C EV_TIMER_CCA (TimerMsg x) s
      | SifsTimer \<Rightarrow> executeMac K C EV_TIMER_SIFS (TimerMsg x) s
      | RxAckTimer \<Rightarrow>
          executeMac K C EV_ACK_TIMEOUT (TimerMsg x) (s\<lparr>nbMissedAcks := Suc (nbMissedAcks s)\<rparr>))"

text \<open>The acknowledgement built for the sender of a frame; its sequence number and protocol are those of
  a new header.\<close>

definition CSMA_Ack :: string where
  "CSMA_Ack = ''CSMA-Ack''"

definition ble_make_ack :: "ble_cfg \<Rightarrow> mac_address \<Rightarrow> ble_packet" where
  "ble_make_ack C src =
     \<lparr>bp_name = CSMA_Ack, bp_payload = 0, bp_bits = 0,
      bp_headers = [\<lparr>bh_src = cfg_address C, bh_dest = src, bh_seq = 0, bh_protocol = - 1,
                     bh_bits = ackLength C\<rparr>],
      bp_destReq = None, bp_protocol = Some (cfg_blemesh C), bp_srcInd = None, bp_dispatch = None,
      bp_interface = None, bp_bitError = False, bp_duration = 0\<rparr>"

definition ble_receive_data ::
    "'f ble_kernel \<Rightarrow> ble_cfg \<Rightarrow> ble_header \<Rightarrow> ble_packet \<Rightarrow> 'f ble_step" where
  "ble_receive_data K C h packet s =
     (let s1 = s\<lparr>ackMessage := Some (ble_make_ack C (bh_src h))\<rparr>;
          expect = (\<lambda>s. s\<lparr>SeqNrChild := (SeqNrChild s)(bh_src h \<mapsto> bh_seq h + 1)\<rparr>)
      in case SeqNrChild s1 (bh_src h) of
           None \<Rightarrow> executeMac K C EV_FRAME_RECEIVED (PacketMsg packet) (expect s1)
         | Some ExpectedNr \<Rightarrow>
             if bh_seq h < ExpectedNr
             then executeMac K C EV_DUPLICATE_RECEIVED (PacketMsg packet)
                    (s1\<lparr>nbDuplicates := Suc (nbDuplicates s1)\<rparr>)
             else executeMac K C EV_FRAME_RECEIVED (PacketMsg packet) (expect s1))"

definition ble_receive_ack ::
    "'f ble_kernel \<Rightarrow> ble_cfg \<Rightarrow> ble_header \<Rightarrow> ble_packet \<Rightarrow> 'f ble_step" where
  "ble_receive_ack K C h packet s =
     (case macQueue s of
        [] \<Rightarrow> Inr s
      | firstPacket # q \<Rightarrow>
          res_bind (ble_peek firstPacket) (\<lambda>h'.
            if bh_src h = bh_dest h'
            then executeMac K C EV_ACK_RECEIVED (PacketMsg packet) (s\<lparr>nbRecvdAcks := Suc (nbRecvdAcks s)\<rparr>)
            else Inr s))"

definition ble_handleLowerPacket :: "'f ble_kernel \<Rightarrow> ble_cfg \<Rightarrow> ble_packet \<Rightarrow> 'f ble_step" where
  "ble_handleLowerPacket K C packet s =
     (if bp_bitError packet then Inr (ble_act [PacketDropped INCORRECTLY_RECEIVED] s)
      else res_bind (ble_peek packet) (\<lambda>h.
        if bh_dest h = cfg_address C then
          (if \<not> useMACAcks C then executeMac K C EV_FRAME_RECEIVED (PacketMsg packet) s
           else if bp_name packet \<noteq> CSMA_Ack then ble_receive_data K C h packet s
           else ble_receive_ack K C h packet s)
        else if mac_isBroadcast (bh_dest h) \<or> mac_isMulticast (bh_dest h)
        then executeMac K C EV_BROADCAST_RECEIVED (PacketMsg packet) s
        else Inr (ble_act [PacketDropped NOT_ADDRESSED_TO_US] s)))"

definition ble_receiveSignal ::
    "'f ble_kernel \<Rightarrow> ble_cfg \<Rightarrow> transmission_state \<Rightarrow> 'f ble_step" where
  "ble_receiveSignal K C newState s =
     res_bind (if transmissionState s = TRANSMISSION_STATE_TRANSMITTING \<and> newState = TRANSMISSION_STATE_IDLE
               then executeMac K C EV_FRAME_TRANSMITTED TransmissionOver s
               else Inr s) (\<lambda>s1.
       Inr (s1\<lparr>transmissionState := newState\<rparr>))"

text \<open>\<open>finish\<close>: the recorded scalars, in their order; the mean backoff is a sum and a count.\<close>

definition ble_finish :: "'f ble_mac \<Rightarrow> (string \<times> int \<times> nat) list" where
  "ble_finish s =
     [(''nbTxFrames'', int (nbTxFrames s), 1), (''nbRxFrames'', int (nbRxFrames s), 1),
      (''nbDroppedFrames'', int (nbDroppedFrames s), 1), (''nbMissedAcks'', int (nbMissedAcks s), 1),
      (''nbRecvdAcks'', int (nbRecvdAcks s), 1), (''nbTxAcks'', int (nbTxAcks s), 1),
      (''nbDuplicates'', int (nbDuplicates s), 1),
      (''meanBackoff'', if 0 < nbBackoffs s then (backoffValues s, nbBackoffs s) else (0, 1)),
      (''nbBackoffs'', int (nbBackoffs s), 1), (''backoffDurations'', backoffValues s, 1)]"

section \<open>Inputs\<close>

text \<open>What the surroundings do with the module: packets from above and below, a due timer, a signal of the
  radio, a change of the channel, and the passing of time.\<close>

datatype ble_input =
    UpperPacket ble_packet
  | LowerPacket ble_packet
  | TimerDue ble_timer
  | RadioTransmission transmission_state
  | ChannelState bool
  | Elapse simtime

definition ble_step :: "'f ble_kernel \<Rightarrow> ble_cfg \<Rightarrow> 'f ble_mac \<Rightarrow> ble_input \<Rightarrow> 'f ble_mac res" where
  "ble_step K C s i =
     (case i of
        UpperPacket p \<Rightarrow> ble_handleUpperPacket K C p s
      | LowerPacket p \<Rightarrow> ble_handleLowerPacket K C p s
      | TimerDue x \<Rightarrow> ble_handleSelfMessage K C x (s\<lparr>ble_fes := k_deliver K x (ble_fes s)\<rparr>)
      | RadioTransmission t \<Rightarrow> ble_receiveSignal K C t s
      | ChannelState b \<Rightarrow> Inr (s\<lparr>radioIdle := b\<rparr>)
      | Elapse d \<Rightarrow> Inr (s\<lparr>ble_fes := k_advance K d (ble_fes s)\<rparr>))"

end
