(* ===== verification/BleMeshProofs.thy ===== *)
theory BleMeshProofs
  imports BleMeshMac
begin

text \<open>
  The mesh MAC of a node that is not a low power node never fails: an invariant ties the state of the
  machine to the one timer that is pending, to the queue, to the acknowledgement being prepared and to
  the bounds on backoffs and retransmissions, and every input a simulation can offer keeps it.
\<close>

section \<open>The invariant\<close>

text \<open>The timer each state waits for.\<close>

fun ble_awaits :: "mac_state \<Rightarrow> ble_timer option" where
  "ble_awaits BACKOFF_2 = Some BackoffTimer"
| "ble_awaits CCA_3 = Some CcaTimer"
| "ble_awaits WAITACK_5 = Some RxAckTimer"
| "ble_awaits WAITSIFS_6 = Some SifsTimer"
| "ble_awaits _ = None"

definition ble_pending :: "'f ble_kernel \<Rightarrow> ble_timer option \<Rightarrow> 'f ble_mac \<Rightarrow> bool" where
  "ble_pending K w s \<longleftrightarrow>
     k_timely K (ble_fes s) \<and> ble_dead s = {} \<and>
     (\<forall>x. (k_pending K (ble_fes s) x \<noteq> None) = (w = Some x))"

definition ble_core :: "ble_cfg \<Rightarrow> 'f ble_mac \<Rightarrow> bool" where
  "ble_core C s \<longleftrightarrow>
     (\<forall>p \<in> set (macQueue s). bp_headers p \<noteq> []) \<and> length (macQueue s) \<le> queueLength C \<and>
     0 \<le> NB s \<and> txAttempts s \<le> macMaxFrameRetries C"

definition ble_attempt :: "ble_cfg \<Rightarrow> 'f ble_mac \<Rightarrow> bool" where
  "ble_attempt C s \<longleftrightarrow> macQueue s \<noteq> [] \<and> NB s \<le> max 0 (macMaxCSMABackoffs C)"

definition ble_mode :: "ble_cfg \<Rightarrow> 'f ble_mac \<Rightarrow> bool" where
  "ble_mode C s \<longleftrightarrow>
     (case macState s of
        IDLE_1 \<Rightarrow> macQueue s = [] \<and> \<not> transmissionAttemptInterruptedByRx s
      | BACKOFF_2 \<Rightarrow> ble_attempt C s \<and> \<not> transmissionAttemptInterruptedByRx s
      | CCA_3 \<Rightarrow> ble_attempt C s \<and> \<not> transmissionAttemptInterruptedByRx s
      | TRANSMITFRAME_4 \<Rightarrow> macQueue s \<noteq> [] \<and> \<not> transmissionAttemptInterruptedByRx s
      | WAITACK_5 \<Rightarrow> macQueue s \<noteq> [] \<and> \<not> transmissionAttemptInterruptedByRx s \<and> useMACAcks C
      | WAITSIFS_6 \<Rightarrow> useMACAcks C \<and> ackMessage s \<noteq> None \<and>
          (transmissionAttemptInterruptedByRx s \<longrightarrow> ble_attempt C s)
      | TRANSMITACK_7 \<Rightarrow> useMACAcks C \<and> (transmissionAttemptInterruptedByRx s \<longrightarrow> ble_attempt C s))"

definition ble_ok :: "'f ble_kernel \<Rightarrow> ble_cfg \<Rightarrow> 'f ble_mac \<Rightarrow> bool" where
  "ble_ok K C s \<longleftrightarrow> ble_pending K (ble_awaits (macState s)) s \<and> ble_core C s \<and> ble_mode C s"

lemmas ble_defs = ble_act_def setRadioMode_def updateMacState_def ble_pop_front_def ble_delete_def
  fsmError_def

lemmas ble_ok_defs = ble_ok_def ble_core_def ble_mode_def ble_attempt_def

text \<open>The invariant does not look at the log, the counters, the sequence numbers or the radio.\<close>

lemma ble_ok_irrelevant [simp]:
  "ble_ok K C (ble_act l s) = ble_ok K C s" "ble_ok K C (s\<lparr>nbMissedAcks := n\<rparr>) = ble_ok K C s"
  "ble_ok K C (s\<lparr>nbRecvdAcks := n\<rparr>) = ble_ok K C s" "ble_ok K C (s\<lparr>nbDuplicates := n\<rparr>) = ble_ok K C s"
  "ble_ok K C (s\<lparr>nbRxFrames := n\<rparr>) = ble_ok K C s" "ble_ok K C (s\<lparr>nbTxFrames := n\<rparr>) = ble_ok K C s"
  "ble_ok K C (s\<lparr>SeqNrChild := m\<rparr>) = ble_ok K C s" "ble_ok K C (s\<lparr>SeqNrParent := m\<rparr>) = ble_ok K C s"
  "ble_ok K C (s\<lparr>radioIdle := b\<rparr>) = ble_ok K C s" "ble_ok K C (s\<lparr>transmissionState := t\<rparr>) = ble_ok K C s"
  "ble_ok K C (s\<lparr>lowPowerMode := b\<rparr>) = ble_ok K C s"
  by (auto simp: ble_ok_defs ble_pending_def ble_act_def split: mac_state.split)

lemma ble_ok_ack [simp]: "ble_ok K C s \<Longrightarrow> ble_ok K C (s\<lparr>ackMessage := Some a\<rparr>)"
  by (auto simp: ble_ok_defs ble_pending_def split: mac_state.split)

lemma ble_pending_same:
  "ble_fes s' = ble_fes s \<Longrightarrow> ble_dead s' = ble_dead s \<Longrightarrow> ble_pending K w s' = ble_pending K w s"
  by (simp add: ble_pending_def)

section \<open>Timers\<close>

text \<open>A state that differs only in the events and the backoff statistics.\<close>

definition ble_same :: "'f ble_mac \<Rightarrow> 'f ble_mac \<Rightarrow> bool" where
  "ble_same s s' \<longleftrightarrow> (\<exists>f n v. s' = s\<lparr>ble_fes := f, nbBackoffs := n, backoffValues := v\<rparr>)"

lemma ble_sameI:
  assumes "s'\<lparr>ble_fes := ble_fes s, nbBackoffs := nbBackoffs s, backoffValues := backoffValues s\<rparr> = s"
  shows "ble_same s s'"
  unfolding ble_same_def
  by (rule exI[of _ "ble_fes s'"], rule exI[of _ "nbBackoffs s'"], rule exI[of _ "backoffValues s'"],
      subst assms[symmetric], simp)

lemma ble_same_fes: "ble_same s (s\<lparr>ble_fes := f\<rparr>)"
  by (rule ble_sameI) simp

lemma startTimer_same: "startTimer K C x s = Inr s' \<Longrightarrow> ble_same s s'"
  by (auto simp: startTimer_def scheduleBackoff_def ble_scheduleAt_def ble_alive_def res_inr Let_def
      case_prod_unfold intro!: ble_sameI split: mac_timer.splits)

locale ble_module = sim_kernel_laws K for K :: "('f, ble_timer) sim_kernel" +
  fixes C :: ble_cfg
  assumes times: "0 \<le> sifs C" "0 \<le> macAckWaitDuration C" "0 \<le> aUnitBackoffPeriod C"
      "0 \<le> rxSetupTime C + ccaDetectionTime C" "0 < cfg_ms C"
    and exponent: "backoffMethod C = EXPONENTIAL \<Longrightarrow> 0 \<le> macMinBE C \<and> 0 \<le> macMaxBE C \<and> macMaxBE C < 31"
    and window: "backoffMethod C \<noteq> EXPONENTIAL \<Longrightarrow> 1 \<le> initialCW C"
    and header_bytes: "headerLength C mod 8 = 0"
begin

lemma backoff_range_ok:
  assumes "0 \<le> nb"
  shows "\<exists>lo hi. backoff_range C nb = Inr (lo, hi) \<and> 0 \<le> lo \<and> lo \<le> hi"
  using assms exponent window
  by (cases "backoffMethod C") (auto simp: backoff_range_def Let_def min_less_iff_disj)

lemma schedule_ok:
  assumes "ble_pending K None s" and "ble_now K s \<le> t"
  shows "\<exists>s'. ble_scheduleAt K t x s = Inr s' \<and> ble_same s s' \<and> ble_pending K (Some x) s'"
proof -
  have "k_pending K (ble_fes s) x = None" "k_now K (ble_fes s) \<le> t"
    using assms by (auto simp: ble_pending_def ble_now_def)
  from scheduleAt_ok[OF this] obtain f where f: "sim_scheduleAt K t x (ble_fes s) = Inr f"
    "k_pending K f = (k_pending K (ble_fes s))(x \<mapsto> t)" by blast
  have "ble_pending K (Some x) (s\<lparr>ble_fes := f\<rparr>)"
    using assms f scheduleAt_timely[OF _ f(1)] by (auto simp: ble_pending_def)
  moreover note ble_same_fes[of s f]
  ultimately show ?thesis
    using assms f by (simp add: ble_scheduleAt_def ble_alive_def ble_pending_def)
qed

lemma startBackoff_ok:
  assumes "ble_pending K None s" and "0 \<le> NB s"
  shows "\<exists>s'. startTimer K C TIMER_BACKOFF s = Inr s' \<and> ble_same s s' \<and> ble_pending K (Some BackoffTimer) s'"
proof -
  from backoff_range_ok[OF assms(2)] obtain lo hi where
    range: "backoff_range C (NB s) = Inr (lo, hi)" "0 \<le> lo" "lo \<le> hi" by blast
  let ?r = "fst (k_intuniform K lo hi (ble_fes s))" and ?f = "snd (k_intuniform K lo hi (ble_fes s))"
  let ?t = "?r * aUnitBackoffPeriod C"
  let ?s1 = "s\<lparr>ble_fes := ?f, nbBackoffs := Suc (nbBackoffs s), backoffValues := backoffValues s + ?t\<rparr>"
  have "0 \<le> ?t"
    using intuniform_range[OF range(3), of "ble_fes s"] range(2) times(3) by simp
  moreover have "ble_pending K None ?s1"
    using assms(1) by (simp add: ble_pending_def pending_intuniform intuniform_timely)
  ultimately obtain s' where s': "ble_scheduleAt K (?t + ble_now K ?s1) BackoffTimer ?s1 = Inr s'"
    "ble_same ?s1 s'" "ble_pending K (Some BackoffTimer) s'"
    using schedule_ok[of ?s1 "?t + ble_now K ?s1" BackoffTimer] by auto
  have "ble_same s s'" using s'(2) by (auto simp: ble_same_def)
  with s'(1,3) range(1) show ?thesis
    by (simp add: startTimer_def scheduleBackoff_def case_prod_unfold Let_def)
qed

lemma startCca_ok:
  "ble_pending K None s \<Longrightarrow>
     \<exists>s'. startTimer K C TIMER_CCA s = Inr s' \<and> ble_same s s' \<and> ble_pending K (Some CcaTimer) s'"
  using schedule_ok[of s "ble_now K s + rxSetupTime C + ccaDetectionTime C" CcaTimer] times
  by (simp add: startTimer_def)

lemma startSifs_ok:
  "ble_pending K None s \<Longrightarrow> useMACAcks C \<Longrightarrow>
     \<exists>s'. startTimer K C TIMER_SIFS s = Inr s' \<and> ble_same s s' \<and> ble_pending K (Some SifsTimer) s'"
  using schedule_ok[of s "ble_now K s + sifs C" SifsTimer] times by (simp add: startTimer_def)

lemma startRxAck_ok:
  "ble_pending K None s \<Longrightarrow> useMACAcks C \<Longrightarrow>
     \<exists>s'. startTimer K C TIMER_RX_ACK s = Inr s' \<and> ble_same s s' \<and> ble_pending K (Some RxAckTimer) s'"
  using schedule_ok[of s "ble_now K s + macAckWaitDuration C" RxAckTimer] times by (simp add: startTimer_def)

lemma cancel_ok:
  assumes "ble_pending K (Some x) s"
  shows "\<exists>s'. ble_cancelEvent K x s = Inr s' \<and> ble_same s s' \<and> ble_pending K None s'"
proof -
  let ?s = "s\<lparr>ble_fes := k_cancel K x (ble_fes s)\<rparr>"
  have "ble_same s ?s" by (rule ble_same_fes)
  moreover have "ble_pending K None ?s"
    using assms by (auto simp: ble_pending_def pending_cancel cancel_timely)
  ultimately show ?thesis using assms by (simp add: ble_cancelEvent_def ble_alive_def ble_pending_def)
qed

section \<open>Steps of the state machine\<close>

lemma ble_same_fields:
  assumes "ble_same s s'"
  shows "macState s' = macState s" "macQueue s' = macQueue s" "ackMessage s' = ackMessage s"
    "transmissionAttemptInterruptedByRx s' = transmissionAttemptInterruptedByRx s" "NB s' = NB s"
    "ble_core C' s' = ble_core C' s" "ble_mode C' s' = ble_mode C' s" "ble_attempt C' s' = ble_attempt C' s"
  using assms by (auto simp: ble_same_def ble_core_def ble_mode_def ble_attempt_def split: mac_state.split)

lemma manageQueue_ok:
  assumes "ble_pending K None s" and "ble_core C s"
    and "transmissionAttemptInterruptedByRx s \<Longrightarrow> ble_attempt C s"
  shows "\<exists>s'. manageQueue K C s = Inr s' \<and> ble_ok K C s'"
proof (cases "macQueue s = []")
  case True
  with assms show ?thesis
    by (auto simp: manageQueue_def ble_ok_defs updateMacState_def ble_pending_def)
next
  case False
  let ?s1 = "if transmissionAttemptInterruptedByRx s then s\<lparr>transmissionAttemptInterruptedByRx := False\<rparr>
    else s\<lparr>NB := 0\<rparr>"
  have p1: "ble_pending K None ?s1" using assms(1) by (simp add: ble_pending_def)
  have "0 \<le> NB ?s1" using assms(2) by (simp add: ble_core_def)
  from startBackoff_ok[OF p1 this] obtain s2 where
    s2: "startTimer K C TIMER_BACKOFF ?s1 = Inr s2" "ble_same ?s1 s2" "ble_pending K (Some BackoffTimer) s2"
    by blast
  have "BackoffTimer \<notin> ble_dead ?s1" "\<not> ble_isScheduled K BackoffTimer ?s1"
    using p1 by (simp_all add: ble_pending_def ble_isScheduled_def)
  with False s2(1) have "manageQueue K C s = Inr (updateMacState BACKOFF_2 s2)"
    by (simp add: manageQueue_def Let_def ble_alive_def)
  moreover have "ble_ok K C (updateMacState BACKOFF_2 s2)"
    using s2(2,3) assms(2,3) False
    by (cases "transmissionAttemptInterruptedByRx s")
      (auto simp: ble_same_def ble_ok_defs updateMacState_def ble_pending_def)
  ultimately show ?thesis by blast
qed

lemma prepare_ack_ok:
  assumes "ble_pending K None s" and "ble_core C s" and "useMACAcks C" and "ackMessage s \<noteq> None"
    and "transmissionAttemptInterruptedByRx s \<Longrightarrow> ble_attempt C s"
  shows "\<exists>s'. ble_prepare_ack K C s = Inr s' \<and> ble_ok K C s'"
proof -
  let ?s1 = "updateMacState WAITSIFS_6 (setRadioMode RADIO_MODE_TRANSMITTER s)"
  have "ble_pending K None ?s1" using assms(1) by (simp add: ble_defs ble_pending_def)
  from startSifs_ok[OF this assms(3)] obtain s2 where
    s2: "startTimer K C TIMER_SIFS ?s1 = Inr s2" "ble_same ?s1 s2" "ble_pending K (Some SifsTimer) s2" by blast
  have "ble_ok K C s2"
    using s2(2,3) assms(2-)
    by (auto simp: ble_same_def ble_ok_defs ble_defs ble_pending_def)
  with s2(1) show ?thesis by (simp add: ble_prepare_ack_def)
qed

lemma interrupt_ok:
  assumes "ble_pending K (Some x) s" and "ble_core C s" and "ble_attempt C s" and "useMACAcks C"
    and "ackMessage s \<noteq> None"
  shows "\<exists>s'. ble_interrupt K C x s = Inr s' \<and> ble_ok K C s'"
proof -
  let ?s = "s\<lparr>transmissionAttemptInterruptedByRx := True\<rparr>"
  have "ble_pending K (Some x) ?s" using assms(1) by (simp add: ble_pending_def)
  from cancel_ok[OF this] obtain s1 where
    s1: "ble_cancelEvent K x ?s = Inr s1" "ble_same ?s s1" "ble_pending K None s1" by blast
  have "ble_core C s1" "ble_attempt C s1" "ackMessage s1 \<noteq> None"
    using s1(2) assms by (auto simp: ble_same_def ble_core_def ble_attempt_def)
  with prepare_ack_ok[OF s1(3)] assms(4) s1(1) show ?thesis by (simp add: ble_interrupt_def)
qed

text \<open>A packet that can be handed to the network layer.\<close>

definition ble_deliverable :: "ble_packet \<Rightarrow> bool" where
  "ble_deliverable p \<longleftrightarrow>
     (case bp_headers p of [] \<Rightarrow> False | h # hs \<Rightarrow> cfg_protocol C (bh_protocol h) \<noteq> None)"

lemma deliver_up_ok:
  "ble_deliverable p \<Longrightarrow> \<exists>q. ble_deliver_up C (PacketMsg p) s = Inr (ble_act [SendUp q] s)"
  by (auto simp: ble_deliver_up_def ble_deliverable_def decapsulate_def ble_getProtocol_def
      split: list.splits option.splits)

lemma deliver_up_keeps:
  assumes "ble_deliverable p" and "ble_ok K C s"
  shows "\<exists>s'. ble_deliver_up C (PacketMsg p) s = Inr s' \<and> ble_ok K C s'"
  using deliver_up_ok[OF assms(1), of s] assms(2) by auto

end

text \<open>A node that is not a low power node, where only the state machine is left of \<open>executeMac\<close>.\<close>

locale ble_awake = ble_module +
  assumes awake: "\<not> ble_lowPowerNode C"
begin

lemma executeMac_awake:
  "ev \<noteq> EV_TIMER_ENABLE_RADIO \<Longrightarrow> ev \<noteq> EV_TIMER_DISABLE_RADIO \<Longrightarrow> executeMac K C ev msg s = ble_fsm K C ev msg s"
  using awake by (simp add: executeMac_def)

lemma upper_send_ok:
  assumes ok: "ble_ok K C s" and p: "bp_headers p \<noteq> []"
  shows "\<exists>s'. executeMac K C EV_SEND_REQUEST (PacketMsg p) s = Inr s' \<and> ble_ok K C s'"
proof (cases "macState s = IDLE_1 \<and> macQueue s = [] \<and> 0 < queueLength C")
  case True
  let ?s1 = "(updateMacState BACKOFF_2 (s\<lparr>macQueue := [p]\<rparr>))\<lparr>NB := 0\<rparr>"
  have "ble_pending K None ?s1" using ok True by (simp add: ble_ok_def ble_pending_def updateMacState_def)
  from startBackoff_ok[OF this] obtain s2 where
    s2: "startTimer K C TIMER_BACKOFF ?s1 = Inr s2" "ble_same ?s1 s2" "ble_pending K (Some BackoffTimer) s2"
    by auto
  have "ble_ok K C s2"
    using s2(2,3) ok p True
    by (auto simp: ble_same_def ble_ok_defs updateMacState_def ble_pending_def)
  with s2(1) True show ?thesis
    by (simp add: executeMac_awake ble_fsm_def updateStatusIdle_def ble_push_back_def)
next
  case False
  with ok p show ?thesis
    by (cases "macState s")
      (auto simp: executeMac_awake ble_fsm_def updateStatusIdle_def updateStatusNotIdle_def
        ble_push_back_def ble_defs ble_ok_defs ble_pending_def)
qed

lemma receive_ok:
  assumes ok: "ble_ok K C s" and ev: "ev = EV_FRAME_RECEIVED \<or> ev = EV_DUPLICATE_RECEIVED"
    and p: "ble_deliverable p" and ack: "useMACAcks C \<Longrightarrow> ackMessage s \<noteq> None"
  shows "\<exists>s'. executeMac K C ev (PacketMsg p) s = Inr s' \<and> ble_ok K C s'"
proof -
  have del: "ble_delete (PacketMsg p) t = t" for t :: "'a ble_mac" by (simp add: ble_delete_def)
  have pend: "ble_pending K (ble_awaits (macState s)) s" and core: "ble_core C s" and mode: "ble_mode C s"
    using ok by (simp_all add: ble_ok_def)
  note up = deliver_up_keeps[OF p]
  have intr: "\<exists>s1. (if useMACAcks C then ble_interrupt K C x s else Inr s) = Inr s1 \<and> ble_ok K C s1"
    if "ble_awaits (macState s) = Some x" "ble_attempt C s" for x
    using interrupt_ok[of x s] pend core ack that ok by auto
  have fsm: "executeMac K C ev (PacketMsg p) s = ble_fsm K C ev (PacketMsg p) s"
    using ev by (auto simp: executeMac_awake)
  show ?thesis
  proof (cases "macState s")
    case IDLE_1
    from deliver_up_ok[OF p, of s] obtain q where q: "ble_deliver_up C (PacketMsg p) s = Inr (ble_act [SendUp q] s)" by blast
    have "\<exists>s'. ble_prepare_ack K C t = Inr s' \<and> ble_ok K C s'"
      if "useMACAcks C" "t = s \<or> t = (ble_act [SendUp q] s)\<lparr>nbRxFrames := n\<rparr>" for t n
      using that IDLE_1 pend core mode ack
      by (intro prepare_ack_ok) (auto simp: ble_pending_def ble_core_def ble_mode_def ble_act_def)
    with ev ok q IDLE_1 show ?thesis
      unfolding fsm by (auto simp: ble_fsm_def updateStatusIdle_def del Let_def)
  next
    case BACKOFF_2
    with intr[of BackoffTimer] mode obtain s1 where
      s1: "(if useMACAcks C then ble_interrupt K C BackoffTimer s else Inr s) = Inr s1" "ble_ok K C s1"
      by (auto simp: ble_mode_def)
    with ev up[of s1] BACKOFF_2 show ?thesis
      unfolding fsm by (auto simp: ble_fsm_def updateStatusBackoff_def del)
  next
    case CCA_3
    with intr[of CcaTimer] mode obtain s1 where
      s1: "(if useMACAcks C then ble_interrupt K C CcaTimer s else Inr s) = Inr s1" "ble_ok K C s1"
      by (auto simp: ble_mode_def)
    with ev up[of s1] CCA_3 show ?thesis
      unfolding fsm by (auto simp: ble_fsm_def updateStatusCCA_def del)
  next
    case WAITACK_5
    with ev up[of s] ok mode show ?thesis
      unfolding fsm by (auto simp: ble_fsm_def updateStatusWaitAck_def del ble_mode_def)
  next
    case WAITSIFS_6
    with ev up[of s] ok mode show ?thesis
      unfolding fsm by (auto simp: ble_fsm_def updateStatusSIFS_def fsmError_def del ble_mode_def)
  next
    case TRANSMITFRAME_4
    with ev ok show ?thesis
      unfolding fsm by (auto simp: ble_fsm_def updateStatusTransmitFrame_def fsmError_def del)
  next
    case TRANSMITACK_7
    with ev ok mode show ?thesis
      unfolding fsm by (auto simp: ble_fsm_def updateStatusTransmitAck_def fsmError_def del ble_mode_def)
  qed
qed

lemma broadcast_up_ok:
  assumes ok: "ble_ok K C s" and p: "ble_deliverable p"
  shows "\<exists>s'. executeMac K C EV_BROADCAST_RECEIVED (PacketMsg p) s = Inr s' \<and> ble_ok K C s'"
proof -
  have del: "ble_delete (PacketMsg p) t = t" for t :: "'a ble_mac" by (simp add: ble_delete_def)
  have "ble_mode C s" using ok by (simp add: ble_ok_def)
  with ok deliver_up_keeps[OF p, of s] deliver_up_keeps[OF p, of "s\<lparr>nbRxFrames := Suc (nbRxFrames s)\<rparr>"]
  show ?thesis
    by (cases "macState s")
      (simp_all add: executeMac_awake ble_fsm_def updateStatusIdle_def updateStatusBackoff_def
        updateStatusCCA_def updateStatusTransmitFrame_def updateStatusWaitAck_def updateStatusSIFS_def
        updateStatusTransmitAck_def fsmError_def del ble_mode_def)
qed

lemma ack_ok:
  assumes ok: "ble_ok K C s"
  shows "\<exists>s'. executeMac K C EV_ACK_RECEIVED (PacketMsg p) s = Inr s' \<and> ble_ok K C s'"
proof (cases "macState s = WAITACK_5")
  case False
  have "ble_delete (PacketMsg p) t = t" for t :: "'a ble_mac" by (simp add: ble_delete_def)
  moreover have "ble_mode C s" using ok by (simp add: ble_ok_def)
  ultimately show ?thesis using ok False
    by (cases "macState s")
      (simp_all add: executeMac_awake ble_fsm_def updateStatusIdle_def updateStatusBackoff_def
        updateStatusCCA_def updateStatusTransmitFrame_def updateStatusSIFS_def updateStatusTransmitAck_def
        fsmError_def ble_mode_def)
next
  case True
  then have pend: "ble_pending K (Some RxAckTimer) s" and core: "ble_core C s" and mode: "ble_mode C s"
    using ok by (simp_all add: ble_ok_def)
  from cancel_ok[OF pend] obtain s1 where
    s1: "ble_cancelEvent K RxAckTimer s = Inr s1" "ble_same s s1" "ble_pending K None s1" by blast
  have wait: "RxAckTimer \<notin> ble_dead s" "ble_isScheduled K RxAckTimer s"
    using pend by (simp_all add: ble_pending_def ble_isScheduled_def)
  obtain m q where q: "macQueue s = m # q" "macQueue s1 = m # q" "useMACAcks C"
    using mode True ble_same_fields(2)[OF s1(2)] by (cases "macQueue s") (auto simp: ble_mode_def)
  let ?s2 = "ble_delete (PacketMsg p) ((ble_pop_front s1)\<lparr>txAttempts := 0\<rparr>)"
  have "ble_pending K None ?s2" "ble_core C ?s2" "\<not> transmissionAttemptInterruptedByRx ?s2"
    using s1(2,3) core mode q True
    by (auto simp: ble_same_def ble_pending_def ble_core_def ble_mode_def ble_defs)
  then have "\<exists>s'. manageQueue K C ?s2 = Inr s' \<and> ble_ok K C s'" by (auto intro: manageQueue_ok)
  then show ?thesis
    using True q s1(1) wait
    by (auto simp: executeMac_awake ble_fsm_def updateStatusWaitAck_def ble_alive_def ble_front_def)
qed

lemma transmitted_ok:
  assumes ok: "ble_ok K C s"
  shows "\<exists>s'. executeMac K C EV_FRAME_TRANSMITTED TransmissionOver s = Inr s' \<and> ble_ok K C s'"
proof -
  have del: "ble_delete TransmissionOver t = t" for t :: "'a ble_mac" by (simp add: ble_delete_def)
  have pend: "ble_pending K (ble_awaits (macState s)) s" and core: "ble_core C s" and mode: "ble_mode C s"
    using ok by (simp_all add: ble_ok_def)
  show ?thesis
  proof (cases "macState s")
    case TRANSMITFRAME_4
    then obtain m q h hs where q: "macQueue s = m # q" "bp_headers m = h # hs"
      using mode core by (cases "macQueue s"; cases "bp_headers (hd (macQueue s))")
        (auto simp: ble_mode_def ble_core_def)
    let ?s1 = "setRadioMode RADIO_MODE_RECEIVER s"
    have fsm: "executeMac K C EV_FRAME_TRANSMITTED TransmissionOver s =
        (if useMACAcks C \<and> \<not> mac_isBroadcast (bh_dest h) \<and> \<not> mac_isMulticast (bh_dest h)
         then startTimer K C TIMER_RX_ACK (updateMacState WAITACK_5 ?s1)
         else manageQueue K C (ble_pop_front ?s1))"
    proof -
      have "res_bind r (\<lambda>s2. Inr (ble_delete TransmissionOver s2)) = r" for r :: "'a ble_mac res"
        by (cases r) (simp_all add: del)
      then show ?thesis
        using TRANSMITFRAME_4 q
        by (simp add: executeMac_awake ble_fsm_def updateStatusTransmitFrame_def ble_front_def ble_peek_def
            Let_def)
    qed
    show ?thesis
    proof (cases "useMACAcks C \<and> \<not> mac_isBroadcast (bh_dest h) \<and> \<not> mac_isMulticast (bh_dest h)")
      case True
      have "ble_pending K None (updateMacState WAITACK_5 ?s1)"
        using pend TRANSMITFRAME_4 by (simp add: ble_pending_def ble_defs)
      from startRxAck_ok[OF this] True obtain s2 where
        s2: "startTimer K C TIMER_RX_ACK (updateMacState WAITACK_5 ?s1) = Inr s2"
          "ble_same (updateMacState WAITACK_5 ?s1) s2" "ble_pending K (Some RxAckTimer) s2" by blast
      have "ble_ok K C s2"
        using s2(2,3) core mode TRANSMITFRAME_4 True
        by (auto simp: ble_same_def ble_ok_defs ble_defs ble_pending_def)
      with s2(1) True show ?thesis by (simp add: fsm)
    next
      case False
      have "ble_pending K None (ble_pop_front ?s1)" "ble_core C (ble_pop_front ?s1)"
        "\<not> transmissionAttemptInterruptedByRx (ble_pop_front ?s1)"
        using pend core mode TRANSMITFRAME_4 q by (auto simp: ble_pending_def ble_core_def ble_mode_def ble_defs)
      then have "\<exists>s'. manageQueue K C (ble_pop_front ?s1) = Inr s' \<and> ble_ok K C s'"
        by (auto intro: manageQueue_ok)
      then show ?thesis unfolding fsm using False by auto
    qed
  next
    case TRANSMITACK_7
    let ?s1 = "setRadioMode RADIO_MODE_RECEIVER s"
    have "\<exists>s'. manageQueue K C ?s1 = Inr s' \<and> ble_ok K C s'"
      using pend core mode TRANSMITACK_7
      by (intro manageQueue_ok) (auto simp: ble_pending_def ble_core_def ble_mode_def ble_attempt_def ble_defs)
    then show ?thesis
      using mode TRANSMITACK_7
      by (simp add: executeMac_awake ble_fsm_def updateStatusTransmitAck_def del ble_mode_def)
  qed (use ok mode in \<open>simp_all add: executeMac_awake ble_fsm_def updateStatusIdle_def
        updateStatusBackoff_def updateStatusCCA_def updateStatusWaitAck_def updateStatusSIFS_def
        fsmError_def del ble_mode_def\<close>)
qed

text \<open>A timer fires in the one state that waits for it.\<close>

lemma cca_ok:
  assumes pend: "ble_pending K None s" and core: "ble_core C s" and mode: "ble_mode C s"
    and st: "macState s = CCA_3"
  shows "\<exists>s'. updateStatusCCA K C EV_TIMER_CCA msg s = Inr s' \<and> ble_ok K C s'"
proof -
  obtain m q where q: "macQueue s = m # q" "NB s \<le> max 0 (macMaxCSMABackoffs C)"
    "\<not> transmissionAttemptInterruptedByRx s"
    using mode st by (cases "macQueue s") (auto simp: ble_mode_def ble_attempt_def)
  let ?s1 = "s\<lparr>NB := NB s + 1\<rparr>"
  consider "radioIdle s" | "\<not> radioIdle s" "macMaxCSMABackoffs C < NB s + 1"
    | "\<not> radioIdle s" "NB s + 1 \<le> macMaxCSMABackoffs C" by fastforce
  then show ?thesis
  proof cases
    case 1
    then show ?thesis
      using pend core q st
      by (auto simp: updateStatusCCA_def ble_front_def Let_def ble_ok_defs ble_defs ble_pending_def)
  next
    case 2
    let ?s2 = "ble_act [PacketDropped CONGESTION]
      ((ble_pop_front ?s1)\<lparr>txAttempts := 0, nbDroppedFrames := Suc (nbDroppedFrames ?s1)\<rparr>)"
    have "ble_pending K None ?s2" "ble_core C ?s2" "\<not> transmissionAttemptInterruptedByRx ?s2"
      using pend core q by (auto simp: ble_pending_def ble_core_def ble_defs)
    then have "\<exists>s'. manageQueue K C ?s2 = Inr s' \<and> ble_ok K C s'" by (auto intro: manageQueue_ok)
    with 2 q show ?thesis by (simp add: updateStatusCCA_def ble_front_def Let_def)
  next
    case 3
    let ?s2 = "updateMacState BACKOFF_2 ?s1"
    have "ble_pending K None ?s2" "0 \<le> NB ?s2" using pend core by (simp_all add: ble_pending_def ble_core_def ble_defs)
    from startBackoff_ok[OF this] obtain s3 where
      s3: "startTimer K C TIMER_BACKOFF ?s2 = Inr s3" "ble_same ?s2 s3" "ble_pending K (Some BackoffTimer) s3"
      by blast
    have "ble_ok K C s3"
      using s3(2,3) core q 3 by (auto simp: ble_same_def ble_ok_defs ble_defs ble_pending_def)
    with s3(1) 3 show ?thesis by (simp add: updateStatusCCA_def Let_def)
  qed
qed

lemma missing_ack_ok:
  assumes pend: "ble_pending K None s" and core: "ble_core C s" and mode: "ble_mode C s"
    and st: "macState s = WAITACK_5"
  shows "\<exists>s'. manageMissingAck K C s = Inr s' \<and> ble_ok K C s'"
proof -
  obtain m q where q: "macQueue s = m # q" "\<not> transmissionAttemptInterruptedByRx s"
    using mode st by (cases "macQueue s") (auto simp: ble_mode_def)
  let ?s1 = "if txAttempts s < macMaxFrameRetries C then s\<lparr>txAttempts := Suc (txAttempts s)\<rparr>
    else ble_act [PacketDropped RETRY_LIMIT_REACHED, LinkBroken] ((ble_pop_front s)\<lparr>txAttempts := 0\<rparr>)"
  have "ble_pending K None ?s1" "ble_core C ?s1" "\<not> transmissionAttemptInterruptedByRx ?s1"
    using pend core q by (auto simp: ble_pending_def ble_core_def ble_defs)
  then have "\<exists>s'. manageQueue K C ?s1 = Inr s' \<and> ble_ok K C s'" by (auto intro: manageQueue_ok)
  with q show ?thesis by (simp add: manageMissingAck_def ble_front_def split: if_splits)
qed

lemma timer_ok:
  assumes ok: "ble_ok K C s" and due: "k_due K (ble_fes s) x"
  shows "\<exists>s'. ble_step K C s (TimerDue x) = Inr s' \<and> ble_ok K C s'"
proof -
  let ?s = "s\<lparr>ble_fes := k_deliver K x (ble_fes s)\<rparr>"
  have st: "ble_awaits (macState s) = Some x"
    using ok due by (auto simp: ble_ok_def ble_pending_def k_due_def)
  have pend: "ble_pending K None ?s"
    using ok due st by (auto simp: ble_ok_def ble_pending_def pending_deliver deliver_timely)
  have core: "ble_core C ?s" and mode: "ble_mode C ?s"
    using ok by (auto simp: ble_ok_defs split: mac_state.split)
  show ?thesis
  proof (cases "macState s")
    case BACKOFF_2
    from startCca_ok[OF pend] obtain s1 where
      s1: "startTimer K C TIMER_CCA ?s = Inr s1" "ble_same ?s s1" "ble_pending K (Some CcaTimer) s1" by blast
    have "ble_ok K C (setRadioMode RADIO_MODE_RECEIVER (updateMacState CCA_3 s1))"
      using s1(2,3) core mode BACKOFF_2 by (auto simp: ble_same_def ble_ok_defs ble_defs ble_pending_def)
    with s1(1) BACKOFF_2 st show ?thesis
      by (auto simp: ble_step_def ble_handleSelfMessage_def executeMac_awake ble_fsm_def updateStatusBackoff_def)
  next
    case CCA_3
    with cca_ok[OF pend core mode] st show ?thesis
      by (auto simp: ble_step_def ble_handleSelfMessage_def executeMac_awake ble_fsm_def)
  next
    case WAITACK_5
    let ?s1 = "?s\<lparr>nbMissedAcks := Suc (nbMissedAcks ?s)\<rparr>"
    have "ble_pending K None ?s1" "ble_core C ?s1" "ble_mode C ?s1"
      using pend core mode by (auto simp: ble_pending_def ble_core_def ble_mode_def ble_attempt_def split: mac_state.split)
    with missing_ack_ok[of ?s1] WAITACK_5 st mode show ?thesis
      by (auto simp: ble_step_def ble_handleSelfMessage_def executeMac_awake ble_fsm_def
          updateStatusWaitAck_def ble_mode_def)
  next
    case WAITSIFS_6
    with pend core mode st show ?thesis
      by (auto simp: ble_step_def ble_handleSelfMessage_def executeMac_awake ble_fsm_def updateStatusSIFS_def
          ble_ok_defs ble_defs ble_pending_def)
  qed (use st in simp_all)
qed

end

end
