(* ===== verification/BleMeshRun.thy ===== *)
theory BleMeshRun
  imports BleMeshProofs
begin

text \<open>
  Runs of the mesh MAC: which inputs the simulation offers, the safety of every run of a node that is not
  a low power node, and what the handlers leave alone: the maps of sequence numbers, on which the
  recognition of duplicates rests, and the number of transmissions a frame can cost.
\<close>

section \<open>Inputs that can occur\<close>

text \<open>
  A packet from above has its tags and a protocol with a number; a frame from below has a header, of a
  known protocol unless it is an acknowledgement for this node; the timer that fires is due; time stops
  at the next timer.
\<close>

definition ble_sendable :: "ble_cfg \<Rightarrow> ble_packet \<Rightarrow> bool" where
  "ble_sendable C p \<longleftrightarrow>
     bp_name p = FRIEND_ESTABLISHED_INTERNAL \<or>
     bp_destReq p \<noteq> None \<and>
     (case bp_protocol p of None \<Rightarrow> False | Some prot \<Rightarrow> cfg_protocolNumber C prot \<noteq> None)"

definition ble_receivable :: "ble_cfg \<Rightarrow> ble_packet \<Rightarrow> bool" where
  "ble_receivable C p \<longleftrightarrow>
     bp_bitError p \<or>
     (case bp_headers p of
        [] \<Rightarrow> False
      | h # hs \<Rightarrow> cfg_protocol C (bh_protocol h) \<noteq> None \<or>
          useMACAcks C \<and> bh_dest h = cfg_address C \<and> bp_name p = CSMA_Ack)"

definition ble_valid :: "'f ble_kernel \<Rightarrow> ble_cfg \<Rightarrow> 'f ble_mac \<Rightarrow> ble_input \<Rightarrow> bool" where
  "ble_valid K C s i =
     (case i of
        UpperPacket p \<Rightarrow> ble_sendable C p
      | LowerPacket p \<Rightarrow> ble_receivable C p
      | TimerDue x \<Rightarrow> k_due K (ble_fes s) x
      | RadioTransmission t \<Rightarrow> True
      | ChannelState b \<Rightarrow> True
      | Elapse d \<Rightarrow> k_may_advance K (ble_fes s) d)"

inductive ble_run :: "'f ble_kernel \<Rightarrow> ble_cfg \<Rightarrow> 'f ble_mac \<Rightarrow> ble_input list \<Rightarrow> 'f ble_mac \<Rightarrow> bool"
  for K C s where
  ble_run_start: "ble_run K C s [] s"
| ble_run_step: "ble_run K C s ins t \<Longrightarrow> ble_valid K C t i \<Longrightarrow> ble_step K C t i = Inr t' \<Longrightarrow>
    ble_run K C s (ins @ [i]) t'"

inductive_cases ble_run_nilE: "ble_run K C s [] t"

definition ble_timers_off :: "'f ble_kernel \<Rightarrow> 'f \<Rightarrow> bool" where
  "ble_timers_off K f \<longleftrightarrow> (\<forall>x. k_pending K f x = None)"

section \<open>Safety\<close>

lemma ble_init_ok: "ble_timers_off K f \<Longrightarrow> ble_ok K C (ble_init f)"
  by (simp add: ble_ok_defs ble_init_def ble_pending_def ble_timers_off_def k_timely_def)

context ble_awake
begin

lemma upper_ok:
  assumes ok: "ble_ok K C s" and p: "ble_sendable C p"
  shows "\<exists>s'. ble_handleUpperPacket K C p s = Inr s' \<and> ble_ok K C s'"
proof (cases "bp_name p = FRIEND_ESTABLISHED_INTERNAL")
  case True
  with ok show ?thesis
    by (simp add: ble_handleUpperPacket_def setRadioMode_def)
next
  case False
  with p obtain d prot n where dp: "bp_destReq p = Some d" "bp_protocol p = Some prot"
    "cfg_protocolNumber C prot = Some n"
    by (auto simp: ble_sendable_def split: option.splits)
  have seq: "ble_ok K C (snd (if useMACAcks C then ble_next_seq d s else (0, s)))"
    using ok by (simp add: ble_next_seq_def split: option.split)
  show ?thesis
    using False dp header_bytes upper_send_ok[OF seq]
    by (simp add: ble_handleUpperPacket_def ble_getProtocolNumber_def case_prod_unfold Let_def)
qed

lemma receive_data_ok:
  assumes ok: "ble_ok K C s" and p: "ble_deliverable p"
  shows "\<exists>s'. ble_receive_data K C h p s = Inr s' \<and> ble_ok K C s'"
  using ok
  by (auto simp: ble_receive_data_def Let_def split: option.splits intro!: receive_ok p)

lemma receive_ack_ok:
  assumes ok: "ble_ok K C s"
  shows "\<exists>s'. ble_receive_ack K C h p s = Inr s' \<and> ble_ok K C s'"
proof (cases "macQueue s")
  case (Cons m q)
  then obtain h' hs where "bp_headers m = h' # hs"
    using ok by (cases "bp_headers m") (auto simp: ble_ok_def ble_core_def)
  with Cons ok ack_ok[of "s\<lparr>nbRecvdAcks := Suc (nbRecvdAcks s)\<rparr>" p] show ?thesis
    by (simp add: ble_receive_ack_def ble_peek_def)
qed (use ok in \<open>simp add: ble_receive_ack_def\<close>)

lemma lower_ok:
  assumes ok: "ble_ok K C s" and p: "ble_receivable C p"
  shows "\<exists>s'. ble_handleLowerPacket K C p s = Inr s' \<and> ble_ok K C s'"
proof (cases "bp_bitError p")
  case False
  with p obtain h hs where h: "bp_headers p = h # hs"
    by (auto simp: ble_receivable_def split: list.splits)
  have "ble_deliverable p" if "\<not> (useMACAcks C \<and> bh_dest h = cfg_address C \<and> bp_name p = CSMA_Ack)"
    using that p False h by (auto simp: ble_receivable_def ble_deliverable_def)
  with ok False h receive_ok[OF ok, of EV_FRAME_RECEIVED p] receive_data_ok[OF ok, of p h]
    receive_ack_ok[OF ok, of h p] broadcast_up_ok[OF ok, of p] show ?thesis
    by (auto simp: ble_handleLowerPacket_def ble_peek_def)
qed (use ok in \<open>simp add: ble_handleLowerPacket_def\<close>)

lemma signal_ok:
  assumes ok: "ble_ok K C s"
  shows "\<exists>s'. ble_receiveSignal K C t s = Inr s' \<and> ble_ok K C s'"
  using ok transmitted_ok[OF ok] by (auto simp: ble_receiveSignal_def)

lemma ble_step_ok:
  assumes ok: "ble_ok K C s" and valid: "ble_valid K C s i"
  shows "\<exists>s'. ble_step K C s i = Inr s' \<and> ble_ok K C s'"
proof (cases i)
  case (Elapse d)
  with ok valid show ?thesis
    by (auto simp: ble_step_def ble_valid_def ble_ok_defs ble_pending_def pending_advance advance_timely
        split: mac_state.split)
qed (use ok valid upper_ok lower_ok timer_ok signal_ok in \<open>auto simp: ble_step_def ble_valid_def\<close>)

lemma ble_run_ok:
  assumes "ble_run K C s ins t" and "ble_ok K C s"
  shows "ble_ok K C t"
  using assms
proof (induction rule: ble_run.induct)
  case (ble_run_step ins t i t')
  with ble_step_ok[of t i] show ?case by auto
qed

lemma run_never_fails:
  assumes "ble_timers_off K f" and "ble_run K C (ble_init f) ins t"
  shows "(\<forall>i. ble_valid K C t i \<longrightarrow> is_ok (ble_step K C t i)) \<and>
    (\<forall>x. (k_pending K (ble_fes t) x \<noteq> None) = (ble_awaits (macState t) = Some x)) \<and>
    (macState t = IDLE_1 \<longrightarrow> macQueue t = []) \<and>
    (macQueue t = [] \<longrightarrow> macState t \<in> {IDLE_1, WAITSIFS_6, TRANSMITACK_7}) \<and>
    length (macQueue t) \<le> queueLength C \<and> txAttempts t \<le> macMaxFrameRetries C"
proof -
  have ok: "ble_ok K C t" by (rule ble_run_ok[OF assms(2) ble_init_ok[OF assms(1)]])
  then have "\<forall>i. ble_valid K C t i \<longrightarrow> is_ok (ble_step K C t i)"
    using ble_step_ok by (auto simp: is_ok_iff)
  moreover have "(macState t = IDLE_1 \<longrightarrow> macQueue t = []) \<and>
    (macQueue t = [] \<longrightarrow> macState t \<in> {IDLE_1, WAITSIFS_6, TRANSMITACK_7})"
    using ok by (cases "macState t") (auto simp: ble_ok_defs)
  ultimately show ?thesis using ok by (auto simp: ble_ok_def ble_core_def ble_pending_def)
qed

end

section \<open>What the handlers leave alone\<close>

text \<open>The state machine and its timers do not touch the maps of sequence numbers and the duplicates.\<close>

definition ble_kept :: "'f ble_mac \<Rightarrow> 'f ble_mac \<Rightarrow> bool" where
  "ble_kept s s' \<longleftrightarrow> SeqNrParent s' = SeqNrParent s \<and> SeqNrChild s' = SeqNrChild s \<and>
     nbDuplicates s' = nbDuplicates s"

lemma ble_kept_act [simp]:
  "SeqNrParent (ble_act l s) = SeqNrParent s" "SeqNrChild (ble_act l s) = SeqNrChild s"
  "SeqNrParent (setRadioMode m s) = SeqNrParent s" "SeqNrChild (setRadioMode m s) = SeqNrChild s"
  "SeqNrParent (updateMacState st s) = SeqNrParent s" "SeqNrChild (updateMacState st s) = SeqNrChild s"
  "SeqNrParent (ble_pop_front s) = SeqNrParent s" "SeqNrChild (ble_pop_front s) = SeqNrChild s"
  "SeqNrParent (ble_delete msg s) = SeqNrParent s" "SeqNrChild (ble_delete msg s) = SeqNrChild s"
  "SeqNrParent (fsmError ev msg s) = SeqNrParent s" "SeqNrChild (fsmError ev msg s) = SeqNrChild s"
  "nbDuplicates (ble_act l s) = nbDuplicates s" "nbDuplicates (setRadioMode m s) = nbDuplicates s"
  "nbDuplicates (updateMacState st s) = nbDuplicates s" "nbDuplicates (ble_pop_front s) = nbDuplicates s"
  "nbDuplicates (ble_delete msg s) = nbDuplicates s" "nbDuplicates (fsmError ev msg s) = nbDuplicates s"
  "nbDuplicates (clearQueue s) = nbDuplicates s"
  "SeqNrParent (clearQueue s) = SeqNrParent s" "SeqNrChild (clearQueue s) = SeqNrChild s"
  by (auto simp: ble_defs clearQueue_def split: ble_msg.split)

named_theorems ble_keeps

lemma startTimer_keeps [ble_keeps]: "startTimer K C x s = Inr s' \<Longrightarrow> ble_kept s s'"
  using startTimer_same[of K C x s s'] by (auto simp: ble_same_def ble_kept_def)

lemma cancelEvent_keeps [ble_keeps]: "ble_cancelEvent K x s = Inr s' \<Longrightarrow> ble_kept s s'"
  by (auto simp: ble_cancelEvent_def ble_alive_def res_inr ble_kept_def)

lemma deliver_up_keeps_seq [ble_keeps]: "ble_deliver_up C msg s = Inr s' \<Longrightarrow> ble_kept s s'"
  by (auto simp: ble_deliver_up_def res_inr ble_kept_def split: ble_msg.splits)

lemma push_back_keeps [ble_keeps]: "ble_push_back msg s = Inr s' \<Longrightarrow> ble_kept s s'"
  by (auto simp: ble_push_back_def ble_kept_def split: ble_msg.splits)

lemma manageQueue_keeps [ble_keeps]: "manageQueue K C s = Inr s' \<Longrightarrow> ble_kept s s'"
  by (auto simp: manageQueue_def ble_alive_def res_inr ble_kept_def Let_def dest!: ble_keeps split: if_splits)

lemma prepare_ack_keeps [ble_keeps]: "ble_prepare_ack K C s = Inr s' \<Longrightarrow> ble_kept s s'"
  by (auto simp: ble_prepare_ack_def ble_kept_def dest!: ble_keeps)

lemma interrupt_keeps [ble_keeps]: "ble_interrupt K C x s = Inr s' \<Longrightarrow> ble_kept s s'"
  by (auto simp: ble_interrupt_def res_inr ble_kept_def dest!: ble_keeps)

lemma ble_fsm_keeps [ble_keeps]: "ble_fsm K C ev msg s = Inr s' \<Longrightarrow> ble_kept s s'"
proof -
  have idle: "updateStatusIdle K C ev msg s = Inr s' \<Longrightarrow> ble_kept s s'"
    by (auto simp: updateStatusIdle_def res_inr ble_kept_def Let_def dest!: ble_keeps split: if_splits)
  have backoff: "updateStatusBackoff K C ev msg s = Inr s' \<Longrightarrow> ble_kept s s'"
    by (auto simp: updateStatusBackoff_def res_inr ble_kept_def dest!: ble_keeps split: if_splits)
  have cca: "updateStatusCCA K C ev msg s = Inr s' \<Longrightarrow> ble_kept s s'"
    by (auto simp: updateStatusCCA_def res_inr ble_kept_def Let_def dest!: ble_keeps split: if_splits)
  have frame: "updateStatusTransmitFrame K C ev msg s = Inr s' \<Longrightarrow> ble_kept s s'"
    by (auto simp: updateStatusTransmitFrame_def res_inr ble_kept_def Let_def dest!: ble_keeps split: if_splits)
  have wait: "updateStatusWaitAck K C ev msg s = Inr s' \<Longrightarrow> ble_kept s s'"
    by (auto simp: updateStatusWaitAck_def manageMissingAck_def ble_alive_def res_inr ble_kept_def dest!: ble_keeps
        split: if_splits)
  have sifs: "updateStatusSIFS K C ev msg s = Inr s' \<Longrightarrow> ble_kept s s'"
    by (auto simp: updateStatusSIFS_def res_inr ble_kept_def Let_def dest!: ble_keeps split: if_splits option.splits)
  have ack: "updateStatusTransmitAck K C ev msg s = Inr s' \<Longrightarrow> ble_kept s s'"
    by (auto simp: updateStatusTransmitAck_def res_inr ble_kept_def dest!: ble_keeps split: if_splits)
  have send: "updateStatusNotIdle C msg s = Inr s' \<Longrightarrow> ble_kept s s'"
    by (auto simp: updateStatusNotIdle_def ble_kept_def dest!: ble_keeps split: if_splits)
  assume "ble_fsm K C ev msg s = Inr s'"
  with idle backoff cca frame wait sifs ack send show ?thesis
    by (auto simp: ble_fsm_def split: if_splits mac_state.splits)
qed

lemma executeMac_keeps [ble_keeps]: "executeMac K C ev msg s = Inr s' \<Longrightarrow> ble_kept s s'"
  by (auto simp: executeMac_def res_inr ble_kept_def dest!: ble_keeps split: if_splits)

lemma receive_ack_keeps [ble_keeps]: "ble_receive_ack K C h p s = Inr s' \<Longrightarrow> ble_kept s s'"
  by (auto simp: ble_receive_ack_def res_inr ble_kept_def dest!: ble_keeps split: list.splits if_splits)

lemma receiveSignal_keeps [ble_keeps]: "ble_receiveSignal K C t s = Inr s' \<Longrightarrow> ble_kept s s'"
  by (auto simp: ble_receiveSignal_def res_inr ble_kept_def dest!: ble_keeps split: if_splits)

lemma handleSelfMessage_keeps [ble_keeps]: "ble_handleSelfMessage K C x s = Inr s' \<Longrightarrow> ble_kept s s'"
  by (auto simp: ble_handleSelfMessage_def ble_kept_def dest!: ble_keeps split: ble_timer.splits)

section \<open>Duplicates\<close>

text \<open>The number of packets handed to the network layer.\<close>

fun is_send_up :: "ble_action \<Rightarrow> bool" where
  "is_send_up (SendUp p) = True"
| "is_send_up _ = False"

definition delivered :: "'f ble_mac \<Rightarrow> nat" where
  "delivered s = length (filter is_send_up (ble_log s))"

definition ble_quiet :: "'f ble_mac \<Rightarrow> 'f ble_mac \<Rightarrow> bool" where
  "ble_quiet s s' \<longleftrightarrow> delivered s' = delivered s"

lemma delivered_simps [simp]:
  "delivered (updateMacState st s) = delivered s" "delivered (setRadioMode m s) = delivered s"
  "delivered (ble_pop_front s) = delivered s" "delivered (ble_delete msg s) = delivered s"
  "delivered (fsmError ev msg s) = delivered s" "delivered (clearQueue s) = delivered s"
  "delivered (s\<lparr>NB := n\<rparr>) = delivered s" "delivered (s\<lparr>txAttempts := a\<rparr>) = delivered s"
  "delivered (s\<lparr>transmissionAttemptInterruptedByRx := b\<rparr>) = delivered s"
  "delivered (s\<lparr>lowPowerMode := b\<rparr>) = delivered s" "delivered (s\<lparr>ackMessage := am\<rparr>) = delivered s"
  "delivered (s\<lparr>nbDuplicates := n1\<rparr>) = delivered s" "delivered (s\<lparr>SeqNrChild := m1\<rparr>) = delivered s"
  "delivered (ble_act l s) = delivered s + length (filter is_send_up l)"
  by (auto simp: delivered_def ble_defs clearQueue_def split: ble_msg.split)

named_theorems ble_quiets

lemma startTimer_quiet [ble_quiets]: "startTimer K C x s = Inr s' \<Longrightarrow> delivered s' = delivered s"
  using startTimer_same[of K C x s s'] by (auto simp: ble_same_def delivered_def)

lemma cancelEvent_quiet [ble_quiets]: "ble_cancelEvent K x s = Inr s' \<Longrightarrow> delivered s' = delivered s"
  by (auto simp: ble_cancelEvent_def ble_alive_def res_inr delivered_def)

lemma prepare_ack_quiet [ble_quiets]: "ble_prepare_ack K C s = Inr s' \<Longrightarrow> delivered s' = delivered s"
  by (auto simp: ble_prepare_ack_def dest!: ble_quiets)

lemma interrupt_quiet [ble_quiets]: "ble_interrupt K C x s = Inr s' \<Longrightarrow> delivered s' = delivered s"
  by (auto simp: ble_interrupt_def res_inr dest!: ble_quiets)

text \<open>A duplicate is never handed up, and neither is any frame in the two transmitting states.\<close>

lemma duplicate_quiet:
  "ble_fsm K C EV_DUPLICATE_RECEIVED msg s = Inr s' \<Longrightarrow> delivered s' = delivered s"
  by (auto simp: ble_fsm_def updateStatusIdle_def updateStatusBackoff_def updateStatusCCA_def
      updateStatusTransmitFrame_def updateStatusWaitAck_def updateStatusSIFS_def updateStatusTransmitAck_def
      res_inr Let_def split: mac_state.splits if_splits dest!: ble_quiets)

lemma execute_duplicate_quiet:
  "executeMac K C EV_DUPLICATE_RECEIVED msg s = Inr s' \<Longrightarrow> delivered s' = delivered s"
  by (auto simp: executeMac_def split: if_splits dest!: duplicate_quiet)

lemma transmitting_quiet:
  assumes "macState s = TRANSMITFRAME_4 \<or> macState s = TRANSMITACK_7"
    and "executeMac K C EV_FRAME_RECEIVED msg s = Inr s'"
  shows "delivered s' = delivered s"
  using assms
  by (auto simp: executeMac_def ble_fsm_def updateStatusTransmitFrame_def updateStatusTransmitAck_def
      res_inr split: if_splits)

text \<open>The number expected from a sender never sinks.\<close>

definition ble_expects :: "mac_address \<Rightarrow> int \<Rightarrow> 'f ble_mac \<Rightarrow> bool" where
  "ble_expects src n s \<longleftrightarrow> (case SeqNrChild s src of None \<Rightarrow> False | Some e \<Rightarrow> n \<le> e)"

lemma ble_expects_kept: "ble_kept s s' \<Longrightarrow> ble_expects src n s' = ble_expects src n s"
  by (simp add: ble_expects_def ble_kept_def)

lemma receive_data_expects:
  assumes "ble_receive_data K C h p s = Inr s'"
  shows "ble_expects (bh_src h) (bh_seq h + 1) s'"
    and "ble_expects src n s \<Longrightarrow> ble_expects src n s'"
    and "SeqNrParent s' = SeqNrParent s"
    and "ble_expects (bh_src h) (bh_seq h + 1) s \<Longrightarrow>
           delivered s' = delivered s \<and> nbDuplicates s' = Suc (nbDuplicates s)"
proof -
  let ?s1 = "s\<lparr>ackMessage := Some (ble_make_ack C (bh_src h))\<rparr>"
  let ?new = "?s1\<lparr>SeqNrChild := (SeqNrChild s)(bh_src h \<mapsto> bh_seq h + 1)\<rparr>"
  let ?dup = "?s1\<lparr>nbDuplicates := Suc (nbDuplicates ?s1)\<rparr>"
  have cs: "(ble_kept ?new s' \<and> (\<forall>e. SeqNrChild s (bh_src h) = Some e \<longrightarrow> e \<le> bh_seq h)) \<or>
    (\<exists>e. ble_kept ?dup s' \<and> delivered s' = delivered s \<and> SeqNrChild s (bh_src h) = Some e \<and> bh_seq h < e)"
  proof (cases "SeqNrChild s (bh_src h)")
    case (Some e)
    then show ?thesis
      using assms executeMac_keeps[of K C _ _ ?dup s'] execute_duplicate_quiet[of K C _ ?dup s']
      by (auto simp: ble_receive_data_def Let_def split: if_splits dest!: executeMac_keeps[of K C _ _ ?new s'])
  qed (use assms in \<open>auto simp: ble_receive_data_def dest!: executeMac_keeps\<close>)
  then show "ble_expects (bh_src h) (bh_seq h + 1) s'"
    by (auto simp: ble_expects_def ble_kept_def)
  from cs show "ble_expects src n s \<Longrightarrow> ble_expects src n s'"
    by (auto simp: ble_expects_def ble_kept_def split: option.splits if_splits)
  from cs show "SeqNrParent s' = SeqNrParent s"
    by (auto simp: ble_kept_def)
  from cs show "ble_expects (bh_src h) (bh_seq h + 1) s \<Longrightarrow>
      delivered s' = delivered s \<and> nbDuplicates s' = Suc (nbDuplicates s)"
    by (auto simp: ble_expects_def ble_kept_def split: option.splits)
qed

lemma handleLowerPacket_expects:
  assumes "ble_handleLowerPacket K C p s = Inr s'"
  shows "ble_expects src n s \<Longrightarrow> ble_expects src n s'" and "SeqNrParent s' = SeqNrParent s"
proof -
  from assms consider (kept) "ble_kept s s'" | (data) h where "ble_receive_data K C h p s = Inr s'"
    by (auto simp: ble_handleLowerPacket_def res_inr ble_kept_def split: if_splits dest!: ble_keeps)
  then have "(ble_expects src n s \<longrightarrow> ble_expects src n s') \<and> SeqNrParent s' = SeqNrParent s"
  proof cases
    case kept
    then show ?thesis by (simp add: ble_expects_kept) (simp add: ble_kept_def)
  next
    case data
    from receive_data_expects(2,3)[OF data] show ?thesis by blast
  qed
  then show "ble_expects src n s \<Longrightarrow> ble_expects src n s'" and "SeqNrParent s' = SeqNrParent s"
    by blast+
qed

lemma handleUpperPacket_seq:
  assumes "ble_handleUpperPacket K C p s = Inr s'"
  shows "SeqNrChild s' = SeqNrChild s"
    and "SeqNrParent s' = (if useMACAcks C \<and> bp_name p \<noteq> FRIEND_ESTABLISHED_INTERNAL
           then SeqNrParent (snd (ble_next_seq (the (bp_destReq p)) s)) else SeqNrParent s)"
  using assms
  by (auto simp: ble_handleUpperPacket_def res_inr Let_def ble_next_seq_def ble_kept_def
      split: if_splits option.splits prod.splits dest!: ble_keeps)

lemma ble_step_expects:
  assumes "ble_step K C s i = Inr s'" and "ble_expects src n s"
  shows "ble_expects src n s'"
proof (cases i)
  case (UpperPacket p)
  with assms handleUpperPacket_seq(1) show ?thesis
    by (fastforce simp: ble_step_def ble_expects_def)
next
  case (LowerPacket p)
  with assms handleLowerPacket_expects(1) show ?thesis by (auto simp: ble_step_def)
qed (use assms in \<open>auto simp: ble_step_def ble_expects_def ble_kept_def dest!: ble_keeps\<close>)

lemma res_run_expects:
  "res_run (ble_step K C) s ins = Inr s' \<Longrightarrow> ble_expects src n s \<Longrightarrow> ble_expects src n s'"
  by (rule res_run_invariant[where I = "ble_expects src n"]) (auto intro: ble_step_expects)

section \<open>Sequence numbers\<close>

text \<open>The packets for \<open>dest\<close> among the inputs.\<close>

fun ble_sends :: "mac_address \<Rightarrow> ble_input list \<Rightarrow> nat" where
  "ble_sends dest [] = 0"
| "ble_sends dest (UpperPacket p # ins) =
     (if bp_destReq p = Some dest \<and> bp_name p \<noteq> FRIEND_ESTABLISHED_INTERNAL then 1 else 0) + ble_sends dest ins"
| "ble_sends dest (i # ins) = ble_sends dest ins"

definition ble_sent :: "mac_address \<Rightarrow> nat \<Rightarrow> 'f ble_mac \<Rightarrow> bool" where
  "ble_sent dest n s \<longleftrightarrow> SeqNrParent s dest = (if n = 0 then None else Some (int n))"

lemma ble_step_sent:
  assumes acks: "useMACAcks C" and step: "ble_step K C s i = Inr s'" and sent: "ble_sent dest n s"
  shows "ble_sent dest (n + ble_sends dest [i]) s'"
proof (cases i)
  case (UpperPacket p)
  with step have h: "ble_handleUpperPacket K C p s = Inr s'" by (simp add: ble_step_def)
  have "bp_name p \<noteq> FRIEND_ESTABLISHED_INTERNAL \<Longrightarrow> \<exists>d. bp_destReq p = Some d"
    using h by (auto simp: ble_handleUpperPacket_def res_inr split: option.splits)
  with handleUpperPacket_seq(2)[OF h] acks sent UpperPacket show ?thesis
    by (cases "bp_name p = FRIEND_ESTABLISHED_INTERNAL")
      (auto simp: ble_sent_def ble_next_seq_def split: option.splits if_splits)
next
  case (LowerPacket p)
  with assms handleLowerPacket_expects(2)[of K C p s s'] show ?thesis by (simp add: ble_step_def ble_sent_def)
qed (use assms in \<open>auto simp: ble_step_def ble_sent_def ble_kept_def dest!: ble_keeps\<close>)

lemma ble_sends_Cons: "ble_sends dest (i # ins) = ble_sends dest [i] + ble_sends dest ins"
  by (cases i) simp_all

lemma res_run_sent:
  assumes "useMACAcks C" and "res_run (ble_step K C) s ins = Inr s'" and "ble_sent dest n s"
  shows "ble_sent dest (n + ble_sends dest ins) s'"
  using assms(2,3)
proof (induction ins arbitrary: s n)
  case (Cons i ins)
  from Cons.prems(1) obtain s1 where s1: "ble_step K C s i = Inr s1" "res_run (ble_step K C) s1 ins = Inr s'"
    by (auto simp: res_inr)
  from Cons.IH[OF s1(2) ble_step_sent[OF assms(1) s1(1) Cons.prems(2)]] show ?case
    by (simp add: ble_sends_Cons[of dest i ins] add.assoc)
qed simp

section \<open>The cost of a frame\<close>

text \<open>
  The frames transmitted so far, paid for by the packets accepted: \<open>macMaxFrameRetries + 1\<close> each, where
  the front of the queue has used one for every failed attempt and one for the attempt under way.
\<close>

definition in_flight :: "mac_state \<Rightarrow> nat" where
  "in_flight st = (if st = TRANSMITFRAME_4 \<or> st = WAITACK_5 then 1 else 0)"

definition ble_budget :: "nat \<Rightarrow> nat \<Rightarrow> 'f ble_mac \<Rightarrow> bool" where
  "ble_budget R n s \<longleftrightarrow>
     nbTxFrames s + Suc R * length (macQueue s) \<le>
       Suc R * n + (if macQueue s = [] then 0 else txAttempts s + in_flight (macState s))"

definition ble_load :: "'f ble_mac \<Rightarrow> ble_packet list \<times> nat \<times> nat" where
  "ble_load s = (macQueue s, txAttempts s, nbTxFrames s)"

lemma ble_load_simps [simp]:
  "ble_load (ble_act l s) = ble_load s" "ble_load (setRadioMode m s) = ble_load s"
  "ble_load (updateMacState st s) = ble_load s" "ble_load (ble_delete msg s) = ble_load s"
  "ble_load (fsmError ev msg s) = ble_load s"
  "macState (ble_act l s) = macState s" "macState (setRadioMode m s) = macState s"
  "macState (updateMacState st s) = st" "macState (ble_delete msg s) = macState s"
  "macState (fsmError ev msg s) = macState s" "macState (ble_pop_front s) = macState s"
  "macQueue (ble_pop_front s) = tl (macQueue s)" "txAttempts (ble_pop_front s) = txAttempts s"
  "nbTxFrames (ble_pop_front s) = nbTxFrames s"
  "macQueue (ble_act l s) = macQueue s" "txAttempts (ble_act l s) = txAttempts s"
  "nbTxFrames (ble_act l s) = nbTxFrames s" "macQueue (setRadioMode m s) = macQueue s"
  "txAttempts (setRadioMode m s) = txAttempts s" "nbTxFrames (setRadioMode m s) = nbTxFrames s"
  "macQueue (updateMacState st s) = macQueue s" "txAttempts (updateMacState st s) = txAttempts s"
  "nbTxFrames (updateMacState st s) = nbTxFrames s"
  "macQueue (ble_delete msg s) = macQueue s" "txAttempts (ble_delete msg s) = txAttempts s"
  "nbTxFrames (ble_delete msg s) = nbTxFrames s" "macQueue (fsmError ev msg s) = macQueue s"
  "txAttempts (fsmError ev msg s) = txAttempts s" "nbTxFrames (fsmError ev msg s) = nbTxFrames s"
  by (auto simp: ble_load_def ble_defs split: ble_msg.split)

named_theorems ble_loads

lemma startTimer_load [ble_loads]: "startTimer K C x s = Inr s' \<Longrightarrow> ble_load s' = ble_load s \<and> macState s' = macState s"
  using startTimer_same[of K C x s s'] by (auto simp: ble_same_def ble_load_def)

lemma cancelEvent_load [ble_loads]: "ble_cancelEvent K x s = Inr s' \<Longrightarrow> ble_load s' = ble_load s \<and> macState s' = macState s"
  by (auto simp: ble_cancelEvent_def ble_alive_def res_inr ble_load_def)

lemma deliver_up_load [ble_loads]: "ble_deliver_up C msg s = Inr s' \<Longrightarrow> ble_load s' = ble_load s \<and> macState s' = macState s"
  by (auto simp: ble_deliver_up_def res_inr split: ble_msg.splits)

lemma prepare_ack_load [ble_loads]: "ble_prepare_ack K C s = Inr s' \<Longrightarrow> ble_load s' = ble_load s \<and> macState s' = WAITSIFS_6"
  by (auto simp: ble_prepare_ack_def dest!: ble_loads)

lemma interrupt_load [ble_loads]: "ble_interrupt K C x s = Inr s' \<Longrightarrow> ble_load s' = ble_load s \<and> macState s' = WAITSIFS_6"
  by (auto simp: ble_interrupt_def res_inr ble_load_def dest!: ble_loads)

lemma manageQueue_load [ble_loads]:
  "manageQueue K C s = Inr s' \<Longrightarrow> ble_load s' = ble_load s \<and> in_flight (macState s') = 0"
  by (auto simp: manageQueue_def ble_alive_def res_inr ble_load_def in_flight_def Let_def updateMacState_def
      dest!: startTimer_load split: if_splits)

lemma ble_budget_cong:
  "ble_load s' = ble_load s \<Longrightarrow> in_flight (macState s') = in_flight (macState s) \<Longrightarrow>
     ble_budget R n s' = ble_budget R n s"
  by (simp add: ble_budget_def ble_load_def)

lemma ble_budget_Suc: "ble_budget R n s \<Longrightarrow> ble_budget R (Suc n) s"
  by (simp add: ble_budget_def)

lemma ble_budget_pop:
  assumes "ble_budget R n s" and "txAttempts s \<le> R" and "macQueue s = m # q"
    and "ble_load s' = (q, a, nbTxFrames s)"
  shows "ble_budget R n s'"
proof -
  have "txAttempts s + in_flight (macState s) \<le> Suc R" using assms(2) by (simp add: in_flight_def)
  with assms(1,3,4) show ?thesis by (auto simp: ble_budget_def ble_load_def)
qed

lemma ble_budget_push:
  assumes "ble_budget R n s" and "macQueue s' = macQueue s @ [p]" and "txAttempts s' = txAttempts s"
    and "nbTxFrames s' = nbTxFrames s" and "macQueue s \<noteq> [] \<Longrightarrow> in_flight (macState s') = in_flight (macState s)"
  shows "ble_budget R (Suc n) s'"
  using assms by (cases "macQueue s") (auto simp: ble_budget_def)

text \<open>The state machine keeps the budget, and a packet accepted adds to it.\<close>

lemma send_budget:
  assumes "ble_fsm K C EV_SEND_REQUEST msg s = Inr s'" and "ble_mode C s" and "ble_budget R n s"
  shows "ble_budget R (Suc n) s'"
proof -
  note same = ble_budget_Suc[OF assms(3)]
  show ?thesis
  proof (cases "length (macQueue s) < queueLength C")
    case True
    have push: "ble_push_back msg s = Inr s1 \<Longrightarrow>
        (\<exists>p. macQueue s1 = macQueue s @ [p]) \<and> txAttempts s1 = txAttempts s \<and> nbTxFrames s1 = nbTxFrames s \<and>
        macState s1 = macState s" for s1
      by (auto simp: ble_push_back_def split: ble_msg.splits)
    from assms(1) True have "(\<exists>p. macQueue s' = macQueue s @ [p]) \<and> txAttempts s' = txAttempts s \<and>
        nbTxFrames s' = nbTxFrames s \<and> (macState s = IDLE_1 \<or> macState s' = macState s)"
      by (cases "macState s")
        (auto simp: ble_fsm_def updateStatusIdle_def updateStatusNotIdle_def res_inr ble_load_def
          updateMacState_def dest!: push startTimer_load)
    moreover have "macState s = IDLE_1 \<Longrightarrow> macQueue s = []" using assms(2) by (simp add: ble_mode_def)
    ultimately show ?thesis by (auto intro!: ble_budget_push[OF assms(3)])
  next
    case False
    with assms(1) have "ble_load s' = ble_load s \<and> macState s' = macState s"
      by (cases "macState s") (auto simp: ble_fsm_def updateStatusIdle_def updateStatusNotIdle_def)
    then have "ble_load s' = ble_load s" "in_flight (macState s') = in_flight (macState s)" by simp_all
    from ble_budget_cong[OF this] same show ?thesis by blast
  qed
qed

lemma event_budget:
  assumes fsm: "ble_fsm K C ev msg s = Inr s'" and mode: "ble_mode C s" and core: "ble_core C s"
    and budget: "ble_budget (macMaxFrameRetries C) n s" and ev: "ev \<noteq> EV_SEND_REQUEST"
  shows "ble_budget (macMaxFrameRetries C) n s'"
proof -
  let ?R = "macMaxFrameRetries C"
  have few: "txAttempts s \<le> ?R" using core by (simp add: ble_core_def)
  have still: ?thesis if "ble_load s' = ble_load s" "in_flight (macState s') = in_flight (macState s)"
    using budget ble_budget_cong[OF that] by blast
  have popped: ?thesis if "macQueue s = m # q" "ble_load s' = (q, a, nbTxFrames s)" for m q a
    using ble_budget_pop[OF budget few] that by blast
  have intr: "(if useMACAcks C then ble_interrupt K C x s else Inr s) = Inr s1 \<Longrightarrow>
      ble_load s1 = ble_load s \<and> (macState s1 = WAITSIFS_6 \<or> macState s1 = macState s)" for x s1
    by (auto dest!: interrupt_load split: if_splits)
  show ?thesis
  proof (cases "macState s")
    case IDLE_1
    with fsm ev have "ble_load s' = ble_load s \<and> (macState s' = IDLE_1 \<or> macState s' = WAITSIFS_6)"
      by (auto simp: ble_fsm_def updateStatusIdle_def res_inr Let_def ble_load_def split: if_splits
          dest!: deliver_up_load prepare_ack_load)
    with IDLE_1 show ?thesis by (intro still) (auto simp: in_flight_def)
  next
    case BACKOFF_2
    with fsm ev have "ble_load s' = ble_load s \<and> macState s' \<in> {BACKOFF_2, CCA_3, WAITSIFS_6}"
      by (auto simp: ble_fsm_def updateStatusBackoff_def res_inr split: if_splits
          dest!: deliver_up_load interrupt_load startTimer_load)
    with BACKOFF_2 show ?thesis by (intro still) (auto simp: in_flight_def)
  next
    case CCA_3
    then obtain m q where q: "macQueue s = m # q" using mode by (cases "macQueue s") (auto simp: ble_mode_def ble_attempt_def)
    from fsm ev CCA_3 q consider
      (same) "ble_load s' = ble_load s" "macState s' \<in> {BACKOFF_2, CCA_3, WAITSIFS_6}"
    | (transmit) "ble_load s' = (macQueue s, txAttempts s, Suc (nbTxFrames s))" "macState s' = TRANSMITFRAME_4"
    | (drop) "ble_load s' = (q, 0, nbTxFrames s)"
      by (auto simp: ble_fsm_def updateStatusCCA_def res_inr Let_def ble_front_def ble_load_def
          split: if_splits dest!: ble_loads)
    then show ?thesis
    proof cases
      case same
      with CCA_3 show ?thesis by (intro still) (auto simp: in_flight_def)
    next
      case transmit
      with budget q CCA_3 show ?thesis by (simp add: ble_budget_def ble_load_def in_flight_def)
    next
      case drop
      with popped[OF q] show ?thesis by blast
    qed
  next
    case TRANSMITFRAME_4
    then obtain m q where q: "macQueue s = m # q" using mode by (cases "macQueue s") (auto simp: ble_mode_def)
    from fsm ev TRANSMITFRAME_4 q consider
      (same) "ble_load s' = ble_load s" "macState s' \<in> {TRANSMITFRAME_4, WAITACK_5}"
    | (pop) "ble_load s' = (q, txAttempts s, nbTxFrames s)"
      by (auto simp: ble_fsm_def updateStatusTransmitFrame_def res_inr Let_def ble_front_def ble_load_def
          split: if_splits dest!: ble_loads)
    then show ?thesis
    proof cases
      case same
      with TRANSMITFRAME_4 show ?thesis by (intro still) (auto simp: in_flight_def)
    next
      case pop
      with popped[OF q] show ?thesis by blast
    qed
  next
    case WAITACK_5
    then obtain m q where q: "macQueue s = m # q" using mode by (cases "macQueue s") (auto simp: ble_mode_def)
    from fsm ev WAITACK_5 q consider
      (same) "ble_load s' = ble_load s" "macState s' = WAITACK_5"
    | (pop) "ble_load s' = (q, 0, nbTxFrames s)"
    | (retry) "ble_load s' = (macQueue s, Suc (txAttempts s), nbTxFrames s)" "in_flight (macState s') = 0"
      by (auto simp: ble_fsm_def updateStatusWaitAck_def manageMissingAck_def ble_alive_def res_inr
          ble_front_def ble_load_def split: if_splits dest!: ble_loads)
    then show ?thesis
    proof cases
      case same
      with WAITACK_5 show ?thesis by (intro still) auto
    next
      case pop
      with popped[OF q] show ?thesis by blast
    next
      case retry
      with budget q WAITACK_5 show ?thesis by (simp add: ble_budget_def ble_load_def in_flight_def)
    qed
  next
    case WAITSIFS_6
    with fsm ev have "ble_load s' = ble_load s \<and> macState s' \<in> {WAITSIFS_6, TRANSMITACK_7}"
      by (auto simp: ble_fsm_def updateStatusSIFS_def res_inr Let_def ble_load_def split: if_splits option.splits
          dest!: ble_loads)
    with WAITSIFS_6 show ?thesis by (intro still) (auto simp: in_flight_def)
  next
    case TRANSMITACK_7
    with fsm ev have "ble_load s' = ble_load s \<and> in_flight (macState s') = 0"
      by (auto simp: ble_fsm_def updateStatusTransmitAck_def res_inr in_flight_def split: if_splits dest!: ble_loads)
    with TRANSMITACK_7 show ?thesis by (intro still) (auto simp: in_flight_def)
  qed
qed

text \<open>What a handler does before it calls the state machine does not matter to the budget.\<close>

definition ble_prelude :: "'f ble_mac \<Rightarrow> 'f ble_mac \<Rightarrow> bool" where
  "ble_prelude s t \<longleftrightarrow>
     ble_load t = ble_load s \<and> macState t = macState s \<and> NB t = NB s \<and>
     transmissionAttemptInterruptedByRx t = transmissionAttemptInterruptedByRx s \<and>
     (ackMessage s \<noteq> None \<longrightarrow> ackMessage t \<noteq> None)"

text \<open>The packets accepted from above.\<close>

definition ble_accepts :: "ble_input \<Rightarrow> nat" where
  "ble_accepts i = (case i of UpperPacket p \<Rightarrow> 1 | _ \<Rightarrow> 0)"

lemma ble_prelude_simps [simp]:
  "ble_prelude s s" "ble_prelude s (t\<lparr>SeqNrChild := m\<rparr>) = ble_prelude s t"
  "ble_prelude s (t\<lparr>nbDuplicates := d\<rparr>) = ble_prelude s t"
  "ble_prelude s (t\<lparr>nbRecvdAcks := d\<rparr>) = ble_prelude s t"
  "ble_prelude s (s\<lparr>ackMessage := Some a\<rparr>)"
  by (auto simp: ble_prelude_def ble_load_def)

lemma lower_cases:
  assumes "ble_handleLowerPacket K C p s = Inr s'"
  shows "ble_load s' = ble_load s \<and> macState s' = macState s \<or>
    (\<exists>ev msg t. ble_prelude s t \<and> executeMac K C ev msg t = Inr s' \<and>
       ev \<in> {EV_FRAME_RECEIVED, EV_DUPLICATE_RECEIVED, EV_ACK_RECEIVED, EV_BROADCAST_RECEIVED})"
proof -
  let ?P = "\<lambda>ev t. ble_prelude s t \<and> executeMac K C ev (PacketMsg p) t = Inr s'"
  have data: "\<exists>t. ?P EV_FRAME_RECEIVED t \<or> ?P EV_DUPLICATE_RECEIVED t" if r: "ble_receive_data K C h p s = Inr s'" for h
  proof -
    let ?s1 = "s\<lparr>ackMessage := Some (ble_make_ack C (bh_src h))\<rparr>"
    let ?new = "?s1\<lparr>SeqNrChild := (SeqNrChild ?s1)(bh_src h \<mapsto> bh_seq h + 1)\<rparr>"
    let ?dup = "?s1\<lparr>nbDuplicates := Suc (nbDuplicates ?s1)\<rparr>"
    have "ble_prelude s ?new" "ble_prelude s ?dup" by (simp_all only: ble_prelude_simps)
    moreover have "executeMac K C EV_FRAME_RECEIVED (PacketMsg p) ?new = Inr s' \<or>
        executeMac K C EV_DUPLICATE_RECEIVED (PacketMsg p) ?dup = Inr s'"
      using r by (auto simp: ble_receive_data_def Let_def split: option.splits if_splits)
    ultimately show ?thesis by blast
  qed
  have ack: "s' = s \<or> (\<exists>t. ?P EV_ACK_RECEIVED t)" if r: "ble_receive_ack K C h p s = Inr s'" for h
  proof -
    have "ble_prelude s (s\<lparr>nbRecvdAcks := Suc (nbRecvdAcks s)\<rparr>)" by simp
    moreover have "s' = s \<or> executeMac K C EV_ACK_RECEIVED (PacketMsg p) (s\<lparr>nbRecvdAcks := Suc (nbRecvdAcks s)\<rparr>) = Inr s'"
      using r by (auto simp: ble_receive_ack_def res_inr split: list.splits if_splits)
    ultimately show ?thesis by blast
  qed
  have refl: "ble_prelude s s" by simp
  from assms consider
    "ble_load s' = ble_load s \<and> macState s' = macState s"
  | "executeMac K C EV_FRAME_RECEIVED (PacketMsg p) s = Inr s'"
  | "executeMac K C EV_BROADCAST_RECEIVED (PacketMsg p) s = Inr s'"
  | h where "ble_receive_data K C h p s = Inr s'" | h where "ble_receive_ack K C h p s = Inr s'"
    by (auto simp: ble_handleLowerPacket_def res_inr split: if_splits)
  then show ?thesis
  proof cases
    case (4 h)
    from data[OF 4] show ?thesis by blast
  next
    case (5 h)
    from ack[OF 5] show ?thesis by blast
  qed (use refl in blast)+
qed

context ble_awake
begin

lemma execute_budget:
  assumes "executeMac K C ev msg s = Inr s'" and "ev \<noteq> EV_TIMER_ENABLE_RADIO" and "ev \<noteq> EV_TIMER_DISABLE_RADIO"
    and "ble_mode C s" and "ble_core C s" and "ble_budget (macMaxFrameRetries C) n s"
  shows "ble_budget (macMaxFrameRetries C) (if ev = EV_SEND_REQUEST then Suc n else n) s'"
proof -
  have "ble_fsm K C ev msg s = Inr s'" using assms(1-3) by (simp add: executeMac_awake)
  with send_budget[of K C msg s s'] event_budget[of K C ev msg s s' n] assms(4-) show ?thesis
    by (cases "ev = EV_SEND_REQUEST") auto
qed

lemma prelude_budget:
  assumes "ble_prelude s t" and "executeMac K C ev msg t = Inr s'"
    and "ev \<noteq> EV_TIMER_ENABLE_RADIO" and "ev \<noteq> EV_TIMER_DISABLE_RADIO"
    and "ble_ok K C s" and "ble_budget (macMaxFrameRetries C) n s"
  shows "ble_budget (macMaxFrameRetries C) (if ev = EV_SEND_REQUEST then Suc n else n) s'"
proof (rule execute_budget[OF assms(2-4)])
  show "ble_mode C t" "ble_core C t"
    using assms(1,5)
    by (auto simp: ble_prelude_def ble_ok_def ble_mode_def ble_core_def ble_attempt_def ble_load_def
        split: mac_state.splits)
  show "ble_budget (macMaxFrameRetries C) n t"
    using assms(1,6) ble_budget_cong[of t s] by (simp add: ble_prelude_def)
qed

lemma step_budget:
  assumes step: "ble_step K C s i = Inr s'" and ok: "ble_ok K C s" and valid: "ble_valid K C s i"
    and budget: "ble_budget (macMaxFrameRetries C) n s"
  shows "ble_budget (macMaxFrameRetries C) (n + ble_accepts i) s'"
proof -
  note by_prelude = prelude_budget[OF _ _ _ _ ok budget]
  have same: "ble_budget (macMaxFrameRetries C) n s'" if "ble_load s' = ble_load s" "macState s' = macState s"
    using ble_budget_cong[of s' s] that budget by simp
  show ?thesis
  proof (cases i)
    case (UpperPacket p)
    with step have h: "ble_handleUpperPacket K C p s = Inr s'" by (simp add: ble_step_def)
    show ?thesis
    proof (cases "bp_name p = FRIEND_ESTABLISHED_INTERNAL")
      case True
      with h have "ble_load s' = ble_load s" "macState s' = macState s"
        by (auto simp: ble_handleUpperPacket_def ble_load_def setRadioMode_def ble_act_def)
      with same UpperPacket show ?thesis by (simp add: ble_accepts_def ble_budget_Suc)
    next
      case False
      with h obtain msg t where "executeMac K C EV_SEND_REQUEST msg t = Inr s'"
        "t = s \<or> (\<exists>m. t = s\<lparr>SeqNrParent := m\<rparr>)"
        by (auto simp: ble_handleUpperPacket_def res_inr ble_next_seq_def Let_def
            split: option.splits if_splits prod.splits)
      with by_prelude[of t EV_SEND_REQUEST msg s'] UpperPacket show ?thesis
        by (auto simp: ble_accepts_def ble_prelude_def ble_load_def)
    qed
  next
    case (LowerPacket p)
    with step have h: "ble_handleLowerPacket K C p s = Inr s'" by (simp add: ble_step_def)
    from lower_cases[OF h] show ?thesis
    proof
      assume "ble_load s' = ble_load s \<and> macState s' = macState s"
      with same LowerPacket show ?thesis by (simp add: ble_accepts_def)
    next
      assume "\<exists>ev msg t. ble_prelude s t \<and> executeMac K C ev msg t = Inr s' \<and>
        ev \<in> {EV_FRAME_RECEIVED, EV_DUPLICATE_RECEIVED, EV_ACK_RECEIVED, EV_BROADCAST_RECEIVED}"
      then obtain ev msg t where "ble_prelude s t" "executeMac K C ev msg t = Inr s'"
        "ev \<in> {EV_FRAME_RECEIVED, EV_DUPLICATE_RECEIVED, EV_ACK_RECEIVED, EV_BROADCAST_RECEIVED}" by blast
      with by_prelude[of t ev msg s'] LowerPacket show ?thesis by (auto simp: ble_accepts_def)
    qed
  next
    case (TimerDue x)
    let ?s = "s\<lparr>ble_fes := k_deliver K x (ble_fes s)\<rparr>"
    have awaited: "ble_awaits (macState s) = Some x"
      using ok valid TimerDue by (auto simp: ble_ok_def ble_pending_def k_due_def ble_valid_def)
    obtain ev t where "ble_prelude s t" "executeMac K C ev (TimerMsg x) t = Inr s'"
        "ev \<in> {EV_TIMER_BACKOFF, EV_TIMER_CCA, EV_TIMER_SIFS, EV_ACK_TIMEOUT}"
    proof -
      have "ble_prelude s ?s" "ble_prelude s (?s\<lparr>nbMissedAcks := Suc (nbMissedAcks ?s)\<rparr>)"
        by (simp_all add: ble_prelude_def ble_load_def)
      with that step awaited TimerDue show ?thesis
        by (cases x; cases "macState s") (auto simp: ble_step_def ble_handleSelfMessage_def)
    qed
    with by_prelude[of t ev "TimerMsg x" s'] TimerDue show ?thesis by (auto simp: ble_accepts_def)
  next
    case (RadioTransmission t)
    with step obtain u where u: "s' = u\<lparr>transmissionState := t\<rparr>"
      "u = s \<or> executeMac K C EV_FRAME_TRANSMITTED TransmissionOver s = Inr u"
      by (auto simp: ble_step_def ble_receiveSignal_def res_inr split: if_splits)
    have "ble_budget (macMaxFrameRetries C) n u"
      using u(2) budget by_prelude[of s EV_FRAME_TRANSMITTED TransmissionOver u] by (auto simp: ble_prelude_def)
    moreover have "ble_load s' = ble_load u" "macState s' = macState u" using u(1) by (simp_all add: ble_load_def)
    ultimately show ?thesis
      using ble_budget_cong[of s' u] RadioTransmission by (simp add: ble_accepts_def)
  qed (use step same in \<open>auto simp: ble_step_def ble_accepts_def ble_load_def\<close>)
qed

lemma run_budget:
  assumes "ble_run K C (ble_init f) ins t" and "ble_timers_off K f"
  shows "ble_ok K C t \<and> ble_budget (macMaxFrameRetries C) (sum_list (map ble_accepts ins)) t"
  using assms(1)
proof (induction rule: ble_run.induct)
  case ble_run_start
  show ?case by (simp add: ble_init_ok[OF assms(2)]) (simp add: ble_budget_def ble_init_def)
next
  case (ble_run_step ins t i t')
  with ble_step_ok[of t i] step_budget[of t i t'] show ?case by auto
qed

lemma run_retries:
  assumes "ble_run K C (ble_init f) ins t" and "ble_timers_off K f"
  shows "nbTxFrames t \<le> Suc (macMaxFrameRetries C) * sum_list (map ble_accepts ins)"
proof -
  let ?R = "macMaxFrameRetries C"
  from run_budget[OF assms] have b: "ble_budget ?R (sum_list (map ble_accepts ins)) t" and "txAttempts t \<le> ?R"
    by (simp_all add: ble_ok_def ble_core_def)
  then show ?thesis
    by (cases "macQueue t") (auto simp: ble_budget_def in_flight_def split: if_splits)
qed

end

end
