(* ===== verification/BleMeshProps.thy ===== *)
theory BleMeshProps
  imports BleMeshRun
begin

text \<open>
  The properties of the mesh MAC: runs of a mains-powered node never fail, its retransmissions are
  bounded and a busy channel costs a frame in the end; frames to a neighbour are numbered consecutively,
  a frame received twice is delivered once; and two defects, a frame acknowledged and lost and the timers
  that outlive the sleep of a low power node.
\<close>

section \<open>An example node\<close>

definition ble_example_cfg :: ble_cfg where
  "ble_example_cfg = \<lparr>useMACAcks = True, queueLength = 2, sifs = 192, headerLength = 72,
     macMaxCSMABackoffs = 5, macMaxFrameRetries = 3, macAckWaitDuration = 864, aUnitBackoffPeriod = 320,
     ccaDetectionTime = 128, rxSetupTime = 0, aTurnaroundTime = 192, ackLength = 40,
     ble_lowPowerNode = False, backoffMethod = EXPONENTIAL, macMinBE = 8, macMaxBE = 8, initialCW = 0,
     receiveDelayMs = 10, receiveWindowMs = 200, cfg_duration = (\<lambda>b. 4 * b),
     cfg_protocolNumber = [0 \<mapsto> 0x0800], cfg_protocol = [0x0800 \<mapsto> 0], cfg_blemesh = 1,
     cfg_address = 0x0AAA00000001, cfg_interfaceId = 101, cfg_ms = 1000\<rparr>"

definition ble_example_frame :: "mac_address \<Rightarrow> mac_address \<Rightarrow> int \<Rightarrow> ble_packet" where
  "ble_example_frame src dest seq = \<lparr>bp_name = ''data'', bp_payload = 7, bp_bits = 80,
     bp_headers = [\<lparr>bh_src = src, bh_dest = dest, bh_seq = seq, bh_protocol = 0x0800, bh_bits = 72\<rparr>],
     bp_destReq = None, bp_protocol = Some 1, bp_srcInd = None, bp_dispatch = None, bp_interface = None,
     bp_bitError = False, bp_duration = 0\<rparr>"

definition ble_example_packet :: "mac_address \<Rightarrow> ble_packet" where
  "ble_example_packet dest = \<lparr>bp_name = ''data'', bp_payload = 7, bp_bits = 80, bp_headers = [],
     bp_destReq = Some dest, bp_protocol = Some 0, bp_srcInd = None, bp_dispatch = None,
     bp_interface = None, bp_bitError = False, bp_duration = 0\<rparr>"

type_synonym ble_ref = "ble_timer ref_fes"

definition ble_example_init :: "ble_ref ble_mac" where
  "ble_example_init = ble_init (ref_start [])"

interpretation ble_ref: ble_awake "ref_kernel :: ble_ref ble_kernel" ble_example_cfg
  by unfold_locales (simp_all add: ble_example_cfg_def)

lemma ble_ref_off: "ble_timers_off ref_kernel (ref_start rs)"
  by (simp add: ble_timers_off_def ref_kernel_def ref_start_def)

lemma ble_example_send:
  "\<exists>t. ble_run ref_kernel ble_example_cfg ble_example_init [UpperPacket (ble_example_packet 2)] t"
proof -
  let ?i = "UpperPacket (ble_example_packet 2)"
  have valid: "ble_valid ref_kernel ble_example_cfg ble_example_init ?i"
    by (simp add: ble_valid_def ble_sendable_def ble_example_packet_def ble_example_cfg_def)
  have "ble_ok ref_kernel ble_example_cfg ble_example_init"
    unfolding ble_example_init_def by (rule ble_init_ok[OF ble_ref_off])
  from ble_ref.ble_step_ok[OF this valid] obtain t where
    "ble_step ref_kernel ble_example_cfg ble_example_init ?i = Inr t" by blast
  from ble_run_step[OF ble_run_start valid this] show ?thesis by auto
qed

section \<open>Safety\<close>





section \<open>A busy channel\<close>

context ble_awake
begin

lemma only_due:
  "ble_pending K (Some x) s \<Longrightarrow> k_due K (ble_fes s) x"
  unfolding ble_pending_def k_due_def by (metis not_Some_eq option.inject order_refl)

lemma busy_round:
  assumes ok: "ble_ok K C s" and st: "macState s = BACKOFF_2" and busy: "\<not> radioIdle s"
  shows "\<exists>s'. res_run (ble_step K C) s [TimerDue BackoffTimer, TimerDue CcaTimer] = Inr s' \<and>
    ble_ok K C s' \<and> \<not> radioIdle s' \<and>
    (if NB s + 1 \<le> macMaxCSMABackoffs C
     then macState s' = BACKOFF_2 \<and> NB s' = NB s + 1 \<and> macQueue s' = macQueue s \<and>
       nbDroppedFrames s' = nbDroppedFrames s
     else macQueue s' = tl (macQueue s) \<and> nbDroppedFrames s' = Suc (nbDroppedFrames s))"
proof -
  have due: "k_due K (ble_fes s) BackoffTimer"
    using ok st by (intro only_due) (simp add: ble_ok_def)
  from timer_ok[OF ok due] obtain s1 where
    s1: "ble_step K C s (TimerDue BackoffTimer) = Inr s1" "ble_ok K C s1" by blast
  then have f1: "macState s1 = CCA_3" "NB s1 = NB s" "macQueue s1 = macQueue s" "\<not> radioIdle s1"
    "nbDroppedFrames s1 = nbDroppedFrames s"
    using st busy
    by (auto simp: ble_step_def ble_handleSelfMessage_def executeMac_awake ble_fsm_def
        updateStatusBackoff_def res_inr ble_same_def ble_defs dest!: startTimer_same)
  have due1: "k_due K (ble_fes s1) CcaTimer"
    using s1(2) f1 by (intro only_due) (simp add: ble_ok_def)
  from timer_ok[OF s1(2) due1] obtain s2 where
    s2: "ble_step K C s1 (TimerDue CcaTimer) = Inr s2" "ble_ok K C s2" by blast
  obtain m q where q: "macQueue s1 = m # q"
  proof -
    have "macQueue s1 \<noteq> []" using s1(2) f1(1) by (simp add: ble_ok_defs)
    then show ?thesis using that by (cases "macQueue s1") auto
  qed
  have "\<not> radioIdle s2 \<and> (if NB s + 1 \<le> macMaxCSMABackoffs C
     then macState s2 = BACKOFF_2 \<and> NB s2 = NB s + 1 \<and> macQueue s2 = macQueue s \<and>
       nbDroppedFrames s2 = nbDroppedFrames s
     else macQueue s2 = tl (macQueue s) \<and> nbDroppedFrames s2 = Suc (nbDroppedFrames s))"
    using s2(1) f1 q
    by (auto simp: ble_step_def ble_handleSelfMessage_def executeMac_awake ble_fsm_def updateStatusCCA_def
        manageQueue_def ble_alive_def res_inr Let_def ble_front_def ble_same_def ble_defs
        split: if_splits dest!: startTimer_same)
  with s1(1) s2 show ?thesis by auto
qed

lemma busy_rounds:
  assumes "ble_ok K C s" and "macState s = BACKOFF_2" and "\<not> radioIdle s"
    and "NB s + int k \<le> macMaxCSMABackoffs C"
  shows "\<exists>s'. res_run (ble_step K C) s (concat (replicate k [TimerDue BackoffTimer, TimerDue CcaTimer])) = Inr s' \<and>
    ble_ok K C s' \<and> macState s' = BACKOFF_2 \<and> \<not> radioIdle s' \<and> NB s' = NB s + int k \<and>
    macQueue s' = macQueue s \<and> nbDroppedFrames s' = nbDroppedFrames s"
  using assms
proof (induction k arbitrary: s)
  case (Suc k)
  from Suc.prems(4) have "NB s + 1 \<le> macMaxCSMABackoffs C" by simp
  with busy_round[OF Suc.prems(1-3)] obtain s1 where
    s1: "res_run (ble_step K C) s [TimerDue BackoffTimer, TimerDue CcaTimer] = Inr s1"
      "ble_ok K C s1" "\<not> radioIdle s1" "macState s1 = BACKOFF_2" "NB s1 = NB s + 1" "macQueue s1 = macQueue s"
      "nbDroppedFrames s1 = nbDroppedFrames s"
    by auto
  from Suc.IH[OF s1(2,4,3)] Suc.prems(4) s1 show ?case
    unfolding replicate_Suc concat.simps res_run_append by (simp add: add.assoc)
qed simp

lemma congestion_drop:
  assumes ok: "ble_ok K C s" and st: "macState s = BACKOFF_2" "NB s = 0" and busy: "\<not> radioIdle s"
    and max: "macMaxCSMABackoffs C = int k"
  shows "\<exists>s'. res_run (ble_step K C) s (concat (replicate (Suc k) [TimerDue BackoffTimer, TimerDue CcaTimer])) = Inr s' \<and>
    macQueue s' = tl (macQueue s) \<and> nbDroppedFrames s' = Suc (nbDroppedFrames s)"
proof -
  have rep: "concat (replicate (Suc k) xs) = concat (replicate k xs) @ xs" for xs :: "'b list"
    by (induction k) simp_all
  from busy_rounds[OF ok st(1) busy, of k] st(2) max obtain s1 where
    s1: "res_run (ble_step K C) s (concat (replicate k [TimerDue BackoffTimer, TimerDue CcaTimer])) = Inr s1"
      "ble_ok K C s1" "macState s1 = BACKOFF_2" "\<not> radioIdle s1" "NB s1 = int k" "macQueue s1 = macQueue s"
      "nbDroppedFrames s1 = nbDroppedFrames s" by auto
  from busy_round[OF s1(2,3,4)] s1 max show ?thesis unfolding rep res_run_append by auto
qed

end

text \<open>
  (C24) A frame on a busy channel is given up after exactly \<open>macMaxCSMABackoffs + 1\<close> backoffs and
  assessments: it is kept until then, and then dropped.
\<close>

theorem ble_congestion:
  assumes "ble_awake K C" and "ble_ok K C s" and "macState s = BACKOFF_2" and "NB s = 0" and "\<not> radioIdle s"
    and "macMaxCSMABackoffs C = int n"
  shows "(\<forall>k \<le> n. \<exists>s'. res_run (ble_step K C) s
        (concat (replicate k [TimerDue BackoffTimer, TimerDue CcaTimer])) = Inr s' \<and>
        macQueue s' = macQueue s \<and> NB s' = int k \<and> nbDroppedFrames s' = nbDroppedFrames s) \<and>
    (\<exists>s'. res_run (ble_step K C) s
        (concat (replicate (Suc n) [TimerDue BackoffTimer, TimerDue CcaTimer])) = Inr s' \<and>
        macQueue s' = tl (macQueue s) \<and> nbDroppedFrames s' = Suc (nbDroppedFrames s))"
  using ble_awake.busy_rounds[OF assms(1-3,5)] ble_awake.congestion_drop[OF assms(1-6)] assms(4,6)
  by (fastforce simp del: replicate.simps concat.simps)

definition ble_example_backoff :: "ble_ref ble_mac" where
  "ble_example_backoff = (ble_init ((ref_start [])\<lparr>rf_pending := [BackoffTimer \<mapsto> 320]\<rparr>))
     \<lparr>macState := BACKOFF_2, macQueue := [ble_example_frame 1 2 0]\<rparr>"

lemma ble_example_backoff_ok: "ble_ok ref_kernel ble_example_cfg ble_example_backoff"
  by (simp add: ble_ok_defs ble_pending_def k_timely_def ble_example_backoff_def ble_init_def ref_kernel_def
      ref_start_def ble_example_frame_def ble_example_cfg_def)

theorem ble_congestion_witness:
  "\<exists>s'. res_run (ble_step ref_kernel ble_example_cfg) ble_example_backoff
     (concat (replicate 6 [TimerDue BackoffTimer, TimerDue CcaTimer])) = Inr s' \<and>
     macQueue s' = [] \<and> nbDroppedFrames s' = 1"
  using ble_congestion[OF ble_ref.ble_awake_axioms ble_example_backoff_ok, of 5]
  by (simp add: ble_example_backoff_def ble_init_def ble_example_cfg_def del: replicate.simps)

context ble_module
begin

lemma backoff_window:
  assumes "ble_scheduleAt K t BackoffTimer s1 = Inr s'" and "scheduleBackoff K C s = Inr (t, s1)"
    and "backoff_range C (NB s) = Inr (lo, hi)" and "lo \<le> hi"
  shows "k_pending K (ble_fes s') BackoffTimer = Some t \<and>
    ble_now K s + lo * aUnitBackoffPeriod C \<le> t \<and> t \<le> ble_now K s + hi * aUnitBackoffPeriod C"
proof -
  let ?r = "fst (k_intuniform K lo hi (ble_fes s))"
  have t: "t = ?r * aUnitBackoffPeriod C + ble_now K s"
    using assms(2,3) by (auto simp: scheduleBackoff_def case_prod_unfold Let_def ble_now_def now_intuniform)
  have "lo * aUnitBackoffPeriod C \<le> ?r * aUnitBackoffPeriod C \<and> ?r * aUnitBackoffPeriod C \<le> hi * aUnitBackoffPeriod C"
    using intuniform_range[OF assms(4), of "ble_fes s"] times(3) by (simp add: mult_right_mono)
  moreover have "k_pending K (ble_fes s') BackoffTimer = Some t"
    using assms(1) by (auto simp: ble_scheduleAt_def ble_alive_def res_inr scheduleAt_Inr(3))
  ultimately show ?thesis using t by auto
qed

lemma backoff_bounds:
  assumes "startTimer K C TIMER_BACKOFF s = Inr s'" and "0 \<le> NB s"
  shows "\<exists>t lo hi. backoff_range C (NB s) = Inr (lo, hi) \<and> k_pending K (ble_fes s') BackoffTimer = Some t \<and>
    0 \<le> lo \<and> ble_now K s + lo * aUnitBackoffPeriod C \<le> t \<and> t \<le> ble_now K s + hi * aUnitBackoffPeriod C"
proof -
  from assms(1) obtain t s1 where b: "scheduleBackoff K C s = Inr (t, s1)"
    "ble_scheduleAt K t BackoffTimer s1 = Inr s'"
    by (auto simp: startTimer_def res_inr)
  from backoff_range_ok[OF assms(2)] obtain lo hi where r: "backoff_range C (NB s) = Inr (lo, hi)"
    "0 \<le> lo" "lo \<le> hi" by blast
  from backoff_window[OF b(2,1) r(1,3)] r show ?thesis by blast
qed

end



section \<open>Duplicates and lost frames\<close>

text \<open>A frame for this node that is neither damaged nor an acknowledgement.\<close>

definition ble_data_for :: "ble_cfg \<Rightarrow> ble_packet \<Rightarrow> ble_header \<Rightarrow> bool" where
  "ble_data_for C p h \<longleftrightarrow>
     \<not> bp_bitError p \<and> (\<exists>hs. bp_headers p = h # hs) \<and> bh_dest h = cfg_address C \<and> bp_name p \<noteq> CSMA_Ack"

lemma lower_data:
  "ble_data_for C p h \<Longrightarrow> useMACAcks C \<Longrightarrow> ble_handleLowerPacket K C p s = ble_receive_data K C h p s"
  by (auto simp: ble_data_for_def ble_handleLowerPacket_def ble_peek_def)

lemma duplicate_later:
  assumes "useMACAcks C" and "ble_data_for C p h" and "ble_data_for C p' h'"
    and "bh_src h' = bh_src h" and "bh_seq h' \<le> bh_seq h"
    and "ble_handleLowerPacket K C p s = Inr s1" and "res_run (ble_step K C) s1 ins = Inr s2"
    and "ble_handleLowerPacket K C p' s2 = Inr s3"
  shows "delivered s3 = delivered s2 \<and> nbDuplicates s3 = Suc (nbDuplicates s2)"
proof -
  have "ble_receive_data K C h p s = Inr s1" "ble_receive_data K C h' p' s2 = Inr s3"
    using assms by (simp_all add: lower_data)
  moreover from receive_data_expects(1)[OF this(1)] have "ble_expects (bh_src h) (bh_seq h + 1) s2"
    by (rule res_run_expects[OF assms(7)])
  then have "ble_expects (bh_src h') (bh_seq h' + 1) s2"
    using assms(4,5) by (auto simp: ble_expects_def split: option.splits)
  ultimately show ?thesis using receive_data_expects(4) by blast
qed

text \<open>
  (C6) Delivery at most once: after a data frame of a sender was accepted, no frame with the same or an
  earlier sequence number of that sender is handed up, however many other inputs come in between; it is
  counted as a duplicate.
\<close>

theorem ble_at_most_once:
  assumes "useMACAcks C" and "ble_data_for C p h" and "ble_data_for C p' h'"
    and "bh_src h' = bh_src h" and "bh_seq h' \<le> bh_seq h"
    and "ble_handleLowerPacket K C p s = Inr s1" and "res_run (ble_step K C) s1 ins = Inr s2"
    and "ble_handleLowerPacket K C p' s2 = Inr s3"
  shows "delivered s3 = delivered s2 \<and> nbDuplicates s3 = Suc (nbDuplicates s2)"
  by (rule duplicate_later[OF assms])

text \<open>The example node receives a frame in a given state, and then the frame a second time.\<close>

definition ble_in_state :: "mac_state \<Rightarrow> ble_ref ble_mac" where
  "ble_in_state st = ble_example_init\<lparr>macState := st, macQueue := [ble_example_frame 0x0AAA00000001 2 0]\<rparr>"

definition ble_example_data :: ble_packet where
  "ble_example_data = ble_example_frame 3 0x0AAA00000001 4"

definition ble_example_header :: ble_header where
  "ble_example_header = \<lparr>bh_src = 3, bh_dest = 0x0AAA00000001, bh_seq = 4, bh_protocol = 0x0800, bh_bits = 72\<rparr>"

lemma ble_example_data_for: "ble_data_for ble_example_cfg ble_example_data ble_example_header"
  "ble_receivable ble_example_cfg ble_example_data" "useMACAcks ble_example_cfg"
  by (simp_all add: ble_data_for_def ble_receivable_def ble_example_data_def ble_example_frame_def
      ble_example_header_def ble_example_cfg_def CSMA_Ack_def)

lemma ble_in_state_ok:
  "ble_ok ref_kernel ble_example_cfg (ble_in_state TRANSMITFRAME_4)"
  by (simp add: ble_ok_defs ble_pending_def k_timely_def ble_in_state_def ble_example_init_def ble_init_def
      ref_kernel_def ref_start_def ble_example_frame_def ble_example_cfg_def)

lemma ble_example_receives:
  assumes "ble_ok ref_kernel ble_example_cfg s"
  shows "\<exists>s1 s2. ble_handleLowerPacket ref_kernel ble_example_cfg ble_example_data s = Inr s1 \<and>
    ble_handleLowerPacket ref_kernel ble_example_cfg ble_example_data s1 = Inr s2"
  using ble_ref.lower_ok[OF assms ble_example_data_for(2)] ble_ref.lower_ok[OF _ ble_example_data_for(2)]
  by blast

theorem ble_at_most_once_witness:
  "\<exists>s1 s2. ble_handleLowerPacket ref_kernel ble_example_cfg ble_example_data ble_example_init = Inr s1 \<and>
     ble_handleLowerPacket ref_kernel ble_example_cfg ble_example_data s1 = Inr s2 \<and> delivered s2 = delivered s1"
proof -
  have "ble_ok ref_kernel ble_example_cfg ble_example_init"
    unfolding ble_example_init_def by (rule ble_init_ok[OF ble_ref_off])
  from ble_example_receives[OF this] obtain s1 s2 where
    s: "ble_handleLowerPacket ref_kernel ble_example_cfg ble_example_data ble_example_init = Inr s1"
      "ble_handleLowerPacket ref_kernel ble_example_cfg ble_example_data s1 = Inr s2" by blast
  from ble_at_most_once[OF ble_example_data_for(3,1,1) refl order_refl s(1) _ s(2), of "[]"] s
  show ?thesis by auto
qed

text \<open>What becomes of a new frame depends on the state of the machine alone.\<close>

lemma deliver_up_counts:
  "ble_deliver_up C msg s = Inr s' \<Longrightarrow> delivered s' = Suc (delivered s)"
  by (auto simp: ble_deliver_up_def res_inr split: ble_msg.splits)

definition ble_transmitting :: "'f ble_mac \<Rightarrow> bool" where
  "ble_transmitting s \<longleftrightarrow> macState s = TRANSMITFRAME_4 \<or> macState s = TRANSMITACK_7"

lemma frame_counts:
  assumes "ble_fsm K C EV_FRAME_RECEIVED msg s = Inr s'"
  shows "delivered s' = delivered s + (if ble_transmitting s then 0 else 1)"
proof -
  have rx: "delivered (t\<lparr>nbRxFrames := n\<rparr>) = delivered t" for t :: "'a ble_mac" and n
    by (simp add: delivered_def)
  from assms show ?thesis
    by (cases "macState s")
      (auto simp: ble_fsm_def ble_transmitting_def updateStatusIdle_def updateStatusBackoff_def
        updateStatusCCA_def updateStatusTransmitFrame_def updateStatusWaitAck_def updateStatusSIFS_def
        updateStatusTransmitAck_def res_inr Let_def rx dest!: deliver_up_counts interrupt_quiet prepare_ack_quiet
        split: if_splits)
qed

lemma receive_new:
  assumes "ble_receive_data K C h p s = Inr s'" and "\<not> (ble_lowPowerNode C \<and> lowPowerMode s)"
    and "\<not> ble_expects (bh_src h) (bh_seq h + 1) s"
  shows "delivered s' = delivered s + (if ble_transmitting s then 0 else 1)"
proof -
  let ?s = "s\<lparr>ackMessage := Some (ble_make_ack C (bh_src h)),
    SeqNrChild := (SeqNrChild s)(bh_src h \<mapsto> bh_seq h + 1)\<rparr>"
  have "executeMac K C EV_FRAME_RECEIVED (PacketMsg p) ?s = Inr s'"
    using assms(1,3) by (auto simp: ble_receive_data_def Let_def ble_expects_def split: option.splits if_splits)
  then have "ble_fsm K C EV_FRAME_RECEIVED (PacketMsg p) ?s = Inr s'"
    using assms(2) by (auto simp: executeMac_def split: if_splits)
  from frame_counts[OF this] show ?thesis by (simp add: ble_transmitting_def)
qed

text \<open>
  A new frame for an awake node is handed up once in every state but the two in which the node is
  transmitting.
\<close>

theorem ble_new_frame:
  assumes "useMACAcks C" and "ble_data_for C p h" and "\<not> (ble_lowPowerNode C \<and> lowPowerMode s)"
    and "\<not> ble_expects (bh_src h) (bh_seq h + 1) s" and "ble_handleLowerPacket K C p s = Inr s'"
  shows "delivered s' = delivered s + (if ble_transmitting s then 0 else 1) \<and>
    ble_expects (bh_src h) (bh_seq h + 1) s'"
proof -
  have r: "ble_receive_data K C h p s = Inr s'" using assms(1,2,5) by (simp add: lower_data)
  from receive_new[OF r assms(3,4)] receive_data_expects(1)[OF r] show ?thesis by blast
qed

theorem ble_new_frame_witness:
  "\<exists>s'. ble_handleLowerPacket ref_kernel ble_example_cfg ble_example_data ble_example_init = Inr s' \<and> delivered s' = 1"
proof -
  have "ble_ok ref_kernel ble_example_cfg ble_example_init"
    unfolding ble_example_init_def by (rule ble_init_ok[OF ble_ref_off])
  from ble_example_receives[OF this] obtain s' where
    s': "ble_handleLowerPacket ref_kernel ble_example_cfg ble_example_data ble_example_init = Inr s'" by blast
  have e: "\<not> (ble_lowPowerNode ble_example_cfg \<and> lowPowerMode ble_example_init)"
    "\<not> ble_expects (bh_src ble_example_header) (bh_seq ble_example_header + 1) ble_example_init"
    "\<not> ble_transmitting ble_example_init" "delivered ble_example_init = 0"
    by (simp_all add: ble_example_cfg_def ble_expects_def ble_example_init_def ble_init_def ble_transmitting_def
        delivered_def)
  from ble_new_frame[OF ble_example_data_for(3,1) e(1,2) s'] s' e(3,4) show ?thesis by auto
qed

text \<open>The acknowledgement of a duplicate that finds the machine idle.\<close>

lemma idle_acks_duplicate:
  assumes "ble_receive_data K C h p s = Inr s'" and "ble_expects (bh_src h) (bh_seq h + 1) s"
    and "macState s = IDLE_1" and "\<not> (ble_lowPowerNode C \<and> lowPowerMode s)" and "useMACAcks C"
  shows "macState s' = WAITSIFS_6 \<and> ackMessage s' = Some (ble_make_ack C (bh_src h))"
proof -
  have prep: "ble_prepare_ack K C t = Inr t' \<Longrightarrow> macState t' = WAITSIFS_6 \<and> ackMessage t' = ackMessage t" for t t'
    using startTimer_same[of K C TIMER_SIFS "updateMacState WAITSIFS_6 (setRadioMode RADIO_MODE_TRANSMITTER t)" t']
    by (auto simp: ble_prepare_ack_def ble_same_def ble_defs)
  show ?thesis
    using assms
    by (auto simp: ble_receive_data_def Let_def ble_expects_def executeMac_def ble_fsm_def updateStatusIdle_def
        ble_delete_def split: option.splits if_splits dest!: prep)
qed

text \<open>
  (C37) A frame can be lost although it is acknowledged: a new frame that arrives while the node is
  transmitting raises the expected number but is thrown away; when the sender repeats it, at any later
  time, it is taken for a duplicate, not handed up, and an idle node acknowledges it.
\<close>

theorem ble_acknowledged_loss:
  assumes "useMACAcks C" and "ble_data_for C p h" and "\<not> (ble_lowPowerNode C \<and> lowPowerMode s)"
    and "\<not> ble_expects (bh_src h) (bh_seq h + 1) s" and "ble_transmitting s"
    and "ble_handleLowerPacket K C p s = Inr s1" and "res_run (ble_step K C) s1 ins = Inr s2"
    and "ble_handleLowerPacket K C p s2 = Inr s3"
  shows "delivered s1 = delivered s \<and> delivered s3 = delivered s2 \<and>
    (macState s2 = IDLE_1 \<and> \<not> (ble_lowPowerNode C \<and> lowPowerMode s2) \<longrightarrow>
      macState s3 = WAITSIFS_6 \<and> ackMessage s3 = Some (ble_make_ack C (bh_src h)))"
proof -
  have r: "ble_receive_data K C h p s = Inr s1" and r3: "ble_receive_data K C h p s2 = Inr s3"
    using assms(1,2,6,8) by (simp_all add: lower_data)
  from receive_new[OF r assms(3,4)] assms(5) have "delivered s1 = delivered s" by simp
  moreover have expects: "ble_expects (bh_src h) (bh_seq h + 1) s2"
    by (rule res_run_expects[OF assms(7) receive_data_expects(1)[OF r]])
  from receive_data_expects(4)[OF r3 this] have "delivered s3 = delivered s2" by blast
  ultimately show ?thesis using idle_acks_duplicate[OF r3 expects _ _ assms(1)] by blast
qed

theorem ble_acknowledged_loss_witness:
  "\<exists>s1 s2 s3. ble_handleLowerPacket ref_kernel ble_example_cfg ble_example_data (ble_in_state TRANSMITFRAME_4) = Inr s1 \<and>
     ble_handleLowerPacket ref_kernel ble_example_cfg ble_example_data s1 = Inr s3 \<and>
     delivered s1 = 0 \<and> delivered s3 = 0"
proof -
  from ble_example_receives[OF ble_in_state_ok] obtain s1 s3 where
    s: "ble_handleLowerPacket ref_kernel ble_example_cfg ble_example_data (ble_in_state TRANSMITFRAME_4) = Inr s1"
      "ble_handleLowerPacket ref_kernel ble_example_cfg ble_example_data s1 = Inr s3" by blast
  have e: "\<not> (ble_lowPowerNode ble_example_cfg \<and> lowPowerMode (ble_in_state TRANSMITFRAME_4))"
    "\<not> ble_expects (bh_src ble_example_header) (bh_seq ble_example_header + 1) (ble_in_state TRANSMITFRAME_4)"
    "ble_transmitting (ble_in_state TRANSMITFRAME_4)" "delivered (ble_in_state TRANSMITFRAME_4) = 0"
    by (simp_all add: ble_example_cfg_def ble_expects_def ble_in_state_def ble_example_init_def ble_init_def
        ble_transmitting_def delivered_def)
  from ble_acknowledged_loss[OF ble_example_data_for(3,1) e(1-3) s(1) _ s(2), of "[]"] s e(4) show ?thesis by auto
qed

section \<open>Sequence numbers of the sender\<close>



section \<open>Low power nodes\<close>

context ble_module
begin

lemma disable_radio:
  assumes "ble_lowPowerNode C" and "\<not> lowPowerMode s"
  shows "\<exists>s1. ble_step K C s (TimerDue DisableRadioTimer) = Inr s1 \<and> macState s1 = IDLE_1 \<and> macQueue s1 = [] \<and>
    lowPowerMode s1 \<and> ble_dead s1 = ble_dead s \<and> NB s1 = NB s \<and>
    ble_fes s1 = k_deliver K DisableRadioTimer (ble_fes s)"
  using assms
  by (simp add: ble_step_def ble_handleSelfMessage_def executeMac_def ble_defs clearQueue_def)

lemma send_fails:
  assumes lpn: "ble_lowPowerNode C" and s: "lowPowerMode s" "macState s = IDLE_1" "macQueue s = []" "ble_dead s = {}"
    and pend: "k_pending K (ble_fes s) BackoffTimer \<noteq> None" and room: "0 < queueLength C"
    and p: "ble_sendable C p" "bp_name p \<noteq> FRIEND_ESTABLISHED_INTERNAL" and window_ms: "0 \<le> receiveWindowMs C"
  shows "ble_step K C s (UpperPacket p) = Inl (RuntimeError ''scheduleAt'')"
proof -
  from p obtain d prot n where dp: "bp_destReq p = Some d" "bp_protocol p = Some prot"
    "cfg_protocolNumber C prot = Some n" "bp_name p \<noteq> FRIEND_ESTABLISHED_INTERNAL"
    by (auto simp: ble_sendable_def split: option.splits)
  have run: "executeMac K C EV_SEND_REQUEST (PacketMsg q) t = Inl (RuntimeError ''scheduleAt'')"
    if t: "t = s \<or> (\<exists>m. t = s\<lparr>SeqNrParent := m\<rparr>)" for t q
  proof -
    let ?f = "k_cancel K DisableRadioTimer (k_cancel K EnableRadioTimer (ble_fes s))"
    let ?u = "(setRadioMode RADIO_MODE_RECEIVER (t\<lparr>ble_fes := ?f\<rparr>))\<lparr>lowPowerMode := False\<rparr>"
    have tf: "ble_fes t = ble_fes s" "ble_dead t = {}" "lowPowerMode t" "macState t = IDLE_1" "macQueue t = []"
      using t s by auto
    have "k_pending K ?f DisableRadioTimer = None" by (simp add: pending_cancel)
    moreover have "k_now K ?f \<le> ble_now K ?u + receiveWindowMs C * cfg_ms C"
      using window_ms times(5) by (simp add: ble_now_def ble_defs)
    ultimately obtain f where f: "sim_scheduleAt K (ble_now K ?u + receiveWindowMs C * cfg_ms C) DisableRadioTimer ?f = Inr f"
      "k_pending K f = (k_pending K ?f)(DisableRadioTimer \<mapsto> ble_now K ?u + receiveWindowMs C * cfg_ms C)"
      using scheduleAt_ok by blast
    have wake: "startTimer K C TIMER_DISABLE_RADIO ?u = Inr (?u\<lparr>ble_fes := f\<rparr>)"
      using f(1) lpn tf by (simp add: startTimer_def ble_scheduleAt_def ble_alive_def ble_defs)
    let ?v = "(updateMacState BACKOFF_2 (?u\<lparr>ble_fes := f, macQueue := [q]\<rparr>))\<lparr>NB := 0\<rparr>"
    have pend': "k_pending K f BackoffTimer \<noteq> None" using pend f(2) by (simp add: pending_cancel)
    have backoff: "startTimer K C TIMER_BACKOFF ?v = Inl (RuntimeError ''scheduleAt'')"
    proof -
      from backoff_range_ok[of 0] obtain lo hi where r: "backoff_range C 0 = Inr (lo, hi)" by auto
      have "k_pending K (snd (k_intuniform K lo hi f)) BackoffTimer \<noteq> None"
        using pend' by (simp add: pending_intuniform)
      from scheduleAt_twice[OF this] r tf show ?thesis
        by (simp add: startTimer_def scheduleBackoff_def ble_scheduleAt_def ble_alive_def case_prod_unfold Let_def
            ble_defs ble_now_def)
    qed
    have "executeMac K C EV_SEND_REQUEST (PacketMsg q) t =
        ble_fsm K C EV_SEND_REQUEST (PacketMsg q) (?u\<lparr>ble_fes := f\<rparr>)"
      using lpn tf wake by (simp add: executeMac_def ble_cancelEvent_def ble_alive_def)
    also have "\<dots> = startTimer K C TIMER_BACKOFF ?v"
      using tf room by (simp add: ble_fsm_def updateStatusIdle_def ble_push_back_def ble_defs)
    finally show ?thesis using backoff by simp
  qed
  have run': "executeMac K C EV_SEND_REQUEST (PacketMsg q) s = Inl (RuntimeError ''scheduleAt'')"
    "executeMac K C EV_SEND_REQUEST (PacketMsg q) (s\<lparr>SeqNrParent := m\<rparr>) = Inl (RuntimeError ''scheduleAt'')" for q m
    by (rule run, blast)+
  show ?thesis
    using dp header_bytes
    by (auto simp: run'  ble_step_def ble_handleUpperPacket_def ble_getProtocolNumber_def case_prod_unfold Let_def
        ble_next_seq_def split: option.split)
qed

lemma sleep_then_send:
  assumes "ble_lowPowerNode C" and "\<not> lowPowerMode s" and "ble_dead s = {}"
    and "k_pending K (ble_fes s) BackoffTimer \<noteq> None" and "0 < queueLength C"
    and "ble_sendable C p" and "bp_name p \<noteq> FRIEND_ESTABLISHED_INTERNAL" and "0 \<le> receiveWindowMs C"
  shows "\<exists>s1. ble_step K C s (TimerDue DisableRadioTimer) = Inr s1 \<and> macQueue s1 = [] \<and>
    ble_step K C s1 (UpperPacket p) = Inl (RuntimeError ''scheduleAt'')"
proof -
  from disable_radio[OF assms(1,2)] obtain s1 where
    s1: "ble_step K C s (TimerDue DisableRadioTimer) = Inr s1" "macState s1 = IDLE_1" "macQueue s1 = []"
      "lowPowerMode s1" "ble_dead s1 = ble_dead s" "NB s1 = NB s"
      "ble_fes s1 = k_deliver K DisableRadioTimer (ble_fes s)" by blast
  have "k_pending K (ble_fes s1) BackoffTimer \<noteq> None" using assms(4) s1(7) by (simp add: pending_deliver)
  from send_fails[OF assms(1) s1(4,2,3) _ this assms(5-8)] s1 assms(3) show ?thesis by auto
qed

end

text \<open>
  A low power node fails: when its receive window closes during a backoff, the queue is cleared and
  the machine is idle, but the backoff timer stays scheduled, and the next packet that wakes the node
  schedules it a second time, which is an error of the simulation.
\<close>

theorem ble_sleep_leaves_timer:
  assumes "ble_module K C" and "ble_lowPowerNode C" and "\<not> lowPowerMode s" and "ble_dead s = {}"
    and "k_pending K (ble_fes s) BackoffTimer \<noteq> None" and "0 < queueLength C"
    and "ble_sendable C p" and "bp_name p \<noteq> FRIEND_ESTABLISHED_INTERNAL" and "0 \<le> receiveWindowMs C"
  shows "\<exists>s1. ble_step K C s (TimerDue DisableRadioTimer) = Inr s1 \<and> macQueue s1 = [] \<and>
    ble_step K C s1 (UpperPacket p) = Inl (RuntimeError ''scheduleAt'')"
  by (rule ble_module.sleep_then_send[OF assms])

definition ble_lpn_cfg :: ble_cfg where
  "ble_lpn_cfg = ble_example_cfg\<lparr>ble_lowPowerNode := True\<rparr>"

definition ble_friend_packet :: ble_packet where
  "ble_friend_packet = (ble_example_packet 2)\<lparr>bp_name := FRIEND_ESTABLISHED_INTERNAL\<rparr>"

interpretation ble_lpn: ble_module "ref_kernel :: ble_ref ble_kernel" ble_lpn_cfg
  by unfold_locales (simp_all add: ble_lpn_cfg_def ble_example_cfg_def)

text \<open>The window of 200 ms closes in the third backoff on a busy channel.\<close>

definition ble_lpn_inputs :: "ble_input list" where
  "ble_lpn_inputs = [UpperPacket ble_friend_packet, UpperPacket (ble_example_packet 2),
     TimerDue BackoffTimer, TimerDue CcaTimer, TimerDue BackoffTimer, TimerDue CcaTimer]"

text \<open>A run, computed: each input is valid where it comes.\<close>

fun ble_checked :: "'f ble_kernel \<Rightarrow> ble_cfg \<Rightarrow> 'f ble_mac \<Rightarrow> ble_input list \<Rightarrow> 'f ble_mac option" where
  "ble_checked K C s [] = Some s"
| "ble_checked K C s (i # ins) =
     (if ble_valid K C s i
      then case ble_step K C s i of Inl e \<Rightarrow> None | Inr s' \<Rightarrow> ble_checked K C s' ins
      else None)"

lemma ble_checked_append:
  "ble_checked K C s (xs @ ys) = (case ble_checked K C s xs of None \<Rightarrow> None | Some t \<Rightarrow> ble_checked K C t ys)"
  by (induction xs arbitrary: s) (auto split: sum.splits)

lemma ble_checked_run: "ble_checked K C s ins = Some t \<Longrightarrow> ble_run K C s ins t"
proof (induction ins arbitrary: t rule: rev_induct)
  case (snoc i ins)
  then obtain u where u: "ble_checked K C s ins = Some u" "ble_valid K C u i" "ble_step K C u i = Inr t"
    by (auto simp: ble_checked_append split: option.splits if_splits sum.splits)
  with snoc.IH ble_run_step show ?case by blast
qed (simp add: ble_run_start)

lemma all_timers: "(\<forall>y. P y) \<longleftrightarrow>
    P EnableRadioTimer \<and> P DisableRadioTimer \<and> P BackoffTimer \<and> P CcaTimer \<and> P SifsTimer \<and> P RxAckTimer"
  by (metis ble_timer.exhaust)

lemma k_due_check:
  "k_due ref_kernel f x \<longleftrightarrow> (\<exists>t. rf_pending f x = Some t \<and>
     (\<forall>y. case rf_pending f y of None \<Rightarrow> True | Some u \<Rightarrow> t \<le> u))"
  by (auto simp: k_due_def ref_kernel_def split: option.splits)

lemma ref_kernel_fields:
  "k_now ref_kernel = rf_now" "k_pending ref_kernel = rf_pending"
  "k_schedule ref_kernel t x f = (if rf_pending f x \<noteq> None \<or> t < rf_now f then None
     else Some (f\<lparr>rf_pending := (rf_pending f)(x \<mapsto> t)\<rparr>))"
  "k_cancel ref_kernel x f = f\<lparr>rf_pending := (rf_pending f)(x := None)\<rparr>"
  "k_deliver ref_kernel x f = f\<lparr>rf_now := (case rf_pending f x of None \<Rightarrow> rf_now f | Some t \<Rightarrow> max t (rf_now f)),
     rf_pending := (rf_pending f)(x := None)\<rparr>"
  "k_intuniform ref_kernel a b f = (case rf_random f of [] \<Rightarrow> (a, f)
     | r # rs \<Rightarrow> (a + r mod (b - a + 1), f\<lparr>rf_random := rs\<rparr>))"
  by (simp_all add: ref_kernel_def)

lemmas ble_eval = ble_step_def ble_valid_def ble_sendable_def ble_handleUpperPacket_def
  ble_handleSelfMessage_def executeMac_def ble_fsm_def updateStatusIdle_def updateStatusBackoff_def
  updateStatusCCA_def startTimer_def scheduleBackoff_def backoff_range_def ble_scheduleAt_def ble_alive_def
  ble_cancelEvent_def ble_now_def ble_defs ble_next_seq_def ble_getProtocolNumber_def ble_push_back_def
  ref_kernel_fields ref_start_def sim_scheduleAt_def ble_example_packet_def ble_friend_packet_def
  FRIEND_ESTABLISHED_INTERNAL_def ble_init_def ble_lpn_cfg_def ble_example_cfg_def

lemma ble_lpn_run:
  "\<exists>s. ble_checked ref_kernel ble_lpn_cfg (ble_init (ref_start [255, 255, 255])) ble_lpn_inputs = Some s \<and>
     k_due ref_kernel (ble_fes s) DisableRadioTimer \<and> \<not> lowPowerMode s \<and> ble_dead s = {} \<and>
     k_pending ref_kernel (ble_fes s) BackoffTimer \<noteq> None"
  by (simp add: ble_lpn_inputs_def k_due_check all_timers ble_eval Let_def)

theorem ble_sleep_leaves_timer_witness:
  "\<exists>s s1. ble_run ref_kernel ble_lpn_cfg (ble_init (ref_start [255, 255, 255])) ble_lpn_inputs s \<and>
     k_due ref_kernel (ble_fes s) DisableRadioTimer \<and>
     ble_step ref_kernel ble_lpn_cfg s (TimerDue DisableRadioTimer) = Inr s1 \<and>
     ble_step ref_kernel ble_lpn_cfg s1 (UpperPacket (ble_example_packet 2)) = Inl (RuntimeError ''scheduleAt'')"
proof -
  from ble_lpn_run obtain s where
    s: "ble_checked ref_kernel ble_lpn_cfg (ble_init (ref_start [255, 255, 255])) ble_lpn_inputs = Some s"
      "k_due ref_kernel (ble_fes s) DisableRadioTimer" "\<not> lowPowerMode s" "ble_dead s = {}"
      "k_pending ref_kernel (ble_fes s) BackoffTimer \<noteq> None" by blast
  have c: "ble_lowPowerNode ble_lpn_cfg" "0 < queueLength ble_lpn_cfg" "0 \<le> receiveWindowMs ble_lpn_cfg"
    "ble_sendable ble_lpn_cfg (ble_example_packet 2)"
    "bp_name (ble_example_packet 2) \<noteq> FRIEND_ESTABLISHED_INTERNAL"
    by (simp_all add: ble_lpn_cfg_def ble_example_cfg_def ble_sendable_def ble_example_packet_def
        FRIEND_ESTABLISHED_INTERNAL_def)
  from ble_sleep_leaves_timer[OF ble_lpn.ble_module_axioms c(1) s(3,4,5) c(2,4,5,3)] ble_checked_run[OF s(1)] s(2)
  show ?thesis by blast
qed

section \<open>The receive window\<close>

text \<open>Nothing starts the timer that is to switch the radio of a sleeping node on.\<close>

context ble_module
begin

definition never_enabled :: "'f ble_mac \<Rightarrow> bool" where
  "never_enabled s \<longleftrightarrow> k_pending K (ble_fes s) EnableRadioTimer = None"

lemma never_enabled_simps [simp]:
  "never_enabled (ble_act l s) = never_enabled s" "never_enabled (setRadioMode m s) = never_enabled s"
  "never_enabled (updateMacState st s) = never_enabled s" "never_enabled (ble_pop_front s) = never_enabled s"
  "never_enabled (ble_delete msg s) = never_enabled s" "never_enabled (fsmError ev msg s) = never_enabled s"
  "never_enabled (clearQueue s) = never_enabled s" "never_enabled (s\<lparr>NB := n\<rparr>) = never_enabled s"
  "never_enabled (s\<lparr>macQueue := q\<rparr>) = never_enabled s" "never_enabled (s\<lparr>txAttempts := a\<rparr>) = never_enabled s"
  "never_enabled (s\<lparr>transmissionAttemptInterruptedByRx := b\<rparr>) = never_enabled s"
  "never_enabled (s\<lparr>lowPowerMode := b\<rparr>) = never_enabled s" "never_enabled (s\<lparr>ackMessage := am\<rparr>) = never_enabled s"
  "never_enabled (s\<lparr>nbRxFrames := k\<rparr>) = never_enabled s" "never_enabled (s\<lparr>nbTxFrames := k\<rparr>) = never_enabled s"
  "never_enabled (s\<lparr>nbTxAcks := k\<rparr>) = never_enabled s" "never_enabled (s\<lparr>nbDroppedFrames := k\<rparr>) = never_enabled s"
  "never_enabled (s\<lparr>nbDuplicates := k\<rparr>) = never_enabled s" "never_enabled (s\<lparr>nbRecvdAcks := k\<rparr>) = never_enabled s"
  "never_enabled (s\<lparr>nbMissedAcks := k\<rparr>) = never_enabled s" "never_enabled (s\<lparr>SeqNrChild := sm\<rparr>) = never_enabled s"
  "never_enabled (s\<lparr>SeqNrParent := sm\<rparr>) = never_enabled s" "never_enabled (s\<lparr>radioIdle := b\<rparr>) = never_enabled s"
  "never_enabled (s\<lparr>transmissionState := ts\<rparr>) = never_enabled s"
  by (auto simp: never_enabled_def ble_defs clearQueue_def split: ble_msg.split)

lemma scheduleAt_never:
  "ble_scheduleAt K t x s = Inr s' \<Longrightarrow> x \<noteq> EnableRadioTimer \<Longrightarrow> never_enabled s' = never_enabled s"
  by (auto simp: ble_scheduleAt_def ble_alive_def res_inr never_enabled_def scheduleAt_Inr(3))

lemma startTimer_never:
  assumes "startTimer K C x s = Inr s'" and "x \<noteq> TIMER_ENABLE_RADIO"
  shows "never_enabled s' = never_enabled s"
proof (cases "x = TIMER_BACKOFF")
  case True
  with assms obtain t s1 where b: "scheduleBackoff K C s = Inr (t, s1)" "ble_scheduleAt K t BackoffTimer s1 = Inr s'"
    by (auto simp: startTimer_def res_inr)
  have "never_enabled s1 = never_enabled s"
    using b(1) by (auto simp: scheduleBackoff_def res_inr case_prod_unfold Let_def never_enabled_def pending_intuniform)
  with scheduleAt_never[OF b(2)] show ?thesis by simp
next
  case False
  with assms show ?thesis
    by (auto simp: startTimer_def res_inr split: mac_timer.splits dest!: scheduleAt_never)
qed

lemma cancelEvent_never: "ble_cancelEvent K x s = Inr s' \<Longrightarrow> never_enabled s \<Longrightarrow> never_enabled s'"
  by (auto simp: ble_cancelEvent_def ble_alive_def res_inr never_enabled_def pending_cancel)

lemma small_never:
  "ble_deliver_up C msg s = Inr s' \<Longrightarrow> never_enabled s' = never_enabled s"
  "ble_push_back msg s = Inr s' \<Longrightarrow> never_enabled s' = never_enabled s"
  by (auto simp: ble_deliver_up_def ble_push_back_def res_inr split: ble_msg.splits)

lemma manageQueue_never: "manageQueue K C s = Inr s' \<Longrightarrow> never_enabled s' = never_enabled s"
  by (auto simp: manageQueue_def ble_alive_def res_inr Let_def split: if_splits dest!: startTimer_never)

lemma prepare_ack_never: "ble_prepare_ack K C s = Inr s' \<Longrightarrow> never_enabled s' = never_enabled s"
  by (auto simp: ble_prepare_ack_def dest!: startTimer_never)

lemma interrupt_never: "ble_interrupt K C x s = Inr s' \<Longrightarrow> never_enabled s \<Longrightarrow> never_enabled s'"
  by (auto simp: ble_interrupt_def res_inr dest!: cancelEvent_never prepare_ack_never)

lemmas nevers = startTimer_never cancelEvent_never small_never manageQueue_never prepare_ack_never interrupt_never

lemma ble_fsm_never:
  assumes "ble_fsm K C ev msg s = Inr s'" and "never_enabled s"
  shows "never_enabled s'"
proof -
  have a: "updateStatusIdle K C ev msg s = Inr s' \<Longrightarrow> ?thesis" "updateStatusBackoff K C ev msg s = Inr s' \<Longrightarrow> ?thesis"
    using assms(2) by (auto simp: updateStatusIdle_def updateStatusBackoff_def res_inr Let_def split: if_splits dest!: nevers)
  have b: "updateStatusCCA K C ev msg s = Inr s' \<Longrightarrow> ?thesis"
    using assms(2) by (auto simp: updateStatusCCA_def res_inr Let_def split: if_splits dest!: nevers)
  have c: "updateStatusTransmitFrame K C ev msg s = Inr s' \<Longrightarrow> ?thesis"
    using assms(2) by (auto simp: updateStatusTransmitFrame_def res_inr Let_def split: if_splits dest!: nevers)
  have d: "updateStatusWaitAck K C ev msg s = Inr s' \<Longrightarrow> ?thesis"
    using assms(2)
    by (auto simp: updateStatusWaitAck_def manageMissingAck_def ble_alive_def res_inr split: if_splits dest!: nevers)
  have e: "updateStatusSIFS K C ev msg s = Inr s' \<Longrightarrow> ?thesis"
    using assms(2) by (auto simp: updateStatusSIFS_def res_inr Let_def split: if_splits option.splits dest!: nevers)
  have g: "updateStatusTransmitAck K C ev msg s = Inr s' \<Longrightarrow> ?thesis" "updateStatusNotIdle C msg s = Inr s' \<Longrightarrow> ?thesis"
    using assms(2)
    by (auto simp: updateStatusTransmitAck_def updateStatusNotIdle_def res_inr split: if_splits dest!: nevers)
  from assms(1) a b c d e g show ?thesis by (auto simp: ble_fsm_def split: if_splits mac_state.splits)
qed

lemma executeMac_never: "executeMac K C ev msg s = Inr s' \<Longrightarrow> never_enabled s \<Longrightarrow> never_enabled s'"
  by (auto simp: executeMac_def res_inr split: if_splits dest!: nevers ble_fsm_never)

lemma ble_step_never:
  assumes step: "ble_step K C s i = Inr s'" and none: "never_enabled s"
  shows "never_enabled s'"
proof (cases i)
  case (UpperPacket p)
  with step none show ?thesis
    by (auto simp: ble_step_def ble_handleUpperPacket_def res_inr Let_def ble_next_seq_def
        split: option.splits if_splits prod.splits dest!: executeMac_never)
next
  case (LowerPacket p)
  with step none show ?thesis
    by (auto simp: ble_step_def ble_handleLowerPacket_def ble_receive_data_def ble_receive_ack_def res_inr Let_def
        split: option.splits if_splits list.splits dest!: executeMac_never)
next
  case (TimerDue x)
  have "never_enabled (s\<lparr>ble_fes := k_deliver K x (ble_fes s)\<rparr>)"
    using none by (simp add: never_enabled_def pending_deliver)
  with step TimerDue show ?thesis
    by (auto simp: ble_step_def ble_handleSelfMessage_def split: ble_timer.splits dest!: executeMac_never)
next
  case (RadioTransmission t)
  with step none show ?thesis
    by (auto simp: ble_step_def ble_receiveSignal_def res_inr split: if_splits dest!: executeMac_never)
next
  case (Elapse d)
  with step none show ?thesis by (auto simp: ble_step_def never_enabled_def pending_advance)
qed (use step none in \<open>auto simp: ble_step_def\<close>)

lemma run_never_enabled:
  assumes "res_run (ble_step K C) (ble_init f) ins = Inr s" and "ble_timers_off K f"
  shows "k_pending K (ble_fes s) EnableRadioTimer = None"
proof -
  have "never_enabled (ble_init f)" using assms(2) by (simp add: never_enabled_def ble_init_def ble_timers_off_def)
  from res_run_invariant[where I = never_enabled, OF ble_step_never this assms(1)] show ?thesis
    by (simp add: never_enabled_def)
qed

end

text \<open>
  The radio of a sleeping low power node is never switched on to receive: in no run is the timer
  that opens the receive window scheduled, so the node wakes up only to send.
\<close>

theorem ble_no_receive_window:
  assumes "ble_module K C" and "res_run (ble_step K C) (ble_init f) ins = Inr s" and "ble_timers_off K f"
  shows "k_pending K (ble_fes s) EnableRadioTimer = None \<and> \<not> k_due K (ble_fes s) EnableRadioTimer"
  using ble_module.run_never_enabled[OF assms] by (simp add: k_due_def)

theorem ble_no_receive_window_witness:
  "\<exists>s. res_run (ble_step ref_kernel ble_lpn_cfg) (ble_init (ref_start [])) [UpperPacket ble_friend_packet] = Inr s \<and>
     lowPowerMode s \<and> k_pending ref_kernel (ble_fes s) EnableRadioTimer = None"
proof -
  let ?s = "setRadioMode RADIO_MODE_OFF ((ble_init (ref_start []))\<lparr>lowPowerMode := True\<rparr>) :: ble_ref ble_mac"
  have run: "res_run (ble_step ref_kernel ble_lpn_cfg) (ble_init (ref_start [])) [UpperPacket ble_friend_packet] = Inr ?s"
    by (simp add: ble_step_def ble_handleUpperPacket_def ble_friend_packet_def)
  from ble_no_receive_window[OF ble_lpn.ble_module_axioms run ble_ref_off] run show ?thesis
    by (simp add: ble_defs)
qed

end
