(* ===== verification/MamCollector.thy ===== *)
theory MamCollector
  imports MamCommon
begin

text \<open>
  The mobile sink (\<open>applications/mamapp/MamDataCollectorApp.h\<close>, \<open>MamDataCollectorApp.cc\<close>): it announces
  itself, receives the data packets of the nodes and counts them, telling new packets from repeated ones
  by their identifiers.

  \<open>col_par\<close> holds the parameters of the module; \<open>cp_sendDiscoveryInterval n\<close> is the value of the
  \<open>n\<close>-th reading of the volatile parameter. All messages arrive on \<open>socketIn\<close>, the only input gate.
\<close>

section \<open>State\<close>

record col_par =
  cp_localPort :: int
  cp_destPort :: int
  cp_startTime :: simtime
  cp_stopTime :: simtime
  cp_dontFragment :: bool
  cp_sendDiscoveryInterval :: "nat \<Rightarrow> simtime"
  cp_multicastGroup :: string
  cp_resolve :: "string \<Rightarrow> l3address res"
  cp_stopOperationTimeout :: simtime
  cp_stopOperationExtraTime :: simtime
  cp_nodeStatus :: "bool option"
  cp_crashOfApplication :: bool

datatype col_timer = ColSelfMsg

datatype col_kind = COL_NO_KIND | COL_START | COL_STOP | COL_DISCOVERY

record 'f collector = "'f operational" +
  c_localPort :: int
  c_destPort :: int
  c_multicastGroup :: l3address
  c_startTime :: simtime
  c_stopTime :: simtime
  c_dontFragment :: bool
  c_selfKind :: col_kind
  c_numSentDiscovery :: nat
  c_numSentDataAck :: nat
  c_numReceived :: nat
  c_numUnique :: nat
  c_numSenders :: nat
  c_uniqueDataBytesReceived :: int
  c_excessDataBytesReceived :: int
  c_excessDataPacketsReceived :: nat
  c_uniqueDataSendPacketHashes :: string_set
  c_uniqueDataSenders :: string_set
  c_readings :: nat
  c_log :: "app_action list"

type_synonym 'f col_kernel = "('f, col_timer) op_kernel"

type_synonym 'f col_step = "'f collector \<Rightarrow> 'f collector res"

definition col_new :: "'f \<Rightarrow> 'f collector" where
  "col_new f = \<lparr>operationalState = NOT_OPERATING, lastChange = 0, activeOperation = None,
     endState = InvalidState, isDelayedFinish = False, op_done = 0, fes = f,
     c_localPort = -1, c_destPort = -1, c_multicastGroup = l3_empty, c_startTime = 0, c_stopTime = 0,
     c_dontFragment = False, c_selfKind = COL_NO_KIND, c_numSentDiscovery = 0, c_numSentDataAck = 0,
     c_numReceived = 0, c_numUnique = 0, c_numSenders = 0, c_uniqueDataBytesReceived = 0,
     c_excessDataBytesReceived = 0, c_excessDataPacketsReceived = 0, c_uniqueDataSendPacketHashes = [],
     c_uniqueDataSenders = [], c_readings = 0, c_log = []\<rparr>"

definition col_act :: "app_action list \<Rightarrow> 'f collector \<Rightarrow> 'f collector" where
  "col_act l s = s\<lparr>c_log := c_log s @ l\<rparr>"

text \<open>A reading of \<open>par("sendDiscoveryInterval")\<close>\<close>

definition col_interval :: "col_par \<Rightarrow> 'f collector \<Rightarrow> simtime \<times> 'f collector" where
  "col_interval P s = (cp_sendDiscoveryInterval P (c_readings s), s\<lparr>c_readings := Suc (c_readings s)\<rparr>)"

section \<open>Sending\<close>

text \<open>The body of both send functions, with the name of the packet.\<close>

definition col_broadcast :: "'f col_kernel \<Rightarrow> string \<Rightarrow> 'f collector \<Rightarrow> 'f collector" where
  "col_broadcast K name s =
     (let payload = bmesh_new\<lparr>bm_chunkLength := 1, bm_creationTag := Some (op_now K s)\<rparr>;
          packet = \<lparr>up_name = name, up_dontFragment = c_dontFragment s, up_payload = payload\<rparr>
      in col_act [EmitPacket ''packetSent'', SendTo packet broadcast_addr (c_destPort s)] s)"

definition sendDiscoveryPacket :: "'f col_kernel \<Rightarrow> 'f collector \<Rightarrow> 'f collector" where
  "sendDiscoveryPacket K s =
     (let s1 = col_broadcast K ''MAMCDISCOVERY'' s in s1\<lparr>c_numSentDiscovery := Suc (c_numSentDiscovery s1)\<rparr>)"

definition sendDataAckPacket :: "'f col_kernel \<Rightarrow> 'f collector \<Rightarrow> 'f collector" where
  "sendDataAckPacket K s =
     (let s1 = col_broadcast K ''DATA-ACK'' s in s1\<lparr>c_numSentDataAck := Suc (c_numSentDataAck s1)\<rparr>)"

text \<open>\<open>if (!multicastGroup.isUnspecified()) socket.leaveMulticastGroup(multicastGroup);\<close>\<close>

definition col_leave_group :: "'f col_step" where
  "col_leave_group s =
     res_bind (l3_isUnspecified (c_multicastGroup s)) (\<lambda>u.
       Inr (if u then s else col_act [LeaveMulticastGroup (c_multicastGroup s)] s))"

section \<open>Start and stop\<close>

definition col_setSocketOptions :: "col_par \<Rightarrow> 'f col_step" where
  "col_setSocketOptions P s =
     (let s1 = col_act [SetBroadcast True, JoinLocalMulticastGroups] s
      in res_bind (cp_resolve P (cp_multicastGroup P)) (\<lambda>group.
         let s2 = s1\<lparr>c_multicastGroup := group\<rparr>
         in res_bind (l3_isUnspecified group) (\<lambda>unspecified.
            res_bind (if unspecified then Inr s2
                      else res_bind (l3_isMulticast group) (\<lambda>multicast.
                             check_that multicast (RuntimeError ''Wrong multicastGroup setting'')
                               (Inr (col_act [JoinMulticastGroup group] s2))))
              (\<lambda>s3. Inr (col_act [SetCallback] s3)))))"

definition col_processStart :: "'f col_kernel \<Rightarrow> col_par \<Rightarrow> 'f col_step" where
  "col_processStart K P s =
     res_bind (col_setSocketOptions P (col_act [SocketBind l3_empty (c_localPort s)] s)) (\<lambda>s1.
       if 0 \<le> c_stopTime s1
       then op_scheduleAt K (c_stopTime s1) (AppTimer ColSelfMsg) (s1\<lparr>c_selfKind := COL_STOP\<rparr>)
       else case col_interval P s1 of (d, s2) \<Rightarrow>
              op_scheduleAt K (op_now K s2 + d) (AppTimer ColSelfMsg) (s2\<lparr>c_selfKind := COL_DISCOVERY\<rparr>))"

definition col_processDiscovery :: "'f col_kernel \<Rightarrow> col_par \<Rightarrow> 'f col_step" where
  "col_processDiscovery K P s =
     (case col_interval P (sendDiscoveryPacket K s) of (i, s1) \<Rightarrow>
        let d = op_now K s1 + i
        in if c_stopTime s1 < 0 \<or> d < c_stopTime s1
           then op_scheduleAt K d (AppTimer ColSelfMsg) (s1\<lparr>c_selfKind := COL_DISCOVERY\<rparr>)
           else op_scheduleAt K (c_stopTime s1) (AppTimer ColSelfMsg) (s1\<lparr>c_selfKind := COL_STOP\<rparr>))"

definition col_processStop :: "'f col_step" where
  "col_processStop s = res_bind (col_leave_group s) (\<lambda>s1. Inr (col_act [SocketClose] s1))"

definition col_handleStartOperation :: "'f col_kernel \<Rightarrow> 'f col_step" where
  "col_handleStartOperation K s =
     (let start = max (c_startTime s) (op_now K s)
      in if c_stopTime s < 0 \<or> start < c_stopTime s \<or> (start = c_stopTime s \<and> c_startTime s = c_stopTime s)
         then op_scheduleAt K start (AppTimer ColSelfMsg) (s\<lparr>c_selfKind := COL_START\<rparr>)
         else Inr s)"

definition col_handleStopOperation :: "'f col_kernel \<Rightarrow> col_par \<Rightarrow> 'f col_step" where
  "col_handleStopOperation K P s =
     res_bind (col_leave_group (op_cancelEvent K (AppTimer ColSelfMsg) s)) (\<lambda>s1.
       delayActiveOperationFinish K (cp_stopOperationTimeout P) (col_act [SocketClose] s1))"

text \<open>A crash of the whole node leaves the socket to the transport layer.\<close>

definition col_handleCrashOperation :: "'f col_kernel \<Rightarrow> col_par \<Rightarrow> 'f col_step" where
  "col_handleCrashOperation K P s =
     (let s1 = op_cancelEvent K (AppTimer ColSelfMsg) s
      in if cp_crashOfApplication P
         then res_bind (col_leave_group s1) (\<lambda>s2. Inr (col_act [SocketDestroy] s2))
         else Inr s1)"

section \<open>Receiving\<close>

text \<open>The two sets and their counters; \<open>sizeBytes\<close> is the length of the whole packet.\<close>

definition col_count :: "bmesh_packet \<Rightarrow> int \<Rightarrow> 'f collector \<Rightarrow> 'f collector" where
  "col_count b sizeBytes s =
     (let s1 = (if \<not> sset_member (bm_packetUuid b) (c_uniqueDataSendPacketHashes s)
                then s\<lparr>c_uniqueDataSendPacketHashes := sset_insert (bm_packetUuid b) (c_uniqueDataSendPacketHashes s),
                       c_uniqueDataBytesReceived := c_uniqueDataBytesReceived s + sizeBytes\<rparr>
                else s\<lparr>c_excessDataPacketsReceived := Suc (c_excessDataPacketsReceived s),
                       c_excessDataBytesReceived := c_excessDataBytesReceived s + sizeBytes\<rparr>);
          s2 = s1\<lparr>c_uniqueDataSenders := sset_insert (bm_srcUuid b) (c_uniqueDataSenders s1)\<rparr>
      in s2\<lparr>c_numUnique := length (c_uniqueDataSendPacketHashes s2),
            c_numSenders := length (c_uniqueDataSenders s2), c_numReceived := Suc (c_numReceived s2)\<rparr>)"

definition col_processPacket :: "'f col_kernel \<Rightarrow> arriving_packet \<Rightarrow> 'f col_step" where
  "col_processPacket K pk s =
     (let sizeBytes = ap_byteLength pk; s1 = col_act [EmitPacket ''packetReceived''] s
      in res_bind (deref_bmesh pk) (\<lambda>bmeshData.
         if 0 < bm_sequence bmeshData then
           check_that (sizeBytes = 11) (AssertFailed ''sizeBytes == 11'')
             (Inr (col_count bmeshData sizeBytes
                (col_act [EmitDelay (op_now K s1 - bm_creationTime bmeshData)] s1)))
         else Inr s1))"

definition col_socketClosed :: "'f col_kernel \<Rightarrow> col_par \<Rightarrow> 'f col_step" where
  "col_socketClosed K P s =
     (if operationalState s = STOPPING_OPERATION
      then startActiveOperationExtraTimeOrFinish K (cp_stopOperationExtraTime P) s
      else Inr s)"

definition col_handleMessageWhenUp ::
    "'f col_kernel \<Rightarrow> col_par \<Rightarrow> (col_timer, udp_message) app_event \<Rightarrow> 'f col_step" where
  "col_handleMessageWhenUp K P ev s =
     (case ev of
        SelfMessage ColSelfMsg \<Rightarrow>
          (case c_selfKind s of
             COL_START \<Rightarrow> col_processStart K P s
           | COL_STOP \<Rightarrow> col_processStop s
           | COL_DISCOVERY \<Rightarrow> col_processDiscovery K P s
           | COL_NO_KIND \<Rightarrow> Inl (RuntimeError ''Invalid kind in self message''))
      | Arrival msg \<Rightarrow> socket_processMessage (col_processPacket K) Inr (col_socketClosed K P) msg s)"

section \<open>Initialisation and results\<close>

definition col_initialize_local :: "col_par \<Rightarrow> 'f col_step" where
  "col_initialize_local P s =
     (let s1 = s\<lparr>c_numSentDiscovery := 0, c_numReceived := 0, c_numUnique := 0, c_numSenders := 0,
                 c_uniqueDataBytesReceived := 0, c_excessDataBytesReceived := 0,
                 c_excessDataPacketsReceived := 0, c_localPort := cp_localPort P,
                 c_destPort := cp_destPort P, c_startTime := cp_startTime P, c_stopTime := cp_stopTime P,
                 c_dontFragment := cp_dontFragment P\<rparr>
      in if 0 \<le> c_stopTime s1 \<and> c_stopTime s1 < c_startTime s1
         then Inl (RuntimeError ''Invalid startTime/stopTime parameters'')
         else Inr (s1\<lparr>c_selfKind := COL_NO_KIND\<rparr>))"

definition col_finish :: "'f collector \<Rightarrow> 'f collector" where
  "col_finish s = col_act
     ([RecordScalar ''unique data packets received'' (int (length (c_uniqueDataSendPacketHashes s))),
       RecordScalar ''unique data packets bytes received'' (c_uniqueDataBytesReceived s),
       RecordScalar ''repeated data packets received'' (int (c_excessDataPacketsReceived s)),
       RecordScalar ''repeated data packets bytes received'' (c_excessDataBytesReceived s)] @
      map (\<lambda>p. RecordScalar p 1)
        (uuid_pages ''received packet uuids-part'' (c_uniqueDataSendPacketHashes s))) s"

section \<open>The module as its container runs it\<close>

datatype col_input =
    ColDeliver "(col_timer, udp_message) op_event"
  | ColLifecycle lifecycle_operation
  | ColPass simtime

definition col_input_step :: "'f col_kernel \<Rightarrow> col_par \<Rightarrow> 'f collector \<Rightarrow> col_input \<Rightarrow> 'f collector res" where
  "col_input_step K P s i =
     (case i of
        ColDeliver ev \<Rightarrow> op_deliver K (col_handleCrashOperation K P) (col_handleMessageWhenUp K P) ev s
      | ColLifecycle op \<Rightarrow>
          res_bind (handleOperationStage K (col_handleStartOperation K) (col_handleStopOperation K P)
              (col_handleCrashOperation K P) op True s) (\<lambda>(done, s1). Inr s1)
      | ColPass d \<Rightarrow> Inr (s\<lparr>fes := k_advance K d (fes s)\<rparr>))"

text \<open>The start of the simulation: both stages of \<open>initialize\<close>.\<close>

definition col_startup :: "'f col_kernel \<Rightarrow> col_par \<Rightarrow> 'f col_step" where
  "col_startup K P s =
     res_bind (col_initialize_local P s) (\<lambda>s1.
       op_initialize K (col_handleStartOperation K) (cp_nodeStatus P) s1)"

section \<open>Counting\<close>

text \<open>
  The invariant of the counters: the sets are sets, each of the packets counted as received is either
  the first with its identifier or an excess packet, and each has the 11 bytes the assertion demands.
\<close>

definition col_counts_ok :: "'f collector \<Rightarrow> bool" where
  "col_counts_ok s \<longleftrightarrow>
     sset_inv (c_uniqueDataSendPacketHashes s) \<and> sset_inv (c_uniqueDataSenders s) \<and>
     c_numUnique s = length (c_uniqueDataSendPacketHashes s) \<and>
     c_numSenders s = length (c_uniqueDataSenders s) \<and>
     c_numReceived s = c_numUnique s + c_excessDataPacketsReceived s \<and>
     c_uniqueDataBytesReceived s = 11 * int (c_numUnique s) \<and>
     c_excessDataBytesReceived s = 11 * int (c_excessDataPacketsReceived s)"

text \<open>The counters of a state, which only a data packet changes.\<close>

definition col_counters :: "'f collector \<Rightarrow> string_set \<times> string_set \<times> nat list \<times> int list" where
  "col_counters s =
     (c_uniqueDataSendPacketHashes s, c_uniqueDataSenders s,
      [c_numUnique s, c_numSenders s, c_numReceived s, c_excessDataPacketsReceived s],
      [c_uniqueDataBytesReceived s, c_excessDataBytesReceived s])"

lemma col_counts_cong: "col_counters s' = col_counters s \<Longrightarrow> col_counts_ok s' = col_counts_ok s"
  by (simp add: col_counts_ok_def col_counters_def)

lemma col_count_ok: "col_counts_ok s \<Longrightarrow> col_counts_ok (col_count b 11 s)"
  by (auto simp: col_count_def col_counts_ok_def Let_def sset_insert_inv sset_insert_length sset_member_def)

end
