(* ===== verification/OperationalProps.thy ===== *)
theory OperationalProps
  imports Operational
begin

text \<open>
  What the base class of the applications (\<open>common/lifecycle/OperationalBase.cc\<close>) promises them: it touches
  no part of their state but its own and their timers, so an invariant of an application that its
  handlers keep holds after every message and every lifecycle operation.
\<close>

section \<open>What the base class leaves alone\<close>

lemma op_more_simps [simp]:
  "operational.more (op_cancelEvent K x s) = operational.more s"
  "operational.more (setOperationalState K st s) = operational.more s"
  "operational.more (finishActiveOperation K s) = operational.more s"
  by (simp_all add: op_cancelEvent_def setOperationalState_def finishActiveOperation_def Let_def)

lemma op_more_res:
  "op_scheduleAt K t x s = Inr s' \<Longrightarrow> operational.more s' = operational.more s"
  "setupActiveOperation op st s = Inr s' \<Longrightarrow> operational.more s' = operational.more s"
  by (auto simp: op_scheduleAt_def setupActiveOperation_def res_inr)

lemma op_more_delay:
  "delayActiveOperationFinish K t s = Inr s' \<Longrightarrow> operational.more s' = operational.more s"
  "startActiveOperationExtraTimeOrFinish K t s = Inr s' \<Longrightarrow> operational.more s' = operational.more s"
  by (auto simp: delayActiveOperationFinish_def scheduleOperationTimeout_def
      startActiveOperationExtraTimeOrFinish_def startActiveOperationExtraTime_def res_inr Let_def
      split: if_splits dest!: op_more_res)

lemma op_settle_more: "operational.more (snd (op_settle K s)) = operational.more s"
  by (simp add: op_settle_def Let_def)

text \<open>A relation between the application's own parts that its functions keep, every event keeps.\<close>

lemma op_deliver_keeps:
  assumes "op_deliver K hCrash whenUp ev s = Inr s'" and "R (operational.more s)"
    and "\<And>s s'. hCrash s = Inr s' \<Longrightarrow> R (operational.more s) \<Longrightarrow> R (operational.more s')"
    and "\<And>ev s s'. whenUp ev s = Inr s' \<Longrightarrow> R (operational.more s) \<Longrightarrow> R (operational.more s')"
  shows "R (operational.more s')"
proof -
  have up: "op_dispatch K whenUp aev t = Inr s' \<Longrightarrow> R (operational.more t) \<Longrightarrow> R (operational.more s')" for aev t
    using assms(4)
    by (auto simp: op_dispatch_def handleMessageWhenDown_def split: op_state.splits app_event.splits if_splits)
  have crash: "handleActiveOperationTimeout K hCrash t = Inr s' \<Longrightarrow> R (operational.more t) \<Longrightarrow> R (operational.more s')" for t
    using assms(3) by (auto simp: handleActiveOperationTimeout_def res_inr)
  from assms(1,2) show ?thesis
    by (auto simp: op_deliver_def op_handleMessage_def split: op_event.splits op_timer.splits dest!: up crash)
qed

lemma handleOperationStage_keeps:
  assumes "handleOperationStage K hStart hStop hCrash op here s = Inr (d, s')" and "R (operational.more s)"
    and "\<And>s s'. hStart s = Inr s' \<Longrightarrow> R (operational.more s) \<Longrightarrow> R (operational.more s')"
    and "\<And>s s'. hStop s = Inr s' \<Longrightarrow> R (operational.more s) \<Longrightarrow> R (operational.more s')"
    and "\<And>s s'. hCrash s = Inr s' \<Longrightarrow> R (operational.more s) \<Longrightarrow> R (operational.more s')"
  shows "R (operational.more s')"
proof -
  have settle: "op_settle K t = (d, s') \<Longrightarrow> operational.more s' = operational.more t" for t
    using op_settle_more[of K t] by simp
  from assms(1,2) show ?thesis
    by (cases op)
      (auto simp: handleOperationStage_def res_inr split: if_splits
        dest!: op_more_res(2) settle assms(3-5))
qed

text \<open>The same for a predicate that looks only at the application's own part.\<close>

definition op_indep :: "(('f, 'z) operational_scheme \<Rightarrow> bool) \<Rightarrow> bool" where
  "op_indep I \<longleftrightarrow> (\<forall>s s'. operational.more s' = operational.more s \<longrightarrow> I s' = I s)"

lemma op_indepD: "op_indep I \<Longrightarrow> operational.more s' = operational.more s \<Longrightarrow> I s' = I s"
  unfolding op_indep_def by blast

section \<open>The contract of an application\<close>

text \<open>The handlers of an application keep its invariant, which does not look at the base class.\<close>

locale lifecycle_app =
  fixes K :: "('f, 't) op_kernel"
    and hStart :: "('f, 'z) operational_scheme \<Rightarrow> ('f, 'z) operational_scheme res"
    and hStop :: "('f, 'z) operational_scheme \<Rightarrow> ('f, 'z) operational_scheme res"
    and hCrash :: "('f, 'z) operational_scheme \<Rightarrow> ('f, 'z) operational_scheme res"
    and whenUp :: "('t, 'm) app_event \<Rightarrow> ('f, 'z) operational_scheme \<Rightarrow> ('f, 'z) operational_scheme res"
    and I :: "('f, 'z) operational_scheme \<Rightarrow> bool"
  assumes indep: "op_indep I"
    and start_keeps: "hStart s = Inr s' \<Longrightarrow> I s \<Longrightarrow> I s'"
    and stop_keeps: "hStop s = Inr s' \<Longrightarrow> I s \<Longrightarrow> I s'"
    and crash_keeps: "hCrash s = Inr s' \<Longrightarrow> I s \<Longrightarrow> I s'"
    and when_up_keeps: "whenUp ev s = Inr s' \<Longrightarrow> I s \<Longrightarrow> I s'"
begin

lemma more_only: "(\<exists>t. operational.more t = operational.more s \<and> I t) \<longleftrightarrow> I s"
  using indep by (metis op_indepD)

lemma deliver_keeps:
  "op_deliver K hCrash whenUp ev s = Inr s' \<Longrightarrow> I s \<Longrightarrow> I s'"
  using op_deliver_keeps[of K hCrash whenUp ev s s' "\<lambda>m. \<exists>t. operational.more t = m \<and> I t"]
  unfolding more_only using crash_keeps when_up_keeps by blast

lemma stage_keeps:
  "handleOperationStage K hStart hStop hCrash op here s = Inr (d, s') \<Longrightarrow> I s \<Longrightarrow> I s'"
  using handleOperationStage_keeps[of K hStart hStop hCrash op here s d s' "\<lambda>m. \<exists>t. operational.more t = m \<and> I t"]
  unfolding more_only using start_keeps stop_keeps crash_keeps by blast

end

end
