(* ===== verification/MamCollectorProps.thy ===== *)
theory MamCollectorProps
  imports MamCollector MamNode OperationalProps
begin

text \<open>
  The properties of the mobile sink: what its counters mean, for a list of packets and in every run; that
  a sink with a stop time never announces itself; and, together with the nodes, that the delay it reports
  for a data packet is the time of the simulation.
\<close>

section \<open>The handlers of the sink\<close>

lemma col_more_view:
  fixes s s' :: "'f collector"
  assumes "operational.more s' = operational.more s"
  shows "col_counters s' = col_counters s" "c_selfKind s' = c_selfKind s" "c_stopTime s' = c_stopTime s"
    "c_numSentDiscovery s' = c_numSentDiscovery s" "c_log s' = c_log s"
  using assms by (cases s; cases s'; simp add: col_counters_def)+

lemma col_counts_indep: "op_indep (col_counts_ok :: 'f collector \<Rightarrow> bool)"
  unfolding op_indep_def using col_counts_cong col_more_view(1) by blast

lemma col_counters_simps [simp]:
  "col_counters (col_act l s) = col_counters s" "col_counters (s\<lparr>c_selfKind := k\<rparr>) = col_counters s"
  "col_counters (s\<lparr>c_readings := r\<rparr>) = col_counters s" "col_counters (s\<lparr>c_multicastGroup := g\<rparr>) = col_counters s"
  "col_counters (s\<lparr>fes := f\<rparr>) = col_counters s" "col_counters (sendDiscoveryPacket K s) = col_counters s"
  "col_counters (op_cancelEvent K x s) = col_counters s"
  by (simp_all add: col_counters_def col_act_def sendDiscoveryPacket_def col_broadcast_def Let_def op_cancelEvent_def)

lemma op_scheduleAt_counters: "op_scheduleAt K t x s = Inr s' \<Longrightarrow> col_counters s' = col_counters s"
  by (auto simp: op_scheduleAt_def res_inr)

lemma col_leave_group_counters: "col_leave_group s = Inr s' \<Longrightarrow> col_counters s' = col_counters s"
  by (auto simp: col_leave_group_def res_inr)

lemma col_handlers_counters:
  "col_processStart K P s = Inr s' \<Longrightarrow> col_counters s' = col_counters s"
  "col_processDiscovery K P s = Inr s' \<Longrightarrow> col_counters s' = col_counters s"
  "col_processStop s = Inr s' \<Longrightarrow> col_counters s' = col_counters s"
  "col_handleStartOperation K s = Inr s' \<Longrightarrow> col_counters s' = col_counters s"
  "col_handleStopOperation K P s = Inr s' \<Longrightarrow> col_counters s' = col_counters s"
  "col_handleCrashOperation K P s = Inr s' \<Longrightarrow> col_counters s' = col_counters s"
  "col_socketClosed K P s = Inr s' \<Longrightarrow> col_counters s' = col_counters s"
  by (auto simp: col_processStart_def col_setSocketOptions_def col_processDiscovery_def col_processStop_def
      col_handleStartOperation_def col_handleStopOperation_def col_handleCrashOperation_def
      col_socketClosed_def col_interval_def res_inr Let_def
      dest!: op_scheduleAt_counters col_leave_group_counters op_more_delay col_more_view(1) split: if_splits)

lemma col_processPacket_counts:
  assumes "col_processPacket K pk s = Inr s'"
  shows "col_counters s' = col_counters s \<or>
    (\<exists>b t. ap_back pk = Some b \<and> 0 < bm_sequence b \<and> col_counters t = col_counters s \<and> s' = col_count b 11 t)"
  using assms
  by (auto simp: col_processPacket_def deref_bmesh_def res_inr Let_def split: option.splits if_splits)
    (metis col_counters_simps(1))

lemma col_whenUp_counts:
  assumes "col_handleMessageWhenUp K P ev s = Inr s'" and "col_counts_ok s"
  shows "col_counts_ok s'"
proof -
  have "col_counters s' = col_counters s \<or> (\<exists>pk. col_processPacket K pk s = Inr s')"
    using assms(1)
    by (auto simp: col_handleMessageWhenUp_def socket_processMessage_def res_inr
        split: app_event.splits col_timer.splits col_kind.splits udp_kind.splits udp_message.splits
        dest!: col_handlers_counters)
  then show ?thesis
  proof
    assume "col_counters s' = col_counters s"
    from col_counts_cong[OF this] assms(2) show ?thesis by blast
  next
    assume "\<exists>pk. col_processPacket K pk s = Inr s'"
    then consider "col_counters s' = col_counters s" | b t where "col_counters t = col_counters s" "s' = col_count b 11 t"
      by (blast dest: col_processPacket_counts)
    then show ?thesis
      by cases (use assms(2) col_counts_cong col_count_ok in metis)+
  qed
qed

lemma col_crash_counts: "col_handleCrashOperation K P s = Inr s' \<Longrightarrow> col_counts_ok s \<Longrightarrow> col_counts_ok s'"
  using col_counts_cong[OF col_handlers_counters(6)] by blast

lemma col_counts_ok_fes [simp]: "col_counts_ok (s\<lparr>fes := f\<rparr>) = col_counts_ok s"
  by (simp add: col_counts_ok_def)

interpretation counts: lifecycle_app K "col_handleStartOperation K" "col_handleStopOperation K P"
  "col_handleCrashOperation K P" "col_handleMessageWhenUp K P" col_counts_ok for K P
  by unfold_locales
    (use col_counts_indep col_counts_cong col_handlers_counters(4,5) col_crash_counts col_whenUp_counts in blast)+

lemma col_input_step_counts:
  assumes "col_input_step K P s i = Inr s'" and "col_counts_ok s"
  shows "col_counts_ok s'"
  using assms
  by (cases i) (auto simp: col_input_step_def res_inr elim: counts.deliver_keeps counts.stage_keeps)

section \<open>What the counters mean\<close>

text \<open>The data packets of a list of arriving packets.\<close>

definition col_data :: "arriving_packet list \<Rightarrow> bmesh_packet list" where
  "col_data pks = filter (\<lambda>b. 0 < bm_sequence b) (map (\<lambda>pk. the (ap_back pk)) (filter (\<lambda>pk. ap_back pk \<noteq> None) pks))"

definition col_sets :: "bmesh_packet list \<Rightarrow> 'f collector \<Rightarrow> bool" where
  "col_sets ds s \<longleftrightarrow>
     set (c_uniqueDataSendPacketHashes s) = bm_packetUuid ` set ds \<and>
     set (c_uniqueDataSenders s) = bm_srcUuid ` set ds \<and> c_numReceived s = length ds"

lemma col_sets_step:
  assumes "col_processPacket K pk s = Inr s'" and "col_sets ds s"
  shows "col_sets (ds @ col_data [pk]) s'"
  using assms
  by (auto simp: col_processPacket_def deref_bmesh_def res_inr Let_def col_sets_def col_data_def col_act_def
      col_count_def sset_member_def split: option.splits if_splits)

lemma col_data_Cons: "col_data (pk # pks) = col_data [pk] @ col_data pks"
  by (simp add: col_data_def)

lemma col_sets_run:
  "res_run (\<lambda>s pk. col_processPacket K pk s) s pks = Inr s' \<Longrightarrow> col_sets ds s \<Longrightarrow> col_sets (ds @ col_data pks) s'"
proof (induction pks arbitrary: s ds)
  case (Cons pk pks)
  from Cons.prems(1) obtain s1 where "col_processPacket K pk s = Inr s1"
    "res_run (\<lambda>s pk. col_processPacket K pk s) s1 pks = Inr s'" by (auto simp: res_inr)
  with Cons.IH[of s1 "ds @ col_data [pk]"] col_sets_step[of K pk s s1 ds] Cons.prems(2) show ?case
    by (simp add: col_data_Cons[of pk pks])
qed (simp add: col_data_def)

lemma col_new_ok: "col_counts_ok (col_new f)" "col_sets [] (col_new f)"
  by (simp_all add: col_counts_ok_def col_sets_def col_new_def)

lemma col_processPacket_keeps: "col_processPacket K pk s = Inr s' \<Longrightarrow> col_counts_ok s \<Longrightarrow> col_counts_ok s'"
  using col_counts_cong col_count_ok by (metis col_processPacket_counts)

lemma col_packets_counts:
  assumes "res_run (\<lambda>s pk. col_processPacket K pk s) s pks = Inr s'" and "col_counts_ok s"
  shows "col_counts_ok s'"
  by (rule res_run_invariant[where I = col_counts_ok, OF col_processPacket_keeps assms(2,1)])

text \<open>
  What the sink counts for a list of packets: the identifiers of the data packets and of their
  senders as sets with their sizes, every data packet received, and as excess the packets whose
  identifier came before; the bytes are 11 for each packet.
\<close>

theorem col_statistics:
  assumes "res_run (\<lambda>s pk. col_processPacket K pk s) (col_new f) pks = Inr s"
  shows "set (c_uniqueDataSendPacketHashes s) = bm_packetUuid ` set (col_data pks) \<and>
    c_numUnique s = card (bm_packetUuid ` set (col_data pks)) \<and>
    c_numSenders s = card (bm_srcUuid ` set (col_data pks)) \<and>
    c_numReceived s = length (col_data pks) \<and>
    c_excessDataPacketsReceived s = length (col_data pks) - card (bm_packetUuid ` set (col_data pks)) \<and>
    c_uniqueDataBytesReceived s = 11 * int (c_numUnique s) \<and>
    c_excessDataBytesReceived s = 11 * int (c_excessDataPacketsReceived s)"
proof -
  have sets: "col_sets (col_data pks) s" using col_sets_run[OF assms col_new_ok(2)] by simp
  have ok: "col_counts_ok s" by (rule col_packets_counts[OF assms col_new_ok(1)])
  then have "c_numUnique s = card (set (c_uniqueDataSendPacketHashes s))"
    "c_numSenders s = card (set (c_uniqueDataSenders s))"
    by (auto simp: col_counts_ok_def sset_inv_def distinct_card)
  with sets ok show ?thesis by (auto simp: col_sets_def col_counts_ok_def)
qed

definition col_example_packet :: "string \<Rightarrow> arriving_packet" where
  "col_example_packet uuid = \<lparr>ap_name = ''DATA_SEND'', ap_kind = UDP_I_DATA, ap_src = None,
     ap_back = Some (bmesh_new\<lparr>bm_sequence := 1, bm_packetUuid := uuid, bm_srcUuid := ''n''\<rparr>),
     ap_byteLength = 11, ap_belongs = True\<rparr>"

type_synonym col_ref = "col_timer op_timer ref_fes"

abbreviation col_ref_kernel :: "col_ref col_kernel" where
  "col_ref_kernel \<equiv> ref_kernel"

theorem col_statistics_witness:
  "\<exists>s. res_run (\<lambda>s pk. col_processPacket col_ref_kernel pk s) (col_new (ref_start []))
       [col_example_packet ''a'', col_example_packet ''a''] = Inr s \<and>
     c_numUnique s = 1 \<and> c_excessDataPacketsReceived s = 1"
proof -
  have "is_ok (res_run (\<lambda>s pk. col_processPacket col_ref_kernel pk s) (col_new (ref_start []))
      [col_example_packet ''a'', col_example_packet ''a''])"
    by (simp add: col_processPacket_def deref_bmesh_def col_example_packet_def bmesh_new_def Let_def)
  then obtain s where s: "res_run (\<lambda>s pk. col_processPacket col_ref_kernel pk s) (col_new (ref_start []))
      [col_example_packet ''a'', col_example_packet ''a''] = Inr s" by (auto simp: is_ok_iff)
  from col_statistics[OF s] s show ?thesis by (simp add: col_data_def col_example_packet_def)
qed

section \<open>The whole life of the sink\<close>

lemma col_startup_counts: "col_startup K P (col_new f) = Inr s \<Longrightarrow> col_counts_ok s"
proof -
  assume "col_startup K P (col_new f) = Inr s"
  then have "col_counters s = col_counters (col_new f)"
    by (auto simp: col_startup_def col_initialize_local_def op_initialize_def res_inr Let_def
        setOperationalState_def col_new_def col_counters_def
        split: if_splits dest!: col_handlers_counters(4))
  from col_counts_cong[OF this] col_new_ok(1)[of f] show ?thesis by blast
qed

lemma col_run_counts:
  "col_startup K P (col_new f) = Inr s \<Longrightarrow> res_run (col_input_step K P) s ins = Inr s' \<Longrightarrow> col_counts_ok s'"
  by (rule res_run_invariant[where I = col_counts_ok])
    (auto intro: col_input_step_counts col_startup_counts)

text \<open>
  (C31) In every run of the sink, through starts, stops and crashes, each packet counted is either the
  first with its identifier or an excess packet, the counters are the sizes of the sets, and every byte
  counted belongs to a packet of 11 bytes.
\<close>

theorem col_counts_invariant:
  assumes "col_startup K P (col_new f) = Inr s" and "res_run (col_input_step K P) s ins = Inr s'"
  shows "c_numReceived s' = card (set (c_uniqueDataSendPacketHashes s')) + c_excessDataPacketsReceived s' \<and>
    c_numSenders s' = card (set (c_uniqueDataSenders s')) \<and>
    c_uniqueDataBytesReceived s' + c_excessDataBytesReceived s' = 11 * int (c_numReceived s')"
proof -
  have "col_counts_ok s'" by (rule col_run_counts[OF assms])
  then show ?thesis by (auto simp: col_counts_ok_def sset_inv_def distinct_card)
qed

definition col_example_par :: col_par where
  "col_example_par = \<lparr>cp_localPort = 5000, cp_destPort = 5000, cp_startTime = 0, cp_stopTime = 100,
     cp_dontFragment = False, cp_sendDiscoveryInterval = (\<lambda>_. 10), cp_multicastGroup = [],
     cp_resolve = (\<lambda>_. Inr l3_empty), cp_stopOperationTimeout = 2, cp_stopOperationExtraTime = -1,
     cp_nodeStatus = None, cp_crashOfApplication = False\<rparr>"

text \<open>The sink starts and receives a packet.\<close>

definition col_example_inputs :: "col_input list" where
  "col_example_inputs = [ColDeliver (Timer (AppTimer ColSelfMsg)),
     ColDeliver (Message (PacketMessage (col_example_packet ''a'')))]"

lemma col_example_run:
  "\<exists>s s'. col_startup col_ref_kernel col_example_par (col_new (ref_start [])) = Inr s \<and>
     res_run (col_input_step col_ref_kernel col_example_par) s col_example_inputs = Inr s' \<and>
     c_numReceived s' = 1 \<and> c_selfKind s' = COL_STOP"
  by (simp add: col_startup_def col_initialize_local_def col_example_par_def col_new_def op_initialize_def
      setOperationalState_def getInitialOperationalState_def col_handleStartOperation_def op_scheduleAt_def
      op_now_def ref_eval Let_def col_example_inputs_def col_input_step_def op_deliver_def op_handleMessage_def
      op_dispatch_def col_handleMessageWhenUp_def col_processStart_def col_setSocketOptions_def col_act_def
      l3_isUnspecified_def socket_processMessage_def col_example_packet_def col_processPacket_def
      deref_bmesh_def bmesh_new_def col_count_def sset_member_def)

theorem col_counts_invariant_witness:
  "\<exists>s s'. col_startup col_ref_kernel col_example_par (col_new (ref_start [])) = Inr s \<and>
     res_run (col_input_step col_ref_kernel col_example_par) s col_example_inputs = Inr s' \<and>
     c_uniqueDataBytesReceived s' + c_excessDataBytesReceived s' = 11"
proof -
  from col_example_run obtain s s' where
    s: "col_startup col_ref_kernel col_example_par (col_new (ref_start [])) = Inr s"
      "res_run (col_input_step col_ref_kernel col_example_par) s col_example_inputs = Inr s'"
      "c_numReceived s' = 1" by blast
  from col_counts_invariant[OF s(1,2)] s show ?thesis by auto
qed

section \<open>A sink with a stop time\<close>

text \<open>Nothing was sent, and the next timer is not the one that announces.\<close>

definition col_mute :: "'f collector \<Rightarrow> bool" where
  "col_mute s \<longleftrightarrow>
     0 \<le> c_stopTime s \<and> c_selfKind s \<noteq> COL_DISCOVERY \<and> c_numSentDiscovery s = 0 \<and>
     (\<forall>p a d. SendTo p a d \<notin> set (c_log s))"

lemma col_mute_indep: "op_indep (col_mute :: 'f collector \<Rightarrow> bool)"
  unfolding op_indep_def col_mute_def by (metis col_more_view(2-5))

lemma col_mute_simps [simp]:
  "col_mute (s\<lparr>c_readings := r\<rparr>) = col_mute s" "col_mute (s\<lparr>c_multicastGroup := g\<rparr>) = col_mute s"
  "col_mute (s\<lparr>fes := f\<rparr>) = col_mute s" "col_mute (op_cancelEvent K x s) = col_mute s"
  "col_mute (col_count b n s) = col_mute s"
  "col_mute (s\<lparr>c_selfKind := COL_START\<rparr>) = (0 \<le> c_stopTime s \<and> c_numSentDiscovery s = 0 \<and>
     (\<forall>p a d. SendTo p a d \<notin> set (c_log s)))"
  "col_mute (s\<lparr>c_selfKind := COL_STOP\<rparr>) = (0 \<le> c_stopTime s \<and> c_numSentDiscovery s = 0 \<and>
     (\<forall>p a d. SendTo p a d \<notin> set (c_log s)))"
  by (simp_all add: col_mute_def op_cancelEvent_def col_count_def Let_def)

lemma col_mute_act: "col_mute s \<Longrightarrow> (\<forall>p a d. SendTo p a d \<notin> set l) \<Longrightarrow> col_mute (col_act l s)"
  by (simp add: col_mute_def col_act_def)

lemma col_mute_D: "col_mute s \<Longrightarrow> 0 \<le> c_stopTime s \<and> c_selfKind s \<noteq> COL_DISCOVERY \<and> c_numSentDiscovery s = 0 \<and>
     (\<forall>p a d. SendTo p a d \<notin> set (c_log s))"
  by (simp add: col_mute_def)

lemma op_mute:
  "op_scheduleAt K t x s = Inr s' \<Longrightarrow> col_mute s \<Longrightarrow> col_mute s'"
  "delayActiveOperationFinish K t s = Inr s' \<Longrightarrow> col_mute s \<Longrightarrow> col_mute s'"
  "startActiveOperationExtraTimeOrFinish K t s = Inr s' \<Longrightarrow> col_mute s \<Longrightarrow> col_mute s'"
  using op_indepD[OF col_mute_indep, of s' s] by (blast dest: op_more_res op_more_delay)+

lemma col_leave_group_mute: "col_leave_group s = Inr s' \<Longrightarrow> col_mute s \<Longrightarrow> col_mute s'"
  by (auto simp: col_leave_group_def res_inr intro!: col_mute_act)

lemma col_setSocketOptions_mute: "col_setSocketOptions P s = Inr s' \<Longrightarrow> col_mute s \<Longrightarrow> col_mute s'"
  by (auto simp: col_setSocketOptions_def res_inr Let_def intro!: col_mute_act split: if_splits)

lemma col_processStart_mute:
  assumes "col_processStart K P s = Inr s'" and "col_mute s"
  shows "col_mute s'"
proof -
  from assms(1) obtain s1 where
    s1: "col_setSocketOptions P (col_act [SocketBind l3_empty (c_localPort s)] s) = Inr s1"
    and s': "(if 0 \<le> c_stopTime s1
       then op_scheduleAt K (c_stopTime s1) (AppTimer ColSelfMsg) (s1\<lparr>c_selfKind := COL_STOP\<rparr>)
       else case col_interval P s1 of (d, s2) \<Rightarrow>
              op_scheduleAt K (op_now K s2 + d) (AppTimer ColSelfMsg) (s2\<lparr>c_selfKind := COL_DISCOVERY\<rparr>)) = Inr s'"
    by (auto simp: col_processStart_def res_inr)
  have m: "col_mute s1" by (rule col_setSocketOptions_mute[OF s1]) (auto intro: col_mute_act assms(2))
  with s' op_mute(1)[of K _ _ "s1\<lparr>c_selfKind := COL_STOP\<rparr>" s'] show ?thesis
    by (auto simp: col_mute_D split: if_splits)
qed

lemma col_handlers_mute:
  "col_processStop s = Inr s' \<Longrightarrow> col_mute s \<Longrightarrow> col_mute s'"
  "col_handleStartOperation K s = Inr s' \<Longrightarrow> col_mute s \<Longrightarrow> col_mute s'"
  "col_handleStopOperation K P s = Inr s' \<Longrightarrow> col_mute s \<Longrightarrow> col_mute s'"
  "col_handleCrashOperation K P s = Inr s' \<Longrightarrow> col_mute s \<Longrightarrow> col_mute s'"
  "col_socketClosed K P s = Inr s' \<Longrightarrow> col_mute s \<Longrightarrow> col_mute s'"
  "col_processPacket K pk s = Inr s' \<Longrightarrow> col_mute s \<Longrightarrow> col_mute s'"
  by (auto simp: col_processStop_def col_handleStartOperation_def col_handleStopOperation_def
      col_handleCrashOperation_def col_socketClosed_def col_processPacket_def res_inr Let_def col_mute_D
      split: if_splits intro!: col_mute_act elim!: op_mute col_leave_group_mute)

lemma col_whenUp_mute:
  assumes "col_handleMessageWhenUp K P ev s = Inr s'" and "col_mute s"
  shows "col_mute s'"
proof -
  note D = col_mute_D[OF assms(2)]
  show ?thesis
  proof (cases ev)
    case (SelfMessage t)
    with assms D show ?thesis
      by (cases t; cases "c_selfKind s")
        (auto simp: col_handleMessageWhenUp_def elim!: col_processStart_mute col_handlers_mute)
  next
    case (Arrival m)
    with assms show ?thesis
      by (auto simp: col_handleMessageWhenUp_def socket_processMessage_def res_inr
          split: udp_kind.splits udp_message.splits elim!: col_handlers_mute)
  qed
qed

interpretation mute: lifecycle_app K "col_handleStartOperation K" "col_handleStopOperation K P"
  "col_handleCrashOperation K P" "col_handleMessageWhenUp K P" col_mute for K P
  by unfold_locales (use col_mute_indep col_handlers_mute(2-4) col_whenUp_mute in blast)+

lemma col_input_step_mute:
  assumes "col_input_step K P s i = Inr s'" and "col_mute s"
  shows "col_mute s'"
  using assms
  by (cases i) (auto simp: col_input_step_def res_inr elim: mute.deliver_keeps mute.stage_keeps)

lemma col_startup_mute:
  assumes "col_startup K P (col_new f) = Inr s" and "0 \<le> cp_stopTime P"
  shows "col_mute s"
proof -
  from assms(1) obtain s1 where s1: "col_initialize_local P (col_new f) = Inr s1"
    "op_initialize K (col_handleStartOperation K) (cp_nodeStatus P) s1 = Inr s" by (auto simp: col_startup_def res_inr)
  have "col_mute s1"
    using s1(1) assms(2)
    by (auto simp: col_initialize_local_def Let_def col_new_def col_mute_def split: if_splits)
  then have "col_mute (setOperationalState K st s1)" for st
    using op_indepD[OF col_mute_indep] op_more_simps(2) by blast
  with s1(2) show ?thesis
    by (auto simp: op_initialize_def Let_def split: if_splits elim: col_handlers_mute(2))
qed

lemma col_run_mute:
  assumes "col_startup K P (col_new f) = Inr s" and "0 \<le> cp_stopTime P"
    and "res_run (col_input_step K P) s ins = Inr s'"
  shows "col_mute s'"
  by (rule res_run_invariant[where I = col_mute, OF col_input_step_mute col_startup_mute[OF assms(1,2)] assms(3)])

text \<open>
  A sink that has a stop time never announces itself: in no run does it send a discovery packet, so
  the nodes never learn a route to it.
\<close>

theorem col_stop_time_mutes:
  assumes "col_startup K P (col_new f) = Inr s" and "0 \<le> cp_stopTime P"
    and "res_run (col_input_step K P) s ins = Inr s'"
  shows "c_numSentDiscovery s' = 0 \<and> (\<forall>p a d. SendTo p a d \<notin> set (c_log s'))"
  using col_mute_D[OF col_run_mute[OF assms]] by blast

theorem col_stop_time_mutes_witness:
  "\<exists>s s'. col_startup col_ref_kernel col_example_par (col_new (ref_start [])) = Inr s \<and>
     res_run (col_input_step col_ref_kernel col_example_par) s col_example_inputs = Inr s' \<and>
     c_numSentDiscovery s' = 0"
proof -
  from col_example_run obtain s s' where
    s: "col_startup col_ref_kernel col_example_par (col_new (ref_start [])) = Inr s"
      "res_run (col_input_step col_ref_kernel col_example_par) s col_example_inputs = Inr s'" by blast
  have "0 \<le> cp_stopTime col_example_par" by (simp add: col_example_par_def)
  from col_stop_time_mutes[OF s(1) this s(2)] s show ?thesis by blast
qed

section \<open>From a node to the sink\<close>

text \<open>The packets a step of a node sends.\<close>

definition mam_sends :: "'f mam_node \<Rightarrow> 'f mam_node \<Rightarrow> udp_packet \<Rightarrow> bool" where
  "mam_sends s s' p \<longleftrightarrow> (\<exists>l a d. mam_log s' = mam_log s @ l \<and> SendTo p a d \<in> set l)"

lemma own_data_undated:
  assumes "mam_sends s (processSendMyData K E s) p"
  shows "bm_creationTime (up_payload p) = 0"
  using assms
  by (auto simp: mam_sends_def processSendMyData_def generate_uuid_v4_def mam_act_def bmesh_new_def Let_def
      split: if_splits prod.splits)

lemma relayed_data_same:
  assumes "processDataSend K E pk src r = Inr r'" and "mam_sends r r' q" and "up_name q = DATA_SEND"
    and "ap_back pk = Some b"
  shows "up_payload q = b"
  using assms
  by (auto simp: mam_sends_def processDataSend_def deref_bmesh_def sendSimpleMessage_def sendData_def res_inr
      mam_act_def Let_def split: if_splits)

text \<open>
  The delay reported for a data packet is not its delay: a node does not set the creation time of its
  data packets, relays pass them on as they are, and the sink reports the time since time 0, whenever the
  packet was made.
\<close>

theorem mam_delay_is_absolute:
  assumes "mam_sends s (processSendMyData K E s) p"
    and "processDataSend K' E' pk1 src r = Inr r'" and "ap_back pk1 = Some (up_payload p)"
    and "mam_sends r r' q" and "up_name q = DATA_SEND"
    and "ap_back pk2 = Some (up_payload q)" and "0 < bm_sequence (up_payload q)"
    and "col_processPacket KC pk2 c = Inr c'"
  shows "c_log c' = c_log c @ [EmitPacket ''packetReceived'', EmitDelay (op_now KC c)]"
proof -
  have "bm_creationTime (up_payload q) = 0"
    using own_data_undated[OF assms(1)] relayed_data_same[OF assms(2,4,5,3)] by simp
  with assms(6-8) show ?thesis
    by (auto simp: col_processPacket_def deref_bmesh_def res_inr Let_def col_count_def col_act_def op_now_def)
qed

text \<open>A node that never moves packets towards a sink, used both as the source and as the relay.\<close>

definition delay_example_env :: mam_env where
  "delay_example_env = \<lparr>par_localPort = 10, par_destPort = 20, par_startTime = 5, par_stopTime = -1,
     par_dontFragment = False, par_relayNode = True, par_relayMode = ''BMesh'', par_delta = 50,
     par_lowPowerNode = False, par_friendNode = True, par_destAddresses = ''a'',
     par_localAddress = [], par_timeToLive = -1, par_typeOfService = -1, par_multicastInterface = [],
     par_joinLocalMulticastGroups = False, par_stopOperationTimeout = 2, par_stopOperationExtraTime = -1,
     e_fullPath = ''node'', e_nodeStatus = None, e_ms = 1, e_clock = (\<lambda>t. t), e_dis = (\<lambda>n. n mod 16),
     e_dis2 = (\<lambda>n. 8 + n mod 4), e_random_char = (\<lambda>n. n mod 256), e_tokenize = (\<lambda>s. [s]),
     e_resolve = (\<lambda>s. l3_of_ipv4 7), e_interface = (\<lambda>s. None), e_str = (\<lambda>_. None)\<rparr>"

definition delay_example_node :: "mam_timer op_timer ref_fes mam_node" where
  "delay_example_node = (mam_new (ref_start []) 0)\<lparr>mamRelay := False, relayNode := True\<rparr>"

definition delay_example_own :: udp_packet where
  "delay_example_own = \<lparr>up_name = DATA_SEND, up_dontFragment = False,
     up_payload = bmesh_new\<lparr>bm_chunkLength := 11, bm_hops := 127,
       bm_packetUuid := fst (generate_uuid_v4 delay_example_env (delay_example_node\<lparr>scheduledSendData := False\<rparr>)),
       bm_srcUuid := nodeUuid delay_example_node, bm_sequence := 1, bm_creationTag := Some 0\<rparr>\<rparr>"

definition delay_example_arrival :: "arriving_packet" where
  "delay_example_arrival = \<lparr>ap_name = DATA_SEND, ap_kind = UDP_I_DATA, ap_src = Some (l3_of_ipv4 9),
     ap_back = Some (up_payload delay_example_own), ap_byteLength = 11, ap_belongs = True\<rparr>"

text \<open>The sink is at time 7.\<close>

definition delay_example_sink :: "col_ref collector" where
  "delay_example_sink = col_new ((ref_start [])\<lparr>rf_now := 7\<rparr>)"

lemma delay_example_sent:
  "mam_sends delay_example_node (processSendMyData ref_kernel delay_example_env delay_example_node) delay_example_own"
  by (auto simp: mam_sends_def processSendMyData_def delay_example_node_def delay_example_own_def mam_new_def
      generate_uuid_v4_def mam_act_def op_now_def ref_eval Let_def)

lemma delay_example_relayed:
  "\<exists>r'. processDataSend ref_kernel delay_example_env delay_example_arrival (l3_of_ipv4 9) delay_example_node = Inr r' \<and>
     mam_sends delay_example_node r' delay_example_own"
  by (auto simp: mam_sends_def processDataSend_def delay_example_node_def delay_example_arrival_def
      delay_example_own_def mam_new_def deref_bmesh_def lru_new_def lru_exists_def sendData_def mam_act_def Let_def)

theorem mam_delay_is_absolute_witness:
  "\<exists>c'. col_processPacket col_ref_kernel delay_example_arrival delay_example_sink = Inr c' \<and>
     c_log c' = [EmitPacket ''packetReceived'', EmitDelay 7]"
proof -
  obtain r' where r: "processDataSend ref_kernel delay_example_env delay_example_arrival (l3_of_ipv4 9) delay_example_node = Inr r'"
    "mam_sends delay_example_node r' delay_example_own" using delay_example_relayed by blast
  obtain c' where c: "col_processPacket col_ref_kernel delay_example_arrival delay_example_sink = Inr c'"
    by (simp add: col_processPacket_def deref_bmesh_def delay_example_arrival_def delay_example_own_def
        bmesh_new_def Let_def)
  have f: "up_name delay_example_own = DATA_SEND" "ap_back delay_example_arrival = Some (up_payload delay_example_own)"
    "0 < bm_sequence (up_payload delay_example_own)"
    "c_log delay_example_sink = []" "op_now col_ref_kernel delay_example_sink = 7"
    by (simp_all add: delay_example_own_def delay_example_arrival_def delay_example_sink_def col_new_def
        op_now_def ref_eval)
  from mam_delay_is_absolute[OF delay_example_sent r(1) f(2) r(2) f(1) f(2,3) c] c f show ?thesis by simp
qed

end
