(* ===== verification/TcpSack.thy ===== *)
theory TcpSack
  imports Ipv4Address
begin

text \<open>
  The retransmission queue of a TCP sender with selective acknowledgements
  (\<open>transportlayer/tcp/TcpSackRexmitQueue.h\<close>, \<open>TcpSackRexmitQueue.cc\<close>) and the comparison of sequence
  numbers (\<open>transportlayer/tcp_common/TcpHeader.h\<close>): the sent and unacknowledged bytes as a list of
  regions, each with the flags "sacked" and "retransmitted".

  Sequence numbers are 32-bit words that wrap; \<open>a < b\<close> is "ahead by less than 2^31". A loop over the
  \<open>std::list\<close> that stops at a position is \<open>takeWhile\<close> and \<open>dropWhile\<close>; a change in place rebuilds the list
  around the position. The log messages are left out.
\<close>

section \<open>Sequence numbers\<close>

type_synonym seqno = "32 word"

definition seqLess :: "seqno \<Rightarrow> seqno \<Rightarrow> bool" where
  "seqLess a b \<longleftrightarrow> a \<noteq> b \<and> b - a < 0x80000000"

definition seqLE :: "seqno \<Rightarrow> seqno \<Rightarrow> bool" where
  "seqLE a b \<longleftrightarrow> b - a < 0x80000000"

definition seqGreater :: "seqno \<Rightarrow> seqno \<Rightarrow> bool" where
  "seqGreater a b \<longleftrightarrow> a \<noteq> b \<and> a - b < 0x80000000"

definition seqGE :: "seqno \<Rightarrow> seqno \<Rightarrow> bool" where
  "seqGE a b \<longleftrightarrow> a - b < 0x80000000"

definition seqMin :: "seqno \<Rightarrow> seqno \<Rightarrow> seqno" where
  "seqMin a b = (if b - a < 0x80000000 then a else b)"

definition seqMax :: "seqno \<Rightarrow> seqno \<Rightarrow> seqno" where
  "seqMax a b = (if a - b < 0x80000000 then a else b)"

section \<open>The queue\<close>

record region =
  beginSeqNum :: seqno
  endSeqNum :: seqno
  sacked :: bool
  rexmitted :: bool

record sack_queue =
  rexmitQueue :: "region list"
  q_begin :: seqno
  q_end :: seqno

definition sack_new :: sack_queue where
  "sack_new = \<lparr>rexmitQueue = [], q_begin = 0, q_end = 0\<rparr>"

text \<open>\<open>init\<close> does not touch the list.\<close>

definition sack_init :: "seqno \<Rightarrow> sack_queue \<Rightarrow> sack_queue" where
  "sack_init seqNum s = s\<lparr>q_begin := seqNum, q_end := seqNum\<rparr>"

definition sack_str :: "sack_queue \<Rightarrow> string" where
  "sack_str s = ''['' @ show_nat (unat (q_begin s)) @ ''..'' @ show_nat (unat (q_end s)) @ '')''"

text \<open>A boolean is printed as 0 or 1; \<open>endl\<close> is a newline.\<close>

definition show_flag :: "bool \<Rightarrow> string" where
  "show_flag b = (if b then ''1'' else ''0'')"

fun sack_info_lines :: "nat \<Rightarrow> region list \<Rightarrow> string" where
  "sack_info_lines j [] = []"
| "sack_info_lines j (r # rs) =
     show_nat j @ ''. region: ['' @ show_nat (unat (beginSeqNum r)) @ ''..'' @ show_nat (unat (endSeqNum r)) @
     '') '' @ [char_of (9::nat)] @ '' sacked='' @ show_flag (sacked r) @ [char_of (9::nat)] @ '' rexmitted='' @
     show_flag (rexmitted r) @ [char_of (10::nat)] @ sack_info_lines (Suc j) rs"

definition sack_detailedInfo :: "sack_queue \<Rightarrow> string" where
  "sack_detailedInfo s = sack_str s @ [char_of (10::nat)] @ sack_info_lines 1 (rexmitQueue s)"

definition checkQueue :: "sack_queue \<Rightarrow> bool" where
  "checkQueue s =
     (case foldl (\<lambda>(b, f) elem. (endSeqNum elem, f \<and> b = beginSeqNum elem \<and> seqLess (beginSeqNum elem) (endSeqNum elem)))
             (q_begin s, True) (rexmitQueue s)
      of (b, f) \<Rightarrow> f \<and> b = q_end s)"

text \<open>\<open>while (i != rexmitQueue.end() && seqLE(i->endSeqNum, seqNum))\<close>: what lies before and from \<open>i\<close>.\<close>

definition sack_before :: "seqno \<Rightarrow> region list \<Rightarrow> region list" where
  "sack_before seqNum q = takeWhile (\<lambda>i. seqLE (endSeqNum i) seqNum) q"

definition sack_from :: "seqno \<Rightarrow> region list \<Rightarrow> region list" where
  "sack_from seqNum q = dropWhile (\<lambda>i. seqLE (endSeqNum i) seqNum) q"

text \<open>\<open>seqLE(i->beginSeqNum, seqNum) && seqLess(seqNum, i->endSeqNum)\<close>\<close>

definition region_has :: "region \<Rightarrow> seqno \<Rightarrow> bool" where
  "region_has i seqNum \<longleftrightarrow> seqLE (beginSeqNum i) seqNum \<and> seqLess seqNum (endSeqNum i)"

section \<open>Updates\<close>

definition discardUpTo :: "seqno \<Rightarrow> sack_queue \<Rightarrow> sack_queue res" where
  "discardUpTo seqNum s =
     check_that (seqLE (q_begin s) seqNum \<and> seqLE seqNum (q_end s)) (AssertFailed ''discardUpTo: range'')
       (res_bind
          (case sack_from seqNum (rexmitQueue s) of
             [] \<Rightarrow> Inr []
           | i # is \<Rightarrow> check_that (region_has i seqNum) (AssertFailed ''discardUpTo: region'')
                         (Inr (i\<lparr>beginSeqNum := seqNum\<rparr> # is)))
          (\<lambda>q. let s1 = s\<lparr>rexmitQueue := q, q_begin := seqNum\<rparr>
               in check_that (checkQueue s1) (AssertFailed ''discardUpTo: checkQueue'') (Inr s1)))"

text \<open>Splitting the region at \<open>i\<close> before the first byte concerned.\<close>

definition sack_chunk :: "seqno \<Rightarrow> region \<Rightarrow> region list \<times> region" where
  "sack_chunk fromSeqNum i =
     (if beginSeqNum i \<noteq> fromSeqNum
      then ([i\<lparr>endSeqNum := fromSeqNum\<rparr>], i\<lparr>beginSeqNum := fromSeqNum\<rparr>)
      else ([], i))"

text \<open>The loop that marks whole regions: the marked ones, the new \<open>fromSeqNum\<close>, and the rest.\<close>

fun mark_rexmitted :: "seqno \<Rightarrow> seqno \<Rightarrow> region list \<Rightarrow> region list \<times> seqno \<times> region list" where
  "mark_rexmitted toSeqNum fromSeqNum [] = ([], fromSeqNum, [])"
| "mark_rexmitted toSeqNum fromSeqNum (i # is) =
     (if seqLE (endSeqNum i) toSeqNum then
        case mark_rexmitted toSeqNum (endSeqNum i) is of (ms, f, rest) \<Rightarrow> (i\<lparr>rexmitted := True\<rparr> # ms, f, rest)
      else ([], fromSeqNum, i # is))"

text \<open>What is left of the range behind the loop becomes a region of its own.\<close>

definition sack_rest :: "seqno \<Rightarrow> seqno \<Rightarrow> region list \<Rightarrow> region list res" where
  "sack_rest fromSeqNum toSeqNum rest =
     (if fromSeqNum \<noteq> toSeqNum then
        (case rest of
           [] \<Rightarrow> Inr [\<lparr>beginSeqNum = fromSeqNum, endSeqNum = toSeqNum, sacked = False, rexmitted = False\<rparr>]
         | i # is \<Rightarrow>
             check_that (seqLess (beginSeqNum i) toSeqNum) (AssertFailed ''enqueueSentData: next'')
               (Inr (\<lparr>beginSeqNum = fromSeqNum, endSeqNum = toSeqNum, sacked = sacked i, rexmitted = True\<rparr>
                     # i\<lparr>beginSeqNum := toSeqNum\<rparr> # is)))
      else Inr rest)"

definition enqueueSentData :: "seqno \<Rightarrow> seqno \<Rightarrow> sack_queue \<Rightarrow> sack_queue res" where
  "enqueueSentData fromSeqNum toSeqNum s =
     check_that (seqLE (q_begin s) fromSeqNum \<and> seqLE fromSeqNum (q_end s)) (AssertFailed ''enqueueSentData: range'')
     (check_that (seqLess fromSeqNum toSeqNum) (AssertFailed ''enqueueSentData: order'')
     (res_bind
        (if rexmitQueue s = [] \<or> q_end s = fromSeqNum
         then Inr (rexmitQueue s @
                [\<lparr>beginSeqNum = fromSeqNum, endSeqNum = toSeqNum, sacked = False, rexmitted = False\<rparr>])
         else
           case sack_from fromSeqNum (rexmitQueue s) of
             [] \<Rightarrow> Inl (AssertFailed ''enqueueSentData: i != end'')
           | i # is \<Rightarrow>
               check_that (region_has i fromSeqNum) (AssertFailed ''enqueueSentData: region'')
                 (case sack_chunk fromSeqNum i of (chunk, i1) \<Rightarrow>
                    case mark_rexmitted toSeqNum fromSeqNum (i1 # is) of (marked, from1, rest) \<Rightarrow>
                      res_bind (sack_rest from1 toSeqNum rest) (\<lambda>rest1.
                        check_that (marked \<noteq> [] \<or> from1 \<noteq> toSeqNum) (AssertFailed ''enqueueSentData: found'')
                          (Inr (sack_before fromSeqNum (rexmitQueue s) @ chunk @ marked @ rest1)))))
        (\<lambda>q. let s1 = \<lparr>rexmitQueue = q, q_begin = beginSeqNum (hd q), q_end = endSeqNum (last q)\<rparr>
             in check_that (checkQueue s1) (AssertFailed ''enqueueSentData: checkQueue'') (Inr s1))))"

fun mark_sacked :: "seqno \<Rightarrow> seqno \<Rightarrow> region list \<Rightarrow> region list \<times> region list" where
  "mark_sacked toSeqNum fromSeqNum [] = ([], [])"
| "mark_sacked toSeqNum fromSeqNum (i # is) =
     (if seqLE (endSeqNum i) toSeqNum then
        case mark_sacked toSeqNum fromSeqNum is of
          (ms, rest) \<Rightarrow> ((if seqGE (beginSeqNum i) fromSeqNum then i\<lparr>sacked := True\<rparr> else i) # ms, rest)
      else ([], i # is))"

text \<open>The region that the range ends in is split, its first part sacked.\<close>

definition sack_split :: "seqno \<Rightarrow> region list \<Rightarrow> region list" where
  "sack_split toSeqNum rest =
     (case rest of
        [] \<Rightarrow> []
      | i # is \<Rightarrow>
          if seqLess (beginSeqNum i) toSeqNum \<and> seqLess toSeqNum (endSeqNum i)
          then i\<lparr>endSeqNum := toSeqNum, sacked := True\<rparr> # i\<lparr>beginSeqNum := toSeqNum\<rparr> # is
          else rest)"

definition setSackedBit :: "seqno \<Rightarrow> seqno \<Rightarrow> sack_queue \<Rightarrow> sack_queue res" where
  "setSackedBit from0 toSeqNum s =
     (let fromSeqNum = (if seqLess from0 (q_begin s) then q_begin s else from0)
      in check_that (seqLess fromSeqNum (q_end s)) (AssertFailed ''setSackedBit: from'')
        (check_that (seqLess (q_begin s) toSeqNum \<and> seqLE toSeqNum (q_end s)) (AssertFailed ''setSackedBit: to'')
        (check_that (seqLess fromSeqNum toSeqNum) (AssertFailed ''setSackedBit: order'')
        (res_bind
           (if rexmitQueue s = [] then Inr []
            else
              case sack_from fromSeqNum (rexmitQueue s) of
                [] \<Rightarrow> Inl (AssertFailed ''setSackedBit: i != end'')
              | i # is \<Rightarrow>
                  check_that (region_has i fromSeqNum) (AssertFailed ''setSackedBit: region'')
                    (case sack_chunk fromSeqNum i of (chunk, i1) \<Rightarrow>
                       case mark_sacked toSeqNum fromSeqNum (i1 # is) of (marked, rest) \<Rightarrow>
                         Inr (sack_before fromSeqNum (rexmitQueue s) @ chunk @ marked @ sack_split toSeqNum rest)))
           (\<lambda>q. let s1 = s\<lparr>rexmitQueue := q\<rparr>
                in check_that (checkQueue s1) (AssertFailed ''setSackedBit: checkQueue'') (Inr s1))))))"

definition resetSackedBit :: "sack_queue \<Rightarrow> sack_queue" where
  "resetSackedBit s = s\<lparr>rexmitQueue := map (\<lambda>elem. elem\<lparr>sacked := False\<rparr>) (rexmitQueue s)\<rparr>"

definition resetRexmittedBit :: "sack_queue \<Rightarrow> sack_queue" where
  "resetRexmittedBit s = s\<lparr>rexmitQueue := map (\<lambda>elem. elem\<lparr>rexmitted := False\<rparr>) (rexmitQueue s)\<rparr>"

section \<open>Queries\<close>

definition getQueueLength :: "sack_queue \<Rightarrow> seqno" where
  "getQueueLength s = of_nat (length (rexmitQueue s))"

definition getSackedBit :: "seqno \<Rightarrow> sack_queue \<Rightarrow> bool res" where
  "getSackedBit seqNum s =
     check_that (seqLE (q_begin s) seqNum \<and> seqLE seqNum (q_end s)) (AssertFailed ''getSackedBit: range'')
       (if q_end s = seqNum then Inr False
        else case sack_from seqNum (rexmitQueue s) of
               [] \<Rightarrow> Inl (AssertFailed ''getSackedBit: i != end'')
             | i # is \<Rightarrow> check_that (region_has i seqNum) (AssertFailed ''getSackedBit: region'') (Inr (sacked i)))"

definition sack_highest :: "(region \<Rightarrow> bool) \<Rightarrow> sack_queue \<Rightarrow> seqno" where
  "sack_highest flag s = (case find flag (rev (rexmitQueue s)) of None \<Rightarrow> q_begin s | Some i \<Rightarrow> endSeqNum i)"

definition getHighestSackedSeqNum :: "sack_queue \<Rightarrow> seqno" where
  "getHighestSackedSeqNum s = sack_highest sacked s"

definition getHighestRexmittedSeqNum :: "sack_queue \<Rightarrow> seqno" where
  "getHighestRexmittedSeqNum s = sack_highest rexmitted s"

fun skip_bytes :: "seqno \<Rightarrow> seqno \<Rightarrow> region list \<Rightarrow> seqno res" where
  "skip_bytes bytes fromSeqNum [] = Inr bytes"
| "skip_bytes bytes fromSeqNum (i # is) =
     (if sacked i \<or> rexmitted i
      then check_that (region_has i fromSeqNum) (AssertFailed ''checkRexmitQueue: region'')
             (skip_bytes (bytes + (endSeqNum i - fromSeqNum)) (endSeqNum i) is)
      else Inr bytes)"

definition checkRexmitQueueForSackedOrRexmittedSegments :: "seqno \<Rightarrow> sack_queue \<Rightarrow> seqno res" where
  "checkRexmitQueueForSackedOrRexmittedSegments fromSeqNum s =
     check_that (seqLE (q_begin s) fromSeqNum \<and> seqLE fromSeqNum (q_end s)) (AssertFailed ''checkRexmitQueue: range'')
       (if rexmitQueue s = [] \<or> q_end s = fromSeqNum then Inr 0
        else skip_bytes 0 fromSeqNum (sack_from fromSeqNum (rexmitQueue s)))"

text \<open>\<open>bytes += (i->endSeqNum - i->beginSeqNum)\<close> for the sacked regions of a list\<close>

definition add_sacked :: "seqno \<Rightarrow> region \<Rightarrow> seqno" where
  "add_sacked bytes i = (if sacked i then bytes + (endSeqNum i - beginSeqNum i) else bytes)"

definition getTotalAmountOfSackedBytes :: "sack_queue \<Rightarrow> seqno" where
  "getTotalAmountOfSackedBytes s = foldl add_sacked 0 (rexmitQueue s)"

definition getAmountOfSackedBytes :: "seqno \<Rightarrow> sack_queue \<Rightarrow> seqno res" where
  "getAmountOfSackedBytes fromSeqNum s =
     check_that (seqLE (q_begin s) fromSeqNum \<and> seqLE fromSeqNum (q_end s)) (AssertFailed ''getAmountOfSackedBytes: range'')
       (let above = (\<lambda>i. seqLE fromSeqNum (beginSeqNum i));
            bytes = foldl add_sacked 0 (takeWhile above (rev (rexmitQueue s)))
        in Inr (case dropWhile above (rev (rexmitQueue s)) of
                  [] \<Rightarrow> bytes
                | i # is \<Rightarrow> if seqLess (beginSeqNum i) fromSeqNum \<and> seqLess fromSeqNum (endSeqNum i) \<and> sacked i
                            then bytes + (endSeqNum i - fromSeqNum) else bytes))"

definition count_runs :: "region list \<Rightarrow> seqno" where
  "count_runs q =
     fst (foldl (\<lambda>(counter, prevSacked) i. (if sacked i \<and> \<not> prevSacked then counter + 1 else counter, sacked i))
            (0, False) q)"

definition getNumOfDiscontiguousSacks :: "seqno \<Rightarrow> sack_queue \<Rightarrow> seqno res" where
  "getNumOfDiscontiguousSacks fromSeqNum s =
     check_that (seqLE (q_begin s) fromSeqNum \<and> seqLE fromSeqNum (q_end s)) (AssertFailed ''getNumOfDiscontiguousSacks: range'')
       (Inr (if rexmitQueue s = [] \<or> fromSeqNum = q_end s then 0
             else count_runs (sack_from fromSeqNum (rexmitQueue s))))"

definition checkSackBlock :: "seqno \<Rightarrow> sack_queue \<Rightarrow> (seqno \<times> bool \<times> bool) res" where
  "checkSackBlock fromSeqNum s =
     check_that (seqLE (q_begin s) fromSeqNum \<and> seqLess fromSeqNum (q_end s)) (AssertFailed ''checkSackBlock: range'')
       (case sack_from fromSeqNum (rexmitQueue s) of
          [] \<Rightarrow> Inl (AssertFailed ''checkSackBlock: i != end'')
        | i # is \<Rightarrow> check_that (region_has i fromSeqNum) (AssertFailed ''checkSackBlock: region'')
                      (Inr (endSeqNum i - fromSeqNum, sacked i, rexmitted i)))"

end
