(* ===== verification/TcpSackProofs.thy ===== *)
theory TcpSackProofs
  imports TcpSack
begin

text \<open>
  The byte view of the retransmission queue. A valid queue is a gap-free list of regions at offsets from
  its first byte, and the flags of its bytes are one list; every update changes that list as a plain
  operation on lists does.
\<close>

section \<open>Sequence numbers near a base\<close>

abbreviation seq_half :: nat where
  "seq_half \<equiv> 2147483648"

definition seq_at :: "seqno \<Rightarrow> nat \<Rightarrow> seqno" where
  "seq_at b n = b + of_nat n"

named_theorems seq_at_simps "sequence numbers at offsets below half of the space"

lemma seq_at_0 [simp]: "seq_at b 0 = b"
  by (simp add: seq_at_def)

lemma seq_at_diff: "m \<le> n \<Longrightarrow> seq_at b n - seq_at b m = of_nat (n - m)"
  by (simp add: seq_at_def of_nat_diff)

lemma unat_small: "d < seq_half \<Longrightarrow> unat (of_nat d :: seqno) = d"
  by (simp add: unat_of_nat take_bit_nat_eq_self)

lemma unat_seq_at_diff [seq_at_simps]: "m \<le> n \<Longrightarrow> n < seq_half \<Longrightarrow> unat (seq_at b n - seq_at b m) = n - m"
  using seq_at_diff[of m n b] unat_small[of "n - m"] by simp

lemma seq_diff_less: "(x :: seqno) < 0x80000000 \<longleftrightarrow> unat x < seq_half"
  by (simp add: word_less_nat_alt)

lemma seqLE_at [seq_at_simps]:
  assumes "m < seq_half" "n < seq_half"
  shows "seqLE (seq_at b m) (seq_at b n) \<longleftrightarrow> m \<le> n"
proof (cases "m \<le> n")
  case True
  with assms show ?thesis by (simp add: seqLE_def seq_diff_less unat_seq_at_diff)
next
  case False
  have "seq_at b n - seq_at b m = - of_nat (m - n)"
    using seq_at_diff[of n m b] False by (metis minus_diff_eq nle_le)
  moreover have "unat (of_nat (m - n) :: seqno) = m - n"
    using assms unat_small[of "m - n"] by simp
  moreover have "m - n < seq_half" "0 < m - n" using assms False by auto
  ultimately have "unat (seq_at b n - seq_at b m) = 4294967296 - (m - n)"
    using unat_sub_if'[of "0 :: seqno" "of_nat (m - n)"] by (simp del: of_nat_diff)
  with \<open>m - n < seq_half\<close> False show ?thesis by (simp add: seqLE_def seq_diff_less)
qed

lemma seq_at_eq [seq_at_simps]:
  assumes "m < seq_half" "n < seq_half"
  shows "seq_at b m = seq_at b n \<longleftrightarrow> m = n"
proof
  assume "seq_at b m = seq_at b n"
  then have "seqLE (seq_at b m) (seq_at b n)" "seqLE (seq_at b n) (seq_at b m)" by (simp_all add: seqLE_def)
  with seqLE_at[OF assms] seqLE_at[OF assms(2,1)] show "m = n" by simp
qed simp

lemma seqLess_at [seq_at_simps]:
  "m < seq_half \<Longrightarrow> n < seq_half \<Longrightarrow> seqLess (seq_at b m) (seq_at b n) \<longleftrightarrow> m < n"
  using seqLE_at[of m n b] seq_at_eq[of m n b] by (auto simp: seqLess_def seqLE_def)

lemma seqGE_at [seq_at_simps]:
  "m < seq_half \<Longrightarrow> n < seq_half \<Longrightarrow> seqGE (seq_at b m) (seq_at b n) \<longleftrightarrow> n \<le> m"
  using seqLE_at[of n m b] by (simp add: seqGE_def seqLE_def)

lemma seq_at_unat: "seq_at b (unat (x - b)) = x"
  by (simp add: seq_at_def)

lemma seq_base_cmp:
  "n < seq_half \<Longrightarrow> seqLE b (seq_at b n)" "n < seq_half \<Longrightarrow> seqLess b (seq_at b n) \<longleftrightarrow> 0 < n"
  using seqLE_at[of 0 n b] seqLess_at[of 0 n b] by auto

section \<open>Regions at offsets\<close>

fun sack_at :: "seqno \<Rightarrow> nat \<Rightarrow> region list \<Rightarrow> nat \<Rightarrow> bool" where
  "sack_at b k [] n = (k = n)"
| "sack_at b k (r # rs) n =
     (\<exists>m. k < m \<and> beginSeqNum r = seq_at b k \<and> endSeqNum r = seq_at b m \<and> sack_at b m rs n)"

definition region_bits :: "region \<Rightarrow> (bool \<times> bool) list" where
  "region_bits r = replicate (unat (endSeqNum r - beginSeqNum r)) (sacked r, rexmitted r)"

definition sack_bits :: "region list \<Rightarrow> (bool \<times> bool) list" where
  "sack_bits q = concat (map region_bits q)"

lemma sack_bits_simps [simp]:
  "sack_bits [] = []" "sack_bits (r # rs) = region_bits r @ sack_bits rs"
  "sack_bits (xs @ ys) = sack_bits xs @ sack_bits ys"
  by (simp_all add: sack_bits_def)

lemma sack_at_append: "sack_at b k (xs @ ys) n \<longleftrightarrow> (\<exists>m. sack_at b k xs m \<and> sack_at b m ys n)"
  by (induction xs arbitrary: k) auto

lemma sack_at_le: "sack_at b k q n \<Longrightarrow> k \<le> n"
  by (induction q arbitrary: k) (auto dest: less_imp_le_nat intro: order_trans)

lemma sack_at_less: "sack_at b k q n \<Longrightarrow> q \<noteq> [] \<Longrightarrow> k < n"
  using sack_at_le by (cases q) (auto intro: order.strict_trans2)

lemma sack_at_ends:
  "sack_at b k q n \<Longrightarrow> q \<noteq> [] \<Longrightarrow> beginSeqNum (hd q) = seq_at b k \<and> endSeqNum (last q) = seq_at b n"
proof (induction q arbitrary: k)
  case Nil
  then show ?case by simp
next
  case (Cons r rs)
  then obtain m where "beginSeqNum r = seq_at b k" "endSeqNum r = seq_at b m" "sack_at b m rs n" by auto
  with Cons.IH show ?case by (cases "rs = []") auto
qed

lemma region_bits_at:
  "beginSeqNum r = seq_at b k \<Longrightarrow> endSeqNum r = seq_at b m \<Longrightarrow> k \<le> m \<Longrightarrow> m < seq_half \<Longrightarrow>
   region_bits r = replicate (m - k) (sacked r, rexmitted r)"
  by (simp add: region_bits_def seq_at_simps)

lemma sack_bits_length: "sack_at b k q n \<Longrightarrow> n < seq_half \<Longrightarrow> length (sack_bits q) = n - k"
proof (induction q arbitrary: k)
  case Nil
  then show ?case by simp
next
  case (Cons r rs)
  then obtain m where m: "k < m" "beginSeqNum r = seq_at b k" "endSeqNum r = seq_at b m" "sack_at b m rs n" by auto
  with sack_at_le[OF m(4)] Cons.prems(2) region_bits_at[OF m(2,3)] Cons.IH[OF m(4)] show ?case by simp
qed

section \<open>The check of the code\<close>

fun sack_chain :: "seqno \<Rightarrow> region list \<Rightarrow> seqno \<Rightarrow> bool" where
  "sack_chain b [] e = (b = e)"
| "sack_chain b (r # rs) e = (b = beginSeqNum r \<and> seqLess (beginSeqNum r) (endSeqNum r) \<and> sack_chain (endSeqNum r) rs e)"

lemma checkQueue_chain: "checkQueue s = sack_chain (q_begin s) (rexmitQueue s) (q_end s)"
proof -
  let ?f = "\<lambda>(b, f) elem. (endSeqNum elem, f \<and> b = beginSeqNum elem \<and> seqLess (beginSeqNum elem) (endSeqNum elem))"
  have "snd (foldl ?f (b, f) q) \<and> fst (foldl ?f (b, f) q) = e \<longleftrightarrow> f \<and> sack_chain b q e" for b f q e
    by (induction q arbitrary: b f) auto
  then show ?thesis by (auto simp: checkQueue_def case_prod_unfold)
qed

lemma sack_chain_append: "sack_chain b (xs @ ys) e \<longleftrightarrow> (\<exists>m. sack_chain b xs m \<and> sack_chain m ys e)"
  by (induction xs arbitrary: b) auto

lemma sack_chain_det: "sack_chain b q e \<Longrightarrow> sack_chain b q e' \<Longrightarrow> e = e'"
  by (induction q arbitrary: b) auto

lemma sack_at_chain: "sack_at b k q n \<Longrightarrow> n < seq_half \<Longrightarrow> sack_chain (seq_at b k) q (seq_at b n)"
proof (induction q arbitrary: k)
  case Nil
  then show ?case by simp
next
  case (Cons r rs)
  then obtain m where m: "k < m" "beginSeqNum r = seq_at b k" "endSeqNum r = seq_at b m" "sack_at b m rs n" by auto
  with sack_at_le[OF m(4)] Cons show ?case by (simp add: seq_at_simps)
qed

lemma sack_chain_at:
  "sack_chain (seq_at b k) q e \<Longrightarrow>
   sack_at b k q (k + length (sack_bits q)) \<and> e = seq_at b (k + length (sack_bits q))"
proof (induction q arbitrary: k)
  case Nil
  then show ?case by simp
next
  case (Cons r rs)
  let ?d = "unat (endSeqNum r - beginSeqNum r)"
  have b: "beginSeqNum r = seq_at b k" using Cons.prems by simp
  then have "endSeqNum r = seq_at b k + of_nat ?d" by simp
  then have r: "beginSeqNum r = seq_at b k" "endSeqNum r = seq_at b (k + ?d)" "0 < ?d"
    using b Cons.prems by (auto simp: seqLess_def seq_at_def unat_gt_0 add.assoc)
  from Cons.prems r(2) have "sack_chain (seq_at b (k + ?d)) rs e" by simp
  from Cons.IH[OF this] have
    "sack_at b (k + ?d) rs (k + length (sack_bits (r # rs)))" "e = seq_at b (k + length (sack_bits (r # rs)))"
    by (simp_all add: region_bits_def add.assoc)
  with r show ?case unfolding sack_at.simps by (metis less_add_same_cancel1)
qed

text \<open>A valid queue: the check holds and fewer than 2^31 bytes are outstanding.\<close>

definition sack_ok :: "sack_queue \<Rightarrow> bool" where
  "sack_ok s \<longleftrightarrow> checkQueue s \<and> length (sack_bits (rexmitQueue s)) < seq_half"

lemma sack_okD:
  assumes "sack_ok s"
  shows "sack_at (q_begin s) 0 (rexmitQueue s) (length (sack_bits (rexmitQueue s)))"
    "q_end s = seq_at (q_begin s) (length (sack_bits (rexmitQueue s)))"
  using assms sack_chain_at[of "q_begin s" 0 "rexmitQueue s" "q_end s"]
  by (auto simp: sack_ok_def checkQueue_chain)

lemma sack_okI:
  assumes "sack_at b k (rexmitQueue s) n" and "n < seq_half"
    and "q_begin s = seq_at b k" and "q_end s = seq_at b n"
  shows "checkQueue s" "sack_ok s"
  using assms sack_at_chain[OF assms(1,2)] sack_bits_length[OF assms(1,2)]
  by (auto simp: sack_ok_def checkQueue_chain)

section \<open>Cutting a queue at an offset\<close>

lemma sack_cut_all:
  assumes "sack_at b k q n" and "n \<le> t" and "t < seq_half"
  shows "sack_before (seq_at b t) q = q" "sack_from (seq_at b t) q = []"
proof -
  have "\<forall>r \<in> set q. seqLE (endSeqNum r) (seq_at b t)"
    using assms(1)
  proof (induction q arbitrary: k)
    case Nil
    then show ?case by simp
  next
    case (Cons r rs)
    then obtain m where m: "endSeqNum r = seq_at b m" "sack_at b m rs n" by auto
    with sack_at_le[OF m(2)] Cons.IH[OF m(2)] assms(2,3) show ?case by (simp add: seq_at_simps)
  qed
  then show "sack_before (seq_at b t) q = q" "sack_from (seq_at b t) q = []"
    by (simp_all add: sack_before_def sack_from_def)
qed

lemma sack_cut:
  assumes "sack_at b k q n" and "k \<le> t" and "t < n" and "n < seq_half"
  obtains r rs m m2 where "sack_from (seq_at b t) q = r # rs" and "q = sack_before (seq_at b t) q @ r # rs"
    and "sack_at b k (sack_before (seq_at b t) q) m" and "m \<le> t" and "t < m2" and "m2 \<le> n"
    and "beginSeqNum r = seq_at b m" and "endSeqNum r = seq_at b m2" and "sack_at b m2 rs n"
proof -
  from assms have "\<exists>r rs m m2. sack_from (seq_at b t) q = r # rs \<and> q = sack_before (seq_at b t) q @ r # rs \<and>
      sack_at b k (sack_before (seq_at b t) q) m \<and> m \<le> t \<and> t < m2 \<and> m2 \<le> n \<and>
      beginSeqNum r = seq_at b m \<and> endSeqNum r = seq_at b m2 \<and> sack_at b m2 rs n"
  proof (induction q arbitrary: k)
    case Nil
    then show ?case by simp
  next
    case (Cons r rs)
    then obtain m where m: "k < m" "beginSeqNum r = seq_at b k" "endSeqNum r = seq_at b m" "sack_at b m rs n" by auto
    have le: "m \<le> n" by (rule sack_at_le[OF m(4)])
    show ?case
    proof (cases "m \<le> t")
      case True
      then have c: "seqLE (endSeqNum r) (seq_at b t)" using m le Cons.prems by (simp add: seq_at_simps)
      from Cons.IH[OF m(4) True Cons.prems(3,4)] show ?thesis
        using c m by (auto simp: sack_before_def sack_from_def)
    next
      case False
      then have c: "\<not> seqLE (endSeqNum r) (seq_at b t)" using m le Cons.prems by (simp add: seq_at_simps)
      then have "sack_before (seq_at b t) (r # rs) = []" "sack_from (seq_at b t) (r # rs) = r # rs"
        by (simp_all add: sack_before_def sack_from_def)
      with False m le Cons.prems show ?thesis
        by (intro exI[of _ r] exI[of _ rs] exI[of _ k] exI[of _ m]) simp
    qed
  qed
  with that show ?thesis by blast
qed

text \<open>The region at the start of an update, after it is split.\<close>

lemma sack_open:
  assumes "sack_at b 0 q n" and "k < n" and "n < seq_half"
  obtains i rs c i1 where "sack_from (seq_at b k) q = i # rs" and "region_has i (seq_at b k)"
    and "sack_chunk (seq_at b k) i = (c, i1)" and "i1 = i\<lparr>beginSeqNum := seq_at b k\<rparr>"
    and "sack_at b 0 (sack_before (seq_at b k) q @ c) k" and "sack_at b k (i1 # rs) n"
    and "sack_bits (sack_before (seq_at b k) q @ c) = take k (sack_bits q)"
    and "sack_bits (i1 # rs) = drop k (sack_bits q)"
proof -
  from sack_cut[OF assms(1) _ assms(2,3)] obtain r rs m m2 where
    f: "sack_from (seq_at b k) q = r # rs" and q: "q = sack_before (seq_at b k) q @ r # rs"
    and at: "sack_at b 0 (sack_before (seq_at b k) q) m" and m: "m \<le> k" "k < m2" "m2 \<le> n"
    and r: "beginSeqNum r = seq_at b m" "endSeqNum r = seq_at b m2" and rs: "sack_at b m2 rs n"
    by (metis zero_le)
  let ?xs = "sack_before (seq_at b k) q" and ?i = "r\<lparr>beginSeqNum := seq_at b k\<rparr>"
  let ?c = "if m = k then [] else [r\<lparr>endSeqNum := seq_at b k\<rparr>]"
  have bounds: "m < seq_half" "k < seq_half" "m2 < seq_half" using m assms(3) by auto
  have chunk: "sack_chunk (seq_at b k) r = (?c, ?i)"
    using r(1) bounds by (auto simp: sack_chunk_def seq_at_simps)
  have lx: "length (sack_bits ?xs) = m" using sack_bits_length[OF at] bounds by simp
  have rb: "region_bits r = replicate (m2 - m) (sacked r, rexmitted r)"
    using region_bits_at[OF r] m bounds by simp
  have ib: "region_bits ?i = replicate (m2 - k) (sacked r, rexmitted r)"
    using region_bits_at[of ?i b k m2] r m bounds by simp
  have cb: "sack_bits ?c = replicate (k - m) (sacked r, rexmitted r)"
    using region_bits_at[of "r\<lparr>endSeqNum := seq_at b k\<rparr>" b m k] r m bounds by simp
  have B: "sack_bits q = sack_bits ?xs @ replicate (m2 - m) (sacked r, rexmitted r) @ sack_bits rs"
    using q rb by (metis sack_bits_simps(2,3))
  show ?thesis
  proof (rule that[OF f _ chunk])
    show "region_has r (seq_at b k)" using r m bounds by (simp add: region_has_def seq_at_simps)
    show "sack_at b 0 (?xs @ ?c) k"
      using at r m by (auto simp: sack_at_append)
    show "sack_at b k (?i # rs) n" using r m rs by auto
    show "sack_bits (?xs @ ?c) = take k (sack_bits q)"
      using m lx cb by (simp add: B min_def)
    show "sack_bits (?i # rs) = drop k (sack_bits q)"
      using m lx ib by (simp add: B)
  qed simp
qed

text \<open>The region in which an update ends.\<close>

lemma sack_close:
  assumes "sack_at b k q n" and "k \<le> t" and "t < n" and "n < seq_half"
  obtains r rs m m2 where "sack_from (seq_at b t) q = r # rs"
    and "sack_at b k (sack_before (seq_at b t) q) m" and "k \<le> m" and "m \<le> t" and "t < m2" and "m2 \<le> n"
    and "beginSeqNum r = seq_at b m" and "endSeqNum r = seq_at b m2" and "sack_at b m2 rs n"
    and "take (t - k) (sack_bits q) =
      sack_bits (sack_before (seq_at b t) q) @ replicate (t - m) (sacked r, rexmitted r)"
    and "drop (t - k) (sack_bits q) = replicate (m2 - t) (sacked r, rexmitted r) @ sack_bits rs"
proof -
  from sack_cut[OF assms] obtain r rs m m2 where
    f: "sack_from (seq_at b t) q = r # rs" and q: "q = sack_before (seq_at b t) q @ r # rs"
    and at: "sack_at b k (sack_before (seq_at b t) q) m" and m: "m \<le> t" "t < m2" "m2 \<le> n"
    and r: "beginSeqNum r = seq_at b m" "endSeqNum r = seq_at b m2" and rs: "sack_at b m2 rs n" .
  let ?xs = "sack_before (seq_at b t) q"
  have km: "k \<le> m" by (rule sack_at_le[OF at])
  have lx: "length (sack_bits ?xs) = m - k" using sack_bits_length[OF at] m assms(4) by simp
  have rb: "region_bits r = replicate (m2 - m) (sacked r, rexmitted r)"
    using region_bits_at[OF r] m assms(4) by simp
  have B: "sack_bits q = sack_bits ?xs @ replicate (m2 - m) (sacked r, rexmitted r) @ sack_bits rs"
    using q rb by (metis sack_bits_simps(2,3))
  show ?thesis
  proof (rule that[OF f at km m r rs])
    show "take (t - k) (sack_bits q) = sack_bits ?xs @ replicate (t - m) (sacked r, rexmitted r)"
      using m km lx by (simp add: B min_def)
    show "drop (t - k) (sack_bits q) = replicate (m2 - t) (sacked r, rexmitted r) @ sack_bits rs"
      using m km lx by (simp add: B)
  qed
qed

end
