(* ===== verification/TcpSackProps.thy ===== *)
theory TcpSackProps
  imports TcpSackProofs
begin

text \<open>
  The retransmission queue implements a list of flags, one pair for each outstanding byte: every update
  in a run of a sender with fewer than 2^31 outstanding bytes passes all assertions of the code and
  changes the list as the specification says, and every query answers from the list alone.
\<close>

section \<open>The specification\<close>

type_synonym byte_flags = "(bool \<times> bool) list"

datatype sack_op =
    Discard seqno
  | Send seqno seqno
  | Sack seqno seqno
  | ResetSacked
  | ResetRexmitted

text \<open>Mark the bytes from \<open>k\<close> to \<open>t\<close>.\<close>

definition mark_bytes :: "(bool \<times> bool \<Rightarrow> bool \<times> bool) \<Rightarrow> nat \<Rightarrow> nat \<Rightarrow> byte_flags \<Rightarrow> byte_flags" where
  "mark_bytes f k t bs = take k bs @ map f (take (t - k) (drop k bs)) @ drop t bs"

definition set_sacked :: "bool \<times> bool \<Rightarrow> bool \<times> bool" where
  "set_sacked x = (True, snd x)"

definition set_rexmitted :: "bool \<times> bool \<Rightarrow> bool \<times> bool" where
  "set_rexmitted x = (fst x, True)"

text \<open>The first byte of a selective acknowledgement, which may start below the queue.\<close>

definition sack_start :: "seqno \<Rightarrow> seqno \<Rightarrow> nat" where
  "sack_start b f = (if seqLess f b then 0 else unat (f - b))"

fun spec_valid :: "sack_op \<Rightarrow> seqno \<times> byte_flags \<Rightarrow> bool" where
  "spec_valid (Discard n) (b, bs) = (unat (n - b) \<le> length bs)"
| "spec_valid (Send f t) (b, bs) =
     (unat (f - b) \<le> length bs \<and> unat (f - b) < unat (t - b) \<and> unat (t - b) < seq_half)"
| "spec_valid (Sack f t) (b, bs) = (sack_start b f < unat (t - b) \<and> unat (t - b) \<le> length bs)"
| "spec_valid ResetSacked (b, bs) = True"
| "spec_valid ResetRexmitted (b, bs) = True"

text \<open>Bytes that were not sent before are new; the others are retransmitted.\<close>

fun spec_apply :: "sack_op \<Rightarrow> seqno \<times> byte_flags \<Rightarrow> seqno \<times> byte_flags" where
  "spec_apply (Discard n) (b, bs) = (n, drop (unat (n - b)) bs)"
| "spec_apply (Send f t) (b, bs) =
     (b, mark_bytes set_rexmitted (unat (f - b)) (unat (t - b)) bs @
         replicate (unat (t - b) - length bs) (False, False))"
| "spec_apply (Sack f t) (b, bs) = (b, mark_bytes set_sacked (sack_start b f) (unat (t - b)) bs)"
| "spec_apply ResetSacked (b, bs) = (b, map (\<lambda>x. (False, snd x)) bs)"
| "spec_apply ResetRexmitted (b, bs) = (b, map (\<lambda>x. (fst x, False)) bs)"

fun spec_run :: "seqno \<times> byte_flags \<Rightarrow> sack_op list \<Rightarrow> (seqno \<times> byte_flags) option" where
  "spec_run a [] = Some a"
| "spec_run a (x # xs) = (if spec_valid x a then spec_run (spec_apply x a) xs else None)"

fun sack_apply :: "sack_queue \<Rightarrow> sack_op \<Rightarrow> sack_queue res" where
  "sack_apply s (Discard n) = discardUpTo n s"
| "sack_apply s (Send f t) = enqueueSentData f t s"
| "sack_apply s (Sack f t) = setSackedBit f t s"
| "sack_apply s ResetSacked = Inr (resetSackedBit s)"
| "sack_apply s ResetRexmitted = Inr (resetRexmittedBit s)"

definition sack_abs :: "sack_queue \<Rightarrow> seqno \<times> byte_flags" where
  "sack_abs s = (q_begin s, sack_bits (rexmitQueue s))"

text \<open>A queue represents a list of flags from a sequence number on.\<close>

definition sack_rep :: "sack_queue \<Rightarrow> seqno \<Rightarrow> byte_flags \<Rightarrow> bool" where
  "sack_rep s b bs \<longleftrightarrow>
     sack_at b 0 (rexmitQueue s) (length bs) \<and> length bs < seq_half \<and>
     sack_bits (rexmitQueue s) = bs \<and> q_begin s = b \<and> q_end s = seq_at b (length bs)"

lemma sack_ok_rep: "sack_ok s \<longleftrightarrow> sack_rep s (q_begin s) (sack_bits (rexmitQueue s))"
  using sack_okD[of s] sack_okI(2)[of "q_begin s" 0 s "length (sack_bits (rexmitQueue s))"]
  by (auto simp: sack_rep_def sack_ok_def)

lemma sack_repI:
  assumes "sack_at b k (rexmitQueue s) n" and "n < seq_half" and "q_begin s = seq_at b k" and "q_end s = seq_at b n"
    and "sack_bits (rexmitQueue s) = bs"
  shows "checkQueue s \<and> sack_rep s (seq_at b k) bs"
  using sack_okI[OF assms(1-4)] assms(3,5) sack_ok_rep[of s] by simp

lemma sack_rep_in_range:
  assumes "sack_rep s b bs" and "k \<le> length bs"
  shows "seqLE (q_begin s) (seq_at b k) \<and> seqLE (seq_at b k) (q_end s)"
  using assms seqLE_at[of 0 k b] by (auto simp: sack_rep_def seq_at_simps)

section \<open>Updates\<close>

lemma discard_rep:
  assumes "sack_rep s b bs" and "k \<le> length bs"
  shows "\<exists>s'. discardUpTo (seq_at b k) s = Inr s' \<and> sack_rep s' (seq_at b k) (drop k bs)"
proof -
  let ?n = "length bs" and ?q = "rexmitQueue s"
  from assms(1) have at: "sack_at b 0 ?q ?n" and n: "?n < seq_half" and bs: "sack_bits ?q = bs"
    and e: "q_end s = seq_at b ?n" by (auto simp: sack_rep_def)
  note range = sack_rep_in_range[OF assms]
  show ?thesis
  proof (cases "k = ?n")
    case True
    let ?s = "s\<lparr>rexmitQueue := [], q_begin := seq_at b k\<rparr>"
    have "checkQueue ?s \<and> sack_rep ?s (seq_at b k) (drop k bs)"
      by (rule sack_repI[where n = ?n]) (use True n e in auto)
    with range sack_cut_all(2)[OF at _ n] True show ?thesis by (auto simp: discardUpTo_def Let_def)
  next
    case False
    with assms(2) have k: "k < ?n" by simp
    obtain i rs c i1 where o: "sack_from (seq_at b k) ?q = i # rs" "region_has i (seq_at b k)"
      "i1 = i\<lparr>beginSeqNum := seq_at b k\<rparr>" "sack_at b k (i1 # rs) ?n" "sack_bits (i1 # rs) = drop k (sack_bits ?q)"
      by (rule sack_open[OF at k n])
    let ?s = "s\<lparr>rexmitQueue := i1 # rs, q_begin := seq_at b k\<rparr>"
    have "checkQueue ?s \<and> sack_rep ?s (seq_at b k) (drop k bs)"
      by (rule sack_repI[where n = ?n]) (use o n e bs in auto)
    with range o show ?thesis by (auto simp: discardUpTo_def Let_def)
  qed
qed

lemma mark_rexmitted_eq:
  "mark_rexmitted t f q = (map (\<lambda>i. i\<lparr>rexmitted := True\<rparr>) (sack_before t q),
     if sack_before t q = [] then f else endSeqNum (last (sack_before t q)), sack_from t q)"
  by (induction q arbitrary: f) (auto simp: sack_before_def sack_from_def)

lemma mark_sacked_eq:
  "\<forall>i \<in> set q. seqGE (beginSeqNum i) f \<Longrightarrow>
   mark_sacked t f q = (map (\<lambda>i. i\<lparr>sacked := True\<rparr>) (sack_before t q), sack_from t q)"
  by (induction q) (auto simp: sack_before_def sack_from_def)

lemma sack_at_all_ge: "sack_at b k q n \<Longrightarrow> n < seq_half \<Longrightarrow> \<forall>i \<in> set q. seqGE (beginSeqNum i) (seq_at b k)"
proof -
  have "sack_at b m q n \<Longrightarrow> n < seq_half \<Longrightarrow> k \<le> m \<Longrightarrow> \<forall>i \<in> set q. seqGE (beginSeqNum i) (seq_at b k)" for m
    by (induction q arbitrary: m) (auto simp: seqGE_at dest: sack_at_le)
  then show "sack_at b k q n \<Longrightarrow> n < seq_half \<Longrightarrow> ?thesis" by blast
qed

lemma sack_at_flags [simp]:
  "sack_at b k (map (\<lambda>i. i\<lparr>sacked := x\<rparr>) q) n = sack_at b k q n"
  "sack_at b k (map (\<lambda>i. i\<lparr>rexmitted := x\<rparr>) q) n = sack_at b k q n"
  by (induction q arbitrary: k) auto

lemma sack_bits_flags [simp]:
  "sack_bits (map (\<lambda>i. i\<lparr>sacked := x\<rparr>) q) = map (\<lambda>y. (x, snd y)) (sack_bits q)"
  "sack_bits (map (\<lambda>i. i\<lparr>rexmitted := x\<rparr>) q) = map (\<lambda>y. (fst y, x)) (sack_bits q)"
  by (induction q) (auto simp: region_bits_def)

lemma set_flag_map: "set_sacked = (\<lambda>y. (True, snd y))" "set_rexmitted = (\<lambda>y. (fst y, True))"
  by (auto simp: set_sacked_def set_rexmitted_def)

lemma sack_at_Cons:
  "k < m \<Longrightarrow> beginSeqNum r = seq_at b k \<Longrightarrow> endSeqNum r = seq_at b m \<Longrightarrow> sack_at b m rs n \<Longrightarrow> sack_at b k (r # rs) n"
  by auto

lemma region_bits_range:
  "k \<le> m \<Longrightarrow> m < seq_half \<Longrightarrow>
   region_bits \<lparr>beginSeqNum = seq_at b k, endSeqNum = seq_at b m, sacked = x, rexmitted = y\<rparr> = replicate (m - k) (x, y)"
  by (simp add: region_bits_at)

text \<open>The marking loop with the region behind it, from offset \<open>k\<close> to \<open>t\<close>.\<close>

lemma send_marks:
  assumes at: "sack_at b k q n" and "q \<noteq> []" and "k < t" and "t < seq_half" and "n < seq_half"
  shows "\<exists>marked f rest rest1. mark_rexmitted (seq_at b t) (seq_at b k) q = (marked, f, rest) \<and>
    sack_rest f (seq_at b t) rest = Inr rest1 \<and> (marked \<noteq> [] \<or> f \<noteq> seq_at b t) \<and>
    sack_at b k (marked @ rest1) (max t n) \<and>
    sack_bits (marked @ rest1) =
      map set_rexmitted (take (t - k) (sack_bits q)) @ drop (t - k) (sack_bits q) @ replicate (t - n) (False, False)"
proof (cases "t < n")
  case False
  note cut = sack_cut_all[OF at, where t = t]
  have l: "length (sack_bits q) = n - k" by (rule sack_bits_length[OF at assms(5)])
  have "endSeqNum (last q) = seq_at b n" using sack_at_ends[OF at assms(2)] by simp
  with False assms cut l show ?thesis
    by (auto simp: mark_rexmitted_eq sack_rest_def seq_at_simps sack_at_append set_flag_map region_bits_range max_def)
next
  case True
  from sack_close[OF at less_imp_le[OF assms(3)] True assms(5)] obtain r rs m m2 where
    c: "sack_from (seq_at b t) q = r # rs" "sack_at b k (sack_before (seq_at b t) q) m"
    and m: "k \<le> m" "m \<le> t" "t < m2" "m2 \<le> n"
    and r: "beginSeqNum r = seq_at b m" "endSeqNum r = seq_at b m2" and rs: "sack_at b m2 rs n"
    and bits: "take (t - k) (sack_bits q) =
      sack_bits (sack_before (seq_at b t) q) @ replicate (t - m) (sacked r, rexmitted r)"
      "drop (t - k) (sack_bits q) = replicate (m2 - t) (sacked r, rexmitted r) @ sack_bits rs" .
  let ?xs = "sack_before (seq_at b t) q"
  have f: "(if ?xs = [] then seq_at b k else endSeqNum (last ?xs)) = seq_at b m"
    using c(2) sack_at_ends[OF c(2)] by auto
  have ne: "?xs \<noteq> [] \<or> seq_at b m \<noteq> seq_at b t"
    using c(2) m assms by (cases "?xs = []") (auto simp: seq_at_simps)
  have rb: "region_bits (r\<lparr>beginSeqNum := seq_at b t\<rparr>) = replicate (m2 - t) (sacked r, rexmitted r)"
    using region_bits_at[of "r\<lparr>beginSeqNum := seq_at b t\<rparr>" b t m2] r m assms(5) by simp
  have rb0: "m = t \<Longrightarrow> region_bits r = replicate (m2 - t) (sacked r, rexmitted r)"
    using region_bits_at[OF r] m assms(5) by simp
  have "\<exists>rest1. sack_rest (seq_at b m) (seq_at b t) (r # rs) = Inr rest1 \<and> sack_at b m rest1 n \<and>
      sack_bits rest1 = replicate (t - m) (sacked r, True) @ replicate (m2 - t) (sacked r, rexmitted r) @ sack_bits rs"
  proof (cases "m = t")
    case True
    with r m rs rb0 show ?thesis by (auto simp: sack_rest_def intro: sack_at_Cons)
  next
    case False
    with m have "m < t" by simp
    with r m rs rb assms show ?thesis
      by (auto simp: sack_rest_def seq_at_simps region_bits_range intro!: sack_at_Cons[of m t] sack_at_Cons[of t m2])
  qed
  then obtain rest1 where "sack_rest (seq_at b m) (seq_at b t) (r # rs) = Inr rest1" "sack_at b m rest1 n"
    "sack_bits rest1 = replicate (t - m) (sacked r, True) @ replicate (m2 - t) (sacked r, rexmitted r) @ sack_bits rs"
    by blast
  with c(2) ne True show ?thesis
    unfolding mark_rexmitted_eq f bits c(1)
    by (auto simp: sack_at_append set_flag_map max_def)
qed

lemma sack_marks:
  assumes at: "sack_at b k q n" and "k < t" and "t \<le> n" and "n < seq_half"
  shows "\<exists>marked rest. mark_sacked (seq_at b t) (seq_at b k) q = (marked, rest) \<and>
    sack_at b k (marked @ sack_split (seq_at b t) rest) n \<and>
    sack_bits (marked @ sack_split (seq_at b t) rest) =
      map set_sacked (take (t - k) (sack_bits q)) @ drop (t - k) (sack_bits q)"
proof (cases "t < n")
  case False
  with assms have "t = n" by simp
  with assms sack_cut_all[OF at, where t = t] sack_bits_length[OF at] mark_sacked_eq[OF sack_at_all_ge[OF at assms(4)]]
  show ?thesis by (simp add: sack_split_def set_flag_map)
next
  case True
  from sack_close[OF at less_imp_le[OF assms(2)] True assms(4)] obtain r rs m m2 where
    c: "sack_from (seq_at b t) q = r # rs" "sack_at b k (sack_before (seq_at b t) q) m"
    and m: "k \<le> m" "m \<le> t" "t < m2" "m2 \<le> n"
    and r: "beginSeqNum r = seq_at b m" "endSeqNum r = seq_at b m2" and rs: "sack_at b m2 rs n"
    and bits: "take (t - k) (sack_bits q) =
      sack_bits (sack_before (seq_at b t) q) @ replicate (t - m) (sacked r, rexmitted r)"
      "drop (t - k) (sack_bits q) = replicate (m2 - t) (sacked r, rexmitted r) @ sack_bits rs" .
  have rb: "region_bits (r\<lparr>beginSeqNum := seq_at b t\<rparr>) = replicate (m2 - t) (sacked r, rexmitted r)"
    using region_bits_at[of "r\<lparr>beginSeqNum := seq_at b t\<rparr>" b t m2] r m assms(4) by simp
  have rb1: "region_bits (r\<lparr>endSeqNum := seq_at b t, sacked := True\<rparr>) = replicate (t - m) (True, rexmitted r)"
    using region_bits_at[of "r\<lparr>endSeqNum := seq_at b t, sacked := True\<rparr>" b m t] r m assms(4) by simp
  have rb0: "m = t \<Longrightarrow> region_bits r = replicate (m2 - t) (sacked r, rexmitted r)"
    using region_bits_at[OF r] m assms(4) by simp
  have "sack_at b m (sack_split (seq_at b t) (r # rs)) n \<and> sack_bits (sack_split (seq_at b t) (r # rs)) =
      replicate (t - m) (True, rexmitted r) @ replicate (m2 - t) (sacked r, rexmitted r) @ sack_bits rs"
  proof (cases "m = t")
    case True
    with r m rs rb0 assms show ?thesis by (auto simp: sack_split_def seq_at_simps intro: sack_at_Cons)
  next
    case False
    with m have "m < t" by simp
    with r m rs rb rb1 assms show ?thesis
      by (auto simp: sack_split_def seq_at_simps intro!: sack_at_Cons[of m t] sack_at_Cons[of t m2])
  qed
  with c(2) show ?thesis
    unfolding mark_sacked_eq[OF sack_at_all_ge[OF at assms(4)]] bits c(1)
    by (auto simp: sack_at_append set_flag_map)
qed

lemma send_rep:
  assumes rep: "sack_rep s b bs" and k: "k \<le> length bs" and t: "k < t" "t < seq_half"
  shows "\<exists>s'. enqueueSentData (seq_at b k) (seq_at b t) s = Inr s' \<and>
    sack_rep s' b (mark_bytes set_rexmitted k t bs @ replicate (t - length bs) (False, False))"
proof -
  let ?n = "length bs" and ?q = "rexmitQueue s"
  let ?r = "\<lparr>beginSeqNum = seq_at b k, endSeqNum = seq_at b t, sacked = False, rexmitted = False\<rparr>"
  let ?bs' = "mark_bytes set_rexmitted k t bs @ replicate (t - ?n) (False, False)"
  from rep have at: "sack_at b 0 ?q ?n" and n: "?n < seq_half" and bs: "sack_bits ?q = bs"
    and b: "q_begin s = b" and e: "q_end s = seq_at b ?n" by (auto simp: sack_rep_def)
  have first: "?q = [] \<or> q_end s = seq_at b k \<longleftrightarrow> k = ?n"
    using at k n e by (auto simp: seq_at_simps)
  have order: "seqLess (seq_at b k) (seq_at b t)" using t by (simp add: seq_at_simps)
  note range = sack_rep_in_range[OF rep k]
  \<comment> \<open>the ends are read back from the list\<close>
  have ends: "checkQueue s' \<and> sack_rep s' b bs'"
    if q': "sack_at b 0 q' m" "q' \<noteq> []" "m < seq_half" "sack_bits q' = bs'"
      "s' = \<lparr>rexmitQueue = q', q_begin = beginSeqNum (hd q'), q_end = endSeqNum (last q')\<rparr>" for q' m bs' s'
    using sack_repI[of b 0 s' m bs'] sack_at_ends[OF q'(1,2)] q' by simp
  show ?thesis
  proof (cases "k = ?n")
    case True
    have "sack_at b 0 (?q @ [?r]) t" "sack_bits (?q @ [?r]) = ?bs'"
      using True at bs t by (auto simp: sack_at_append mark_bytes_def region_bits_range)
    from ends[OF this(1) _ t(2) this(2) refl] range order first True show ?thesis
      by (auto simp: enqueueSentData_def Let_def)
  next
    case False
    with k have kn: "k < ?n" by simp
    obtain i rs c i1 where o: "sack_from (seq_at b k) ?q = i # rs" "region_has i (seq_at b k)"
      "sack_chunk (seq_at b k) i = (c, i1)" "sack_at b 0 (sack_before (seq_at b k) ?q @ c) k"
      "sack_at b k (i1 # rs) ?n" "sack_bits (sack_before (seq_at b k) ?q @ c) = take k (sack_bits ?q)"
      "sack_bits (i1 # rs) = drop k (sack_bits ?q)"
      by (rule sack_open[OF at kn n])
    from send_marks[OF o(5) _ t n] obtain marked f rest rest1 where
      mk: "mark_rexmitted (seq_at b t) (seq_at b k) (i1 # rs) = (marked, f, rest)"
        "sack_rest f (seq_at b t) rest = Inr rest1" "marked \<noteq> [] \<or> f \<noteq> seq_at b t"
        "sack_at b k (marked @ rest1) (max t ?n)"
        "sack_bits (marked @ rest1) = map set_rexmitted (take (t - k) (drop k bs)) @ drop (t - k) (drop k bs) @
           replicate (t - ?n) (False, False)"
      unfolding o(7) bs by blast
    let ?q' = "sack_before (seq_at b k) ?q @ c @ marked @ rest1"
    have "sack_at b 0 ?q' (max t ?n)"
      using sack_at_append[of b 0 "sack_before (seq_at b k) ?q @ c" "marked @ rest1"] o(4) mk(4) by auto
    moreover have "sack_bits ?q' = ?bs'"
      using o(6) mk(5) bs t by (simp add: mark_bytes_def)
    moreover have "?q' \<noteq> []" using sack_at_less calculation(1) t by (metis sack_at.simps(1) less_max_iff_disj less_zeroE not_less_zero)
    ultimately have fin: "checkQueue s' \<and> sack_rep s' b ?bs'"
      if "s' = \<lparr>rexmitQueue = ?q', q_begin = beginSeqNum (hd ?q'), q_end = endSeqNum (last ?q')\<rparr>" for s'
      using ends[of ?q' "max t ?n" ?bs' s'] that t n by simp
    from range order first False o(1-3) mk(1-3) fin show ?thesis
      by (simp add: enqueueSentData_def Let_def)
  qed
qed

lemma sack_sack_rep:
  assumes rep: "sack_rep s b bs" and k: "k < t" and t: "t \<le> length bs"
    and f: "(if seqLess f b then b else f) = seq_at b k"
  shows "\<exists>s'. setSackedBit f (seq_at b t) s = Inr s' \<and> sack_rep s' b (mark_bytes set_sacked k t bs)"
proof -
  let ?n = "length bs" and ?q = "rexmitQueue s"
  from rep have at: "sack_at b 0 ?q ?n" and n: "?n < seq_half" and bs: "sack_bits ?q = bs"
    and b: "q_begin s = b" and e: "q_end s = seq_at b ?n" by (auto simp: sack_rep_def)
  have kn: "k < ?n" using k t by simp
  have asserts: "seqLess (seq_at b k) (q_end s)" "seqLess b (seq_at b t)" "seqLE (seq_at b t) (q_end s)"
    "seqLess (seq_at b k) (seq_at b t)"
    using k t n e seq_base_cmp(2)[of t b] by (simp_all add: seq_at_simps)
  have ne: "?q \<noteq> []" using at kn by auto
  obtain i rs c i1 where o: "sack_from (seq_at b k) ?q = i # rs" "region_has i (seq_at b k)"
    "sack_chunk (seq_at b k) i = (c, i1)" "sack_at b 0 (sack_before (seq_at b k) ?q @ c) k"
    "sack_at b k (i1 # rs) ?n" "sack_bits (sack_before (seq_at b k) ?q @ c) = take k (sack_bits ?q)"
    "sack_bits (i1 # rs) = drop k (sack_bits ?q)"
    by (rule sack_open[OF at kn n])
  from sack_marks[OF o(5) k t n] obtain marked rest where
    mk: "mark_sacked (seq_at b t) (seq_at b k) (i1 # rs) = (marked, rest)"
      "sack_at b k (marked @ sack_split (seq_at b t) rest) ?n"
      "sack_bits (marked @ sack_split (seq_at b t) rest) =
         map set_sacked (take (t - k) (drop k bs)) @ drop (t - k) (drop k bs)"
    unfolding o(7) bs by blast
  let ?s = "s\<lparr>rexmitQueue := sack_before (seq_at b k) ?q @ c @ marked @ sack_split (seq_at b t) rest\<rparr>"
  have at': "sack_at b 0 (rexmitQueue ?s) ?n"
    using sack_at_append[of b 0 "sack_before (seq_at b k) ?q @ c" "marked @ sack_split (seq_at b t) rest"] o(4) mk(2)
    by auto
  have "sack_bits (rexmitQueue ?s) = mark_bytes set_sacked k t bs"
    using o(6) mk(3) bs k by (simp add: mark_bytes_def)
  from sack_repI[OF at' n _ _ this] b e have "checkQueue ?s \<and> sack_rep ?s b (mark_bytes set_sacked k t bs)"
    by simp
  moreover have "setSackedBit f (seq_at b t) s = Inr ?s"
    unfolding setSackedBit_def Let_def b f using asserts ne o(1-3) mk(1) calculation
    by (simp del: mark_sacked.simps)
  ultimately show ?thesis by blast
qed

lemma reset_rep:
  assumes "sack_rep s b bs"
  shows "sack_rep (resetSackedBit s) b (map (\<lambda>x. (False, snd x)) bs)"
    and "sack_rep (resetRexmittedBit s) b (map (\<lambda>x. (fst x, False)) bs)"
  using assms by (auto simp: sack_rep_def resetSackedBit_def resetRexmittedBit_def)

section \<open>Runs\<close>

lemma sack_apply_rep:
  assumes rep: "sack_rep s b bs" and v: "spec_valid op (b, bs)"
  shows "\<exists>s' b' bs'. sack_apply s op = Inr s' \<and> spec_apply op (b, bs) = (b', bs') \<and> sack_rep s' b' bs'"
proof -
  have half: "length bs < seq_half" using rep by (simp add: sack_rep_def)
  show ?thesis
  proof (cases op)
    case (Discard n)
    with v discard_rep[OF rep, of "unat (n - b)"] show ?thesis by (simp add: seq_at_unat)
  next
    case (Send f t)
    with v send_rep[OF rep, of "unat (f - b)" "unat (t - b)"] show ?thesis by (simp add: seq_at_unat)
  next
    case (Sack f t)
    have "(if seqLess f b then b else f) = seq_at b (sack_start b f)"
      by (simp add: sack_start_def seq_at_unat)
    with Sack v sack_sack_rep[OF rep, of "sack_start b f" "unat (t - b)" f] show ?thesis
      by (simp add: seq_at_unat)
  next
    case ResetSacked
    with reset_rep(1)[OF rep] show ?thesis by simp
  next
    case ResetRexmitted
    with reset_rep(2)[OF rep] show ?thesis by simp
  qed
qed

lemma sack_run_rep:
  assumes "sack_rep s b bs" and "spec_run (b, bs) ops = Some (b', bs')"
  shows "\<exists>s'. res_run sack_apply s ops = Inr s' \<and> sack_rep s' b' bs'"
  using assms
proof (induction ops arbitrary: s b bs)
  case Nil
  then show ?case by simp
next
  case (Cons op ops)
  from Cons.prems(2) have v: "spec_valid op (b, bs)" "spec_run (spec_apply op (b, bs)) ops = Some (b', bs')"
    by (auto split: if_splits)
  from sack_apply_rep[OF Cons.prems(1) v(1)] obtain s1 b1 bs1 where
    s1: "sack_apply s op = Inr s1" "spec_apply op (b, bs) = (b1, bs1)" "sack_rep s1 b1 bs1" by blast
  from Cons.IH[OF s1(3)] v(2) s1 show ?case by simp
qed

lemma sack_init_rep: "sack_rep (sack_init n sack_new) n []"
  by (simp add: sack_rep_def sack_init_def sack_new_def)

lemma sack_rep_facts:
  "sack_rep s b bs \<Longrightarrow> sack_abs s = (b, bs)" "sack_rep s b bs \<Longrightarrow> q_end s = b + of_nat (length bs)"
  "sack_rep s b bs \<Longrightarrow> checkQueue s" "sack_rep s b bs \<Longrightarrow> sack_ok s"
  using sack_okI[of b 0 s "length bs"] by (auto simp: sack_rep_def sack_abs_def seq_at_def)

text \<open>
  (C8) The queue of regions implements one pair of flags for each outstanding byte: whenever the
  operations are within range and fewer than 2^31 bytes are outstanding, also across the wrap of the
  sequence numbers, no assertion of the code fails, its own check of the queue holds, and what is
  discarded, marked as retransmitted, appended and acknowledged are exactly the bytes named.
\<close>

theorem sack_refines_bytes:
  assumes "spec_run (n, []) ops = Some (b, bs)"
  shows "\<exists>s. res_run sack_apply (sack_init n sack_new) ops = Inr s \<and> sack_abs s = (b, bs) \<and>
    q_end s = b + of_nat (length bs) \<and> checkQueue s"
  using sack_run_rep[OF sack_init_rep assms] sack_rep_facts by blast

text \<open>A run across the wrap: five bytes sent, one acknowledged out of order, the first ones sent again.\<close>

definition sack_example_ops :: "sack_op list" where
  "sack_example_ops = [Send 0xFFFFFFFE 3, Sack 1 2, Send 0xFFFFFFFE 0, Discard 0xFFFFFFFF]"

lemma replicate_5: "replicate 5 x = [x, x, x, x, x]"
  by (simp add: numeral_eq_Suc)

lemma sack_example_spec:
  "spec_run (0xFFFFFFFE, []) sack_example_ops =
     Some (0xFFFFFFFF, [(False, True), (False, False), (True, False), (False, False)])"
  by (simp add: sack_example_ops_def mark_bytes_def sack_start_def seqLess_def set_sacked_def set_rexmitted_def
      replicate_5)

theorem sack_refines_bytes_witness:
  "\<exists>s. res_run sack_apply (sack_init 0xFFFFFFFE sack_new) sack_example_ops = Inr s \<and>
     sack_abs s = (0xFFFFFFFF, [(False, True), (False, False), (True, False), (False, False)])"
  using sack_refines_bytes[OF sack_example_spec] by blast

section \<open>Queries\<close>

text \<open>The number of runs of \<open>True\<close> in a list, the first one included when \<open>p\<close> is \<open>False\<close>.\<close>

fun runs :: "bool \<Rightarrow> bool list \<Rightarrow> nat" where
  "runs p [] = 0"
| "runs p (x # xs) = (if x \<and> \<not> p then 1 else 0) + runs x xs"

text \<open>The position behind the last byte with the flag.\<close>

definition last_flagged :: "(bool \<times> bool \<Rightarrow> bool) \<Rightarrow> byte_flags \<Rightarrow> nat" where
  "last_flagged f bs = length bs - length (takeWhile (\<lambda>x. \<not> f x) (rev bs))"

lemma runs_replicate: "0 < n \<Longrightarrow> runs p (replicate n x @ xs) = (if x \<and> \<not> p then 1 else 0) + runs x xs"
proof (induction n arbitrary: p)
  case 0
  then show ?case by simp
next
  case (Suc n)
  then show ?case by (cases "n = 0") auto
qed

lemma count_runs_from:
  "sack_at b k q n \<Longrightarrow> n < seq_half \<Longrightarrow>
   fst (foldl (\<lambda>(counter, prevSacked) i. (if sacked i \<and> \<not> prevSacked then counter + 1 else counter, sacked i)) (c, p) q) =
     c + of_nat (runs p (map fst (sack_bits q)))"
proof (induction q arbitrary: c p k)
  case Nil
  then show ?case by simp
next
  case (Cons r rs)
  then obtain m where m: "k < m" "beginSeqNum r = seq_at b k" "endSeqNum r = seq_at b m" "sack_at b m rs n" by auto
  have "region_bits r = replicate (m - k) (sacked r, rexmitted r)"
    using region_bits_at[OF m(2,3)] m sack_at_le[OF m(4)] Cons.prems(2) by simp
  with m Cons.IH[OF m(4) Cons.prems(2)] show ?case by (simp add: runs_replicate add.assoc)
qed

lemma foldl_add_sacked:
  "foldl add_sacked c q = c + of_nat (length (filter fst (sack_bits q)))"
  by (induction q arbitrary: c) (auto simp: add_sacked_def region_bits_def)

text \<open>A region whose bytes start at \<open>k\<close>, and one that contains \<open>k\<close>.\<close>

lemma skip_bytes_at:
  "sack_at b k q n \<Longrightarrow> n < seq_half \<Longrightarrow>
   skip_bytes c (seq_at b k) q = Inr (c + of_nat (length (takeWhile (\<lambda>x. fst x \<or> snd x) (sack_bits q))))"
proof (induction q arbitrary: c k)
  case Nil
  then show ?case by simp
next
  case (Cons r rs)
  then obtain m where m: "k < m" "beginSeqNum r = seq_at b k" "endSeqNum r = seq_at b m" "sack_at b m rs n" by auto
  have le: "m \<le> n" by (rule sack_at_le[OF m(4)])
  obtain d where d: "m = k + d" "0 < d" using m(1) less_imp_add_positive by blast
  have rb: "region_bits r = replicate d (sacked r, rexmitted r)"
    using region_bits_at[OF m(2,3)] d le Cons.prems(2) by simp
  have has: "region_has r (seq_at b k)" using m le Cons.prems(2) by (simp add: region_has_def seq_at_simps)
  have "seq_at b m - seq_at b k = of_nat d" using seq_at_diff[of k m b] d by simp
  moreover have "takeWhile (\<lambda>x. fst x \<or> snd x) (replicate d (sacked r, rexmitted r) @ sack_bits rs) =
    (if sacked r \<or> rexmitted r then replicate d (sacked r, rexmitted r) @ takeWhile (\<lambda>x. fst x \<or> snd x) (sack_bits rs)
     else [])"
    using d(2) by (cases d) (auto simp: takeWhile_append)
  ultimately show ?case using rb has m(3) Cons.IH[OF m(4) Cons.prems(2)] by (simp add: add.assoc)
qed

text \<open>The region a query starts in.\<close>

lemma query_open:
  assumes at: "sack_at b 0 q n" and "k < n" and "n < seq_half"
  obtains i rs m where "sack_from (seq_at b k) q = i # rs" and "region_has i (seq_at b k)" and "k < m" and "m \<le> n"
    and "endSeqNum i = seq_at b m" and "sack_at b k (i\<lparr>beginSeqNum := seq_at b k\<rparr> # rs) n"
    and "sack_bits (i\<lparr>beginSeqNum := seq_at b k\<rparr> # rs) = drop k (sack_bits q)"
    and "drop k (sack_bits q) = replicate (m - k) (sacked i, rexmitted i) @ sack_bits rs"
proof -
  obtain i rs c where o: "sack_from (seq_at b k) q = i # rs" "region_has i (seq_at b k)"
    "sack_at b k (i\<lparr>beginSeqNum := seq_at b k\<rparr> # rs) n"
    "sack_bits (i\<lparr>beginSeqNum := seq_at b k\<rparr> # rs) = drop k (sack_bits q)"
    by (rule sack_open[OF assms]) metis
  from o(3) obtain m where m: "k < m" "endSeqNum i = seq_at b m" "sack_at b m rs n" by auto
  have le: "m \<le> n" by (rule sack_at_le[OF m(3)])
  have "region_bits (i\<lparr>beginSeqNum := seq_at b k\<rparr>) = replicate (m - k) (sacked i, rexmitted i)"
    using region_bits_at[of "i\<lparr>beginSeqNum := seq_at b k\<rparr>" b k m] m le assms(3) by simp
  with o(4) have "drop k (sack_bits q) = replicate (m - k) (sacked i, rexmitted i) @ sack_bits rs" by simp
  from that[OF o(1,2) m(1) le m(2) o(3,4) this] show ?thesis .
qed

lemma sack_at_begins: "sack_at b k q n \<Longrightarrow> i \<in> set q \<Longrightarrow> \<exists>u. k \<le> u \<and> u < n \<and> beginSeqNum i = seq_at b u"
proof (induction q arbitrary: k)
  case Nil
  then show ?case by simp
next
  case (Cons r rs)
  then obtain m where m: "k < m" "beginSeqNum r = seq_at b k" "sack_at b m rs n" by auto
  show ?case
  proof (cases "i = r")
    case True
    with m sack_at_le[OF m(3)] show ?thesis by (intro exI[of _ k]) auto
  next
    case False
    with Cons m obtain u where "m \<le> u" "u < n" "beginSeqNum i = seq_at b u" by (metis set_ConsD)
    with m(1) show ?thesis by (intro exI[of _ u]) auto
  qed
qed

lemma amount_above:
  assumes at: "sack_at b 0 q n" and "k \<le> n" and "n < seq_half"
  shows "(case dropWhile (\<lambda>i. seqLE (seq_at b k) (beginSeqNum i)) (rev q) of
      [] \<Rightarrow> foldl add_sacked 0 (takeWhile (\<lambda>i. seqLE (seq_at b k) (beginSeqNum i)) (rev q))
    | i # is \<Rightarrow> if seqLess (beginSeqNum i) (seq_at b k) \<and> seqLess (seq_at b k) (endSeqNum i) \<and> sacked i
        then foldl add_sacked 0 (takeWhile (\<lambda>i. seqLE (seq_at b k) (beginSeqNum i)) (rev q)) + (endSeqNum i - seq_at b k)
        else foldl add_sacked 0 (takeWhile (\<lambda>i. seqLE (seq_at b k) (beginSeqNum i)) (rev q))) =
    of_nat (length (filter fst (drop k (sack_bits q))))"
proof -
  have rev_count: "length (filter fst (sack_bits (rev xs))) = length (filter fst (sack_bits xs))" for xs
    by (induction xs) auto
  \<comment> \<open>the regions that end at or below \<open>k\<close> stop the loop and add nothing\<close>
  have below: "dropWhile (\<lambda>i. seqLE (seq_at b k) (beginSeqNum i)) (ys @ rev xs) = rev xs \<and>
      takeWhile (\<lambda>i. seqLE (seq_at b k) (beginSeqNum i)) (ys @ rev xs) = ys \<and>
      (xs = [] \<or> \<not> seqLess (seq_at b k) (endSeqNum (last xs)))"
    if xs: "sack_at b 0 xs m" "m \<le> k" and ys: "\<forall>i \<in> set ys. seqLE (seq_at b k) (beginSeqNum i)" for xs ys m
  proof -
    have "\<not> seqLE (seq_at b k) (beginSeqNum i)" if "i \<in> set xs" for i
      using sack_at_begins[OF xs(1) that] xs(2) assms(2,3) by (auto simp: seq_at_simps)
    moreover have "xs = [] \<or> \<not> seqLess (seq_at b k) (endSeqNum (last xs))"
      using sack_at_ends[OF xs(1)] xs(2) assms(2,3) by (auto simp: seq_at_simps)
    ultimately show ?thesis using ys by (cases xs rule: rev_cases) (auto simp: takeWhile_append dropWhile_append)
  qed
  show ?thesis
  proof (cases "k = n")
    case True
    with below[OF at _, of "[]"] sack_bits_length[OF at assms(3)] show ?thesis
      by (cases q rule: rev_cases) auto
  next
    case False
    with assms(2) have kn: "k < n" by simp
    obtain r rs m m2 where f: "q = sack_before (seq_at b k) q @ r # rs"
      and xs: "sack_at b 0 (sack_before (seq_at b k) q) m" and m: "m \<le> k" "k < m2" "m2 \<le> n"
      and r: "beginSeqNum r = seq_at b m" "endSeqNum r = seq_at b m2" and rs: "sack_at b m2 rs n"
      by (rule sack_cut[OF at le0 kn assms(3)])
    obtain xs where q: "q = xs @ r # rs" and at_xs: "sack_at b 0 xs m" using f xs by blast
    have up: "\<forall>i \<in> set (rev rs). seqLE (seq_at b k) (beginSeqNum i)"
      using sack_at_begins[OF rs] m assms(3) by (fastforce simp: seq_at_simps)
    have lx: "length (sack_bits xs) = m" using sack_bits_length[OF at_xs] m assms(3) by simp
    have rb: "region_bits r = replicate (m2 - m) (sacked r, rexmitted r)"
      using region_bits_at[OF r] m assms(3) by simp
    show ?thesis
    proof (cases "m = k")
      case True
      then have "\<forall>i \<in> set (rev rs @ [r]). seqLE (seq_at b k) (beginSeqNum i)" using up r by (auto simp: seqLE_def)
      note w = below[OF at_xs m(1) this]
      have tail: "rev q = (rev rs @ [r]) @ rev xs" by (simp add: q)
      have sum: "foldl add_sacked 0 (rev rs @ [r]) = of_nat (length (filter fst (drop k (sack_bits q))))"
        using foldl_add_sacked[of 0 "rev rs @ [r]"] rev_count[of rs] lx True by (simp add: q add.commute del: foldl_append foldl_Cons)
      have cut: "dropWhile (\<lambda>i. seqLE (seq_at b k) (beginSeqNum i)) (rev q) = rev xs"
        "takeWhile (\<lambda>i. seqLE (seq_at b k) (beginSeqNum i)) (rev q) = rev rs @ [r]"
        unfolding tail using w by blast+
      show ?thesis unfolding cut sum using w by (cases xs rule: rev_cases) simp_all
    next
      case False
      with m have mk: "m < k" by simp
      have "\<not> seqLE (seq_at b k) (beginSeqNum r)" using r mk m assms(3) by (simp add: seq_at_simps)
      with up have w: "dropWhile (\<lambda>i. seqLE (seq_at b k) (beginSeqNum i)) (rev q) = r # rev xs"
        "takeWhile (\<lambda>i. seqLE (seq_at b k) (beginSeqNum i)) (rev q) = rev rs"
        by (auto simp: q takeWhile_append dropWhile_append)
      have "seqLess (beginSeqNum r) (seq_at b k) \<and> seqLess (seq_at b k) (endSeqNum r)"
        using r mk m assms(3) by (simp add: seq_at_simps)
      moreover have "endSeqNum r - seq_at b k = of_nat (m2 - k)" using r(2) seq_at_diff[of k m2 b] m by simp
      moreover have "drop k (sack_bits q) = replicate (m2 - k) (sacked r, rexmitted r) @ sack_bits rs"
        using lx mk m by (simp add: q rb)
      ultimately show ?thesis using rev_count[of rs]
        by (simp add: w foldl_add_sacked add.commute del: of_nat_diff)
    qed
  qed
qed

lemma highest_at:
  assumes "\<And>r. flag r = f (sacked r, rexmitted r)"
  shows "sack_at b k q n \<Longrightarrow> n < seq_half \<Longrightarrow>
    (case find flag (rev q) of None \<Rightarrow> seq_at b k | Some i \<Rightarrow> endSeqNum i) =
      seq_at b (k + last_flagged f (sack_bits q))"
proof (induction q arbitrary: n rule: rev_induct)
  case Nil
  then show ?case by (simp add: last_flagged_def)
next
  case (snoc r q)
  then obtain m where m: "sack_at b k q m" "m < n" "beginSeqNum r = seq_at b m" "endSeqNum r = seq_at b n"
    by (auto simp: sack_at_append)
  then obtain d where d: "n = m + d" "0 < d" using less_imp_add_positive by blast
  have rb: "region_bits r = replicate d (sacked r, rexmitted r)"
    using region_bits_at[OF m(3,4)] d snoc.prems(2) by simp
  have l: "k + length (sack_bits q) = m"
    using sack_bits_length[OF m(1)] sack_at_le[OF m(1)] m(2) snoc.prems(2) by simp
  show ?case
  proof (cases "flag r")
    case True
    then have "f (sacked r, rexmitted r)" using assms by simp
    then have "takeWhile (\<lambda>x. \<not> f x) (replicate d (sacked r, rexmitted r) @ ys) = []" for ys
      using d(2) by (cases d) auto
    then have "last_flagged f (sack_bits (q @ [r])) = length (sack_bits q) + d"
      by (simp add: last_flagged_def rb)
    with True m d l show ?thesis by (simp add: add.assoc[symmetric])
  next
    case False
    then have "last_flagged f (sack_bits (q @ [r])) = last_flagged f (sack_bits q)"
      using assms by (simp add: last_flagged_def rb takeWhile_append)
    with False snoc.IH[OF m(1)] m(2) snoc.prems(2) show ?thesis by simp
  qed
qed

text \<open>The queries that need no region, and those that start in one.\<close>

lemma queries_anywhere:
  assumes rep: "sack_rep s b bs" and k: "k \<le> length bs"
  shows "getHighestSackedSeqNum s = b + of_nat (last_flagged fst bs)"
    and "getHighestRexmittedSeqNum s = b + of_nat (last_flagged snd bs)"
    and "getTotalAmountOfSackedBytes s = of_nat (length (filter fst bs))"
    and "getAmountOfSackedBytes (seq_at b k) s = Inr (of_nat (length (filter fst (drop k bs))))"
proof -
  from rep have at: "sack_at b 0 (rexmitQueue s) (length bs)" and n: "length bs < seq_half"
    and bs: "sack_bits (rexmitQueue s) = bs" and b: "q_begin s = b" by (auto simp: sack_rep_def)
  show "getHighestSackedSeqNum s = b + of_nat (last_flagged fst bs)"
    "getHighestRexmittedSeqNum s = b + of_nat (last_flagged snd bs)"
    unfolding getHighestSackedSeqNum_def getHighestRexmittedSeqNum_def sack_highest_def b
    using highest_at[of sacked fst, OF _ at n, unfolded seq_at_0] highest_at[of rexmitted snd, OF _ at n, unfolded seq_at_0]
    by (simp_all add: seq_at_def bs)
  show "getTotalAmountOfSackedBytes s = of_nat (length (filter fst bs))"
    by (simp add: getTotalAmountOfSackedBytes_def foldl_add_sacked bs)
  show "getAmountOfSackedBytes (seq_at b k) s = Inr (of_nat (length (filter fst (drop k bs))))"
    unfolding getAmountOfSackedBytes_def Let_def amount_above[OF at k n] using sack_rep_in_range[OF rep k]
    by (simp add: bs)
qed

lemma queries_in_region:
  assumes rep: "sack_rep s b bs" and k: "k < length bs" and x: "x = seq_at b k"
  shows "getSackedBit x s = Inr (fst (bs ! k))"
    and "checkRexmitQueueForSackedOrRexmittedSegments x s =
      Inr (of_nat (length (takeWhile (\<lambda>y. fst y \<or> snd y) (drop k bs))))"
    and "getNumOfDiscontiguousSacks x s = Inr (of_nat (runs False (map fst (drop k bs))))"
    and "\<exists>l > 0. checkSackBlock x s = Inr (of_nat l, bs ! k) \<and> k + l \<le> length bs \<and> (\<forall>j < l. bs ! (k + j) = bs ! k)"
proof -
  from rep have at: "sack_at b 0 (rexmitQueue s) (length bs)" and n: "length bs < seq_half"
    and bs: "sack_bits (rexmitQueue s) = bs" and b: "q_begin s = b" and e: "q_end s = seq_at b (length bs)"
    by (auto simp: sack_rep_def)
  obtain i rs m where o: "sack_from x (rexmitQueue s) = i # rs" "region_has i x" "k < m" "m \<le> length bs"
    "endSeqNum i = seq_at b m" "sack_at b k (i\<lparr>beginSeqNum := x\<rparr> # rs) (length bs)"
    "sack_bits (i\<lparr>beginSeqNum := x\<rparr> # rs) = drop k bs"
    "drop k bs = replicate (m - k) (sacked i, rexmitted i) @ sack_bits rs"
    using query_open[OF at k n] unfolding x bs by metis
  have flags: "bs ! (k + j) = (sacked i, rexmitted i)" if "j < m - k" for j
    using nth_drop[of k bs j] o(8) that k by (simp add: nth_append)
  have flags0: "bs ! k = (sacked i, rexmitted i)" using flags[of 0] o(3) by simp
  have range: "seqLE (q_begin s) x" "seqLE x (q_end s)" "seqLess x (q_end s)" "q_end s \<noteq> x" "rexmitQueue s \<noteq> []"
    using sack_rep_in_range[OF rep less_imp_le[OF k]] e x k n at by (auto simp: seq_at_simps)
  show "getSackedBit x s = Inr (fst (bs ! k))"
    using range o(1,2) flags0 by (simp add: getSackedBit_def)
  have "skip_bytes 0 x (i # rs) = skip_bytes 0 x (i\<lparr>beginSeqNum := x\<rparr> # rs)"
    using o(2) by (simp add: region_has_def seqLE_def)
  with skip_bytes_at[OF o(6) n, of 0, folded x] o(7)
  show "checkRexmitQueueForSackedOrRexmittedSegments x s =
      Inr (of_nat (length (takeWhile (\<lambda>y. fst y \<or> snd y) (drop k bs))))"
    using range by (simp add: checkRexmitQueueForSackedOrRexmittedSegments_def o(1) del: skip_bytes.simps sack_bits_simps)
  have "count_runs (i # rs) = count_runs (i\<lparr>beginSeqNum := x\<rparr> # rs)" by (simp add: count_runs_def)
  also have "\<dots> = of_nat (runs False (map fst (drop k bs)))"
    using count_runs_from[OF o(6) n, of 0 False] by (simp only: count_runs_def o(7) add_0)
  finally show "getNumOfDiscontiguousSacks x s = Inr (of_nat (runs False (map fst (drop k bs))))"
    using range by (simp add: getNumOfDiscontiguousSacks_def o(1))
  have "checkSackBlock x s = Inr (of_nat (m - k), bs ! k)"
    using range o(1,2,3,5) seq_at_diff[of k m b] flags0 by (simp add: checkSackBlock_def x)
  with flags flags0 o(3,4) show "\<exists>l > 0. checkSackBlock x s = Inr (of_nat l, bs ! k) \<and> k + l \<le> length bs \<and>
      (\<forall>j < l. bs ! (k + j) = bs ! k)"
    by (intro exI[of _ "m - k"]) auto
qed

lemma queries_at_end:
  assumes "sack_rep s b bs" and "x = q_end s"
  shows "getSackedBit x s = Inr False" "checkRexmitQueueForSackedOrRexmittedSegments x s = Inr 0"
    "getNumOfDiscontiguousSacks x s = Inr 0"
  using assms sack_rep_in_range[OF assms(1) order_refl]
  by (auto simp: getSackedBit_def checkRexmitQueueForSackedOrRexmittedSegments_def getNumOfDiscontiguousSacks_def
      sack_rep_def)

text \<open>
  (C20) Every query answers from the flags of the bytes alone, at any position of a queue that passes its
  check and holds fewer than 2^31 bytes: whether a byte is sacked, the end of the last sacked and of the last retransmitted byte, how
  many bytes from a position on are sacked or retransmitted without a gap, how many are sacked in all
  and from a position on, in how many runs, and how far the flags of a byte extend.
\<close>

theorem sack_queries:
  assumes "sack_ok s" and bs: "bs = sack_bits (rexmitQueue s)" and "k \<le> length bs" and x: "x = q_begin s + of_nat k"
  shows "getSackedBit x s = Inr (k < length bs \<and> fst (bs ! k)) \<and>
    getHighestSackedSeqNum s = q_begin s + of_nat (last_flagged fst bs) \<and>
    getHighestRexmittedSeqNum s = q_begin s + of_nat (last_flagged snd bs) \<and>
    checkRexmitQueueForSackedOrRexmittedSegments x s =
      Inr (of_nat (length (takeWhile (\<lambda>y. fst y \<or> snd y) (drop k bs)))) \<and>
    getTotalAmountOfSackedBytes s = of_nat (length (filter fst bs)) \<and>
    getAmountOfSackedBytes x s = Inr (of_nat (length (filter fst (drop k bs)))) \<and>
    getNumOfDiscontiguousSacks x s = Inr (of_nat (runs False (map fst (drop k bs)))) \<and>
    (k < length bs \<longrightarrow> (\<exists>l > 0. checkSackBlock x s = Inr (of_nat l, bs ! k) \<and> k + l \<le> length bs \<and>
       (\<forall>j < l. bs ! (k + j) = bs ! k)))"
proof -
  have rep: "sack_rep s (q_begin s) bs" using assms(1) sack_ok_rep bs by simp
  have xk: "x = seq_at (q_begin s) k" by (simp add: x seq_at_def)
  have at_end: "k = length bs \<Longrightarrow> x = q_end s" using rep xk by (simp add: sack_rep_def)
  note any = queries_anywhere[OF rep assms(3), folded xk]
  show ?thesis
  proof (cases "k < length bs")
    case True
    with any queries_in_region[OF rep True xk] show ?thesis by simp
  next
    case False
    with assms(3) have "k = length bs" by simp
    with any queries_at_end[OF rep at_end] show ?thesis by simp
  qed
qed

text \<open>The queue after the run above.\<close>

definition sack_example_queue :: sack_queue where
  "sack_example_queue = \<lparr>rexmitQueue =
     [\<lparr>beginSeqNum = 0xFFFFFFFF, endSeqNum = 0, sacked = False, rexmitted = True\<rparr>,
      \<lparr>beginSeqNum = 0, endSeqNum = 1, sacked = False, rexmitted = False\<rparr>,
      \<lparr>beginSeqNum = 1, endSeqNum = 2, sacked = True, rexmitted = False\<rparr>,
      \<lparr>beginSeqNum = 2, endSeqNum = 3, sacked = False, rexmitted = False\<rparr>],
     q_begin = 0xFFFFFFFF, q_end = 3\<rparr>"

lemma sack_example_queue_bits:
  "sack_bits (rexmitQueue sack_example_queue) = [(False, True), (False, False), (True, False), (False, False)]"
  by (simp add: sack_example_queue_def region_bits_def)

lemma sack_example_queue_ok: "sack_ok sack_example_queue"
  unfolding sack_ok_def sack_example_queue_bits
  by (simp add: checkQueue_chain sack_example_queue_def seqLess_def)

theorem sack_queries_witness:
  "getSackedBit 1 sack_example_queue = Inr True \<and> getHighestSackedSeqNum sack_example_queue = 2 \<and>
   getAmountOfSackedBytes 0xFFFFFFFF sack_example_queue = Inr 1"
  using sack_queries[OF sack_example_queue_ok sack_example_queue_bits[symmetric], of 2 1]
    sack_queries[OF sack_example_queue_ok sack_example_queue_bits[symmetric], of 0 "0xFFFFFFFF"]
  by (simp add: sack_example_queue_def last_flagged_def)

section \<open>Initialising a queue again\<close>

text \<open>
  \<open>init\<close> does not flush the contents of the queue: after it, a queue that was not empty fails its own
  check with the next data sent, unless it is set to the very end of the old contents, in which case the
  old bytes are back.
\<close>

theorem sack_reinit_keeps_contents:
  assumes "sack_ok s" and "rexmitQueue s \<noteq> []" and "seqLess n t"
  shows "enqueueSentData n t (sack_init n s) =
    (if n = q_end s
     then Inr \<lparr>rexmitQueue = rexmitQueue s @ [\<lparr>beginSeqNum = n, endSeqNum = t, sacked = False, rexmitted = False\<rparr>],
               q_begin = q_begin s, q_end = t\<rparr>
     else Inl (AssertFailed ''enqueueSentData: checkQueue''))"
proof -
  have chain: "sack_chain (q_begin s) (rexmitQueue s) (q_end s)" using assms(1) by (simp add: sack_ok_def checkQueue_chain)
  have "beginSeqNum (hd (rexmitQueue s)) = q_begin s" using chain assms(2) by (cases "rexmitQueue s") auto
  moreover have "sack_chain (q_begin s) (rexmitQueue s) m \<longleftrightarrow> m = q_end s" for m
    using chain sack_chain_det by blast
  ultimately show ?thesis
    using assms(2,3)
    by (simp add: enqueueSentData_def sack_init_def Let_def seqLE_def checkQueue_chain sack_chain_append hd_append)
qed

theorem sack_reinit_keeps_contents_witness:
  "enqueueSentData 10 12 (sack_init 10 sack_example_queue) = Inl (AssertFailed ''enqueueSentData: checkQueue'')"
proof -
  have "rexmitQueue sack_example_queue \<noteq> []" "q_end sack_example_queue = 3" "seqLess 10 12"
    by (simp_all add: sack_example_queue_def seqLess_def)
  with sack_reinit_keeps_contents[OF sack_example_queue_ok, of 10 12] show ?thesis by simp
qed

end
