(* ===== verification/EspacoDin.thy ===== *)
theory EspacoDin
  imports Prelude
begin

text \<open>
  The control of dynamic memory of the automated test framework (\<open>CESPDIN\<close>), of which the repository has
  only the interface (\<open>INF1301-Modular-Programming/TRAB4/TRAB4-1/TRAB4-1/CESPDIN.H\<close>): the parameter \<open>ced\<close>.
  A debug build allocates and frees through it; every space has a type, given once, and a mark that
  tells whether it is active. The locale \<open>ced_laws\<close> states what the interface documents of the functions
  used; \<open>ref_ced\<close> is an executable control with these laws. An address is \<open>NULL\<close> or
  \<open>End n\<close>.
\<close>

datatype endereco = NULL | End nat

record 'c ced =
  ced_malloc :: "'c \<Rightarrow> endereco \<times> 'c"
  ced_free :: "endereco \<Rightarrow> 'c \<Rightarrow> 'c"
  ced_definir_tipo :: "endereco \<Rightarrow> int \<Rightarrow> 'c \<Rightarrow> 'c"
  ced_obter_tipo :: "'c \<Rightarrow> endereco \<Rightarrow> int"
  ced_marcar_inativos :: "'c \<Rightarrow> 'c"
  ced_marcar_ativo :: "endereco \<Rightarrow> 'c \<Rightarrow> 'c"
  ced_eh_ativo :: "'c \<Rightarrow> endereco \<Rightarrow> bool"
  ced_espacos :: "'c \<Rightarrow> endereco list"  \<comment> \<open>the allocated spaces, in the order of the iterator\<close>

text \<open>The types of spaces (\<open>IdTiposEspaco.def\<close>, \<open>TiposEspacosLista.def\<close>) and the type of \<open>NULL\<close>\<close>

definition CED_ID_TIPO_VALOR_NULO :: int where "CED_ID_TIPO_VALOR_NULO = 0"
definition LIS_TipoEspacoCabeca :: int where "LIS_TipoEspacoCabeca = 1"
definition LIS_TipoEspacoNo :: int where "LIS_TipoEspacoNo = 2"
definition CED_PONTEIRO_NULO :: int where "CED_PONTEIRO_NULO = -2"

text \<open>The static array \<open>EspacoLixo\<close>, which no allocation returns\<close>

definition EspacoLixo :: endereco where "EspacoLixo = End 1"

lemmas ced_tipos = CED_ID_TIPO_VALOR_NULO_def LIS_TipoEspacoCabeca_def LIS_TipoEspacoNo_def CED_PONTEIRO_NULO_def

locale ced_laws =
  fixes C :: "'c ced"
  assumes nulo_livre: "NULL \<notin> set (ced_espacos C c)"
    and lixo_livre: "EspacoLixo \<notin> set (ced_espacos C c)"
    and nulo_tipo: "ced_obter_tipo C c NULL = CED_PONTEIRO_NULO"
    and malloc_novo: "ced_malloc C c = (p, c') \<Longrightarrow> p \<noteq> NULL \<Longrightarrow>
           p \<notin> set (ced_espacos C c) \<and> set (ced_espacos C c') = insert p (set (ced_espacos C c)) \<and>
           ced_obter_tipo C c' p = CED_ID_TIPO_VALOR_NULO"
    and malloc_falha: "ced_malloc C c = (NULL, c') \<Longrightarrow> set (ced_espacos C c') = set (ced_espacos C c)"
    and malloc_outros: "ced_malloc C c = (p, c') \<Longrightarrow> q \<noteq> p \<Longrightarrow> ced_obter_tipo C c' q = ced_obter_tipo C c q"
    and free_espacos: "p \<in> set (ced_espacos C c) \<Longrightarrow> set (ced_espacos C (ced_free C p c)) = set (ced_espacos C c) - {p}"
    and free_outros: "q \<noteq> p \<Longrightarrow> ced_obter_tipo C (ced_free C p c) q = ced_obter_tipo C c q"
    and definir_espacos: "ced_espacos C (ced_definir_tipo C p t c) = ced_espacos C c"
    and definir_tipo: "p \<in> set (ced_espacos C c) \<Longrightarrow> ced_obter_tipo C (ced_definir_tipo C p t c) p =
           (if t = CED_ID_TIPO_VALOR_NULO \<or> ced_obter_tipo C c p = CED_ID_TIPO_VALOR_NULO then t
            else ced_obter_tipo C c p)"
    and definir_outros: "q \<noteq> p \<Longrightarrow> ced_obter_tipo C (ced_definir_tipo C p t c) q = ced_obter_tipo C c q"
    and marcar_espacos: "ced_espacos C (ced_marcar_ativo C p c) = ced_espacos C c"
      "ced_espacos C (ced_marcar_inativos C c) = ced_espacos C c"
    and marcar_tipo: "ced_obter_tipo C (ced_marcar_ativo C p c) q = ced_obter_tipo C c q"
      "ced_obter_tipo C (ced_marcar_inativos C c) q = ced_obter_tipo C c q"
    and marcar_ativo: "q \<in> set (ced_espacos C c) \<Longrightarrow>
           ced_eh_ativo C (ced_marcar_ativo C p c) q \<longleftrightarrow> q = p \<or> ced_eh_ativo C c q"
    and marcar_inativos: "q \<in> set (ced_espacos C c) \<Longrightarrow> \<not> ced_eh_ativo C (ced_marcar_inativos C c) q"

section \<open>An executable control\<close>

text \<open>It hands out increasing addresses, of which at most \<open>limite\<close> at a time when the limit is not 0.\<close>

record ref_ced_estado =
  rc_proximo :: nat
  rc_limite :: nat
  rc_espacos :: "nat list"
  rc_tipos :: "endereco \<Rightarrow> int"
  rc_ativos :: "endereco list"

definition ref_ced_inicio :: "nat \<Rightarrow> ref_ced_estado" where
  "ref_ced_inicio limite =
     \<lparr>rc_proximo = 0, rc_limite = limite, rc_espacos = [], rc_tipos = (\<lambda>_. 999), rc_ativos = []\<rparr>"

definition ref_ced_espacos :: "ref_ced_estado \<Rightarrow> endereco list" where
  "ref_ced_espacos c = map (\<lambda>k. End (k + 100)) (filter (\<lambda>k. k < rc_proximo c) (rc_espacos c))"

definition ref_ced_tipo :: "ref_ced_estado \<Rightarrow> endereco \<Rightarrow> int" where
  "ref_ced_tipo c p = (if p = NULL then CED_PONTEIRO_NULO else rc_tipos c p)"

definition ref_ced :: "ref_ced_estado ced" where
  "ref_ced = \<lparr>
     ced_malloc = (\<lambda>c. if rc_limite c \<noteq> 0 \<and> rc_limite c \<le> length (ref_ced_espacos c) then (NULL, c)
        else (End (rc_proximo c + 100),
              c\<lparr>rc_proximo := rc_proximo c + 1,
                rc_espacos := filter (\<lambda>k. k < rc_proximo c) (rc_espacos c) @ [rc_proximo c],
                rc_tipos := (rc_tipos c)(End (rc_proximo c + 100) := CED_ID_TIPO_VALOR_NULO)\<rparr>)),
     ced_free = (\<lambda>p c. c\<lparr>rc_espacos := filter (\<lambda>k. End (k + 100) \<noteq> p) (rc_espacos c), rc_tipos := (rc_tipos c)(p := 999)\<rparr>),
     ced_definir_tipo = (\<lambda>p t c.
        if t = CED_ID_TIPO_VALOR_NULO \<or> ref_ced_tipo c p = CED_ID_TIPO_VALOR_NULO
        then c\<lparr>rc_tipos := (rc_tipos c)(p := t)\<rparr> else c),
     ced_obter_tipo = ref_ced_tipo,
     ced_marcar_inativos = (\<lambda>c. c\<lparr>rc_ativos := []\<rparr>),
     ced_marcar_ativo = (\<lambda>p c. c\<lparr>rc_ativos := p # rc_ativos c\<rparr>),
     ced_eh_ativo = (\<lambda>c p. p \<in> set (rc_ativos c)),
     ced_espacos = ref_ced_espacos\<rparr>"

interpretation ref_ced: ced_laws ref_ced
  by unfold_locales
    (auto simp: ref_ced_def ref_ced_espacos_def ref_ced_tipo_def EspacoLixo_def split: if_splits)

end
