(* ===== verification/Lista.thy ===== *)
theory Lista
  imports EspacoDin
begin

text \<open>
  The doubly linked list of the course \<open>INF1301\<close> with its instrumentation
  (\<open>INF1301-Modular-Programming/TRAB4/TRAB4-1/TRAB4-1/LISTA.C\<close>, \<open>LISTA.H\<close>), in its debug build: pointers are
  addresses into a memory of heads and elements, an access to a space that is not there (freed or never
  allocated) is undefined behaviour. One definition for each function, the verifier \<open>LIS_VerificarLista\<close>
  and the corruptions \<open>LIS_DeturparLista\<close> that test it included.

  The control of spaces \<open>C\<close> and the function \<open>D\<close> that destroys a value are parameters. A loop over
  pointers may run for ever, so its result is an option. Not modelled: the coverage counters
  \<open>CNT_CONTAR\<close>; \<open>NumeroDeElementos\<close> and \<open>Tipo\<close> are integers.
\<close>

section \<open>Memory\<close>

record tpElemLista =
  pCabeca :: endereco
  elemTipo :: int
  pValor :: endereco
  pAnt :: endereco
  pProx :: endereco

record LIS_tpLista =
  pOrigemLista :: endereco
  pFimLista :: endereco
  pElemCorr :: endereco
  NumeroDeElementos :: int
  ExcluirValor :: bool  \<comment> \<open>whether a function was given\<close>
  cabTipo :: int

datatype lis_celula = Cabeca LIS_tpLista | Elem tpElemLista

record 'c lis_mem =
  celulas :: "endereco \<Rightarrow> lis_celula option"
  controle :: 'c

datatype LIS_tpCondRet =
    LIS_CondRetOK | LIS_CondRetListaVazia | LIS_CondRetFimLista | LIS_CondRetNaoAchou
  | LIS_CondRetFaltouMemoria | LIS_CondRetNaoExiste | LIS_CondRetCorrenteIndefinido
  | LIS_CondRetAcaoDeturpacaoInexistente

definition ler_cabeca :: "'c lis_mem \<Rightarrow> endereco \<Rightarrow> LIS_tpLista res" where
  "ler_cabeca m p =
     (case celulas m p of Some (Cabeca h) \<Rightarrow> Inr h | _ \<Rightarrow> Inl (UndefinedBehaviour ''access to a list''))"

definition ler_elem :: "'c lis_mem \<Rightarrow> endereco \<Rightarrow> tpElemLista res" where
  "ler_elem m p =
     (case celulas m p of Some (Elem e) \<Rightarrow> Inr e | _ \<Rightarrow> Inl (UndefinedBehaviour ''access to an element''))"

definition mudar_cabeca :: "endereco \<Rightarrow> (LIS_tpLista \<Rightarrow> LIS_tpLista) \<Rightarrow> 'c lis_mem \<Rightarrow> 'c lis_mem res" where
  "mudar_cabeca p f m =
     res_bind (ler_cabeca m p) (\<lambda>h. Inr (m\<lparr>celulas := (celulas m)(p \<mapsto> Cabeca (f h))\<rparr>))"

definition mudar_elem :: "endereco \<Rightarrow> (tpElemLista \<Rightarrow> tpElemLista) \<Rightarrow> 'c lis_mem \<Rightarrow> 'c lis_mem res" where
  "mudar_elem p f m =
     res_bind (ler_elem m p) (\<lambda>e. Inr (m\<lparr>celulas := (celulas m)(p \<mapsto> Elem (f e))\<rparr>))"

definition definir_tipo :: "'c ced \<Rightarrow> endereco \<Rightarrow> int \<Rightarrow> 'c lis_mem \<Rightarrow> 'c lis_mem" where
  "definir_tipo C p t m = m\<lparr>controle := ced_definir_tipo C p t (controle m)\<rparr>"

definition liberar :: "'c ced \<Rightarrow> endereco \<Rightarrow> 'c lis_mem \<Rightarrow> 'c lis_mem res" where
  "liberar C p m =
     (if celulas m p = None then Inl (UndefinedBehaviour ''free'')
      else Inr (m\<lparr>celulas := (celulas m)(p := None), controle := ced_free C p (controle m)\<rparr>))"

section \<open>Functions of the module\<close>

definition LimparCabeca :: "endereco \<Rightarrow> 'c lis_mem \<Rightarrow> 'c lis_mem res" where
  "LimparCabeca pLista =
     mudar_cabeca pLista
       (\<lambda>h. h\<lparr>pOrigemLista := NULL, pFimLista := NULL, pElemCorr := NULL, NumeroDeElementos := 0\<rparr>)"

text \<open>The control fills a new space with the character \<open>|\<close>, which the fields not set here keep.\<close>

definition CriarElemento :: "'c ced \<Rightarrow> endereco \<Rightarrow> endereco \<Rightarrow> 'c lis_mem \<Rightarrow> (endereco \<times> 'c lis_mem) res" where
  "CriarElemento C pLista v m =
     (case ced_malloc C (controle m) of (p, c) \<Rightarrow>
        if p = NULL then Inr (NULL, m\<lparr>controle := c\<rparr>)
        else res_bind (mudar_cabeca pLista (\<lambda>h. h\<lparr>NumeroDeElementos := NumeroDeElementos h + 1\<rparr>)
               (m\<lparr>celulas := (celulas m)(p \<mapsto> Elem \<lparr>pCabeca = End 0x7C7C7C7C, elemTipo = 0x7C, pValor = v, pAnt = NULL, pProx = NULL\<rparr>),
                  controle := c\<rparr>)) (\<lambda>m'. Inr (p, m')))"

definition LiberarElemento ::
    "'c ced \<Rightarrow> (endereco \<Rightarrow> 'c \<Rightarrow> 'c) \<Rightarrow> endereco \<Rightarrow> endereco \<Rightarrow> 'c lis_mem \<Rightarrow> 'c lis_mem res" where
  "LiberarElemento C D pLista p m =
     res_bind (ler_cabeca m pLista) (\<lambda>h.
     res_bind (ler_elem m p) (\<lambda>e.
     res_bind (liberar C p
         (if ExcluirValor h \<and> pValor e \<noteq> NULL then m\<lparr>controle := D (pValor e) (controle m)\<rparr> else m))
       (mudar_cabeca pLista (\<lambda>h. h\<lparr>NumeroDeElementos := NumeroDeElementos h - 1\<rparr>))))"

definition LIS_CriarLista :: "'c ced \<Rightarrow> bool \<Rightarrow> 'c lis_mem \<Rightarrow> (endereco \<times> 'c lis_mem) res" where
  "LIS_CriarLista C excluir m =
     (case ced_malloc C (controle m) of (p, c) \<Rightarrow>
        if p = NULL then Inr (NULL, m\<lparr>controle := c\<rparr>)
        else res_bind (LimparCabeca p
            (m\<lparr>celulas := (celulas m)(p \<mapsto> Cabeca \<lparr>pOrigemLista = End 0x7C7C7C7C, pFimLista = End 0x7C7C7C7C,
                 pElemCorr = End 0x7C7C7C7C, NumeroDeElementos = 0x7C7C7C7C, ExcluirValor = True, cabTipo = 0x7C\<rparr>),
               controle := c\<rparr>)) (\<lambda>m1.
          res_bind (mudar_cabeca p (\<lambda>h. h\<lparr>cabTipo := LIS_TipoEspacoCabeca\<rparr>) m1) (\<lambda>m2.
          res_bind (mudar_cabeca p (\<lambda>h. h\<lparr>ExcluirValor := excluir\<rparr>) (definir_tipo C p LIS_TipoEspacoCabeca m2)) (\<lambda>m3.
          Inr (p, m3)))))"

text \<open>\<open>while (pElem != NULL)\<close>\<close>

partial_function (option) esvaziar_laco ::
    "'c ced \<Rightarrow> (endereco \<Rightarrow> 'c \<Rightarrow> 'c) \<Rightarrow> endereco \<Rightarrow> endereco \<Rightarrow> 'c lis_mem \<Rightarrow> 'c lis_mem res option" where
  "esvaziar_laco C D pLista p m =
     (if p = NULL then Some (Inr m)
      else case ler_elem m p of
        Inl e \<Rightarrow> Some (Inl e)
      | Inr el \<Rightarrow>
          (case LiberarElemento C D pLista p m of
             Inl e \<Rightarrow> Some (Inl e)
           | Inr m' \<Rightarrow> esvaziar_laco C D pLista (pProx el) m'))"

definition LIS_EsvaziarLista ::
    "'c ced \<Rightarrow> (endereco \<Rightarrow> 'c \<Rightarrow> 'c) \<Rightarrow> endereco \<Rightarrow> 'c lis_mem \<Rightarrow> 'c lis_mem res option" where
  "LIS_EsvaziarLista C D pLista m =
     (if pLista = NULL then Some (Inr m)
      else case ler_cabeca m pLista of
        Inl e \<Rightarrow> Some (Inl e)
      | Inr h \<Rightarrow>
          (case esvaziar_laco C D pLista (pOrigemLista h) m of
             None \<Rightarrow> None
           | Some r \<Rightarrow> Some (res_bind r (LimparCabeca pLista))))"

definition LIS_DestruirLista ::
    "'c ced \<Rightarrow> (endereco \<Rightarrow> 'c \<Rightarrow> 'c) \<Rightarrow> endereco \<Rightarrow> 'c lis_mem \<Rightarrow> 'c lis_mem res option" where
  "LIS_DestruirLista C D pLista m =
     (if pLista = NULL then Some (Inr m)
      else case LIS_EsvaziarLista C D pLista m of
        None \<Rightarrow> None
      | Some r \<Rightarrow> Some (res_bind r (liberar C pLista)))"

definition LIS_InserirElementoAntes ::
    "'c ced \<Rightarrow> endereco \<Rightarrow> endereco \<Rightarrow> 'c lis_mem \<Rightarrow> (LIS_tpCondRet \<times> 'c lis_mem) res" where
  "LIS_InserirElementoAntes C pLista v m =
     (if pLista = NULL then Inr (LIS_CondRetNaoExiste, m)
      else res_bind (CriarElemento C pLista v m) (\<lambda>(p, m1).
        if p = NULL then Inr (LIS_CondRetFaltouMemoria, m1)
        else
          res_bind (mudar_elem p (\<lambda>e. e\<lparr>pCabeca := pLista, elemTipo := LIS_TipoEspacoNo\<rparr>) m1) (\<lambda>m2.
          let m3 = definir_tipo C p LIS_TipoEspacoNo m2 in
          res_bind (ler_cabeca m3 pLista) (\<lambda>h.
          res_bind
            (if pElemCorr h = NULL then mudar_cabeca pLista (\<lambda>h. h\<lparr>pOrigemLista := p, pFimLista := p\<rparr>) m3
             else res_bind (ler_elem m3 (pElemCorr h)) (\<lambda>corr.
               res_bind
                 (if pAnt corr \<noteq> NULL then
                    res_bind (mudar_elem p (\<lambda>e. e\<lparr>pAnt := pAnt corr\<rparr>) m3) (mudar_elem (pAnt corr) (\<lambda>e. e\<lparr>pProx := p\<rparr>))
                  else mudar_cabeca pLista (\<lambda>h. h\<lparr>pOrigemLista := p\<rparr>) m3) (\<lambda>m4.
               res_bind (mudar_elem p (\<lambda>e. e\<lparr>pProx := pElemCorr h\<rparr>) m4)
                 (mudar_elem (pElemCorr h) (\<lambda>e. e\<lparr>pAnt := p\<rparr>))))) (\<lambda>m5.
          res_bind (mudar_cabeca pLista (\<lambda>h. h\<lparr>pElemCorr := p\<rparr>) m5) (\<lambda>m6.
          let t = ced_obter_tipo C (controle m6) pLista in
          Inr (LIS_CondRetOK, definir_tipo C v t (definir_tipo C p t m6))))))))"

definition LIS_InserirElementoApos ::
    "'c ced \<Rightarrow> endereco \<Rightarrow> endereco \<Rightarrow> 'c lis_mem \<Rightarrow> (LIS_tpCondRet \<times> 'c lis_mem) res" where
  "LIS_InserirElementoApos C pLista v m =
     (if pLista = NULL then Inr (LIS_CondRetNaoExiste, m)
      else res_bind (CriarElemento C pLista v m) (\<lambda>(p, m1).
        if p = NULL then Inr (LIS_CondRetFaltouMemoria, m1)
        else
          res_bind (mudar_elem p (\<lambda>e. e\<lparr>pCabeca := pLista, elemTipo := LIS_TipoEspacoNo\<rparr>) m1) (\<lambda>m2.
          let m3 = definir_tipo C p LIS_TipoEspacoNo m2 in
          res_bind (ler_cabeca m3 pLista) (\<lambda>h.
          res_bind
            (if pElemCorr h = NULL then mudar_cabeca pLista (\<lambda>h. h\<lparr>pOrigemLista := p, pFimLista := p\<rparr>) m3
             else res_bind (ler_elem m3 (pElemCorr h)) (\<lambda>corr.
               res_bind
                 (if pProx corr \<noteq> NULL then
                    res_bind (mudar_elem p (\<lambda>e. e\<lparr>pProx := pProx corr\<rparr>) m3) (mudar_elem (pProx corr) (\<lambda>e. e\<lparr>pAnt := p\<rparr>))
                  else mudar_cabeca pLista (\<lambda>h. h\<lparr>pFimLista := p\<rparr>) m3) (\<lambda>m4.
               res_bind (mudar_elem p (\<lambda>e. e\<lparr>pAnt := pElemCorr h\<rparr>) m4)
                 (mudar_elem (pElemCorr h) (\<lambda>e. e\<lparr>pProx := p\<rparr>))))) (\<lambda>m5.
          res_bind (mudar_cabeca pLista (\<lambda>h. h\<lparr>pElemCorr := p\<rparr>) m5) (\<lambda>m6.
          Inr (LIS_CondRetOK, m6)))))))"

definition LIS_ExcluirElemento ::
    "'c ced \<Rightarrow> (endereco \<Rightarrow> 'c \<Rightarrow> 'c) \<Rightarrow> endereco \<Rightarrow> 'c lis_mem \<Rightarrow> (LIS_tpCondRet \<times> 'c lis_mem) res" where
  "LIS_ExcluirElemento C D pLista m =
     (if pLista = NULL then Inr (LIS_CondRetNaoExiste, m)
      else res_bind (ler_cabeca m pLista) (\<lambda>h.
        if pElemCorr h = NULL then Inr (LIS_CondRetListaVazia, m)
        else let p = pElemCorr h in
          res_bind (ler_elem m p) (\<lambda>e.
          res_bind
            (if pAnt e \<noteq> NULL then
               res_bind (mudar_elem (pAnt e) (\<lambda>a. a\<lparr>pProx := pProx e\<rparr>) m)
                 (mudar_cabeca pLista (\<lambda>h. h\<lparr>pElemCorr := pAnt e\<rparr>))
             else mudar_cabeca pLista (\<lambda>h. h\<lparr>pElemCorr := pProx e, pOrigemLista := pProx e\<rparr>) m) (\<lambda>m1.
          res_bind
            (if pProx e \<noteq> NULL then mudar_elem (pProx e) (\<lambda>x. x\<lparr>pAnt := pAnt e\<rparr>) m1
             else mudar_cabeca pLista (\<lambda>h. h\<lparr>pFimLista := pAnt e\<rparr>) m1) (\<lambda>m2.
          res_bind (LiberarElemento C D pLista p m2) (\<lambda>m3. Inr (LIS_CondRetOK, m3)))))))"

definition LIS_ObterValor :: "endereco \<Rightarrow> 'c lis_mem \<Rightarrow> endereco res" where
  "LIS_ObterValor pLista m =
     (if pLista = NULL then Inr NULL
      else res_bind (ler_cabeca m pLista) (\<lambda>h.
        if pElemCorr h = NULL then Inr NULL
        else res_bind (ler_elem m (pElemCorr h)) (\<lambda>e. Inr (pValor e))))"

definition IrInicioLista :: "endereco \<Rightarrow> 'c lis_mem \<Rightarrow> 'c lis_mem res" where
  "IrInicioLista pLista m =
     (if pLista = NULL then Inr m else mudar_cabeca pLista (\<lambda>h. h\<lparr>pElemCorr := pOrigemLista h\<rparr>) m)"

definition IrFinalLista :: "endereco \<Rightarrow> 'c lis_mem \<Rightarrow> 'c lis_mem res" where
  "IrFinalLista pLista m =
     (if pLista = NULL then Inr m else mudar_cabeca pLista (\<lambda>h. h\<lparr>pElemCorr := pFimLista h\<rparr>) m)"

text \<open>\<open>n\<close> steps along a link, which stop at \<open>NULL\<close>\<close>

fun andar :: "(tpElemLista \<Rightarrow> endereco) \<Rightarrow> nat \<Rightarrow> endereco \<Rightarrow> 'c lis_mem \<Rightarrow> endereco res" where
  "andar elo 0 p m = Inr p"
| "andar elo (Suc n) p m =
     (if p = NULL then Inr NULL else res_bind (ler_elem m p) (\<lambda>e. andar elo n (elo e) m))"

definition LIS_AvancarElementoCorrente ::
    "endereco \<Rightarrow> int \<Rightarrow> 'c lis_mem \<Rightarrow> (LIS_tpCondRet \<times> 'c lis_mem) res" where
  "LIS_AvancarElementoCorrente pLista n m =
     (if pLista = NULL then Inr (LIS_CondRetNaoExiste, m)
      else res_bind (ler_cabeca m pLista) (\<lambda>h.
        if pElemCorr h = NULL then Inr (LIS_CondRetListaVazia, m)
        else if 0 < n then
          res_bind (andar pProx (nat n) (pElemCorr h) m) (\<lambda>p.
            if p \<noteq> NULL then
              res_bind (mudar_cabeca pLista (\<lambda>h. h\<lparr>pElemCorr := p\<rparr>) m) (\<lambda>m'. Inr (LIS_CondRetOK, m'))
            else res_bind (mudar_cabeca pLista (\<lambda>h. h\<lparr>pElemCorr := pFimLista h\<rparr>) m)
              (\<lambda>m'. Inr (LIS_CondRetFimLista, m')))
        else if n < 0 then
          res_bind (andar pAnt (nat (- n)) (pElemCorr h) m) (\<lambda>p.
            if p \<noteq> NULL then
              res_bind (mudar_cabeca pLista (\<lambda>h. h\<lparr>pElemCorr := p\<rparr>) m) (\<lambda>m'. Inr (LIS_CondRetOK, m'))
            else res_bind (mudar_cabeca pLista (\<lambda>h. h\<lparr>pElemCorr := pOrigemLista h\<rparr>) m)
              (\<lambda>m'. Inr (LIS_CondRetFimLista, m')))
        else Inr (LIS_CondRetOK, m)))"

partial_function (option) procurar_laco :: "endereco \<Rightarrow> endereco \<Rightarrow> 'c lis_mem \<Rightarrow> endereco res option" where
  "procurar_laco v p m =
     (if p = NULL then Some (Inr NULL)
      else case ler_elem m p of
        Inl e \<Rightarrow> Some (Inl e)
      | Inr el \<Rightarrow> if pValor el = v then Some (Inr p) else procurar_laco v (pProx el) m)"

definition LIS_ProcurarValor ::
    "endereco \<Rightarrow> endereco \<Rightarrow> 'c lis_mem \<Rightarrow> (LIS_tpCondRet \<times> 'c lis_mem) res option" where
  "LIS_ProcurarValor pLista v m =
     (if pLista = NULL then Some (Inr (LIS_CondRetNaoExiste, m))
      else case ler_cabeca m pLista of
        Inl e \<Rightarrow> Some (Inl e)
      | Inr h \<Rightarrow>
          if pElemCorr h = NULL then Some (Inr (LIS_CondRetListaVazia, m))
          else case procurar_laco v (pElemCorr h) m of
            None \<Rightarrow> None
          | Some r \<Rightarrow> Some (res_bind r (\<lambda>p.
              if p = NULL then Inr (LIS_CondRetNaoAchou, m)
              else res_bind (mudar_cabeca pLista (\<lambda>h. h\<lparr>pElemCorr := p\<rparr>) m) (\<lambda>m'. Inr (LIS_CondRetOK, m')))))"

end
