(* ===== verification/ListaDebug.thy ===== *)
theory ListaDebug
  imports Lista
begin

text \<open>
  The instrumentation of the list (\<open>LISTA.C\<close>, under \<open>_DEBUG\<close>): \<open>LIS_DeturparLista\<close> damages a list in a
  chosen way, \<open>LIS_VerificarLista\<close> checks heads, links, values, types, the number of elements and leaks.

  \<open>EspacoLixo\<close> is a static array filled with the character \<open>x\<close>, read as an element when a pointer
  is directed to it.
\<close>

datatype LIS_tpModosDeturpacao =
    LIS_NaoDeturpa | LIS_DeturpaEliminaCorrente | LIS_DeturpaNULLpProx | LIS_DeturpaNULLpAnt
  | LIS_DeturpaLixopProx | LIS_DeturpaLixopAnt | LIS_DeturpaNULLpValorCorrente
  | LIS_DeturpaAlteraTipoEstrutura | LIS_DeturpaDesencadeiaSemFree | LIS_DeturpaNULLpCorrente
  | LIS_DeturpaNULLpOrigem | LIS_DeturpaAumentaNumeroElementos | LIS_DeturpaNULLpUltimo
  | LIS_DeturpaLixopUltimo | LIS_DeturpaLixopCorrente | LIS_DeturpaAlteraTipoNoCorrente
  | LIS_DeturpaAlteraTipoOrigem | LIS_DeturpaAlteraTipoUltimo | LIS_DeturpaNULLCabeca
  | LIS_DeturpaNumeroDeElementosNegativo | LIS_DeturpaLixopValorCorrente
  | OutroModo int  \<comment> \<open>a number that is no mode\<close>

datatype LIS_tpVerificar =
    LIS_Verificar_ListaInexistente | LIS_Verificar_Cabeca_pPrimeiroNull | LIS_Verificar_Cabeca_pUltimoNull
  | LIS_Verificar_Cabeca_NumeroDeElementosInvalido | LIS_Verificar_Cabeca_pPrimeiroIncorreto
  | LIS_Verificar_Cabeca_pUltimoIncorreto | LIS_Verificar_Elemento_ErroNoEncadeamento
  | LIS_Verificar_Elemento_pValorNull | LIS_Verificar_Elemento_pValorErro
  | LIS_Verificar_Cabeca_NumeroDeElementosInconsistente | LIS_Verificar_Cabeca_pCorrenteInconsistente
  | LIS_Verificar_Elemento_TipoInconsistente | LIS_Verificar_Cabeca_TipoInconsistente
  | LIS_Verificar_Lista_VazamentoDeMemoria | LIS_Verificar_ListaValida

definition elem_lixo :: tpElemLista where
  "elem_lixo = \<lparr>pCabeca = End 0x78787878, elemTipo = 0x78, pValor = End 0x78787878, pAnt = End 0x78787878, pProx = End 0x78787878\<rparr>"

section \<open>Damaging a list\<close>

text \<open>The modes that change the current element and need that there is one\<close>

definition deturpar_corrente ::
    "endereco \<Rightarrow> (tpElemLista \<Rightarrow> tpElemLista) \<Rightarrow> 'c lis_mem \<Rightarrow> (LIS_tpCondRet \<times> 'c lis_mem) res" where
  "deturpar_corrente pLista f m =
     res_bind (ler_cabeca m pLista) (\<lambda>h.
       if pElemCorr h = NULL then Inr (LIS_CondRetCorrenteIndefinido, m)
       else res_bind (mudar_elem (pElemCorr h) f m) (\<lambda>m'. Inr (LIS_CondRetOK, m')))"

text \<open>The modes that follow a pointer of the head without a test\<close>

definition deturpar_apontado ::
    "endereco \<Rightarrow> (LIS_tpLista \<Rightarrow> endereco) \<Rightarrow> (tpElemLista \<Rightarrow> tpElemLista) \<Rightarrow> 'c lis_mem \<Rightarrow>
       (LIS_tpCondRet \<times> 'c lis_mem) res" where
  "deturpar_apontado pLista q f m =
     res_bind (ler_cabeca m pLista) (\<lambda>h.
     res_bind (mudar_elem (q h) f m) (\<lambda>m'. Inr (LIS_CondRetOK, m')))"

definition deturpar_cabeca ::
    "endereco \<Rightarrow> (LIS_tpLista \<Rightarrow> LIS_tpLista) \<Rightarrow> 'c lis_mem \<Rightarrow> (LIS_tpCondRet \<times> 'c lis_mem) res" where
  "deturpar_cabeca pLista f m = res_bind (mudar_cabeca pLista f m) (\<lambda>m'. Inr (LIS_CondRetOK, m'))"

definition desencadear_sem_free :: "endereco \<Rightarrow> 'c lis_mem \<Rightarrow> (LIS_tpCondRet \<times> 'c lis_mem) res" where
  "desencadear_sem_free pLista m =
     res_bind (ler_cabeca m pLista) (\<lambda>h.
       if pElemCorr h = NULL then Inr (LIS_CondRetCorrenteIndefinido, m)
       else res_bind (ler_elem m (pElemCorr h)) (\<lambda>e.
         res_bind
           (if pAnt e \<noteq> NULL then mudar_elem (pAnt e) (\<lambda>a. a\<lparr>pProx := pProx e\<rparr>) m
            else mudar_cabeca pLista (\<lambda>h. h\<lparr>pOrigemLista := pProx e\<rparr>) m) (\<lambda>m1.
         res_bind
           (if pProx e \<noteq> NULL then mudar_elem (pProx e) (\<lambda>x. x\<lparr>pAnt := pAnt e\<rparr>) m1
            else mudar_cabeca pLista (\<lambda>h. h\<lparr>pFimLista := pAnt e\<rparr>) m1) (\<lambda>m2.
         deturpar_cabeca pLista (\<lambda>h. h\<lparr>NumeroDeElementos := NumeroDeElementos h - 1, pElemCorr := NULL\<rparr>) m2))))"

definition eliminar_corrente :: "'c ced \<Rightarrow> endereco \<Rightarrow> 'c lis_mem \<Rightarrow> (LIS_tpCondRet \<times> 'c lis_mem) res" where
  "eliminar_corrente C pLista m =
     res_bind (ler_cabeca m pLista) (\<lambda>h.
       if pElemCorr h = NULL then Inr (LIS_CondRetCorrenteIndefinido, m)
       else res_bind (liberar C (pElemCorr h) m)
         (deturpar_cabeca pLista (\<lambda>h. h\<lparr>pElemCorr := NULL, NumeroDeElementos := NumeroDeElementos h - 1\<rparr>)))"

definition LIS_DeturparLista ::
    "'c ced \<Rightarrow> endereco \<Rightarrow> LIS_tpModosDeturpacao \<Rightarrow> 'c lis_mem \<Rightarrow> (LIS_tpCondRet \<times> 'c lis_mem) res" where
  "LIS_DeturparLista C pLista acao m =
     (if pLista = NULL then Inr (LIS_CondRetNaoExiste, m)
      else case acao of
        LIS_NaoDeturpa \<Rightarrow> Inr (LIS_CondRetOK, m)
      | LIS_DeturpaEliminaCorrente \<Rightarrow> eliminar_corrente C pLista m
      | LIS_DeturpaNULLpProx \<Rightarrow> deturpar_corrente pLista (\<lambda>e. e\<lparr>pProx := NULL\<rparr>) m
      | LIS_DeturpaNULLpAnt \<Rightarrow> deturpar_corrente pLista (\<lambda>e. e\<lparr>pAnt := NULL\<rparr>) m
      | LIS_DeturpaLixopProx \<Rightarrow> deturpar_corrente pLista (\<lambda>e. e\<lparr>pProx := EspacoLixo\<rparr>) m
      | LIS_DeturpaLixopAnt \<Rightarrow> deturpar_corrente pLista (\<lambda>e. e\<lparr>pAnt := EspacoLixo\<rparr>) m
      | LIS_DeturpaNULLpValorCorrente \<Rightarrow> deturpar_corrente pLista (\<lambda>e. e\<lparr>pValor := NULL\<rparr>) m
      | LIS_DeturpaAlteraTipoEstrutura \<Rightarrow> deturpar_cabeca pLista (\<lambda>h. h\<lparr>cabTipo := cabTipo h + 1\<rparr>) m
      | LIS_DeturpaDesencadeiaSemFree \<Rightarrow> desencadear_sem_free pLista m
      | LIS_DeturpaNULLpCorrente \<Rightarrow> deturpar_apontado pLista pElemCorr (\<lambda>e. e\<lparr>pValor := NULL\<rparr>) m
      | LIS_DeturpaNULLpOrigem \<Rightarrow> deturpar_cabeca pLista (\<lambda>h. h\<lparr>pOrigemLista := NULL\<rparr>) m
      | LIS_DeturpaAumentaNumeroElementos \<Rightarrow>
          deturpar_cabeca pLista (\<lambda>h. h\<lparr>NumeroDeElementos := NumeroDeElementos h + 1\<rparr>) m
      | LIS_DeturpaNULLpUltimo \<Rightarrow> deturpar_cabeca pLista (\<lambda>h. h\<lparr>pFimLista := NULL\<rparr>) m
      | LIS_DeturpaLixopUltimo \<Rightarrow> deturpar_cabeca pLista (\<lambda>h. h\<lparr>pFimLista := EspacoLixo\<rparr>) m
      | LIS_DeturpaLixopCorrente \<Rightarrow> deturpar_cabeca pLista (\<lambda>h. h\<lparr>pElemCorr := EspacoLixo\<rparr>) m
      | LIS_DeturpaAlteraTipoNoCorrente \<Rightarrow>
          deturpar_apontado pLista pElemCorr (\<lambda>e. e\<lparr>elemTipo := elemTipo e + 1\<rparr>) m
      | LIS_DeturpaAlteraTipoOrigem \<Rightarrow>
          deturpar_apontado pLista pOrigemLista (\<lambda>e. e\<lparr>elemTipo := elemTipo e + 1\<rparr>) m
      | LIS_DeturpaAlteraTipoUltimo \<Rightarrow>
          deturpar_apontado pLista pFimLista (\<lambda>e. e\<lparr>elemTipo := elemTipo e + 1\<rparr>) m
      | LIS_DeturpaNULLCabeca \<Rightarrow> deturpar_apontado pLista pElemCorr (\<lambda>e. e\<lparr>pCabeca := NULL\<rparr>) m
      | LIS_DeturpaNumeroDeElementosNegativo \<Rightarrow> deturpar_cabeca pLista (\<lambda>h. h\<lparr>NumeroDeElementos := -2\<rparr>) m
      | LIS_DeturpaLixopValorCorrente \<Rightarrow> deturpar_apontado pLista pElemCorr (\<lambda>e. e\<lparr>pValor := EspacoLixo\<rparr>) m
      | OutroModo n \<Rightarrow> Inr (LIS_CondRetAcaoDeturpacaoInexistente, m))"

section \<open>Verifying a list\<close>

text \<open>A check gives a verdict, or nothing when the verification goes on.\<close>

definition checar :: "bool \<Rightarrow> LIS_tpVerificar \<Rightarrow> LIS_tpVerificar option res \<Rightarrow> LIS_tpVerificar option res" where
  "checar falha v resto = (if falha then Inr (Some v) else resto)"

definition verificar_cabeca :: "LIS_tpLista \<Rightarrow> 'c lis_mem \<Rightarrow> LIS_tpVerificar option res" where
  "verificar_cabeca h m =
     checar (pOrigemLista h = NULL \<and> (pElemCorr h \<noteq> NULL \<or> pFimLista h \<noteq> NULL \<or> NumeroDeElementos h \<noteq> 0))
       LIS_Verificar_Cabeca_pPrimeiroNull
     (checar (pFimLista h = NULL \<and> (pElemCorr h \<noteq> NULL \<or> pOrigemLista h \<noteq> NULL \<or> NumeroDeElementos h \<noteq> 0))
       LIS_Verificar_Cabeca_pUltimoNull
     (checar (NumeroDeElementos h < 0) LIS_Verificar_Cabeca_NumeroDeElementosInvalido
     (res_bind (if pOrigemLista h = NULL then Inr NULL else res_bind (ler_elem m (pOrigemLista h)) (\<lambda>e. Inr (pAnt e)))
       (\<lambda>a. checar (a \<noteq> NULL) LIS_Verificar_Cabeca_pPrimeiroIncorreto
     (res_bind (if pFimLista h = NULL then Inr NULL else res_bind (ler_elem m (pFimLista h)) (\<lambda>e. Inr (pProx e)))
       (\<lambda>x. checar (x \<noteq> NULL) LIS_Verificar_Cabeca_pUltimoIncorreto (Inr None)))))))"

definition verificar_elemento ::
    "'c ced \<Rightarrow> LIS_tpLista \<Rightarrow> endereco \<Rightarrow> tpElemLista \<Rightarrow> 'c lis_mem \<Rightarrow> LIS_tpVerificar option res" where
  "verificar_elemento C h p e m =
     checar (ced_obter_tipo C (controle m) p \<noteq> elemTipo e) LIS_Verificar_Elemento_TipoInconsistente
     (checar (ced_obter_tipo C (controle m) (pCabeca e) \<noteq> cabTipo h) LIS_Verificar_Cabeca_TipoInconsistente
     (res_bind (if pAnt e = NULL then Inr (pOrigemLista h \<noteq> p)
                else res_bind (ler_elem m (pAnt e)) (\<lambda>a. Inr (pProx a \<noteq> p)))
       (\<lambda>f. checar f LIS_Verificar_Elemento_ErroNoEncadeamento
     (res_bind (if pProx e = NULL then Inr (pFimLista h \<noteq> p)
                else res_bind (ler_elem m (pProx e)) (\<lambda>x. Inr (pAnt x \<noteq> p)))
       (\<lambda>f. checar f LIS_Verificar_Elemento_ErroNoEncadeamento
     (checar (pValor e = NULL) LIS_Verificar_Elemento_pValorNull
     (checar (pValor e = EspacoLixo) LIS_Verificar_Elemento_pValorErro (Inr None))))))))"

definition marcar :: "'c ced \<Rightarrow> endereco \<Rightarrow> 'c lis_mem \<Rightarrow> 'c lis_mem" where
  "marcar C p m = m\<lparr>controle := ced_marcar_ativo C p (controle m)\<rparr>"

text \<open>The loop over the elements: a verdict, or the number of elements and whether the current one is among them.\<close>

partial_function (option) verificar_laco ::
    "'c ced \<Rightarrow> LIS_tpLista \<Rightarrow> endereco \<Rightarrow> int \<Rightarrow> bool \<Rightarrow> 'c lis_mem \<Rightarrow>
       ((LIS_tpVerificar + int \<times> bool) \<times> 'c lis_mem) res option" where
  "verificar_laco C h p contador achou m =
     (if p = NULL then Some (Inr (Inr (contador, achou), m))
      else case ler_elem m p of
        Inl err \<Rightarrow> Some (Inl err)
      | Inr e \<Rightarrow>
          (case verificar_elemento C h p e m of
             Inl err \<Rightarrow> Some (Inl err)
           | Inr (Some v) \<Rightarrow> Some (Inr (Inl v, m))
           | Inr None \<Rightarrow>
               verificar_laco C h (pProx e) (contador + 1) (achou \<or> pElemCorr h = p)
                 (marcar C (pValor e) (marcar C p m))))"

definition vazamento :: "'c ced \<Rightarrow> int \<Rightarrow> 'c \<Rightarrow> bool" where
  "vazamento C tipoCabeca c \<longleftrightarrow>
     list_ex (\<lambda>p. ced_obter_tipo C c p = tipoCabeca \<and> \<not> ced_eh_ativo C c p) (ced_espacos C c)"

text \<open>What follows the loop\<close>

definition verificar_fim ::
    "'c ced \<Rightarrow> LIS_tpLista \<Rightarrow> int \<Rightarrow> int \<Rightarrow> bool \<Rightarrow> 'c lis_mem \<Rightarrow> LIS_tpVerificar" where
  "verificar_fim C h tipoCabeca contador achou m =
     (if NumeroDeElementos h \<noteq> contador then LIS_Verificar_Cabeca_NumeroDeElementosInconsistente
      else if pElemCorr h \<noteq> NULL \<and> \<not> achou then LIS_Verificar_Cabeca_pCorrenteInconsistente
      else if vazamento C tipoCabeca (controle m) then LIS_Verificar_Lista_VazamentoDeMemoria
      else LIS_Verificar_ListaValida)"

definition LIS_VerificarLista :: "'c ced \<Rightarrow> endereco \<Rightarrow> 'c lis_mem \<Rightarrow> (LIS_tpVerificar \<times> 'c lis_mem) res option" where
  "LIS_VerificarLista C pLista m =
     (if pLista = NULL then Some (Inr (LIS_Verificar_ListaInexistente, m))
      else case ler_cabeca m pLista of
        Inl err \<Rightarrow> Some (Inl err)
      | Inr h \<Rightarrow>
          (case verificar_cabeca h m of
             Inl err \<Rightarrow> Some (Inl err)
           | Inr (Some v) \<Rightarrow> Some (Inr (v, m))
           | Inr None \<Rightarrow>
               let m1 = m\<lparr>controle := ced_marcar_inativos C (controle m)\<rparr>;
                   tipoCabeca = ced_obter_tipo C (controle m1) pLista;
                   m2 = marcar C pLista m1
               in if tipoCabeca \<noteq> LIS_TipoEspacoCabeca then Some (Inr (LIS_Verificar_Cabeca_TipoInconsistente, m2))
                  else case verificar_laco C h (pOrigemLista h) 0 False m2 of
                    None \<Rightarrow> None
                  | Some (Inl err) \<Rightarrow> Some (Inl err)
                  | Some (Inr (Inl v, m3)) \<Rightarrow> Some (Inr (v, m3))
                  | Some (Inr (Inr (contador, achou), m3)) \<Rightarrow>
                      Some (Inr (verificar_fim C h tipoCabeca contador achou m3, m3))))"

end
