(* ===== verification/ListaProofs.thy ===== *)
theory ListaProofs
  imports ListaDebug "HOL-Library.Multiset"
begin

text \<open>
  Facts about the list: the verifier comes to an end on every memory; the shape of an undamaged list,
  cell by cell, and what linking and unlinking an element do to it.
\<close>

section \<open>The verifier comes to an end\<close>

text \<open>
  The elements visited so far are \<open>vs\<close>; each of them points back to a visited one or is the first, so the
  next element is a new one.
\<close>

definition visita :: "'c lis_mem \<Rightarrow> endereco set \<Rightarrow> endereco \<Rightarrow> bool" where
  "visita m vs p \<longleftrightarrow> p \<notin> vs \<and> NULL \<notin> vs \<and> vs \<subseteq> dom (celulas m) \<and>
     (\<forall>v \<in> insert p vs. \<forall>e. ler_elem m v = Inr e \<longrightarrow> v \<noteq> NULL \<longrightarrow> pAnt e = NULL \<or> pAnt e \<in> vs)"

lemma ler_marcar [simp]:
  "ler_elem (marcar C q m) p = ler_elem m p" "ler_cabeca (marcar C q m) p = ler_cabeca m p"
  "celulas (marcar C q m) = celulas m"
  by (simp_all add: marcar_def ler_elem_def ler_cabeca_def)

lemma ler_elem_dom: "ler_elem m p = Inr e \<Longrightarrow> p \<in> dom (celulas m)"
  by (auto simp: ler_elem_def split: option.splits)

lemma checar_None: "checar f v r = Inr None \<longleftrightarrow> \<not> f \<and> r = Inr None"
  by (auto simp: checar_def)

lemma visita_marcar: "visita (marcar C q m) vs p = visita m vs p"
  by (simp add: visita_def)

lemma visita_step:
  assumes "visita m vs p" "p \<noteq> NULL" "ler_elem m p = Inr e" "verificar_elemento C h p e m' = Inr None"
    and same: "\<And>q. ler_elem m' q = ler_elem m q"
  shows "visita m (insert p vs) (pProx e)"
proof -
  let ?q = "pProx e"
  have succ: "?q = NULL \<or> (\<exists>x. ler_elem m ?q = Inr x \<and> pAnt x = p)"
    using assms(4) same[of ?q]
    by (auto simp: verificar_elemento_def checar_None res_bind_eq_Inr split: if_splits)
  have "?q \<notin> insert p vs"
  proof
    assume q: "?q \<in> insert p vs"
    with assms(1,2) have "?q \<noteq> NULL" by (cases "?q = NULL") (auto simp: visita_def)
    with succ obtain x where x: "ler_elem m ?q = Inr x" "pAnt x = p" by blast
    with q \<open>?q \<noteq> NULL\<close> assms(1) have "p = NULL \<or> p \<in> vs" by (auto simp: visita_def)
    with assms(1,2) show False by (simp add: visita_def)
  qed
  with succ assms ler_elem_dom[OF assms(3)] show ?thesis by (auto simp: visita_def)
qed

lemma verificar_laco_fim:
  assumes "finite (dom (celulas m))" "visita m vs p"
  shows "\<exists>r. verificar_laco C h p n achou m = Some r"
  using assms
proof (induction "card (dom (celulas m) - vs)" arbitrary: m vs p n achou rule: less_induct)
  case less
  show ?case
  proof (cases "p = NULL")
    case True
    then show ?thesis by (simp add: verificar_laco.simps)
  next
    case False
    show ?thesis
    proof (cases "\<exists>e. ler_elem m p = Inr e \<and> verificar_elemento C h p e m = Inr None")
      case True
      then obtain e where e: "ler_elem m p = Inr e" "verificar_elemento C h p e m = Inr None" by blast
      have "p \<in> dom (celulas m) - vs" using ler_elem_dom[OF e(1)] less.prems(2) by (simp add: visita_def)
      then have "card (dom (celulas m) - insert p vs) < card (dom (celulas m) - vs)"
        using less.prems(1) by (intro psubset_card_mono) auto
      with less.hyps[of "marcar C (pValor e) (marcar C p m)" "insert p vs" "pProx e"] less.prems(1)
        visita_step[OF less.prems(2) False e]
      show ?thesis using False e by (simp add: verificar_laco.simps[of C h p] visita_marcar)
    next
      case stop: False
      then show ?thesis using False
        by (auto simp: verificar_laco.simps[of C h p] split: sum.split option.split)
    qed
  qed
qed

section \<open>Inserting and removing in a list\<close>

definition inserir_em :: "nat \<Rightarrow> 'a \<Rightarrow> 'a list \<Rightarrow> 'a list" where
  "inserir_em j v xs = take j xs @ v # drop j xs"

definition remover_em :: "nat \<Rightarrow> 'a list \<Rightarrow> 'a list" where
  "remover_em j xs = take j xs @ drop (Suc j) xs"

lemma length_em [simp]:
  "length (inserir_em j v xs) = Suc (length xs)"
  "j < length xs \<Longrightarrow> length (remover_em j xs) = length xs - 1"
  by (auto simp: inserir_em_def remover_em_def)

lemma nth_inserir_em:
  "j \<le> length xs \<Longrightarrow> i \<le> length xs \<Longrightarrow>
   inserir_em j v xs ! i = (if i < j then xs ! i else if i = j then v else xs ! (i - 1))"
  by (auto simp: inserir_em_def nth_append nth_Cons' min_def)

lemma nth_remover_em:
  "j < length xs \<Longrightarrow> i < length xs - 1 \<Longrightarrow> remover_em j xs ! i = (if i < j then xs ! i else xs ! Suc i)"
  by (auto simp: remover_em_def nth_append min_def)

lemma set_inserir_em [simp]: "set (inserir_em j v xs) = insert v (set xs)"
proof -
  have "set (take j xs) \<union> set (drop j xs) = set xs" using set_append[of "take j xs" "drop j xs"] by simp
  then show ?thesis by (auto simp: inserir_em_def)
qed

lemma mset_inserir_em: "mset (inserir_em j v xs) = mset (v # xs)"
proof -
  have "mset (inserir_em j v xs) = add_mset v (mset (take j xs @ drop j xs))"
    by (simp add: inserir_em_def del: append_take_drop_id)
  then show ?thesis by (simp only: append_take_drop_id mset.simps)
qed

lemma distinct_inserir_em [simp]: "distinct (inserir_em j v xs) \<longleftrightarrow> distinct xs \<and> v \<notin> set xs"
  using mset_eq_imp_distinct_iff[OF mset_inserir_em[of j v xs]] by auto

lemma distinct_filter_inserir_em:
  "distinct (filter P (inserir_em j v xs)) \<longleftrightarrow> distinct (filter P (v # xs))"
  by (rule mset_eq_imp_distinct_iff) (simp only: mset_filter mset_inserir_em)

lemma remover_em_split: "j < length xs \<Longrightarrow> mset xs = add_mset (xs ! j) (mset (remover_em j xs))"
  using arg_cong[OF id_take_nth_drop[of j xs], of mset] by (simp add: remover_em_def)

lemma distinct_remover_em:
  assumes "j < length xs" "distinct xs"
  shows "distinct (remover_em j xs)" "set (remover_em j xs) = set xs - {xs ! j}"
proof -
  have "distinct (xs ! j # remover_em j xs)"
    using mset_eq_imp_distinct_iff[of xs "xs ! j # remover_em j xs"] remover_em_split[OF assms(1)] assms(2) by simp
  moreover have "set xs = insert (xs ! j) (set (remover_em j xs))"
    using arg_cong[OF remover_em_split[OF assms(1)], of set_mset] by simp
  ultimately show "distinct (remover_em j xs)" "set (remover_em j xs) = set xs - {xs ! j}" by auto
qed

lemma set_remover_em: "set (remover_em j xs) \<subseteq> set xs"
  by (auto simp: remover_em_def dest: in_set_takeD in_set_dropD)

section \<open>The cells of a list\<close>

definition antes :: "endereco list \<Rightarrow> nat \<Rightarrow> endereco" where
  "antes es i = (if i = 0 then NULL else es ! (i - 1))"

definition depois :: "endereco list \<Rightarrow> nat \<Rightarrow> endereco" where
  "depois es i = (if Suc i < length es then es ! Suc i else NULL)"

definition no :: "endereco \<Rightarrow> endereco \<Rightarrow> endereco \<Rightarrow> endereco \<Rightarrow> tpElemLista" where
  "no L v a x = \<lparr>pCabeca = L, elemTipo = LIS_TipoEspacoNo, pValor = v, pAnt = a, pProx = x\<rparr>"

lemma no_simps [simp]:
  "pCabeca (no L v a x) = L" "elemTipo (no L v a x) = LIS_TipoEspacoNo" "pValor (no L v a x) = v"
  "pAnt (no L v a x) = a" "pProx (no L v a x) = x"
  "(no L v a x)\<lparr>pAnt := b\<rparr> = no L v b x" "(no L v a x)\<lparr>pProx := b\<rparr> = no L v a b"
  "(no L v a x)\<lparr>pValor := b\<rparr> = no L b a x"
  by (simp_all add: no_def)

definition elos :: "(endereco \<Rightarrow> lis_celula option) \<Rightarrow> endereco \<Rightarrow> endereco list \<Rightarrow> endereco list \<Rightarrow> bool" where
  "elos g L es xs \<longleftrightarrow> length xs = length es \<and>
     (\<forall>i < length es. g (es ! i) = Some (Elem (no L (xs ! i) (antes es i) (depois es i))))"

text \<open>A new element \<open>p\<close> in front of position \<open>j\<close>\<close>

lemma elos_inserir:
  assumes len: "length xs = length es" "j \<le> length es"
    and p: "g p = Some (Elem (no L v (antes es j) (if j < length es then es ! j else NULL)))"
    and rest: "\<And>i. i < length es \<Longrightarrow> g (es ! i) = Some (Elem (no L (xs ! i)
      (if i = j then p else antes es i) (if Suc i = j then p else depois es i)))"
  shows "elos g L (inserir_em j p es) (inserir_em j v xs)"
  unfolding elos_def
proof (intro conjI allI impI)
  show "length (inserir_em j v xs) = length (inserir_em j p es)" using len by simp
  fix i assume i: "i < length (inserir_em j p es)"
  consider "i < j" | "i = j" | k where "i = Suc k" "j \<le> k" by (metis not_less_less_Suc_eq less_Suc_eq_le not0_implies_Suc not_less0 linorder_neqE_nat)
  then show "g (inserir_em j p es ! i) = Some (Elem (no L (inserir_em j v xs ! i)
      (antes (inserir_em j p es) i) (depois (inserir_em j p es) i)))"
  proof cases
    case 1
    with len i rest[of i] show ?thesis by (auto simp: nth_inserir_em antes_def depois_def)
  next
    case 2
    with len i p show ?thesis by (auto simp: nth_inserir_em antes_def depois_def)
  next
    case 3
    with len i rest[of k] show ?thesis by (auto simp: nth_inserir_em antes_def depois_def)
  qed
qed

text \<open>The element at position \<open>j\<close> is taken out\<close>

lemma elos_remover:
  assumes len: "length xs = length es" "j < length es"
    and rest: "\<And>i. i < length es \<Longrightarrow> i \<noteq> j \<Longrightarrow> g (es ! i) = Some (Elem (no L (xs ! i)
      (if i = Suc j then antes es j else antes es i) (if Suc i = j then depois es j else depois es i)))"
  shows "elos g L (remover_em j es) (remover_em j xs)"
  unfolding elos_def
proof (intro conjI allI impI)
  show "length (remover_em j xs) = length (remover_em j es)" using len by simp
  fix i assume i: "i < length (remover_em j es)"
  show "g (remover_em j es ! i) = Some (Elem (no L (remover_em j xs ! i)
      (antes (remover_em j es) i) (depois (remover_em j es) i)))"
  proof (cases "i < j")
    case True
    with len i rest[of i] show ?thesis by (auto simp: nth_remover_em antes_def depois_def)
  next
    case False
    with len i rest[of "Suc i"] show ?thesis by (auto simp: nth_remover_em antes_def depois_def)
  qed
qed

text \<open>The cells after an insertion, and after an element was taken out of its list\<close>

definition ligado where
  "ligado g L h es xs j p v = (\<lambda>q.
     if q = p then Some (Elem (no L v (antes es j) (if j < length es then es ! j else NULL)))
     else if q = L then Some (Cabeca h)
     else if 0 < j \<and> q = es ! (j - 1) then Some (Elem (no L (xs ! (j - 1)) (antes es (j - 1)) p))
     else if j < length es \<and> q = es ! j then Some (Elem (no L (xs ! j) p (depois es j)))
     else g q)"

definition desligado where
  "desligado g L h es xs j = (\<lambda>q.
     if q = L then Some (Cabeca h)
     else if 0 < j \<and> q = es ! (j - 1) then Some (Elem (no L (xs ! (j - 1)) (antes es (j - 1)) (depois es j)))
     else if Suc j < length es \<and> q = es ! Suc j then Some (Elem (no L (xs ! Suc j) (antes es j) (depois es (Suc j))))
     else g q)"

lemma elos_ligado:
  assumes "elos g L es xs" "distinct (L # es)" "p \<notin> set (L # es)" "j \<le> length es"
  shows "elos (ligado g L h es xs j p v) L (inserir_em j p es) (inserir_em j v xs)"
proof (rule elos_inserir)
  show "length xs = length es" "j \<le> length es" using assms by (simp_all add: elos_def)
  show "ligado g L h es xs j p v p = Some (Elem (no L v (antes es j) (if j < length es then es ! j else NULL)))"
    by (simp add: ligado_def)
  fix i assume i: "i < length es"
  then have "es ! i \<noteq> p" "es ! i \<noteq> L" using assms by (auto dest: nth_mem)
  moreover have "es ! i = es ! k \<longleftrightarrow> i = k" if "k < length es" for k
    using that i assms(2) by (simp add: nth_eq_iff_index_eq)
  ultimately show "ligado g L h es xs j p v (es ! i) = Some (Elem (no L (xs ! i)
      (if i = j then p else antes es i) (if Suc i = j then p else depois es i)))"
    using assms(1,4) i by (auto simp: ligado_def elos_def)
qed

lemma elos_desligado:
  assumes "elos g L es xs" "distinct (L # es)" "j < length es"
    and g': "\<And>q. q \<noteq> es ! j \<Longrightarrow> g' q = desligado g L h es xs j q"
  shows "elos g' L (remover_em j es) (remover_em j xs)"
proof (rule elos_remover)
  show "length xs = length es" "j < length es" using assms by (simp_all add: elos_def)
  fix i assume i: "i < length es" "i \<noteq> j"
  then have "es ! i \<noteq> L" using assms by (auto dest: nth_mem)
  moreover have eq: "es ! i = es ! k \<longleftrightarrow> i = k" if "k < length es" for k
    using that i assms(2) by (simp add: nth_eq_iff_index_eq)
  moreover have "g' (es ! i) = desligado g L h es xs j (es ! i)" using g' eq[OF assms(3)] i by simp
  ultimately show "g' (es ! i) = Some (Elem (no L (xs ! i)
      (if i = Suc j then antes es j else antes es i) (if Suc i = j then depois es j else depois es i)))"
    using assms(1,3) i by (auto simp: desligado_def elos_def)
qed

section \<open>Lists in memory\<close>

definition primeiro :: "endereco list \<Rightarrow> endereco" where
  "primeiro es = (if es = [] then NULL else es ! 0)"

definition ultimo :: "endereco list \<Rightarrow> endereco" where
  "ultimo es = (if es = [] then NULL else es ! (length es - 1))"

text \<open>
  The list with head \<open>h\<close> at \<open>L\<close>, elements \<open>es\<close> and values \<open>xs\<close>: the cells, the spaces and their types. Values
  that are not \<open>NULL\<close> are spaces of the client, each in the list once.
\<close>

definition valores_ok :: "'c ced \<Rightarrow> 'c \<Rightarrow> endereco \<Rightarrow> endereco list \<Rightarrow> endereco list \<Rightarrow> bool" where
  "valores_ok C c L es xs \<longleftrightarrow>
     distinct (filter (\<lambda>v. v \<noteq> NULL) xs) \<and> set xs \<inter> set (L # es) = {} \<and> set xs - {NULL} \<subseteq> set (ced_espacos C c)"

definition espacos_ok :: "'c ced \<Rightarrow> 'c \<Rightarrow> endereco \<Rightarrow> endereco list \<Rightarrow> bool" where
  "espacos_ok C c L es \<longleftrightarrow> distinct (L # es) \<and> set (L # es) \<subseteq> set (ced_espacos C c) \<and>
     ced_obter_tipo C c L = LIS_TipoEspacoCabeca \<and> (\<forall>p \<in> set es. ced_obter_tipo C c p = LIS_TipoEspacoNo)"

definition cabeca_ok :: "LIS_tpLista \<Rightarrow> endereco list \<Rightarrow> bool" where
  "cabeca_ok h es \<longleftrightarrow> pOrigemLista h = primeiro es \<and> pFimLista h = ultimo es \<and>
     NumeroDeElementos h = int (length es) \<and> cabTipo h = LIS_TipoEspacoCabeca"

definition forma :: "'c ced \<Rightarrow> 'c lis_mem \<Rightarrow> endereco \<Rightarrow> LIS_tpLista \<Rightarrow> endereco list \<Rightarrow> endereco list \<Rightarrow> bool" where
  "forma C m L h es xs \<longleftrightarrow> celulas m L = Some (Cabeca h) \<and> elos (celulas m) L es xs \<and> cabeca_ok h es \<and>
     espacos_ok C (controle m) L es \<and> valores_ok C (controle m) L es xs \<and>
     celulas m EspacoLixo = Some (Elem elem_lixo)"

text \<open>With a current element, which only the empty list lacks\<close>

definition lista_ok ::
    "'c ced \<Rightarrow> 'c lis_mem \<Rightarrow> endereco \<Rightarrow> endereco list \<Rightarrow> endereco list \<Rightarrow> nat option \<Rightarrow> bool" where
  "lista_ok C m L es xs cur \<longleftrightarrow> (\<exists>h. forma C m L h es xs \<and>
     (case cur of None \<Rightarrow> es = [] \<and> pElemCorr h = NULL | Some i \<Rightarrow> i < length es \<and> pElemCorr h = es ! i))"

text \<open>A value that may be inserted\<close>

definition valor_novo :: "'c ced \<Rightarrow> 'c lis_mem \<Rightarrow> endereco \<Rightarrow> endereco list \<Rightarrow> endereco list \<Rightarrow> endereco \<Rightarrow> bool" where
  "valor_novo C m L es xs v \<longleftrightarrow>
     v = NULL \<or> v \<in> set (ced_espacos C (controle m)) \<and> v \<notin> set (L # es) \<and> v \<notin> set xs"

text \<open>The function that destroys a value touches only the space of the value.\<close>

locale lis_cliente = ced_laws C for C :: "'c ced" +
  fixes D :: "endereco \<Rightarrow> 'c \<Rightarrow> 'c"
  assumes destruir_espacos: "v \<in> set (ced_espacos C c) \<Longrightarrow>
      set (ced_espacos C c) - {v} \<subseteq> set (ced_espacos C (D v c)) \<and> set (ced_espacos C (D v c)) \<subseteq> set (ced_espacos C c)"
    and destruir_tipo: "q \<noteq> v \<Longrightarrow> ced_obter_tipo C (D v c) q = ced_obter_tipo C c q"

text \<open>\<open>DestruirValor\<close> of the test module frees the value.\<close>

interpretation ref_cliente: lis_cliente ref_ced "ced_free ref_ced"
  by unfold_locales (auto simp: ref_ced.free_espacos ref_ced.free_outros)

lemma mudar_cabeca_ok:
  "celulas m p = Some (Cabeca h) \<Longrightarrow> mudar_cabeca p f m = Inr (m\<lparr>celulas := (celulas m)(p \<mapsto> Cabeca (f h))\<rparr>)"
  by (simp add: mudar_cabeca_def ler_cabeca_def)

lemma mudar_elem_ok:
  "celulas m p = Some (Elem e) \<Longrightarrow> mudar_elem p f m = Inr (m\<lparr>celulas := (celulas m)(p \<mapsto> Elem (f e))\<rparr>)"
  by (simp add: mudar_elem_def ler_elem_def)

lemma ler_ok:
  "celulas m p = Some (Cabeca h) \<Longrightarrow> ler_cabeca m p = Inr h"
  "celulas m p = Some (Elem e) \<Longrightarrow> ler_elem m p = Inr e"
  by (simp_all add: ler_cabeca_def ler_elem_def)

lemmas memoria_ok = mudar_cabeca_ok mudar_elem_ok ler_ok definir_tipo_def

end
