(* ===== verification/ListaOps.thy ===== *)
theory ListaOps
  imports ListaProofs
begin

text \<open>
  The effect of every operation on an undamaged list: the element is linked or taken out at the right
  place, the head is kept up, and no access fails.
\<close>

lemmas mem_defs = mudar_cabeca_def mudar_elem_def ler_cabeca_def ler_elem_def definir_tipo_def

context lis_cliente
begin

lemma forma_controle:
  assumes "forma C m L h es xs" "set (L # es) \<union> (set xs - {NULL}) \<subseteq> set (ced_espacos C c)"
    and "\<And>q. q \<in> set (L # es) \<Longrightarrow> ced_obter_tipo C c q = ced_obter_tipo C (controle m) q"
  shows "forma C (m\<lparr>controle := c\<rparr>) L h es xs"
  using assms by (auto simp: forma_def espacos_ok_def valores_ok_def)

lemma forma_livre:
  assumes "forma C m L h es xs"
  shows "NULL \<notin> set (L # es)" "EspacoLixo \<notin> set (L # es)" "distinct (L # es)" "L \<noteq> NULL"
    "\<And>i. i < length es \<Longrightarrow> es ! i \<noteq> NULL \<and> es ! i \<noteq> L \<and> L \<noteq> es ! i \<and> es ! i \<noteq> EspacoLixo \<and>
       celulas m (es ! i) = Some (Elem (no L (xs ! i) (antes es i) (depois es i)))"
    "\<And>i. i < length es \<Longrightarrow> Suc i < length es \<Longrightarrow> es ! Suc i \<noteq> es ! i \<and> es ! i \<noteq> es ! Suc i"
    "celulas m L = Some (Cabeca h)" "length xs = length es"
proof -
  from assms have s: "set (L # es) \<subseteq> set (ced_espacos C (controle m))" and d: "distinct (L # es)"
    and e: "elos (celulas m) L es xs" and c: "celulas m L = Some (Cabeca h)"
    by (simp_all add: forma_def espacos_ok_def)
  then show z: "NULL \<notin> set (L # es)" "EspacoLixo \<notin> set (L # es)" using nulo_livre lixo_livre by blast+
  from d c show "distinct (L # es)" "celulas m L = Some (Cabeca h)" by simp_all
  from z show "L \<noteq> NULL" by auto
  from e show "length xs = length es" by (simp add: elos_def)
  show "es ! i \<noteq> NULL \<and> es ! i \<noteq> L \<and> L \<noteq> es ! i \<and> es ! i \<noteq> EspacoLixo \<and>
      celulas m (es ! i) = Some (Elem (no L (xs ! i) (antes es i) (depois es i)))" if "i < length es" for i
    using nth_mem[OF that] z d e that unfolding elos_def by (metis distinct.simps(2) list.set_intros(2))
  show "es ! Suc i \<noteq> es ! i \<and> es ! i \<noteq> es ! Suc i" if "i < length es" "Suc i < length es" for i
    using that d by (simp add: nth_eq_iff_index_eq)
qed

lemma CriarElemento_ok:
  assumes f: "forma C m L h es xs" and malloc: "ced_malloc C (controle m) = (p, c)"
  shows "p = NULL \<Longrightarrow> CriarElemento C L v m = Inr (NULL, m\<lparr>controle := c\<rparr>) \<and> forma C (m\<lparr>controle := c\<rparr>) L h es xs"
    and "p \<noteq> NULL \<Longrightarrow> p \<notin> set (L # es) \<and> p \<notin> set xs \<and> p \<noteq> EspacoLixo \<and> L \<noteq> p"
proof -
  have sub: "set (L # es) \<union> (set xs - {NULL}) \<subseteq> set (ced_espacos C (controle m))"
    using f by (auto simp: forma_def espacos_ok_def valores_ok_def)
  show "CriarElemento C L v m = Inr (NULL, m\<lparr>controle := c\<rparr>) \<and> forma C (m\<lparr>controle := c\<rparr>) L h es xs" if "p = NULL"
  proof
    show "CriarElemento C L v m = Inr (NULL, m\<lparr>controle := c\<rparr>)" using malloc that by (simp add: CriarElemento_def)
    show "forma C (m\<lparr>controle := c\<rparr>) L h es xs"
    proof (rule forma_controle[OF f])
      show "set (L # es) \<union> (set xs - {NULL}) \<subseteq> set (ced_espacos C c)" using malloc_falha malloc that sub by blast
      show "ced_obter_tipo C c q = ced_obter_tipo C (controle m) q" if "q \<in> set (L # es)" for q
        using malloc_outros[OF malloc, of q] that forma_livre(1)[OF f] \<open>p = NULL\<close> by auto
    qed
  qed
  show "p \<notin> set (L # es) \<and> p \<notin> set xs \<and> p \<noteq> EspacoLixo \<and> L \<noteq> p" if "p \<noteq> NULL"
    using malloc_novo[OF malloc that] sub lixo_livre[of c] that by auto
qed

text \<open>A new element linked at position \<open>j\<close>, and the spaces of the new list\<close>

lemma ligado_forma:
  assumes f: "forma C m L h es xs" and malloc: "ced_malloc C (controle m) = (p, c)" "p \<noteq> NULL"
    and v: "v = NULL \<or> v \<in> set (ced_espacos C (controle m)) \<and> v \<notin> set (L # es) \<and> v \<notin> set xs"
    and j: "j \<le> length es"
    and cel: "celulas m' = ligado (celulas m) L h' es xs j p v" and cab: "cabeca_ok h' (inserir_em j p es)"
    and esp: "set (ced_espacos C (controle m')) = set (ced_espacos C c)"
    and tipos: "\<And>q. q \<in> set (L # es) \<Longrightarrow> ced_obter_tipo C (controle m') q = ced_obter_tipo C c q"
      "ced_obter_tipo C (controle m') p = LIS_TipoEspacoNo"
  shows "forma C m' L h' (inserir_em j p es) (inserir_em j v xs)"
proof -
  note novo = malloc_novo[OF malloc] CriarElemento_ok(2)[OF f malloc]
  have tipo: "ced_obter_tipo C (controle m') q = ced_obter_tipo C (controle m) q" if "q \<in> set (L # es)" for q
    using that novo(2) tipos(1)[OF that] malloc_outros[OF malloc(1), of q] by auto
  from f have s: "elos (celulas m) L es xs" "espacos_ok C (controle m) L es" "valores_ok C (controle m) L es xs"
    "celulas m EspacoLixo = Some (Elem elem_lixo)"
    by (simp_all add: forma_def)
  have "elos (celulas m') L (inserir_em j p es) (inserir_em j v xs)"
    unfolding cel by (rule elos_ligado) (use s(1) forma_livre(3)[OF f] novo(2) j in auto)
  moreover have "espacos_ok C (controle m') L (inserir_em j p es)"
    using s(2) novo esp tipo tipos(2) by (auto simp: espacos_ok_def)
  moreover have "valores_ok C (controle m') L (inserir_em j p es) (inserir_em j v xs)"
    unfolding valores_ok_def
  proof (intro conjI)
    from s(3) v show "distinct (filter (\<lambda>v. v \<noteq> NULL) (inserir_em j v xs))"
      unfolding distinct_filter_inserir_em valores_ok_def by auto
    have "v \<notin> set (L # es)" using v forma_livre(1)[OF f] by blast
    moreover have "v \<noteq> p" using v novo(1) malloc(2) by blast
    moreover have "set xs \<inter> set (L # es) = {}" using s(3) by (simp only: valores_ok_def)
    ultimately show "set (inserir_em j v xs) \<inter> set (L # inserir_em j p es) = {}" using novo(2) by auto
    show "set (inserir_em j v xs) - {NULL} \<subseteq> set (ced_espacos C (controle m'))"
      using s(3) v novo(1) unfolding esp valores_ok_def set_inserir_em by blast
  qed
  moreover have "celulas m' L = Some (Cabeca h')" using novo(2) by (simp add: cel ligado_def)
  moreover have "celulas m' EspacoLixo = Some (Elem elem_lixo)"
  proof -
    have "EspacoLixo \<noteq> L" using forma_livre(2)[OF f] by auto
    moreover have "EspacoLixo \<noteq> es ! k" if "k < length es" for k using forma_livre(5)[OF f that] by metis
    ultimately show ?thesis using novo(2) s(4) j by (auto simp: cel ligado_def)
  qed
  ultimately show ?thesis using cab by (simp add: forma_def)
qed

lemma cabeca_inserir:
  assumes "cabeca_ok h es" "j \<le> length es"
  shows "cabeca_ok (h\<lparr>NumeroDeElementos := NumeroDeElementos h + 1,
      pOrigemLista := (if j = 0 then p else pOrigemLista h),
      pFimLista := (if j = length es then p else pFimLista h), pElemCorr := q\<rparr>) (inserir_em j p es)"
proof -
  have "inserir_em j p es \<noteq> []" by (simp add: inserir_em_def)
  then show ?thesis using assms by (auto simp: cabeca_ok_def primeiro_def ultimo_def nth_inserir_em)
qed

text \<open>What the functions do when there is memory: the new element is linked and current.\<close>

lemma InserirAntes_passos:
  assumes l: "lista_ok C m L es xs cur" and malloc: "ced_malloc C (controle m) = (p, c)" "p \<noteq> NULL"
    and j: "j = (case cur of None \<Rightarrow> 0 | Some i \<Rightarrow> i)" and h: "celulas m L = Some (Cabeca h)"
  shows "\<exists>m'. LIS_InserirElementoAntes C L v m = Inr (LIS_CondRetOK, m') \<and>
    celulas m' = ligado (celulas m) L (h\<lparr>NumeroDeElementos := NumeroDeElementos h + 1,
      pOrigemLista := (if j = 0 then p else pOrigemLista h),
      pFimLista := (if j = length es then p else pFimLista h), pElemCorr := p\<rparr>) es xs j p v \<and>
    controle m' = (let c1 = ced_definir_tipo C p LIS_TipoEspacoNo c; t = ced_obter_tipo C c1 L
                   in ced_definir_tipo C v t (ced_definir_tipo C p t c1))"
proof -
  from l h have f: "forma C m L h es xs"
    and cur: "case cur of None \<Rightarrow> es = [] \<and> pElemCorr h = NULL | Some i \<Rightarrow> i < length es \<and> pElemCorr h = es ! i"
    by (auto simp: lista_ok_def forma_def)
  note livre = forma_livre[OF f] and novo = CriarElemento_ok(2)[OF f malloc]
  have no: "\<lparr>pCabeca = L, elemTipo = LIS_TipoEspacoNo, pValor = v, pAnt = a, pProx = x\<rparr> = no L v a x" for a x
    by (simp add: no_def)
  note eval = LIS_InserirElementoAntes_def CriarElemento_def mem_defs Let_def no malloc
  show ?thesis
  proof (cases cur)
    case None
    with cur j have e: "es = []" "j = 0" "pElemCorr h = NULL" by simp_all
    with novo livre(4,7) malloc(2) show ?thesis
      by (simp add: eval ligado_def antes_def fun_eq_iff)
  next
    case (Some i)
    with cur j have i: "i < length es" "j = i" "pElemCorr h = es ! i" by simp_all
    have "es ! i \<noteq> p" "p \<noteq> es ! i" using novo i(1) by (auto dest: nth_mem)
    note corr = livre(5)[OF i(1)] this
    show ?thesis
    proof (cases "i = 0")
      case True
      with i corr novo livre(4,7) malloc(2) show ?thesis
        by (simp add: eval ligado_def antes_def fun_eq_iff)
    next
      case False
      then obtain k where k: "i = Suc k" by (cases i) auto
      then have e: "k < length es" "es ! k \<noteq> es ! i" "es ! i \<noteq> es ! k" using i(1) livre(3) by (auto simp: nth_eq_iff_index_eq)
      have "es ! k \<noteq> p" "p \<noteq> es ! k" "antes es i = es ! k" using novo e(1) by (auto simp: antes_def k dest: nth_mem)
      with livre(5)[OF e(1)] e k i corr novo livre(4,7) malloc(2) show ?thesis
        by (simp add: eval ligado_def depois_def fun_eq_iff)
    qed
  qed
qed

lemma InserirApos_passos:
  assumes l: "lista_ok C m L es xs cur" and malloc: "ced_malloc C (controle m) = (p, c)" "p \<noteq> NULL"
    and j: "j = (case cur of None \<Rightarrow> 0 | Some i \<Rightarrow> Suc i)" and h: "celulas m L = Some (Cabeca h)"
  shows "\<exists>m'. LIS_InserirElementoApos C L v m = Inr (LIS_CondRetOK, m') \<and>
    celulas m' = ligado (celulas m) L (h\<lparr>NumeroDeElementos := NumeroDeElementos h + 1,
      pOrigemLista := (if j = 0 then p else pOrigemLista h),
      pFimLista := (if j = length es then p else pFimLista h), pElemCorr := p\<rparr>) es xs j p v \<and>
    controle m' = ced_definir_tipo C p LIS_TipoEspacoNo c"
proof -
  from l h have f: "forma C m L h es xs"
    and cur: "case cur of None \<Rightarrow> es = [] \<and> pElemCorr h = NULL | Some i \<Rightarrow> i < length es \<and> pElemCorr h = es ! i"
    by (auto simp: lista_ok_def forma_def)
  note livre = forma_livre[OF f] and novo = CriarElemento_ok(2)[OF f malloc]
  have no: "\<lparr>pCabeca = L, elemTipo = LIS_TipoEspacoNo, pValor = v, pAnt = a, pProx = x\<rparr> = no L v a x" for a x
    by (simp add: no_def)
  note eval = LIS_InserirElementoApos_def CriarElemento_def mem_defs Let_def no malloc
  show ?thesis
  proof (cases cur)
    case None
    with cur j have e: "es = []" "j = 0" "pElemCorr h = NULL" by simp_all
    with novo livre(4,7) malloc(2) show ?thesis
      by (simp add: eval ligado_def antes_def fun_eq_iff)
  next
    case (Some i)
    with cur j have i: "i < length es" "j = Suc i" "pElemCorr h = es ! i" by simp_all
    have "es ! i \<noteq> p" "p \<noteq> es ! i" "antes es (Suc i) = es ! i" using novo i(1) by (auto simp: antes_def dest: nth_mem)
    note corr = livre(5)[OF i(1)] this
    show ?thesis
    proof (cases "Suc i < length es")
      case False
      with i have "depois es i = NULL" "j = length es" by (simp_all add: depois_def)
      with i(2,3) corr novo livre(4,7) malloc(2) show ?thesis
        by (simp add: eval ligado_def fun_eq_iff)
    next
      case True
      have "es ! Suc i \<noteq> p" "p \<noteq> es ! Suc i" "depois es i = es ! Suc i" using novo True by (auto simp: depois_def dest: nth_mem)
      with livre(5)[OF True] livre(6)[OF i(1) True] True i(2,3) corr novo livre(4,7) malloc(2) show ?thesis
        by (simp add: eval ligado_def fun_eq_iff)
    qed
  qed
qed

text \<open>The neighbours of position \<open>i\<close>\<close>

lemma vizinhos:
  assumes f: "forma C m L h es xs" and i: "i < length es"
  obtains (unico) "i = 0" "antes es i = NULL" "Suc i = length es" "depois es i = NULL"
    | (inicial) "i = 0" "antes es i = NULL" "Suc i < length es" "Suc i \<noteq> length es" "depois es i = es ! Suc i" "es ! Suc i \<noteq> es ! i" "es ! i \<noteq> es ! Suc i"
    | (final) k where "i = Suc k" "antes es i = es ! k" "Suc i = length es" "depois es i = NULL" "k < length es" "es ! k \<noteq> es ! i" "es ! i \<noteq> es ! k"
    | (meio) k where "i = Suc k" "antes es i = es ! k" "Suc i < length es" "Suc i \<noteq> length es" "depois es i = es ! Suc i"
        "k < length es" "es ! k \<noteq> es ! i" "es ! k \<noteq> es ! Suc i" "es ! Suc i \<noteq> es ! i"
        "es ! i \<noteq> es ! k" "es ! Suc i \<noteq> es ! k" "es ! i \<noteq> es ! Suc i"
proof -
  have dist: "es ! j = es ! k \<longleftrightarrow> j = k" if "j < length es" "k < length es" for j k
    using that forma_livre(3)[OF f] by (simp add: nth_eq_iff_index_eq)
  show ?thesis
  proof (cases i)
    case 0
    show ?thesis
    proof (cases "Suc i < length es")
      case True
      then show ?thesis using 0 inicial dist[of "Suc i" i] i by (simp add: antes_def depois_def)
    next
      case False
      then show ?thesis using 0 i unico by (simp add: antes_def depois_def)
    qed
  next
    case (Suc k)
    show ?thesis
    proof (cases "Suc i < length es")
      case True
      then show ?thesis using Suc i meio[of k] dist[of k i] dist[of k "Suc i"] dist[of "Suc i" i]
        by (simp add: antes_def depois_def)
    next
      case False
      then show ?thesis using Suc i final[of k] dist[of k i] by (simp add: antes_def depois_def)
    qed
  qed
qed

text \<open>Taking out the current element: with \<open>free\<close>, and in the damaging mode without.\<close>

lemma Excluir_passos:
  assumes l: "lista_ok C m L es xs (Some i)" and h: "celulas m L = Some (Cabeca h)"
  shows "\<exists>m'. LIS_ExcluirElemento C D L m = Inr (LIS_CondRetOK, m') \<and>
    celulas m' = (desligado (celulas m) L (h\<lparr>NumeroDeElementos := NumeroDeElementos h - 1,
      pElemCorr := (if i = 0 then depois es i else antes es i),
      pOrigemLista := (if i = 0 then depois es i else pOrigemLista h),
      pFimLista := (if Suc i = length es then antes es i else pFimLista h)\<rparr>) es xs i)(es ! i := None) \<and>
    controle m' = ced_free C (es ! i)
      (if ExcluirValor h \<and> xs ! i \<noteq> NULL then D (xs ! i) (controle m) else controle m)"
proof -
  from l h have f: "forma C m L h es xs" and i: "i < length es" "pElemCorr h = es ! i"
    by (auto simp: lista_ok_def forma_def)
  note livre = forma_livre[OF f]
  note eval = LIS_ExcluirElemento_def LiberarElemento_def liberar_def mem_defs Let_def
  note corr = i livre(5)[OF i(1)] livre(4,7)
  from f i(1) show ?thesis
  proof (cases rule: vizinhos)
    case unico
    with corr show ?thesis by (simp add: eval desligado_def fun_eq_iff)
  next
    case inicial
    with corr livre(5)[OF inicial(3)] show ?thesis by (simp add: eval desligado_def fun_eq_iff)
  next
    case (final k)
    with corr livre(5)[OF final(5)] show ?thesis by (simp add: eval desligado_def fun_eq_iff)
  next
    case (meio k)
    with corr livre(5)[OF meio(3)] livre(5)[OF meio(6)] show ?thesis by (simp add: eval desligado_def fun_eq_iff)
  qed
qed

lemma desencadear_passos:
  assumes l: "lista_ok C m L es xs (Some i)" and h: "celulas m L = Some (Cabeca h)"
  shows "\<exists>m'. desencadear_sem_free L m = Inr (LIS_CondRetOK, m') \<and>
    celulas m' = desligado (celulas m) L (h\<lparr>NumeroDeElementos := NumeroDeElementos h - 1, pElemCorr := NULL,
      pOrigemLista := (if i = 0 then depois es i else pOrigemLista h),
      pFimLista := (if Suc i = length es then antes es i else pFimLista h)\<rparr>) es xs i \<and>
    controle m' = controle m"
proof -
  from l h have f: "forma C m L h es xs" and i: "i < length es" "pElemCorr h = es ! i"
    by (auto simp: lista_ok_def forma_def)
  note livre = forma_livre[OF f]
  note eval = desencadear_sem_free_def deturpar_cabeca_def mem_defs Let_def
  note corr = i livre(5)[OF i(1)] livre(4,7)
  from f i(1) show ?thesis
  proof (cases rule: vizinhos)
    case unico
    with corr show ?thesis by (simp add: eval desligado_def fun_eq_iff)
  next
    case inicial
    with corr livre(5)[OF inicial(3)] show ?thesis by (simp add: eval desligado_def fun_eq_iff)
  next
    case (final k)
    with corr livre(5)[OF final(5)] show ?thesis by (simp add: eval desligado_def fun_eq_iff)
  next
    case (meio k)
    with corr livre(5)[OF meio(3)] livre(5)[OF meio(6)] show ?thesis by (simp add: eval desligado_def fun_eq_iff)
  qed
qed

section \<open>The operations on an undamaged list\<close>

lemma inserir_antes_ok:
  assumes l: "lista_ok C m L es xs cur" and v: "valor_novo C m L es xs v"
    and malloc: "ced_malloc C (controle m) = (p, c)" "p \<noteq> NULL" and j: "j = (case cur of None \<Rightarrow> 0 | Some i \<Rightarrow> i)"
  shows "\<exists>m'. LIS_InserirElementoAntes C L v m = Inr (LIS_CondRetOK, m') \<and>
    lista_ok C m' L (inserir_em j p es) (inserir_em j v xs) (Some j)"
proof -
  from l obtain h where f: "forma C m L h es xs" and h: "celulas m L = Some (Cabeca h)"
    and j': "j \<le> length es" using j by (auto simp: lista_ok_def forma_def split: option.splits)
  let ?h = "h\<lparr>NumeroDeElementos := NumeroDeElementos h + 1, pOrigemLista := (if j = 0 then p else pOrigemLista h),
      pFimLista := (if j = length es then p else pFimLista h), pElemCorr := p\<rparr>"
  obtain m' where run: "LIS_InserirElementoAntes C L v m = Inr (LIS_CondRetOK, m')"
    and cel: "celulas m' = ligado (celulas m) L ?h es xs j p v"
    and con: "controle m' = (let c1 = ced_definir_tipo C p LIS_TipoEspacoNo c; t = ced_obter_tipo C c1 L
                   in ced_definir_tipo C v t (ced_definir_tipo C p t c1))"
    using InserirAntes_passos[OF l malloc j h] by blast
  note novo = malloc_novo[OF malloc] CriarElemento_ok(2)[OF f malloc]
  have vp: "v \<noteq> p" "v \<notin> set (L # es)"
    using v novo(1) malloc(2) forma_livre(1)[OF f] by (auto simp: valor_novo_def)
  have "forma C m' L ?h (inserir_em j p es) (inserir_em j v xs)"
  proof (rule ligado_forma[OF f malloc _ j' cel])
    show "v = NULL \<or> v \<in> set (ced_espacos C (controle m)) \<and> v \<notin> set (L # es) \<and> v \<notin> set xs"
      using v by (simp add: valor_novo_def)
    show "cabeca_ok ?h (inserir_em j p es)"
      using cabeca_inserir[OF _ j', of h p p] f by (simp add: forma_def)
    show "set (ced_espacos C (controle m')) = set (ced_espacos C c)" by (simp add: con Let_def definir_espacos)
    show "ced_obter_tipo C (controle m') q = ced_obter_tipo C c q" if "q \<in> set (L # es)" for q
    proof -
      have "q \<noteq> v" "q \<noteq> p" using that vp(2) novo(2) by auto
      then show ?thesis by (simp add: con Let_def definir_outros)
    qed
    have p: "p \<in> set (ced_espacos C c)" using novo(1) by blast
    have "p \<noteq> v" "L \<noteq> p" using vp(1) novo(2) by blast+
    moreover have "ced_obter_tipo C c L = LIS_TipoEspacoCabeca"
      using f malloc_outros[OF malloc(1) \<open>L \<noteq> p\<close>] by (simp add: forma_def espacos_ok_def)
    ultimately show "ced_obter_tipo C (controle m') p = LIS_TipoEspacoNo"
      using novo(1) p by (simp add: con Let_def definir_outros definir_tipo definir_espacos) (simp add: ced_tipos)
  qed
  moreover have "inserir_em j p es ! j = p" "j < length (inserir_em j p es)" using j' by (simp_all add: nth_inserir_em)
  ultimately show ?thesis using run by (auto simp: lista_ok_def)
qed

lemma inserir_apos_ok:
  assumes l: "lista_ok C m L es xs cur" and v: "valor_novo C m L es xs v"
    and malloc: "ced_malloc C (controle m) = (p, c)" "p \<noteq> NULL" and j: "j = (case cur of None \<Rightarrow> 0 | Some i \<Rightarrow> Suc i)"
  shows "\<exists>m'. LIS_InserirElementoApos C L v m = Inr (LIS_CondRetOK, m') \<and>
    lista_ok C m' L (inserir_em j p es) (inserir_em j v xs) (Some j)"
proof -
  from l obtain h where f: "forma C m L h es xs" and h: "celulas m L = Some (Cabeca h)"
    and j': "j \<le> length es" using j by (auto simp: lista_ok_def forma_def split: option.splits)
  let ?h = "h\<lparr>NumeroDeElementos := NumeroDeElementos h + 1, pOrigemLista := (if j = 0 then p else pOrigemLista h),
      pFimLista := (if j = length es then p else pFimLista h), pElemCorr := p\<rparr>"
  obtain m' where run: "LIS_InserirElementoApos C L v m = Inr (LIS_CondRetOK, m')"
    and cel: "celulas m' = ligado (celulas m) L ?h es xs j p v"
    and con: "controle m' = ced_definir_tipo C p LIS_TipoEspacoNo c"
    using InserirApos_passos[OF l malloc j h] by blast
  note novo = malloc_novo[OF malloc] CriarElemento_ok(2)[OF f malloc]
  have "forma C m' L ?h (inserir_em j p es) (inserir_em j v xs)"
  proof (rule ligado_forma[OF f malloc _ j' cel])
    show "v = NULL \<or> v \<in> set (ced_espacos C (controle m)) \<and> v \<notin> set (L # es) \<and> v \<notin> set xs"
      using v by (simp add: valor_novo_def)
    show "cabeca_ok ?h (inserir_em j p es)"
      using cabeca_inserir[OF _ j', of h p p] f by (simp add: forma_def)
    show "set (ced_espacos C (controle m')) = set (ced_espacos C c)" by (simp add: con definir_espacos)
    show "ced_obter_tipo C (controle m') q = ced_obter_tipo C c q" if "q \<in> set (L # es)" for q
    proof -
      have "q \<noteq> p" using that novo(2) by auto
      then show ?thesis by (simp add: con definir_outros)
    qed
    have "p \<in> set (ced_espacos C c)" using novo(1) by blast
    then show "ced_obter_tipo C (controle m') p = LIS_TipoEspacoNo"
      using novo(1) by (simp add: con definir_tipo) 
  qed
  moreover have "inserir_em j p es ! j = p" "j < length (inserir_em j p es)" using j' by (simp_all add: nth_inserir_em)
  ultimately show ?thesis using run by (auto simp: lista_ok_def)
qed

lemma inserir_sem_memoria:
  assumes l: "lista_ok C m L es xs cur" and malloc: "ced_malloc C (controle m) = (NULL, c)"
  shows "LIS_InserirElementoAntes C L v m = Inr (LIS_CondRetFaltouMemoria, m\<lparr>controle := c\<rparr>)"
    and "LIS_InserirElementoApos C L v m = Inr (LIS_CondRetFaltouMemoria, m\<lparr>controle := c\<rparr>)"
    and "lista_ok C (m\<lparr>controle := c\<rparr>) L es xs cur"
proof -
  from l obtain h where f: "forma C m L h es xs" by (auto simp: lista_ok_def)
  note criar = CriarElemento_ok(1)[OF f malloc refl] forma_livre(4)[OF f]
  from criar show "LIS_InserirElementoAntes C L v m = Inr (LIS_CondRetFaltouMemoria, m\<lparr>controle := c\<rparr>)"
    "LIS_InserirElementoApos C L v m = Inr (LIS_CondRetFaltouMemoria, m\<lparr>controle := c\<rparr>)"
    by (simp_all add: LIS_InserirElementoAntes_def LIS_InserirElementoApos_def)
  from l criar show "lista_ok C (m\<lparr>controle := c\<rparr>) L es xs cur"
    by (auto simp: lista_ok_def forma_def)
qed

lemma cabeca_remover:
  assumes "cabeca_ok h es" "i < length es"
  shows "cabeca_ok (h\<lparr>NumeroDeElementos := NumeroDeElementos h - 1, pElemCorr := q,
      pOrigemLista := (if i = 0 then depois es i else pOrigemLista h),
      pFimLista := (if Suc i = length es then antes es i else pFimLista h)\<rparr>) (remover_em i es)"
proof (cases "length es = 1")
  case True
  with assms have "i = 0" "remover_em i es = []" by (auto simp: remover_em_def)
  with True assms show ?thesis
    by (auto simp: cabeca_ok_def primeiro_def ultimo_def antes_def depois_def)
next
  case False
  then obtain n where n: "length es = Suc (Suc n)" using assms(2) by (cases "length es"; cases "length es - 1") auto
  then have "remover_em i es \<noteq> []" "es \<noteq> []" using length_em(2)[OF assms(2)] by auto
  moreover have "n < i \<Longrightarrow> i - Suc 0 = n" using n assms(2) by simp
  ultimately show ?thesis using assms n
    by (auto simp: cabeca_ok_def primeiro_def ultimo_def nth_remover_em antes_def depois_def)
qed

text \<open>The shape of the list without element \<open>i\<close>, whose cell may be gone\<close>

lemma desligado_forma:
  assumes f: "forma C m L h es xs" and i: "i < length es"
    and cel: "\<And>y. y \<noteq> es ! i \<Longrightarrow> celulas m' y = desligado (celulas m) L h' es xs i y"
    and cab: "cabeca_ok h' (remover_em i es)"
    and esp: "set (L # es) \<union> (set xs - {NULL}) - {es ! i, xs ! i} \<subseteq> set (ced_espacos C (controle m'))"
    and tipos: "\<And>y. y \<in> set (L # es) \<Longrightarrow> y \<noteq> es ! i \<Longrightarrow> ced_obter_tipo C (controle m') y = ced_obter_tipo C (controle m) y"
  shows "forma C m' L h' (remover_em i es) (remover_em i xs)"
proof -
  note livre = forma_livre[OF f]
  have ix: "i < length xs" using i livre(8) by simp
  from f have s: "elos (celulas m) L es xs" "espacos_ok C (controle m) L es" "valores_ok C (controle m) L es xs"
    "celulas m EspacoLixo = Some (Elem elem_lixo)"
    by (simp_all add: forma_def)
  have es': "distinct (remover_em i es)" "set (remover_em i es) = set es - {es ! i}"
    using distinct_remover_em[OF i] livre(3) by simp_all
  have dv: "distinct (filter (\<lambda>v. v \<noteq> NULL) (xs ! i # remover_em i xs))"
    using mset_eq_imp_distinct_iff[of "filter (\<lambda>v. v \<noteq> NULL) xs" "filter (\<lambda>v. v \<noteq> NULL) (xs ! i # remover_em i xs)"]
      remover_em_split[OF ix] s(3) by (simp only: mset_filter mset.simps valores_ok_def)
  have disj: "set xs \<inter> set (L # es) = {}" using s(3) by (simp only: valores_ok_def)
  have "elos (celulas m') L (remover_em i es) (remover_em i xs)"
    by (rule elos_desligado[OF s(1) livre(3) i cel])
  moreover have "espacos_ok C (controle m') L (remover_em i es)"
  proof -
    have "xs ! i \<notin> set (L # es)" using disj nth_mem[OF ix] by blast
    then have "set (L # remover_em i es) \<subseteq> set (ced_espacos C (controle m'))"
      using esp es'(2) livre(5)[OF i] by auto
    then show ?thesis using s(2) es' tipos livre(5)[OF i] unfolding espacos_ok_def by auto
  qed
  moreover have "valores_ok C (controle m') L (remover_em i es) (remover_em i xs)"
    unfolding valores_ok_def
  proof (intro conjI)
    show "distinct (filter (\<lambda>v. v \<noteq> NULL) (remover_em i xs))" using dv by (auto split: if_splits)
    show "set (remover_em i xs) \<inter> set (L # remover_em i es) = {}"
      using disj set_remover_em[of i xs] set_remover_em[of i es] by auto
    have "xs ! i \<notin> set (remover_em i xs) - {NULL}" using dv by (auto split: if_splits)
    moreover have "es ! i \<notin> set xs" using disj nth_mem[OF i] by auto
    ultimately show "set (remover_em i xs) - {NULL} \<subseteq> set (ced_espacos C (controle m'))"
      using esp set_remover_em[of i xs] by blast
  qed
  moreover have "celulas m' L = Some (Cabeca h')" using cel[of L] livre(5)[OF i] by (simp add: desligado_def)
  moreover have "celulas m' EspacoLixo = Some (Elem elem_lixo)"
  proof -
    have "EspacoLixo \<noteq> L" using livre(2) by auto
    moreover have l: "EspacoLixo \<noteq> es ! k" if "k < length es" for k using livre(5)[OF that] by metis
    ultimately show ?thesis using cel[OF l[OF i]] s(4) i by (auto simp: desligado_def)
  qed
  ultimately show ?thesis using cab by (simp add: forma_def)
qed

lemma excluir_ok:
  assumes l: "lista_ok C m L es xs (Some i)"
  shows "\<exists>m'. LIS_ExcluirElemento C D L m = Inr (LIS_CondRetOK, m') \<and>
    lista_ok C m' L (remover_em i es) (remover_em i xs) (if length es = 1 then None else Some (i - 1))"
proof -
  from l obtain h where f: "forma C m L h es xs" and h: "celulas m L = Some (Cabeca h)" and i: "i < length es"
    by (auto simp: lista_ok_def forma_def)
  note livre = forma_livre[OF f]
  let ?q = "if i = 0 then depois es i else antes es i"
  let ?h = "h\<lparr>NumeroDeElementos := NumeroDeElementos h - 1, pElemCorr := ?q,
      pOrigemLista := (if i = 0 then depois es i else pOrigemLista h),
      pFimLista := (if Suc i = length es then antes es i else pFimLista h)\<rparr>"
  obtain m' where run: "LIS_ExcluirElemento C D L m = Inr (LIS_CondRetOK, m')"
    and cel: "celulas m' = (desligado (celulas m) L ?h es xs i)(es ! i := None)"
    and con: "controle m' = ced_free C (es ! i)
      (if ExcluirValor h \<and> xs ! i \<noteq> NULL then D (xs ! i) (controle m) else controle m)"
    using Excluir_passos[OF l h] by blast
  define c where "c = (if ExcluirValor h \<and> xs ! i \<noteq> NULL then D (xs ! i) (controle m) else controle m)"
  have xi: "xs ! i \<in> set xs" using i livre(8) by simp
  have val: "valores_ok C (controle m) L es xs" and esp: "set (L # es) \<subseteq> set (ced_espacos C (controle m))"
    using f by (auto simp: forma_def espacos_ok_def)
  have nao: "xs ! i \<notin> set (L # es)" using val xi unfolding valores_ok_def by blast
  have c: "set (ced_espacos C (controle m)) - {xs ! i} \<subseteq> set (ced_espacos C c)"
    "y \<noteq> xs ! i \<Longrightarrow> ced_obter_tipo C c y = ced_obter_tipo C (controle m) y" for y
    using destruir_espacos[of "xs ! i" "controle m"] destruir_tipo[of y "xs ! i"] val xi
    by (auto simp: c_def valores_ok_def)
  have "es ! i \<in> set (ced_espacos C c)"
    using c(1) esp nao nth_mem[OF i] by (metis Diff_iff insert_iff list.set_intros(2) singletonD subset_iff)
  then have livres: "set (ced_espacos C (controle m')) = set (ced_espacos C c) - {es ! i}"
    by (simp add: con free_espacos flip: c_def)
  have "forma C m' L ?h (remover_em i es) (remover_em i xs)"
  proof (rule desligado_forma[OF f i])
    show "celulas m' y = desligado (celulas m) L ?h es xs i y" if "y \<noteq> es ! i" for y using that by (simp add: cel)
    show "cabeca_ok ?h (remover_em i es)" using cabeca_remover[OF _ i, of h ?q] f by (simp add: forma_def)
    show "set (L # es) \<union> (set xs - {NULL}) - {es ! i, xs ! i} \<subseteq> set (ced_espacos C (controle m'))"
      using c(1) esp val unfolding livres valores_ok_def by blast
    show "ced_obter_tipo C (controle m') y = ced_obter_tipo C (controle m) y" if "y \<in> set (L # es)" "y \<noteq> es ! i" for y
    proof -
      have "y \<noteq> xs ! i" using that(1) nao by blast
      then show ?thesis using c(2) free_outros[OF that(2)] by (simp add: con flip: c_def)
    qed
  qed
  moreover have "if length es = 1 then ?q = NULL else ?q = remover_em i es ! (i - 1)"
    using i by (auto simp: antes_def depois_def nth_remover_em)
  ultimately show ?thesis using run i by (auto simp: lista_ok_def remover_em_def)
qed

end

end
