(* ===== verification/ListaProps.thy ===== *)
theory ListaProps
  imports ListaOps
begin

text \<open>
  Moving in a list, searching, emptying, creating and destroying it.
\<close>

context lis_cliente
begin

section \<open>Moving\<close>

lemma forma_corrente:
  assumes "forma C m L h es xs"
  shows "mudar_cabeca L f m = Inr (m\<lparr>celulas := (celulas m)(L \<mapsto> Cabeca (f h))\<rparr>)"
    "f h = h\<lparr>pElemCorr := q\<rparr> \<Longrightarrow>
     forma C (m\<lparr>celulas := (celulas m)(L \<mapsto> Cabeca (f h))\<rparr>) L (h\<lparr>pElemCorr := q\<rparr>) es xs"
proof -
  note livre = forma_livre[OF assms]
  show "mudar_cabeca L f m = Inr (m\<lparr>celulas := (celulas m)(L \<mapsto> Cabeca (f h))\<rparr>)"
    using livre(7) by (simp add: mudar_cabeca_ok)
  have "EspacoLixo \<noteq> L" using livre(2) by auto
  then show "forma C (m\<lparr>celulas := (celulas m)(L \<mapsto> Cabeca (f h))\<rparr>) L (h\<lparr>pElemCorr := q\<rparr>) es xs"
    if "f h = h\<lparr>pElemCorr := q\<rparr>"
    using assms livre(5) that by (simp add: forma_def elos_def cabeca_ok_def)
qed

lemma andar_prox:
  assumes "forma C m L h es xs" "i < length es"
  shows "andar pProx n (es ! i) m = Inr (if i + n < length es then es ! (i + n) else NULL)"
  using assms(2)
proof (induction n arbitrary: i)
  case 0
  then show ?case by simp
next
  case (Suc n)
  note cel = forma_livre(5)[OF assms(1) Suc.prems]
  have null: "andar pProx n NULL m = Inr NULL" by (cases n) simp_all
  from Suc.IH[of "Suc i"] cel null show ?case by (auto simp: ler_ok depois_def)
qed

lemma andar_ant:
  assumes "forma C m L h es xs" "i < length es"
  shows "andar pAnt n (es ! i) m = Inr (if n \<le> i then es ! (i - n) else NULL)"
  using assms(2)
proof (induction n arbitrary: i)
  case 0
  then show ?case by simp
next
  case (Suc n)
  note cel = forma_livre(5)[OF assms(1) Suc.prems]
  have null: "andar pAnt n NULL m = Inr NULL" by (cases n) simp_all
  from Suc.IH[of "i - 1"] cel null Suc.prems show ?case by (cases i) (auto simp: ler_ok antes_def)
qed

lemma procurar_laco_ok:
  assumes f: "forma C m L h es xs"
  shows "procurar_laco v (if i < length es then es ! i else NULL) m =
    Some (Inr (case find (\<lambda>k. xs ! k = v) [i..<length es] of Some k \<Rightarrow> es ! k | None \<Rightarrow> NULL))"
proof (induction "length es - i" arbitrary: i)
  case 0
  then show ?case by (simp add: procurar_laco.simps)
next
  case (Suc n)
  then have i: "i < length es" by simp
  with Suc.hyps(1)[of "Suc i"] Suc.hyps(2) forma_livre(5)[OF f i] show ?case
    by (simp add: procurar_laco.simps[of v "es ! i"] ler_ok depois_def upt_conv_Cons)
qed

section \<open>Emptying\<close>

lemma sem_dois:
  assumes "insert l (insert q E) \<union> (insert v X - {z}) \<subseteq> S" "S - {v} \<subseteq> S'"
    and "q \<notin> E" "v \<notin> X - {z}" "q \<notin> X" "v \<notin> insert l E" "l \<noteq> q"
  shows "insert l E \<union> (X - {z}) \<subseteq> S' - {q}"
proof
  fix y assume y: "y \<in> insert l E \<union> (X - {z})"
  then have "y \<in> S" "y \<noteq> v" "y \<noteq> q" using assms by auto
  then show "y \<in> S' - {q}" using assms(2) by blast
qed

lemma esvaziar_laco_ok:
  assumes "distinct (L # es)" "NULL \<notin> set (L # es)" "EspacoLixo \<notin> set (L # es)" "set xs \<inter> set (L # es) = {}"
    "length xs = length es" "distinct (filter (\<lambda>v. v \<noteq> NULL) xs)"
    and "celulas m L = Some (Cabeca h)"
    and "\<And>k. i \<le> k \<Longrightarrow> k < length es \<Longrightarrow> celulas m (es ! k) = Some (Elem (no L (xs ! k) (antes es k) (depois es k)))"
    and "insert L (set (drop i es)) \<union> (set (drop i xs) - {NULL}) \<subseteq> set (ced_espacos C (controle m))"
  shows "\<exists>m' h'. esvaziar_laco C D L (if i < length es then es ! i else NULL) m = Some (Inr m') \<and>
    celulas m' L = Some (Cabeca h') \<and> ExcluirValor h' = ExcluirValor h \<and> cabTipo h' = cabTipo h \<and>
    L \<in> set (ced_espacos C (controle m')) \<and> ced_obter_tipo C (controle m') L = ced_obter_tipo C (controle m) L \<and>
    celulas m' EspacoLixo = celulas m EspacoLixo"
  using assms(7-9)
proof (induction "length es - i" arbitrary: i m h)
  case 0
  then show ?case by (auto simp: esvaziar_laco.simps)
next
  case (Suc n)
  then have i: "i < length es" "i < length xs" using assms(5) by simp_all
  let ?q = "es ! i" and ?v = "xs ! i"
  let ?c = "if ExcluirValor h \<and> ?v \<noteq> NULL then D ?v (controle m) else controle m"
  let ?h = "h\<lparr>NumeroDeElementos := NumeroDeElementos h - 1\<rparr>"
  let ?m = "m\<lparr>celulas := (celulas m)(?q := None, L \<mapsto> Cabeca ?h), controle := ced_free C ?q ?c\<rparr>"
  have q: "?q \<noteq> L" "L \<noteq> ?q" "?q \<noteq> NULL" "EspacoLixo \<noteq> ?q" "EspacoLixo \<noteq> L"
    using assms(1-3) nth_mem[OF i(1)] by auto
  have cel: "celulas m ?q = Some (Elem (no L ?v (antes es i) (depois es i)))" using Suc.prems(2) i by simp
  have passo: "LiberarElemento C D L ?q m = Inr ?m"
    using Suc.prems(1) cel q by (simp add: LiberarElemento_def liberar_def mem_defs fun_upd_twist)
  have vq: "?v \<notin> set (L # es)" using assms(4) nth_mem[OF i(2)] by blast
  have drops: "drop i es = ?q # drop (Suc i) es" "drop i xs = ?v # drop (Suc i) xs"
    using i by (simp_all add: Cons_nth_drop_Suc)
  have v: "?v \<noteq> NULL \<Longrightarrow> ?v \<in> set (ced_espacos C (controle m))" using Suc.prems(3) drops by auto
  have c: "set (ced_espacos C (controle m)) - {?v} \<subseteq> set (ced_espacos C ?c)"
    "y \<noteq> ?v \<Longrightarrow> ced_obter_tipo C ?c y = ced_obter_tipo C (controle m) y" for y
    using destruir_espacos[OF v] destruir_tipo[of y ?v] by auto
  have qe: "?q \<in> set (ced_espacos C ?c)"
  proof -
    have "?q \<in> set (ced_espacos C (controle m))" using Suc.prems(3) unfolding drops by simp
    moreover have "?q \<noteq> ?v" using vq nth_mem[OF i(1)] by (metis list.set_intros(2))
    ultimately show ?thesis using c(1) by blast
  qed
  have resto: "celulas ?m (es ! k) = Some (Elem (no L (xs ! k) (antes es k) (depois es k)))"
    if "Suc i \<le> k" "k < length es" for k
  proof -
    have "es ! k \<noteq> ?q" using that i(1) assms(1) by (simp add: nth_eq_iff_index_eq)
    moreover have "es ! k \<noteq> L" using assms(1) nth_mem[OF that(2)] by auto
    moreover have "celulas m (es ! k) = Some (Elem (no L (xs ! k) (antes es k) (depois es k)))"
      using Suc.prems(2)[of k] that by simp
    ultimately show ?thesis by simp
  qed
  have "insert L (set (drop (Suc i) es)) \<union> (set (drop (Suc i) xs) - {NULL}) \<subseteq> set (ced_espacos C (controle ?m))"
  proof -
    have n1: "?q \<notin> set (drop (Suc i) es)" using assms(1) drops(1) distinct_drop[of es i] by simp
    have n2: "?v \<notin> set (drop (Suc i) xs) - {NULL}"
    proof -
      have "filter (\<lambda>v. v \<noteq> NULL) xs = filter (\<lambda>v. v \<noteq> NULL) (take i xs) @ filter (\<lambda>v. v \<noteq> NULL) (drop i xs)"
        by (metis append_take_drop_id filter_append)
      then have "distinct (filter (\<lambda>v. v \<noteq> NULL) (drop i xs))" using assms(6) by simp
      then show ?thesis unfolding drops by (auto split: if_splits)
    qed
    have n3: "?q \<notin> set (drop (Suc i) xs)" using assms(4) nth_mem[OF i(1)] in_set_dropD by fastforce
    have n4: "?v \<notin> insert L (set (drop (Suc i) es))" using vq in_set_dropD by fastforce
    have todos: "insert L (insert ?q (set (drop (Suc i) es))) \<union> (insert ?v (set (drop (Suc i) xs)) - {NULL}) \<subseteq> set (ced_espacos C (controle m))"
      using Suc.prems(3) unfolding drops by simp
    have "insert L (set (drop (Suc i) es)) \<union> (set (drop (Suc i) xs) - {NULL}) \<subseteq> set (ced_espacos C ?c) - {?q}"
      by (rule sem_dois[OF todos c(1) n1 n2 n3 n4 q(2)])
    then show ?thesis by (simp add: free_espacos[OF qe])
  qed
  moreover have "celulas ?m L = Some (Cabeca ?h)" by simp
  moreover have "n = length es - Suc i" using Suc.hyps(2) by simp
  ultimately obtain m' h' where ih: "esvaziar_laco C D L (if Suc i < length es then es ! Suc i else NULL) ?m = Some (Inr m')"
    "celulas m' L = Some (Cabeca h')" "ExcluirValor h' = ExcluirValor ?h" "cabTipo h' = cabTipo ?h"
    "L \<in> set (ced_espacos C (controle m'))" "ced_obter_tipo C (controle m') L = ced_obter_tipo C (controle ?m) L"
    "celulas m' EspacoLixo = celulas ?m EspacoLixo"
    using Suc.hyps(1)[of "Suc i" ?m ?h, OF _ _ resto] by blast
  have "esvaziar_laco C D L ?q m = Some (Inr m')"
    using ih(1) passo cel q by (simp add: esvaziar_laco.simps[of C D L ?q] ler_ok depois_def)
  moreover have "L \<noteq> ?v" using vq by auto
  ultimately show ?case using i ih q c(2)[of L] free_outros[of L ?q ?c] by auto
qed

lemma esvaziar_ok:
  assumes l: "lista_ok C m L es xs cur"
  shows "\<exists>m'. LIS_EsvaziarLista C D L m = Some (Inr m') \<and> lista_ok C m' L [] [] None"
proof -
  from l obtain h where f: "forma C m L h es xs" by (auto simp: lista_ok_def)
  note livre = forma_livre[OF f]
  have val: "valores_ok C (controle m) L es xs" and esp: "espacos_ok C (controle m) L es"
    and orig: "pOrigemLista h = (if 0 < length es then es ! 0 else NULL)" "cabTipo h = LIS_TipoEspacoCabeca"
    and lixo: "celulas m EspacoLixo = Some (Elem elem_lixo)"
    using f by (auto simp: forma_def cabeca_ok_def primeiro_def)
  obtain m' h' where laco: "esvaziar_laco C D L (pOrigemLista h) m = Some (Inr m')"
    "celulas m' L = Some (Cabeca h')" "cabTipo h' = cabTipo h"
    "L \<in> set (ced_espacos C (controle m'))" "ced_obter_tipo C (controle m') L = ced_obter_tipo C (controle m) L"
    "celulas m' EspacoLixo = celulas m EspacoLixo"
  proof -
    have "insert L (set (drop 0 es)) \<union> (set (drop 0 xs) - {NULL}) \<subseteq> set (ced_espacos C (controle m))"
      using val esp by (auto simp: valores_ok_def espacos_ok_def)
    with esvaziar_laco_ok[OF livre(3,1,2) _ livre(8) _ livre(7), of 0] val livre(5) orig(1) that
    show thesis by (auto simp: valores_ok_def)
  qed
  let ?h = "h'\<lparr>pOrigemLista := NULL, pFimLista := NULL, pElemCorr := NULL, NumeroDeElementos := 0\<rparr>"
  have "EspacoLixo \<noteq> L" using livre(2) by auto
  then have "forma C (m'\<lparr>celulas := (celulas m')(L \<mapsto> Cabeca ?h)\<rparr>) L ?h [] []"
    using laco esp orig(2) lixo
    by (simp add: forma_def elos_def cabeca_ok_def espacos_ok_def valores_ok_def primeiro_def ultimo_def)
  moreover have "LIS_EsvaziarLista C D L m = Some (Inr (m'\<lparr>celulas := (celulas m')(L \<mapsto> Cabeca ?h)\<rparr>))"
    using livre(4,7) laco(1,2) by (simp add: LIS_EsvaziarLista_def LimparCabeca_def ler_ok mudar_cabeca_ok)
  ultimately show ?thesis by (auto simp: lista_ok_def)
qed

lemma criar_ok:
  assumes malloc: "ced_malloc C (controle m) = (p, c)" and lixo: "celulas m EspacoLixo = Some (Elem elem_lixo)"
  shows "\<exists>m'. LIS_CriarLista C b m = Inr (p, m') \<and> (p \<noteq> NULL \<longrightarrow> lista_ok C m' p [] [] None)"
proof (cases "p = NULL")
  case True
  then show ?thesis using malloc by (simp add: LIS_CriarLista_def)
next
  case False
  note novo = malloc_novo[OF malloc False]
  have l: "EspacoLixo \<noteq> p" using novo lixo_livre[of c] by auto
  have t: "ced_obter_tipo C (ced_definir_tipo C p LIS_TipoEspacoCabeca c) p = LIS_TipoEspacoCabeca"
    using novo by (simp add: definir_tipo)
  show ?thesis using False novo l t lixo
    by (auto simp: LIS_CriarLista_def malloc LimparCabeca_def mem_defs lista_ok_def forma_def elos_def cabeca_ok_def
        espacos_ok_def valores_ok_def primeiro_def ultimo_def definir_espacos)
qed

lemma destruir_ok:
  assumes l: "lista_ok C m L es xs cur"
  shows "\<exists>m'. LIS_DestruirLista C D L m = Some (Inr m') \<and> celulas m' L = None \<and>
    L \<notin> set (ced_espacos C (controle m'))"
proof -
  obtain m' where m': "LIS_EsvaziarLista C D L m = Some (Inr m')" "lista_ok C m' L [] [] None"
    using esvaziar_ok[OF l] by blast
  from m'(2) obtain h where f: "forma C m' L h [] []" by (auto simp: lista_ok_def)
  then have "L \<in> set (ced_espacos C (controle m'))" by (simp add: forma_def espacos_ok_def)
  with m'(1) forma_livre(4,7)[OF f] show ?thesis
    by (simp add: LIS_DestruirLista_def liberar_def free_espacos)
qed

section \<open>The remaining operations\<close>

lemma corrente_ok:
  assumes "lista_ok C m L es xs (Some i)"
  obtains h where "forma C m L h es xs" "celulas m L = Some (Cabeca h)" "i < length es" "pElemCorr h = es ! i"
    "es ! i \<noteq> NULL" "L \<noteq> NULL"
proof -
  from assms obtain h where h: "forma C m L h es xs" "i < length es" "pElemCorr h = es ! i"
    by (auto simp: lista_ok_def)
  then show ?thesis using that[OF h(1)] forma_livre(4,5,7)[OF h(1)] by blast
qed

text \<open>Directing the current element to position \<open>k\<close>\<close>

lemma dirigir_ok:
  assumes f: "forma C m L h es xs" and q: "f h = h\<lparr>pElemCorr := q\<rparr>"
    and k: "case cur of None \<Rightarrow> es = [] \<and> q = NULL | Some k \<Rightarrow> k < length es \<and> q = es ! k"
  shows "\<exists>m'. mudar_cabeca L f m = Inr m' \<and> lista_ok C m' L es xs cur"
  using forma_corrente[OF f, of f] q k by (auto simp: lista_ok_def intro!: exI[of _ "h\<lparr>pElemCorr := q\<rparr>"] split: option.splits)

lemma pontas:
  assumes "forma C m L h es xs"
  shows "es \<noteq> [] \<Longrightarrow> pOrigemLista h = es ! 0" "es \<noteq> [] \<Longrightarrow> pFimLista h = es ! (length es - 1)"
    "es = [] \<Longrightarrow> pOrigemLista h = NULL \<and> pFimLista h = NULL"
  using assms by (simp_all add: forma_def cabeca_ok_def primeiro_def ultimo_def)

lemma ir_ok:
  assumes l: "lista_ok C m L es xs cur"
  shows "\<exists>m'. IrInicioLista L m = Inr m' \<and> lista_ok C m' L es xs (if es = [] then None else Some 0)"
    and "\<exists>m'. IrFinalLista L m = Inr m' \<and> lista_ok C m' L es xs (if es = [] then None else Some (length es - 1))"
proof -
  from l obtain h where f: "forma C m L h es xs" by (auto simp: lista_ok_def)
  note p = pontas[OF f] forma_livre(4)[OF f]
  show "\<exists>m'. IrInicioLista L m = Inr m' \<and> lista_ok C m' L es xs (if es = [] then None else Some 0)"
    using dirigir_ok[OF f, of "\<lambda>h. h\<lparr>pElemCorr := pOrigemLista h\<rparr>" _ "if es = [] then None else Some 0"] p
    by (auto simp: IrInicioLista_def)
  show "\<exists>m'. IrFinalLista L m = Inr m' \<and> lista_ok C m' L es xs (if es = [] then None else Some (length es - 1))"
    using dirigir_ok[OF f, of "\<lambda>h. h\<lparr>pElemCorr := pFimLista h\<rparr>" _ "if es = [] then None else Some (length es - 1)"] p
    by (auto simp: IrFinalLista_def)
qed

end

end
