(* ===== verification/ListaSpec.thy ===== *)
theory ListaSpec
  imports ListaProps
begin

text \<open>
  What the list promises: \<open>lis_espec\<close> is a list of values with a current position and no memory at all, of
  which every function of the module is a refinement.
\<close>

section \<open>The specification\<close>

datatype lis_op =
    InserirAntes endereco | InserirApos endereco | Excluir | Avancar int | IrInicio | IrFinal
  | Procurar endereco | Esvaziar

text \<open>\<open>falta\<close> tells that the allocation of an element fails.\<close>

definition espec_inserir where
  "espec_inserir falta j v xs cur =
     (if falta then (LIS_CondRetFaltouMemoria, xs, cur) else (LIS_CondRetOK, inserir_em j v xs, Some j))"

fun espec_avancar :: "int \<Rightarrow> 'a list \<Rightarrow> nat \<Rightarrow> LIS_tpCondRet \<times> nat" where
  "espec_avancar n xs i =
     (let j = int i + n in
      if 0 \<le> j \<and> j < int (length xs) then (LIS_CondRetOK, nat j)
      else (LIS_CondRetFimLista, if 0 < n then length xs - 1 else 0))"

fun lis_espec :: "bool \<Rightarrow> lis_op \<Rightarrow> endereco list \<Rightarrow> nat option \<Rightarrow> LIS_tpCondRet \<times> endereco list \<times> nat option" where
  "lis_espec falta (InserirAntes v) xs cur =
     espec_inserir falta (case cur of None \<Rightarrow> 0 | Some i \<Rightarrow> i) v xs cur"
| "lis_espec falta (InserirApos v) xs cur =
     espec_inserir falta (case cur of None \<Rightarrow> 0 | Some i \<Rightarrow> Suc i) v xs cur"
| "lis_espec falta Excluir xs None = (LIS_CondRetListaVazia, xs, None)"
| "lis_espec falta Excluir xs (Some i) =
     (LIS_CondRetOK, remover_em i xs, if length xs = 1 then None else Some (i - 1))"
| "lis_espec falta (Avancar n) xs None = (LIS_CondRetListaVazia, xs, None)"
| "lis_espec falta (Avancar n) xs (Some i) = (case espec_avancar n xs i of (r, j) \<Rightarrow> (r, xs, Some j))"
| "lis_espec falta IrInicio xs cur = (LIS_CondRetOK, xs, if xs = [] then None else Some 0)"
| "lis_espec falta IrFinal xs cur = (LIS_CondRetOK, xs, if xs = [] then None else Some (length xs - 1))"
| "lis_espec falta (Procurar v) xs None = (LIS_CondRetListaVazia, xs, None)"
| "lis_espec falta (Procurar v) xs (Some i) =
     (case find (\<lambda>k. xs ! k = v) [i..<length xs] of
        None \<Rightarrow> (LIS_CondRetNaoAchou, xs, Some i) | Some k \<Rightarrow> (LIS_CondRetOK, xs, Some k))"
| "lis_espec falta Esvaziar xs cur = (LIS_CondRetOK, [], None)"

text \<open>The function of the module; those without a result are given the condition \<open>LIS_CondRetOK\<close>.\<close>

fun lis_executar ::
    "'c ced \<Rightarrow> (endereco \<Rightarrow> 'c \<Rightarrow> 'c) \<Rightarrow> endereco \<Rightarrow> lis_op \<Rightarrow> 'c lis_mem \<Rightarrow> (LIS_tpCondRet \<times> 'c lis_mem) res option" where
  "lis_executar C D L (InserirAntes v) m = Some (LIS_InserirElementoAntes C L v m)"
| "lis_executar C D L (InserirApos v) m = Some (LIS_InserirElementoApos C L v m)"
| "lis_executar C D L Excluir m = Some (LIS_ExcluirElemento C D L m)"
| "lis_executar C D L (Avancar n) m = Some (LIS_AvancarElementoCorrente L n m)"
| "lis_executar C D L IrInicio m = Some (res_bind (IrInicioLista L m) (\<lambda>m'. Inr (LIS_CondRetOK, m')))"
| "lis_executar C D L IrFinal m = Some (res_bind (IrFinalLista L m) (\<lambda>m'. Inr (LIS_CondRetOK, m')))"
| "lis_executar C D L (Procurar v) m = LIS_ProcurarValor L v m"
| "lis_executar C D L Esvaziar m =
     map_option (\<lambda>r. res_bind r (\<lambda>m'. Inr (LIS_CondRetOK, m'))) (LIS_EsvaziarLista C D L m)"

fun op_valida :: "'c ced \<Rightarrow> lis_op \<Rightarrow> 'c lis_mem \<Rightarrow> endereco \<Rightarrow> endereco list \<Rightarrow> endereco list \<Rightarrow> bool" where
  "op_valida C (InserirAntes v) m L es xs = valor_novo C m L es xs v"
| "op_valida C (InserirApos v) m L es xs = valor_novo C m L es xs v"
| "op_valida C op m L es xs = True"

section \<open>Each function against the specification\<close>

context lis_cliente
begin

lemma avancar_ok:
  assumes l: "lista_ok C m L es xs (Some i)"
  shows "\<exists>m'. LIS_AvancarElementoCorrente L n m = Inr (fst (espec_avancar n xs i), m') \<and>
    lista_ok C m' L es xs (Some (snd (espec_avancar n xs i)))"
proof -
  obtain h where f: "forma C m L h es xs" and h: "celulas m L = Some (Cabeca h)" "i < length es" "pElemCorr h = es ! i"
    "es ! i \<noteq> NULL" "L \<noteq> NULL" using corrente_ok[OF l] by blast
  have es: "es \<noteq> []" "length xs = length es" using h(2) forma_livre(8)[OF f] by auto
  note p = pontas(1,2)[OF f es(1)]
  note eval = LIS_AvancarElementoCorrente_def ler_ok(1)[OF h(1)] h(3-5)
  have dir: "\<exists>m'. res_bind (mudar_cabeca L g m) (\<lambda>m'. Inr (r, m')) = Inr (r, m') \<and> lista_ok C m' L es xs (Some k)"
    if "g h = h\<lparr>pElemCorr := es ! k\<rparr>" "k < length es" for g r k
    using dirigir_ok[OF f, of g "es ! k" "Some k"] that by (auto split: sum.splits)
  consider "n = 0" | "0 < n" "i + nat n < length es" | "0 < n" "\<not> i + nat n < length es"
    | "n < 0" "nat (- n) \<le> i" | "n < 0" "\<not> nat (- n) \<le> i" by linarith
  then show ?thesis
  proof cases
    case 1
    then show ?thesis using l h(2) es by (simp add: eval)
  next
    case 2
    have "int i + n < int (length es)" "nat (int i + n) = i + nat n" using 2 by linarith+
    then show ?thesis using dir[of "\<lambda>h. h\<lparr>pElemCorr := es ! (i + nat n)\<rparr>" "i + nat n" LIS_CondRetOK] 2 es
        andar_prox[OF f h(2), of "nat n"] forma_livre(5)[OF f 2(2)] by (simp add: eval)
  next
    case 3
    have "\<not> int i + n < int (length es)" using 3 by linarith
    then show ?thesis using dir[of "\<lambda>h. h\<lparr>pElemCorr := pFimLista h\<rparr>" "length es - 1" LIS_CondRetFimLista] 3 es p
        andar_prox[OF f h(2), of "nat n"] by (simp add: eval)
  next
    case 4
    have k: "i - nat (- n) < length es" "0 \<le> int i + n" "int i + n < int (length es)" "nat (int i + n) = i - nat (- n)"
      using 4 h(2) by linarith+
    then show ?thesis using dir[of "\<lambda>h. h\<lparr>pElemCorr := es ! (i - nat (- n))\<rparr>" "i - nat (- n)" LIS_CondRetOK] 4 es
        andar_ant[OF f h(2), of "nat (- n)"] forma_livre(5)[OF f k(1)] by (simp add: eval)
  next
    case 5
    have "\<not> 0 \<le> int i + n" using 5 by linarith
    then show ?thesis using dir[of "\<lambda>h. h\<lparr>pElemCorr := pOrigemLista h\<rparr>" 0 LIS_CondRetFimLista] 5 es p
        andar_ant[OF f h(2), of "nat (- n)"] by (simp add: eval)
  qed
qed

lemma procurar_ok:
  assumes l: "lista_ok C m L es xs (Some i)"
  shows "\<exists>m'. LIS_ProcurarValor L v m = (case find (\<lambda>k. xs ! k = v) [i..<length xs] of
      None \<Rightarrow> Some (Inr (LIS_CondRetNaoAchou, m')) | Some k \<Rightarrow> Some (Inr (LIS_CondRetOK, m'))) \<and>
    lista_ok C m' L es xs (Some (case find (\<lambda>k. xs ! k = v) [i..<length xs] of None \<Rightarrow> i | Some k \<Rightarrow> k))"
proof -
  obtain h where f: "forma C m L h es xs" and h: "celulas m L = Some (Cabeca h)" "i < length es" "pElemCorr h = es ! i"
    "es ! i \<noteq> NULL" "L \<noteq> NULL" using corrente_ok[OF l] by blast
  note eval = LIS_ProcurarValor_def ler_ok(1)[OF h(1)] h(3-5)
  have laco: "procurar_laco v (es ! i) m =
    Some (Inr (case find (\<lambda>k. xs ! k = v) [i..<length xs] of Some k \<Rightarrow> es ! k | None \<Rightarrow> NULL))"
    using procurar_laco_ok[OF f, of v i] h(2) forma_livre(8)[OF f] by simp
  show ?thesis
  proof (cases "find (\<lambda>k. xs ! k = v) [i..<length xs]")
    case None
    then show ?thesis using l laco by (auto simp: eval)
  next
    case (Some k)
    then have k: "k < length es" using forma_livre(8)[OF f] by (auto simp: find_Some_iff)
    then show ?thesis using Some laco forma_livre(5)[OF f k] dirigir_ok[OF f, of "\<lambda>h. h\<lparr>pElemCorr := es ! k\<rparr>" "es ! k" "Some k"]
      by (auto simp: eval)
  qed
qed

lemma sem_corrente:
  assumes "lista_ok C m L es xs None"
  shows "es = []" "xs = []" "LIS_ExcluirElemento C D L m = Inr (LIS_CondRetListaVazia, m)"
    "LIS_AvancarElementoCorrente L n m = Inr (LIS_CondRetListaVazia, m)"
    "LIS_ProcurarValor L v m = Some (Inr (LIS_CondRetListaVazia, m))" "LIS_ObterValor L m = Inr NULL"
proof -
  from assms obtain h where f: "forma C m L h es xs" and c: "es = []" "pElemCorr h = NULL" by (auto simp: lista_ok_def)
  note h = ler_ok(1)[OF forma_livre(7)[OF f]] forma_livre(4,8)[OF f]
  show "es = []" "xs = []" "LIS_ExcluirElemento C D L m = Inr (LIS_CondRetListaVazia, m)"
    "LIS_AvancarElementoCorrente L n m = Inr (LIS_CondRetListaVazia, m)"
    "LIS_ProcurarValor L v m = Some (Inr (LIS_CondRetListaVazia, m))" "LIS_ObterValor L m = Inr NULL"
    using c h by (simp_all add: LIS_ExcluirElemento_def LIS_AvancarElementoCorrente_def LIS_ProcurarValor_def LIS_ObterValor_def)
qed

lemma obter_ok:
  assumes l: "lista_ok C m L es xs cur"
  shows "LIS_ObterValor L m = Inr (case cur of None \<Rightarrow> NULL | Some i \<Rightarrow> xs ! i)"
proof (cases cur)
  case None
  then show ?thesis using sem_corrente(6) l by simp
next
  case (Some i)
  obtain h where f: "forma C m L h es xs" and h: "celulas m L = Some (Cabeca h)" "i < length es" "pElemCorr h = es ! i"
    "es ! i \<noteq> NULL" "L \<noteq> NULL" using corrente_ok l unfolding Some by blast
  show ?thesis using Some h forma_livre(5)[OF f h(2)] by (simp add: LIS_ObterValor_def ler_ok)
qed

lemma espec_inserir_ok:
  assumes l: "lista_ok C m L es xs cur" and v: "valor_novo C m L es xs v"
    and op: "op = InserirAntes v \<or> op = InserirApos v"
    and e: "lis_espec (fst (ced_malloc C (controle m)) = NULL) op xs cur = (r, xs', cur')"
  shows "\<exists>m' es'. lis_executar C D L op m = Some (Inr (r, m')) \<and> lista_ok C m' L es' xs' cur'"
proof -
  obtain p c where malloc: "ced_malloc C (controle m) = (p, c)" by fastforce
  show ?thesis
  proof (cases "p = NULL")
    case True
    then show ?thesis using op e malloc inserir_sem_memoria(1,2)[OF l, of c v] inserir_sem_memoria(3)[OF l, of c] by (auto simp: espec_inserir_def)
  next
    case False
    from op show ?thesis
    proof
      assume "op = InserirAntes v"
      then show ?thesis using e malloc False inserir_antes_ok[OF l v malloc False refl]
        by (auto simp: espec_inserir_def)
    next
      assume "op = InserirApos v"
      then show ?thesis using e malloc False inserir_apos_ok[OF l v malloc False refl]
        by (auto simp: espec_inserir_def)
    qed
  qed
qed

lemma executar_ok:
  assumes l: "lista_ok C m L es xs cur" and v: "op_valida C op m L es xs"
    and e: "lis_espec (fst (ced_malloc C (controle m)) = NULL) op xs cur = (r, xs', cur')"
  shows "\<exists>m' es'. lis_executar C D L op m = Some (Inr (r, m')) \<and> lista_ok C m' L es' xs' cur'"
proof -
  have len: "length xs = length es" "xs = [] \<longleftrightarrow> es = []" using l by (auto simp: lista_ok_def forma_def elos_def)
  show ?thesis
  proof (cases op)
    case (InserirAntes v)
    then show ?thesis using espec_inserir_ok[OF l _ _ e] assms(2) by simp
  next
    case (InserirApos v)
    then show ?thesis using espec_inserir_ok[OF l _ _ e] assms(2) by simp
  next
    case Excluir
    then show ?thesis using l e len sem_corrente(3) excluir_ok by (cases cur) fastforce+
  next
    case (Avancar n)
    show ?thesis
    proof (cases cur)
      case None
      then show ?thesis using Avancar l e sem_corrente(4) by fastforce
    next
      case (Some i)
      then show ?thesis using Avancar l e avancar_ok[of m L es xs i n] by (auto split: prod.splits simp del: espec_avancar.simps)
    qed
  next
    case IrInicio
    then show ?thesis using e ir_ok(1)[OF l] len by auto
  next
    case IrFinal
    then show ?thesis using e ir_ok(2)[OF l] len by auto
  next
    case (Procurar v)
    show ?thesis
    proof (cases cur)
      case None
      then show ?thesis using Procurar l e sem_corrente(5) by fastforce
    next
      case (Some i)
      then show ?thesis using Procurar l e procurar_ok[of m L es xs i v] by (auto split: option.splits)
    qed
  next
    case Esvaziar
    then show ?thesis using e esvaziar_ok[OF l] by auto
  qed
qed

end

section \<open>The refinement\<close>

lemma lista_nula:
  "lis_executar C D NULL op m =
     Some (Inr (if op = IrInicio \<or> op = IrFinal \<or> op = Esvaziar then LIS_CondRetOK else LIS_CondRetNaoExiste, m))"
  by (cases op) (simp_all add: LIS_InserirElementoAntes_def LIS_InserirElementoApos_def LIS_ExcluirElemento_def
      LIS_AvancarElementoCorrente_def LIS_ProcurarValor_def IrInicioLista_def IrFinalLista_def LIS_EsvaziarLista_def)

text \<open>A list of three elements, and a value that is not in it yet\<close>

definition lis_exemplo :: "ref_ced_estado lis_mem" where
  "lis_exemplo = \<lparr>celulas = [
       EspacoLixo \<mapsto> Elem elem_lixo,
       End 100 \<mapsto> Cabeca \<lparr>pOrigemLista = End 101, pFimLista = End 103, pElemCorr = End 102, NumeroDeElementos = 3,
         ExcluirValor = True, cabTipo = 1\<rparr>,
       End 101 \<mapsto> Elem (no (End 100) (End 104) NULL (End 102)),
       End 102 \<mapsto> Elem (no (End 100) (End 105) (End 101) (End 103)),
       End 103 \<mapsto> Elem (no (End 100) (End 106) (End 102) NULL)],
     controle = \<lparr>rc_proximo = 8, rc_limite = 0, rc_espacos = [0, 1, 2, 3, 4, 5, 6, 7],
       rc_tipos = (\<lambda>_. 0)(End 100 := 1, End 101 := 2, End 102 := 2, End 103 := 2), rc_ativos = []\<rparr>\<rparr>"

lemma exemplo_espacos:
  "ced_espacos ref_ced (controle lis_exemplo) = map End [100, 101, 102, 103, 104, 105, 106, 107]"
  "ced_obter_tipo ref_ced (controle lis_exemplo) (End a) =
     (if a = 100 then 1 else if a \<in> {101, 102, 103} then 2 else 0)"
  by (simp_all add: lis_exemplo_def ref_ced_def ref_ced_espacos_def ref_ced_tipo_def)

lemma exemplo_ok:
  "lista_ok ref_ced lis_exemplo (End 100) [End 101, End 102, End 103] [End 104, End 105, End 106] (Some 1)"
proof -
  have "elos (celulas lis_exemplo) (End 100) [End 101, End 102, End 103] [End 104, End 105, End 106]"
    by (simp add: elos_def lis_exemplo_def EspacoLixo_def antes_def depois_def All_less_Suc)
  then show ?thesis
    by (simp add: lista_ok_def forma_def cabeca_ok_def espacos_ok_def valores_ok_def primeiro_def ultimo_def exemplo_espacos)
      (simp add: lis_exemplo_def ref_ced_def ref_ced_tipo_def EspacoLixo_def ced_tipos)
qed

text \<open>
  (C9) The list implements \<open>lis_espec\<close>, a list of values with a current position: on an undamaged list
  every function of the module that is given a new value or none ends without undefined behaviour, answers
  what the specification answers (no memory, an empty list, the end reached, a value not found) and leaves
  an undamaged list with the values and the position of the specification; \<open>LIS_ObterValor\<close> gives the
  value at the position. A list that does not exist is left alone and reported.
\<close>

theorem lis_refines:
  assumes "lis_cliente C D" and "lista_ok C m L es xs cur" and "op_valida C op m L es xs"
    and "lis_espec (fst (ced_malloc C (controle m)) = NULL) op xs cur = (r, xs', cur')"
  shows "(\<exists>m' es'. lis_executar C D L op m = Some (Inr (r, m')) \<and> lista_ok C m' L es' xs' cur') \<and>
    LIS_ObterValor L m = Inr (case cur of None \<Rightarrow> NULL | Some i \<Rightarrow> xs ! i) \<and>
    lis_executar C D NULL op m =
      Some (Inr (if op = IrInicio \<or> op = IrFinal \<or> op = Esvaziar then LIS_CondRetOK else LIS_CondRetNaoExiste, m))"
  by (intro conjI lis_cliente.executar_ok[OF assms] lis_cliente.obter_ok[OF assms(1,2)] lista_nula)

theorem lis_refines_witness:
  "(\<exists>m' es'. LIS_InserirElementoAntes ref_ced (End 100) (End 107) lis_exemplo = Inr (LIS_CondRetOK, m') \<and>
    lista_ok ref_ced m' (End 100) es' [End 104, End 107, End 105, End 106] (Some 1)) \<and>
   (\<exists>m' es'. LIS_ExcluirElemento ref_ced (ced_free ref_ced) (End 100) lis_exemplo = Inr (LIS_CondRetOK, m') \<and>
    lista_ok ref_ced m' (End 100) es' [End 104, End 106] (Some 0))"
proof
  have v: "op_valida ref_ced (InserirAntes (End 107)) lis_exemplo (End 100) [End 101, End 102, End 103] [End 104, End 105, End 106]"
    by (simp add: valor_novo_def exemplo_espacos)
  have "fst (ced_malloc ref_ced (controle lis_exemplo)) \<noteq> NULL"
    by (simp add: lis_exemplo_def ref_ced_def)
  with lis_refines[OF ref_cliente.lis_cliente_axioms exemplo_ok v]
  show "\<exists>m' es'. LIS_InserirElementoAntes ref_ced (End 100) (End 107) lis_exemplo = Inr (LIS_CondRetOK, m') \<and>
    lista_ok ref_ced m' (End 100) es' [End 104, End 107, End 105, End 106] (Some 1)"
    by (simp add: espec_inserir_def inserir_em_def)
  show "\<exists>m' es'. LIS_ExcluirElemento ref_ced (ced_free ref_ced) (End 100) lis_exemplo = Inr (LIS_CondRetOK, m') \<and>
    lista_ok ref_ced m' (End 100) es' [End 104, End 106] (Some 0)"
    using lis_refines[OF ref_cliente.lis_cliente_axioms exemplo_ok, of Excluir] by (simp add: remover_em_def)
qed

end
