(* ===== verification/ListaVerify.thy ===== *)
theory ListaVerify
  imports ListaSpec
begin

text \<open>
  The verifier: its end on every memory, its verdict on an undamaged list, and what it finds after each
  way of damaging one.
\<close>

section \<open>Walking over elements that pass\<close>

text \<open>From \<open>p\<close>, the elements \<open>ps\<close> pass the verification and the next one is \<open>q\<close>.\<close>

fun caminho ::
    "'c ced \<Rightarrow> LIS_tpLista \<Rightarrow> 'c lis_mem \<Rightarrow> endereco \<Rightarrow> endereco list \<Rightarrow> endereco \<Rightarrow> bool" where
  "caminho C h m p [] q \<longleftrightarrow> p = q"
| "caminho C h m p (x # ps) q \<longleftrightarrow> p = x \<and> x \<noteq> NULL \<and>
     (\<exists>e. ler_elem m x = Inr e \<and> verificar_elemento C h x e m = Inr None \<and> caminho C h m (pProx e) ps q)"

fun marcar_caminho :: "'c ced \<Rightarrow> endereco list \<Rightarrow> 'c lis_mem \<Rightarrow> 'c lis_mem" where
  "marcar_caminho C [] m = m"
| "marcar_caminho C (x # ps) m =
     (case ler_elem m x of
        Inl _ \<Rightarrow> m | Inr e \<Rightarrow> marcar_caminho C ps (marcar C (pValor e) (marcar C x m)))"

lemma caminho_append:
  "caminho C h m p (ps @ qs) r \<longleftrightarrow> (\<exists>q. caminho C h m p ps q \<and> caminho C h m q qs r)"
  by (induction ps arbitrary: p) auto

context lis_cliente
begin

lemma verificar_marcar [simp]: "verificar_elemento C h p e (marcar C q m) = verificar_elemento C h p e m"
  by (simp add: verificar_elemento_def marcar_def marcar_tipo ler_elem_def)

lemma caminho_marcar [simp]: "caminho C h (marcar C q m) p ps r = caminho C h m p ps r"
  by (induction ps arbitrary: p) simp_all

lemma celulas_caminho [simp]: "celulas (marcar_caminho C ps m) = celulas m"
  by (induction ps arbitrary: m) (auto split: sum.split)

lemma laco_caminho:
  "caminho C h m p ps q \<Longrightarrow>
   verificar_laco C h p n achou m =
     verificar_laco C h q (n + int (length ps)) (achou \<or> pElemCorr h \<in> set ps) (marcar_caminho C ps m)"
proof (induction ps arbitrary: p n achou m)
  case Nil
  then show ?case by simp
next
  case (Cons x ps)
  then obtain e where e: "p = x" "x \<noteq> NULL" "ler_elem m x = Inr e" "verificar_elemento C h x e m = Inr None"
    "caminho C h m (pProx e) ps q" by auto
  have "verificar_laco C h p n achou m = verificar_laco C h (pProx e) (n + 1) (achou \<or> pElemCorr h = x)
      (marcar C (pValor e) (marcar C x m))"
    using e by (simp add: verificar_laco.simps[of C h x])
  also have "\<dots> = verificar_laco C h q (n + 1 + int (length ps)) ((achou \<or> pElemCorr h = x) \<or> pElemCorr h \<in> set ps)
      (marcar_caminho C ps (marcar C (pValor e) (marcar C x m)))"
    by (rule Cons.IH) (simp add: e)
  finally show ?case using e by (simp add: ac_simps)
qed

text \<open>What an element's verification reads\<close>

lemma caminho_igual:
  assumes "\<And>q. ler_elem m' q = ler_elem m q" "\<And>q. ced_obter_tipo C (controle m') q = ced_obter_tipo C (controle m) q"
    and "cabTipo h' = cabTipo h" "pOrigemLista h' = pOrigemLista h" "pFimLista h' = pFimLista h"
  shows "caminho C h' m' p ps r = caminho C h m p ps r"
proof -
  have "verificar_elemento C h' x e m' = verificar_elemento C h x e m" for x e
    by (simp add: verificar_elemento_def assms)
  then show ?thesis by (induction ps arbitrary: p) (simp_all add: assms)
qed

lemmas caminho_controle = caminho_igual[OF _ _ refl refl refl]

text \<open>The spaces and marks after the walk\<close>

lemma marcas_caminho:
  "caminho C h m p ps q \<Longrightarrow>
   ced_espacos C (controle (marcar_caminho C ps m)) = ced_espacos C (controle m) \<and>
   ced_obter_tipo C (controle (marcar_caminho C ps m)) y = ced_obter_tipo C (controle m) y \<and>
   (y \<in> set (ced_espacos C (controle m)) \<longrightarrow>
     ced_eh_ativo C (controle (marcar_caminho C ps m)) y \<longleftrightarrow>
       ced_eh_ativo C (controle m) y \<or> y \<in> set ps \<or> (\<exists>x e. x \<in> set ps \<and> ler_elem m x = Inr e \<and> y = pValor e))"
proof (induction ps arbitrary: p m)
  case Nil
  then show ?case by simp
next
  case (Cons x ps)
  then obtain e where e: "ler_elem m x = Inr e" "caminho C h m (pProx e) ps q" by auto
  let ?m = "marcar C (pValor e) (marcar C x m)"
  have "ced_espacos C (controle ?m) = ced_espacos C (controle m)"
    "ced_obter_tipo C (controle ?m) y = ced_obter_tipo C (controle m) y"
    "y \<in> set (ced_espacos C (controle m)) \<Longrightarrow>
       ced_eh_ativo C (controle ?m) y \<longleftrightarrow> y = pValor e \<or> y = x \<or> ced_eh_ativo C (controle m) y"
    by (simp_all add: marcar_def marcar_espacos marcar_tipo marcar_ativo)
  with Cons.IH[of ?m "pProx e"] e show ?case by auto
qed

section \<open>Verdicts\<close>

text \<open>The verdict is that of the first element that does not pass, or that of the end.\<close>

lemma veredito_no:
  assumes h: "ler_cabeca m L = Inr h" "L \<noteq> NULL" "verificar_cabeca h m = Inr None"
    "ced_obter_tipo C (controle m) L = LIS_TipoEspacoCabeca"
    and c: "caminho C h m (pOrigemLista h) ps q" "q \<noteq> NULL" "ler_elem m q = Inr e"
    and v: "verificar_elemento C h q e m = r"
  shows "(r = Inr (Some v) \<longrightarrow> (\<exists>m'. LIS_VerificarLista C L m = Some (Inr (v, m')))) \<and>
    (r = Inl x \<longrightarrow> LIS_VerificarLista C L m = Some (Inl x))"
proof -
  let ?m = "marcar C L (m\<lparr>controle := ced_marcar_inativos C (controle m)\<rparr>)"
  have same: "ler_elem ?m y = ler_elem m y" "ced_obter_tipo C (controle ?m) y = ced_obter_tipo C (controle m) y" for y
    by (simp_all add: marcar_def ler_elem_def marcar_tipo)
  have "caminho C h ?m (pOrigemLista h) ps q" unfolding caminho_controle[of ?m m, OF same] by (rule c(1))
  note laco = laco_caminho[OF this, of 0 False]
  let ?n = "marcar_caminho C ps ?m"
  have "ler_elem ?n q = Inr e" using c(3) by (simp add: ler_elem_def)
  moreover have "verificar_elemento C h q e ?n = verificar_elemento C h q e m"
    using marcas_caminho[OF \<open>caminho C h ?m (pOrigemLista h) ps q\<close>] same
    by (simp add: verificar_elemento_def ler_elem_def)
  ultimately show ?thesis using h c(2) v laco
    by (auto simp: LIS_VerificarLista_def Let_def verificar_laco.simps[of C h q] marcar_tipo)
qed

lemma veredito_fim:
  assumes h: "ler_cabeca m L = Inr h" "L \<noteq> NULL" "verificar_cabeca h m = Inr None"
    "ced_obter_tipo C (controle m) L = LIS_TipoEspacoCabeca"
    and c: "caminho C h m (pOrigemLista h) ps NULL"
  shows "\<exists>m'. LIS_VerificarLista C L m = Some (Inr (
    (if NumeroDeElementos h \<noteq> int (length ps) then LIS_Verificar_Cabeca_NumeroDeElementosInconsistente
     else if pElemCorr h \<noteq> NULL \<and> pElemCorr h \<notin> set ps then LIS_Verificar_Cabeca_pCorrenteInconsistente
     else if \<exists>y \<in> set (ced_espacos C (controle m)). ced_obter_tipo C (controle m) y = LIS_TipoEspacoCabeca \<and>
       y \<noteq> L \<and> y \<notin> set ps \<and> (\<forall>x \<in> set ps. \<forall>e. ler_elem m x = Inr e \<longrightarrow> y \<noteq> pValor e)
     then LIS_Verificar_Lista_VazamentoDeMemoria else LIS_Verificar_ListaValida), m'))"
proof -
  let ?m = "marcar C L (m\<lparr>controle := ced_marcar_inativos C (controle m)\<rparr>)"
  have same: "ler_elem ?m y = ler_elem m y" "ced_obter_tipo C (controle ?m) y = ced_obter_tipo C (controle m) y" for y
    by (simp_all add: marcar_def ler_elem_def marcar_tipo)
  have esp: "ced_espacos C (controle ?m) = ced_espacos C (controle m)"
    "y \<in> set (ced_espacos C (controle m)) \<Longrightarrow> ced_eh_ativo C (controle ?m) y \<longleftrightarrow> y = L" for y
    by (simp_all add: marcar_def marcar_espacos marcar_ativo marcar_inativos)
  have cam: "caminho C h ?m (pOrigemLista h) ps NULL" unfolding caminho_controle[of ?m m, OF same] by (rule c)
  let ?n = "marcar_caminho C ps ?m"
  have laco: "verificar_laco C h (pOrigemLista h) 0 False ?m =
      Some (Inr (Inr (int (length ps), pElemCorr h \<in> set ps), ?n))"
    unfolding laco_caminho[OF cam] by (simp add: verificar_laco.simps)
  have "vazamento C LIS_TipoEspacoCabeca (controle ?n) \<longleftrightarrow>
     (\<exists>y \<in> set (ced_espacos C (controle m)). ced_obter_tipo C (controle m) y = LIS_TipoEspacoCabeca \<and>
       y \<noteq> L \<and> y \<notin> set ps \<and> (\<forall>x \<in> set ps. \<forall>e. ler_elem m x = Inr e \<longrightarrow> y \<noteq> pValor e))"
  proof -
    have "ced_espacos C (controle ?n) = ced_espacos C (controle m)" using marcas_caminho[OF cam] esp(1) by simp
    moreover have "ced_obter_tipo C (controle ?n) y = ced_obter_tipo C (controle m) y" for y
      using marcas_caminho[OF cam, of y] same(2) by simp
    moreover have "ced_eh_ativo C (controle ?n) y \<longleftrightarrow>
        y = L \<or> y \<in> set ps \<or> (\<exists>x e. x \<in> set ps \<and> ler_elem m x = Inr e \<and> y = pValor e)"
      if "y \<in> set (ced_espacos C (controle m))" for y
      using marcas_caminho[OF cam, of y] esp(1) esp(2)[OF that] that unfolding same by simp
    ultimately show ?thesis by (auto simp: vazamento_def list_ex_iff)
  qed
  then show ?thesis using h laco
    by (auto simp: LIS_VerificarLista_def Let_def verificar_fim_def marcar_tipo)
qed

end

section \<open>The verification ends\<close>

lemma cabeca_visita:
  assumes "verificar_cabeca h m = Inr None"
  shows "visita m {} (pOrigemLista h)"
  using assms by (auto simp: visita_def verificar_cabeca_def checar_None res_bind_eq_Inr split: if_splits)

text \<open>
  (C17) The verification ends on every memory, whatever its links: each element that passes points back to an
  element visited before, so none is visited twice and a cycle is found where it closes.
\<close>

theorem lis_verify_terminates:
  assumes "finite (dom (celulas m))"
  shows "\<exists>r. LIS_VerificarLista C L m = Some r"
proof (cases "\<exists>h. L \<noteq> NULL \<and> ler_cabeca m L = Inr h \<and> verificar_cabeca h m = Inr None")
  case False
  then show ?thesis
    by (auto simp: LIS_VerificarLista_def split: sum.split option.split)
next
  case True
  then obtain h where h: "L \<noteq> NULL" "ler_cabeca m L = Inr h" "verificar_cabeca h m = Inr None" by blast
  let ?m = "marcar C L (m\<lparr>controle := ced_marcar_inativos C (controle m)\<rparr>)"
  have "visita ?m {} (pOrigemLista h)"
    using cabeca_visita[OF h(3)] unfolding visita_marcar by (simp add: visita_def ler_elem_def)
  with assms obtain r where "verificar_laco C h (pOrigemLista h) 0 False ?m = Some r"
    using verificar_laco_fim[of ?m "{}" "pOrigemLista h" C h 0 False] by auto
  with h show ?thesis
    by (cases r) (auto simp: LIS_VerificarLista_def Let_def split: prod.split sum.split)
qed

theorem lis_verify_terminates_witness:
  "\<exists>r. LIS_VerificarLista ref_ced (End 100)
     (lis_exemplo\<lparr>celulas := (celulas lis_exemplo)(
        End 103 \<mapsto> Elem (no (End 100) (End 106) (End 102) (End 101)))\<rparr>) = Some r"
  by (rule lis_verify_terminates) (simp add: lis_exemplo_def)

section \<open>An undamaged list\<close>

text \<open>What an element at position \<open>j\<close> needs to pass\<close>

lemma elemento_bom:
  assumes j: "j < length es" "xs ! j \<noteq> NULL" "xs ! j \<noteq> EspacoLixo" "NULL \<notin> set es"
    and t: "ced_obter_tipo C (controle m) (es ! j) = LIS_TipoEspacoNo" "ced_obter_tipo C (controle m) L = cabTipo h"
    and p: "j = 0 \<Longrightarrow> pOrigemLista h = es ! 0" "Suc j = length es \<Longrightarrow> pFimLista h = es ! j"
    and a: "0 < j \<Longrightarrow> \<exists>e. ler_elem m (es ! (j - 1)) = Inr e \<and> pProx e = es ! j"
    and x: "Suc j < length es \<Longrightarrow> \<exists>e. ler_elem m (es ! Suc j) = Inr e \<and> pAnt e = es ! j"
  shows "verificar_elemento C h (es ! j) (no L (xs ! j) (antes es j) (depois es j)) m = Inr None"
proof -
  have n: "k < length es \<Longrightarrow> es ! k \<noteq> NULL" for k using j(4) nth_mem[of k es] by metis
  have a': "(if antes es j = NULL then Inr (pOrigemLista h \<noteq> es ! j)
      else res_bind (ler_elem m (antes es j)) (\<lambda>a. Inr (pProx a \<noteq> es ! j))) = Inr False"
    using n[of "j - 1"] j(1) p(1) a by (cases "j = 0") (auto simp: antes_def)
  have x': "(if depois es j = NULL then Inr (pFimLista h \<noteq> es ! j)
      else res_bind (ler_elem m (depois es j)) (\<lambda>a. Inr (pAnt a \<noteq> es ! j))) = Inr False"
    using n[of "Suc j"] j(1) p(2) x by (cases "Suc j < length es") (auto simp: depois_def)
  show ?thesis unfolding verificar_elemento_def no_simps a' x' checar_def using j(2,3) t by simp
qed

lemma caminho_ate:
  assumes "k \<le> length es" "NULL \<notin> set es"
    and "\<And>j. j < k \<Longrightarrow> ler_elem m (es ! j) = Inr (no L (xs ! j) (antes es j) (depois es j))"
    and "\<And>j. j < k \<Longrightarrow> verificar_elemento C h (es ! j) (no L (xs ! j) (antes es j) (depois es j)) m = Inr None"
  shows "caminho C h m (primeiro es) (take k es) (if k < length es then es ! k else NULL)"
  using assms
proof (induction k)
  case 0
  then show ?case by (auto simp: primeiro_def)
next
  case (Suc k)
  then have k: "k < length es" "es ! k \<noteq> NULL" using nth_mem[of k es] by (simp, metis Suc_le_lessD)
  have "caminho C h m (primeiro es) (take k es) (es ! k)" using Suc.IH Suc.prems k by simp
  moreover have "ler_elem m (es ! k) = Inr (no L (xs ! k) (antes es k) (depois es k))"
    "verificar_elemento C h (es ! k) (no L (xs ! k) (antes es k) (depois es k)) m = Inr None"
    using Suc.prems(3,4) by simp_all
  ultimately show ?case using k by (simp add: take_Suc_conv_app_nth caminho_append depois_def)
qed

context lis_cliente
begin

lemma forma_tipos:
  assumes f: "forma C m L h es xs" and nn: "NULL \<notin> set xs"
  shows "ler_cabeca m L = Inr h" "L \<noteq> NULL" "ced_obter_tipo C (controle m) L = LIS_TipoEspacoCabeca"
    "NULL \<notin> set es" "i < length es \<Longrightarrow> xs ! i \<noteq> NULL \<and> xs ! i \<noteq> EspacoLixo"
    "i < length es \<Longrightarrow> ced_obter_tipo C (controle m) (es ! i) = LIS_TipoEspacoNo"
    "i < length es \<Longrightarrow> ler_elem m (es ! i) = Inr (no L (xs ! i) (antes es i) (depois es i))"
    "cabTipo h = LIS_TipoEspacoCabeca" "NumeroDeElementos h = int (length es)" "pOrigemLista h = primeiro es"
    "pFimLista h = ultimo es"
proof -
  note livre = forma_livre[OF f]
  have v: "valores_ok C (controle m) L es xs" and e: "espacos_ok C (controle m) L es" and c: "cabeca_ok h es"
    using f by (simp_all add: forma_def)
  show "ler_cabeca m L = Inr h" "L \<noteq> NULL" "NULL \<notin> set es" using livre by (simp_all add: ler_ok)
  show "ced_obter_tipo C (controle m) L = LIS_TipoEspacoCabeca" using e by (simp add: espacos_ok_def)
  show "i < length es \<Longrightarrow> ced_obter_tipo C (controle m) (es ! i) = LIS_TipoEspacoNo"
    using e by (simp add: espacos_ok_def)
  show "i < length es \<Longrightarrow> ler_elem m (es ! i) = Inr (no L (xs ! i) (antes es i) (depois es i))"
    using livre(5) by (simp add: ler_ok)
  show "cabTipo h = LIS_TipoEspacoCabeca" "NumeroDeElementos h = int (length es)" "pOrigemLista h = primeiro es"
    "pFimLista h = ultimo es" using c by (simp_all add: cabeca_ok_def)
  show "xs ! i \<noteq> NULL \<and> xs ! i \<noteq> EspacoLixo" if "i < length es"
  proof -
    have "xs ! i \<in> set xs" using that livre(8) by simp
    moreover from this have "xs ! i \<in> set (ced_espacos C (controle m))" using v nn by (auto simp: valores_ok_def)
    ultimately show ?thesis using nn lixo_livre by metis
  qed
qed

lemma cabeca_boa:
  assumes f: "forma C m L h es xs" and c: "pElemCorr h = NULL \<or> es \<noteq> []"
  shows "verificar_cabeca h m = Inr None"
proof (cases "es = []")
  case True
  then show ?thesis using pontas(3)[OF f] c f by (simp add: verificar_cabeca_def checar_def forma_def cabeca_ok_def)
next
  case False
  let ?n = "length es - 1"
  have l: "0 < length es" "?n < length es" using False by simp_all
  note a = forma_livre(5)[OF f l(1)] and b = forma_livre(5)[OF f l(2)]
  have "depois es ?n = NULL" "antes es 0 = NULL" using False by (simp_all add: depois_def antes_def)
  then show ?thesis using a b pontas(1,2)[OF f False] f
    by (simp add: verificar_cabeca_def checar_def forma_def cabeca_ok_def ler_ok)
qed

lemma caminho_forma:
  assumes f: "forma C m L h es xs" and nn: "NULL \<notin> set xs"
  shows "caminho C h m (pOrigemLista h) es NULL"
proof -
  note t = forma_tipos[OF f nn]
  have "verificar_elemento C h (es ! j) (no L (xs ! j) (antes es j) (depois es j)) m = Inr None"
    if j: "j < length es" for j
  proof (rule elemento_bom[OF j])
    show "xs ! j \<noteq> NULL" "xs ! j \<noteq> EspacoLixo" "NULL \<notin> set es" using t(4,5) j by auto
    show "ced_obter_tipo C (controle m) (es ! j) = LIS_TipoEspacoNo" "ced_obter_tipo C (controle m) L = cabTipo h"
      using t(3,6,8) j by simp_all
    show "j = 0 \<Longrightarrow> pOrigemLista h = es ! 0" "Suc j = length es \<Longrightarrow> pFimLista h = es ! j"
      using t(10,11) j by (auto simp: primeiro_def ultimo_def dest!: sym[of "Suc j"])
    show "\<exists>e. ler_elem m (es ! (j - 1)) = Inr e \<and> pProx e = es ! j" if "0 < j"
      using t(7)[of "j - 1"] that j by (simp add: depois_def)
    show "\<exists>e. ler_elem m (es ! Suc j) = Inr e \<and> pAnt e = es ! j" if "Suc j < length es"
      using t(7)[of "Suc j"] that by (simp add: antes_def)
  qed
  then show ?thesis using caminho_ate[of "length es" es m L xs C h] t(4,7,10) by simp
qed

lemma verificar_ok:
  assumes f: "forma C m L h es xs" and nn: "NULL \<notin> set xs" and c: "pElemCorr h = NULL \<or> pElemCorr h \<in> set es"
  shows "\<exists>m'. LIS_VerificarLista C L m = Some (Inr (
    (if \<exists>y \<in> set (ced_espacos C (controle m)). ced_obter_tipo C (controle m) y = LIS_TipoEspacoCabeca \<and>
        y \<noteq> L \<and> y \<notin> set xs
     then LIS_Verificar_Lista_VazamentoDeMemoria else LIS_Verificar_ListaValida), m'))"
proof -
  note t = forma_tipos[OF f nn]
  have len: "length xs = length es" using forma_livre(8)[OF f] .
  have "ced_obter_tipo C (controle m) y = LIS_TipoEspacoCabeca \<and> y \<noteq> L \<and> y \<notin> set es \<and>
      (\<forall>x \<in> set es. \<forall>e. ler_elem m x = Inr e \<longrightarrow> y \<noteq> pValor e) \<longleftrightarrow>
    ced_obter_tipo C (controle m) y = LIS_TipoEspacoCabeca \<and> y \<noteq> L \<and> y \<notin> set xs" for y
  proof (cases "ced_obter_tipo C (controle m) y = LIS_TipoEspacoCabeca")
    case True
    then have "y \<notin> set es" using t(6) by (auto simp: in_set_conv_nth ced_tipos)
    moreover have "(\<forall>x \<in> set es. \<forall>e. ler_elem m x = Inr e \<longrightarrow> y \<noteq> pValor e) \<longleftrightarrow> y \<notin> set xs"
      unfolding in_set_conv_nth all_set_conv_all_nth using t(7) len by auto
    ultimately show ?thesis by simp
  qed simp
  note vazou = this
  have "verificar_cabeca h m = Inr None" using cabeca_boa[OF f] c by fastforce
  from veredito_fim[OF t(1,2) this t(3) caminho_forma[OF f nn]]
  have "\<exists>m'. LIS_VerificarLista C L m = Some (Inr (
    (if NumeroDeElementos h \<noteq> int (length es) then LIS_Verificar_Cabeca_NumeroDeElementosInconsistente
     else if pElemCorr h \<noteq> NULL \<and> pElemCorr h \<notin> set es then LIS_Verificar_Cabeca_pCorrenteInconsistente
     else if \<exists>y \<in> set (ced_espacos C (controle m)). ced_obter_tipo C (controle m) y = LIS_TipoEspacoCabeca \<and>
        y \<noteq> L \<and> y \<notin> set xs
     then LIS_Verificar_Lista_VazamentoDeMemoria else LIS_Verificar_ListaValida), m'))"
    unfolding vazou .
  moreover have "\<not> (pElemCorr h \<noteq> NULL \<and> pElemCorr h \<notin> set es)" using c by blast
  ultimately show ?thesis using t(9) by (simp split del: if_split)
qed

end

lemma ced_cliente: "ced_laws C \<Longrightarrow> lis_cliente C (ced_free C)"
  by (simp add: lis_cliente_def lis_cliente_axioms_def ced_laws.free_espacos ced_laws.free_outros)

text \<open>
  (C33) The verdict on an undamaged list without empty values: valid, unless some allocated space with the
  type of a head is neither the head of this list nor one of its values, which is reported as a leak. So
  a second list makes the verification of the first one fail.
\<close>

theorem lis_verify_exact:
  assumes "ced_laws C" and "lista_ok C m L es xs cur" and "NULL \<notin> set xs"
  shows "\<exists>m'. LIS_VerificarLista C L m = Some (Inr (
    (if \<exists>y \<in> set (ced_espacos C (controle m)). ced_obter_tipo C (controle m) y = LIS_TipoEspacoCabeca \<and>
        y \<noteq> L \<and> y \<notin> set xs
     then LIS_Verificar_Lista_VazamentoDeMemoria else LIS_Verificar_ListaValida), m'))"
proof -
  from assms(2) obtain h where "forma C m L h es xs" "pElemCorr h = NULL \<or> pElemCorr h \<in> set es"
    by (auto simp: lista_ok_def split: option.splits)
  with assms(3) show ?thesis using lis_cliente.verificar_ok[OF ced_cliente[OF assms(1)]] by blast
qed

theorem lis_verify_exact_witness:
  "\<exists>m'. LIS_VerificarLista ref_ced (End 100) lis_exemplo = Some (Inr (LIS_Verificar_ListaValida, m'))"
  using lis_verify_exact[OF ref_ced.ced_laws_axioms exemplo_ok] by (simp add: exemplo_espacos ced_tipos)

end
