(* ===== verification/ListaDetect.thy ===== *)
theory ListaDetect
  imports ListaVerify
begin

text \<open>
  What the verification finds after \<open>LIS_DeturparLista\<close> has damaged a list: the verdict of each mode,
  by the length of the list and the position of the current element.
\<close>

fun lis_veredito :: "LIS_tpModosDeturpacao \<Rightarrow> nat \<Rightarrow> nat \<Rightarrow> LIS_tpVerificar option" where
  "lis_veredito LIS_DeturpaNULLpProx n k =
     (if Suc k = n then None else Some LIS_Verificar_Elemento_ErroNoEncadeamento)"
| "lis_veredito LIS_DeturpaNULLpAnt n k =
     (if k = 0 then None else Some LIS_Verificar_Elemento_ErroNoEncadeamento)"
| "lis_veredito LIS_DeturpaLixopProx n k =
     Some (if Suc k = n then LIS_Verificar_Cabeca_pUltimoIncorreto else LIS_Verificar_Elemento_ErroNoEncadeamento)"
| "lis_veredito LIS_DeturpaLixopAnt n k =
     Some (if k = 0 then LIS_Verificar_Cabeca_pPrimeiroIncorreto else LIS_Verificar_Elemento_ErroNoEncadeamento)"
| "lis_veredito LIS_DeturpaNULLpValorCorrente n k = Some LIS_Verificar_Elemento_pValorNull"
| "lis_veredito LIS_DeturpaNULLpCorrente n k = Some LIS_Verificar_Elemento_pValorNull"
| "lis_veredito LIS_DeturpaLixopValorCorrente n k = Some LIS_Verificar_Elemento_pValorErro"
| "lis_veredito LIS_DeturpaAlteraTipoEstrutura n k = Some LIS_Verificar_Cabeca_TipoInconsistente"
| "lis_veredito LIS_DeturpaNULLCabeca n k = Some LIS_Verificar_Cabeca_TipoInconsistente"
| "lis_veredito LIS_DeturpaNULLpOrigem n k = Some LIS_Verificar_Cabeca_pPrimeiroNull"
| "lis_veredito LIS_DeturpaAumentaNumeroElementos n k = Some LIS_Verificar_Cabeca_NumeroDeElementosInconsistente"
| "lis_veredito LIS_DeturpaNULLpUltimo n k = Some LIS_Verificar_Cabeca_pUltimoNull"
| "lis_veredito LIS_DeturpaLixopUltimo n k = Some LIS_Verificar_Cabeca_pUltimoIncorreto"
| "lis_veredito LIS_DeturpaLixopCorrente n k = Some LIS_Verificar_Cabeca_pCorrenteInconsistente"
| "lis_veredito LIS_DeturpaAlteraTipoNoCorrente n k = Some LIS_Verificar_Elemento_TipoInconsistente"
| "lis_veredito LIS_DeturpaAlteraTipoOrigem n k = Some LIS_Verificar_Elemento_TipoInconsistente"
| "lis_veredito LIS_DeturpaAlteraTipoUltimo n k = Some LIS_Verificar_Elemento_TipoInconsistente"
| "lis_veredito LIS_DeturpaNumeroDeElementosNegativo n k = Some LIS_Verificar_Cabeca_NumeroDeElementosInvalido"
| "lis_veredito modo n k = None"

section \<open>An element changed\<close>

text \<open>The memories that differ in an element or in the head\<close>

definition trocado :: "endereco \<Rightarrow> tpElemLista \<Rightarrow> 'c lis_mem \<Rightarrow> 'c lis_mem" where
  "trocado p e m = m\<lparr>celulas := (celulas m)(p \<mapsto> Elem e)\<rparr>"

definition com_cabeca :: "endereco \<Rightarrow> LIS_tpLista \<Rightarrow> 'c lis_mem \<Rightarrow> 'c lis_mem" where
  "com_cabeca L h m = m\<lparr>celulas := (celulas m)(L \<mapsto> Cabeca h)\<rparr>"

definition eliminado :: "'c ced \<Rightarrow> endereco \<Rightarrow> LIS_tpLista \<Rightarrow> endereco \<Rightarrow> 'c lis_mem \<Rightarrow> 'c lis_mem" where
  "eliminado C L h p m =
     com_cabeca L h (m\<lparr>celulas := (celulas m)(p := None), controle := ced_free C p (controle m)\<rparr>)"

context lis_cliente
begin

lemma trocado_le:
  assumes f: "forma C m L h es xs" and k: "k < length es"
  shows "ler_cabeca (trocado (es ! k) e m) L = Inr h" "ler_elem (trocado (es ! k) e m) (es ! k) = Inr e"
    "\<And>j. j < length es \<Longrightarrow> j \<noteq> k \<Longrightarrow>
       ler_elem (trocado (es ! k) e m) (es ! j) = Inr (no L (xs ! j) (antes es j) (depois es j))"
    "ler_elem (trocado (es ! k) e m) EspacoLixo = Inr elem_lixo"
    "controle (trocado (es ! k) e m) = controle m"
proof -
  note livre = forma_livre[OF f]
  from livre(5)[OF k] livre(7) show "ler_cabeca (trocado (es ! k) e m) L = Inr h"
    "ler_elem (trocado (es ! k) e m) (es ! k) = Inr e" by (simp_all add: trocado_def ler_cabeca_def ler_elem_def)
  show "ler_elem (trocado (es ! k) e m) (es ! j) = Inr (no L (xs ! j) (antes es j) (depois es j))"
    if "j < length es" "j \<noteq> k" for j
  proof -
    have "es ! j \<noteq> es ! k" using that k livre(3) by (simp add: nth_eq_iff_index_eq)
    then show ?thesis using livre(5)[OF that(1)] by (simp add: trocado_def ler_elem_def)
  qed
  have "EspacoLixo \<noteq> es ! k" using livre(5)[OF k] by metis
  then show "ler_elem (trocado (es ! k) e m) EspacoLixo = Inr elem_lixo"
    using f by (simp add: trocado_def ler_elem_def forma_def)
  show "controle (trocado (es ! k) e m) = controle m" by (simp add: trocado_def)
qed

lemma trocado_cabeca:
  assumes f: "forma C m L h es xs" and nn: "NULL \<notin> set xs" and k: "k < length es"
    and a: "k = 0 \<Longrightarrow> pAnt e = NULL" and x: "Suc k = length es \<Longrightarrow> pProx e = NULL"
  shows "verificar_cabeca h (trocado (es ! k) e m) = Inr None"
proof -
  let ?m = "trocado (es ! k) e m" and ?n = "length es - 1"
  have es: "es \<noteq> []" "0 < length es" "?n < length es" using k by auto
  note le = trocado_le[OF f k, where e = e]
  have "\<exists>e'. ler_elem ?m (es ! 0) = Inr e' \<and> pAnt e' = NULL"
    using le(2) le(3)[of 0] a es(2) by (cases "k = 0") (simp_all add: antes_def)
  moreover have "\<exists>e'. ler_elem ?m (es ! ?n) = Inr e' \<and> pProx e' = NULL"
  proof (cases "k = ?n")
    case True
    then show ?thesis using le(2) x es(3) by simp
  next
    case False
    moreover have "depois es ?n = NULL" using es by (simp add: depois_def)
    ultimately show ?thesis using le(3)[OF es(3)] by simp
  qed
  moreover have "es ! 0 \<noteq> NULL" "es ! ?n \<noteq> NULL" using forma_livre(5)[OF f] es by blast+
  ultimately show ?thesis using pontas(1,2)[OF f es(1)] forma_tipos(9)[OF f nn]
    by (auto simp: verificar_cabeca_def checar_def)
qed

lemma trocado_caminho:
  assumes f: "forma C m L h es xs" and nn: "NULL \<notin> set xs" and k: "k < length es"
    and r: "r \<le> k" "r = k \<Longrightarrow> 0 < k \<Longrightarrow> pAnt e = es ! (k - 1)"
  shows "caminho C h (trocado (es ! k) e m) (pOrigemLista h) (take r es) (es ! r)"
proof -
  let ?m = "trocado (es ! k) e m"
  note t = forma_tipos[OF f nn] and le = trocado_le[OF f k, where e = e]
  have "verificar_elemento C h (es ! j) (no L (xs ! j) (antes es j) (depois es j)) ?m = Inr None"
    if j: "j < r" for j
  proof (rule elemento_bom)
    have l: "j < length es" "j \<noteq> k" using j r(1) k by simp_all
    show "j < length es" by fact
    show "xs ! j \<noteq> NULL" "xs ! j \<noteq> EspacoLixo" "NULL \<notin> set es" using t(4) t(5)[OF l(1)] by auto
    show "ced_obter_tipo C (controle ?m) (es ! j) = LIS_TipoEspacoNo" "ced_obter_tipo C (controle ?m) L = cabTipo h"
      using t(3,8) t(6)[OF l(1)] by (simp_all add: le(5))
    show "j = 0 \<Longrightarrow> pOrigemLista h = es ! 0" using t(10) l by (auto simp: primeiro_def)
    show "Suc j = length es \<Longrightarrow> pFimLista h = es ! j" using j r(1) k by simp
    show "\<exists>e'. ler_elem ?m (es ! (j - 1)) = Inr e' \<and> pProx e' = es ! j" if "0 < j"
      using le(3)[of "j - 1"] that j r(1) k by (simp add: depois_def)
    show "\<exists>e'. ler_elem ?m (es ! Suc j) = Inr e' \<and> pAnt e' = es ! j" if "Suc j < length es"
    proof (cases "Suc j = k")
      case True
      then have "pAnt e = es ! j" using r j by (cases "r = k") auto
      then show ?thesis using True le(2) by simp
    next
      case False
      then show ?thesis using le(3)[OF that] by (simp add: antes_def)
    qed
  qed
  moreover have "ler_elem ?m (es ! j) = Inr (no L (xs ! j) (antes es j) (depois es j))" if "j < r" for j
    using le(3)[of j] that r(1) k by simp
  moreover have "r < length es" using r(1) k by simp
  ultimately show ?thesis using caminho_ate[of r es ?m L xs C h] t(4,10) by simp
qed

text \<open>The links of an element and its neighbours that were not changed\<close>

lemma trocado_antes:
  assumes f: "forma C m L h es xs" and nn: "NULL \<notin> set xs" and k: "k < length es" and j: "j < length es" "j \<noteq> Suc k"
  shows "(if antes es j = NULL then Inr (pOrigemLista h \<noteq> es ! j)
    else res_bind (ler_elem (trocado (es ! k) e m) (antes es j)) (\<lambda>a. Inr (pProx a \<noteq> es ! j))) = Inr False"
proof (cases j)
  case 0
  then show ?thesis using forma_tipos(10)[OF f nn] k by (auto simp: antes_def primeiro_def)
next
  case (Suc i)
  then show ?thesis using trocado_le(3)[OF f k, of i] forma_livre(5)[OF f, of i] j by (simp add: antes_def depois_def)
qed

lemma trocado_depois:
  assumes f: "forma C m L h es xs" and nn: "NULL \<notin> set xs" and k: "k < length es" and j: "j < length es" "k \<noteq> Suc j"
  shows "(if depois es j = NULL then Inr (pFimLista h \<noteq> es ! j)
    else res_bind (ler_elem (trocado (es ! k) e m) (depois es j)) (\<lambda>a. Inr (pAnt a \<noteq> es ! j))) = Inr False"
proof (cases "Suc j < length es")
  case False
  then have "es \<noteq> []" "length es - 1 = j" using j by auto
  then show ?thesis using forma_tipos(11)[OF f nn] False by (simp add: depois_def ultimo_def)
next
  case True
  then show ?thesis using trocado_le(3)[OF f k True] forma_livre(5)[OF f True] j by (simp add: antes_def depois_def)
qed

text \<open>The verdict of the changed element, or of the one before it when its link back was changed\<close>

lemma trocado_veredito:
  assumes f: "forma C m L h es xs" and nn: "NULL \<notin> set xs" and k: "k < length es"
    and a: "pAnt e = antes es k" and x: "Suc k = length es \<Longrightarrow> pProx e = NULL"
    and v: "verificar_elemento C h (es ! k) e (trocado (es ! k) e m) = Inr (Some v)"
  shows "\<exists>m'. LIS_VerificarLista C L (trocado (es ! k) e m) = Some (Inr (v, m'))"
proof -
  note t = forma_tipos[OF f nn] and le = trocado_le[OF f k, where e = e]
  have "verificar_cabeca h (trocado (es ! k) e m) = Inr None"
    by (rule trocado_cabeca[OF f nn k _ x]) (simp add: a antes_def)
  moreover have "caminho C h (trocado (es ! k) e m) (pOrigemLista h) (take k es) (es ! k)"
    by (rule trocado_caminho[OF f nn k]) (simp_all add: a antes_def)
  moreover have "es ! k \<noteq> NULL" using forma_livre(5)[OF f k] by blast
  moreover have "ced_obter_tipo C (controle (trocado (es ! k) e m)) L = LIS_TipoEspacoCabeca" by (simp add: le(5) t(3))
  ultimately show ?thesis using veredito_no[OF le(1) t(2) _ _ _ _ le(2) v] by blast
qed

lemma trocado_anterior:
  assumes f: "forma C m L h es xs" and nn: "NULL \<notin> set xs" and k: "Suc k < length es"
    and a: "pAnt e \<noteq> es ! k" and x: "Suc (Suc k) = length es \<Longrightarrow> pProx e = NULL"
  shows "\<exists>m'. LIS_VerificarLista C L (trocado (es ! Suc k) e m) =
    Some (Inr (LIS_Verificar_Elemento_ErroNoEncadeamento, m'))"
proof -
  let ?m = "trocado (es ! Suc k) e m" and ?e = "no L (xs ! k) (antes es k) (depois es k)"
  have l: "k < length es" "k \<noteq> Suc k" using k by simp_all
  note t = forma_tipos[OF f nn] and le = trocado_le[OF f k, where e = e]
  have "verificar_cabeca h ?m = Inr None" by (rule trocado_cabeca[OF f nn k _ x]) simp_all
  moreover have "caminho C h ?m (pOrigemLista h) (take k es) (es ! k)"
    by (rule trocado_caminho[OF f nn k]) simp_all
  moreover have "es ! k \<noteq> NULL" using forma_livre(5)[OF f l(1)] by blast
  moreover have "ced_obter_tipo C (controle ?m) L = LIS_TipoEspacoCabeca" by (simp add: le(5) t(3))
  moreover have "verificar_elemento C h (es ! k) ?e ?m = Inr (Some LIS_Verificar_Elemento_ErroNoEncadeamento)"
  proof -
    note trocado_antes[OF f nn k l(1), of e]
    moreover have "(if depois es k = NULL then Inr (pFimLista h \<noteq> es ! k)
        else res_bind (ler_elem ?m (depois es k)) (\<lambda>a. Inr (pAnt a \<noteq> es ! k))) = Inr True"
      using k forma_livre(5)[OF f k] le(2) a by (simp add: depois_def)
    ultimately show ?thesis unfolding verificar_elemento_def no_simps
      using t(3,8) t(6)[OF l(1)] by (simp add: checar_def le(5) split del: if_split)
  qed
  ultimately show ?thesis using veredito_no[OF le(1) t(2) _ _ _ _ le(3)[OF l]] by blast
qed

lemma nulo_tipo_cabeca: "ced_obter_tipo C c NULL \<noteq> LIS_TipoEspacoCabeca"
  by (simp add: nulo_tipo) (simp add: ced_tipos)

text \<open>Types, head pointer and value of an element\<close>

lemma campo_veredito:
  assumes f: "forma C m L h es xs" and nn: "NULL \<notin> set xs" and k: "k < length es"
    and e: "e = no L (xs ! k) (antes es k) (depois es k)"
  shows "\<exists>m'. LIS_VerificarLista C L (trocado (es ! k) (e\<lparr>elemTipo := elemTipo e + 1\<rparr>) m) =
      Some (Inr (LIS_Verificar_Elemento_TipoInconsistente, m'))"
    and "\<exists>m'. LIS_VerificarLista C L (trocado (es ! k) (e\<lparr>pCabeca := NULL\<rparr>) m) =
      Some (Inr (LIS_Verificar_Cabeca_TipoInconsistente, m'))"
    and "\<exists>m'. LIS_VerificarLista C L (trocado (es ! k) (e\<lparr>pValor := NULL\<rparr>) m) =
      Some (Inr (LIS_Verificar_Elemento_pValorNull, m'))"
    and "\<exists>m'. LIS_VerificarLista C L (trocado (es ! k) (e\<lparr>pValor := EspacoLixo\<rparr>) m) =
      Some (Inr (LIS_Verificar_Elemento_pValorErro, m'))"
proof -
  note t = forma_tipos[OF f nn] and t6 = forma_tipos(6)[OF f nn k]
  note elos = trocado_antes[OF f nn k k n_not_Suc_n] trocado_depois[OF f nn k k n_not_Suc_n]
  have d: "Suc k = length es \<Longrightarrow> pProx e = NULL" "pAnt e = antes es k" by (simp_all add: e depois_def)
  have lixo: "EspacoLixo \<noteq> NULL" by (simp add: EspacoLixo_def)
  note v = trocado_veredito[OF f nn k]
  note eval = verificar_elemento_def checar_def t6 trocado_le(5)[OF f k] t(3,8)
  show "\<exists>m'. LIS_VerificarLista C L (trocado (es ! k) (e\<lparr>elemTipo := elemTipo e + 1\<rparr>) m) =
      Some (Inr (LIS_Verificar_Elemento_TipoInconsistente, m'))"
    by (rule v) (use d e in \<open>simp_all add: eval\<close>)
  show "\<exists>m'. LIS_VerificarLista C L (trocado (es ! k) (e\<lparr>pCabeca := NULL\<rparr>) m) =
      Some (Inr (LIS_Verificar_Cabeca_TipoInconsistente, m'))"
    by (rule v) (use d e in \<open>simp_all add: eval nulo_tipo_cabeca\<close>)
  show "\<exists>m'. LIS_VerificarLista C L (trocado (es ! k) (e\<lparr>pValor := NULL\<rparr>) m) =
      Some (Inr (LIS_Verificar_Elemento_pValorNull, m'))"
    by (rule v) (use d in simp, use d in simp, unfold e no_simps verificar_elemento_def elos, simp add: eval)
  show "\<exists>m'. LIS_VerificarLista C L (trocado (es ! k) (e\<lparr>pValor := EspacoLixo\<rparr>) m) =
      Some (Inr (LIS_Verificar_Elemento_pValorErro, m'))"
    by (rule v) (use d in simp, use d in simp, unfold e no_simps verificar_elemento_def elos, simp add: eval lixo)
qed

text \<open>The link forward\<close>

lemma prox_veredito:
  assumes f: "forma C m L h es xs" and nn: "NULL \<notin> set xs" and k: "Suc k < length es"
    and q: "q = NULL \<or> q = EspacoLixo \<and> End 0x78787878 \<notin> set es"
  shows "\<exists>m'. LIS_VerificarLista C L (trocado (es ! k) (no L (xs ! k) (antes es k) q) m) =
      Some (Inr (LIS_Verificar_Elemento_ErroNoEncadeamento, m'))"
proof -
  have kk: "k < length es" using k by simp
  note t = forma_tipos[OF f nn] and t6 = forma_tipos(6)[OF f nn kk]
  note elos = trocado_antes[OF f nn kk kk n_not_Suc_n]
  let ?m = "trocado (es ! k) (no L (xs ! k) (antes es k) q) m"
  have "(if q = NULL then Inr (pFimLista h \<noteq> es ! k) else res_bind (ler_elem ?m q) (\<lambda>x. Inr (pAnt x \<noteq> es ! k))) = Inr True"
    using q
  proof
    assume "q = NULL"
    moreover have "es ! (length es - 1) \<noteq> es ! k" using k forma_livre(3)[OF f] by (simp add: nth_eq_iff_index_eq)
    moreover have "pFimLista h = es ! (length es - 1)" using pontas(2)[OF f] k by fastforce
    ultimately show ?thesis by simp
  next
    assume "q = EspacoLixo \<and> End 0x78787878 \<notin> set es"
    moreover from this have "End 0x78787878 \<noteq> es ! k" using kk nth_mem by metis
    moreover have "EspacoLixo \<noteq> NULL" by (simp add: EspacoLixo_def)
    ultimately show ?thesis using trocado_le(4)[OF f kk] by (simp add: elem_lixo_def)
  qed
  note prox = this
  show ?thesis
    by (rule trocado_veredito[OF f nn kk])
      (simp, use k in simp, unfold no_simps verificar_elemento_def elos prox, simp add: checar_def t6 trocado_le(5)[OF f kk] t(3,8))
qed

text \<open>What the head shows at once\<close>

lemma veredito_cabeca:
  assumes "ler_cabeca m L = Inr h" "L \<noteq> NULL" "verificar_cabeca h m = Inr (Some v)"
  shows "\<exists>m'. LIS_VerificarLista C L m = Some (Inr (v, m'))"
  using assms by (simp add: LIS_VerificarLista_def)

lemma ponta_veredito:
  assumes f: "forma C m L h es xs" and nn: "NULL \<notin> set xs" and es: "es \<noteq> []"
  shows "\<exists>m'. LIS_VerificarLista C L (trocado (es ! 0) (no L (xs ! 0) EspacoLixo (depois es 0)) m) =
      Some (Inr (LIS_Verificar_Cabeca_pPrimeiroIncorreto, m'))"
    and "n = length es - 1 \<Longrightarrow>
      \<exists>m'. LIS_VerificarLista C L (trocado (es ! n) (no L (xs ! n) (antes es n) EspacoLixo) m) =
      Some (Inr (LIS_Verificar_Cabeca_pUltimoIncorreto, m'))"
proof -
  note t = forma_tipos[OF f nn] and p = pontas(1,2)[OF f es]
  have l: "0 < length es" "length es - 1 < length es" using es by simp_all
  have nz: "es ! 0 \<noteq> NULL" "es ! (length es - 1) \<noteq> NULL" "EspacoLixo \<noteq> NULL"
    using forma_livre(5)[OF f] l by (blast, blast, simp add: EspacoLixo_def)
  show "\<exists>m'. LIS_VerificarLista C L (trocado (es ! 0) (no L (xs ! 0) EspacoLixo (depois es 0)) m) =
      Some (Inr (LIS_Verificar_Cabeca_pPrimeiroIncorreto, m'))"
    by (rule veredito_cabeca[OF trocado_le(1)[OF f l(1)] t(2)])
      (use p nz t(9) trocado_le(2)[OF f l(1)] in \<open>simp add: verificar_cabeca_def checar_def\<close>)
  assume n: "n = length es - 1"
  let ?m = "trocado (es ! n) (no L (xs ! n) (antes es n) EspacoLixo) m"
  have ln: "n < length es" using n l by simp
  have "\<exists>e. ler_elem ?m (es ! 0) = Inr e \<and> pAnt e = NULL"
    using trocado_le(2)[OF f ln] trocado_le(3)[OF f ln l(1)] by (cases "n = 0") (simp_all add: antes_def)
  then show "\<exists>m'. LIS_VerificarLista C L ?m = Some (Inr (LIS_Verificar_Cabeca_pUltimoIncorreto, m'))"
    using p nz t(9) trocado_le(2)[OF f ln] n
    by (intro veredito_cabeca[OF trocado_le(1)[OF f ln] t(2)]) (auto simp: verificar_cabeca_def checar_def)
qed

section \<open>The head changed\<close>

lemma com_cabeca_le:
  assumes "forma C m L h es xs"
  shows "ler_cabeca (com_cabeca L h' m) L = Inr h'" "ler_elem (com_cabeca L h' m) q = ler_elem m q"
    "controle (com_cabeca L h' m) = controle m"
  using forma_livre(7)[OF assms] by (simp_all add: com_cabeca_def ler_cabeca_def ler_elem_def)

lemma cabeca_veredito:
  assumes f: "forma C m L h es xs" and nn: "NULL \<notin> set xs" and es: "es \<noteq> []"
  shows "\<exists>m'. LIS_VerificarLista C L (com_cabeca L (h\<lparr>pOrigemLista := NULL\<rparr>) m) =
      Some (Inr (LIS_Verificar_Cabeca_pPrimeiroNull, m'))"
    and "\<exists>m'. LIS_VerificarLista C L (com_cabeca L (h\<lparr>pFimLista := NULL\<rparr>) m) =
      Some (Inr (LIS_Verificar_Cabeca_pUltimoNull, m'))"
    and "\<exists>m'. LIS_VerificarLista C L (com_cabeca L (h\<lparr>pFimLista := EspacoLixo\<rparr>) m) =
      Some (Inr (LIS_Verificar_Cabeca_pUltimoIncorreto, m'))"
    and "\<exists>m'. LIS_VerificarLista C L (com_cabeca L (h\<lparr>NumeroDeElementos := -2\<rparr>) m) =
      Some (Inr (LIS_Verificar_Cabeca_NumeroDeElementosInvalido, m'))"
proof -
  note t = forma_tipos[OF f nn] and p = pontas(1,2)[OF f es] and le = com_cabeca_le[OF f]
  have l: "0 < length es" "length es - 1 < length es" using es by simp_all
  have nz: "es ! 0 \<noteq> NULL" "es ! (length es - 1) \<noteq> NULL" "EspacoLixo \<noteq> NULL"
    using forma_livre(5)[OF f] l by (blast, blast, simp add: EspacoLixo_def)
  have a: "pAnt (no L (xs ! 0) (antes es 0) (depois es 0)) = NULL" by (simp add: antes_def)
  have lixo: "ler_elem m EspacoLixo = Inr elem_lixo" using f by (simp add: forma_def ler_ok)
  note eval = verificar_cabeca_def checar_def le(2)
  show "\<exists>m'. LIS_VerificarLista C L (com_cabeca L (h\<lparr>pOrigemLista := NULL\<rparr>) m) =
      Some (Inr (LIS_Verificar_Cabeca_pPrimeiroNull, m'))"
    by (rule veredito_cabeca[OF le(1) t(2)]) (use p nz in \<open>simp add: eval\<close>)
  show "\<exists>m'. LIS_VerificarLista C L (com_cabeca L (h\<lparr>pFimLista := NULL\<rparr>) m) =
      Some (Inr (LIS_Verificar_Cabeca_pUltimoNull, m'))"
    by (rule veredito_cabeca[OF le(1) t(2)]) (use p nz in \<open>simp add: eval\<close>)
  show "\<exists>m'. LIS_VerificarLista C L (com_cabeca L (h\<lparr>NumeroDeElementos := -2\<rparr>) m) =
      Some (Inr (LIS_Verificar_Cabeca_NumeroDeElementosInvalido, m'))"
    by (rule veredito_cabeca[OF le(1) t(2)]) (use p nz in \<open>simp add: eval\<close>)
  show "\<exists>m'. LIS_VerificarLista C L (com_cabeca L (h\<lparr>pFimLista := EspacoLixo\<rparr>) m) =
      Some (Inr (LIS_Verificar_Cabeca_pUltimoIncorreto, m'))"
    by (rule veredito_cabeca[OF le(1) t(2)])
      (use p(1) nz t(9) t(7)[OF l(1)] lixo in \<open>simp add: eval antes_def elem_lixo_def\<close>)
qed

text \<open>What the head shows only at the end, or at the first element\<close>

lemma contagem_veredito:
  assumes f: "forma C m L h es xs" and nn: "NULL \<notin> set xs" and es: "es \<noteq> []"
  shows "\<exists>m'. LIS_VerificarLista C L (com_cabeca L (h\<lparr>NumeroDeElementos := NumeroDeElementos h + 1\<rparr>) m) =
      Some (Inr (LIS_Verificar_Cabeca_NumeroDeElementosInconsistente, m'))"
    and "\<exists>m'. LIS_VerificarLista C L (com_cabeca L (h\<lparr>pElemCorr := EspacoLixo\<rparr>) m) =
      Some (Inr (LIS_Verificar_Cabeca_pCorrenteInconsistente, m'))"
    and "\<exists>m'. LIS_VerificarLista C L (com_cabeca L (h\<lparr>cabTipo := cabTipo h + 1\<rparr>) m) =
      Some (Inr (LIS_Verificar_Cabeca_TipoInconsistente, m'))"
proof -
  note t = forma_tipos[OF f nn] and p = pontas(1,2)[OF f es] and le = com_cabeca_le[OF f]
  have l: "0 < length es" "length es - 1 < length es" using es by simp_all
  have nz: "es ! 0 \<noteq> NULL" "EspacoLixo \<noteq> NULL" using forma_livre(5)[OF f l(1)] by (blast, simp add: EspacoLixo_def)
  have tipo: "ced_obter_tipo C (controle (com_cabeca L h' m)) L = LIS_TipoEspacoCabeca" for h'
    by (simp add: le(3) t(3))
  have cab: "verificar_cabeca h m = Inr None" using cabeca_boa[OF f] es by simp
  have cab': "verificar_cabeca h' (com_cabeca L h' m) = Inr None"
    if "pOrigemLista h' = pOrigemLista h" "pFimLista h' = pFimLista h" "0 \<le> NumeroDeElementos h'" for h'
  proof -
    have "pOrigemLista h \<noteq> NULL" "pFimLista h \<noteq> NULL" using p nz(1) forma_livre(5)[OF f l(2)] by auto
    then show ?thesis using cab that by (simp add: verificar_cabeca_def le(2) checar_def split: if_splits)
  qed
  have cam: "caminho C h' (com_cabeca L h' m) (pOrigemLista h') es NULL"
    if "pOrigemLista h' = pOrigemLista h" "pFimLista h' = pFimLista h" "cabTipo h' = cabTipo h" for h'
    using caminho_forma[OF f nn] caminho_igual[of "com_cabeca L h' m" m h' h] that le by simp
  have n: "NumeroDeElementos h + 1 \<noteq> int (length es)" "EspacoLixo \<notin> set es" using t(9) forma_livre(2)[OF f] by simp_all
  show "\<exists>m'. LIS_VerificarLista C L (com_cabeca L (h\<lparr>NumeroDeElementos := NumeroDeElementos h + 1\<rparr>) m) =
      Some (Inr (LIS_Verificar_Cabeca_NumeroDeElementosInconsistente, m'))"
    using veredito_fim[OF le(1) t(2) cab' tipo cam, of "h\<lparr>NumeroDeElementos := NumeroDeElementos h + 1\<rparr>"] n(1) t(9) by simp
  show "\<exists>m'. LIS_VerificarLista C L (com_cabeca L (h\<lparr>pElemCorr := EspacoLixo\<rparr>) m) =
      Some (Inr (LIS_Verificar_Cabeca_pCorrenteInconsistente, m'))"
    using veredito_fim[OF le(1) t(2) cab' tipo cam, of "h\<lparr>pElemCorr := EspacoLixo\<rparr>"] n(2) nz(2) t(9) by simp
  let ?h = "h\<lparr>cabTipo := cabTipo h + 1\<rparr>" and ?e = "no L (xs ! 0) (antes es 0) (depois es 0)"
  have "verificar_elemento C ?h (es ! 0) ?e (com_cabeca L ?h m) = Inr (Some LIS_Verificar_Cabeca_TipoInconsistente)"
    using t(6)[OF l(1)] by (simp add: verificar_elemento_def checar_def le(3) t(3,8))
  moreover have "caminho C ?h (com_cabeca L ?h m) (pOrigemLista ?h) [] (es ! 0)" using p(1) by simp
  moreover have "ler_elem (com_cabeca L ?h m) (es ! 0) = Inr ?e" using t(7)[OF l(1)] by (simp add: le(2))
  moreover have "verificar_cabeca ?h (com_cabeca L ?h m) = Inr None" using t(9) by (intro cab') simp_all
  ultimately show "\<exists>m'. LIS_VerificarLista C L (com_cabeca L ?h m) =
      Some (Inr (LIS_Verificar_Cabeca_TipoInconsistente, m'))"
    using veredito_no[OF le(1) t(2) _ tipo _ nz(1)] by blast
qed

section \<open>The damaging modes\<close>

lemma deturpar_elem:
  assumes f: "forma C m L h es xs" and k: "k < length es" and e: "e = no L (xs ! k) (antes es k) (depois es k)"
  shows "pElemCorr h = es ! k \<Longrightarrow> deturpar_corrente L g m = Inr (LIS_CondRetOK, trocado (es ! k) (g e) m)"
    and "q h = es ! k \<Longrightarrow> deturpar_apontado L q g m = Inr (LIS_CondRetOK, trocado (es ! k) (g e) m)"
  using forma_livre(5)[OF f k] forma_livre(7)[OF f] e
  by (simp_all add: deturpar_corrente_def deturpar_apontado_def memoria_ok trocado_def)

lemma deturpar_cab:
  assumes "forma C m L h es xs"
  shows "deturpar_cabeca L g m = Inr (LIS_CondRetOK, com_cabeca L (g h) m)"
  using forma_livre(7)[OF assms] by (simp add: deturpar_cabeca_def memoria_ok com_cabeca_def)

lemma trocado_igual:
  assumes "forma C m L h es xs" "k < length es"
  shows "trocado (es ! k) (no L (xs ! k) (antes es k) (depois es k)) m = m"
  using forma_livre(5)[OF assms] by (simp add: trocado_def fun_upd_idem)

lemma elos_detectados:
  assumes f: "forma C m L h es xs" and c: "pElemCorr h = es ! k" and k: "k < length es" and nn: "NULL \<notin> set xs"
    and lixo: "End 0x78787878 \<notin> set es" and v: "lis_veredito modo (length es) k = Some v"
    and modo: "modo \<in> {LIS_DeturpaNULLpProx, LIS_DeturpaNULLpAnt, LIS_DeturpaLixopProx, LIS_DeturpaLixopAnt}"
  shows "\<exists>m' m''. LIS_DeturparLista C L modo m = Inr (LIS_CondRetOK, m') \<and> LIS_VerificarLista C L m' = Some (Inr (v, m''))"
proof -
  have es: "es \<noteq> []" using k by auto
  have L: "L \<noteq> NULL" using forma_livre(4)[OF f] .
  note corr = deturpar_elem(1)[OF f k refl c]
  have ant: "\<exists>m''. LIS_VerificarLista C L (trocado (es ! k) (no L (xs ! k) q (depois es k)) m) =
      Some (Inr (LIS_Verificar_Elemento_ErroNoEncadeamento, m''))" if "k \<noteq> 0" "q = NULL \<or> q = EspacoLixo" for q
  proof -
    from that obtain j where j: "k = Suc j" by (cases k) auto
    have "q \<noteq> es ! j" using that(2) forma_livre(5)[OF f, of j] k j by auto
    then show ?thesis using trocado_anterior[OF f nn, of j "no L (xs ! k) q (depois es k)"] j k by (simp add: depois_def)
  qed
  have seg: "Suc k \<noteq> length es \<Longrightarrow> Suc k < length es" using k by simp
  have fim: "Suc k = length es \<Longrightarrow> k = length es - 1" by simp
  note vp = prox_veredito[OF f nn seg, of NULL] prox_veredito[OF f nn seg, of EspacoLixo]
  note va = ant[of NULL] ant[of EspacoLixo]
  from modo v show ?thesis
    using L corr vp va ponta_veredito(1)[OF f nn es] ponta_veredito(2)[OF f nn es fim] lixo
    by (auto simp: LIS_DeturparLista_def split: if_splits)
qed

lemma cabeca_detectada:
  assumes f: "forma C m L h es xs" and es: "es \<noteq> []" and nn: "NULL \<notin> set xs" and v: "lis_veredito modo (length es) k = Some v"
    and modo: "modo \<in> {LIS_DeturpaAlteraTipoEstrutura, LIS_DeturpaNULLpOrigem, LIS_DeturpaAumentaNumeroElementos,
      LIS_DeturpaNULLpUltimo, LIS_DeturpaLixopUltimo, LIS_DeturpaLixopCorrente, LIS_DeturpaNumeroDeElementosNegativo}"
  shows "\<exists>m' m''. LIS_DeturparLista C L modo m = Inr (LIS_CondRetOK, m') \<and> LIS_VerificarLista C L m' = Some (Inr (v, m''))"
  using modo v forma_livre(4)[OF f] cabeca_veredito[OF f nn es] contagem_veredito[OF f nn es]
  by (auto simp: LIS_DeturparLista_def deturpar_cab[OF f])

lemma campos_detectados:
  assumes f: "forma C m L h es xs" and c: "pElemCorr h = es ! k" and k: "k < length es" and nn: "NULL \<notin> set xs"
    and v: "lis_veredito modo (length es) k = Some v"
    and modo: "modo \<in> {LIS_DeturpaNULLpValorCorrente, LIS_DeturpaNULLpCorrente, LIS_DeturpaLixopValorCorrente,
      LIS_DeturpaAlteraTipoNoCorrente, LIS_DeturpaNULLCabeca, LIS_DeturpaAlteraTipoOrigem, LIS_DeturpaAlteraTipoUltimo}"
  shows "\<exists>m' m''. LIS_DeturparLista C L modo m = Inr (LIS_CondRetOK, m') \<and> LIS_VerificarLista C L m' = Some (Inr (v, m''))"
proof -
  have es: "es \<noteq> []" and l: "0 < length es" "length es - 1 < length es" using k by auto
  note p = pontas(1,2)[OF f es]
  note alt = deturpar_elem(2)[OF f k refl, of pElemCorr, OF c] deturpar_elem(1)[OF f k refl c]
    deturpar_elem(2)[OF f l(1) refl, of pOrigemLista, OF p(1)] deturpar_elem(2)[OF f l(2) refl, of pFimLista, OF p(2)]
  from modo v show ?thesis
    using forma_livre(4)[OF f] campo_veredito[OF f nn k refl] campo_veredito(1)[OF f nn l(1) refl] campo_veredito(1)[OF f nn l(2) refl]
    by (auto simp: LIS_DeturparLista_def alt)
qed

lemma modos_veredito:
  "lis_veredito modo n k = Some v \<Longrightarrow>
   modo \<in> {LIS_DeturpaNULLpProx, LIS_DeturpaNULLpAnt, LIS_DeturpaLixopProx, LIS_DeturpaLixopAnt} \<or>
   modo \<in> {LIS_DeturpaAlteraTipoEstrutura, LIS_DeturpaNULLpOrigem, LIS_DeturpaAumentaNumeroElementos,
      LIS_DeturpaNULLpUltimo, LIS_DeturpaLixopUltimo, LIS_DeturpaLixopCorrente, LIS_DeturpaNumeroDeElementosNegativo} \<or>
   modo \<in> {LIS_DeturpaNULLpValorCorrente, LIS_DeturpaNULLpCorrente, LIS_DeturpaLixopValorCorrente,
      LIS_DeturpaAlteraTipoNoCorrente, LIS_DeturpaNULLCabeca, LIS_DeturpaAlteraTipoOrigem, LIS_DeturpaAlteraTipoUltimo}"
  by (cases modo) simp_all

lemma pontas_intactas:
  assumes f: "forma C m L h es xs" and c: "pElemCorr h = es ! k" and k: "k < length es"
  shows "Suc k = length es \<Longrightarrow> LIS_DeturparLista C L LIS_DeturpaNULLpProx m = Inr (LIS_CondRetOK, m)"
    and "k = 0 \<Longrightarrow> LIS_DeturparLista C L LIS_DeturpaNULLpAnt m = Inr (LIS_CondRetOK, m)"
  using deturpar_elem(1)[OF f k refl c] trocado_igual[OF f k] forma_livre(4)[OF f]
  by (simp_all add: LIS_DeturparLista_def antes_def depois_def)

text \<open>The current element freed, and unlinked without being freed\<close>

lemma caminho_parcial:
  assumes f: "forma C m L h es xs" and nn: "NULL \<notin> set xs" and r: "r < length es"
    and h': "pOrigemLista h' = pOrigemLista h" "cabTipo h' = cabTipo h"
    and le: "\<And>j. j \<le> r \<Longrightarrow> ler_elem m' (es ! j) = Inr (no L (xs ! j) (antes es j) (depois es j))"
    and tipos: "ced_obter_tipo C (controle m') L = LIS_TipoEspacoCabeca"
      "\<And>j. j < r \<Longrightarrow> ced_obter_tipo C (controle m') (es ! j) = LIS_TipoEspacoNo"
  shows "caminho C h' m' (pOrigemLista h') (take r es) (es ! r)"
proof -
  note t = forma_tipos[OF f nn]
  have "verificar_elemento C h' (es ! j) (no L (xs ! j) (antes es j) (depois es j)) m' = Inr None"
    if j: "j < r" for j
  proof (rule elemento_bom)
    show l: "j < length es" using j r by simp
    show "xs ! j \<noteq> NULL" "xs ! j \<noteq> EspacoLixo" "NULL \<notin> set es" using t(4) t(5)[OF l] by auto
    show "ced_obter_tipo C (controle m') (es ! j) = LIS_TipoEspacoNo" "ced_obter_tipo C (controle m') L = cabTipo h'"
      using tipos(1) tipos(2)[OF j] t(8) h'(2) by simp_all
    show "j = 0 \<Longrightarrow> pOrigemLista h' = es ! 0" using t(10) l h'(1) by (auto simp: primeiro_def)
    show "Suc j = length es \<Longrightarrow> pFimLista h' = es ! j" using j r by simp
    show "\<exists>e'. ler_elem m' (es ! (j - 1)) = Inr e' \<and> pProx e' = es ! j" if "0 < j"
      using le[of "j - 1"] that j r by (simp add: depois_def)
    show "\<exists>e'. ler_elem m' (es ! Suc j) = Inr e' \<and> pAnt e' = es ! j" if "Suc j < length es"
      using le[of "Suc j"] j by (simp add: antes_def)
  qed
  then show ?thesis using caminho_ate[of r es m' L xs C h'] le t(4,10) r h'(1) by simp
qed

lemma eliminado_le:
  assumes f: "forma C m L h es xs" and k: "k < length es"
  shows "ler_cabeca (eliminado C L h' (es ! k) m) L = Inr h'"
    "ler_elem (eliminado C L h' (es ! k) m) (es ! k) = Inl (UndefinedBehaviour ''access to an element'')"
    "\<And>j. j < length es \<Longrightarrow> j \<noteq> k \<Longrightarrow>
       ler_elem (eliminado C L h' (es ! k) m) (es ! j) = Inr (no L (xs ! j) (antes es j) (depois es j))"
    "ced_obter_tipo C (controle (eliminado C L h' (es ! k) m)) L = LIS_TipoEspacoCabeca"
    "\<And>j. j < length es \<Longrightarrow> j \<noteq> k \<Longrightarrow>
       ced_obter_tipo C (controle (eliminado C L h' (es ! k) m)) (es ! j) = LIS_TipoEspacoNo"
proof -
  note livre = forma_livre[OF f]
  have dist: "es ! j \<noteq> es ! k" if "j < length es" "j \<noteq> k" for j
    using that k livre(3) by (simp add: nth_eq_iff_index_eq)
  have tipos: "ced_obter_tipo C (controle m) L = LIS_TipoEspacoCabeca"
    "j < length es \<Longrightarrow> ced_obter_tipo C (controle m) (es ! j) = LIS_TipoEspacoNo" for j
    using f by (simp_all add: forma_def espacos_ok_def)
  note eval = eliminado_def com_cabeca_def ler_cabeca_def ler_elem_def
  show "ler_cabeca (eliminado C L h' (es ! k) m) L = Inr h'" by (simp add: eval)
  show "ler_elem (eliminado C L h' (es ! k) m) (es ! k) = Inl (UndefinedBehaviour ''access to an element'')"
    "ced_obter_tipo C (controle (eliminado C L h' (es ! k) m)) L = LIS_TipoEspacoCabeca"
    using livre(5)[OF k] tipos(1) by (simp_all add: eval free_outros)
  fix j assume j: "j < length es" "j \<noteq> k"
  show "ler_elem (eliminado C L h' (es ! k) m) (es ! j) = Inr (no L (xs ! j) (antes es j) (depois es j))"
    "ced_obter_tipo C (controle (eliminado C L h' (es ! k) m)) (es ! j) = LIS_TipoEspacoNo"
    using livre(5)[OF j(1)] dist[OF j] tipos(2)[OF j(1)] by (simp_all add: eval free_outros)
qed

lemma eliminado_ponta:
  assumes f: "forma C m L h es xs" and k: "k < length es" "k = 0 \<or> k = length es - 1"
    and h': "pOrigemLista h' = pOrigemLista h" "pFimLista h' = pFimLista h" "0 \<le> NumeroDeElementos h'"
  shows "verificar_cabeca h' (eliminado C L h' (es ! k) m) = Inl (UndefinedBehaviour ''access to an element'')"
proof -
  have es: "es \<noteq> []" and l: "0 < length es" "length es - 1 < length es" using k by auto
  note p = pontas(1,2)[OF f es] and le = eliminado_le[OF f k(1), where h' = h']
  have nz: "es ! 0 \<noteq> NULL" "es ! (length es - 1) \<noteq> NULL" using forma_livre(5)[OF f] l by blast+
  show ?thesis
  proof (cases "k = 0")
    case True
    then show ?thesis using p nz le(2) h' by (simp add: verificar_cabeca_def checar_def)
  next
    case False
    with k(2) have "es ! (length es - 1) = es ! k" by simp
    then show ?thesis using p nz le(2) le(3)[OF l(1)] False h' by (simp add: verificar_cabeca_def checar_def antes_def)
  qed
qed

lemma eliminado_meio:
  assumes f: "forma C m L h es xs" and nn: "NULL \<notin> set xs" and i: "Suc (Suc i) < length es"
    and h': "pOrigemLista h' = pOrigemLista h" "pFimLista h' = pFimLista h" "0 \<le> NumeroDeElementos h'" "cabTipo h' = cabTipo h"
  shows "LIS_VerificarLista C L (eliminado C L h' (es ! Suc i) m) = Some (Inl (UndefinedBehaviour ''access to an element''))"
proof -
  let ?m = "eliminado C L h' (es ! Suc i) m"
  have es: "es \<noteq> []" and l: "0 < length es" "length es - 1 < length es" "Suc i < length es" "i < length es"
    "length es - 1 \<noteq> Suc i" "i \<noteq> Suc i" using i by auto
  have nz: "es ! 0 \<noteq> NULL" "es ! (length es - 1) \<noteq> NULL" using forma_livre(5)[OF f] l by blast+
  have pontas_nulas: "antes es 0 = NULL" "depois es (length es - 1) = NULL" using es by (simp_all add: antes_def depois_def)
  note t = forma_tipos[OF f nn] and p = pontas(1,2)[OF f es] and le = eliminado_le[OF f l(3), where h' = h']
  have "verificar_cabeca h' ?m = Inr None"
    using p nz le(3)[OF l(1)] le(3)[OF l(2,5)] h' pontas_nulas by (simp add: verificar_cabeca_def checar_def)
  moreover have "caminho C h' ?m (pOrigemLista h') (take i es) (es ! i)"
    by (rule caminho_parcial[OF f nn l(4)]) (use le(3-5) h' l(4) in auto)
  moreover have "verificar_elemento C h' (es ! i) (no L (xs ! i) (antes es i) (depois es i)) ?m =
      Inl (UndefinedBehaviour ''access to an element'')"
  proof -
    have "(if antes es i = NULL then Inr (pOrigemLista h' \<noteq> es ! i)
        else res_bind (ler_elem ?m (antes es i)) (\<lambda>a. Inr (pProx a \<noteq> es ! i))) = Inr False"
      using p(1) forma_livre(5)[OF f, of "i - 1"] le(3)[of "i - 1"] i h'(1) by (cases i) (simp_all add: antes_def depois_def)
    moreover have "(if depois es i = NULL then Inr (pFimLista h' \<noteq> es ! i)
        else res_bind (ler_elem ?m (depois es i)) (\<lambda>a. Inr (pAnt a \<noteq> es ! i))) = Inl (UndefinedBehaviour ''access to an element'')"
      using l(3) le(2) forma_livre(5)[OF f l(3)] by (simp add: depois_def)
    ultimately show ?thesis unfolding verificar_elemento_def no_simps
      using le(4) le(5)[OF l(4,6)] t(8) h'(4) by (simp add: checar_def split del: if_split)
  qed
  moreover have "es ! i \<noteq> NULL" using forma_livre(5)[OF f l(4)] by blast
  ultimately show ?thesis using veredito_no[OF le(1) t(2) _ le(4) _ _ le(3)[OF l(4,6)]] by blast
qed

lemma eliminar_veredito:
  assumes f: "forma C m L h es xs" and c: "pElemCorr h = es ! k" and k: "k < length es" and nn: "NULL \<notin> set xs"
  shows "\<exists>m'. LIS_DeturparLista C L LIS_DeturpaEliminaCorrente m = Inr (LIS_CondRetOK, m') \<and>
    LIS_VerificarLista C L m' = Some (Inl (UndefinedBehaviour ''access to an element''))"
proof -
  let ?h = "h\<lparr>pElemCorr := NULL, NumeroDeElementos := NumeroDeElementos h - 1\<rparr>"
  note t = forma_tipos[OF f nn] and le = eliminado_le[OF f k, where h' = ?h]
  have n: "0 \<le> NumeroDeElementos ?h" using t(9) k by auto
  have "LIS_VerificarLista C L (eliminado C L ?h (es ! k) m) = Some (Inl (UndefinedBehaviour ''access to an element''))"
  proof (cases "k = 0 \<or> k = length es - 1")
    case True
    with eliminado_ponta[OF f k True, of ?h] n le(1) t(2) show ?thesis by (simp add: LIS_VerificarLista_def)
  next
    case False
    then obtain i where "k = Suc i" "Suc (Suc i) < length es" using k by (cases k) auto
    with eliminado_meio[OF f nn, of i ?h] n show ?thesis by simp
  qed
  moreover have "LIS_DeturparLista C L LIS_DeturpaEliminaCorrente m = Inr (LIS_CondRetOK, eliminado C L ?h (es ! k) m)"
    using forma_livre(5)[OF f k] forma_livre(7)[OF f] c t(2)
    by (simp add: LIS_DeturparLista_def eliminar_corrente_def ler_ok liberar_def deturpar_cabeca_def mem_defs com_cabeca_def eliminado_def)
  ultimately show ?thesis by blast
qed

lemma desencadear_veredito:
  assumes l: "lista_ok C m L es xs (Some k)" and nn: "NULL \<notin> set xs"
  shows "\<exists>m' m''. LIS_DeturparLista C L LIS_DeturpaDesencadeiaSemFree m = Inr (LIS_CondRetOK, m') \<and>
    LIS_VerificarLista C L m' = Some (Inr (
      (if \<exists>y \<in> set (ced_espacos C (controle m)). ced_obter_tipo C (controle m) y = LIS_TipoEspacoCabeca \<and>
          y \<noteq> L \<and> y \<notin> set (remover_em k xs)
       then LIS_Verificar_Lista_VazamentoDeMemoria else LIS_Verificar_ListaValida), m''))"
proof -
  from l obtain h where f: "forma C m L h es xs" and h: "celulas m L = Some (Cabeca h)" and k: "k < length es"
    by (auto simp: lista_ok_def forma_def)
  let ?h = "h\<lparr>NumeroDeElementos := NumeroDeElementos h - 1, pElemCorr := NULL,
      pOrigemLista := (if k = 0 then depois es k else pOrigemLista h),
      pFimLista := (if Suc k = length es then antes es k else pFimLista h)\<rparr>"
  obtain m' where m': "desencadear_sem_free L m = Inr (LIS_CondRetOK, m')"
    "celulas m' = desligado (celulas m) L ?h es xs k" "controle m' = controle m"
    using desencadear_passos[OF l h] by blast
  have "forma C m' L ?h (remover_em k es) (remover_em k xs)"
  proof (rule desligado_forma[OF f k])
    show "celulas m' y = desligado (celulas m) L ?h es xs k y" for y by (simp add: m'(2))
    show "cabeca_ok ?h (remover_em k es)" using cabeca_remover[OF _ k, of h NULL] f by (simp add: forma_def)
    show "set (L # es) \<union> (set xs - {NULL}) - {es ! k, xs ! k} \<subseteq> set (ced_espacos C (controle m'))"
      using f unfolding m'(3) forma_def espacos_ok_def valores_ok_def by blast
    show "ced_obter_tipo C (controle m') y = ced_obter_tipo C (controle m) y" for y by (simp add: m'(3))
  qed
  moreover have "NULL \<notin> set (remover_em k xs)" using nn set_remover_em[of k xs] by blast
  ultimately show ?thesis using verificar_ok[of m' L ?h] m'(1,3) forma_livre(4)[OF f]
    by (fastforce simp: LIS_DeturparLista_def)
qed

end

section \<open>What the verification finds\<close>



text \<open>
  The two modes that take out the current element. When it is freed, the verification reads the freed
  element, whatever its position: undefined behaviour, no verdict. When it is unlinked without being freed,
  the list is undamaged again and the lost space is reported only if some space with the type of a head is
  left over; the type of an element is another one, so the element itself is never found.
\<close>

theorem lis_unlinked:
  assumes "ced_laws C" and "lista_ok C m L es xs (Some k)" and "NULL \<notin> set xs"
  shows "(\<exists>m'. LIS_DeturparLista C L LIS_DeturpaEliminaCorrente m = Inr (LIS_CondRetOK, m') \<and>
      LIS_VerificarLista C L m' = Some (Inl (UndefinedBehaviour ''access to an element''))) \<and>
    (\<exists>m' m''. LIS_DeturparLista C L LIS_DeturpaDesencadeiaSemFree m = Inr (LIS_CondRetOK, m') \<and>
      LIS_VerificarLista C L m' = Some (Inr (
        (if \<exists>y \<in> set (ced_espacos C (controle m)). ced_obter_tipo C (controle m) y = LIS_TipoEspacoCabeca \<and>
            y \<noteq> L \<and> y \<notin> set (remover_em k xs)
         then LIS_Verificar_Lista_VazamentoDeMemoria else LIS_Verificar_ListaValida), m'')))"
proof -
  from assms(2) obtain h where f: "forma C m L h es xs" and k: "k < length es" "pElemCorr h = es ! k"
    by (auto simp: lista_ok_def)
  note c = ced_cliente[OF assms(1)]
  show ?thesis
    using lis_cliente.eliminar_veredito[OF c f k(2,1) assms(3)] lis_cliente.desencadear_veredito[OF c assms(2,3)] by blast
qed

theorem lis_unlinked_witness:
  "\<exists>m' m''. LIS_DeturparLista ref_ced (End 100) LIS_DeturpaDesencadeiaSemFree lis_exemplo = Inr (LIS_CondRetOK, m') \<and>
      LIS_VerificarLista ref_ced (End 100) m' = Some (Inr (LIS_Verificar_ListaValida, m''))"
  using lis_unlinked[OF ref_ced.ced_laws_axioms exemplo_ok] by (simp add: exemplo_espacos ced_tipos)

end
