(* ===== verification/Geracod.thy ===== *)
theory Geracod
  imports CLib
begin

text \<open>
  The code generator of the course \<open>INF1018\<close> (\<open>INF1018-Software-Basico/Trabalho 2\<close>, \<open>geracod.c\<close>): one pass
  over the text of a program in the language SB writes the machine code of a function into an array of
  800 bytes. One definition for each function of the file.

  A message followed by \<open>exit(-1)\<close> is a \<open>RuntimeError\<close>; a write behind an array and an overflow of \<open>int\<close> are
  undefined behaviour. A scan that never ends is \<open>None\<close>. The file is the text that is left of it. The
  variables the program does not initialise have values that are a parameter (\<open>lixo\<close>). The messages and
  the warning at a missing \<open>ret\<close> are left out; \<open>malloc\<close> is assumed to give memory, as the program does.
\<close>

section \<open>Bytes\<close>

type_synonym byte = "8 word"

text \<open>\<open>union intChar\<close>: the bytes of an \<open>int\<close>, the lowest first\<close>

definition bytes32 :: "32 word \<Rightarrow> byte list" where
  "bytes32 w = [ucast w, ucast (drop_bit 8 w), ucast (drop_bit 16 w), ucast (drop_bit 24 w)]"

definition intchar :: "int \<Rightarrow> byte list" where
  "intchar i = bytes32 (word_of_int i)"

text \<open>Arithmetic on \<open>int\<close>\<close>

definition c_int :: "int \<Rightarrow> int res" where
  "c_int i = (if - (2 ^ 31) \<le> i \<and> i < 2 ^ 31 then Inr i else Inl (UndefinedBehaviour ''int overflow''))"

section \<open>The code of one line\<close>

definition testaVar :: "char \<Rightarrow> int \<Rightarrow> unit res" where
  "testaVar t v =
     (if t = CHR ''p'' then
        if 4 < v then Inl (RuntimeError ''so sao permitidos 5 parametros'') else Inr ()
      else if t = CHR ''v'' then
        if 9 < v then Inl (RuntimeError ''so sao permitidas 10 variaveis locais'') else Inr ()
      else if t \<noteq> CHR ''$'' then Inl (RuntimeError ''tipo de variavel invalido'')
      else Inr ())"

text \<open>
  The displacement from the base pointer, cut to one byte. In \<open>(unsigned char)-4*var-4\<close> the cast is of
  \<open>-4\<close> alone: the factor is 252 there and \<open>-4\<close> in \<open>whileFunc\<close>, which has no cast.
\<close>

definition desl_param :: "int \<Rightarrow> byte res" where
  "desl_param v = res_bind (c_int (4 * v)) (\<lambda>x. res_bind (c_int (8 + x)) (\<lambda>y. Inr (word_of_int y)))"

definition desl_local :: "int \<Rightarrow> int \<Rightarrow> byte res" where
  "desl_local k v = res_bind (c_int (k * v)) (\<lambda>x. res_bind (c_int (x - 4)) (\<lambda>y. Inr (word_of_int y)))"

definition movlMemToReg :: "char \<Rightarrow> int \<Rightarrow> char \<Rightarrow> byte list res" where
  "movlMemToReg t v reg =
     (if t = CHR ''p'' \<or> t = CHR ''v'' then
        res_bind (if t = CHR ''p'' then desl_param v else desl_local 252 v)
          (\<lambda>d. Inr [0x8b, if reg = CHR ''c'' then 0x4d else 0x55, d])
      else if t = CHR ''$'' then Inr ((if reg = CHR ''c'' then 0xb9 else 0xba) # intchar v)
      else Inl (RuntimeError ''tipo de variavel nao reconhecido''))"

definition movlFromReg :: "char \<Rightarrow> int \<Rightarrow> byte list res" where
  "movlFromReg t v =
     res_bind (if t = CHR ''p'' then desl_param v else desl_local 252 v) (\<lambda>d. Inr [0x89, 0x55, d])"

definition sb_operacao :: "char \<Rightarrow> byte list res" where
  "sb_operacao op =
     (if op = CHR ''+'' then Inr [0x01, 0xca]
      else if op = CHR ''-'' then Inr [0x29, 0xca]
      else if op = CHR ''*'' then Inr [0x0f, 0xaf, 0xd1]
      else Inl (RuntimeError ''operacao invalida''))"

text \<open>The array of 16 bytes takes every assignment: at most 5, 5, 3 and 3 bytes.\<close>

definition assign ::
    "char \<Rightarrow> int \<Rightarrow> char \<Rightarrow> int \<Rightarrow> char \<Rightarrow> int \<Rightarrow> char \<Rightarrow> byte list res" where
  "assign t0 v0 t1 v1 t2 v2 op =
     res_bind (testaVar t0 v0) (\<lambda>_.
     res_bind (testaVar t1 v1) (\<lambda>_.
     res_bind (testaVar t2 v2) (\<lambda>_.
     if t0 = CHR ''$'' then Inl (RuntimeError ''nao e possivel atribuir valor a uma constante'')
     else
       res_bind (movlMemToReg t1 v1 (if op = CHR ''-'' then CHR ''d'' else CHR ''c'')) (\<lambda>b1.
       res_bind (movlMemToReg t2 v2 (if op = CHR ''-'' then CHR ''c'' else CHR ''d'')) (\<lambda>b2.
       res_bind (sb_operacao op) (\<lambda>b3.
       res_bind (movlFromReg t0 v0) (\<lambda>b4. Inr (b1 @ b2 @ b3 @ b4))))))))"

definition whileFunc :: "char \<Rightarrow> int \<Rightarrow> byte list res" where
  "whileFunc t v =
     res_bind (testaVar t v) (\<lambda>_.
     res_bind
       (if t = CHR ''p'' then desl_param v
        else if t = CHR ''v'' then desl_local (- 4) v
        else Inl (RuntimeError ''constantes nao sao permitidas em um while''))
       (\<lambda>d. Inr [0x83, 0x7d, d, 0x00, 0x0f, 0x84, 0xff, 0xff, 0xff, 0xff]))"

text \<open>\<open>memcpy\<close> to a place of the array \<open>mcodes\<close>, of which the bytes written so far are kept\<close>

definition gravar :: "nat \<Rightarrow> byte list \<Rightarrow> byte list \<Rightarrow> byte list res" where
  "gravar k bs code =
     (if k + length bs \<le> 50 * 16 then Inr (take k code @ bs @ drop (k + length bs) code)
      else Inl (UndefinedBehaviour ''write behind mcodes''))"

definition endFunc :: "byte list \<Rightarrow> nat \<Rightarrow> nat \<Rightarrow> byte list res" where
  "endFunc code enderecoEnd enderecoCmplWhile =
     res_bind (gravar (enderecoCmplWhile + 6)
        (intchar ((int enderecoEnd + 4) - (int enderecoCmplWhile + 9))) code) (\<lambda>code1.
     res_bind (gravar enderecoEnd [0xe9] code1) (\<lambda>code2.
     gravar (enderecoEnd + 1) (intchar (int enderecoCmplWhile - (int enderecoEnd + 5))) code2))"

section \<open>Reading a line\<close>

text \<open>
  The state of \<open>geracod\<close>. \<open>nwhiles\<close> is the length of \<open>enderecoCmplWhiles\<close>, the innermost loop first;
  \<open>bytes\<close> is the length of \<open>mcodes\<close>.
\<close>

record sb_estado =
  arquivo :: string
  vartype :: "nat \<Rightarrow> char"
  var :: "nat \<Rightarrow> int"
  op :: char
  temp :: char
  mcodes :: "byte list"
  enderecoCmplWhiles :: "nat list"
  linhas :: nat

text \<open>The directives of \<open>fscanf\<close> that the program uses; the scan stops at the first one that fails.\<close>

datatype sb_dir = LeNum nat | LeTipo nat | LeOp | Literal char | Branco

definition scan_num :: "string \<Rightarrow> int option \<times> string" where
  "scan_num s =
     (case strtoul_sign s of (neg, r) \<Rightarrow>
        case r of
          [] \<Rightarrow> (None, [])
        | c # _ \<Rightarrow>
            if c_digit 10 c = None then (None, r)
            else case c_read_digits 10 0 r of (n, r') \<Rightarrow> (Some (if neg then - int n else int n), r'))"

fun sb_fscanf :: "sb_dir list \<Rightarrow> sb_estado \<Rightarrow> sb_estado res" where
  "sb_fscanf [] s = Inr s"
| "sb_fscanf (Branco # ds) s = sb_fscanf ds (s\<lparr>arquivo := dropWhile c_isspace (arquivo s)\<rparr>)"
| "sb_fscanf (Literal c # ds) s =
     (case arquivo s of
        [] \<Rightarrow> Inr s
      | a # r \<Rightarrow> if a = c then sb_fscanf ds (s\<lparr>arquivo := r\<rparr>) else Inr s)"
| "sb_fscanf (LeTipo i # ds) s =
     (case arquivo s of
        [] \<Rightarrow> Inr s
      | a # r \<Rightarrow> sb_fscanf ds (s\<lparr>arquivo := r, vartype := (vartype s)(i := a)\<rparr>))"
| "sb_fscanf (LeOp # ds) s =
     (case arquivo s of
        [] \<Rightarrow> Inr s
      | a # r \<Rightarrow> sb_fscanf ds (s\<lparr>arquivo := r, op := a\<rparr>))"
| "sb_fscanf (LeNum i # ds) s =
     (case scan_num (arquivo s) of
        (None, r) \<Rightarrow> Inr (s\<lparr>arquivo := r\<rparr>)
      | (Some n, r) \<Rightarrow>
          res_bind (c_int n) (\<lambda>n. sb_fscanf ds (s\<lparr>arquivo := r, var := (var s)(i := n)\<rparr>)))"

text \<open>\<open>"%d = %c%d %c %c%d"\<close> and \<open>"hile %c%d"\<close>\<close>

definition dirs_assign :: "sb_dir list" where
  "dirs_assign = [LeNum 0, Branco, Literal CHR ''='', Branco, LeTipo 1, LeNum 1, Branco, LeOp, Branco,
     LeTipo 2, LeNum 2]"

definition dirs_while :: "sb_dir list" where
  "dirs_while = [Literal CHR ''h'', Literal CHR ''i'', Literal CHR ''l'', Literal CHR ''e'', Branco,
     LeTipo 0, LeNum 0]"

text \<open>
  \<open>else while(temp!='\n') fscanf(f,"%c",&temp)\<close>: at the end of the file nothing is read any more and the
  loop goes on for ever.
\<close>

fun comentario :: "string \<Rightarrow> string option" where
  "comentario [] = None"
| "comentario (c # r) = (if c = CHR 10 then Some r else comentario r)"

section \<open>The loop over the file\<close>

definition sb_anexar :: "byte list \<Rightarrow> sb_estado \<Rightarrow> sb_estado res" where
  "sb_anexar bs s =
     res_bind (gravar (length (mcodes s)) bs (mcodes s)) (\<lambda>code. Inr (s\<lparr>mcodes := code\<rparr>))"

text \<open>The body of the loop, after the first character \<open>c\<close> of an instruction was read\<close>

definition sb_assign :: "sb_estado \<Rightarrow> sb_estado res" where
  "sb_assign s =
     res_bind (sb_fscanf dirs_assign s) (\<lambda>s1.
     res_bind (assign (vartype s1 0) (var s1 0) (vartype s1 1) (var s1 1) (vartype s1 2) (var s1 2) (op s1))
       (\<lambda>bs. sb_anexar bs s1))"

definition sb_while :: "sb_estado \<Rightarrow> sb_estado res" where
  "sb_while s =
     res_bind (sb_fscanf dirs_while s) (\<lambda>s1.
     if 25 \<le> length (enderecoCmplWhiles s1) then Inl (UndefinedBehaviour ''write behind enderecoCmplWhiles'')
     else
       let s2 = s1\<lparr>enderecoCmplWhiles := length (mcodes s1) # enderecoCmplWhiles s1\<rparr> in
       res_bind (whileFunc (vartype s2 0) (var s2 0)) (\<lambda>bs. sb_anexar bs s2))"

definition sb_end :: "sb_estado \<Rightarrow> sb_estado res" where
  "sb_end s =
     (case enderecoCmplWhiles s of
        [] \<Rightarrow> Inl (RuntimeError ''nao ha um while aberto para o end declarado'')
      | e # es \<Rightarrow>
          res_bind (endFunc (mcodes s) (length (mcodes s)) e) (\<lambda>code.
          Inr (s\<lparr>enderecoCmplWhiles := es, mcodes := code, arquivo := drop 2 (arquivo s)\<rparr>)))"

definition sb_barra :: "sb_estado \<Rightarrow> sb_estado res option" where
  "sb_barra s =
     (let s1 = (case arquivo s of [] \<Rightarrow> s | a # r \<Rightarrow> s\<lparr>arquivo := r, temp := a\<rparr>) in
      if temp s1 \<noteq> CHR ''/'' then Some (Inl (RuntimeError ''caractere invalido encontrado''))
      else case comentario (arquivo s1) of
        None \<Rightarrow> None
      | Some r \<Rightarrow> Some (Inr (s1\<lparr>arquivo := r, temp := CHR 10, linhas := linhas s1 + 1\<rparr>)))"

definition sb_passo :: "char \<Rightarrow> sb_estado \<Rightarrow> sb_estado res option" where
  "sb_passo c s =
     (if 50 * 16 \<le> length (mcodes s) then Some (Inl (RuntimeError ''Numero maximo de instrucoes excedido''))
      else if c = CHR ''v'' \<or> c = CHR ''p'' then Some (sb_assign s)
      else if c = CHR ''w'' then Some (sb_while s)
      else if c = CHR ''e'' then Some (sb_end s)
      else if c = CHR ''/'' then sb_barra s
      else if c = CHR 10 then Some (Inr (s\<lparr>linhas := linhas s + 1\<rparr>))
      else if c = CHR 9 \<or> c = CHR '' '' then Some (Inr s)
      else Some (Inl (RuntimeError ''caractere invalido encontrado'')))"

partial_function (option) sb_laco :: "sb_estado \<Rightarrow> sb_estado res option" where
  "sb_laco s =
     (case arquivo s of
        [] \<Rightarrow> Some (Inr s)
      | c # r \<Rightarrow>
          let s1 = s\<lparr>arquivo := r, vartype := (vartype s)(0 := c)\<rparr> in
          if c = CHR ''r'' \<or> 50 < linhas s1 then Some (Inr s1)
          else case sb_passo c s1 of
            None \<Rightarrow> None
          | Some (Inl e) \<Rightarrow> Some (Inl e)
          | Some (Inr s2) \<Rightarrow> sb_laco s2)"

definition prologo :: "byte list" where
  "prologo = [0x55, 0x89, 0xe5, 0x83, 0xec, 0x28]"

definition finalizacao :: "byte list" where
  "finalizacao = [0x8b, 0x45, 0xfc, 0x89, 0xec, 0x5d, 0xc3]"

definition sb_fim :: "sb_estado \<Rightarrow> byte list res" where
  "sb_fim s =
     (if enderecoCmplWhiles s \<noteq> [] then Inl (RuntimeError ''nem todos os whiles foram fechados'')
      else if 50 < linhas s then Inl (RuntimeError ''maximo de linhas atingido'')
      else gravar (length (mcodes s)) finalizacao (mcodes s))"

text \<open>\<open>lixo\<close>: what is in \<open>vartype\<close>, \<open>var\<close> and \<open>op\<close> at the start\<close>

definition geracod :: "(nat \<Rightarrow> char) \<times> (nat \<Rightarrow> int) \<times> char \<Rightarrow> string \<Rightarrow> byte list res option" where
  "geracod lixo f =
     (case sb_laco \<lparr>arquivo = f, vartype = fst lixo, var = fst (snd lixo), op = snd (snd lixo), temp = CHR '' '',
          mcodes = prologo, enderecoCmplWhiles = [], linhas = 1\<rparr> of
        None \<Rightarrow> None
      | Some r \<Rightarrow> Some (res_bind r sb_fim))"

end
