(* ===== verification/SbLing.thy ===== *)
theory SbLing
  imports Geracod
begin

text \<open>
  The language SB: programs, their text and their meaning. Five parameters, ten local variables,
  assignments of a sum, a difference or a product modulo \<open>2^32\<close>, and loops while a variable is not zero.
  \<open>sb_codigo\<close> is the code of a program, by recursion on its structure.
\<close>

datatype sb_var = P nat | V nat
datatype sb_varpc = Var sb_var | Const int
datatype sb_op = Mais | Menos | Vezes
datatype sb_cmd = Atrib sb_var sb_varpc sb_op sb_varpc | Enquanto sb_var "sb_cmd list"

text \<open>Induction over programs: over what follows a command, and over the body of a loop\<close>

fun sb_linhas :: "sb_cmd list \<Rightarrow> nat" where
  "sb_linhas [] = 0"
| "sb_linhas (Atrib x a f b # cs) = Suc (sb_linhas cs)"
| "sb_linhas (Enquanto x b # cs) = Suc (Suc (sb_linhas b + sb_linhas cs))"

fun var_valida :: "sb_var \<Rightarrow> bool" where
  "var_valida (P i) = (i < 5)"
| "var_valida (V i) = (i < 10)"

fun varpc_valida :: "sb_varpc \<Rightarrow> bool" where
  "varpc_valida (Var x) = var_valida x"
| "varpc_valida (Const c) = (- (2 ^ 31) \<le> c \<and> c < 2 ^ 31)"

fun sb_valido :: "sb_cmd list \<Rightarrow> bool" where
  "sb_valido [] = True"
| "sb_valido (Atrib x a f b # cs) = (var_valida x \<and> varpc_valida a \<and> varpc_valida b \<and> sb_valido cs)"
| "sb_valido (Enquanto x b # cs) = (var_valida x \<and> sb_valido b \<and> sb_valido cs)"

section \<open>Text\<close>

fun txt_var :: "sb_var \<Rightarrow> string" where
  "txt_var (P i) = CHR ''p'' # show_nat i"
| "txt_var (V i) = CHR ''v'' # show_nat i"

fun txt_varpc :: "sb_varpc \<Rightarrow> string" where
  "txt_varpc (Var x) = txt_var x"
| "txt_varpc (Const c) = CHR ''$'' # show_int c"

fun txt_op :: "sb_op \<Rightarrow> char" where
  "txt_op Mais = CHR ''+''"
| "txt_op Menos = CHR ''-''"
| "txt_op Vezes = CHR ''*''"

fun sb_texto :: "sb_cmd list \<Rightarrow> string" where
  "sb_texto [] = []"
| "sb_texto (Atrib x a f b # cs) =
     txt_var x @ '' = '' @ txt_varpc a @ '' '' @ [txt_op f] @ '' '' @ txt_varpc b @ [CHR 10] @ sb_texto cs"
| "sb_texto (Enquanto x b # cs) =
     ''while '' @ txt_var x @ [CHR 10] @ sb_texto b @ ''end'' @ [CHR 10] @ sb_texto cs"

section \<open>Meaning\<close>

type_synonym sb_mem = "sb_var \<Rightarrow> 32 word"

fun valor :: "sb_mem \<Rightarrow> sb_varpc \<Rightarrow> 32 word" where
  "valor st (Var x) = st x"
| "valor st (Const c) = word_of_int c"

fun aplica :: "sb_op \<Rightarrow> 32 word \<Rightarrow> 32 word \<Rightarrow> 32 word" where
  "aplica Mais a b = a + b"
| "aplica Menos a b = a - b"
| "aplica Vezes a b = a * b"

inductive sb_exec :: "sb_cmd list \<Rightarrow> sb_mem \<Rightarrow> sb_mem \<Rightarrow> bool" where
  fim: "sb_exec [] st st"
| atrib: "sb_exec cs (st(x := aplica f (valor st a) (valor st b))) st' \<Longrightarrow> sb_exec (Atrib x a f b # cs) st st'"
| sai: "st x = 0 \<Longrightarrow> sb_exec cs st st' \<Longrightarrow> sb_exec (Enquanto x b # cs) st st'"
| entra: "st x \<noteq> 0 \<Longrightarrow> sb_exec b st st1 \<Longrightarrow> sb_exec (Enquanto x b # cs) st1 st' \<Longrightarrow> sb_exec (Enquanto x b # cs) st st'"

inductive_cases sb_exec_casos:
  "sb_exec [] st st'" "sb_exec (Atrib x a f b # cs) st st'" "sb_exec (Enquanto x b # cs) st st'"

lemma sb_exec_unico: "sb_exec cs st st1 \<Longrightarrow> sb_exec cs st st2 \<Longrightarrow> st2 = st1"
proof (induction arbitrary: st2 rule: sb_exec.induct)
  case (fim st)
  then show ?case by (auto elim: sb_exec_casos)
next
  case (atrib cs st x f a b st')
  from atrib.prems show ?case by (rule sb_exec_casos(2)) (rule atrib.IH)
next
  case (sai st x cs st' b)
  from sai.prems have "sb_exec cs st st2" by (rule sb_exec_casos(3)) (use sai.hyps(1) in simp_all)
  then show ?case by (rule sai.IH)
next
  case (entra st x b st1 cs st')
  from entra.prems show ?case
  proof (rule sb_exec_casos(3))
    fix u assume "sb_exec b st u" "sb_exec (Enquanto x b # cs) u st2"
    with entra.IH(1)[of u] entra.IH(2)[of st2] show ?thesis by simp
  qed (use entra.hyps(1) in simp)
qed

section \<open>Code\<close>

text \<open>The displacement of a variable from the base pointer\<close>

fun desl :: "sb_var \<Rightarrow> int" where
  "desl (P i) = 8 + 4 * int i"
| "desl (V i) = - 4 * int i - 4"

definition byte_desl :: "sb_var \<Rightarrow> byte" where
  "byte_desl x = word_of_int (desl x)"

fun cod_mov :: "sb_varpc \<Rightarrow> bool \<Rightarrow> byte list" where  \<comment> \<open>to \<open>%ecx\<close> or to \<open>%edx\<close>\<close>
  "cod_mov (Var x) ecx = [0x8b, if ecx then 0x4d else 0x55, byte_desl x]"
| "cod_mov (Const c) ecx = (if ecx then 0xb9 else 0xba) # bytes32 (word_of_int c)"

fun cod_op :: "sb_op \<Rightarrow> byte list" where
  "cod_op Mais = [0x01, 0xca]"
| "cod_op Menos = [0x29, 0xca]"
| "cod_op Vezes = [0x0f, 0xaf, 0xd1]"

definition cod_atrib :: "sb_var \<Rightarrow> sb_varpc \<Rightarrow> sb_op \<Rightarrow> sb_varpc \<Rightarrow> byte list" where
  "cod_atrib x a f b = cod_mov a (f \<noteq> Menos) @ cod_mov b (f = Menos) @ cod_op f @ [0x89, 0x55, byte_desl x]"

definition cod_teste :: "sb_var \<Rightarrow> 32 word \<Rightarrow> byte list" where
  "cod_teste x w = [0x83, 0x7d, byte_desl x, 0x00, 0x0f, 0x84] @ bytes32 w"

definition cod_volta :: "32 word \<Rightarrow> byte list" where
  "cod_volta w = 0xe9 # bytes32 w"

fun sb_codigo :: "sb_cmd list \<Rightarrow> byte list" where
  "sb_codigo [] = []"
| "sb_codigo (Atrib x a f b # cs) = cod_atrib x a f b @ sb_codigo cs"
| "sb_codigo (Enquanto x b # cs) =
     (let c = sb_codigo b in
      cod_teste x (word_of_int (int (length c) + 5)) @ c @ cod_volta (word_of_int (- int (length c) - 15)) @ sb_codigo cs)"

lemma length_bytes32 [simp]: "length (bytes32 w) = 4"
  by (simp add: bytes32_def)

lemma length_cod [simp]:
  "length (cod_teste x w) = 10" "length (cod_volta w) = 5"
  by (simp_all add: cod_teste_def cod_volta_def)

lemma length_cod_mov: "length (cod_mov a r) \<le> 5" "0 < length (cod_mov a r)"
  by (cases a; simp)+

lemma length_cod_atrib: "length (cod_atrib x a f b) \<le> 16"
  using length_cod_mov(1)[of a "f \<noteq> Menos"] length_cod_mov(1)[of b "f = Menos"]
  by (cases f) (simp_all add: cod_atrib_def)

text \<open>Every line takes at most 16 bytes\<close>

lemma length_sb_codigo: "length (sb_codigo cs) \<le> 16 * sb_linhas cs"
proof (induction cs rule: sb_codigo.induct)
  case (2 x a f b cs)
  then show ?case using length_cod_atrib[of x a f b] by simp
qed (simp_all add: Let_def)

end
