(* ===== verification/SbGera.thy ===== *)
theory SbGera
  imports SbLing
begin

text \<open>
  What the one pass of \<open>geracod\<close> makes of the text of a program: the code \<open>sb_codigo\<close>, with the jumps of
  every loop patched at its end.
\<close>

section \<open>Reading what was printed\<close>

lemma scan_show:
  assumes "r \<noteq> [] \<Longrightarrow> c_digit 10 (hd r) = None"
  shows "scan_num (show_int i @ r) = (Some i, r)"
proof -
  obtain c t where n: "show_nat (nat \<bar>i\<bar>) = c # t" "is_digit c" using show_nat_hd by blast
  have stop: "c_read_digits 10 n r = (n, r)" for n using assms by (cases r) simp_all
  have read: "c_read_digits 10 0 (c # t @ r) = (nat \<bar>i\<bar>, r)"
    using c_read_dec[of "nat \<bar>i\<bar>" r] stop n(1) by (simp del: c_read_digits.simps)
  have dig: "c_digit 10 c \<noteq> None" using digit_is(7)[OF n(2)] by auto
  have sign: "strtoul_sign (show_int i @ r) = (i < 0, c # t @ r)"
  proof (cases "i < 0")
    case True
    then have "show_int i = CHR ''-'' # c # t" using n(1) by (simp add: show_int_def)
    moreover have "\<not> c_isspace CHR ''-''" by (simp add: c_isspace_def)
    ultimately show ?thesis using True by (simp add: strtoul_sign_def)
  next
    case False
    then have "show_int i = c # t" using n(1) by (simp add: show_int_def)
    then show ?thesis using digit_is(1,2,6)[OF n(2)] False by (simp add: strtoul_sign_def)
  qed
  show ?thesis unfolding scan_num_def sign using dig read by (auto simp del: c_read_digits.simps)
qed

text \<open>Type and number of an operand\<close>

fun tipo :: "sb_varpc \<Rightarrow> char" where
  "tipo (Var (P i)) = CHR ''p''"
| "tipo (Var (V i)) = CHR ''v''"
| "tipo (Const c) = CHR ''$''"

fun num :: "sb_varpc \<Rightarrow> int" where
  "num (Var (P i)) = int i"
| "num (Var (V i)) = int i"
| "num (Const c) = c"

lemma txt_varpc_tipo: "txt_varpc a = tipo a # show_int (num a)"
  by (cases a rule: tipo.cases) (simp_all add: show_int_def)

lemma txt_var_tipo: "txt_var x = tipo (Var x) # show_int (num (Var x))"
  using txt_varpc_tipo[of "Var x"] by simp

lemma tipo_espaco [simp]: "\<not> c_isspace (tipo a)"
  by (cases a rule: tipo.cases) (simp_all add: c_isspace_def)

lemma num_int: "varpc_valida a \<Longrightarrow> c_int (num a) = Inr (num a)"
  by (cases a rule: tipo.cases) (simp_all add: c_int_def)

lemma op_espaco [simp]: "\<not> c_isspace (txt_op f)"
  by (cases f) (simp_all add: c_isspace_def)

lemma sinais [simp]:
  "c_isspace CHR '' ''" "\<not> c_isspace CHR ''=''" "c_digit 10 CHR '' '' = None" "c_digit 10 CHR 10 = None"
  by (simp_all add: c_isspace_def c_digit_def)

lemma fscanf_assign:
  assumes "varpc_valida (Var x)" "varpc_valida a" "varpc_valida b"
    and "arquivo s = show_int (num (Var x)) @ '' = '' @ txt_varpc a @ '' '' @ [txt_op f] @ '' '' @ txt_varpc b @ CHR 10 # r"
  shows "\<exists>s'. sb_fscanf dirs_assign s = Inr s' \<and> arquivo s' = CHR 10 # r \<and> vartype s' 0 = vartype s 0 \<and>
    var s' 0 = num (Var x) \<and> vartype s' 1 = tipo a \<and> var s' 1 = num a \<and> op s' = txt_op f \<and>
    vartype s' 2 = tipo b \<and> var s' 2 = num b \<and> mcodes s' = mcodes s \<and>
    enderecoCmplWhiles s' = enderecoCmplWhiles s \<and> linhas s' = linhas s"
  using assms(4) num_int[OF assms(1)] num_int[OF assms(2)] num_int[OF assms(3)]
  by (simp add: dirs_assign_def scan_show txt_varpc_tipo)

lemma fscanf_while:
  assumes "var_valida x" and "arquivo s = ''hile '' @ txt_var x @ CHR 10 # r"
  shows "\<exists>s'. sb_fscanf dirs_while s = Inr s' \<and> arquivo s' = CHR 10 # r \<and> vartype s' 0 = tipo (Var x) \<and>
    var s' 0 = num (Var x) \<and> mcodes s' = mcodes s \<and> enderecoCmplWhiles s' = enderecoCmplWhiles s \<and>
    linhas s' = linhas s"
  using assms(2) num_int[of "Var x"] assms(1)
  by (simp add: dirs_while_def scan_show txt_var_tipo)

section \<open>The code of a line\<close>

lemma testaVar_ok: "varpc_valida a \<Longrightarrow> testaVar (tipo a) (num a) = Inr ()"
  by (cases a rule: tipo.cases) (simp_all add: testaVar_def)

lemma fator_252: "(word_of_int (252 * k - 4) :: byte) = word_of_int (- 4 * k - 4)"
proof -
  have "(252 * k - 4) - (- 4 * k - 4) = 256 * k" by simp
  then show ?thesis unfolding word_of_int_eq_iff take_bit_eq_mod by (simp add: mod_eq_dvd_iff)
qed

lemma desl_ok:
  "i < 5 \<Longrightarrow> desl_param (int i) = Inr (byte_desl (P i))"
  "i < 10 \<Longrightarrow> desl_local 252 (int i) = Inr (byte_desl (V i))"
  "i < 10 \<Longrightarrow> desl_local (- 4) (int i) = Inr (byte_desl (V i))"
  using fator_252[of "int i"] by (simp_all add: desl_param_def desl_local_def c_int_def byte_desl_def)

lemma movl_ok:
  "varpc_valida a \<Longrightarrow> movlMemToReg (tipo a) (num a) CHR ''c'' = Inr (cod_mov a True)"
  "varpc_valida a \<Longrightarrow> movlMemToReg (tipo a) (num a) CHR ''d'' = Inr (cod_mov a False)"
  "var_valida x \<Longrightarrow> movlFromReg (tipo (Var x)) (num (Var x)) = Inr [0x89, 0x55, byte_desl x]"
  by (cases a rule: tipo.cases; simp add: movlMemToReg_def desl_ok intchar_def)+
    (cases x; simp add: movlFromReg_def desl_ok)

lemma assign_ok:
  assumes "var_valida x" "varpc_valida a" "varpc_valida b"
  shows "assign (tipo (Var x)) (num (Var x)) (tipo a) (num a) (tipo b) (num b) (txt_op f) = Inr (cod_atrib x a f b)"
proof -
  have "tipo (Var x) \<noteq> CHR ''$''" by (cases x) simp_all
  moreover have "testaVar (tipo (Var x)) (num (Var x)) = Inr ()" using assms(1) by (intro testaVar_ok) simp
  ultimately show ?thesis
    using assms testaVar_ok[OF assms(2)] testaVar_ok[OF assms(3)] movl_ok(3)[OF assms(1)]
    by (cases f) (simp_all add: assign_def movl_ok sb_operacao_def cod_atrib_def)
qed

lemma whileFunc_ok:
  "var_valida x \<Longrightarrow> whileFunc (tipo (Var x)) (num (Var x)) =
     Inr ([0x83, 0x7d, byte_desl x, 0x00, 0x0f, 0x84] @ replicate 4 0xff)"
  using testaVar_ok[of "Var x"] by (cases x) (simp_all add: whileFunc_def desl_ok numeral_eq_Suc)

lemma gravar_fim: "length code + length bs \<le> 800 \<Longrightarrow> gravar (length code) bs code = Inr (code @ bs)"
  by (simp add: gravar_def)

text \<open>The place kept for the jump is filled, and the jump back written.\<close>

lemma endFunc_ok:
  assumes "length code + length c + 15 \<le> 800" and ph: "length ph = 4"
    and t: "t = [0x83, 0x7d, byte_desl x, 0x00, 0x0f, 0x84]"
  shows "endFunc (code @ (t @ ph) @ c) (length (code @ (t @ ph) @ c)) (length code) =
    Inr (code @ cod_teste x (word_of_int (int (length c) + 5)) @ c @ cod_volta (word_of_int (- int (length c) - 15)))"
proof -
  let ?n = "length code" and ?m = "length (code @ (t @ ph) @ c)"
  let ?d = "code @ cod_teste x (word_of_int (int (length c) + 5)) @ c"
  have a: "int ?m + 4 - (int ?n + 9) = int (length c) + 5" "int ?n - (int ?m + 5) = - int (length c) - 15"
    using ph by (simp_all add: t)
  have 1: "gravar (?n + 6) (intchar (int (length c) + 5)) (code @ (t @ ph) @ c) = Inr ?d"
    using assms(1) ph by (simp add: t gravar_def cod_teste_def intchar_def)
  have m: "?m = length ?d" "?m + 1 = length (?d @ [0xe9])" using ph by (simp_all add: t)
  have 2: "gravar ?m [0xe9] ?d = Inr (?d @ [0xe9])" unfolding m(1) by (rule gravar_fim) (use assms(1) in simp)
  have 3: "gravar (?m + 1) (intchar (- int (length c) - 15)) (?d @ [0xe9]) =
      Inr ((?d @ [0xe9]) @ bytes32 (word_of_int (- int (length c) - 15)))"
    unfolding m(2) intchar_def by (rule gravar_fim) (use assms(1) in simp)
  show ?thesis unfolding endFunc_def a 1 res_bind_Inr 2 3 by (simp add: cod_volta_def)
qed

section \<open>The loop\<close>

text \<open>Loops inside each other\<close>

fun prof :: "sb_cmd list \<Rightarrow> nat" where
  "prof [] = 0"
| "prof (Atrib x a f b # cs) = prof cs"
| "prof (Enquanto x b # cs) = max (Suc (prof b)) (prof cs)"

lemma prof_linhas: "2 * prof cs \<le> sb_linhas cs"
  by (induction cs rule: prof.induct) (auto simp: max_def)

lemma laco_linha:
  assumes "arquivo s = CHR 10 # r" "length (mcodes s) < 800" "linhas s \<le> 50"
  shows "\<exists>s'. sb_laco s = sb_laco s' \<and> arquivo s' = r \<and> mcodes s' = mcodes s \<and>
    enderecoCmplWhiles s' = enderecoCmplWhiles s \<and> linhas s' = linhas s + 1"
  using assms by (subst sb_laco.simps) (simp add: sb_passo_def Let_def, force)

lemma anexar_ok:
  "length (mcodes s) + length bs \<le> 800 \<Longrightarrow> sb_anexar bs s = Inr (s\<lparr>mcodes := mcodes s @ bs\<rparr>)"
  by (simp add: sb_anexar_def gravar_fim)

lemma laco_assign:
  assumes v: "var_valida x" "varpc_valida a" "varpc_valida b"
    and s: "arquivo s = txt_var x @ '' = '' @ txt_varpc a @ '' '' @ [txt_op f] @ '' '' @ txt_varpc b @ CHR 10 # r"
      "length (mcodes s) + length (cod_atrib x a f b) < 800" "linhas s \<le> 50"
  shows "\<exists>s'. sb_laco s = sb_laco s' \<and> arquivo s' = r \<and> mcodes s' = mcodes s @ cod_atrib x a f b \<and>
    enderecoCmplWhiles s' = enderecoCmplWhiles s \<and> linhas s' = linhas s + 1"
proof -
  let ?r = "show_int (num (Var x)) @ '' = '' @ txt_varpc a @ '' '' @ [txt_op f] @ '' '' @ txt_varpc b @ CHR 10 # r"
  let ?s = "s\<lparr>arquivo := ?r, vartype := (vartype s)(0 := tipo (Var x))\<rparr>"
  have t: "tipo (Var x) = CHR ''v'' \<or> tipo (Var x) = CHR ''p''" by (cases x) simp_all
  obtain s1 where s1: "sb_fscanf dirs_assign ?s = Inr s1" "arquivo s1 = CHR 10 # r" "vartype s1 0 = tipo (Var x)"
    "var s1 0 = num (Var x)" "vartype s1 1 = tipo a" "var s1 1 = num a" "op s1 = txt_op f" "vartype s1 2 = tipo b"
    "var s1 2 = num b" "mcodes s1 = mcodes s" "enderecoCmplWhiles s1 = enderecoCmplWhiles s" "linhas s1 = linhas s"
    using fscanf_assign[of x a b ?s f r] v by auto
  let ?s2 = "s1\<lparr>mcodes := mcodes s @ cod_atrib x a f b\<rparr>"
  have "sb_assign ?s = Inr ?s2"
    unfolding sb_assign_def s1(1) res_bind_Inr s1(3-9) assign_ok[OF v]
    using anexar_ok[of s1 "cod_atrib x a f b"] s(2) by (simp add: s1(10))
  then have "sb_laco s = sb_laco ?s2"
    using t s by (subst sb_laco.simps) (auto simp: txt_var_tipo sb_passo_def Let_def)
  moreover obtain s' where "sb_laco ?s2 = sb_laco s'" "arquivo s' = r" "mcodes s' = mcodes ?s2"
    "enderecoCmplWhiles s' = enderecoCmplWhiles ?s2" "linhas s' = linhas ?s2 + 1"
    using laco_linha[of ?s2 r] s1 s by auto
  ultimately show ?thesis using s1 by auto
qed

lemma laco_while:
  assumes v: "var_valida x" and s: "arquivo s = ''while '' @ txt_var x @ CHR 10 # r"
    "length (mcodes s) + 10 < 800" "linhas s \<le> 50" "length (enderecoCmplWhiles s) < 25"
  shows "\<exists>s'. sb_laco s = sb_laco s' \<and> arquivo s' = r \<and>
    mcodes s' = mcodes s @ [0x83, 0x7d, byte_desl x, 0x00, 0x0f, 0x84] @ replicate 4 0xff \<and>
    enderecoCmplWhiles s' = length (mcodes s) # enderecoCmplWhiles s \<and> linhas s' = linhas s + 1"
proof -
  let ?bs = "[0x83, 0x7d, byte_desl x, 0x00, 0x0f, 0x84] @ replicate 4 0xff"
  let ?s = "s\<lparr>arquivo := ''hile '' @ txt_var x @ CHR 10 # r, vartype := (vartype s)(0 := CHR ''w'')\<rparr>"
  obtain s1 where s1: "sb_fscanf dirs_while ?s = Inr s1" "arquivo s1 = CHR 10 # r" "vartype s1 0 = tipo (Var x)"
    "var s1 0 = num (Var x)" "mcodes s1 = mcodes s" "enderecoCmplWhiles s1 = enderecoCmplWhiles s" "linhas s1 = linhas s"
    using fscanf_while[of x ?s r] v by auto
  let ?s2 = "s1\<lparr>enderecoCmplWhiles := length (mcodes s) # enderecoCmplWhiles s\<rparr>"
  let ?s3 = "?s2\<lparr>mcodes := mcodes s @ ?bs\<rparr>"
  have 25: "\<not> 25 \<le> length (enderecoCmplWhiles s)" using s(4) by simp
  have w: "whileFunc (vartype ?s2 0) (var ?s2 0) = Inr ?bs" using whileFunc_ok[OF v] s1(3,4) by simp
  have "sb_anexar ?bs ?s2 = Inr ?s3" using anexar_ok[of ?s2 ?bs] s(2) s1(5) by simp
  then have "sb_while ?s = Inr ?s3"
    unfolding sb_while_def s1(1) res_bind_Inr Let_def s1(5,6) if_not_P[OF 25] w .
  moreover have "sb_laco s = (case sb_passo CHR ''w'' ?s of None \<Rightarrow> None | Some (Inl e) \<Rightarrow> Some (Inl e) | Some (Inr s2) \<Rightarrow> sb_laco s2)"
    using s(1,3) by (subst sb_laco.simps) (simp add: Let_def)
  moreover have "sb_passo CHR ''w'' ?s = Some (sb_while ?s)" using s(2) by (simp add: sb_passo_def)
  ultimately have "sb_laco s = sb_laco ?s3" by simp
  moreover obtain s' where "sb_laco ?s3 = sb_laco s'" "arquivo s' = r" "mcodes s' = mcodes ?s3"
    "enderecoCmplWhiles s' = enderecoCmplWhiles ?s3" "linhas s' = linhas ?s3 + 1"
    using laco_linha[of ?s3 r] s1 s by auto
  ultimately show ?thesis using s1 by auto
qed

lemma laco_end:
  assumes s: "arquivo s = ''end'' @ CHR 10 # r" "linhas s \<le> 50" "enderecoCmplWhiles s = length code # ws"
    "mcodes s = code @ ([0x83, 0x7d, byte_desl x, 0x00, 0x0f, 0x84] @ ph) @ c" "length ph = 4" "length code + length c + 15 < 800"
  shows "\<exists>s'. sb_laco s = sb_laco s' \<and> arquivo s' = r \<and> enderecoCmplWhiles s' = ws \<and> linhas s' = linhas s + 1 \<and>
    mcodes s' = code @ cod_teste x (word_of_int (int (length c) + 5)) @ c @ cod_volta (word_of_int (- int (length c) - 15))"
proof -
  let ?s = "s\<lparr>arquivo := ''nd'' @ CHR 10 # r, vartype := (vartype s)(0 := CHR ''e'')\<rparr>"
  let ?code = "code @ cod_teste x (word_of_int (int (length c) + 5)) @ c @ cod_volta (word_of_int (- int (length c) - 15))"
  let ?s2 = "?s\<lparr>enderecoCmplWhiles := ws, mcodes := ?code, arquivo := CHR 10 # r\<rparr>"
  have "endFunc (mcodes s) (length (mcodes s)) (length code) = Inr ?code"
    unfolding s(4) by (rule endFunc_ok[OF _ s(5) refl]) (use s(6) in simp)
  then have "sb_end ?s = Inr ?s2" using s(3) by (simp add: sb_end_def)
  moreover have "sb_laco s = (case sb_passo CHR ''e'' ?s of None \<Rightarrow> None | Some (Inl e) \<Rightarrow> Some (Inl e) | Some (Inr s2) \<Rightarrow> sb_laco s2)"
    using s(1,2) by (subst sb_laco.simps) (simp add: Let_def)
  moreover have "sb_passo CHR ''e'' ?s = Some (sb_end ?s)" using s(4-6) by (simp add: sb_passo_def)
  ultimately have "sb_laco s = sb_laco ?s2" by simp
  moreover have "length (mcodes ?s2) < 800" using s(6) by simp
  then obtain s' where "sb_laco ?s2 = sb_laco s'" "arquivo s' = r" "mcodes s' = mcodes ?s2"
    "enderecoCmplWhiles s' = enderecoCmplWhiles ?s2" "linhas s' = linhas ?s2 + 1"
    using laco_linha[of ?s2 r] s(2) by auto
  ultimately show ?thesis by auto
qed

lemma laco_ok:
  assumes "sb_valido cs" "arquivo s = sb_texto cs @ r" "length (mcodes s) + length (sb_codigo cs) < 800"
    "linhas s + sb_linhas cs \<le> 51" "length (enderecoCmplWhiles s) + prof cs \<le> 25"
  shows "\<exists>s'. sb_laco s = sb_laco s' \<and> arquivo s' = r \<and> mcodes s' = mcodes s @ sb_codigo cs \<and>
    enderecoCmplWhiles s' = enderecoCmplWhiles s \<and> linhas s' = linhas s + sb_linhas cs"
  using assms
proof (induction cs arbitrary: s r rule: sb_texto.induct)
  case 1
  then show ?case by auto
next
  case (2 x a f b cs)
  obtain s1 where s1: "sb_laco s = sb_laco s1" "arquivo s1 = sb_texto cs @ r" "mcodes s1 = mcodes s @ cod_atrib x a f b"
    "enderecoCmplWhiles s1 = enderecoCmplWhiles s" "linhas s1 = linhas s + 1"
    using laco_assign[of x a b s f "sb_texto cs @ r"] "2.prems" by auto
  show ?case using "2.IH"[of s1 r] "2.prems" s1 by auto
next
  case (3 x b cs)
  have niveis: "length (enderecoCmplWhiles s) < 25" "length (enderecoCmplWhiles s) + Suc (prof b) \<le> 25"
    "length (enderecoCmplWhiles s) + prof cs \<le> 25" using "3.prems"(5) by (simp_all add: max_def split: if_splits)
  obtain s1 where s1: "sb_laco s = sb_laco s1" "arquivo s1 = sb_texto b @ ''end'' @ CHR 10 # sb_texto cs @ r"
    "mcodes s1 = mcodes s @ [0x83, 0x7d, byte_desl x, 0x00, 0x0f, 0x84] @ replicate 4 0xff"
    "enderecoCmplWhiles s1 = length (mcodes s) # enderecoCmplWhiles s" "linhas s1 = linhas s + 1"
    using laco_while[of x s "sb_texto b @ ''end'' @ CHR 10 # sb_texto cs @ r"] "3.prems" niveis by (auto simp: Let_def)
  obtain s2 where s2: "sb_laco s1 = sb_laco s2" "arquivo s2 = ''end'' @ CHR 10 # sb_texto cs @ r"
    "mcodes s2 = mcodes s1 @ sb_codigo b" "enderecoCmplWhiles s2 = enderecoCmplWhiles s1" "linhas s2 = linhas s1 + sb_linhas b"
    using "3.IH"(1)[of s1 "''end'' @ CHR 10 # sb_texto cs @ r"] "3.prems" niveis s1 by (auto simp: Let_def)
  obtain s3 where s3: "sb_laco s2 = sb_laco s3" "arquivo s3 = sb_texto cs @ r" "enderecoCmplWhiles s3 = enderecoCmplWhiles s"
    "linhas s3 = linhas s2 + 1"
    "mcodes s3 = mcodes s @ cod_teste x (word_of_int (int (length (sb_codigo b)) + 5)) @ sb_codigo b @
      cod_volta (word_of_int (- int (length (sb_codigo b)) - 15))"
  proof -
    have "mcodes s2 = mcodes s @ ([0x83, 0x7d, byte_desl x, 0x00, 0x0f, 0x84] @ replicate 4 0xff) @ sb_codigo b"
      using s1(3) s2(3) by simp
    from laco_end[OF s2(2) _ _ this, of "enderecoCmplWhiles s"] "3.prems" s1 s2 that show thesis by (auto simp: Let_def)
  qed
  have "length (mcodes s3) + length (sb_codigo cs) < 800" using "3.prems"(3) s3(5) by (simp add: Let_def)
  then obtain s4 where "sb_laco s3 = sb_laco s4" "arquivo s4 = r" "mcodes s4 = mcodes s3 @ sb_codigo cs"
    "enderecoCmplWhiles s4 = enderecoCmplWhiles s" "linhas s4 = linhas s3 + sb_linhas cs"
    using "3.IH"(2)[of s3 r] "3.prems" niveis s1 s2 s3 by auto
  then show ?case using s1 s2 s3 by (auto simp: Let_def)
qed

section \<open>The whole program\<close>

definition sb_funcao :: "sb_cmd list \<Rightarrow> byte list" where
  "sb_funcao cs = prologo @ sb_codigo cs @ finalizacao"

text \<open>After the first commands of the text\<close>

lemma geracod_apos:
  assumes "sb_valido cs" "sb_linhas cs \<le> 49"
  shows "\<exists>s. geracod lixo (sb_texto cs @ r) = (case sb_laco s of None \<Rightarrow> None | Some q \<Rightarrow> Some (res_bind q sb_fim)) \<and>
    arquivo s = r \<and> mcodes s = prologo @ sb_codigo cs \<and> length (mcodes s) \<le> 790 \<and>
    enderecoCmplWhiles s = [] \<and> linhas s = 1 + sb_linhas cs"
proof -
  let ?s = "\<lparr>arquivo = sb_texto cs @ r, vartype = fst lixo, var = fst (snd lixo), op = snd (snd lixo),
    temp = CHR '' '', mcodes = prologo, enderecoCmplWhiles = [], linhas = 1\<rparr>"
  have l: "length (sb_codigo cs) \<le> 784" using length_sb_codigo[of cs] assms(2) by simp
  obtain s where s: "sb_laco ?s = sb_laco s" "arquivo s = r" "mcodes s = prologo @ sb_codigo cs"
    "enderecoCmplWhiles s = []" "linhas s = 1 + sb_linhas cs"
    using laco_ok[OF assms(1), of ?s r] assms(2) l prof_linhas[of cs] by (auto simp: prologo_def)
  then show ?thesis using l by (intro exI[of _ s]) (simp add: geracod_def prologo_def)
qed

lemma geracod_ok:
  assumes "sb_valido cs" and "sb_linhas cs \<le> 49"
  shows "geracod lixo (sb_texto cs @ ''ret'' @ resto) = Some (Inr (sb_funcao cs))"
proof -
  obtain s where s: "geracod lixo (sb_texto cs @ ''ret'' @ resto) =
      (case sb_laco s of None \<Rightarrow> None | Some q \<Rightarrow> Some (res_bind q sb_fim))"
    "arquivo s = ''ret'' @ resto" "mcodes s = prologo @ sb_codigo cs" "length (mcodes s) \<le> 790"
    "enderecoCmplWhiles s = []" "linhas s = 1 + sb_linhas cs"
    using geracod_apos[OF assms] by blast
  have "sb_laco s = Some (Inr (s\<lparr>arquivo := ''et'' @ resto, vartype := (vartype s)(0 := CHR ''r'')\<rparr>))"
    using s(2) by (subst sb_laco.simps) (simp add: Let_def)
  moreover have "gravar (length (mcodes s)) finalizacao (mcodes s) = Inr (mcodes s @ finalizacao)"
    by (rule gravar_fim) (use s(4) in \<open>simp add: finalizacao_def\<close>)
  ultimately show ?thesis using s assms(2) by (simp add: sb_fim_def sb_funcao_def)
qed

text \<open>
  (C11) The generator compiles every program: for the text of a program with valid operands and at most 49
  lines before \<open>ret\<close>, whatever stands in the uninitialised variables and after \<open>ret\<close>, \<open>geracod\<close> returns,
  without an error and without a write outside its arrays, the code of the program between the prologue
  and the epilogue: the bytes of every instruction, with the two jumps of every loop, however deeply it is
  nested, patched to the end of the loop and back to its test.
\<close>

theorem sb_compiles:
  assumes "sb_valido cs" and "sb_linhas cs \<le> 49"
  shows "geracod lixo (sb_texto cs @ ''ret'' @ resto) = Some (Inr (sb_funcao cs))"
  using assms by (rule geracod_ok)

text \<open>The sum of a loop: \<open>v0 = v0 + p0\<close> until \<open>p1\<close> is zero\<close>

definition sb_exemplo :: "sb_cmd list" where
  "sb_exemplo = [Atrib (V 0) (Const 0) Mais (Const 0),
     Enquanto (P 1) [Atrib (V 0) (Var (V 0)) Mais (Var (P 0)), Atrib (P 1) (Var (P 1)) Menos (Const 1)]]"

lemma exemplo_texto:
  "sb_texto sb_exemplo @ ''ret'' =
     ''v0 = $0 + $0'' @ [CHR 10] @ ''while p1'' @ [CHR 10] @ ''v0 = v0 + p0'' @ [CHR 10] @ ''p1 = p1 - $1'' @ [CHR 10] @
     ''end'' @ [CHR 10] @ ''ret''"
  by code_simp

lemma exemplo_codigo:
  "sb_funcao sb_exemplo =
     [0x55, 0x89, 0xe5, 0x83, 0xec, 0x28,
      0xb9, 0, 0, 0, 0, 0xba, 0, 0, 0, 0, 0x01, 0xca, 0x89, 0x55, 0xfc,
      0x83, 0x7d, 0x0c, 0, 0x0f, 0x84, 29, 0, 0, 0,
      0x8b, 0x4d, 0xfc, 0x8b, 0x55, 0x08, 0x01, 0xca, 0x89, 0x55, 0xfc,
      0x8b, 0x55, 0x0c, 0xb9, 1, 0, 0, 0, 0x29, 0xca, 0x89, 0x55, 0x0c,
      0xe9, 0xd9, 0xff, 0xff, 0xff,
      0x8b, 0x45, 0xfc, 0x89, 0xec, 0x5d, 0xc3]"
  by code_simp

theorem sb_compiles_witness:
  "geracod (\<lambda>_. CHR ''x'', \<lambda>_. 7, CHR ''x'')
     (''v0 = $0 + $0'' @ [CHR 10] @ ''while p1'' @ [CHR 10] @ ''v0 = v0 + p0'' @ [CHR 10] @ ''p1 = p1 - $1'' @ [CHR 10] @
      ''end'' @ [CHR 10] @ ''ret'') = Some (Inr (sb_funcao sb_exemplo))"
proof -
  have "sb_valido sb_exemplo" "sb_linhas sb_exemplo \<le> 49" by (simp_all add: sb_exemplo_def)
  from sb_compiles[OF this, of "(\<lambda>_. CHR ''x'', \<lambda>_. 7, CHR ''x'')" "[]"] show ?thesis
    using exemplo_texto by (simp only: append_Nil2)
qed

end
