(* ===== verification/Ia32.thy ===== *)
theory Ia32
  imports SbLing
begin

text \<open>
  The processor that runs the generated code, a parameter: \<open>ia32_laws\<close> states what the manual of the
  IA-32 architecture says of the instructions the generator writes, over the registers and the
  flag they touch; \<open>ref_ia32\<close> is an executable processor with these laws. Memory is a function of 32-bit
  addresses, words are stored with the lowest byte first. Other flags are left out; an instruction that
  sets the zero flag without the code looking at it leaves it open.
\<close>

unbundle bit_operations_syntax

record ia32 =
  eax :: "32 word"
  ecx :: "32 word"
  edx :: "32 word"
  ebp :: "32 word"
  esp :: "32 word"
  eip :: "32 word"
  zf :: bool
  mem :: "32 word \<Rightarrow> byte"

definition ler32 :: "(32 word \<Rightarrow> byte) \<Rightarrow> 32 word \<Rightarrow> 32 word" where
  "ler32 m a = ucast (m a) OR push_bit 8 (ucast (m (a + 1))) OR push_bit 16 (ucast (m (a + 2)))
     OR push_bit 24 (ucast (m (a + 3)))"

definition grava32 :: "(32 word \<Rightarrow> byte) \<Rightarrow> 32 word \<Rightarrow> 32 word \<Rightarrow> 32 word \<Rightarrow> byte" where
  "grava32 m a w = m(a := ucast w, a + 1 := ucast (drop_bit 8 w), a + 2 := ucast (drop_bit 16 w),
     a + 3 := ucast (drop_bit 24 w))"

text \<open>The bytes \<open>bs\<close> are at an address\<close>

fun em :: "(32 word \<Rightarrow> byte) \<Rightarrow> 32 word \<Rightarrow> byte list \<Rightarrow> bool" where
  "em m a [] = True"
| "em m a (b # bs) = (m a = b \<and> em m (a + 1) bs)"

locale ia32_laws =
  fixes passo :: "ia32 \<Rightarrow> ia32"
  assumes push_ebp: "em (mem s) (eip s) [0x55] \<Longrightarrow>
      passo s = s\<lparr>esp := esp s - 4, mem := grava32 (mem s) (esp s - 4) (ebp s), eip := eip s + 1\<rparr>"
    and mov_esp_ebp: "em (mem s) (eip s) [0x89, 0xe5] \<Longrightarrow> passo s = s\<lparr>ebp := esp s, eip := eip s + 2\<rparr>"
    and sub_esp: "em (mem s) (eip s) [0x83, 0xec, d] \<Longrightarrow>
      \<exists>z. passo s = s\<lparr>esp := esp s - scast d, zf := z, eip := eip s + 3\<rparr>"
    and mov_mem_eax: "em (mem s) (eip s) [0x8b, 0x45, d] \<Longrightarrow>
      passo s = s\<lparr>eax := ler32 (mem s) (ebp s + scast d), eip := eip s + 3\<rparr>"
    and mov_mem_ecx: "em (mem s) (eip s) [0x8b, 0x4d, d] \<Longrightarrow>
      passo s = s\<lparr>ecx := ler32 (mem s) (ebp s + scast d), eip := eip s + 3\<rparr>"
    and mov_mem_edx: "em (mem s) (eip s) [0x8b, 0x55, d] \<Longrightarrow>
      passo s = s\<lparr>edx := ler32 (mem s) (ebp s + scast d), eip := eip s + 3\<rparr>"
    and mov_imm_ecx: "em (mem s) (eip s) (0xb9 # bytes32 w) \<Longrightarrow> passo s = s\<lparr>ecx := w, eip := eip s + 5\<rparr>"
    and mov_imm_edx: "em (mem s) (eip s) (0xba # bytes32 w) \<Longrightarrow> passo s = s\<lparr>edx := w, eip := eip s + 5\<rparr>"
    and add_ecx_edx: "em (mem s) (eip s) [0x01, 0xca] \<Longrightarrow>
      \<exists>z. passo s = s\<lparr>edx := edx s + ecx s, zf := z, eip := eip s + 2\<rparr>"
    and sub_ecx_edx: "em (mem s) (eip s) [0x29, 0xca] \<Longrightarrow>
      \<exists>z. passo s = s\<lparr>edx := edx s - ecx s, zf := z, eip := eip s + 2\<rparr>"
    and imul_ecx_edx: "em (mem s) (eip s) [0x0f, 0xaf, 0xd1] \<Longrightarrow>
      \<exists>z. passo s = s\<lparr>edx := edx s * ecx s, zf := z, eip := eip s + 3\<rparr>"
    and mov_edx_mem: "em (mem s) (eip s) [0x89, 0x55, d] \<Longrightarrow>
      passo s = s\<lparr>mem := grava32 (mem s) (ebp s + scast d) (edx s), eip := eip s + 3\<rparr>"
    and cmp_zero_mem: "em (mem s) (eip s) [0x83, 0x7d, d, 0x00] \<Longrightarrow>
      passo s = s\<lparr>zf := (ler32 (mem s) (ebp s + scast d) = 0), eip := eip s + 4\<rparr>"
    and je: "em (mem s) (eip s) ([0x0f, 0x84] @ bytes32 w) \<Longrightarrow>
      passo s = s\<lparr>eip := eip s + 6 + (if zf s then w else 0)\<rparr>"
    and jmp: "em (mem s) (eip s) (0xe9 # bytes32 w) \<Longrightarrow> passo s = s\<lparr>eip := eip s + 5 + w\<rparr>"
    and mov_ebp_esp: "em (mem s) (eip s) [0x89, 0xec] \<Longrightarrow> passo s = s\<lparr>esp := ebp s, eip := eip s + 2\<rparr>"
    and pop_ebp: "em (mem s) (eip s) [0x5d] \<Longrightarrow>
      passo s = s\<lparr>ebp := ler32 (mem s) (esp s), esp := esp s + 4, eip := eip s + 1\<rparr>"
    and ret: "em (mem s) (eip s) [0xc3] \<Longrightarrow> passo s = s\<lparr>eip := ler32 (mem s) (esp s), esp := esp s + 4\<rparr>"

section \<open>An executable processor\<close>

text \<open>It looks at the first byte, then at the others; on any other code it stands still.\<close>

definition ref_ia32 :: "ia32 \<Rightarrow> ia32" where
  "ref_ia32 s =
     (let m = mem s; a = eip s; b0 = m a; b1 = m (a + 1); b2 = m (a + 2); e = ebp s + scast b2 in
      if b0 = 0x55 then s\<lparr>esp := esp s - 4, mem := grava32 m (esp s - 4) (ebp s), eip := a + 1\<rparr>
      else if b0 = 0x89 \<and> b1 = 0xe5 then s\<lparr>ebp := esp s, eip := a + 2\<rparr>
      else if b0 = 0x89 \<and> b1 = 0xec then s\<lparr>esp := ebp s, eip := a + 2\<rparr>
      else if b0 = 0x89 \<and> b1 = 0x55 then s\<lparr>mem := grava32 m e (edx s), eip := a + 3\<rparr>
      else if b0 = 0x83 \<and> b1 = 0xec then s\<lparr>esp := esp s - scast b2, zf := (esp s - scast b2 = 0), eip := a + 3\<rparr>
      else if b0 = 0x83 \<and> b1 = 0x7d then s\<lparr>zf := (ler32 m e = 0), eip := a + 4\<rparr>
      else if b0 = 0x8b \<and> b1 = 0x45 then s\<lparr>eax := ler32 m e, eip := a + 3\<rparr>
      else if b0 = 0x8b \<and> b1 = 0x4d then s\<lparr>ecx := ler32 m e, eip := a + 3\<rparr>
      else if b0 = 0x8b \<and> b1 = 0x55 then s\<lparr>edx := ler32 m e, eip := a + 3\<rparr>
      else if b0 = 0xb9 then s\<lparr>ecx := ler32 m (a + 1), eip := a + 5\<rparr>
      else if b0 = 0xba then s\<lparr>edx := ler32 m (a + 1), eip := a + 5\<rparr>
      else if b0 = 0x01 then s\<lparr>edx := edx s + ecx s, zf := (edx s + ecx s = 0), eip := a + 2\<rparr>
      else if b0 = 0x29 then s\<lparr>edx := edx s - ecx s, zf := (edx s = ecx s), eip := a + 2\<rparr>
      else if b0 = 0x0f \<and> b1 = 0xaf then s\<lparr>edx := edx s * ecx s, zf := False, eip := a + 3\<rparr>
      else if b0 = 0x0f \<and> b1 = 0x84 then s\<lparr>eip := a + 6 + (if zf s then ler32 m (a + 2) else 0)\<rparr>
      else if b0 = 0xe9 then s\<lparr>eip := a + 5 + ler32 m (a + 1)\<rparr>
      else if b0 = 0x5d then s\<lparr>ebp := ler32 m (esp s), esp := esp s + 4, eip := a + 1\<rparr>
      else if b0 = 0xc3 then s\<lparr>eip := ler32 m (esp s), esp := esp s + 4\<rparr>
      else s)"

lemma junta32:
  fixes w :: "32 word"
  shows "ucast (ucast w :: byte) OR push_bit 8 (ucast (ucast (drop_bit 8 w) :: byte)) OR
    push_bit 16 (ucast (ucast (drop_bit 16 w) :: byte)) OR push_bit 24 (ucast (ucast (drop_bit 24 w) :: byte)) = w"
proof (rule bit_word_eqI)
  fix n assume "n < LENGTH(32)"
  then consider "n < 8" | k where "n = 8 + k" "k < 8" | k where "n = 16 + k" "k < 8" | k where "n = 24 + k" "k < 8"
  proof -
    assume *: "n < 8 \<Longrightarrow> thesis" "\<And>k. n = 8 + k \<Longrightarrow> k < 8 \<Longrightarrow> thesis"
      "\<And>k. n = 16 + k \<Longrightarrow> k < 8 \<Longrightarrow> thesis" "\<And>k. n = 24 + k \<Longrightarrow> k < 8 \<Longrightarrow> thesis"
    have "n < 32" using \<open>n < LENGTH(32)\<close> by simp
    then show thesis using *(1) *(2)[of "n - 8"] *(3)[of "n - 16"] *(4)[of "n - 24"] by linarith
  qed
  then show "bit (ucast (ucast w :: byte) OR push_bit 8 (ucast (ucast (drop_bit 8 w) :: byte)) OR
    push_bit 16 (ucast (ucast (drop_bit 16 w) :: byte)) OR push_bit 24 (ucast (ucast (drop_bit 24 w) :: byte)) :: 32 word) n = bit w n"
    by cases (simp_all add: bit_simps)
qed

lemma em_bytes32: "em m a (bytes32 w) \<Longrightarrow> ler32 m a = w"
  unfolding ler32_def bytes32_def using junta32[of w] by (simp add: add.assoc)

interpretation ref_ia32: ia32_laws ref_ia32
  by unfold_locales (auto simp: ref_ia32_def Let_def add.commute[of "2 :: 32 word"] dest: em_bytes32)

end
