(* ===== verification/SbCorreto.thy ===== *)
theory SbCorreto
  imports SbGera Ia32
begin

text \<open>
  The generated function on the processor: run from its first byte with its parameters on the stack, it
  returns exactly when the program ends, with the value of \<open>v0\<close> in \<open>%eax\<close> and the caller's stack and base
  pointer. The forward direction is an induction on the execution of the program, the reverse one an
  induction on the number of machine steps.
\<close>

section \<open>Words on the stack\<close>

lemma ler_grava [simp]: "ler32 (grava32 m a w) a = w"
  using junta32[of w] by (simp add: ler32_def grava32_def)

lemma word_of_int_pequeno: "0 < \<bar>k\<bar> \<Longrightarrow> \<bar>k\<bar> < 2 ^ 32 \<Longrightarrow> (word_of_int k :: 32 word) \<noteq> 0"
proof
  assume k: "0 < \<bar>k\<bar>" "\<bar>k\<bar> < 2 ^ 32" and z: "(word_of_int k :: 32 word) = 0"
  then have "2 ^ 32 dvd k" by (simp add: word_of_int_eq_0_iff)
  then have "2 ^ 32 \<le> \<bar>k\<bar>" using k(1) by (intro zdvd_imp_le) simp_all
  with k(2) show False by simp
qed

text \<open>Words four bytes apart do not touch\<close>

lemma longe:
  fixes a :: "32 word"
  assumes "4 \<le> \<bar>d\<bar>" "\<bar>d\<bar> < 2 ^ 31" "0 \<le> i" "i < 4" "0 \<le> j" "j < 4"
  shows "a + word_of_int d + word_of_int j \<noteq> a + word_of_int i"
proof
  assume "a + word_of_int d + word_of_int j = a + word_of_int i"
  then have "(word_of_int (d + j - i) :: 32 word) = 0" by (simp add: algebra_simps)
  moreover have "0 < \<bar>d + j - i\<bar>" "\<bar>d + j - i\<bar> < 2 ^ 32" using assms by auto
  ultimately show False using word_of_int_pequeno by blast
qed

lemma ler_grava_longe:
  assumes "4 \<le> \<bar>d\<bar>" "\<bar>d\<bar> < 2 ^ 31"
  shows "ler32 (grava32 m a w) (a + word_of_int d) = ler32 m (a + word_of_int d)"
proof -
  have "a + word_of_int d + word_of_int j \<noteq> a + word_of_int i" if "j \<in> {0, 1, 2, 3}" "i \<in> {0, 1, 2, 3}" for i j
    by (rule longe) (use assms that in auto)
  from this[of 0 0] this[of 0 1] this[of 0 2] this[of 0 3] this[of 1 0] this[of 1 1] this[of 1 2] this[of 1 3]
    this[of 2 0] this[of 2 1] this[of 2 2] this[of 2 3] this[of 3 0] this[of 3 1] this[of 3 2] this[of 3 3]
  show ?thesis by (simp add: ler32_def grava32_def)
qed

section \<open>Code in memory\<close>

definition area :: "32 word \<Rightarrow> nat \<Rightarrow> 32 word set" where
  "area B n = {B + of_nat i | i. i < n}"

lemma em_append [simp]: "em m a (xs @ ys) \<longleftrightarrow> em m a xs \<and> em m (a + of_nat (length xs)) ys"
  by (induction xs arbitrary: a) (auto simp: ac_simps)

lemma em_outro:
  "(\<And>p. p \<in> area a (length bs) \<Longrightarrow> m' p = m p) \<Longrightarrow> em m' a bs = em m a bs"
proof (induction bs arbitrary: a)
  case Nil
  then show ?case by simp
next
  case (Cons b bs)
  have "a \<in> area a (length (b # bs))" by (auto simp: area_def intro: exI[of _ 0])
  moreover have "area (a + 1) (length bs) \<subseteq> area a (length (b # bs))"
  proof
    fix p assume "p \<in> area (a + 1) (length bs)"
    then obtain i where "p = a + 1 + of_nat i" "i < length bs" by (auto simp: area_def)
    then show "p \<in> area a (length (b # bs))" by (auto simp: area_def intro!: exI[of _ "Suc i"])
  qed
  ultimately show ?case using Cons.IH[of "a + 1"] Cons.prems by auto
qed

text \<open>The code \<open>c\<close> starts at the instruction pointer, within the code \<open>cod\<close> at \<open>B\<close>.\<close>

definition aponta :: "32 word \<Rightarrow> byte list \<Rightarrow> ia32 \<Rightarrow> byte list \<Rightarrow> bool" where
  "aponta B cod s c \<longleftrightarrow> (\<exists>pre pos. cod = pre @ c @ pos \<and> eip s = B + of_nat (length pre))"

lemma aponta_em: "aponta B cod s c \<Longrightarrow> em (mem s) B cod \<Longrightarrow> em (mem s) (eip s) c"
  by (auto simp: aponta_def)

lemma aponta_area: "aponta B cod s c \<Longrightarrow> c \<noteq> [] \<Longrightarrow> eip s \<in> area B (length cod)"
  by (auto simp: aponta_def area_def)

lemma aponta_prefixo: "aponta B cod s (c @ d) \<Longrightarrow> aponta B cod s c"
  by (auto simp: aponta_def)

lemma aponta_adiante:
  assumes "aponta B cod s (c @ d)" "eip t = eip s + of_nat (length c)"
  shows "aponta B cod t d"
proof -
  from assms(1) obtain pre pos where "cod = pre @ (c @ d) @ pos" "eip s = B + of_nat (length pre)"
    by (auto simp: aponta_def)
  then have "cod = (pre @ c) @ d @ pos" "eip t = B + of_nat (length (pre @ c))" using assms(2) by simp_all
  then show ?thesis unfolding aponta_def by blast
qed

lemma aponta_mesmo: "aponta B cod s c \<Longrightarrow> eip t = eip s \<Longrightarrow> aponta B cod t c"
  by (simp add: aponta_def)

section \<open>Runs\<close>

text \<open>\<open>n\<close> steps, all of them from within \<open>D\<close>; and the run that leaves \<open>D\<close>\<close>

definition anda :: "(ia32 \<Rightarrow> ia32) \<Rightarrow> 32 word set \<Rightarrow> nat \<Rightarrow> ia32 \<Rightarrow> ia32 \<Rightarrow> bool" where
  "anda passo D n s t \<longleftrightarrow> t = (passo ^^ n) s \<and> (\<forall>k < n. eip ((passo ^^ k) s) \<in> D)"

definition deixa :: "(ia32 \<Rightarrow> ia32) \<Rightarrow> 32 word set \<Rightarrow> nat \<Rightarrow> ia32 \<Rightarrow> ia32 \<Rightarrow> bool" where
  "deixa passo D n s t \<longleftrightarrow> anda passo D n s t \<and> eip t \<notin> D"

lemma anda_0: "anda passo D 0 s s"
  by (simp add: anda_def)

lemma anda_1: "eip s \<in> D \<Longrightarrow> anda passo D 1 s (passo s)"
  by (simp add: anda_def)

lemma anda_mais: "anda passo D m s t \<Longrightarrow> anda passo D n t u \<Longrightarrow> anda passo D (m + n) s u"
proof -
  assume a: "anda passo D m s t" "anda passo D n t u"
  have "(passo ^^ (m + n)) s = (passo ^^ n) ((passo ^^ m) s)" by (simp add: add.commute[of m] funpow_add)
  moreover have "eip ((passo ^^ k) s) \<in> D" if "k < m + n" for k
  proof (cases "k < m")
    case True
    then show ?thesis using a(1) by (simp add: anda_def)
  next
    case False
    then have "(passo ^^ k) s = (passo ^^ (k - m)) ((passo ^^ m) s)" using funpow_add[of "k - m" m passo] by simp
    then show ?thesis using a False that by (simp add: anda_def)
  qed
  ultimately show ?thesis using a by (simp add: anda_def)
qed

lemma deixa_anda:
  assumes "deixa passo D n s t" "anda passo D k s u"
  shows "k \<le> n" "deixa passo D (n - k) u t"
proof -
  show k: "k \<le> n" using assms by (auto simp: deixa_def anda_def intro: leI)
  have "(passo ^^ (i + k)) s = (passo ^^ i) u" for i using assms(2) by (simp add: anda_def funpow_add)
  from this[of "n - k"] this k assms show "deixa passo D (n - k) u t"
    by (auto simp: deixa_def anda_def) (metis less_diff_conv)
qed

section \<open>Programs and machine\<close>

text \<open>The place of a variable: with \<open>E\<close> the stack pointer at the entry, the base pointer is \<open>E - 4\<close>.\<close>

definition lugar :: "32 word \<Rightarrow> sb_var \<Rightarrow> 32 word" where
  "lugar E x = E - 4 + word_of_int (desl x)"

definition pilha :: "32 word \<Rightarrow> 32 word set" where
  "pilha E = {E + word_of_int k | k. - 44 \<le> k \<and> k < 24}"

text \<open>
  The state of the machine inside the function: base and stack pointer, the code \<open>cod\<close> at \<open>B\<close>, the return
  address \<open>R\<close>, the caller's base pointer \<open>old\<close>, the memory \<open>m0\<close> around the stack and the variables.
\<close>

definition quadro ::
    "32 word \<Rightarrow> byte list \<Rightarrow> 32 word \<Rightarrow> 32 word \<Rightarrow> 32 word \<Rightarrow> (32 word \<Rightarrow> byte) \<Rightarrow> sb_mem \<Rightarrow> ia32 \<Rightarrow> bool" where
  "quadro B cod E R old m0 st s \<longleftrightarrow> ebp s = E - 4 \<and> em (mem s) B cod \<and> ler32 (mem s) E = R \<and>
     ler32 (mem s) (E - 4) = old \<and> (\<forall>p. p \<notin> pilha E \<longrightarrow> mem s p = m0 p) \<and> (\<forall>x. var_valida x \<longrightarrow> ler32 (mem s) (lugar E x) = st x)"

definition sb_inicio :: "ia32 \<Rightarrow> sb_mem" where
  "sb_inicio s = (\<lambda>x. ler32 (mem s) (lugar (esp s) x))"

definition sb_retorna :: "ia32 \<Rightarrow> sb_mem \<Rightarrow> ia32 \<Rightarrow> bool" where
  "sb_retorna s st' t \<longleftrightarrow>
     eip t = ler32 (mem s) (esp s) \<and> esp t = esp s + 4 \<and> ebp t = ebp s \<and> eax t = st' (V 0) \<and>
     (\<forall>p. p \<notin> pilha (esp s) \<longrightarrow> mem t p = mem s p)"

lemma desl_limites:
  "var_valida x \<Longrightarrow> (8 \<le> desl x \<and> desl x \<le> 24 \<or> - 40 \<le> desl x \<and> desl x \<le> - 4) \<and> desl x mod 4 = 0"
  by (cases x; simp; presburger)

lemma scast_desl: "var_valida x \<Longrightarrow> scast (byte_desl x) = (word_of_int (desl x) :: 32 word)"
proof -
  assume "var_valida x"
  then have "- 128 \<le> desl x" "desl x < 128" using desl_limites[of x] by auto
  then have "sint (byte_desl x) = desl x" unfolding byte_desl_def by (simp add: sint_sbintrunc' signed_take_bit_int_eq_self)
  then show ?thesis by (simp add: scast_eq)
qed

lemma lugar_ebp: "quadro B cod E R old m0 st s \<Longrightarrow> var_valida x \<Longrightarrow> ebp s + scast (byte_desl x) = lugar E x"
  by (simp add: quadro_def lugar_def scast_desl)

lemma desl_igual: "desl x = desl y \<Longrightarrow> x = y"
  by (cases x; cases y) auto

text \<open>Storing a variable changes nothing else\<close>

lemma quadro_grava:
  assumes q: "quadro B cod E R old m0 st s" and x: "var_valida x" and d: "pilha E \<inter> area B (length cod) = {}"
    and t: "mem t = grava32 (mem s) (lugar E x) w" "ebp t = ebp s"
  shows "quadro B cod E R old m0 (st(x := w)) t"
proof -
  note dx = desl_limites[OF x]
  have longe: "ler32 (mem t) (lugar E x + word_of_int k) = ler32 (mem s) (lugar E x + word_of_int k)"
    if "4 \<le> \<bar>k\<bar>" "\<bar>k\<bar> < 1000" for k
    unfolding t(1) by (rule ler_grava_longe) (use that in auto)
  have E: "E = lugar E x + word_of_int (4 - desl x)" "E - 4 = lugar E x + word_of_int (- desl x)"
    by (simp_all add: lugar_def)
  have "ler32 (mem t) E = ler32 (mem s) E" "ler32 (mem t) (E - 4) = ler32 (mem s) (E - 4)"
    using longe[of "4 - desl x"] longe[of "- desl x"] dx unfolding E[symmetric] by auto
  moreover have "ler32 (mem t) (lugar E y) = (if y = x then w else ler32 (mem s) (lugar E y))" if y: "var_valida y" for y
  proof (cases "y = x")
    case True
    then show ?thesis by (simp add: t(1))
  next
    case False
    have "4 dvd desl y - desl x" using desl_limites[OF y] dx by presburger
    moreover have "desl y - desl x \<noteq> 0" using False desl_igual by auto
    ultimately have "4 \<le> \<bar>desl y - desl x\<bar>" using zdvd_imp_le[of 4 "\<bar>desl y - desl x\<bar>"] by simp
    moreover have "\<bar>desl y - desl x\<bar> < 1000" using desl_limites[OF y] dx by auto
    moreover have "lugar E y = lugar E x + word_of_int (desl y - desl x)" by (simp add: lugar_def)
    ultimately show ?thesis using False longe[of "desl y - desl x"] by simp
  qed
  moreover have fora: "mem t p = mem s p" if "p \<notin> pilha E" for p
  proof -
    have "lugar E x + word_of_int i \<in> pilha E" if "0 \<le> i" "i < 4" for i
      using dx that unfolding pilha_def lugar_def by (auto intro!: exI[of _ "desl x + i - 4"])
    from this[of 0] this[of 1] this[of 2] this[of 3] have "p \<notin> {lugar E x, lugar E x + 1, lugar E x + 2, lugar E x + 3}"
      using that by auto
    then show ?thesis by (simp add: t(1) grava32_def)
  qed
  moreover have "em (mem t) B cod"
  proof -
    have "mem t p = mem s p" if "p \<in> area B (length cod)" for p by (rule fora) (use that d in blast)
    then show ?thesis using q em_outro[of B cod "mem t" "mem s"] by (simp add: quadro_def)
  qed
  ultimately show ?thesis using q t(2) by (simp add: quadro_def)
qed

lemma quadro_igual:
  "quadro B cod E R old m0 st s \<Longrightarrow> mem t = mem s \<Longrightarrow> ebp t = ebp s \<Longrightarrow> quadro B cod E R old m0 st t"
  by (simp add: quadro_def)

lemma quadro_em: "quadro B cod E R old m0 st s \<Longrightarrow> aponta B cod s (c @ d) \<Longrightarrow> em (mem s) (eip s) c"
  using aponta_em[of B cod s "c @ d"] by (simp add: quadro_def)

context ia32_laws
begin

section \<open>A line of the program\<close>

lemma um_passo:
  assumes "aponta B cod s (c @ d)" "c \<noteq> []" "eip (passo s) = eip s + of_nat (length c)"
  shows "anda passo (area B (length cod)) 1 s (passo s)" "aponta B cod (passo s) d"
proof -
  show "anda passo (area B (length cod)) 1 s (passo s)"
    by (rule anda_1) (use aponta_area[OF assms(1)] assms(2) in simp)
  show "aponta B cod (passo s) d" by (rule aponta_adiante[OF assms(1,3)])
qed

lemma mov_passo:
  assumes q: "quadro B cod E R old m0 st s" and a: "aponta B cod s (cod_mov a r @ d)" and v: "varpc_valida a"
  shows "passo s = (if r then s\<lparr>ecx := valor st a, eip := eip s + of_nat (length (cod_mov a r))\<rparr>
    else s\<lparr>edx := valor st a, eip := eip s + of_nat (length (cod_mov a r))\<rparr>)"
proof (cases a)
  case (Var x)
  have "ler32 (mem s) (ebp s + scast (byte_desl x)) = st x"
    using q v lugar_ebp[OF q, of x] by (simp add: Var quadro_def)
  then show ?thesis using quadro_em[OF q a] mov_mem_ecx[of s "byte_desl x"] mov_mem_edx[of s "byte_desl x"]
    by (cases r) (simp_all add: Var)
next
  case (Const c)
  then show ?thesis using quadro_em[OF q a] mov_imm_ecx[of s "word_of_int c"] mov_imm_edx[of s "word_of_int c"]
    by (cases r) simp_all
qed

lemma op_passo:
  assumes q: "quadro B cod E R old m0 st s" and a: "aponta B cod s (cod_op f @ d)"
    and r: "f \<noteq> Menos \<Longrightarrow> ecx s = u \<and> edx s = w" "f = Menos \<Longrightarrow> edx s = u \<and> ecx s = w"
  shows "\<exists>z. passo s = s\<lparr>edx := aplica f u w, zf := z, eip := eip s + of_nat (length (cod_op f))\<rparr>"
proof (cases f)
  case Mais
  then show ?thesis using quadro_em[OF q a] add_ecx_edx[of s] r(1) by (simp add: add.commute)
next
  case Menos
  then show ?thesis using quadro_em[OF q a] sub_ecx_edx[of s] r(2) by simp
next
  case Vezes
  then show ?thesis using quadro_em[OF q a] imul_ecx_edx[of s] r(1) by (simp add: mult.commute)
qed

lemma atrib_passos:
  assumes q: "quadro B cod E R old m0 st s" and a: "aponta B cod s (cod_atrib x a f b @ d)"
    and v: "var_valida x" "varpc_valida a" "varpc_valida b" and dis: "pilha E \<inter> area B (length cod) = {}"
  shows "\<exists>t. anda passo (area B (length cod)) 4 s t \<and>
    quadro B cod E R old m0 (st(x := aplica f (valor st a) (valor st b))) t \<and> aponta B cod t d \<and>
    eip t = eip s + of_nat (length (cod_atrib x a f b))"
proof -
  let ?D = "area B (length cod)" and ?r = "f \<noteq> Menos" and ?st = "[0x89, 0x55, byte_desl x]"
  let ?s1 = "passo s" and ?s2 = "passo (passo s)" and ?s3 = "passo (passo (passo s))" and ?s4 = "passo (passo (passo (passo s)))"
  have c1: "aponta B cod s (cod_mov a ?r @ cod_mov b (\<not> ?r) @ cod_op f @ ?st @ d)" using a by (simp add: cod_atrib_def)
  note 1 = mov_passo[OF q c1 v(2)]
  have n1: "cod_mov a r \<noteq> []" "cod_mov b r \<noteq> []" "cod_op f \<noteq> []" for r
    using length_cod_mov(2)[of a r] length_cod_mov(2)[of b r] by (auto, cases f, auto)
  have e1: "eip ?s1 = eip s + of_nat (length (cod_mov a ?r))" by (subst 1) simp
  have q1: "quadro B cod E R old m0 st ?s1" by (rule quadro_igual[OF q]) (subst 1, simp)+
  have c2: "aponta B cod ?s1 (cod_mov b (\<not> ?r) @ cod_op f @ ?st @ d)" by (rule um_passo(2)[OF c1 n1(1) e1])
  note 2 = mov_passo[OF q1 c2 v(3)]
  have e2: "eip ?s2 = eip ?s1 + of_nat (length (cod_mov b (\<not> ?r)))" by (subst 2) simp
  have q2: "quadro B cod E R old m0 st ?s2" by (rule quadro_igual[OF q1]) (subst 2, simp)+
  have c3: "aponta B cod ?s2 (cod_op f @ ?st @ d)" by (rule um_passo(2)[OF c2 n1(2) e2])
  have r1: "?r \<longrightarrow> ecx ?s1 = valor st a" "\<not> ?r \<longrightarrow> edx ?s1 = valor st a" by (subst 1, simp)+
  have "?r \<longrightarrow> edx ?s2 = valor st b" "\<not> ?r \<longrightarrow> ecx ?s2 = valor st b" by (subst 2, simp)+
  moreover have "?r \<longrightarrow> ecx ?s2 = ecx ?s1" "\<not> ?r \<longrightarrow> edx ?s2 = edx ?s1" by (subst 2, simp)+
  ultimately have "?r \<Longrightarrow> ecx ?s2 = valor st a \<and> edx ?s2 = valor st b" "\<not> ?r \<Longrightarrow> edx ?s2 = valor st a \<and> ecx ?s2 = valor st b"
    using r1 by auto
  then obtain z where 3: "?s3 = ?s2\<lparr>edx := aplica f (valor st a) (valor st b), zf := z, eip := eip ?s2 + of_nat (length (cod_op f))\<rparr>"
    using op_passo[OF q2 c3, of "valor st a" "valor st b"] by auto
  have e3: "eip ?s3 = eip ?s2 + of_nat (length (cod_op f))" by (subst 3) simp
  have q3: "quadro B cod E R old m0 st ?s3" by (rule quadro_igual[OF q2]) (subst 3, simp)+
  have c4: "aponta B cod ?s3 (?st @ d)" by (rule um_passo(2)[OF c3 n1(3) e3])
  have "edx ?s3 = aplica f (valor st a) (valor st b)" by (subst 3) simp
  then have 4: "?s4 = ?s3\<lparr>mem := grava32 (mem ?s3) (lugar E x) (aplica f (valor st a) (valor st b)), eip := eip ?s3 + 3\<rparr>"
    using quadro_em[OF q3 c4] mov_edx_mem[of ?s3 "byte_desl x"] lugar_ebp[OF q3 v(1)] by simp
  have e4: "eip ?s4 = eip ?s3 + of_nat (length ?st)" by (subst 4) simp
  have "quadro B cod E R old m0 (st(x := aplica f (valor st a) (valor st b))) ?s4"
    by (rule quadro_grava[OF q3 v(1) dis]) (subst 4, simp)+
  moreover have "anda passo ?D (1 + (1 + (1 + 1))) s ?s4"
  proof -
    have "anda passo ?D 1 ?s3 ?s4" by (rule um_passo(1)[OF c4 _ e4]) simp
    from anda_mais[OF um_passo(1)[OF c1 n1(1) e1] anda_mais[OF um_passo(1)[OF c2 n1(2) e2]
      anda_mais[OF um_passo(1)[OF c3 n1(3) e3] this]]]
    show ?thesis .
  qed
  moreover have "aponta B cod ?s4 d" by (rule um_passo(2)[OF c4 _ e4]) simp
  moreover have "eip ?s4 = eip s + of_nat (length (cod_atrib x a f b))"
    unfolding e4 e3 e2 e1 by (simp add: cod_atrib_def)
  ultimately show ?thesis by (auto simp: numeral_eq_Suc)
qed

text \<open>The test of a loop: over its end when the variable is zero, into the body otherwise\<close>

lemma teste_passos:
  assumes q: "quadro B cod E R old m0 st s" and a: "aponta B cod s (cod_teste x w @ d)" and v: "var_valida x"
  shows "\<exists>t. anda passo (area B (length cod)) 2 s t \<and> quadro B cod E R old m0 st t \<and>
    eip t = eip s + 10 + (if st x = 0 then w else 0)"
proof -
  let ?c1 = "[0x83, 0x7d, byte_desl x, 0x00]" and ?c2 = "[0x0f, 0x84] @ bytes32 w"
  have c1: "aponta B cod s (?c1 @ ?c2 @ d)" using a by (simp add: cod_teste_def)
  have "ler32 (mem s) (ebp s + scast (byte_desl x)) = st x" using q v lugar_ebp[OF q v] by (simp add: quadro_def)
  then have 1: "passo s = s\<lparr>zf := (st x = 0), eip := eip s + 4\<rparr>"
    using quadro_em[OF q c1] cmp_zero_mem[of s "byte_desl x"] by simp
  have q1: "quadro B cod E R old m0 st (passo s)" by (rule quadro_igual[OF q]) (simp_all add: 1)
  have e1: "eip (passo s) = eip s + of_nat (length ?c1)" "zf (passo s) = (st x = 0)" by (simp_all add: 1)
  note um = um_passo[OF c1 _ e1(1)]
  have c2: "aponta B cod (passo s) (?c2 @ d)" by (rule um(2)) simp
  have 2: "passo (passo s) = (passo s)\<lparr>eip := eip (passo s) + 6 + (if zf (passo s) then w else 0)\<rparr>"
    by (rule je[OF quadro_em[OF q1 c2]])
  have "anda passo (area B (length cod)) 1 (passo s) (passo (passo s))"
    by (rule anda_1) (use aponta_area[OF c2] in simp)
  moreover have "anda passo (area B (length cod)) 1 s (passo s)" by (rule um(1)) simp
  ultimately have "anda passo (area B (length cod)) (1 + 1) s (passo (passo s))" using anda_mais by blast
  moreover have "quadro B cod E R old m0 st (passo (passo s))" by (rule quadro_igual[OF q1]; subst 2; simp)
  moreover have "eip (passo (passo s)) = eip s + 10 + (if st x = 0 then w else 0)" by (subst 2) (simp add: e1)
  ultimately show ?thesis by (auto simp: numeral_2_eq_2)
qed

lemma volta_passo:
  assumes q: "quadro B cod E R old m0 st s" and a: "aponta B cod s (cod_volta w @ d)"
  shows "anda passo (area B (length cod)) 1 s (passo s)" "quadro B cod E R old m0 st (passo s)" "eip (passo s) = eip s + 5 + w"
proof -
  have 1: "passo s = s\<lparr>eip := eip s + 5 + w\<rparr>" using quadro_em[OF q a] unfolding cod_volta_def by (rule jmp)
  show "anda passo (area B (length cod)) 1 s (passo s)" using aponta_area[OF a] by (intro anda_1) (simp add: cod_volta_def)
  show "quadro B cod E R old m0 st (passo s)" by (rule quadro_igual[OF q]) (simp_all add: 1)
  show "eip (passo s) = eip s + 5 + w" by (simp add: 1)
qed

section \<open>Whole programs\<close>

text \<open>The three places of a loop: its start, its body and what follows it\<close>

lemma laco_entra:
  assumes q: "quadro B cod E R old m0 st s" and a: "aponta B cod s (sb_codigo (Enquanto x b # cs) @ d)"
    and v: "var_valida x" and nz: "st x \<noteq> 0"
  shows "\<exists>t. anda passo (area B (length cod)) 2 s t \<and> quadro B cod E R old m0 st t \<and> eip t = eip s + 10 \<and>
    aponta B cod t (sb_codigo b @ cod_volta (word_of_int (- int (length (sb_codigo b)) - 15)) @ sb_codigo cs @ d)"
proof -
  let ?w = "word_of_int (int (length (sb_codigo b)) + 5)"
  have a': "aponta B cod s (cod_teste x ?w @ sb_codigo b @ cod_volta (word_of_int (- int (length (sb_codigo b)) - 15)) @ sb_codigo cs @ d)"
    using a by (simp add: Let_def)
  obtain t where t: "anda passo (area B (length cod)) 2 s t" "quadro B cod E R old m0 st t" "eip t = eip s + 10"
    using teste_passos[OF q a' v] nz by auto
  then have "eip t = eip s + of_nat (length (cod_teste x ?w))" by simp
  from aponta_adiante[OF a' this] t show ?thesis by blast
qed

lemma laco_sai:
  assumes q: "quadro B cod E R old m0 st s" and a: "aponta B cod s (sb_codigo (Enquanto x b # cs) @ d)"
    and v: "var_valida x" and z: "st x = 0"
  shows "\<exists>t. anda passo (area B (length cod)) 2 s t \<and> quadro B cod E R old m0 st t \<and> aponta B cod t (sb_codigo cs @ d) \<and>
    eip t + of_nat (length (sb_codigo cs)) = eip s + of_nat (length (sb_codigo (Enquanto x b # cs)))"
proof -
  let ?w = "word_of_int (int (length (sb_codigo b)) + 5)" and ?v = "word_of_int (- int (length (sb_codigo b)) - 15)"
  have a': "aponta B cod s ((cod_teste x ?w @ sb_codigo b @ cod_volta ?v) @ sb_codigo cs @ d)"
    using a by (simp add: Let_def)
  obtain t where t: "anda passo (area B (length cod)) 2 s t" "quadro B cod E R old m0 st t" "eip t = eip s + 10 + ?w"
    using teste_passos[OF q _ v, of ?w "sb_codigo b @ cod_volta ?v @ sb_codigo cs @ d"] a z by (auto simp: Let_def)
  then have "eip t = eip s + of_nat (length (cod_teste x ?w @ sb_codigo b @ cod_volta ?v))" by (simp add: algebra_simps)
  from aponta_adiante[OF a' this] t this show ?thesis by (auto simp: Let_def)
qed

lemma laco_repete:
  assumes q: "quadro B cod E R old m0 st u" and a: "aponta B cod s (sb_codigo (Enquanto x b # cs) @ d)"
    and u: "aponta B cod u (cod_volta (word_of_int (- int (length (sb_codigo b)) - 15)) @ sb_codigo cs @ d)"
    "eip u = eip s + 10 + of_nat (length (sb_codigo b))"
  shows "anda passo (area B (length cod)) 1 u (passo u)" "quadro B cod E R old m0 st (passo u)"
    "aponta B cod (passo u) (sb_codigo (Enquanto x b # cs) @ d)"
proof -
  note v = volta_passo[OF q u(1)]
  show "anda passo (area B (length cod)) 1 u (passo u)" "quadro B cod E R old m0 st (passo u)" by (rule v)+
  have "eip (passo u) = eip s" using v(3) u(2) by simp
  then show "aponta B cod (passo u) (sb_codigo (Enquanto x b # cs) @ d)" by (rule aponta_mesmo[OF a])
qed

text \<open>What the program does, the machine does.\<close>

lemma sb_frente:
  assumes "sb_exec cs st st'" "quadro B cod E R old m0 st s" "aponta B cod s (sb_codigo cs @ d)" "sb_valido cs"
    and dis: "pilha E \<inter> area B (length cod) = {}"
  shows "\<exists>n t. anda passo (area B (length cod)) n s t \<and> quadro B cod E R old m0 st' t \<and> aponta B cod t d \<and>
    eip t = eip s + of_nat (length (sb_codigo cs))"
  using assms(1-4)
proof (induction arbitrary: s d rule: sb_exec.induct)
  case (fim st)
  then show ?case using anda_0 by fastforce
next
  case (atrib cs st x f a b st')
  then have "aponta B cod s (cod_atrib x a f b @ sb_codigo cs @ d)" by simp
  from atrib_passos[OF atrib.prems(1) this _ _ _ dis] atrib.prems(3) obtain t where
    t: "anda passo (area B (length cod)) 4 s t" "quadro B cod E R old m0 (st(x := aplica f (valor st a) (valor st b))) t"
    "aponta B cod t (sb_codigo cs @ d)" "eip t = eip s + of_nat (length (cod_atrib x a f b))" by auto
  from atrib.IH[OF t(2,3)] atrib.prems(3) obtain n u where
    "anda passo (area B (length cod)) n t u" "quadro B cod E R old m0 st' u" "aponta B cod u d"
    "eip u = eip t + of_nat (length (sb_codigo cs))" by auto
  with t show ?case using anda_mais[OF t(1)] by (fastforce simp: add.assoc)
next
  case (sai st x cs st' b)
  then obtain t where t: "anda passo (area B (length cod)) 2 s t" "quadro B cod E R old m0 st t" "aponta B cod t (sb_codigo cs @ d)"
    "eip t + of_nat (length (sb_codigo cs)) = eip s + of_nat (length (sb_codigo (Enquanto x b # cs)))"
    using laco_sai[OF sai.prems(1,2) _ sai.hyps(1)] by auto
  from sai.IH[OF t(2,3)] sai.prems(3) obtain n u where
    "anda passo (area B (length cod)) n t u" "quadro B cod E R old m0 st' u" "aponta B cod u d"
    "eip u = eip t + of_nat (length (sb_codigo cs))" by auto
  with t show ?case using anda_mais[OF t(1)] by metis
next
  case (entra st x b st1 cs st')
  let ?v = "cod_volta (word_of_int (- int (length (sb_codigo b)) - 15))"
  obtain t where t: "anda passo (area B (length cod)) 2 s t" "quadro B cod E R old m0 st t" "eip t = eip s + 10"
    "aponta B cod t (sb_codigo b @ ?v @ sb_codigo cs @ d)"
    using laco_entra[OF entra.prems(1,2) _ entra.hyps(1)] entra.prems(3) by auto
  from entra.IH(1)[OF t(2,4)] entra.prems(3) obtain n u where u: "anda passo (area B (length cod)) n t u"
    "quadro B cod E R old m0 st1 u" "aponta B cod u (?v @ sb_codigo cs @ d)" "eip u = eip t + of_nat (length (sb_codigo b))" by auto
  have "eip u = eip s + 10 + of_nat (length (sb_codigo b))" using u(4) t(3) by simp
  note r = laco_repete[OF u(2) entra.prems(2) u(3) this]
  from entra.IH(2)[OF r(2,3) entra.prems(3)] obtain k w where w: "anda passo (area B (length cod)) k (passo u) w"
    "quadro B cod E R old m0 st' w" "aponta B cod w d" "eip w = eip (passo u) + of_nat (length (sb_codigo (Enquanto x b # cs)))" by auto
  have "eip (passo u) = eip s" using volta_passo(3)[OF u(2,3)] u(4) t(3) by simp
  with w anda_mais[OF t(1) anda_mais[OF u(1) anda_mais[OF r(1) w(1)]]] show ?case by metis
qed

text \<open>And what the machine does before it leaves, the program does.\<close>

lemma sb_volta:
  assumes "deixa passo (area B (length cod)) n s t" "quadro B cod E R old m0 st s" "aponta B cod s (sb_codigo cs @ d)"
    "sb_valido cs" "d \<noteq> []" and dis: "pilha E \<inter> area B (length cod) = {}"
  shows "\<exists>st'. sb_exec cs st st'"
  using assms(1-5)
proof (induction n arbitrary: s st cs d rule: less_induct)
  case (less n)
  let ?D = "area B (length cod)"
  show ?case
  proof (cases cs rule: sb_codigo.cases)
    case 1
    then show ?thesis using sb_exec.fim by blast
  next
    case (2 x a f b cs')
    then have "aponta B cod s (cod_atrib x a f b @ sb_codigo cs' @ d)" using less.prems(3) by simp
    from atrib_passos[OF less.prems(2) this _ _ _ dis] less.prems(4) 2 obtain u where u: "anda passo ?D 4 s u"
      "quadro B cod E R old m0 (st(x := aplica f (valor st a) (valor st b))) u" "aponta B cod u (sb_codigo cs' @ d)" by auto
    note k = deixa_anda[OF less.prems(1) u(1)]
    have "n - 4 < n" "sb_valido cs'" using k(1) less.prems(4) 2 by simp_all
    from less.IH[OF this(1) k(2) u(2,3) this(2) less.prems(5)] show ?thesis unfolding 2 by (blast intro: sb_exec.atrib)
  next
    case (3 x b cs')
    note a = less.prems(3)[unfolded 3]
    have v: "var_valida x" "sb_valido b" "sb_valido cs'" using less.prems(4) 3 by simp_all
    show ?thesis
    proof (cases "st x = 0")
      case True
      obtain u where u: "anda passo ?D 2 s u" "quadro B cod E R old m0 st u" "aponta B cod u (sb_codigo cs' @ d)"
        using laco_sai[OF less.prems(2) a v(1) True] by blast
      note k = deixa_anda[OF less.prems(1) u(1)]
      have "n - 2 < n" using k(1) by simp
      from less.IH[OF this k(2) u(2,3) v(3) less.prems(5)] True show ?thesis unfolding 3 by (blast intro: sb_exec.sai)
    next
      case False
      let ?v = "cod_volta (word_of_int (- int (length (sb_codigo b)) - 15))"
      obtain u where u: "anda passo ?D 2 s u" "quadro B cod E R old m0 st u" "eip u = eip s + 10"
        "aponta B cod u (sb_codigo b @ ?v @ sb_codigo cs' @ d)" using laco_entra[OF less.prems(2) a v(1) False] by blast
      note k = deixa_anda[OF less.prems(1) u(1)]
      have "n - 2 < n" "?v @ sb_codigo cs' @ d \<noteq> []" using k(1) less.prems(5) by simp_all
      from less.IH[OF this(1) k(2) u(2,4) v(2) this(2)] obtain st1 where b: "sb_exec b st st1" by blast
      from sb_frente[OF b u(2,4) v(2) dis] obtain m w where w: "anda passo ?D m u w" "quadro B cod E R old m0 st1 w"
        "aponta B cod w (?v @ sb_codigo cs' @ d)" "eip w = eip u + of_nat (length (sb_codigo b))" by blast
      have "eip w = eip s + 10 + of_nat (length (sb_codigo b))" using w(4) u(3) by simp
      note r = laco_repete[OF w(2) a w(3) this]
      note k' = deixa_anda[OF less.prems(1) anda_mais[OF u(1) anda_mais[OF w(1) r(1)]]]
      have "n - (2 + (m + 1)) < n" using k'(1) by simp
      from less.IH[OF this k'(2) r(2,3)] less.prems(4,5) 3 obtain st' where "sb_exec (Enquanto x b # cs') st1 st'" by blast
      with b False show ?thesis unfolding 3 by (blast intro: sb_exec.entra)
    qed
  qed
qed

section \<open>Entry and return\<close>

lemma entrada:
  assumes c: "em (mem s) (eip s) cod" "cod = prologo @ c" and dis: "pilha (esp s) \<inter> area (eip s) (length cod) = {}"
  shows "\<exists>t. anda passo (area (eip s) (length cod)) 3 s t \<and> aponta (eip s) cod t c \<and>
    quadro (eip s) cod (esp s) (ler32 (mem s) (esp s)) (ebp s) (mem s) (\<lambda>x. ler32 (mem s) (lugar (esp s) x)) t"
proof -
  let ?B = "eip s" and ?E = "esp s" and ?D = "area (eip s) (length cod)"
  let ?m = "grava32 (mem s) (?E - 4) (ebp s)"
  have a0: "aponta ?B cod s ([0x55] @ [0x89, 0xe5] @ [0x83, 0xec, 0x28] @ c)"
    unfolding aponta_def by (rule exI[of _ "[]"], rule exI[of _ "[]"]) (simp add: c(2) prologo_def)
  have fora: "?m p = mem s p" if "p \<notin> pilha ?E" for p
  proof -
    have "?E - 4 + word_of_int i \<in> pilha ?E" if "0 \<le> i" "i < 4" for i
      using that unfolding pilha_def by (auto intro!: exI[of _ "i - 4"])
    from this[of 0] this[of 1] this[of 2] this[of 3] have "p \<notin> {?E - 4, ?E - 4 + 1, ?E - 4 + 2, ?E - 4 + 3}"
      using that by auto
    then show ?thesis by (simp add: grava32_def)
  qed
  have m: "em ?m ?B cod"
  proof -
    have "?m p = mem s p" if "p \<in> ?D" for p by (rule fora) (use that dis in blast)
    then show ?thesis using c(1) em_outro[of ?B cod ?m "mem s"] by simp
  qed
  have 1: "passo s = s\<lparr>esp := ?E - 4, mem := ?m, eip := ?B + 1\<rparr>"
    by (rule push_ebp) (rule aponta_em[OF aponta_prefixo[OF a0] c(1)])
  have e1: "eip (passo s) = eip s + of_nat (length [0x55 :: byte])" and m1: "mem (passo s) = ?m" by (simp_all add: 1)
  have a1: "aponta ?B cod (passo s) ([0x89, 0xe5] @ [0x83, 0xec, 0x28] @ c)" by (rule um_passo(2)[OF a0 _ e1]) simp
  have 2: "passo (passo s) = (passo s)\<lparr>ebp := esp (passo s), eip := eip (passo s) + 2\<rparr>"
    by (rule mov_esp_ebp) (rule aponta_em[OF aponta_prefixo[OF a1]], simp only: m1 m)
  have e2: "eip (passo (passo s)) = eip (passo s) + of_nat (length [0x89, 0xe5 :: byte])" by (subst 2) simp
  have m2: "mem (passo (passo s)) = ?m" "ebp (passo (passo s)) = ?E - 4" by (subst 2, simp add: 1)+
  have a2: "aponta ?B cod (passo (passo s)) ([0x83, 0xec, 0x28] @ c)" by (rule um_passo(2)[OF a1 _ e2]) simp
  let ?t = "passo (passo (passo s))"
  obtain z where 3: "?t = (passo (passo s))\<lparr>esp := esp (passo (passo s)) - scast (0x28 :: byte), zf := z, eip := eip (passo (passo s)) + 3\<rparr>"
    using sub_esp[of "passo (passo s)" "0x28"] aponta_em[OF aponta_prefixo[OF a2]] m m2(1) by auto
  have e3: "eip ?t = eip (passo (passo s)) + of_nat (length [0x83, 0xec, 0x28 :: byte])" by (subst 3) simp
  have m3: "mem ?t = ?m" "ebp ?t = ?E - 4" by (subst 3, simp add: m2)+
  have a3: "aponta ?B cod ?t c" by (rule um_passo(2)[OF a2 _ e3]) simp
  have "ler32 ?m (?E - 4 + word_of_int k) = ler32 (mem s) (?E - 4 + word_of_int k)" if "4 \<le> \<bar>k\<bar>" "\<bar>k\<bar> < 1000" for k
    by (rule ler_grava_longe) (use that in auto)
  note longe = this this[of 4, simplified]
  have "ler32 ?m (lugar ?E x) = ler32 (mem s) (lugar ?E x)" if "var_valida x" for x
    unfolding lugar_def using desl_limites[OF that] by (intro longe(1)) auto
  then have "quadro ?B cod ?E (ler32 (mem s) ?E) (ebp s) (mem s) (\<lambda>x. ler32 (mem s) (lugar ?E x)) ?t"
    using m longe(2) fora by (simp add: quadro_def m3)
  moreover have "anda passo ?D 1 (passo (passo s)) ?t" by (rule um_passo(1)[OF a2 _ e3]) simp
  moreover have "anda passo ?D 1 (passo s) (passo (passo s))" by (rule um_passo(1)[OF a1 _ e2]) simp
  moreover have "anda passo ?D 1 s (passo s)" by (rule um_passo(1)[OF a0 _ e1]) simp
  ultimately have "anda passo ?D (1 + (1 + 1)) s ?t" using anda_mais by blast
  then show ?thesis using a3 \<open>quadro _ _ _ _ _ _ _ ?t\<close> by (auto simp: numeral_eq_Suc)
qed

lemma retorno:
  assumes q: "quadro B cod E R old m0 st s" and a: "aponta B cod s finalizacao" and R: "R \<notin> area B (length cod)"
  shows "\<exists>t. deixa passo (area B (length cod)) 4 s t \<and> eip t = R \<and> esp t = E + 4 \<and> ebp t = old \<and> eax t = st (V 0) \<and>
    (\<forall>p. p \<notin> pilha E \<longrightarrow> mem t p = m0 p)"
proof -
  let ?D = "area B (length cod)"
  have a0: "aponta B cod s ([0x8b, 0x45, byte_desl (V 0)] @ [0x89, 0xec] @ [0x5d] @ [0xc3] @ [])"
  proof -
    have "byte_desl (V 0) = 0xfc" by (simp add: byte_desl_def)
    then show ?thesis using a by (simp add: finalizacao_def)
  qed
  have em: "em (mem s) B cod" "ebp s = E - 4" "ler32 (mem s) E = R" "ler32 (mem s) (E - 4) = old" using q by (simp_all add: quadro_def)
  have "ler32 (mem s) (ebp s + scast (byte_desl (V 0))) = st (V 0)" using q lugar_ebp[OF q, of "V 0"] by (simp add: quadro_def)
  then have 1: "passo s = s\<lparr>eax := st (V 0), eip := eip s + 3\<rparr>"
    using mov_mem_eax[OF aponta_em[OF aponta_prefixo[OF a0] em(1)]] by simp
  have e1: "eip (passo s) = eip s + of_nat (length [0x8b, 0x45, byte_desl (V 0)])" by (simp add: 1)
  have m1: "mem (passo s) = mem s" "ebp (passo s) = E - 4" "eax (passo s) = st (V 0)" by (simp_all add: 1 em)
  have a1: "aponta B cod (passo s) ([0x89, 0xec] @ [0x5d] @ [0xc3] @ [])" by (rule um_passo(2)[OF a0 _ e1]) simp
  have 2: "passo (passo s) = (passo s)\<lparr>esp := ebp (passo s), eip := eip (passo s) + 2\<rparr>"
    by (rule mov_ebp_esp) (rule aponta_em[OF aponta_prefixo[OF a1]], simp only: m1 em)
  have e2: "eip (passo (passo s)) = eip (passo s) + of_nat (length [0x89, 0xec :: byte])" by (subst 2) simp
  have m2: "mem (passo (passo s)) = mem s" "esp (passo (passo s)) = E - 4" "eax (passo (passo s)) = st (V 0)" by (subst 2, simp add: m1)+
  have a2: "aponta B cod (passo (passo s)) ([0x5d] @ [0xc3] @ [])" by (rule um_passo(2)[OF a1 _ e2]) simp
  let ?u = "passo (passo (passo s))"
  have 3: "?u = (passo (passo s))\<lparr>ebp := ler32 (mem (passo (passo s))) (esp (passo (passo s))), esp := esp (passo (passo s)) + 4, eip := eip (passo (passo s)) + 1\<rparr>"
    by (rule pop_ebp) (rule aponta_em[OF aponta_prefixo[OF a2]], simp only: m2 em)
  have e3: "eip ?u = eip (passo (passo s)) + of_nat (length [0x5d :: byte])" by (subst 3) simp
  have m3: "mem ?u = mem s" "esp ?u = E" "ebp ?u = old" "eax ?u = st (V 0)" by (subst 3, simp add: m2 em)+
  have a3: "aponta B cod ?u ([0xc3] @ [])" by (rule um_passo(2)[OF a2 _ e3]) simp
  have 4: "passo ?u = ?u\<lparr>eip := ler32 (mem ?u) (esp ?u), esp := esp ?u + 4\<rparr>"
    by (rule ret) (rule aponta_em[OF aponta_prefixo[OF a3]], simp only: m3 em)
  have m4: "mem (passo ?u) = mem s" "eip (passo ?u) = R" "esp (passo ?u) = E + 4" "ebp (passo ?u) = old" "eax (passo ?u) = st (V 0)"
    by (subst 4, simp add: m3 em)+
  have "anda passo ?D 1 s (passo s)" by (rule um_passo(1)[OF a0 _ e1]) simp
  moreover have "anda passo ?D 1 (passo s) (passo (passo s))" by (rule um_passo(1)[OF a1 _ e2]) simp
  moreover have "anda passo ?D 1 (passo (passo s)) ?u" by (rule um_passo(1)[OF a2 _ e3]) simp
  moreover have "anda passo ?D 1 ?u (passo ?u)" using aponta_area[OF a3] by (intro anda_1) simp
  ultimately have "anda passo ?D (1 + (1 + (1 + 1))) s (passo ?u)" using anda_mais by blast
  then have "deixa passo ?D 4 s (passo ?u)" using m4(2) R by (simp add: deixa_def numeral_eq_Suc)
  moreover have "\<forall>p. p \<notin> pilha E \<longrightarrow> mem (passo ?u) p = m0 p" using q m4(1) by (simp add: quadro_def)
  ultimately show ?thesis using m4 by blast
qed

section \<open>A call\<close>

text \<open>
  The variables at the entry: the parameters where the caller put them, the locals whatever is on the stack
  below. At the return the caller goes on, with the value of \<open>v0\<close>.
\<close>

lemma chamada:
  assumes v: "sb_valido cs" and c: "em (mem s) (eip s) cod" "cod = sb_funcao cs"
    and dis: "pilha (esp s) \<inter> area (eip s) (length cod) = {}"
    and R: "ler32 (mem s) (esp s) \<notin> area (eip s) (length cod)"
  shows "sb_exec cs (sb_inicio s) st' \<Longrightarrow> \<exists>n t. deixa passo (area (eip s) (length cod)) n s t \<and> sb_retorna s st' t"
    and "deixa passo (area (eip s) (length cod)) n s t \<Longrightarrow> \<exists>st'. sb_exec cs (sb_inicio s) st'"
proof -
  let ?D = "area (eip s) (length cod)"
  obtain u where u: "anda passo ?D 3 s u" "aponta (eip s) cod u (sb_codigo cs @ finalizacao)"
    "quadro (eip s) cod (esp s) (ler32 (mem s) (esp s)) (ebp s) (mem s) (sb_inicio s) u"
    using entrada[OF c(1) _ dis] c(2) by (auto simp: sb_funcao_def sb_inicio_def)
  show "\<exists>n t. deixa passo ?D n s t \<and> sb_retorna s st' t" if e: "sb_exec cs (sb_inicio s) st'"
  proof -
    obtain k w where w: "anda passo ?D k u w" "quadro (eip s) cod (esp s) (ler32 (mem s) (esp s)) (ebp s) (mem s) st' w"
      "aponta (eip s) cod w finalizacao" using sb_frente[OF e u(3,2) v dis] by blast
    obtain t where t: "deixa passo ?D 4 w t" "sb_retorna s st' t"
      using retorno[OF w(2,3) R] by (auto simp: sb_retorna_def)
    have "anda passo ?D 4 w t" using t(1) by (simp add: deixa_def)
    then have "anda passo ?D (3 + (k + 4)) s t" by (intro anda_mais[OF u(1) anda_mais[OF w(1)]])
    then show ?thesis using t by (auto simp: deixa_def)
  qed
  show "\<exists>st'. sb_exec cs (sb_inicio s) st'" if d: "deixa passo ?D n s t"
    by (rule sb_volta[OF deixa_anda(2)[OF d u(1)] u(3,2) v _ dis]) (simp add: finalizacao_def)
qed

end

text \<open>A run leaves the function once.\<close>

lemma deixa_unico:
  assumes "deixa passo D n s t" "deixa passo D k s u"
  shows "u = t"
proof -
  have a: "anda passo D n s t" "anda passo D k s u" using assms by (simp_all add: deixa_def)
  then have "n = k" using deixa_anda(1)[OF assms(1) a(2)] deixa_anda(1)[OF assms(2) a(1)] by simp
  then show ?thesis using a by (simp add: anda_def)
qed

text \<open>
  (C10) The generated function computes what the program means. On a processor with the documented
  instructions, with the code that \<open>geracod\<close> returned in memory, apart from the stack and from the place
  the caller wants back to: the run from the first byte comes to a return exactly when the program ends,
  and then the caller goes on behind its call, with its stack and base pointer, with the final value
  of \<open>v0\<close> in \<open>%eax\<close>, and with its memory, but for the frame and the parameters of the call; a program that loops for ever loops for ever on the processor.
\<close>

theorem sb_correct:
  assumes "ia32_laws passo" and "sb_valido cs" and "sb_linhas cs \<le> 49"
    and "geracod lixo (sb_texto cs @ ''ret'' @ resto) = Some (Inr cod)"
    and "em (mem s) (eip s) cod"
    and "pilha (esp s) \<inter> area (eip s) (length cod) = {}"
    and "ler32 (mem s) (esp s) \<notin> area (eip s) (length cod)"
  shows "(\<forall>n t. deixa passo (area (eip s) (length cod)) n s t \<longrightarrow>
             (\<exists>st'. sb_exec cs (sb_inicio s) st' \<and> sb_retorna s st' t)) \<and>
         (\<forall>st'. sb_exec cs (sb_inicio s) st' \<longrightarrow>
             (\<exists>n t. deixa passo (area (eip s) (length cod)) n s t \<and> sb_retorna s st' t))"
proof (intro conjI allI impI)
  have c: "cod = sb_funcao cs" using geracod_ok[OF assms(2,3), of lixo resto] assms(4) by simp
  note ch = ia32_laws.chamada[OF assms(1,2,5) c assms(6,7)]
  show "\<exists>n t. deixa passo (area (eip s) (length cod)) n s t \<and> sb_retorna s st' t"
    if "sb_exec cs (sb_inicio s) st'" for st' using that by (rule ch(1))
  show "\<exists>st'. sb_exec cs (sb_inicio s) st' \<and> sb_retorna s st' t"
    if d: "deixa passo (area (eip s) (length cod)) n s t" for n t
    using ch(2)[OF d] ch(1) deixa_unico[OF d] by metis
qed

text \<open>The example multiplies: with the code at \<open>0x1000\<close>, called from \<open>0x100\<close> with 21 and 2.\<close>

lemma exemplo_laco:
  assumes "n = unat (st (P 1))"
  shows "\<exists>st'. sb_exec (tl sb_exemplo) st st' \<and> st' (V 0) = st (V 0) + st (P 0) * st (P 1)"
  using assms
proof (induction n arbitrary: st)
  case 0
  then have "st (P 1) = 0" by (simp add: unat_eq_zero)
  then show ?case unfolding sb_exemplo_def list.sel by (intro exI[of _ st] conjI sb_exec.sai sb_exec.fim) simp_all
next
  case (Suc n)
  let ?u = "st(V 0 := st (V 0) + st (P 0), P 1 := st (P 1) - 1)"
  have nz: "st (P 1) \<noteq> 0" using Suc.prems by auto
  then have "n = unat (?u (P 1))" using Suc.prems by (simp add: unat_minus_one)
  from Suc.IH[of ?u, OF this] obtain st' where st': "sb_exec (tl sb_exemplo) ?u st'"
    "st' (V 0) = ?u (V 0) + ?u (P 0) * ?u (P 1)" by blast
  have b: "sb_exec [Atrib (V 0) (Var (V 0)) Mais (Var (P 0)), Atrib (P 1) (Var (P 1)) Menos (Const 1)] st ?u"
    by (rule sb_exec.atrib, rule sb_exec.atrib)
      (simp only: valor.simps aplica.simps of_int_1 fun_upd_apply sb_var.distinct if_False sb_exec.fim)
  have "sb_exec (tl sb_exemplo) st st'"
    using sb_exec.entra[OF nz b] st'(1) unfolding sb_exemplo_def list.sel by blast
  moreover have "st' (V 0) = st (V 0) + st (P 0) * st (P 1)" using st'(2) by (simp add: algebra_simps)
  ultimately show ?case by blast
qed

lemma exemplo_produto: "\<exists>st'. sb_exec sb_exemplo st st' \<and> st' (V 0) = st (P 0) * st (P 1)"
proof -
  obtain st' where "sb_exec (tl sb_exemplo) (st(V 0 := 0)) st'" "st' (V 0) = st (P 0) * st (P 1)"
    using exemplo_laco[OF refl, of "st(V 0 := 0)"] by auto
  then show ?thesis unfolding sb_exemplo_def list.sel by (intro exI[of _ st'] conjI sb_exec.atrib) simp_all
qed

definition sb_maquina :: ia32 where
  "sb_maquina = \<lparr>eax = 0, ecx = 0, edx = 0, ebp = 0x3000, esp = 0x2000, eip = 0x1000, zf = False,
     mem = (\<lambda>p. if p - 0x1000 < 67 then sb_funcao sb_exemplo ! unat (p - 0x1000)
       else if p = 0x2001 then 1 else if p = 0x2004 then 21 else if p = 0x2008 then 2 else 0)\<rparr>"

lemma em_nth: "em m a bs \<longleftrightarrow> (\<forall>i < length bs. m (a + of_nat i) = bs ! i)"
  by (induction bs arbitrary: a) (auto simp: All_less_Suc2 ac_simps)

lemma maquina_codigo: "em (mem sb_maquina) (eip sb_maquina) (sb_funcao sb_exemplo)"
proof -
  have "mem sb_maquina (0x1000 + of_nat i) = sb_funcao sb_exemplo ! i" if "i < 67" for i
  proof -
    have "unat (of_nat i :: 32 word) = i" using that by (simp add: unat_of_nat take_bit_eq_mod)
    moreover from this have "(of_nat i :: 32 word) < 67" using that by (simp add: word_less_nat_alt)
    ultimately show ?thesis by (simp add: sb_maquina_def)
  qed
  moreover have "eip sb_maquina = 0x1000" "length (sb_funcao sb_exemplo) = 67"
    by (simp add: sb_maquina_def) (simp add: exemplo_codigo)
  ultimately show ?thesis unfolding em_nth by metis
qed

lemma maquina_pilha: "pilha (esp sb_maquina) \<inter> area (eip sb_maquina) 67 = {}"
proof -
  have "(0x2000 + word_of_int k :: 32 word) \<noteq> 0x1000 + of_nat i" if "- 44 \<le> k" "k < 24" "i < 67" for k i
  proof
    assume "(0x2000 + word_of_int k :: 32 word) = 0x1000 + of_nat i"
    then have "(word_of_int (0x1000 + k - int i) :: 32 word) = 0" by (simp add: algebra_simps)
    moreover have "0 < \<bar>0x1000 + k - int i\<bar>" "\<bar>0x1000 + k - int i\<bar> < 2 ^ 32" using that by auto
    ultimately show False using word_of_int_pequeno by blast
  qed
  then show ?thesis by (auto simp: pilha_def area_def sb_maquina_def)
qed

lemma maquina_volta: "ler32 (mem sb_maquina) (esp sb_maquina) = 0x100" "(0x100 :: 32 word) \<notin> area (eip sb_maquina) 67"
proof -
  show "ler32 (mem sb_maquina) (esp sb_maquina) = 0x100" by (simp add: ler32_def sb_maquina_def)
  have "(0x100 :: 32 word) \<noteq> 0x1000 + of_nat i" if "i < 67" for i
  proof
    assume "(0x100 :: 32 word) = 0x1000 + of_nat i"
    then have "(word_of_int (0xf00 + int i) :: 32 word) = 0" by (simp add: algebra_simps)
    moreover have "0 < \<bar>0xf00 + int i\<bar>" "\<bar>0xf00 + int i\<bar> < 2 ^ 32" using that by auto
    ultimately show False using word_of_int_pequeno by blast
  qed
  then show "(0x100 :: 32 word) \<notin> area (eip sb_maquina) 67" by (auto simp: area_def sb_maquina_def)
qed

lemma maquina_parametros: "sb_inicio sb_maquina (P 0) = 21" "sb_inicio sb_maquina (P 1) = 2"
  by (simp_all add: sb_inicio_def lugar_def ler32_def sb_maquina_def)

theorem sb_correct_witness:
  "\<exists>n t. deixa ref_ia32 (area 0x1000 67) n sb_maquina t \<and> eip t = 0x100 \<and> esp t = 0x2004 \<and> ebp t = 0x3000 \<and> eax t = 42"
proof -
  have "sb_valido sb_exemplo" "sb_linhas sb_exemplo \<le> 49" by (simp_all add: sb_exemplo_def)
  note c = sb_correct[OF ref_ia32.ia32_laws_axioms this geracod_ok[OF this]]
  obtain st' where st': "sb_exec sb_exemplo (sb_inicio sb_maquina) st'" "st' (V 0) = 42"
    using exemplo_produto[of "sb_inicio sb_maquina"] maquina_parametros by auto
  have l: "length (sb_funcao sb_exemplo) = 67" by (simp add: exemplo_codigo)
  have "ler32 (mem sb_maquina) (esp sb_maquina) \<notin> area (eip sb_maquina) 67" using maquina_volta by simp
  from c[of sb_maquina, unfolded l, OF maquina_codigo maquina_pilha this] st'(1)
  obtain n t where "deixa ref_ia32 (area (eip sb_maquina) 67) n sb_maquina t" "sb_retorna sb_maquina st' t" by blast
  moreover have "eip sb_maquina = 0x1000" "esp sb_maquina = 0x2000" "ebp sb_maquina = 0x3000" by (simp_all add: sb_maquina_def)
  ultimately have "deixa ref_ia32 (area 0x1000 67) n sb_maquina t \<and> eip t = 0x100 \<and> esp t = 0x2004 \<and> ebp t = 0x3000 \<and> eax t = 42"
    using st'(2) maquina_volta(1) by (simp add: sb_retorna_def)
  then show ?thesis by blast
qed

end
