(* ===== verification/SbLimites.thy ===== *)
theory SbLimites
  imports SbGera
begin

text \<open>
  Where the limits of \<open>geracod\<close> do not hold: the arrays of the code and of the open loops are written
  behind their ends, a comment without an end is read for ever, and an index below zero is a variable.
\<close>

lemma comentario_aberto: "CHR 10 \<notin> set c \<Longrightarrow> comentario c = None"
  by (induction c) auto

lemma sb_texto_append: "sb_texto (xs @ ys) = sb_texto xs @ sb_texto ys"
  by (induction xs rule: sb_texto.induct) simp_all

lemma laco_comentario:
  assumes "arquivo s = ''//'' @ c" "CHR 10 \<notin> set c" "length (mcodes s) < 800" "linhas s \<le> 50"
  shows "sb_laco s = None"
  using assms by (subst sb_laco.simps) (simp add: sb_passo_def sb_barra_def comentario_aberto Let_def)

section \<open>The array of the code\<close>

text \<open>The check is for 800 bytes written; the next 16 may not fit.\<close>

lemma laco_cheio:
  assumes v: "var_valida x" "varpc_valida a" "varpc_valida b"
    and s: "arquivo s = sb_texto [Atrib x a f b] @ r" "length (mcodes s) < 800"
      "800 < length (mcodes s) + length (cod_atrib x a f b)" "linhas s \<le> 50"
  shows "sb_laco s = Some (Inl (UndefinedBehaviour ''write behind mcodes''))"
proof -
  let ?r = "show_int (num (Var x)) @ '' = '' @ txt_varpc a @ '' '' @ [txt_op f] @ '' '' @ txt_varpc b @ CHR 10 # r"
  let ?s = "s\<lparr>arquivo := ?r, vartype := (vartype s)(0 := tipo (Var x))\<rparr>"
  have t: "tipo (Var x) = CHR ''v'' \<or> tipo (Var x) = CHR ''p''" by (cases x) simp_all
  obtain s1 where s1: "sb_fscanf dirs_assign ?s = Inr s1" "arquivo s1 = CHR 10 # r" "vartype s1 0 = tipo (Var x)"
    "var s1 0 = num (Var x)" "vartype s1 1 = tipo a" "var s1 1 = num a" "op s1 = txt_op f" "vartype s1 2 = tipo b"
    "var s1 2 = num b" "mcodes s1 = mcodes s"
    using fscanf_assign[of x a b ?s f r] v by auto
  have "sb_assign ?s = Inl (UndefinedBehaviour ''write behind mcodes'')"
    unfolding sb_assign_def s1(1) res_bind_Inr s1(3-9) assign_ok[OF v]
    using s(3) by (simp add: sb_anexar_def gravar_def s1(10))
  then show ?thesis using t s by (subst sb_laco.simps) (auto simp: txt_var_tipo sb_passo_def Let_def)
qed

section \<open>The array of the open loops\<close>

lemma laco_enquantos:
  assumes "arquivo s = concat (replicate n (''while '' @ txt_var x @ [CHR 10])) @ r" "var_valida x"
    "length (mcodes s) + 10 * n < 800" "linhas s + n \<le> 51" "length (enderecoCmplWhiles s) + n \<le> 25"
  shows "\<exists>s'. sb_laco s = sb_laco s' \<and> arquivo s' = r \<and> length (mcodes s') = length (mcodes s) + 10 * n \<and>
    length (enderecoCmplWhiles s') = length (enderecoCmplWhiles s) + n \<and> linhas s' = linhas s + n"
  using assms
proof (induction n arbitrary: s)
  case 0
  then show ?case by auto
next
  case (Suc n)
  obtain s1 where s1: "sb_laco s = sb_laco s1" "arquivo s1 = concat (replicate n (''while '' @ txt_var x @ [CHR 10])) @ r"
    "length (mcodes s1) = length (mcodes s) + 10" "length (enderecoCmplWhiles s1) = Suc (length (enderecoCmplWhiles s))"
    "linhas s1 = linhas s + 1"
    using laco_while[of x s "concat (replicate n (''while '' @ txt_var x @ [CHR 10])) @ r"] Suc.prems by auto
  show ?case using Suc.IH[of s1] Suc.prems s1 by auto
qed

lemma laco_enquanto_26:
  assumes "arquivo s = ''while '' @ txt_var x @ CHR 10 # r" "var_valida x"
    "length (mcodes s) < 800" "linhas s \<le> 50" "length (enderecoCmplWhiles s) = 25"
  shows "sb_laco s = Some (Inl (UndefinedBehaviour ''write behind enderecoCmplWhiles''))"
proof -
  let ?s = "s\<lparr>arquivo := ''hile '' @ txt_var x @ CHR 10 # r, vartype := (vartype s)(0 := CHR ''w'')\<rparr>"
  obtain s1 where s1: "sb_fscanf dirs_while ?s = Inr s1" "enderecoCmplWhiles s1 = enderecoCmplWhiles s"
    using fscanf_while[of x ?s r] assms(2) by auto
  have "sb_while ?s = Inl (UndefinedBehaviour ''write behind enderecoCmplWhiles'')"
    unfolding sb_while_def s1(1) res_bind_Inr using s1(2) assms(5) by simp
  then show ?thesis using assms by (subst sb_laco.simps) (simp add: sb_passo_def Let_def)
qed

text \<open>
  (C39) The limits that \<open>geracod\<close> leaves open, for every operand: with 50 lines of products of two constants,
  16 bytes each, the last one is written behind the 800 bytes of \<open>mcodes\<close>, and the check for 800 bytes at
  the start of the line does not see it; with 26 loops open, the last address is written behind the 25
  entries of \<open>enderecoCmplWhiles\<close>; a comment that ends with the file, without a line feed, after any
  program, is read for ever; and \<open>p-1\<close> passes the test of the operands, as the word at 4 bytes from the base
  pointer, which holds the return address.
\<close>

theorem sb_limits:
  "(\<forall>x a b r. var_valida x \<and> varpc_valida (Const a) \<and> varpc_valida (Const b) \<longrightarrow>
      geracod lixo (sb_texto (replicate 50 (Atrib x (Const a) Vezes (Const b))) @ r) =
        Some (Inl (UndefinedBehaviour ''write behind mcodes''))) \<and>
   (\<forall>x r. var_valida x \<longrightarrow>
      geracod lixo (concat (replicate 26 (''while '' @ txt_var x @ [CHR 10])) @ r) =
        Some (Inl (UndefinedBehaviour ''write behind enderecoCmplWhiles''))) \<and>
   (\<forall>cs c. sb_valido cs \<and> sb_linhas cs \<le> 49 \<and> CHR 10 \<notin> set c \<longrightarrow> geracod lixo (sb_texto cs @ ''//'' @ c) = None) \<and>
   testaVar CHR ''p'' (- 1) = Inr () \<and> movlFromReg CHR ''p'' (- 1) = Inr [0x89, 0x55, 0x04]"
proof (intro conjI allI impI)
  fix x a b r assume v: "var_valida x \<and> varpc_valida (Const a) \<and> varpc_valida (Const b)"
  let ?c = "Atrib x (Const a) Vezes (Const b)"
  have n: "sb_valido (replicate k ?c)" "sb_linhas (replicate k ?c) = k" "length (sb_codigo (replicate k ?c)) = 16 * k" for k
    using v by (induction k) (simp_all add: cod_atrib_def)
  have "replicate 50 ?c = replicate 49 ?c @ [?c]" by (simp add: numeral_eq_Suc)
  then have t: "sb_texto (replicate 50 ?c) @ r = sb_texto (replicate 49 ?c) @ sb_texto [?c] @ r" by (simp only: sb_texto_append append.assoc)
  obtain s where s: "geracod lixo (sb_texto (replicate 50 ?c) @ r) = (case sb_laco s of None \<Rightarrow> None | Some q \<Rightarrow> Some (res_bind q sb_fim))"
    "arquivo s = sb_texto [?c] @ r" "mcodes s = prologo @ sb_codigo (replicate 49 ?c)" "linhas s = 1 + sb_linhas (replicate 49 ?c)"
    using geracod_apos[OF n(1)[of 49], of lixo "sb_texto [?c] @ r"] unfolding t n(2) by auto
  have "sb_laco s = Some (Inl (UndefinedBehaviour ''write behind mcodes''))"
    by (rule laco_cheio[OF _ _ _ s(2)]) (use v in \<open>simp_all add: s n prologo_def cod_atrib_def\<close>)
  with s(1) show "geracod lixo (sb_texto (replicate 50 ?c) @ r) = Some (Inl (UndefinedBehaviour ''write behind mcodes''))" by simp
next
  fix x r assume v: "var_valida x"
  let ?w = "''while '' @ txt_var x @ [CHR 10]"
  have t: "concat (replicate 26 ?w) @ r = concat (replicate 25 ?w) @ ?w @ r" by (simp add: numeral_eq_Suc)
  obtain s where s: "geracod lixo (concat (replicate 26 ?w) @ r) = (case sb_laco s of None \<Rightarrow> None | Some q \<Rightarrow> Some (res_bind q sb_fim))"
    "arquivo s = concat (replicate 25 ?w) @ ?w @ r" "mcodes s = prologo" "enderecoCmplWhiles s = []" "linhas s = 1"
    using geracod_apos[of "[]" lixo "concat (replicate 26 ?w) @ r"] unfolding t by auto
  obtain s' where s': "sb_laco s = sb_laco s'" "arquivo s' = ?w @ r" "length (mcodes s') = 256"
    "length (enderecoCmplWhiles s') = 25" "linhas s' = 26"
    using laco_enquantos[OF s(2) v] s(3-5) by (auto simp: prologo_def)
  have "sb_laco s' = Some (Inl (UndefinedBehaviour ''write behind enderecoCmplWhiles''))"
    by (rule laco_enquanto_26[of _ x r]) (use v s' in simp_all)
  with s(1) s'(1) show "geracod lixo (concat (replicate 26 ?w) @ r) = Some (Inl (UndefinedBehaviour ''write behind enderecoCmplWhiles''))"
    by simp
next
  fix cs c assume v: "sb_valido cs \<and> sb_linhas cs \<le> 49 \<and> CHR 10 \<notin> set c"
  then obtain s where s: "geracod lixo (sb_texto cs @ ''//'' @ c) = (case sb_laco s of None \<Rightarrow> None | Some q \<Rightarrow> Some (res_bind q sb_fim))"
    "arquivo s = ''//'' @ c" "length (mcodes s) \<le> 790" "linhas s = 1 + sb_linhas cs"
    using geracod_apos[of cs lixo "''//'' @ c"] by blast
  have "sb_laco s = None" by (rule laco_comentario[OF s(2)]) (use v s(3,4) in simp_all)
  with s(1) show "geracod lixo (sb_texto cs @ ''//'' @ c) = None" by simp
qed (simp_all add: testaVar_def movlFromReg_def desl_param_def c_int_def)

theorem sb_limits_witness:
  "geracod (\<lambda>_. CHR ''x'', \<lambda>_. 7, CHR ''x'') (sb_texto (replicate 50 (Atrib (V 0) (Const 1) Vezes (Const 2)))) =
     Some (Inl (UndefinedBehaviour ''write behind mcodes'')) \<and>
   geracod (\<lambda>_. CHR ''x'', \<lambda>_. 7, CHR ''x'') (concat (replicate 26 (''while v0'' @ [CHR 10]))) =
     Some (Inl (UndefinedBehaviour ''write behind enderecoCmplWhiles'')) \<and>
   geracod (\<lambda>_. CHR ''x'', \<lambda>_. 7, CHR ''x'') (sb_texto sb_exemplo @ ''// fim'') = None"
proof -
  note l = sb_limits[of "(\<lambda>_. CHR ''x'', \<lambda>_. 7, CHR ''x'')"]
  have "txt_var (V 0) = ''v0''" by code_simp
  then show ?thesis
    using l[THEN conjunct1, THEN spec, of "V 0", THEN spec, of 1, THEN spec, of 2, THEN spec, of "[]"]
      l[THEN conjunct2, THEN conjunct1, THEN spec, of "V 0", THEN spec, of "[]"]
      l[THEN conjunct2, THEN conjunct2, THEN conjunct1, THEN spec, of sb_exemplo, THEN spec, of "'' fim''"]
    by (simp add: sb_exemplo_def)
qed

end
