(* ===== verification/MongaAst.thy ===== *)
theory MongaAst
  imports Prelude "HOL-Library.Word"
begin

text \<open>
  The abstract syntax and the symbol table of the Monga compiler (\<open>INF1715-Compilers\<close>: \<open>ast.h\<close>, \<open>ast.c\<close>,
  \<open>symboltable.h\<close>, \<open>symboltable.c\<close>).

  The type checker fills in fields of the tree; here it builds a tree with the fields filled in. A pointer
  to a type is an optional type: \<open>NULL\<close> is the type of a tree that was not visited, and of \<open>void\<close>. The name
  of a variable and the declaration it is resolved to share a union: they are constructors. The numbers
  of lines are left out, they are only printed; a floating point literal is its 64 bits.
\<close>

section \<open>Trees\<close>

datatype var_type = VarFloat | VarInt | VarChar

record monga_type =
  ty_name :: var_type
  brackets :: int

record def_var =
  dv_type :: monga_type
  dv_id :: string

record param =
  pm_type :: monga_type
  pm_id :: string

text \<open>What a call keeps of the function it is resolved to\<close>

record func_sig =
  fn_type :: "monga_type option"
  fn_id :: string
  fn_params :: "param list"

datatype bin_op =
    ExpAdd | ExpSub | ExpMul | ExpDiv | ExpEqual | ExpLess | ExpGreater | ExpLessEqual | ExpGreaterEqual
  | ExpOr | ExpAnd

datatype exp =
    ExpBin bin_op "monga_type option" exp exp
  | ExpVar "monga_type option" var
  | ExpCall "monga_type option" cmd_call
  | ExpNot "monga_type option" exp
  | ExpMinus "monga_type option" exp
  | ExpNew "monga_type option" monga_type exp
  | ExpString "monga_type option" string
  | ExpInt "monga_type option" int
  | ExpFloat "monga_type option" "64 word"
  | ExpCastIntToFloat "monga_type option" exp
and var =
    VarId string
  | VarDec def_var
  | VarParam param
  | VarIndexed exp exp
and cmd_call =
    CmdCall string "monga_type option" "func_sig option" "exp list"

datatype cmd =
    CmdWhile exp cmd
  | CmdIf exp cmd
  | CmdIfElse exp cmd cmd
  | CmdBasicCmd cmd_basic
and cmd_basic =
    CmdBasicReturn "exp option"
  | CmdBasicCall cmd_call
  | CmdBasicVar var exp
  | CmdBasicBlock block
and block =
    Block "def_var list" "cmd list"

datatype func = Func func_sig block

datatype definition_m = TypeDefVar "def_var list" | TypeDefFunc func

text \<open>The field \<open>type\<close> of an expression\<close>

fun tipo_exp :: "exp \<Rightarrow> monga_type option" where
  "tipo_exp (ExpBin f t a b) = t"
| "tipo_exp (ExpVar t v) = t"
| "tipo_exp (ExpCall t c) = t"
| "tipo_exp (ExpNot t e) = t"
| "tipo_exp (ExpMinus t e) = t"
| "tipo_exp (ExpNew t n e) = t"
| "tipo_exp (ExpString t s) = t"
| "tipo_exp (ExpInt t i) = t"
| "tipo_exp (ExpFloat t d) = t"
| "tipo_exp (ExpCastIntToFloat t e) = t"

definition baseTypeInit :: "var_type \<Rightarrow> monga_type" where
  "baseTypeInit n = \<lparr>ty_name = n, brackets = 0\<rparr>"

text \<open>Reading a field through a pointer\<close>

definition deref :: "'a option \<Rightarrow> 'a res" where
  "deref p = (case p of None \<Rightarrow> Inl (UndefinedBehaviour ''null pointer'') | Some x \<Rightarrow> Inr x)"

definition castIntToFloat :: "exp \<Rightarrow> exp res" where
  "castIntToFloat e =
     res_bind (deref (tipo_exp e)) (\<lambda>t.
     if ty_name t \<noteq> VarInt \<or> 0 < brackets t then Inl (RuntimeError ''Invalid cast to float'')
     else Inr (ExpCastIntToFloat (Some (baseTypeInit VarFloat)) e))"

section \<open>The symbol table\<close>

text \<open>
  A scope is a linked list with at least one cell; the type of the cell of an empty scope is \<open>'n'\<close>. A table is
  the innermost scope with the chain of the previous ones; \<open>NULL\<close> is the empty list.
\<close>

datatype dec = DecNone | DecVar def_var | DecParam param | DecFunc func_sig

type_synonym escopo = "dec list"
type_synonym tabela = "escopo list"

fun dec_id :: "dec \<Rightarrow> string option" where
  "dec_id DecNone = None"
| "dec_id (DecVar v) = Some (dv_id v)"
| "dec_id (DecParam p) = Some (pm_id p)"
| "dec_id (DecFunc f) = Some (fn_id f)"

definition create_symbolTable :: tabela where
  "create_symbolTable = [[DecNone]]"

text \<open>The first cell is filled if it is free, otherwise a cell is appended.\<close>

definition acrescentar :: "dec \<Rightarrow> tabela \<Rightarrow> tabela res" where
  "acrescentar d T =
     (case T of
        (c # cs) # es \<Rightarrow> Inr ((if c = DecNone then d # cs else (c # cs) @ [d]) # es)
      | _ \<Rightarrow> Inl (UndefinedBehaviour ''null pointer''))"

definition addDecVar :: "tabela \<Rightarrow> def_var \<Rightarrow> tabela res" where
  "addDecVar T v = acrescentar (DecVar v) T"

definition addParam :: "tabela \<Rightarrow> param \<Rightarrow> tabela res" where
  "addParam T p = acrescentar (DecParam p) T"

definition addDecFunc :: "tabela \<Rightarrow> func_sig \<Rightarrow> tabela res" where
  "addDecFunc T f = acrescentar (DecFunc f) T"

fun find_escopo :: "escopo \<Rightarrow> string \<Rightarrow> dec option" where
  "find_escopo [] x = None"
| "find_escopo (d # ds) x =
     (if d = DecNone then None else if dec_id d = Some x then Some d else find_escopo ds x)"

fun st_find :: "tabela \<Rightarrow> string \<Rightarrow> dec option" where
  "st_find [] x = None"
| "st_find (e # es) x = (case find_escopo e x of Some d \<Rightarrow> Some d | None \<Rightarrow> st_find es x)"

definition findCurrentScope :: "tabela \<Rightarrow> string \<Rightarrow> dec option res" where
  "findCurrentScope T x =
     (case T of [] \<Rightarrow> Inl (UndefinedBehaviour ''null pointer'') | e # es \<Rightarrow> Inr (find_escopo e x))"

definition enterScope :: "tabela \<Rightarrow> tabela" where
  "enterScope T = create_symbolTable @ T"

definition leaveScope :: "tabela \<Rightarrow> tabela res" where
  "leaveScope T = (case T of [] \<Rightarrow> Inl (UndefinedBehaviour ''null pointer'') | e # es \<Rightarrow> Inr es)"

section \<open>What the table stands for\<close>

text \<open>A scope of the table: free, or a list of declarations\<close>

definition escopo_ok :: "escopo \<Rightarrow> bool" where
  "escopo_ok e \<longleftrightarrow> e = [DecNone] \<or> e \<noteq> [] \<and> DecNone \<notin> set e"

definition tabela_ok :: "tabela \<Rightarrow> bool" where
  "tabela_ok T \<longleftrightarrow> T \<noteq> [] \<and> (\<forall>e \<in> set T. escopo_ok e)"

definition nomes :: "tabela \<Rightarrow> string set" where
  "nomes T = {x. find_escopo (hd T) x \<noteq> None}"

lemma find_escopo_id: "find_escopo e x = Some d \<Longrightarrow> dec_id d = Some x \<and> d \<noteq> DecNone"
  by (induction e) (auto split: if_splits)

lemma st_find_id: "st_find T x = Some d \<Longrightarrow> dec_id d = Some x \<and> d \<noteq> DecNone"
  by (induction T) (auto split: option.splits dest: find_escopo_id)

lemma find_escopo_append:
  "DecNone \<notin> set e \<Longrightarrow> find_escopo (e @ f) x = (case find_escopo e x of Some d \<Rightarrow> Some d | None \<Rightarrow> find_escopo f x)"
  by (induction e) auto

lemma acrescentar_ok:
  assumes "tabela_ok T" "d \<noteq> DecNone" "dec_id d = Some x" "x \<notin> nomes T"
  shows "\<exists>T'. acrescentar d T = Inr T' \<and> tabela_ok T' \<and> st_find T' = (st_find T)(x \<mapsto> d) \<and>
    nomes T' = insert x (nomes T) \<and> tl T' = tl T"
proof -
  obtain c cs es where T: "T = (c # cs) # es" "escopo_ok (c # cs)" using assms(1)
    by (cases T; cases "hd T") (auto simp: tabela_ok_def escopo_ok_def)
  show ?thesis
  proof (cases "c = DecNone")
    case True
    then have "cs = []" using T(2) by (auto simp: escopo_ok_def)
    then show ?thesis using assms T True by (auto simp: acrescentar_def tabela_ok_def escopo_ok_def nomes_def)
  next
    case False
    then have n: "DecNone \<notin> set (c # cs)" using T(2) by (auto simp: escopo_ok_def)
    have f: "find_escopo ((c # cs) @ [d]) y = (if y = x then Some d else find_escopo (c # cs) y)" for y
      using find_escopo_append[OF n, of "[d]" y] assms T(1) by (auto simp: nomes_def split: option.splits)
    then show ?thesis using assms T False n
      by (intro exI[of _ "((c # cs) @ [d]) # es"])
        (auto simp: acrescentar_def tabela_ok_def escopo_ok_def nomes_def simp del: find_escopo.simps)
  qed
qed

end
