(* ===== verification/MongaCheck.thy ===== *)
theory MongaCheck
  imports MongaAst
begin

text \<open>
  The type checker of the Monga compiler (\<open>INF1715-Compilers\<close>, \<open>typechecking.c\<close>): one definition for each
  function of the file. The table of symbols is passed along; \<open>curReturnType\<close> is an argument. A message
  followed by \<open>exit\<close> is a \<open>RuntimeError\<close>, the use of the type of a \<open>void\<close> call is a null pointer.
\<close>

section \<open>Types\<close>

definition typeEquals :: "monga_type option \<Rightarrow> monga_type option \<Rightarrow> bool" where
  "typeEquals t1 t2 =
     (case (t1, t2) of
        (None, None) \<Rightarrow> True
      | (Some a, Some b) \<Rightarrow>
          \<not> (ty_name a \<noteq> ty_name b \<and> \<not> (ty_name a = VarInt \<and> ty_name b = VarChar) \<and>
             \<not> (ty_name a = VarChar \<and> ty_name b = VarInt)) \<and>
          brackets a = brackets b
      | _ \<Rightarrow> False)"

definition isExpNumerical :: "exp \<Rightarrow> bool res" where
  "isExpNumerical e =
     res_bind (deref (tipo_exp e)) (\<lambda>t.
     Inr (\<not> (ty_name t \<noteq> VarFloat \<and> ty_name t \<noteq> VarInt) \<and> brackets t = 0))"

section \<open>Declarations\<close>

definition checkSymbolRedefinition :: "tabela \<Rightarrow> string \<Rightarrow> unit res" where
  "checkSymbolRedefinition T x =
     res_bind (findCurrentScope T x) (\<lambda>d.
     if d \<noteq> None then Inl (RuntimeError ''Symbol has already been defined in this scope'') else Inr ())"

fun checkParamList :: "tabela \<Rightarrow> param list \<Rightarrow> tabela res" where
  "checkParamList T [] = Inr T"
| "checkParamList T (p # ps) =
     res_bind (checkSymbolRedefinition T (pm_id p)) (\<lambda>_.
     res_bind (addParam T p) (\<lambda>T1. checkParamList T1 ps))"

fun checkDefVarList :: "tabela \<Rightarrow> def_var list \<Rightarrow> tabela res" where
  "checkDefVarList T [] = Inr T"
| "checkDefVarList T (v # vs) =
     res_bind (checkSymbolRedefinition T (dv_id v)) (\<lambda>_.
     res_bind (addDecVar T v) (\<lambda>T1. checkDefVarList T1 vs))"

section \<open>Expressions\<close>

text \<open>The operands of a binary expression, after they were visited, and the type of the expression\<close>

definition checkBin :: "exp \<Rightarrow> exp \<Rightarrow> (exp \<times> exp \<times> monga_type) res" where
  "checkBin a b =
     res_bind (deref (tipo_exp a)) (\<lambda>ta.
     res_bind (deref (tipo_exp b)) (\<lambda>tb.
     res_bind
       (if ty_name ta = ty_name tb then Inr (a, b, ta)
        else if ty_name ta = VarFloat \<and> ty_name tb = VarInt then
          res_bind (castIntToFloat b) (\<lambda>b1. Inr (a, b1, ta))
        else if ty_name ta = VarInt \<and> ty_name tb = VarFloat then
          res_bind (castIntToFloat a) (\<lambda>a1. Inr (a1, b, tb))
        else Inl (RuntimeError ''Invalid expression''))
       (\<lambda>(a1, b1, t).
     if typeEquals (tipo_exp a1) (tipo_exp b1) then Inr (a1, b1, t)
     else Inl (RuntimeError ''Invalid array comparison''))))"

definition escalar :: "var_type \<Rightarrow> monga_type \<Rightarrow> bool" where
  "escalar n t \<longleftrightarrow> ty_name t = n \<and> brackets t = 0"

text \<open>The arguments of a call, after they were visited, against the parameters\<close>

fun checkArgs :: "exp list \<Rightarrow> param list \<Rightarrow> exp list res" where
  "checkArgs [] [] = Inr []"
| "checkArgs (e # es) (p # ps) =
     res_bind
       (if typeEquals (tipo_exp e) (Some (pm_type p)) then Inr e
        else res_bind (deref (tipo_exp e)) (\<lambda>t.
          if escalar VarInt t \<and> escalar VarFloat (pm_type p) then castIntToFloat e
          else Inl (RuntimeError ''Incompatible call signature'')))
       (\<lambda>e1. res_bind (checkArgs es ps) (\<lambda>es1. Inr (e1 # es1)))"
| "checkArgs es ps = Inl (RuntimeError ''Incompatible call signature'')"

text \<open>What is assigned to a variable of type \<open>t\<close>\<close>

definition checkAtrib :: "monga_type \<Rightarrow> exp option \<Rightarrow> exp option res" where
  "checkAtrib t eo =
     (case eo of
        None \<Rightarrow> Inr None
      | Some e \<Rightarrow>
          res_bind (deref (tipo_exp e)) (\<lambda>te.
          res_bind (if escalar VarInt te \<and> escalar VarFloat t then castIntToFloat e else Inr e) (\<lambda>e1.
          if typeEquals (Some t) (tipo_exp e1) then Inr (Some e1)
          else Inl (RuntimeError ''Incompatible types in assignment to symbol''))))"

definition promovido :: "monga_type \<Rightarrow> monga_type" where
  "promovido t = (if ty_name t \<noteq> VarChar then t else t\<lparr>ty_name := VarInt\<rparr>)"

text \<open>The second half of \<open>checkVar\<close>: the expression that is assigned, if there is one, was visited before.\<close>

fun checkExp :: "tabela \<Rightarrow> exp \<Rightarrow> exp res"
  and checkVar1 :: "tabela \<Rightarrow> var \<Rightarrow> exp option \<Rightarrow> (var \<times> exp option \<times> monga_type) res"
  and checkCmdCall :: "tabela \<Rightarrow> cmd_call \<Rightarrow> cmd_call res"
  and checkExpList :: "tabela \<Rightarrow> exp list \<Rightarrow> exp list res" where
  "checkExp T (ExpBin f t a b) =
     res_bind (checkExp T a) (\<lambda>a1.
     res_bind (checkExp T b) (\<lambda>b1.
     res_bind (checkBin a1 b1) (\<lambda>(a2, b2, u). Inr (ExpBin f (Some u) a2 b2))))"
| "checkExp T (ExpVar t v) = res_bind (checkVar1 T v None) (\<lambda>(v1, _, u). Inr (ExpVar (Some u) v1))"
| "checkExp T (ExpCall t c) =
     res_bind (checkCmdCall T c) (\<lambda>c1. case c1 of CmdCall x u g es \<Rightarrow> Inr (ExpCall u c1))"
| "checkExp T (ExpNot t e) = res_bind (checkExp T e) (\<lambda>e1. Inr (ExpNot (tipo_exp e1) e1))"
| "checkExp T (ExpMinus t e) = res_bind (checkExp T e) (\<lambda>e1. Inr (ExpMinus (tipo_exp e1) e1))"
| "checkExp T (ExpNew t n e) =
     res_bind (checkExp T e) (\<lambda>e1.
       let n1 = n\<lparr>brackets := brackets n + 1\<rparr> in Inr (ExpNew (Some n1) n1 e1))"
| "checkExp T (ExpString t s) = Inr (ExpString (Some (baseTypeInit VarChar)) s)"
| "checkExp T (ExpInt t i) = Inr (ExpInt (Some (baseTypeInit VarInt)) i)"
| "checkExp T (ExpFloat t d) = Inr (ExpFloat (Some (baseTypeInit VarFloat)) d)"
| "checkExp T (ExpCastIntToFloat t e) = Inr (ExpCastIntToFloat t e)"
| "checkVar1 T (VarId x) eo =
     (case st_find T x of
        None \<Rightarrow> Inl (RuntimeError ''Undefined symbol'')
      | Some (DecVar v) \<Rightarrow>
          res_bind (checkAtrib (dv_type v) eo) (\<lambda>eo1. Inr (VarDec v, eo1, promovido (dv_type v)))
      | Some (DecParam p) \<Rightarrow>
          res_bind (checkAtrib (pm_type p) eo) (\<lambda>eo1. Inr (VarParam p, eo1, promovido (pm_type p)))
      | Some _ \<Rightarrow> Inl (RuntimeError ''Invalid assignment to symbol''))"
| "checkVar1 T (VarIndexed a i) eo =
     res_bind (checkExp T a) (\<lambda>a1.
     res_bind (checkExp T i) (\<lambda>i1.
     res_bind (deref (tipo_exp a1)) (\<lambda>ta.
     res_bind
       (case eo of
          None \<Rightarrow> Inr ()
        | Some e \<Rightarrow>
            res_bind (deref (tipo_exp e)) (\<lambda>te.
            if ty_name ta = ty_name te \<and> brackets ta - 1 = brackets te then Inr ()
            else Inl (RuntimeError ''Incompatible types in assignment to symbol'')))
       (\<lambda>_. Inr (VarIndexed a1 i1, eo, ta\<lparr>brackets := brackets ta - 1\<rparr>)))))"
| "checkVar1 T (VarDec v) eo = Inl (UndefinedBehaviour ''declaration read as a name'')"
| "checkVar1 T (VarParam p) eo = Inl (UndefinedBehaviour ''declaration read as a name'')"
| "checkCmdCall T (CmdCall x t g es) =
     (case st_find T x of
        None \<Rightarrow> Inl (RuntimeError ''Undefined symbol called as function'')
      | Some (DecFunc f) \<Rightarrow>
          res_bind (checkExpList T es) (\<lambda>es1.
          res_bind (checkArgs es1 (fn_params f)) (\<lambda>es2. Inr (CmdCall x (fn_type f) (Some f) es2)))
      | Some _ \<Rightarrow> Inl (RuntimeError ''Attempted to call non-function symbol''))"
| "checkExpList T [] = Inr []"
| "checkExpList T (e # es) = res_bind (checkExp T e) (\<lambda>e1. res_bind (checkExpList T es) (\<lambda>es1. Inr (e1 # es1)))"

definition checkVar :: "tabela \<Rightarrow> var \<Rightarrow> exp option \<Rightarrow> (var \<times> exp option \<times> monga_type) res" where
  "checkVar T v eo =
     (case eo of
        None \<Rightarrow> checkVar1 T v None
      | Some e \<Rightarrow> res_bind (checkExp T e) (\<lambda>e1. checkVar1 T v (Some e1)))"

section \<open>Commands\<close>

definition checkCond :: "tabela \<Rightarrow> exp \<Rightarrow> exp res" where
  "checkCond T e =
     res_bind (checkExp T e) (\<lambda>e1.
     res_bind (isExpNumerical e1) (\<lambda>b.
     if b then Inr e1 else Inl (RuntimeError ''expression must return a numerical type'')))"

fun checkCmd :: "monga_type option \<Rightarrow> tabela \<Rightarrow> cmd \<Rightarrow> (cmd \<times> tabela) res"
  and checkCmdBasic :: "monga_type option \<Rightarrow> tabela \<Rightarrow> cmd_basic \<Rightarrow> (cmd_basic \<times> tabela) res"
  and checkBlock :: "monga_type option \<Rightarrow> tabela \<Rightarrow> block \<Rightarrow> (block \<times> tabela) res"
  and checkCmdList :: "monga_type option \<Rightarrow> tabela \<Rightarrow> cmd list \<Rightarrow> (cmd list \<times> tabela) res" where
  "checkCmd r T (CmdWhile e c) =
     res_bind (checkCond T e) (\<lambda>e1. res_bind (checkCmd r T c) (\<lambda>(c1, T1). Inr (CmdWhile e1 c1, T1)))"
| "checkCmd r T (CmdIf e c) =
     res_bind (checkCond T e) (\<lambda>e1. res_bind (checkCmd r T c) (\<lambda>(c1, T1). Inr (CmdIf e1 c1, T1)))"
| "checkCmd r T (CmdIfElse e c d) =
     res_bind (checkCond T e) (\<lambda>e1.
     res_bind (checkCmd r T c) (\<lambda>(c1, T1).
     res_bind (checkCmd r T1 d) (\<lambda>(d1, T2). Inr (CmdIfElse e1 c1 d1, T2))))"
| "checkCmd r T (CmdBasicCmd b) =
     res_bind (checkCmdBasic r T b) (\<lambda>(b1, T1). Inr (CmdBasicCmd b1, T1))"
| "checkCmdBasic r T (CmdBasicReturn eo) =
     (case eo of
        None \<Rightarrow> Inr (CmdBasicReturn None, T)
      | Some e \<Rightarrow>
          res_bind (checkExp T e) (\<lambda>e1.
          if typeEquals (tipo_exp e1) r then Inr (CmdBasicReturn (Some e1), T)
          else Inl (RuntimeError ''invalid return type'')))"
| "checkCmdBasic r T (CmdBasicCall c) = res_bind (checkCmdCall T c) (\<lambda>c1. Inr (CmdBasicCall c1, T))"
| "checkCmdBasic r T (CmdBasicBlock b) =
     res_bind (checkBlock r T b) (\<lambda>(b1, T1). Inr (CmdBasicBlock b1, T1))"
| "checkCmdBasic r T (CmdBasicVar v e) =
     res_bind (checkVar T v (Some e)) (\<lambda>(v1, eo1, _).
       case eo1 of None \<Rightarrow> Inl (UndefinedBehaviour ''null pointer'') | Some e1 \<Rightarrow> Inr (CmdBasicVar v1 e1, T))"
| "checkBlock r T (Block vs cs) =
     res_bind (checkDefVarList (enterScope T) vs) (\<lambda>T1.
     res_bind (checkCmdList r T1 cs) (\<lambda>(cs1, T2).
     res_bind (leaveScope T2) (\<lambda>T3. Inr (Block vs cs1, T3))))"
| "checkCmdList r T [] = Inr ([], T)"
| "checkCmdList r T (c # cs) =
     res_bind (checkCmd r T c) (\<lambda>(c1, T1).
     res_bind (checkCmdList r T1 cs) (\<lambda>(cs1, T2). Inr (c1 # cs1, T2)))"

section \<open>Programs\<close>

definition checkDefFunc :: "tabela \<Rightarrow> func_sig \<Rightarrow> block \<Rightarrow> (block \<times> tabela) res" where
  "checkDefFunc T f b =
     res_bind (checkSymbolRedefinition T (fn_id f)) (\<lambda>_.
     res_bind (addDecFunc T f) (\<lambda>T1.
     res_bind (checkParamList (enterScope T1) (fn_params f)) (\<lambda>T2.
     res_bind (checkBlock (fn_type f) T2 b) (\<lambda>(b1, T3).
     res_bind (leaveScope T3) (\<lambda>T4. Inr (b1, T4))))))"

fun checkDefinition :: "tabela \<Rightarrow> definition_m \<Rightarrow> (definition_m \<times> tabela) res" where
  "checkDefinition T (TypeDefVar vs) = res_bind (checkDefVarList T vs) (\<lambda>T1. Inr (TypeDefVar vs, T1))"
| "checkDefinition T (TypeDefFunc (Func f b)) =
     res_bind (checkDefFunc T f b) (\<lambda>(b1, T1). Inr (TypeDefFunc (Func f b1), T1))"

fun typeCheck :: "tabela \<Rightarrow> definition_m list \<Rightarrow> (definition_m list \<times> tabela) res" where
  "typeCheck T [] = Inr ([], T)"
| "typeCheck T (d # ds) =
     res_bind (checkDefinition (if T = [] then create_symbolTable else T) d) (\<lambda>(d1, T1).
     res_bind (typeCheck T1 ds) (\<lambda>(ds1, T2). Inr (d1 # ds1, T2)))"

end
