(* ===== verification/MongaTipos.thy ===== *)
theory MongaTipos
  imports MongaCheck
begin

text \<open>
  The typing rules of Monga as the checker has them, and what its trees look like: \<open>tipada\<close> for expressions
  over an environment of visible declarations, \<open>bem_anotada\<close> for a tree with its fields filled in, \<open>apaga\<close>
  for the tree that was read. The checker finds a type exactly when the rules give one.
\<close>

section \<open>Rules\<close>

type_synonym amb = "string \<Rightarrow> dec option"

text \<open>The type of a binary expression: equal types, or one \<open>int\<close> that is cast to \<open>float\<close>\<close>

definition junta :: "monga_type \<Rightarrow> monga_type \<Rightarrow> monga_type option" where
  "junta a b =
     (if ty_name a = ty_name b then (if brackets a = brackets b then Some a else None)
      else if ty_name a = VarFloat \<and> ty_name b = VarInt then
        (if brackets a = 0 \<and> brackets b \<le> 0 then Some a else None)
      else if ty_name a = VarInt \<and> ty_name b = VarFloat then
        (if brackets b = 0 \<and> brackets a \<le> 0 then Some b else None)
      else None)"

text \<open>A place of type \<open>t\<close> takes a value of type \<open>s\<close>.\<close>

definition aceita :: "monga_type \<Rightarrow> monga_type option \<Rightarrow> bool" where
  "aceita t s \<longleftrightarrow> (\<exists>u. s = Some u \<and> (escalar VarInt u \<and> escalar VarFloat t \<or> typeEquals (Some t) (Some u)))"

inductive tipada :: "amb \<Rightarrow> exp \<Rightarrow> monga_type option \<Rightarrow> bool"
  and var_tipada :: "amb \<Rightarrow> var \<Rightarrow> monga_type \<Rightarrow> bool"
  and chamada_tipada :: "amb \<Rightarrow> cmd_call \<Rightarrow> monga_type option \<Rightarrow> bool"
  and args_tipados :: "amb \<Rightarrow> exp list \<Rightarrow> monga_type option list \<Rightarrow> bool"
  for \<Gamma> :: amb where
  bin: "tipada \<Gamma> a (Some s) \<Longrightarrow> tipada \<Gamma> b (Some u) \<Longrightarrow> junta s u = Some t \<Longrightarrow> tipada \<Gamma> (ExpBin f n a b) (Some t)"
| var: "var_tipada \<Gamma> v t \<Longrightarrow> tipada \<Gamma> (ExpVar n v) (Some t)"
| call: "chamada_tipada \<Gamma> c t \<Longrightarrow> tipada \<Gamma> (ExpCall n c) t"
| nao: "tipada \<Gamma> e t \<Longrightarrow> tipada \<Gamma> (ExpNot n e) t"
| menos: "tipada \<Gamma> e t \<Longrightarrow> tipada \<Gamma> (ExpMinus n e) t"
| novo: "tipada \<Gamma> e t \<Longrightarrow> tipada \<Gamma> (ExpNew n u e) (Some (u\<lparr>brackets := brackets u + 1\<rparr>))"
| texto: "tipada \<Gamma> (ExpString n s) (Some (baseTypeInit VarChar))"
| inteiro: "tipada \<Gamma> (ExpInt n i) (Some (baseTypeInit VarInt))"
| real: "tipada \<Gamma> (ExpFloat n d) (Some (baseTypeInit VarFloat))"
| dec: "\<Gamma> x = Some (DecVar v) \<Longrightarrow> var_tipada \<Gamma> (VarId x) (promovido (dv_type v))"
| par: "\<Gamma> x = Some (DecParam p) \<Longrightarrow> var_tipada \<Gamma> (VarId x) (promovido (pm_type p))"
| indice: "tipada \<Gamma> a (Some t) \<Longrightarrow> tipada \<Gamma> i u \<Longrightarrow> var_tipada \<Gamma> (VarIndexed a i) (t\<lparr>brackets := brackets t - 1\<rparr>)"
| chamada: "\<Gamma> x = Some (DecFunc f) \<Longrightarrow> args_tipados \<Gamma> es ts \<Longrightarrow> list_all2 (\<lambda>p. aceita (pm_type p)) (fn_params f) ts \<Longrightarrow>
    chamada_tipada \<Gamma> (CmdCall x n g es) (fn_type f)"
| nenhum: "args_tipados \<Gamma> [] []"
| mais_um: "tipada \<Gamma> e t \<Longrightarrow> args_tipados \<Gamma> es ts \<Longrightarrow> args_tipados \<Gamma> (e # es) (t # ts)"

section \<open>Trees before and after\<close>

text \<open>What the parser builds: nothing filled in\<close>

fun crua :: "exp \<Rightarrow> bool" and crua_var :: "var \<Rightarrow> bool" and crua_call :: "cmd_call \<Rightarrow> bool" where
  "crua (ExpBin f t a b) = (t = None \<and> crua a \<and> crua b)"
| "crua (ExpVar t v) = (t = None \<and> crua_var v)"
| "crua (ExpCall t c) = (t = None \<and> crua_call c)"
| "crua (ExpNot t e) = (t = None \<and> crua e)"
| "crua (ExpMinus t e) = (t = None \<and> crua e)"
| "crua (ExpNew t n e) = (t = None \<and> crua e)"
| "crua (ExpString t s) = (t = None)"
| "crua (ExpInt t i) = (t = None)"
| "crua (ExpFloat t d) = (t = None)"
| "crua (ExpCastIntToFloat t e) = False"
| "crua_var (VarId x) = True"
| "crua_var (VarIndexed a i) = (crua a \<and> crua i)"
| "crua_var (VarDec v) = False"
| "crua_var (VarParam p) = False"
| "crua_call (CmdCall x t g es) = (t = None \<and> g = None \<and> list_all crua es)"

fun apaga :: "exp \<Rightarrow> exp" and apaga_var :: "var \<Rightarrow> var" and apaga_call :: "cmd_call \<Rightarrow> cmd_call" where
  "apaga (ExpBin f t a b) = ExpBin f None (apaga a) (apaga b)"
| "apaga (ExpVar t v) = ExpVar None (apaga_var v)"
| "apaga (ExpCall t c) = ExpCall None (apaga_call c)"
| "apaga (ExpNot t e) = ExpNot None (apaga e)"
| "apaga (ExpMinus t e) = ExpMinus None (apaga e)"
| "apaga (ExpNew t n e) = ExpNew None (if t = None then n else n\<lparr>brackets := brackets n - 1\<rparr>) (apaga e)"
| "apaga (ExpString t s) = ExpString None s"
| "apaga (ExpInt t i) = ExpInt None i"
| "apaga (ExpFloat t d) = ExpFloat None d"
| "apaga (ExpCastIntToFloat t e) = apaga e"
| "apaga_var (VarId x) = VarId x"
| "apaga_var (VarIndexed a i) = VarIndexed (apaga a) (apaga i)"
| "apaga_var (VarDec v) = VarId (dv_id v)"
| "apaga_var (VarParam p) = VarId (pm_id p)"
| "apaga_call (CmdCall x t g es) = CmdCall x None None (map apaga es)"

text \<open>
  What the code generator relies on: the operands of every binary expression have one type, which is the
  type of the expression; arguments have the types of the parameters, up to \<open>int\<close> and \<open>char\<close>; every name
  is resolved to the declaration that is visible; casts are of \<open>int\<close> to \<open>float\<close>.
\<close>

fun bem_anotada :: "amb \<Rightarrow> exp \<Rightarrow> bool"
  and var_anotada :: "amb \<Rightarrow> var \<Rightarrow> monga_type option \<Rightarrow> bool"
  and call_anotada :: "amb \<Rightarrow> cmd_call \<Rightarrow> monga_type option \<Rightarrow> bool" where
  "bem_anotada \<Gamma> (ExpBin f t a b) \<longleftrightarrow>
     t \<noteq> None \<and> tipo_exp a = t \<and> tipo_exp b = t \<and> bem_anotada \<Gamma> a \<and> bem_anotada \<Gamma> b"
| "bem_anotada \<Gamma> (ExpVar t v) \<longleftrightarrow> var_anotada \<Gamma> v t"
| "bem_anotada \<Gamma> (ExpCall t c) \<longleftrightarrow> call_anotada \<Gamma> c t"
| "bem_anotada \<Gamma> (ExpNot t e) \<longleftrightarrow> t = tipo_exp e \<and> bem_anotada \<Gamma> e"
| "bem_anotada \<Gamma> (ExpMinus t e) \<longleftrightarrow> t = tipo_exp e \<and> bem_anotada \<Gamma> e"
| "bem_anotada \<Gamma> (ExpNew t n e) \<longleftrightarrow> t = Some n \<and> bem_anotada \<Gamma> e"
| "bem_anotada \<Gamma> (ExpString t s) \<longleftrightarrow> t = Some (baseTypeInit VarChar)"
| "bem_anotada \<Gamma> (ExpInt t i) \<longleftrightarrow> t = Some (baseTypeInit VarInt)"
| "bem_anotada \<Gamma> (ExpFloat t d) \<longleftrightarrow> t = Some (baseTypeInit VarFloat)"
| "bem_anotada \<Gamma> (ExpCastIntToFloat t e) \<longleftrightarrow> t = Some (baseTypeInit VarFloat) \<and> bem_anotada \<Gamma> e \<and>
     (\<exists>u. tipo_exp e = Some u \<and> ty_name u = VarInt \<and> brackets u \<le> 0)"
| "var_anotada \<Gamma> (VarId x) t \<longleftrightarrow> False"
| "var_anotada \<Gamma> (VarDec v) t \<longleftrightarrow> \<Gamma> (dv_id v) = Some (DecVar v) \<and> t = Some (promovido (dv_type v))"
| "var_anotada \<Gamma> (VarParam p) t \<longleftrightarrow> \<Gamma> (pm_id p) = Some (DecParam p) \<and> t = Some (promovido (pm_type p))"
| "var_anotada \<Gamma> (VarIndexed a i) t \<longleftrightarrow> bem_anotada \<Gamma> a \<and> bem_anotada \<Gamma> i \<and>
     (\<exists>u. tipo_exp a = Some u \<and> t = Some (u\<lparr>brackets := brackets u - 1\<rparr>))"
| "call_anotada \<Gamma> (CmdCall x u g es) t \<longleftrightarrow> (\<exists>f. g = Some f \<and> \<Gamma> x = Some (DecFunc f) \<and> u = fn_type f \<and> t = u \<and>
     list_all2 (\<lambda>e p. typeEquals (tipo_exp e) (Some (pm_type p))) es (fn_params f)) \<and> list_all (bem_anotada \<Gamma>) es"

section \<open>Parts of the checker\<close>

lemma deref_Inr [simp]: "deref p = Inr x \<longleftrightarrow> p = Some x"
  by (cases p) (auto simp: deref_def)

lemma deref_Some [simp]: "deref (Some x) = Inr x"
  by (simp add: deref_def)

lemma baseTypeInit_sel [simp]: "ty_name (baseTypeInit n) = n" "brackets (baseTypeInit n) = 0"
  by (simp_all add: baseTypeInit_def)

lemma float_base: "ty_name t = VarFloat \<Longrightarrow> brackets t = 0 \<Longrightarrow> t = baseTypeInit VarFloat"
  by (simp add: baseTypeInit_def)

lemma cast_ok: "castIntToFloat e = Inr e1 \<longleftrightarrow>
    e1 = ExpCastIntToFloat (Some (baseTypeInit VarFloat)) e \<and>
    (\<exists>t. tipo_exp e = Some t \<and> ty_name t = VarInt \<and> brackets t \<le> 0)"
  by (cases "tipo_exp e") (auto simp: castIntToFloat_def deref_def)

lemma typeEquals_Some:
  "typeEquals (Some a) (Some b) \<longleftrightarrow> brackets a = brackets b \<and>
     (ty_name a = ty_name b \<or> {ty_name a, ty_name b} = {VarInt, VarChar})"
  by (auto simp: typeEquals_def doubleton_eq_iff)

lemma typeEquals_sym: "typeEquals a b = typeEquals b a"
  by (cases a; cases b) (auto simp: typeEquals_def)

lemma checkBin_ok:
  assumes "checkBin a b = Inr (a1, b1, t)"
  shows "\<exists>s u. tipo_exp a = Some s \<and> tipo_exp b = Some u \<and> junta s u = Some t \<and>
    tipo_exp a1 = Some t \<and> tipo_exp b1 = Some t \<and> apaga a1 = apaga a \<and> apaga b1 = apaga b \<and>
    (bem_anotada \<Gamma> a \<longrightarrow> bem_anotada \<Gamma> a1) \<and> (bem_anotada \<Gamma> b \<longrightarrow> bem_anotada \<Gamma> b1)"
proof -
  obtain s u where su: "tipo_exp a = Some s" "tipo_exp b = Some u"
    using assms by (auto simp: checkBin_def res_bind_eq_Inr)
  consider "ty_name s = ty_name u" | "ty_name s = VarFloat" "ty_name u = VarInt" | "ty_name s = VarInt" "ty_name u = VarFloat"
    using assms su by (auto simp: checkBin_def split: if_splits)
  then show ?thesis
  proof cases
    case 1
    then have r: "a1 = a" "b1 = b" "t = s" "brackets s = brackets u"
      using assms su by (auto simp: checkBin_def typeEquals_Some split: if_splits)
    then have "s = u" using 1 by (intro monga_type.equality) simp_all
    then show ?thesis using su r by (simp add: junta_def)
  next
    case 2
    then have r: "a1 = a" "b1 = ExpCastIntToFloat (Some (baseTypeInit VarFloat)) b" "t = s" "brackets s = 0" "brackets u \<le> 0"
      using assms su by (auto simp: checkBin_def res_bind_eq_Inr cast_ok typeEquals_Some split: if_splits)
    have "t = baseTypeInit VarFloat" using 2 r by (intro float_base) simp_all
    then show ?thesis using 2 su r by (simp add: junta_def)
  next
    case 3
    then have r: "b1 = b" "a1 = ExpCastIntToFloat (Some (baseTypeInit VarFloat)) a" "t = u" "brackets u = 0" "brackets s \<le> 0"
      using assms su by (auto simp: checkBin_def res_bind_eq_Inr cast_ok typeEquals_Some split: if_splits)
    have "t = baseTypeInit VarFloat" using 3 r by (intro float_base) simp_all
    then show ?thesis using 3 su r by (simp add: junta_def)
  qed
qed

lemma checkBin_tipo:
  assumes "tipo_exp a = Some s" "tipo_exp b = Some u" "junta s u = Some t"
  shows "\<exists>a1 b1. checkBin a b = Inr (a1, b1, t)"
  using assms
  by (auto simp: checkBin_def castIntToFloat_def junta_def typeEquals_Some split: if_splits)

text \<open>Arguments and assigned values\<close>

lemma cast_aceito:
  assumes "escalar VarInt u" "tipo_exp e = Some u"
  shows "castIntToFloat e = Inr (ExpCastIntToFloat (Some (baseTypeInit VarFloat)) e)"
  using assms by (simp add: cast_ok escalar_def)

lemma checkArgs_ok:
  "checkArgs es ps = Inr es1 \<Longrightarrow>
     list_all2 (\<lambda>p. aceita (pm_type p)) ps (map tipo_exp es) \<and> map apaga es1 = map apaga es \<and>
     list_all2 (\<lambda>e p. typeEquals (tipo_exp e) (Some (pm_type p))) es1 ps \<and>
     (list_all (bem_anotada \<Gamma>) es \<longrightarrow> list_all (bem_anotada \<Gamma>) es1)"
proof (induction es ps arbitrary: es1 rule: checkArgs.induct)
  case (2 e es p ps)
  then obtain e1 es2 where r: "es1 = e1 # es2" "checkArgs es ps = Inr es2"
    and e1: "(if typeEquals (tipo_exp e) (Some (pm_type p)) then Inr e
        else res_bind (deref (tipo_exp e)) (\<lambda>t.
          if escalar VarInt t \<and> escalar VarFloat (pm_type p) then castIntToFloat e
          else Inl (RuntimeError ''Incompatible call signature''))) = Inr e1"
    by (auto simp: res_bind_eq_Inr)
  have "aceita (pm_type p) (tipo_exp e) \<and> typeEquals (tipo_exp e1) (Some (pm_type p)) \<and> apaga e1 = apaga e \<and>
    (bem_anotada \<Gamma> e \<longrightarrow> bem_anotada \<Gamma> e1)"
  proof (cases "typeEquals (tipo_exp e) (Some (pm_type p))")
    case True
    then obtain u where "tipo_exp e = Some u" by (cases "tipo_exp e") (auto simp: typeEquals_def)
    then show ?thesis using True e1 by (auto simp: aceita_def typeEquals_sym)
  next
    case False
    then obtain u where u: "tipo_exp e = Some u" "escalar VarInt u" "escalar VarFloat (pm_type p)"
      "e1 = ExpCastIntToFloat (Some (baseTypeInit VarFloat)) e"
      using e1 by (auto simp: res_bind_eq_Inr cast_ok split: if_splits)
    then show ?thesis by (auto simp: aceita_def typeEquals_Some escalar_def)
  qed
  then show ?case using "2.IH"[OF r(2)] r by auto
qed auto

lemma checkArgs_aceita:
  "list_all2 (\<lambda>p. aceita (pm_type p)) ps (map tipo_exp es) \<Longrightarrow> \<exists>es1. checkArgs es ps = Inr es1"
proof (induction es ps rule: checkArgs.induct)
  case (2 e es p ps)
  then have a: "aceita (pm_type p) (tipo_exp e)" "list_all2 (\<lambda>p. aceita (pm_type p)) ps (map tipo_exp es)" by auto
  then obtain u where u: "tipo_exp e = Some u" "escalar VarInt u \<and> escalar VarFloat (pm_type p) \<or> typeEquals (Some u) (Some (pm_type p))"
    by (auto simp: aceita_def typeEquals_sym)
  obtain es1 where "checkArgs es ps = Inr es1" using "2.IH" a(2) u by (cases "tipo_exp e") auto
  then show ?case using u by (auto simp: cast_aceito[OF _ u(1)])
qed auto

lemma checkAtrib_ok:
  assumes "checkAtrib t (Some e) = Inr eo"
  shows "\<exists>e1. eo = Some e1 \<and> aceita t (tipo_exp e) \<and> typeEquals (Some t) (tipo_exp e1) \<and> apaga e1 = apaga e \<and>
    (bem_anotada \<Gamma> e \<longrightarrow> bem_anotada \<Gamma> e1)"
proof -
  obtain u e1 where u: "tipo_exp e = Some u" "eo = Some e1" "typeEquals (Some t) (tipo_exp e1)"
    "(if escalar VarInt u \<and> escalar VarFloat t then castIntToFloat e else Inr e) = Inr e1"
    using assms by (auto simp: checkAtrib_def res_bind_eq_Inr split: if_splits)
  then show ?thesis by (auto simp: aceita_def cast_ok split: if_splits)
qed

lemma checkAtrib_aceita: "aceita t (tipo_exp e) \<Longrightarrow> \<exists>e1. checkAtrib t (Some e) = Inr (Some e1)"
  by (auto simp: checkAtrib_def aceita_def cast_aceito typeEquals_Some escalar_def)

section \<open>Expressions\<close>

text \<open>What the checker returns was typed by the rules, and is a well annotated version of what it read.\<close>

lemma checkExp_correto:
  "checkExp T e = Inr e1 \<Longrightarrow> crua e \<Longrightarrow>
     tipada (st_find T) e (tipo_exp e1) \<and> bem_anotada (st_find T) e1 \<and> apaga e1 = e"
  "checkVar1 T v eo = Inr (v1, eo1, t) \<Longrightarrow> eo = None \<Longrightarrow> crua_var v \<Longrightarrow>
     var_tipada (st_find T) v t \<and> var_anotada (st_find T) v1 (Some t) \<and> apaga_var v1 = v"
  "checkCmdCall T c = Inr c1 \<Longrightarrow> crua_call c \<Longrightarrow>
     (\<exists>x t g es. c1 = CmdCall x t g es \<and> chamada_tipada (st_find T) c t \<and> call_anotada (st_find T) c1 t) \<and> apaga_call c1 = c"
  "checkExpList T es = Inr es1 \<Longrightarrow> list_all crua es \<Longrightarrow>
     args_tipados (st_find T) es (map tipo_exp es1) \<and> list_all (bem_anotada (st_find T)) es1 \<and> map apaga es1 = es"
proof (induction T e and T v eo and T c and T es arbitrary: e1 and v1 eo1 t and c1 and es1
    rule: checkExp_checkVar1_checkCmdCall_checkExpList.induct)
  case (1 T f n a b)
  then obtain a1 b1 a2 b2 u where r: "checkExp T a = Inr a1" "checkExp T b = Inr b1" "checkBin a1 b1 = Inr (a2, b2, u)"
    "e1 = ExpBin f (Some u) a2 b2" by (auto simp: res_bind_eq_Inr)
  have "tipada (st_find T) a (tipo_exp a1) \<and> bem_anotada (st_find T) a1 \<and> apaga a1 = a"
    "tipada (st_find T) b (tipo_exp b1) \<and> bem_anotada (st_find T) b1 \<and> apaga b1 = b"
    using "1.IH"(1)[OF r(1)] "1.IH"(2)[OF r(2)] "1.prems"(2) by auto
  then show ?case using checkBin_ok[OF r(3), of "st_find T"] r(4) "1.prems"(2) by (auto intro: bin)
next
  case (2 T n v)
  then show ?case by (fastforce simp: res_bind_eq_Inr intro: tipada_var_tipada_chamada_tipada_args_tipados.var)
next
  case (3 T n c)
  from "3.prems"(1) obtain c1 where c1: "checkCmdCall T c = Inr c1" "(case c1 of CmdCall x u g es \<Rightarrow> Inr (ExpCall u c1)) = (Inr e1 :: exp res)"
    by (simp only: checkExp.simps res_bind_eq_Inr) blast
  obtain x t g es where "c1 = CmdCall x t g es" by (cases c1)
  then show ?case using "3.IH"[OF c1(1)] "3.prems"(2) c1(2) by (auto intro: call)
next
  case (4 T n e)
  then show ?case by (auto simp: res_bind_eq_Inr intro: nao)
next
  case (5 T n e)
  then show ?case by (auto simp: res_bind_eq_Inr intro: menos)
next
  case (6 T n u e)
  then show ?case by (auto simp: res_bind_eq_Inr Let_def intro: novo)
next
  case (11 T x eo)
  then obtain d where d: "st_find T x = Some d" "dec_id d = Some x" using st_find_id by (auto split: option.splits)
  then show ?case using 11 by (cases d) (auto simp: checkAtrib_def intro: dec par)
next
  case (12 T a i eo)
  then obtain a1 i1 u where r: "checkExp T a = Inr a1" "checkExp T i = Inr i1" "tipo_exp a1 = Some u" "v1 = VarIndexed a1 i1"
    "t = u\<lparr>brackets := brackets u - 1\<rparr>" by (auto simp: res_bind_eq_Inr)
  have "tipada (st_find T) a (Some u) \<and> bem_anotada (st_find T) a1 \<and> apaga a1 = a"
    "tipada (st_find T) i (tipo_exp i1) \<and> bem_anotada (st_find T) i1 \<and> apaga i1 = i"
    using "12.IH"(1)[OF r(1)] "12.IH"(2)[OF r(2)] "12.prems"(3) r(3) by auto
  then show ?case using r(3-5) by (auto intro: indice)
next
  case (15 T x n g es)
  then obtain f es0 es2 where r: "st_find T x = Some (DecFunc f)" "checkExpList T es = Inr es0"
    "checkArgs es0 (fn_params f) = Inr es2" "c1 = CmdCall x (fn_type f) (Some f) es2"
    by (auto simp: res_bind_eq_Inr split: option.splits dec.splits)
  have "args_tipados (st_find T) es (map tipo_exp es0) \<and> list_all (bem_anotada (st_find T)) es0 \<and> map apaga es0 = es"
    using "15.IH" r(1,2) "15.prems"(2) by auto
  then show ?case using checkArgs_ok[OF r(3), of "st_find T"] r "15.prems"(2) by (auto intro: chamada)
next
  case (17 T e es)
  then show ?case by (auto simp: res_bind_eq_Inr intro: mais_um)
qed (auto intro: texto inteiro real nenhum)

text \<open>And what the rules type, the checker accepts.\<close>

lemma checkExp_completo:
  "tipada \<Gamma> e t \<Longrightarrow> \<Gamma> = st_find T \<Longrightarrow> \<exists>e1. checkExp T e = Inr e1 \<and> tipo_exp e1 = t"
  "var_tipada \<Gamma> v u \<Longrightarrow> \<Gamma> = st_find T \<Longrightarrow> \<exists>v1. checkVar1 T v None = Inr (v1, None, u)"
  "chamada_tipada \<Gamma> c t \<Longrightarrow> \<Gamma> = st_find T \<Longrightarrow> \<exists>x g es. checkCmdCall T c = Inr (CmdCall x t g es)"
  "args_tipados \<Gamma> es ts \<Longrightarrow> \<Gamma> = st_find T \<Longrightarrow> \<exists>es1. checkExpList T es = Inr es1 \<and> map tipo_exp es1 = ts"
proof (induction rule: tipada_var_tipada_chamada_tipada_args_tipados.inducts)
  case (bin a s b u t f n)
  then show ?case using checkBin_tipo by fastforce
next
  case (dec x v)
  then show ?case by (auto simp: checkAtrib_def)
next
  case (par x p)
  then show ?case by (auto simp: checkAtrib_def)
next
  case (chamada x f es ts n g)
  then obtain es1 where e: "checkExpList T es = Inr es1" "map tipo_exp es1 = ts" by blast
  then obtain es2 where "checkArgs es1 (fn_params f) = Inr es2" using checkArgs_aceita chamada by blast
  then show ?case using e chamada by (auto split: option.splits)
qed (fastforce simp: Let_def)+

end
