(* ===== verification/MongaProg.thy ===== *)
theory MongaProg
  imports MongaTipos
begin

text \<open>
  Commands, blocks and programs: their rules, their annotated trees, and the checker. Scopes open and
  close; the table is the same after a block as before it.
\<close>

section \<open>Declarations in a scope\<close>

fun declarar :: "amb \<Rightarrow> dec list \<Rightarrow> amb" where
  "declarar \<Gamma> [] = \<Gamma>"
| "declarar \<Gamma> (d # ds) = declarar (\<Gamma>(the (dec_id d) \<mapsto> d)) ds"

fun checkDecs :: "tabela \<Rightarrow> dec list \<Rightarrow> tabela res" where
  "checkDecs T [] = Inr T"
| "checkDecs T (d # ds) =
     res_bind (checkSymbolRedefinition T (the (dec_id d))) (\<lambda>_.
     res_bind (acrescentar d T) (\<lambda>T1. checkDecs T1 ds))"

lemma checkDefVarList_decs: "checkDefVarList T vs = checkDecs T (map DecVar vs)"
  by (induction vs arbitrary: T) (simp_all add: addDecVar_def)

lemma checkParamList_decs: "checkParamList T ps = checkDecs T (map DecParam ps)"
  by (induction ps arbitrary: T) (simp_all add: addParam_def)

abbreviation ids :: "dec list \<Rightarrow> string list" where
  "ids ds \<equiv> map (\<lambda>d. the (dec_id d)) ds"

lemma checkSymbolRedefinition_ok:
  "tabela_ok T \<Longrightarrow> checkSymbolRedefinition T x =
     (if x \<in> nomes T then Inl (RuntimeError ''Symbol has already been defined in this scope'') else Inr ())"
  by (cases T) (auto simp: checkSymbolRedefinition_def findCurrentScope_def nomes_def tabela_ok_def)

lemma checkDecs_ok:
  assumes "tabela_ok T" "DecNone \<notin> set ds"
  shows "if distinct (ids ds) \<and> set (ids ds) \<inter> nomes T = {}
    then \<exists>T1. checkDecs T ds = Inr T1 \<and> tabela_ok T1 \<and> st_find T1 = declarar (st_find T) ds \<and>
      nomes T1 = nomes T \<union> set (ids ds) \<and> tl T1 = tl T
    else \<not> is_ok (checkDecs T ds)"
  using assms
proof (induction ds arbitrary: T)
  case Nil
  then show ?case by simp
next
  case (Cons d ds)
  then obtain x where x: "dec_id d = Some x" "d \<noteq> DecNone" by (cases d) auto
  show ?case
  proof (cases "x \<in> nomes T")
    case True
    then show ?thesis using x Cons.prems(1) by (simp add: checkSymbolRedefinition_ok)
  next
    case False
    from acrescentar_ok[OF Cons.prems(1) x(2,1) False] obtain T' where
      T': "acrescentar d T = Inr T'" "tabela_ok T'" "st_find T' = (st_find T)(x \<mapsto> d)" "nomes T' = insert x (nomes T)" "tl T' = tl T"
      by blast
    have c: "checkDecs T (d # ds) = checkDecs T' ds"
      using False x(1) T'(1) Cons.prems(1) by (simp add: checkSymbolRedefinition_ok)
    have e: "distinct (ids (d # ds)) \<and> set (ids (d # ds)) \<inter> nomes T = {} \<longleftrightarrow>
        distinct (ids ds) \<and> set (ids ds) \<inter> nomes T' = {}"
      using x(1) T'(4) False by auto
    have "DecNone \<notin> set ds" using Cons.prems(2) by simp
    note IH = Cons.IH[OF T'(2) this]
    have g: "declarar (st_find T) (d # ds) = declarar (st_find T') ds" "nomes T \<union> set (ids (d # ds)) = nomes T' \<union> set (ids ds)"
      using x(1) T'(3,4) by simp_all
    show ?thesis using IH unfolding c e g T'(5) .
  qed
qed

lemma enterScope_ok:
  "tabela_ok T \<Longrightarrow> tabela_ok (enterScope T) \<and> st_find (enterScope T) = st_find T \<and> nomes (enterScope T) = {} \<and>
     tl (enterScope T) = T"
  by (auto simp: enterScope_def create_symbolTable_def tabela_ok_def escopo_ok_def nomes_def fun_eq_iff)

lemma leaveScope_ok: "tabela_ok T \<Longrightarrow> leaveScope T = Inr (tl T)"
  by (cases T) (simp_all add: leaveScope_def tabela_ok_def)

text \<open>The scope of a block or of parameters\<close>

lemma escopo_novo:
  assumes "tabela_ok T" "DecNone \<notin> set ds"
  shows "if distinct (ids ds)
    then \<exists>T1. checkDecs (enterScope T) ds = Inr T1 \<and> tabela_ok T1 \<and> st_find T1 = declarar (st_find T) ds \<and>
      leaveScope T1 = Inr T
    else \<not> is_ok (checkDecs (enterScope T) ds)"
proof -
  have e: "tabela_ok (enterScope T)" "st_find (enterScope T) = st_find T" "nomes (enterScope T) = {}" "tl (enterScope T) = T"
    using enterScope_ok[OF assms(1)] by blast+
  show ?thesis using checkDecs_ok[OF e(1) assms(2)] by (auto simp: e leaveScope_ok split: if_splits)
qed

section \<open>Rules\<close>

definition condicao :: "amb \<Rightarrow> exp \<Rightarrow> bool" where
  "condicao \<Gamma> e \<longleftrightarrow> (\<exists>t. tipada \<Gamma> e (Some t) \<and> ty_name t \<noteq> VarChar \<and> brackets t = 0)"

inductive atrib_tipada :: "amb \<Rightarrow> var \<Rightarrow> exp \<Rightarrow> bool" for \<Gamma> where
  "\<Gamma> x = Some (DecVar v) \<Longrightarrow> tipada \<Gamma> e s \<Longrightarrow> aceita (dv_type v) s \<Longrightarrow> atrib_tipada \<Gamma> (VarId x) e"
| "\<Gamma> x = Some (DecParam p) \<Longrightarrow> tipada \<Gamma> e s \<Longrightarrow> aceita (pm_type p) s \<Longrightarrow> atrib_tipada \<Gamma> (VarId x) e"
| "tipada \<Gamma> a (Some t) \<Longrightarrow> tipada \<Gamma> i u \<Longrightarrow> tipada \<Gamma> e (Some (t\<lparr>brackets := brackets t - 1\<rparr>)) \<Longrightarrow>
     atrib_tipada \<Gamma> (VarIndexed a i) e"

inductive cmd_tipado :: "amb \<Rightarrow> monga_type option \<Rightarrow> cmd \<Rightarrow> bool"
  and basico_tipado :: "amb \<Rightarrow> monga_type option \<Rightarrow> cmd_basic \<Rightarrow> bool"
  and bloco_tipado :: "amb \<Rightarrow> monga_type option \<Rightarrow> block \<Rightarrow> bool"
  and cmds_tipados :: "amb \<Rightarrow> monga_type option \<Rightarrow> cmd list \<Rightarrow> bool" where
  enquanto: "condicao \<Gamma> e \<Longrightarrow> cmd_tipado \<Gamma> r c \<Longrightarrow> cmd_tipado \<Gamma> r (CmdWhile e c)"
| se: "condicao \<Gamma> e \<Longrightarrow> cmd_tipado \<Gamma> r c \<Longrightarrow> cmd_tipado \<Gamma> r (CmdIf e c)"
| se_senao: "condicao \<Gamma> e \<Longrightarrow> cmd_tipado \<Gamma> r c \<Longrightarrow> cmd_tipado \<Gamma> r d \<Longrightarrow> cmd_tipado \<Gamma> r (CmdIfElse e c d)"
| basico: "basico_tipado \<Gamma> r b \<Longrightarrow> cmd_tipado \<Gamma> r (CmdBasicCmd b)"
| volta: "basico_tipado \<Gamma> r (CmdBasicReturn None)"
| volta_com: "tipada \<Gamma> e t \<Longrightarrow> typeEquals t r \<Longrightarrow> basico_tipado \<Gamma> r (CmdBasicReturn (Some e))"
| chama: "chamada_tipada \<Gamma> c t \<Longrightarrow> basico_tipado \<Gamma> r (CmdBasicCall c)"
| atribui: "atrib_tipada \<Gamma> v e \<Longrightarrow> basico_tipado \<Gamma> r (CmdBasicVar v e)"
| interno: "bloco_tipado \<Gamma> r b \<Longrightarrow> basico_tipado \<Gamma> r (CmdBasicBlock b)"
| bloco: "distinct (map dv_id vs) \<Longrightarrow> cmds_tipados (declarar \<Gamma> (map DecVar vs)) r cs \<Longrightarrow> bloco_tipado \<Gamma> r (Block vs cs)"
| sem_cmds: "cmds_tipados \<Gamma> r []"
| com_cmds: "cmd_tipado \<Gamma> r c \<Longrightarrow> cmds_tipados \<Gamma> r cs \<Longrightarrow> cmds_tipados \<Gamma> r (c # cs)"

text \<open>A program over the visible declarations and the names that are taken\<close>

inductive prog_tipado :: "amb \<Rightarrow> string set \<Rightarrow> definition_m list \<Rightarrow> bool" where
  sem_defs: "prog_tipado \<Gamma> N []"
| def_vars: "distinct (map dv_id vs) \<Longrightarrow> dv_id ` set vs \<inter> N = {} \<Longrightarrow>
    prog_tipado (declarar \<Gamma> (map DecVar vs)) (N \<union> dv_id ` set vs) ds \<Longrightarrow> prog_tipado \<Gamma> N (TypeDefVar vs # ds)"
| def_func: "fn_id f \<notin> N \<Longrightarrow> distinct (map pm_id (fn_params f)) \<Longrightarrow>
    bloco_tipado (declarar (\<Gamma>(fn_id f \<mapsto> DecFunc f)) (map DecParam (fn_params f))) (fn_type f) b \<Longrightarrow>
    prog_tipado (\<Gamma>(fn_id f \<mapsto> DecFunc f)) (insert (fn_id f) N) ds \<Longrightarrow> prog_tipado \<Gamma> N (TypeDefFunc (Func f b) # ds)"

inductive_cases tipado_casos:
  "cmd_tipado \<Gamma> r (CmdWhile e c)" "cmd_tipado \<Gamma> r (CmdIf e c)" "cmd_tipado \<Gamma> r (CmdIfElse e c d)"
  "cmd_tipado \<Gamma> r (CmdBasicCmd b)" "basico_tipado \<Gamma> r (CmdBasicReturn eo)" "basico_tipado \<Gamma> r (CmdBasicCall c)"
  "basico_tipado \<Gamma> r (CmdBasicVar v e)" "basico_tipado \<Gamma> r (CmdBasicBlock b)" "bloco_tipado \<Gamma> r (Block vs cs)"
  "cmds_tipados \<Gamma> r (c # cs)"

inductive_cases prog_casos: "prog_tipado \<Gamma> N (TypeDefVar vs # ds)" "prog_tipado \<Gamma> N (TypeDefFunc (Func f b) # ds)"

section \<open>Trees before and after\<close>

fun cru_cmd :: "cmd \<Rightarrow> bool" and cru_basico :: "cmd_basic \<Rightarrow> bool" and cru_bloco :: "block \<Rightarrow> bool" where
  "cru_cmd (CmdWhile e c) = (crua e \<and> cru_cmd c)"
| "cru_cmd (CmdIf e c) = (crua e \<and> cru_cmd c)"
| "cru_cmd (CmdIfElse e c d) = (crua e \<and> cru_cmd c \<and> cru_cmd d)"
| "cru_cmd (CmdBasicCmd b) = cru_basico b"
| "cru_basico (CmdBasicReturn eo) = (case eo of None \<Rightarrow> True | Some e \<Rightarrow> crua e)"
| "cru_basico (CmdBasicCall c) = crua_call c"
| "cru_basico (CmdBasicVar v e) = (crua_var v \<and> crua e)"
| "cru_basico (CmdBasicBlock b) = cru_bloco b"
| "cru_bloco (Block vs cs) = list_all cru_cmd cs"

fun apaga_cmd :: "cmd \<Rightarrow> cmd" and apaga_basico :: "cmd_basic \<Rightarrow> cmd_basic" and apaga_bloco :: "block \<Rightarrow> block" where
  "apaga_cmd (CmdWhile e c) = CmdWhile (apaga e) (apaga_cmd c)"
| "apaga_cmd (CmdIf e c) = CmdIf (apaga e) (apaga_cmd c)"
| "apaga_cmd (CmdIfElse e c d) = CmdIfElse (apaga e) (apaga_cmd c) (apaga_cmd d)"
| "apaga_cmd (CmdBasicCmd b) = CmdBasicCmd (apaga_basico b)"
| "apaga_basico (CmdBasicReturn eo) = CmdBasicReturn (map_option apaga eo)"
| "apaga_basico (CmdBasicCall c) = CmdBasicCall (apaga_call c)"
| "apaga_basico (CmdBasicVar v e) = CmdBasicVar (apaga_var v) (apaga e)"
| "apaga_basico (CmdBasicBlock b) = CmdBasicBlock (apaga_bloco b)"
| "apaga_bloco (Block vs cs) = Block vs (map apaga_cmd cs)"

definition cond_anotada :: "amb \<Rightarrow> exp \<Rightarrow> bool" where
  "cond_anotada \<Gamma> e \<longleftrightarrow> bem_anotada \<Gamma> e \<and> (\<exists>t. tipo_exp e = Some t \<and> ty_name t \<noteq> VarChar \<and> brackets t = 0)"

fun atrib_anotada :: "amb \<Rightarrow> var \<Rightarrow> exp \<Rightarrow> bool" where
  "atrib_anotada \<Gamma> (VarId x) e = False"
| "atrib_anotada \<Gamma> (VarDec v) e =
     (\<Gamma> (dv_id v) = Some (DecVar v) \<and> bem_anotada \<Gamma> e \<and> typeEquals (Some (dv_type v)) (tipo_exp e))"
| "atrib_anotada \<Gamma> (VarParam p) e =
     (\<Gamma> (pm_id p) = Some (DecParam p) \<and> bem_anotada \<Gamma> e \<and> typeEquals (Some (pm_type p)) (tipo_exp e))"
| "atrib_anotada \<Gamma> (VarIndexed a i) e =
     (bem_anotada \<Gamma> a \<and> bem_anotada \<Gamma> i \<and> bem_anotada \<Gamma> e \<and>
      tipo_exp e = map_option (\<lambda>t. t\<lparr>brackets := brackets t - 1\<rparr>) (tipo_exp a) \<and> tipo_exp a \<noteq> None)"

fun cmd_anotado :: "amb \<Rightarrow> monga_type option \<Rightarrow> cmd \<Rightarrow> bool"
  and basico_anotado :: "amb \<Rightarrow> monga_type option \<Rightarrow> cmd_basic \<Rightarrow> bool"
  and bloco_anotado :: "amb \<Rightarrow> monga_type option \<Rightarrow> block \<Rightarrow> bool" where
  "cmd_anotado \<Gamma> r (CmdWhile e c) = (cond_anotada \<Gamma> e \<and> cmd_anotado \<Gamma> r c)"
| "cmd_anotado \<Gamma> r (CmdIf e c) = (cond_anotada \<Gamma> e \<and> cmd_anotado \<Gamma> r c)"
| "cmd_anotado \<Gamma> r (CmdIfElse e c d) = (cond_anotada \<Gamma> e \<and> cmd_anotado \<Gamma> r c \<and> cmd_anotado \<Gamma> r d)"
| "cmd_anotado \<Gamma> r (CmdBasicCmd b) = basico_anotado \<Gamma> r b"
| "basico_anotado \<Gamma> r (CmdBasicReturn eo) =
     (case eo of None \<Rightarrow> True | Some e \<Rightarrow> bem_anotada \<Gamma> e \<and> typeEquals (tipo_exp e) r)"
| "basico_anotado \<Gamma> r (CmdBasicCall c) = (\<exists>t. call_anotada \<Gamma> c t)"
| "basico_anotado \<Gamma> r (CmdBasicVar v e) = atrib_anotada \<Gamma> v e"
| "basico_anotado \<Gamma> r (CmdBasicBlock b) = bloco_anotado \<Gamma> r b"
| "bloco_anotado \<Gamma> r (Block vs cs) = list_all (cmd_anotado (declarar \<Gamma> (map DecVar vs)) r) cs"

fun cru_def :: "definition_m \<Rightarrow> bool" where
  "cru_def (TypeDefVar vs) = True"
| "cru_def (TypeDefFunc (Func f b)) = cru_bloco b"

fun apaga_def :: "definition_m \<Rightarrow> definition_m" where
  "apaga_def (TypeDefVar vs) = TypeDefVar vs"
| "apaga_def (TypeDefFunc (Func f b)) = TypeDefFunc (Func f (apaga_bloco b))"

fun prog_anotado :: "amb \<Rightarrow> definition_m list \<Rightarrow> bool" where
  "prog_anotado \<Gamma> [] = True"
| "prog_anotado \<Gamma> (TypeDefVar vs # ds) = prog_anotado (declarar \<Gamma> (map DecVar vs)) ds"
| "prog_anotado \<Gamma> (TypeDefFunc (Func f b) # ds) =
     (bloco_anotado (declarar (\<Gamma>(fn_id f \<mapsto> DecFunc f)) (map DecParam (fn_params f))) (fn_type f) b \<and>
      prog_anotado (\<Gamma>(fn_id f \<mapsto> DecFunc f)) ds)"

end
