(* ===== verification/MongaProps.thy ===== *)
theory MongaProps
  imports MongaProg
begin

text \<open>
  The checker against the rules: it accepts the programs that the rules type, leaves the table as it was
  after every block, and fills in the tree as the code generator expects it. And what the rules let
  through that the description of the language does not.
\<close>

section \<open>Commands\<close>

lemma checkCond_correto:
  assumes "checkCond T e = Inr e1" "crua e"
  shows "condicao (st_find T) e \<and> cond_anotada (st_find T) e1 \<and> apaga e1 = e"
proof -
  obtain t where t: "checkExp T e = Inr e1" "tipo_exp e1 = Some t" "ty_name t \<noteq> VarChar" "brackets t = 0"
    using assms(1) by (cases "tipo_exp e1")
      (auto simp: checkCond_def isExpNumerical_def res_bind_eq_Inr split: if_splits, (metis var_type.exhaust)?)
  from checkExp_correto(1)[OF t(1) assms(2)] t(2-4) show ?thesis
    by (auto simp: condicao_def cond_anotada_def)
qed

lemma checkCond_completo: "condicao (st_find T) e \<Longrightarrow> \<exists>e1. checkCond T e = Inr e1"
proof -
  assume "condicao (st_find T) e"
  then obtain t where t: "tipada (st_find T) e (Some t)" "ty_name t \<noteq> VarChar" "brackets t = 0" by (auto simp: condicao_def)
  from checkExp_completo(1)[OF t(1) refl] obtain e1 where "checkExp T e = Inr e1" "tipo_exp e1 = Some t" by blast
  then show ?thesis using t(2,3) by (cases "ty_name t") (simp_all add: checkCond_def isExpNumerical_def)
qed

lemma checkVar_correto:
  assumes "checkVar T v (Some e) = Inr (v1, eo, t)" "crua_var v" "crua e"
  shows "\<exists>e1. eo = Some e1 \<and> atrib_tipada (st_find T) v e \<and> atrib_anotada (st_find T) v1 e1 \<and> apaga_var v1 = v \<and> apaga e1 = e"
proof -
  obtain e0 where e0: "checkExp T e = Inr e0" "checkVar1 T v (Some e0) = Inr (v1, eo, t)"
    using assms(1) by (auto simp: checkVar_def res_bind_eq_Inr)
  note e = checkExp_correto(1)[OF e0(1) assms(3)]
  show ?thesis
  proof (cases v)
    case (VarId x)
    then obtain d where d: "st_find T x = Some d" "dec_id d = Some x" using e0(2) st_find_id by (auto split: option.splits)
    show ?thesis
    proof (cases d)
      case (DecVar w)
      then have "checkAtrib (dv_type w) (Some e0) = Inr eo" "v1 = VarDec w" using e0(2) VarId d by (auto simp: res_bind_eq_Inr)
      then show ?thesis using checkAtrib_ok[of "dv_type w" e0 eo "st_find T"] e VarId DecVar d
        by (auto intro: atrib_tipada.intros)
    next
      case (DecParam p)
      then have "checkAtrib (pm_type p) (Some e0) = Inr eo" "v1 = VarParam p" using e0(2) VarId d by (auto simp: res_bind_eq_Inr)
      then show ?thesis using checkAtrib_ok[of "pm_type p" e0 eo "st_find T"] e VarId DecParam d
        by (auto intro: atrib_tipada.intros)
    qed (use e0(2) VarId d in auto)
  next
    case (VarIndexed a i)
    then obtain a1 i1 u s where r: "checkExp T a = Inr a1" "checkExp T i = Inr i1" "tipo_exp a1 = Some u" "v1 = VarIndexed a1 i1"
      "eo = Some e0" "tipo_exp e0 = Some s" "ty_name u = ty_name s" "brackets u - 1 = brackets s"
      using e0(2) by (auto simp: res_bind_eq_Inr split: if_splits)
    have s: "s = u\<lparr>brackets := brackets u - 1\<rparr>" using r(7,8) by (intro monga_type.equality) simp_all
    have cr: "crua a" "crua i" using assms(2) VarIndexed by simp_all
    note a = checkExp_correto(1)[OF r(1) cr(1), unfolded r(3)] and i = checkExp_correto(1)[OF r(2) cr(2)]
    have te: "tipada (st_find T) e (Some s)" using e r(6) by simp
    have "atrib_tipada (st_find T) (VarIndexed a i) e"
      by (rule atrib_tipada.intros(3)[OF conjunct1[OF a] conjunct1[OF i] te[unfolded s]])
    then show ?thesis using a i e r(3-6) s VarIndexed by simp
  qed (use e0(2) in auto)
qed

lemma checkVar_completo:
  "atrib_tipada (st_find T) v e \<Longrightarrow> \<exists>v1 e1 t. checkVar T v (Some e) = Inr (v1, Some e1, t)"
proof (induction v e rule: atrib_tipada.induct)
  case (1 x w e s)
  obtain e0 where "checkExp T e = Inr e0" "tipo_exp e0 = s" using checkExp_completo(1)[OF 1(2) refl] by blast
  then show ?case using checkAtrib_aceita[of "dv_type w" e0] 1 by (auto simp: checkVar_def)
next
  case (2 x p e s)
  obtain e0 where "checkExp T e = Inr e0" "tipo_exp e0 = s" using checkExp_completo(1)[OF 2(2) refl] by blast
  then show ?case using checkAtrib_aceita[of "pm_type p" e0] 2 by (auto simp: checkVar_def)
next
  case (3 a t i u e)
  obtain e0 a0 i0 where "checkExp T e = Inr e0" "tipo_exp e0 = Some (t\<lparr>brackets := brackets t - 1\<rparr>)"
    "checkExp T a = Inr a0" "tipo_exp a0 = Some t" "checkExp T i = Inr i0"
    using checkExp_completo(1)[OF 3(1) refl] checkExp_completo(1)[OF 3(2) refl] checkExp_completo(1)[OF 3(3) refl] by blast
  then show ?case by (simp add: checkVar_def)
qed

lemma decs_None [simp]: "DecNone \<notin> DecVar ` A" "DecNone \<notin> DecParam ` B"
  by auto

lemma ids_decs [simp]:
  "(\<lambda>d. the (dec_id d)) \<circ> DecVar = dv_id" "(\<lambda>d. the (dec_id d)) \<circ> DecParam = pm_id"
  by (simp_all add: fun_eq_iff)

lemma checkCmd_correto:
  "checkCmd r T c = Inr (c1, T1) \<Longrightarrow> tabela_ok T \<Longrightarrow> cru_cmd c \<Longrightarrow>
     T1 = T \<and> cmd_tipado (st_find T) r c \<and> cmd_anotado (st_find T) r c1 \<and> apaga_cmd c1 = c"
  "checkCmdBasic r T b = Inr (b1, T1) \<Longrightarrow> tabela_ok T \<Longrightarrow> cru_basico b \<Longrightarrow>
     T1 = T \<and> basico_tipado (st_find T) r b \<and> basico_anotado (st_find T) r b1 \<and> apaga_basico b1 = b"
  "checkBlock r T k = Inr (k1, T1) \<Longrightarrow> tabela_ok T \<Longrightarrow> cru_bloco k \<Longrightarrow>
     T1 = T \<and> bloco_tipado (st_find T) r k \<and> bloco_anotado (st_find T) r k1 \<and> apaga_bloco k1 = k"
  "checkCmdList r T cs = Inr (cs1, T1) \<Longrightarrow> tabela_ok T \<Longrightarrow> list_all cru_cmd cs \<Longrightarrow>
     T1 = T \<and> cmds_tipados (st_find T) r cs \<and> list_all (cmd_anotado (st_find T) r) cs1 \<and> map apaga_cmd cs1 = cs"
proof (induction r T c and r T b and r T k and r T cs arbitrary: c1 T1 and b1 T1 and k1 T1 and cs1 T1
    rule: checkCmd_checkCmdBasic_checkBlock_checkCmdList.induct)
  case (1 r T e c)
  then show ?case by (force simp: res_bind_eq_Inr dest: checkCond_correto intro: enquanto)
next
  case (2 r T e c)
  then show ?case by (force simp: res_bind_eq_Inr dest: checkCond_correto intro: se)
next
  case (3 r T e c d)
  then obtain e1 c' T' d' where r: "checkCond T e = Inr e1" "checkCmd r T c = Inr (c', T')" "checkCmd r T' d = Inr (d', T1)"
    "c1 = CmdIfElse e1 c' d'" by (auto simp: res_bind_eq_Inr)
  have c: "T' = T" "cmd_tipado (st_find T) r c" "cmd_anotado (st_find T) r c'" "apaga_cmd c' = c"
    using "3.IH"(1)[OF r(2)] "3.prems" by auto
  have d: "T1 = T" "cmd_tipado (st_find T) r d" "cmd_anotado (st_find T) r d'" "apaga_cmd d' = d"
    using "3.IH"(2)[of T' d' T1] r(3) "3.prems" c(1) by auto
  show ?case using c d r checkCond_correto[OF r(1)] "3.prems" by (auto intro: se_senao)
next
  case (4 r T b)
  then show ?case by (force simp: res_bind_eq_Inr intro: basico)
next
  case (5 r T eo)
  show ?case
  proof (cases eo)
    case None
    then show ?thesis using 5 by (auto intro: volta)
  next
    case (Some e)
    obtain e1 where e1: "checkExp T e = Inr e1" "typeEquals (tipo_exp e1) r" "b1 = CmdBasicReturn (Some e1)" "T1 = T"
      using "5.prems"(1) unfolding Some checkCmdBasic.simps option.case res_bind_eq_Inr by (metis Inr_inject Inl_Inr_False prod.inject)
    have "crua e" using "5.prems"(3) Some by simp
    note e = checkExp_correto(1)[OF e1(1) this]
    show ?thesis unfolding Some e1(3,4) using volta_com[OF conjunct1[OF e] e1(2)] e e1(2) by simp
  qed
next
  case (6 r T c)
  from "6.prems"(1) obtain c1 where c1: "checkCmdCall T c = Inr c1" "b1 = CmdBasicCall c1" "T1 = T"
    unfolding checkCmdBasic.simps res_bind_eq_Inr by (metis Inr_inject prod.inject)
  have "crua_call c" using "6.prems"(3) by simp
  then obtain t where t: "chamada_tipada (st_find T) c t" "call_anotada (st_find T) c1 t" "apaga_call c1 = c"
    using checkExp_correto(3)[OF c1(1)] by metis
  show ?case unfolding c1(2,3) basico_anotado.simps apaga_basico.simps t(3) using chama[OF t(1)] t(2) by blast
next
  case (7 r T b)
  then show ?case by (force simp: res_bind_eq_Inr intro: interno)
next
  case (8 r T v e)
  obtain v1 eo t where r: "checkVar T v (Some e) = Inr (v1, eo, t)" using "8.prems"(1) by (auto simp: res_bind_eq_Inr)
  have cr: "crua_var v" "crua e" using "8.prems"(3) by simp_all
  obtain e1 where e1: "eo = Some e1" "atrib_tipada (st_find T) v e" "atrib_anotada (st_find T) v1 e1" "apaga_var v1 = v" "apaga e1 = e"
    using checkVar_correto[OF r cr] by metis
  have "b1 = CmdBasicVar v1 e1" "T1 = T" using "8.prems"(1) r e1(1) by simp_all
  then show ?case using e1 atribui by simp
next
  case (9 r T vs cs)
  from "9.prems"(1) obtain T' cs' T2 where t: "checkDefVarList (enterScope T) vs = Inr T'" "checkCmdList r T' cs = Inr (cs', T2)"
    "leaveScope T2 = Inr T1" "k1 = Block vs cs'" by (auto simp: res_bind_eq_Inr)
  have e: "distinct (map dv_id vs)" "tabela_ok T'" "st_find T' = declarar (st_find T) (map DecVar vs)" "leaveScope T' = Inr T"
    using escopo_novo[OF "9.prems"(2), of "map DecVar vs"] t(1) by (auto simp: checkDefVarList_decs split: if_splits)
  have "T2 = T' \<and> cmds_tipados (st_find T') r cs \<and> list_all (cmd_anotado (st_find T') r) cs' \<and> map apaga_cmd cs' = cs"
    using "9.IH"[OF t(2)] e(2) "9.prems"(3) by simp
  then show ?case using e t(3,4) by (simp add: bloco)
next
  case (11 r T c cs)
  from "11.prems"(1) obtain c' T' cs' where r: "checkCmd r T c = Inr (c', T')" "checkCmdList r T' cs = Inr (cs', T1)" "cs1 = c' # cs'"
    by (auto simp: res_bind_eq_Inr)
  have c: "T' = T" "cmd_tipado (st_find T) r c" "cmd_anotado (st_find T) r c'" "apaga_cmd c' = c"
    using "11.IH"(1)[OF r(1)] "11.prems" by auto
  show ?case using "11.IH"(2)[of T' cs' T1] r c "11.prems" by (auto intro: com_cmds)
qed (auto intro: sem_cmds)

lemma checkCmd_completo:
  "cmd_tipado \<Gamma> r c \<Longrightarrow> tabela_ok T \<Longrightarrow> \<Gamma> = st_find T \<Longrightarrow> \<exists>c1. checkCmd r T c = Inr (c1, T)"
  "basico_tipado \<Gamma> r b \<Longrightarrow> tabela_ok T \<Longrightarrow> \<Gamma> = st_find T \<Longrightarrow> \<exists>b1. checkCmdBasic r T b = Inr (b1, T)"
  "bloco_tipado \<Gamma> r k \<Longrightarrow> tabela_ok T \<Longrightarrow> \<Gamma> = st_find T \<Longrightarrow> \<exists>k1. checkBlock r T k = Inr (k1, T)"
  "cmds_tipados \<Gamma> r cs \<Longrightarrow> tabela_ok T \<Longrightarrow> \<Gamma> = st_find T \<Longrightarrow> \<exists>cs1. checkCmdList r T cs = Inr (cs1, T)"
proof (induction arbitrary: T and T and T and T rule: cmd_tipado_basico_tipado_bloco_tipado_cmds_tipados.inducts)
  case (enquanto \<Gamma> e r c)
  then show ?case using checkCond_completo[of T e] by fastforce
next
  case (se \<Gamma> e r c)
  then show ?case using checkCond_completo[of T e] by fastforce
next
  case (se_senao \<Gamma> e r c d)
  then show ?case using checkCond_completo[of T e] by fastforce
next
  case (volta_com \<Gamma> e t r)
  then show ?case using checkExp_completo(1)[of \<Gamma> e t T] by auto
next
  case (chama \<Gamma> c t r)
  then show ?case using checkExp_completo(3)[of \<Gamma> c t T] by auto
next
  case (atribui \<Gamma> v e r)
  then show ?case using checkVar_completo[of T v e] by auto
next
  case (bloco vs \<Gamma> r cs)
  obtain T1 where T1: "checkDefVarList (enterScope T) vs = Inr T1" "tabela_ok T1"
    "st_find T1 = declarar \<Gamma> (map DecVar vs)" "leaveScope T1 = Inr T"
    using escopo_novo[OF bloco.prems(1), of "map DecVar vs"] bloco.hyps(1) bloco.prems(2)
    by (auto simp: checkDefVarList_decs)
  from bloco.IH[OF T1(2) T1(3)[symmetric]] obtain cs1 where "checkCmdList r T1 cs = Inr (cs1, T1)" by blast
  then show ?case using T1 by simp
qed fastforce+

section \<open>Programs\<close>

lemma checkDefFunc_correto:
  assumes "checkDefFunc T f b = Inr (b1, T1)" "tabela_ok T" "cru_bloco b"
  shows "fn_id f \<notin> nomes T \<and> distinct (map pm_id (fn_params f)) \<and>
    bloco_tipado (declarar ((st_find T)(fn_id f \<mapsto> DecFunc f)) (map DecParam (fn_params f))) (fn_type f) b \<and>
    bloco_anotado (declarar ((st_find T)(fn_id f \<mapsto> DecFunc f)) (map DecParam (fn_params f))) (fn_type f) b1 \<and>
    apaga_bloco b1 = b \<and> tabela_ok T1 \<and> st_find T1 = (st_find T)(fn_id f \<mapsto> DecFunc f) \<and> nomes T1 = insert (fn_id f) (nomes T)"
proof -
  obtain T2 T3 T4 where r: "checkSymbolRedefinition T (fn_id f) = Inr ()" "addDecFunc T f = Inr T2"
    "checkParamList (enterScope T2) (fn_params f) = Inr T3" "checkBlock (fn_type f) T3 b = Inr (b1, T4)" "leaveScope T4 = Inr T1"
    using assms(1) by (auto simp: checkDefFunc_def res_bind_eq_Inr)
  have n: "fn_id f \<notin> nomes T" using r(1) assms(2) by (simp add: checkSymbolRedefinition_ok split: if_splits)
  have 2: "tabela_ok T2" "st_find T2 = (st_find T)(fn_id f \<mapsto> DecFunc f)" "nomes T2 = insert (fn_id f) (nomes T)"
    using acrescentar_ok[OF assms(2) _ _ n, of "DecFunc f"] r(2) by (auto simp: addDecFunc_def)
  have 3: "distinct (map pm_id (fn_params f))" "tabela_ok T3" "st_find T3 = declarar (st_find T2) (map DecParam (fn_params f))"
    "leaveScope T3 = Inr T2"
    using escopo_novo[OF 2(1), of "map DecParam (fn_params f)"] r(3) by (auto simp: checkParamList_decs split: if_splits)
  note b = checkCmd_correto(3)[OF r(4) 3(2) assms(3)]
  then have "T1 = T2" using r(5) 3(4) by simp
  then show ?thesis using n 2 3 b by simp
qed

lemma checkDefFunc_completo:
  assumes "tabela_ok T" "fn_id f \<notin> nomes T" "distinct (map pm_id (fn_params f))"
    "bloco_tipado (declarar ((st_find T)(fn_id f \<mapsto> DecFunc f)) (map DecParam (fn_params f))) (fn_type f) b"
  shows "\<exists>r. checkDefFunc T f b = Inr r"
proof -
  obtain T2 where 2: "addDecFunc T f = Inr T2" "tabela_ok T2" "st_find T2 = (st_find T)(fn_id f \<mapsto> DecFunc f)"
    using acrescentar_ok[OF assms(1) _ _ assms(2), of "DecFunc f"] by (auto simp: addDecFunc_def)
  obtain T3 where 3: "checkParamList (enterScope T2) (fn_params f) = Inr T3" "tabela_ok T3"
    "st_find T3 = declarar (st_find T2) (map DecParam (fn_params f))" "leaveScope T3 = Inr T2"
    using escopo_novo[OF 2(2), of "map DecParam (fn_params f)"] assms(3) by (auto simp: checkParamList_decs)
  from checkCmd_completo(3)[OF assms(4) 3(2)] obtain b1 where "checkBlock (fn_type f) T3 b = Inr (b1, T3)"
    using 2(3) 3(3) by auto
  then show ?thesis using 2 3 assms(1,2) by (simp add: checkDefFunc_def checkSymbolRedefinition_ok)
qed

lemma typeCheck_correto:
  assumes "typeCheck T ds = Inr (ds1, T1)" "tabela_ok T" "list_all cru_def ds"
  shows "prog_tipado (st_find T) (nomes T) ds \<and> prog_anotado (st_find T) ds1 \<and> map apaga_def ds1 = ds"
  using assms
proof (induction ds arbitrary: T ds1)
  case Nil
  then show ?case by (simp add: sem_defs)
next
  case (Cons d ds)
  have "T \<noteq> []" using Cons.prems(2) by (simp add: tabela_ok_def)
  then obtain d1 T' es where r: "checkDefinition T d = Inr (d1, T')" "typeCheck T' ds = Inr (es, T1)" "ds1 = d1 # es"
    using Cons.prems(1) by (auto simp: res_bind_eq_Inr)
  note IH = Cons.IH[OF r(2)]
  show ?case
  proof (cases d)
    case (TypeDefVar vs)
    then have c: "checkDecs T (map DecVar vs) = Inr T'" "d1 = TypeDefVar vs"
      using r(1) by (auto simp: checkDefVarList_decs res_bind_eq_Inr)
    have "distinct (map dv_id vs)" "dv_id ` set vs \<inter> nomes T = {}" "tabela_ok T'"
      "st_find T' = declarar (st_find T) (map DecVar vs)" "nomes T' = nomes T \<union> dv_id ` set vs"
      using checkDecs_ok[OF Cons.prems(2), of "map DecVar vs"] c(1) by (auto split: if_splits)
    then show ?thesis using IH Cons.prems(3) TypeDefVar r(3) c(2) def_vars by simp
  next
    case (TypeDefFunc g)
    obtain f b where g: "g = Func f b" by (cases g)
    then obtain b1 where b1: "checkDefFunc T f b = Inr (b1, T')" "d1 = TypeDefFunc (Func f b1)"
      using r(1) TypeDefFunc by (auto simp: res_bind_eq_Inr)
    have "cru_bloco b" using Cons.prems(3) TypeDefFunc g by simp
    note f = checkDefFunc_correto[OF b1(1) Cons.prems(2) this]
    have T': "tabela_ok T'" "st_find T' = (st_find T)(fn_id f \<mapsto> DecFunc f)" "nomes T' = insert (fn_id f) (nomes T)"
      using f by blast+
    have "list_all cru_def ds" using Cons.prems(3) by simp
    note I = IH[OF T'(1) this, unfolded T'(2,3)]
    have "prog_tipado (st_find T) (nomes T) (TypeDefFunc (Func f b) # ds)" by (rule def_func) (use f I in blast)+
    then show ?thesis unfolding TypeDefFunc g r(3) b1(2) prog_anotado.simps list.map apaga_def.simps using f I by blast
  qed
qed

lemma typeCheck_completo:
  "prog_tipado \<Gamma> N ds \<Longrightarrow> tabela_ok T \<Longrightarrow> \<Gamma> = st_find T \<Longrightarrow> N = nomes T \<Longrightarrow> list_all cru_def ds \<Longrightarrow> \<exists>r. typeCheck T ds = Inr r"
proof (induction arbitrary: T rule: prog_tipado.induct)
  case (sem_defs \<Gamma> N)
  then show ?case by simp
next
  case (def_vars vs N \<Gamma> ds)
  obtain T' where T': "checkDefVarList T vs = Inr T'" "tabela_ok T'" "st_find T' = declarar \<Gamma> (map DecVar vs)"
    "nomes T' = N \<union> dv_id ` set vs"
    using checkDecs_ok[OF def_vars.prems(1), of "map DecVar vs"] def_vars.hyps(1,2) def_vars.prems(2,3)
    by (auto simp: checkDefVarList_decs)
  have "T \<noteq> []" using def_vars.prems(1) by (simp add: tabela_ok_def)
  moreover obtain r where "typeCheck T' ds = Inr r" using def_vars.IH[OF T'(2)] T'(3,4) def_vars.prems(4) by auto
  ultimately show ?case using T'(1) by (cases r) simp
next
  case (def_func f N \<Gamma> b ds)
  have "\<exists>r. checkDefFunc T f b = Inr r"
    by (rule checkDefFunc_completo[OF def_func.prems(1)]) (use def_func.hyps def_func.prems(2,3) in blast)+
  then obtain b1 T' where c: "checkDefFunc T f b = Inr (b1, T')" by (metis surj_pair)
  have "cru_bloco b" using def_func.prems(4) by simp
  note d = checkDefFunc_correto[OF c def_func.prems(1) this]
  have "T \<noteq> []" using def_func.prems(1) by (simp add: tabela_ok_def)
  moreover obtain r where "typeCheck T' ds = Inr r" using def_func.IH[of T'] d def_func.prems(2-4) by auto
  ultimately show ?case using c by (cases r) simp
qed

text \<open>
  (C12) The type checker of Monga is sound and complete for its typing rules, on every program the parser
  can build: it accepts exactly the programs in which the rules type every function body, in the scope of
  the globals and functions declared before it, of its parameters and of the enclosing blocks. And
  the tree of an accepted program is well annotated: both operands of a binary expression have the type of
  the expression, arguments and assigned values have the declared type up to \<open>int\<close> and \<open>char\<close>, every name is resolved
  to the declaration that is visible there, \<open>int\<close> is cast to \<open>float\<close> where that is needed; without the
  annotations and the casts it is the tree that was read.
\<close>

theorem monga_typecheck:
  assumes "list_all cru_def p"
  shows "((\<exists>r. typeCheck [] p = Inr r) \<longleftrightarrow> prog_tipado (\<lambda>x. None) {} p) \<and>
    (\<forall>p1 T. typeCheck [] p = Inr (p1, T) \<longrightarrow> prog_anotado (\<lambda>x. None) p1 \<and> map apaga_def p1 = p)"
proof (cases p)
  case Nil
  then show ?thesis by (auto intro: sem_defs)
next
  case (Cons d ds)
  then have e: "typeCheck [] p = typeCheck create_symbolTable p" by (simp add: create_symbolTable_def)
  have t: "tabela_ok create_symbolTable" "st_find create_symbolTable = (\<lambda>x. None)" "nomes create_symbolTable = {}"
    by (auto simp: create_symbolTable_def tabela_ok_def escopo_ok_def nomes_def)
  note c = typeCheck_correto[OF _ t(1) assms, unfolded t(2,3)] and k = typeCheck_completo[OF _ t(1) _ _ assms, unfolded t(2,3)]
  show ?thesis unfolding e using c k by auto
qed

text \<open>
  The example: \<open>int g; float media(float x, int n) { return x / n; }\<close> and a \<open>main\<close> with its own \<open>g\<close>, a
  parameter and a \<open>char\<close>, \<open>float main(int n) { int g; char c; float y; c = n; g = c; y = media(g, 2);
  while (g < y) { g = g + c; } return y; }\<close>
\<close>

abbreviation t_int :: monga_type where "t_int \<equiv> \<lparr>ty_name = VarInt, brackets = 0\<rparr>"
abbreviation t_char :: monga_type where "t_char \<equiv> \<lparr>ty_name = VarChar, brackets = 0\<rparr>"
abbreviation t_float :: monga_type where "t_float \<equiv> \<lparr>ty_name = VarFloat, brackets = 0\<rparr>"
abbreviation nome :: "string \<Rightarrow> exp" where "nome x \<equiv> ExpVar None (VarId x)"

definition sig_media :: func_sig where
  "sig_media = \<lparr>fn_type = Some t_float, fn_id = ''media'',
     fn_params = [\<lparr>pm_type = t_float, pm_id = ''x''\<rparr>, \<lparr>pm_type = t_int, pm_id = ''n''\<rparr>]\<rparr>"

definition sig_main :: func_sig where
  "sig_main = \<lparr>fn_type = Some t_float, fn_id = ''main'', fn_params = [\<lparr>pm_type = t_int, pm_id = ''n''\<rparr>]\<rparr>"

definition dv_g :: def_var where "dv_g = \<lparr>dv_type = t_int, dv_id = ''g''\<rparr>"
definition dv_c :: def_var where "dv_c = \<lparr>dv_type = t_char, dv_id = ''c''\<rparr>"
definition dv_y :: def_var where "dv_y = \<lparr>dv_type = t_float, dv_id = ''y''\<rparr>"

definition monga_exemplo :: "definition_m list" where
  "monga_exemplo =
     [TypeDefVar [dv_g],
      TypeDefFunc (Func sig_media (Block [] [CmdBasicCmd (CmdBasicReturn (Some (ExpBin ExpDiv None (nome ''x'') (nome ''n''))))])),
      TypeDefFunc (Func sig_main (Block [dv_g, dv_c, dv_y]
        [CmdBasicCmd (CmdBasicVar (VarId ''c'') (nome ''n'')),
         CmdBasicCmd (CmdBasicVar (VarId ''g'') (nome ''c'')),
         CmdBasicCmd (CmdBasicVar (VarId ''y'') (ExpCall None (CmdCall ''media'' None None [nome ''g'', ExpInt None 2]))),
         CmdWhile (ExpBin ExpLess None (nome ''g'') (nome ''y''))
           (CmdBasicCmd (CmdBasicBlock (Block []
             [CmdBasicCmd (CmdBasicVar (VarId ''g'') (ExpBin ExpAdd None (nome ''g'') (nome ''c'')))]))),
         CmdBasicCmd (CmdBasicReturn (Some (nome ''y'')))]))]"

abbreviation int_g :: exp where "int_g \<equiv> ExpVar (Some t_int) (VarDec dv_g)"
abbreviation int_c :: exp where "int_c \<equiv> ExpVar (Some t_int) (VarDec dv_c)"
abbreviation float_y :: exp where "float_y \<equiv> ExpVar (Some t_float) (VarDec dv_y)"

definition monga_anotado :: "definition_m list" where
  "monga_anotado =
     [TypeDefVar [dv_g],
      TypeDefFunc (Func sig_media (Block [] [CmdBasicCmd (CmdBasicReturn (Some (ExpBin ExpDiv (Some t_float)
        (ExpVar (Some t_float) (VarParam \<lparr>pm_type = t_float, pm_id = ''x''\<rparr>))
        (ExpCastIntToFloat (Some t_float) (ExpVar (Some t_int) (VarParam \<lparr>pm_type = t_int, pm_id = ''n''\<rparr>))))))])),
      TypeDefFunc (Func sig_main (Block [dv_g, dv_c, dv_y]
        [CmdBasicCmd (CmdBasicVar (VarDec dv_c) (ExpVar (Some t_int) (VarParam \<lparr>pm_type = t_int, pm_id = ''n''\<rparr>))),
         CmdBasicCmd (CmdBasicVar (VarDec dv_g) int_c),
         CmdBasicCmd (CmdBasicVar (VarDec dv_y) (ExpCall (Some t_float) (CmdCall ''media'' (Some t_float) (Some sig_media)
           [ExpCastIntToFloat (Some t_float) int_g, ExpInt (Some t_int) 2]))),
         CmdWhile (ExpBin ExpLess (Some t_float) (ExpCastIntToFloat (Some t_float) int_g) float_y)
           (CmdBasicCmd (CmdBasicBlock (Block []
             [CmdBasicCmd (CmdBasicVar (VarDec dv_g) (ExpBin ExpAdd (Some t_int) int_g int_c))]))),
         CmdBasicCmd (CmdBasicReturn (Some float_y))]))]"

lemma exemplo_checado:
  "typeCheck [] monga_exemplo = Inr (monga_anotado, [[DecVar dv_g, DecFunc sig_media, DecFunc sig_main]])"
  by code_simp

theorem monga_typecheck_witness:
  "prog_tipado (\<lambda>x. None) {} monga_exemplo \<and> prog_anotado (\<lambda>x. None) monga_anotado \<and>
     map apaga_def monga_anotado = monga_exemplo"
proof -
  have "list_all cru_def monga_exemplo" by code_simp
  from monga_typecheck[OF this] exemplo_checado show ?thesis by auto
qed

section \<open>What the checker lets through\<close>

text \<open>
  (C40) Where the checker and the description of the language part, and where it crashes: the value of a call
  of a \<open>void\<close> function as an operand or as a condition reads through a null pointer; a variable that is no
  array can be indexed, by an expression of any type, and has \<open>-1\<close> dimensions then; the size of a new array
  may be a \<open>float\<close>, and so may a condition; the comparison of two \<open>float\<close> is a \<open>float\<close>; an \<open>int\<close> returned from
  a \<open>float\<close> function is rejected, although it is converted everywhere else; and every function may return
  without a value.
\<close>

theorem monga_gaps:
  "(\<forall>T x f o1 b b1. st_find T x = Some (DecFunc f) \<and> fn_type f = None \<and> fn_params f = [] \<and> checkExp T b = Inr b1 \<longrightarrow>
      checkExp T (ExpBin o1 None (ExpCall None (CmdCall x None None [])) b) = Inl (UndefinedBehaviour ''null pointer'') \<and>
      checkCond T (ExpCall None (CmdCall x None None [])) = Inl (UndefinedBehaviour ''null pointer'')) \<and>
   (\<forall>T x v i i1. st_find T x = Some (DecVar v) \<and> dv_type v = t_int \<and> checkExp T i = Inr i1 \<longrightarrow>
      (\<exists>e. checkExp T (ExpVar None (VarIndexed (nome x) i)) = Inr e \<and>
         tipo_exp e = Some \<lparr>ty_name = VarInt, brackets = - 1\<rparr>)) \<and>
   (\<forall>T t d. is_ok (checkExp T (ExpNew None t (ExpFloat None d))) \<and> is_ok (checkCond T (ExpFloat None d))) \<and>
   (\<forall>T d1 d2. \<exists>e. checkExp T (ExpBin ExpLess None (ExpFloat None d1) (ExpFloat None d2)) = Inr e \<and> tipo_exp e = Some t_float) \<and>
   (\<forall>T i. checkCmdBasic (Some t_float) T (CmdBasicReturn (Some (ExpInt None i))) = Inl (RuntimeError ''invalid return type'')) \<and>
   (\<forall>r T. checkCmdBasic r T (CmdBasicReturn None) = Inr (CmdBasicReturn None, T))"
  by (auto simp: checkBin_def checkCond_def isExpNumerical_def deref_def checkAtrib_def promovido_def typeEquals_def
      baseTypeInit_def Let_def)

text \<open>With \<open>void f()\<close> and \<open>int a\<close>: \<open>f() + 1\<close> and \<open>a["x"]\<close>\<close>

theorem monga_gaps_witness:
  "checkExp [[DecFunc \<lparr>fn_type = None, fn_id = ''f'', fn_params = []\<rparr>, DecVar \<lparr>dv_type = t_int, dv_id = ''a''\<rparr>]]
     (ExpBin ExpAdd None (ExpCall None (CmdCall ''f'' None None [])) (ExpInt None 1)) = Inl (UndefinedBehaviour ''null pointer'') \<and>
   (\<exists>e. checkExp [[DecFunc \<lparr>fn_type = None, fn_id = ''f'', fn_params = []\<rparr>, DecVar \<lparr>dv_type = t_int, dv_id = ''a''\<rparr>]]
     (ExpVar None (VarIndexed (nome ''a'') (ExpString None ''x''))) = Inr e \<and> tipo_exp e = Some \<lparr>ty_name = VarInt, brackets = - 1\<rparr>)"
proof -
  let ?T = "[[DecFunc \<lparr>fn_type = None, fn_id = ''f'', fn_params = []\<rparr>, DecVar \<lparr>dv_type = t_int, dv_id = ''a''\<rparr>]]"
  have f: "st_find ?T ''f'' = Some (DecFunc \<lparr>fn_type = None, fn_id = ''f'', fn_params = []\<rparr>)"
    "st_find ?T ''a'' = Some (DecVar \<lparr>dv_type = t_int, dv_id = ''a''\<rparr>)" by simp_all
  have e: "checkExp ?T (ExpInt None 1) = Inr (ExpInt (Some t_int) 1)"
    "checkExp ?T (ExpString None ''x'') = Inr (ExpString (Some t_char) ''x'')" by (simp_all add: baseTypeInit_def)
  show ?thesis
    using monga_gaps[THEN conjunct1, THEN spec, of ?T, THEN spec, of "''f''", THEN spec, of "\<lparr>fn_type = None, fn_id = ''f'', fn_params = []\<rparr>",
        THEN spec, of ExpAdd, THEN spec, of "ExpInt None 1", THEN spec, of "ExpInt (Some t_int) 1"]
      monga_gaps[THEN conjunct2, THEN conjunct1, THEN spec, of ?T, THEN spec, of "''a''", THEN spec, of "\<lparr>dv_type = t_int, dv_id = ''a''\<rparr>",
        THEN spec, of "ExpString None ''x''", THEN spec, of "ExpString (Some t_char) ''x''"] f e
    by simp
qed

end
