(* ===== verification/Lbuf.thy ===== *)
theory Lbuf
  imports Prelude
begin

text \<open>
  The limited buffer with several producers and consumers of the course \<open>INF2591\<close>
  (\<open>INF2591-Concurrent-And-Parallel-Programming/T1-Limited-Buffer\<close>: \<open>limitedbuffer.h\<close>, \<open>limitedbuffer.c\<close>): every
  consumer is to get every value. Threads pass a baton over the semaphores: the sum of \<open>e\<close>, \<open>sW\<close> and all
  \<open>sR\<close> is one while no thread is between a wait and the post that follows it.

  A step of a thread is the code from one semaphore operation to the next one: what a thread does with
  the baton is one step, the accesses without it (\<open>writeIndex\<close>, the slot that is written or read)
  are steps of their own. Threads take turns in any order. An array is a function of its index.
\<close>

record lbuf =
  lb_n :: nat
  lb_p :: nat
  lb_c :: nat
  buffer :: "nat \<Rightarrow> int"
  pendingReads :: "nat \<Rightarrow> nat \<Rightarrow> int"
  nextConsume :: "nat \<Rightarrow> nat"
  nextWriteIndex :: nat
  waitForDeposit :: int
  waitForRead :: "nat \<Rightarrow> int"
  nW :: int
  nR :: "nat \<Rightarrow> int"
  sem_e :: nat
  sem_sW :: nat
  sem_sR :: "nat \<Rightarrow> nat"

text \<open>\<open>lixo\<close>: what \<open>malloc\<close> leaves in the slots\<close>

definition lbuf_create :: "(nat \<Rightarrow> int) \<Rightarrow> nat \<Rightarrow> nat \<Rightarrow> nat \<Rightarrow> lbuf" where
  "lbuf_create lixo nPosition pProducers cConsumers =
     \<lparr>lb_n = nPosition, lb_p = pProducers, lb_c = cConsumers, buffer = lixo, pendingReads = (\<lambda>i j. 0),
      nextConsume = (\<lambda>i. 0), nextWriteIndex = 0, waitForDeposit = 0, waitForRead = (\<lambda>i. 0), nW = 0,
      nR = (\<lambda>i. 0), sem_e = 1, sem_sW = 0, sem_sR = (\<lambda>i. 0)\<rparr>"

section \<open>Passing the baton\<close>

definition livre :: "lbuf \<Rightarrow> bool" where
  "livre b \<longleftrightarrow> list_all (\<lambda>j. pendingReads b (nextWriteIndex b) j = 0) [0..<lb_c b]"

definition SIGNAL :: "lbuf \<Rightarrow> lbuf" where
  "SIGNAL b =
     (case List.find (\<lambda>i. 0 < lb_c b \<and> nW b = 0 \<and> 0 < waitForRead b i) [0..<lb_n b] of
        Some i \<Rightarrow> b\<lparr>waitForRead := (waitForRead b)(i := waitForRead b i - 1), sem_sR := (sem_sR b)(i := sem_sR b i + 1)\<rparr>
      | None \<Rightarrow>
          if livre b \<and> nW b = 0 \<and> nR b (nextWriteIndex b) = 0 \<and> 0 < waitForDeposit b then
            b\<lparr>waitForDeposit := waitForDeposit b - 1, sem_sW := sem_sW b + 1\<rparr>
          else b\<lparr>sem_e := sem_e b + 1\<rparr>)"

text \<open>\<open>sem_wait\<close>: blocked at zero\<close>

definition wait_e :: "lbuf \<Rightarrow> lbuf option" where
  "wait_e b = (if 0 < sem_e b then Some (b\<lparr>sem_e := sem_e b - 1\<rparr>) else None)"

definition wait_sW :: "lbuf \<Rightarrow> lbuf option" where
  "wait_sW b = (if 0 < sem_sW b then Some (b\<lparr>sem_sW := sem_sW b - 1\<rparr>) else None)"

definition wait_sR :: "nat \<Rightarrow> lbuf \<Rightarrow> lbuf option" where
  "wait_sR i b = (if 0 < sem_sR b i then Some (b\<lparr>sem_sR := (sem_sR b)(i := sem_sR b i - 1)\<rparr>) else None)"

section \<open>Deposit\<close>

text \<open>Where a call of \<open>lbuf_deposit\<close> is: with \<open>data\<close>, and with \<open>writeIndex\<close> from the point it is read\<close>

datatype deposito =
    ForaD
  | EntraD int          \<comment> \<open>at the first \<open>sem_wait(&lbuf->e)\<close>\<close>
  | EsperaW int         \<comment> \<open>at \<open>sem_wait(&lbuf->sW)\<close>\<close>
  | LeIndice int        \<comment> \<open>before \<open>writeIndex\<close> is read\<close>
  | Escreve int nat     \<comment> \<open>before the slot is written\<close>
  | SaiD int nat        \<comment> \<open>at the last \<open>sem_wait(&lbuf->e)\<close>\<close>

definition entra_deposito :: "lbuf \<Rightarrow> lbuf" where
  "entra_deposito b = SIGNAL (b\<lparr>nW := nW b + 1\<rparr>)"

definition sai_deposito :: "nat \<Rightarrow> lbuf \<Rightarrow> lbuf" where
  "sai_deposito w b =
     (let b1 = b\<lparr>nW := nW b - 1,
            pendingReads := (pendingReads b)(w := (\<lambda>j. if j < lb_c b then 1 else pendingReads b w j))\<rparr>;
          i = nextWriteIndex b1 + 1 in
      SIGNAL (b1\<lparr>nextWriteIndex := (if i = lb_n b1 then 0 else i)\<rparr>))"

text \<open>One step of a deposit; \<open>None\<close> is a thread that is blocked.\<close>

fun lbuf_deposit :: "deposito \<Rightarrow> lbuf \<Rightarrow> (deposito \<times> lbuf) option" where
  "lbuf_deposit ForaD b = None"
| "lbuf_deposit (EntraD x) b =
     (case wait_e b of
        None \<Rightarrow> None
      | Some b1 \<Rightarrow>
          if \<not> livre b1 then Some (EsperaW x, b1\<lparr>waitForDeposit := waitForDeposit b1 + 1, sem_e := sem_e b1 + 1\<rparr>)
          else Some (LeIndice x, entra_deposito b1))"
| "lbuf_deposit (EsperaW x) b =
     (case wait_sW b of None \<Rightarrow> None | Some b1 \<Rightarrow> Some (LeIndice x, entra_deposito b1))"
| "lbuf_deposit (LeIndice x) b = Some (Escreve x (nextWriteIndex b), b)"
| "lbuf_deposit (Escreve x w) b = Some (SaiD x w, b\<lparr>buffer := (buffer b)(w := x)\<rparr>)"
| "lbuf_deposit (SaiD x w) b =
     (case wait_e b of None \<Rightarrow> None | Some b1 \<Rightarrow> Some (ForaD, sai_deposito w b1))"

section \<open>Consume\<close>

datatype consumo =
    ForaC
  | EntraC              \<comment> \<open>at the first \<open>sem_wait(&lbuf->e)\<close>\<close>
  | EsperaR nat         \<comment> \<open>at \<open>sem_wait(&lbuf->sR[readIndex])\<close>\<close>
  | Le nat              \<comment> \<open>before the slot is read\<close>
  | SaiC nat int        \<comment> \<open>at the last \<open>sem_wait(&lbuf->e)\<close>, with \<open>data\<close>\<close>

definition getAndAdvanceNextReadIndex :: "nat \<Rightarrow> lbuf \<Rightarrow> nat \<times> lbuf" where
  "getAndAdvanceNextReadIndex t b =
     (nextConsume b t,
      b\<lparr>nextConsume := (nextConsume b)(t := (if nextConsume b t + 1 = lb_n b then 0 else nextConsume b t + 1))\<rparr>)"

definition entra_consumo :: "nat \<Rightarrow> lbuf \<Rightarrow> lbuf" where
  "entra_consumo r b = SIGNAL (b\<lparr>nR := (nR b)(r := nR b r + 1)\<rparr>)"

definition sai_consumo :: "nat \<Rightarrow> nat \<Rightarrow> lbuf \<Rightarrow> lbuf" where
  "sai_consumo t r b =
     SIGNAL (b\<lparr>nR := (nR b)(r := nR b r - 1),
       pendingReads := (pendingReads b)(r := (pendingReads b r)(t := pendingReads b r t - 1))\<rparr>)"

fun lbuf_consume :: "nat \<Rightarrow> consumo \<Rightarrow> lbuf \<Rightarrow> (consumo \<times> lbuf) option" where
  "lbuf_consume t ForaC b = None"
| "lbuf_consume t EntraC b =
     (case wait_e b of
        None \<Rightarrow> None
      | Some b1 \<Rightarrow>
          (case getAndAdvanceNextReadIndex t b1 of (r, b2) \<Rightarrow>
             if pendingReads b2 r t = 0 then
               Some (EsperaR r, b2\<lparr>waitForRead := (waitForRead b2)(r := waitForRead b2 r + 1), sem_e := sem_e b2 + 1\<rparr>)
             else Some (Le r, entra_consumo r b2)))"
| "lbuf_consume t (EsperaR r) b =
     (case wait_sR r b of None \<Rightarrow> None | Some b1 \<Rightarrow> Some (Le r, entra_consumo r b1))"
| "lbuf_consume t (Le r) b = Some (SaiC r (buffer b r), b)"
| "lbuf_consume t (SaiC r d) b =
     (case wait_e b of None \<Rightarrow> None | Some b1 \<Rightarrow> Some (ForaC, sai_consumo t r b1))"

section \<open>Threads\<close>

text \<open>
  The threads of a buffer, the values deposited so far, in the order in which the deposits were
  completed, and the values each consumer got.
\<close>

record sistema =
  bf :: lbuf
  prod :: "nat \<Rightarrow> deposito"
  cons :: "nat \<Rightarrow> consumo"
  depositados :: "int list"
  obtidos :: "nat \<Rightarrow> int list"

datatype evento =
    Deposita nat int    \<comment> \<open>a producer calls \<open>lbuf_deposit\<close>\<close>
  | AndaD nat           \<comment> \<open>its call goes on\<close>
  | Consome nat
  | AndaC nat

fun passo_lbuf :: "evento \<Rightarrow> sistema \<Rightarrow> sistema option" where
  "passo_lbuf (Deposita t x) s =
     (if t < lb_p (bf s) \<and> prod s t = ForaD then Some (s\<lparr>prod := (prod s)(t := EntraD x)\<rparr>) else None)"
| "passo_lbuf (AndaD t) s =
     (if lb_p (bf s) \<le> t then None
      else case lbuf_deposit (prod s t) (bf s) of
        None \<Rightarrow> None
      | Some (q, b) \<Rightarrow>
          Some (s\<lparr>bf := b, prod := (prod s)(t := q),
            depositados := (case prod s t of SaiD x w \<Rightarrow> depositados s @ [x] | _ \<Rightarrow> depositados s)\<rparr>))"
| "passo_lbuf (Consome t) s =
     (if t < lb_c (bf s) \<and> cons s t = ForaC then Some (s\<lparr>cons := (cons s)(t := EntraC)\<rparr>) else None)"
| "passo_lbuf (AndaC t) s =
     (if lb_c (bf s) \<le> t then None
      else case lbuf_consume t (cons s t) (bf s) of
        None \<Rightarrow> None
      | Some (q, b) \<Rightarrow>
          Some (s\<lparr>bf := b, cons := (cons s)(t := q),
            obtidos := (case cons s t of SaiC r d \<Rightarrow> (obtidos s)(t := obtidos s t @ [d]) | _ \<Rightarrow> obtidos s)\<rparr>))"

fun corrida :: "evento list \<Rightarrow> sistema \<Rightarrow> sistema option" where
  "corrida [] s = Some s"
| "corrida (ev # evs) s = (case passo_lbuf ev s of None \<Rightarrow> None | Some s1 \<Rightarrow> corrida evs s1)"

definition inicio :: "(nat \<Rightarrow> int) \<Rightarrow> nat \<Rightarrow> nat \<Rightarrow> nat \<Rightarrow> sistema" where
  "inicio lixo n p c =
     \<lparr>bf = lbuf_create lixo n p c, prod = (\<lambda>t. ForaD), cons = (\<lambda>t. ForaC), depositados = [], obtidos = (\<lambda>t. [])\<rparr>"

lemma corrida_append: "corrida (xs @ ys) s = (case corrida xs s of None \<Rightarrow> None | Some s1 \<Rightarrow> corrida ys s1)"
  by (induction xs arbitrary: s) (auto split: option.split)

lemma corrida_invariante:
  assumes "\<And>ev s s1. I s \<Longrightarrow> passo_lbuf ev s = Some s1 \<Longrightarrow> I s1" "I s" "corrida evs s = Some s1"
  shows "I s1"
  using assms(2,3) by (induction evs arbitrary: s) (auto split: option.splits intro: assms(1))

end
