(* ===== verification/LbufProps.thy ===== *)
theory LbufProps
  imports Lbuf "HOL-Library.Sublist"
begin

text \<open>
  The limited buffer with one producer and one consumer keeps its promises: an invariant of every
  interleaving, from which follow the order of the values (\<open>lbuf_fifo\<close>) and the absence of
  deadlock (\<open>lbuf_progress\<close>). With a second producer or a second consumer it does not
  (\<open>lbuf_races\<close>).
\<close>

section \<open>Who gets the baton\<close>

lemma SIGNAL_leitor:
  assumes "r < lb_n b" "0 < lb_c b" "nW b = 0" "0 < waitForRead b r" "\<And>i. i \<noteq> r \<Longrightarrow> waitForRead b i = 0"
  shows "SIGNAL b = b\<lparr>waitForRead := (waitForRead b)(r := waitForRead b r - 1), sem_sR := (sem_sR b)(r := sem_sR b r + 1)\<rparr>"
proof -
  have "List.find (\<lambda>i. 0 < lb_c b \<and> nW b = 0 \<and> 0 < waitForRead b i) [0..<lb_n b] = Some r"
    using assms by (auto simp: find_Some_iff intro!: exI [of _ r])
  then show ?thesis
    by (simp add: SIGNAL_def)
qed

lemma SIGNAL_sem_leitor:
  assumes "nW b = 0 \<Longrightarrow> \<forall>i < lb_n b. waitForRead b i \<le> 0"
  shows "SIGNAL b =
    (if livre b \<and> nW b = 0 \<and> nR b (nextWriteIndex b) = 0 \<and> 0 < waitForDeposit b
     then b\<lparr>waitForDeposit := waitForDeposit b - 1, sem_sW := sem_sW b + 1\<rparr>
     else b\<lparr>sem_e := sem_e b + 1\<rparr>)"
proof -
  have "List.find (\<lambda>i. 0 < lb_c b \<and> nW b = 0 \<and> 0 < waitForRead b i) [0..<lb_n b] = None"
    using assms by (auto simp: find_None_iff not_less)
  then show ?thesis
    by (simp add: SIGNAL_def)
qed

lemma livre_um [simp]: "lb_c b = Suc 0 \<Longrightarrow> livre b \<longleftrightarrow> pendingReads b (nextWriteIndex b) 0 = 0"
  by (simp add: livre_def)

lemma zera [simp]: "(\<lambda>i. 0 :: 'a :: zero)(r := 0) = (\<lambda>i. 0)"
  by auto

lemma janela_mod: "a \<le> i \<Longrightarrow> i < a + n \<Longrightarrow> a \<le> j \<Longrightarrow> j < a + n \<Longrightarrow> i mod n = j mod n \<longleftrightarrow> i = (j :: nat)"
proof (induction i j rule: linorder_wlog)
  case (le i j)
  then show ?case
    using mod_eq_dvd_iff_nat [of i j n] dvd_imp_le [of n "j - i"] by (cases "i = j") auto
qed auto

section \<open>The invariant of one producer and one consumer\<close>

text \<open>\<open>H\<close> are the values deposited and \<open>R\<close> counts the ones read: the slots of the window from \<open>R\<close> to
  \<open>R + n\<close> hold the unread values, in order.\<close>

definition fila :: "nat \<Rightarrow> nat \<Rightarrow> (nat \<Rightarrow> nat \<Rightarrow> int) \<Rightarrow> (nat \<Rightarrow> int) \<Rightarrow> int list \<Rightarrow> nat \<Rightarrow> bool" where
  "fila n prox pend buf H R \<longleftrightarrow>
     R \<le> length H \<and> length H \<le> R + n \<and> prox = length H mod n \<and>
     (\<forall>i. R \<le> i \<and> i < R + n \<longrightarrow> pend (i mod n) 0 = (if i < length H then 1 else 0)) \<and>
     (\<forall>i. R \<le> i \<and> i < length H \<longrightarrow> buf (i mod n) = H ! i)"

fun produtor :: "nat \<Rightarrow> int \<Rightarrow> (nat \<Rightarrow> int) \<Rightarrow> int list \<Rightarrow> nat \<Rightarrow> deposito \<Rightarrow> bool" where
  "produtor n w buf H R (LeIndice x) \<longleftrightarrow> w = 1 \<and> length H < R + n"
| "produtor n w buf H R (Escreve x k) \<longleftrightarrow> w = 1 \<and> length H < R + n \<and> k = length H mod n"
| "produtor n w buf H R (SaiD x k) \<longleftrightarrow> w = 1 \<and> length H < R + n \<and> k = length H mod n \<and> buf k = x"
| "produtor n w buf H R p \<longleftrightarrow> w = 0"

fun consumidor :: "nat \<Rightarrow> nat \<Rightarrow> (nat \<Rightarrow> int) \<Rightarrow> int list \<Rightarrow> nat \<Rightarrow> consumo \<Rightarrow> bool" where
  "consumidor n k leit H R (EsperaR r) \<longleftrightarrow> r = R mod n \<and> k = Suc R mod n \<and> leit = (\<lambda>i. 0)"
| "consumidor n k leit H R (Le r) \<longleftrightarrow> r = R mod n \<and> k = Suc R mod n \<and> leit = (\<lambda>i. 0)(R mod n := 1) \<and> R < length H"
| "consumidor n k leit H R (SaiC r d) \<longleftrightarrow>
     r = R mod n \<and> k = Suc R mod n \<and> leit = (\<lambda>i. 0)(R mod n := 1) \<and> R < length H \<and> d = H ! R"
| "consumidor n k leit H R c \<longleftrightarrow> k = R mod n \<and> leit = (\<lambda>i. 0)"

fun esperaW :: "deposito \<Rightarrow> bool" where
  "esperaW (EsperaW x) = True"
| "esperaW _ = False"

fun esperaR :: "consumo \<Rightarrow> bool" where
  "esperaR (EsperaR r) = True"
| "esperaR _ = False"

text \<open>The baton is on the entry, with the producer that waited, or with the consumer that waited.\<close>

definition vez :: "nat \<Rightarrow> nat \<Rightarrow> nat \<Rightarrow> (nat \<Rightarrow> nat) \<Rightarrow> int \<Rightarrow> (nat \<Rightarrow> int) \<Rightarrow> nat \<Rightarrow> nat \<Rightarrow> bool \<Rightarrow> bool \<Rightarrow> bool" where
  "vez n e w r wd wr D R eW eR \<longleftrightarrow>
     (e = 1 \<and> w = 0 \<and> r = (\<lambda>i. 0) \<and> wd = (if eW then 1 else 0) \<and> (eW \<longrightarrow> D = R + n) \<and>
        wr = (if eR then (\<lambda>i. 0)(R mod n := 1) else (\<lambda>i. 0)) \<and> (eR \<longrightarrow> D = R)) \<or>
     (e = 0 \<and> w = 1 \<and> r = (\<lambda>i. 0) \<and> wd = 0 \<and> wr = (\<lambda>i. 0) \<and> eW \<and> \<not> eR \<and> D < R + n) \<or>
     (e = 0 \<and> w = 0 \<and> r = (\<lambda>i. 0)(R mod n := 1) \<and> wd = 0 \<and> wr = (\<lambda>i. 0) \<and> eR \<and> \<not> eW \<and> R < D)"

definition invariante :: "nat \<Rightarrow> sistema \<Rightarrow> bool" where
  "invariante n s \<longleftrightarrow>
     (let b = bf s; H = depositados s; R = length (obtidos s 0) in
      0 < n \<and> lb_n b = n \<and> lb_p b = 1 \<and> lb_c b = 1 \<and> prefix (obtidos s 0) H \<and>
      fila n (nextWriteIndex b) (pendingReads b) (buffer b) H R \<and>
      produtor n (nW b) (buffer b) H R (prod s 0) \<and>
      consumidor n (nextConsume b 0) (nR b) H R (cons s 0) \<and>
      vez n (sem_e b) (sem_sW b) (sem_sR b) (waitForDeposit b) (waitForRead b) (length H) R
        (esperaW (prod s 0)) (esperaR (cons s 0)))"

lemma invariante_inicio: "0 < n \<Longrightarrow> invariante n (inicio lixo n 1 1)"
  by (simp add: invariante_def fila_def vez_def inicio_def lbuf_create_def)

lemma cheio: "fila n k pend buf H R \<Longrightarrow> 0 < n \<Longrightarrow> pend (length H mod n) 0 = (if length H < R + n then 0 else 1)"
  by (cases "length H < R + n") (auto simp: fila_def dest: spec [of _ R] spec [of _ "length H"])

lemma vazio: "fila n k pend buf H R \<Longrightarrow> 0 < n \<Longrightarrow> pend (R mod n) 0 = (if R < length H then 1 else 0)"
  by (auto simp: fila_def)

section \<open>Every step keeps the invariant\<close>

lemma inv_chamaD: "invariante n s \<Longrightarrow> prod s 0 = ForaD \<Longrightarrow> invariante n (s\<lparr>prod := (prod s)(0 := EntraD x)\<rparr>)"
  by (simp add: invariante_def Let_def)

lemma inv_chamaC: "invariante n s \<Longrightarrow> cons s 0 = ForaC \<Longrightarrow> invariante n (s\<lparr>cons := (cons s)(0 := EntraC)\<rparr>)"
  by (simp add: invariante_def Let_def)

lemma inv_LeIndice:
  "invariante n s \<Longrightarrow> prod s 0 = LeIndice x \<Longrightarrow> invariante n (s\<lparr>prod := (prod s)(0 := Escreve x (nextWriteIndex (bf s)))\<rparr>)"
  by (simp add: invariante_def Let_def fila_def)

lemma inv_Le:
  "invariante n s \<Longrightarrow> cons s 0 = Le r \<Longrightarrow> invariante n (s\<lparr>cons := (cons s)(0 := SaiC r (buffer (bf s) r))\<rparr>)"
  by (simp add: invariante_def Let_def fila_def)

lemma inv_Escreve:
  assumes "invariante n s" "prod s 0 = Escreve x w"
  shows "invariante n (s\<lparr>bf := bf s\<lparr>buffer := (buffer (bf s))(w := x)\<rparr>, prod := (prod s)(0 := SaiD x w)\<rparr>)"
proof -
  let ?R = "length (obtidos s 0)" and ?D = "length (depositados s)"
  have "?R \<le> ?D" "?D < ?R + n" "w = ?D mod n"
    using assms by (auto simp: invariante_def Let_def fila_def)
  then have "\<forall>i. ?R \<le> i \<and> i < ?D \<longrightarrow> i mod n \<noteq> w"
    using janela_mod [of ?R _ n ?D] by auto
  then show ?thesis
    using assms by (simp add: invariante_def Let_def fila_def)
qed

lemma entra_deposito_e: "nW b = 0 \<Longrightarrow> entra_deposito b = b\<lparr>nW := 1, sem_e := Suc (sem_e b)\<rparr>"
  unfolding entra_deposito_def by (subst SIGNAL_sem_leitor) auto

lemma inv_EntraD:
  assumes "invariante n s" "prod s 0 = EntraD x" "lbuf_deposit (EntraD x) (bf s) = Some (q, b)"
  shows "invariante n (s\<lparr>bf := b, prod := (prod s)(0 := q)\<rparr>)"
proof -
  let ?R = "length (obtidos s 0)" and ?H = "depositados s" and ?b = "bf s"
  have I: "0 < n" "fila n (nextWriteIndex ?b) (pendingReads ?b) (buffer ?b) ?H ?R"
    using assms(1) by (simp_all add: invariante_def Let_def)
  have e: "sem_e ?b = 1"
    using assms by (auto simp: invariante_def Let_def vez_def wait_e_def)
  have p: "pendingReads ?b (nextWriteIndex ?b) 0 = (if length ?H < ?R + n then 0 else 1)"
    using cheio [OF I(2,1)] I by (simp add: fila_def)
  show ?thesis
  proof (cases "length ?H < ?R + n")
    case True
    then show ?thesis
      using assms p e by (auto simp: invariante_def Let_def wait_e_def entra_deposito_e vez_def split: if_splits)
  next
    case False
    then show ?thesis
      using assms p e by (auto simp: invariante_def Let_def wait_e_def vez_def fila_def split: if_splits)
  qed
qed

lemma inv_EsperaW:
  assumes "invariante n s" "prod s 0 = EsperaW x" "lbuf_deposit (EsperaW x) (bf s) = Some (q, b)"
  shows "invariante n (s\<lparr>bf := b, prod := (prod s)(0 := q)\<rparr>)"
  using assms by (auto simp: invariante_def Let_def wait_sW_def entra_deposito_e vez_def split: if_splits)

lemma fila_deposito:
  assumes "fila n k pend buf H R" "length H < R + n" "buf (length H mod n) = x"
  shows "fila n (Suc (length H) mod n) (pend(length H mod n := (\<lambda>j. if j < Suc 0 then 1 else f j))) buf (H @ [x]) R"
  using assms janela_mod [of R _ n "length H"]
  by (auto simp: fila_def nth_append less_Suc_eq)

lemma inv_SaiD:
  assumes "invariante n s" "prod s 0 = SaiD x w" "lbuf_deposit (SaiD x w) (bf s) = Some (q, b)"
  shows "invariante n (s\<lparr>bf := b, prod := (prod s)(0 := q), depositados := depositados s @ [x]\<rparr>)"
proof -
  let ?R = "length (obtidos s 0)" and ?H = "depositados s" and ?b = "bf s"
  have I: "0 < n" "fila n (nextWriteIndex ?b) (pendingReads ?b) (buffer ?b) ?H ?R" "length ?H < ?R + n"
      "w = length ?H mod n" "buffer ?b w = x" "nW ?b = 1" "lb_n ?b = n" "lb_c ?b = 1" "nextWriteIndex ?b = w"
    using assms(1,2) by (auto simp: invariante_def Let_def fila_def)
  have e: "sem_e ?b = 1" "q = ForaD" "b = sai_deposito w (?b\<lparr>sem_e := 0\<rparr>)"
    using assms by (auto simp: invariante_def Let_def vez_def wait_e_def)
  define B where "B = ?b\<lparr>sem_e := 0, nW := 0,
      pendingReads := (pendingReads ?b)(w := (\<lambda>j. if j < Suc 0 then 1 else pendingReads ?b w j)),
      nextWriteIndex := Suc (length ?H) mod n\<rparr>"
  have "b = SIGNAL B"
    using I by (simp add: e sai_deposito_def Let_def B_def mod_Suc cong: if_cong)
  have f: "fila n (Suc (length ?H) mod n) (pendingReads B) (buffer ?b) (?H @ [x]) ?R"
    using fila_deposito [OF I(2,3)] I(4,5) by (simp add: B_def)
  show ?thesis
  proof (cases "esperaR (cons s 0)")
    case True
    then have "SIGNAL B = B\<lparr>waitForRead := (\<lambda>i. 0), sem_sR := (\<lambda>i. 0)(?R mod n := 1)\<rparr>"
      using assms(1,2) I e by (subst SIGNAL_leitor [where r = "?R mod n"]) (auto simp: B_def invariante_def Let_def vez_def)
    then show ?thesis
      using assms(1,2) f True I(1,4) e(1,2) by (cases "cons s 0") (auto simp: \<open>b = SIGNAL B\<close> invariante_def Let_def B_def vez_def)
  next
    case False
    then have "SIGNAL B = B\<lparr>sem_e := 1\<rparr>"
      using assms(1,2) I e by (subst SIGNAL_sem_leitor) (auto simp: B_def invariante_def Let_def vez_def)
    then show ?thesis
      using assms(1,2) f False I(1,4) e(1,2)
      by (cases "cons s 0") (auto simp: \<open>b = SIGNAL B\<close> invariante_def Let_def B_def vez_def nth_append)
  qed
qed

lemma entra_consumo_e:
  assumes "\<forall>i. waitForRead b i \<le> 0" "lb_c b = 1" "nR b = (\<lambda>i. 0)" "0 < waitForDeposit b \<Longrightarrow> nextWriteIndex b = r"
  shows "entra_consumo r b = b\<lparr>nR := (\<lambda>i. 0)(r := 1), sem_e := Suc (sem_e b)\<rparr>"
proof -
  let ?b = "b\<lparr>nR := (nR b)(r := nR b r + 1)\<rparr>"
  have "\<not> (nR ?b (nextWriteIndex ?b) = 0 \<and> 0 < waitForDeposit ?b)"
    using assms(3,4) by fastforce
  then show ?thesis
    unfolding entra_consumo_def using assms(1,3) by (subst SIGNAL_sem_leitor) simp_all
qed

lemma inv_EntraC:
  assumes "invariante n s" "cons s 0 = EntraC" "lbuf_consume 0 EntraC (bf s) = Some (q, b)"
  shows "invariante n (s\<lparr>bf := b, cons := (cons s)(0 := q)\<rparr>)"
proof -
  let ?R = "length (obtidos s 0)" and ?H = "depositados s" and ?b = "bf s"
  have I: "0 < n" "fila n (nextWriteIndex ?b) (pendingReads ?b) (buffer ?b) ?H ?R" "nextConsume ?b 0 = ?R mod n"
      "lb_n ?b = n" "lb_c ?b = 1" "nR ?b = (\<lambda>i. 0)" "?R \<le> length ?H"
    using assms(1,2) by (auto simp: invariante_def Let_def fila_def)
  have e: "sem_e ?b = 1" "waitForRead ?b = (\<lambda>i. 0)" "0 < waitForDeposit ?b \<Longrightarrow> length ?H = ?R + n"
    using assms by (auto simp: invariante_def Let_def vez_def wait_e_def split: if_splits)
  define B where "B = ?b\<lparr>sem_e := 0, nextConsume := (nextConsume ?b)(0 := Suc ?R mod n)\<rparr>"
  have v: "wait_e ?b = Some (?b\<lparr>sem_e := 0\<rparr>)" "getAndAdvanceNextReadIndex 0 (?b\<lparr>sem_e := 0\<rparr>) = (?R mod n, B)"
    using I e by (auto simp: wait_e_def getAndAdvanceNextReadIndex_def B_def mod_Suc)
  have p: "pendingReads B (?R mod n) 0 = (if ?R < length ?H then 1 else 0)"
    using vazio [OF I(2,1)] by (simp add: B_def)
  show ?thesis
  proof (cases "?R < length ?H")
    case True
    have "nextWriteIndex B = ?R mod n" if "0 < waitForDeposit B"
      using e(3) that I(2) by (simp add: B_def fila_def)
    then have "entra_consumo (?R mod n) B = B\<lparr>nR := (\<lambda>i. 0)(?R mod n := 1), sem_e := 1\<rparr>"
      using I(5,6) e(2) by (subst entra_consumo_e) (simp_all add: B_def)
    then have "q = Le (?R mod n)" "b = B\<lparr>nR := (\<lambda>i. 0)(?R mod n := 1), sem_e := 1\<rparr>"
      using assms(3) p v True by simp_all
    then show ?thesis
      using assms(1,2) True e(1) by (simp add: invariante_def Let_def B_def vez_def)
  next
    case False
    then have "q = EsperaR (?R mod n)" "b = B\<lparr>waitForRead := (\<lambda>i. 0)(?R mod n := 1), sem_e := 1\<rparr>"
      using assms(3) p v e(2) by (simp_all add: B_def)
    then show ?thesis
      using assms(1,2) False I(7) e(1) by (simp add: invariante_def Let_def B_def vez_def)
  qed
qed

lemma inv_EsperaR:
  assumes "invariante n s" "cons s 0 = EsperaR r" "lbuf_consume 0 (EsperaR r) (bf s) = Some (q, b)"
  shows "invariante n (s\<lparr>bf := b, cons := (cons s)(0 := q)\<rparr>)"
proof -
  let ?b = "bf s"
  have I: "nR ?b = (\<lambda>i. 0)" "r = length (obtidos s 0) mod n" "lb_c ?b = 1"
    using assms(1,2) by (auto simp: invariante_def Let_def)
  have e: "sem_e ?b = 0" "waitForRead ?b = (\<lambda>i. 0)" "waitForDeposit ?b = 0" "sem_sR ?b = (\<lambda>i. 0)(r := 1)"
      "length (obtidos s 0) < length (depositados s)"
    using assms I(2) by (auto simp: invariante_def Let_def vez_def wait_sR_def split: if_splits)
  have "entra_consumo r (?b\<lparr>sem_sR := (\<lambda>i. 0)\<rparr>) = ?b\<lparr>sem_sR := (\<lambda>i. 0), nR := (\<lambda>i. 0)(r := 1), sem_e := 1\<rparr>"
    using I e by (subst entra_consumo_e) auto
  moreover have "wait_sR r ?b = Some (?b\<lparr>sem_sR := (\<lambda>i. 0)\<rparr>)"
    using e(4) by (auto simp: wait_sR_def)
  ultimately have "q = Le r" "b = ?b\<lparr>sem_sR := (\<lambda>i. 0), nR := (\<lambda>i. 0)(r := 1), sem_e := 1\<rparr>"
    using assms(3) by auto
  then show ?thesis
    using assms(1,2) e I by (auto simp: invariante_def Let_def vez_def split: if_splits)
qed

lemma fila_consumo:
  assumes "fila n k pend buf H R" "R < length H" "0 < n"
  shows "fila n k (pend(R mod n := (pend (R mod n))(0 := pend (R mod n) 0 - 1))) buf H (Suc R)"
proof -
  have "pend (R mod n) 0 = 1"
    using assms by (auto simp: fila_def)
  moreover have "i mod n \<noteq> R mod n" if "Suc R \<le> i" "i < R + n" for i
    using janela_mod [of R i n R] that by auto
  moreover have "(R + n) mod n = R mod n"
    by simp
  ultimately show ?thesis
    using assms by (auto simp: fila_def less_Suc_eq)
qed

lemma inv_SaiC:
  assumes "invariante n s" "cons s 0 = SaiC r d" "lbuf_consume 0 (SaiC r d) (bf s) = Some (q, b)"
  shows "invariante n (s\<lparr>bf := b, cons := (cons s)(0 := q), obtidos := (obtidos s)(0 := obtidos s 0 @ [d])\<rparr>)"
proof -
  let ?R = "length (obtidos s 0)" and ?H = "depositados s" and ?b = "bf s"
  have I: "0 < n" "fila n (nextWriteIndex ?b) (pendingReads ?b) (buffer ?b) ?H ?R" "?R < length ?H"
      "r = ?R mod n" "d = ?H ! ?R" "nR ?b = (\<lambda>i. 0)(?R mod n := 1)" "lb_n ?b = n" "lb_c ?b = 1" "prefix (obtidos s 0) ?H"
    using assms(1,2) by (auto simp: invariante_def Let_def)
  have e: "sem_e ?b = 1" "q = ForaC" "b = sai_consumo 0 r (?b\<lparr>sem_e := 0\<rparr>)" "waitForRead ?b = (\<lambda>i. 0)"
      "sem_sW ?b = 0" "sem_sR ?b = (\<lambda>i. 0)" "waitForDeposit ?b = (if esperaW (prod s 0) then 1 else 0)"
      "esperaW (prod s 0) \<Longrightarrow> length ?H = ?R + n"
    using assms by (auto simp: invariante_def Let_def vez_def wait_e_def)
  define B where "B = ?b\<lparr>sem_e := 0, nR := (\<lambda>i. 0),
      pendingReads := (pendingReads ?b)(r := (pendingReads ?b r)(0 := pendingReads ?b r 0 - 1))\<rparr>"
  have b: "b = SIGNAL B"
    using I by (simp add: e sai_consumo_def B_def)
  have f: "fila n (nextWriteIndex ?b) (pendingReads B) (buffer ?b) ?H (Suc ?R)"
    using fila_consumo [OF I(2,3,1)] I(4) by (simp add: B_def)
  have "pendingReads B (length ?H mod n) 0 = (if length ?H < Suc ?R + n then 0 else 1)"
    using cheio [OF f I(1)] .
  moreover have k: "nextWriteIndex B = length ?H mod n" "nW B = nW ?b"
    using I(2) by (simp_all add: B_def fila_def)
  moreover have "prefix (obtidos s 0 @ [d]) ?H"
    using append_one_prefix [OF I(9,3)] I(5) by simp
  ultimately show ?thesis
  proof (cases "esperaW (prod s 0)")
    case True
    then have "nW ?b = 0"
      using assms(1) by (cases "prod s 0") (auto simp: invariante_def Let_def)
    then have "SIGNAL B = B\<lparr>waitForDeposit := 0, sem_sW := 1\<rparr>"
      using I e k f True cheio [OF f I(1)] by (subst SIGNAL_sem_leitor) (auto simp: B_def)
    then show ?thesis
      using assms(1,2) f True e(1,2) I(1,3) \<open>prefix (obtidos s 0 @ [d]) ?H\<close>
      by (cases "prod s 0") (simp_all add: b invariante_def Let_def B_def vez_def)
  next
    case False
    then have "SIGNAL B = B\<lparr>sem_e := 1\<rparr>"
      using I e k f by (subst SIGNAL_sem_leitor) (auto simp: B_def)
    then show ?thesis
      using assms(1,2) f False e(1,2) I(1,3) \<open>prefix (obtidos s 0 @ [d]) ?H\<close>
      by (cases "prod s 0") (simp_all add: b invariante_def Let_def B_def vez_def)
  qed
qed

lemma inv_AndaD:
  assumes "invariante n s" "passo_lbuf (AndaD t) s = Some s1"
  shows "invariante n s1"
proof -
  have "t = 0"
    using assms by (auto simp: invariante_def Let_def split: if_splits)
  then obtain q b where q: "lbuf_deposit (prod s 0) (bf s) = Some (q, b)" and
      s1: "s1 = s\<lparr>bf := b, prod := (prod s)(0 := q),
        depositados := (case prod s 0 of SaiD x w \<Rightarrow> depositados s @ [x] | _ \<Rightarrow> depositados s)\<rparr>"
    using assms by (auto simp: invariante_def Let_def split: if_splits option.splits)
  have "depositados_update (\<lambda>_. depositados s) u = u" if "depositados u = depositados s" for u :: sistema
    using that by simp
  then show ?thesis
    using q assms(1) inv_EntraD [of n s _ q b] inv_EsperaW [of n s _ q b] inv_LeIndice [of n s] inv_Escreve [of n s]
      inv_SaiD [of n s _ _ q b]
    by (cases "prod s 0") (auto simp: s1 simp del: lbuf_deposit.simps(2,3,6))
qed

lemma inv_AndaC:
  assumes "invariante n s" "passo_lbuf (AndaC t) s = Some s1"
  shows "invariante n s1"
proof -
  have "t = 0"
    using assms by (auto simp: invariante_def Let_def split: if_splits)
  then obtain q b where q: "lbuf_consume 0 (cons s 0) (bf s) = Some (q, b)" and
      s1: "s1 = s\<lparr>bf := b, cons := (cons s)(0 := q),
        obtidos := (case cons s 0 of SaiC r d \<Rightarrow> (obtidos s)(0 := obtidos s 0 @ [d]) | _ \<Rightarrow> obtidos s)\<rparr>"
    using assms by (auto simp: invariante_def Let_def split: if_splits option.splits)
  show ?thesis
    using q assms(1) inv_EntraC [of n s q b] inv_EsperaR [of n s _ q b] inv_Le [of n s] inv_SaiC [of n s _ _ q b]
    by (cases "cons s 0") (auto simp: s1 simp del: lbuf_consume.simps(2,3,5))
qed

lemma inv_passo: "invariante n s \<Longrightarrow> passo_lbuf ev s = Some s1 \<Longrightarrow> invariante n s1"
proof (induction ev)
  case (Deposita t x)
  then have "t = 0" "prod s 0 = ForaD" "s1 = s\<lparr>prod := (prod s)(0 := EntraD x)\<rparr>"
    by (auto simp: invariante_def Let_def split: if_splits)
  with Deposita inv_chamaD show ?case by simp
next
  case (Consome t)
  then have "t = 0" "cons s 0 = ForaC" "s1 = s\<lparr>cons := (cons s)(0 := EntraC)\<rparr>"
    by (auto simp: invariante_def Let_def split: if_splits)
  with Consome inv_chamaC show ?case by simp
qed (auto intro: inv_AndaD inv_AndaC)

lemma inv_corrida: "0 < n \<Longrightarrow> corrida evs (inicio lixo n 1 1) = Some s \<Longrightarrow> invariante n s"
  by (rule corrida_invariante [where I = "invariante n", OF inv_passo invariante_inicio])

section \<open>The order of the values\<close>

text \<open>
  (C13) Limited buffer, one producer and one consumer: however the two calls interleave, step by
  step, the consumer has got a prefix of the values deposited, in their order; at most \<open>n\<close> values are
  unread, each in its slot with its read pending; and every slot that is read or written has an index
  below \<open>n\<close>.
\<close>

theorem lbuf_fifo:
  assumes "0 < n" "corrida evs (inicio lixo n 1 1) = Some s"
  shows "prefix (obtidos s 0) (depositados s) \<and>
    length (depositados s) \<le> length (obtidos s 0) + n \<and>
    (\<forall>i. length (obtidos s 0) \<le> i \<and> i < length (depositados s) \<longrightarrow>
      buffer (bf s) (i mod n) = depositados s ! i \<and> pendingReads (bf s) (i mod n) 0 = 1) \<and>
    nextWriteIndex (bf s) < n \<and> nextConsume (bf s) 0 < n \<and>
    (\<forall>x w. prod s 0 = Escreve x w \<longrightarrow> w < n) \<and> (\<forall>r. cons s 0 = Le r \<longrightarrow> r < n)"
proof -
  have I: "invariante n s"
    by (rule inv_corrida [OF assms])
  then have "nextConsume (bf s) 0 < n"
    using assms(1) by (cases "cons s 0") (auto simp: invariante_def Let_def)
  then show ?thesis
    using I assms(1) by (auto simp: invariante_def Let_def fila_def)
qed

definition lbuf_exemplo :: "evento list" where
  "lbuf_exemplo = [Deposita 0 7, AndaD 0, Consome 0, AndaD 0, AndaC 0, AndaD 0, AndaD 0, Deposita 0 8, AndaC 0, AndaC 0,
     AndaC 0, AndaD 0]"

lemma lbuf_exemplo_anda: "map_option (\<lambda>s. (depositados s, obtidos s 0)) (corrida lbuf_exemplo (inicio (\<lambda>i. 0) 2 1 1)) = Some ([7], [7])"
  by code_simp

lemma lbuf_fifo_witness:
  "\<exists>s. corrida lbuf_exemplo (inicio (\<lambda>i. 0) 2 1 1) = Some s \<and> depositados s = [7] \<and> obtidos s 0 = [7] \<and>
     nextWriteIndex (bf s) < 2"
  using lbuf_exemplo_anda lbuf_fifo [of 2 lbuf_exemplo "\<lambda>i. 0"] by auto

section \<open>No deadlock\<close>

text \<open>The steps a call still has before it\<close>

fun falta_d :: "deposito \<Rightarrow> nat" where
  "falta_d ForaD = 0"
| "falta_d (EntraD x) = 5"
| "falta_d (EsperaW x) = 4"
| "falta_d (LeIndice x) = 3"
| "falta_d (Escreve x w) = 2"
| "falta_d (SaiD x w) = 1"

fun falta_c :: "consumo \<Rightarrow> nat" where
  "falta_c ForaC = 0"
| "falta_c EntraC = 4"
| "falta_c (EsperaR r) = 3"
| "falta_c (Le r) = 2"
| "falta_c (SaiC r d) = 1"

definition falta :: "sistema \<Rightarrow> nat" where
  "falta s = falta_d (prod s 0) + falta_c (cons s 0)"

lemma falta_max: "falta s \<le> 9"
  by (cases "prod s 0"; cases "cons s 0") (simp_all add: falta_def)

lemma deposita_falta: "lbuf_deposit q b = Some (q1, b1) \<Longrightarrow> falta_d q1 < falta_d q"
  by (cases q) (auto split: option.splits if_splits)

lemma consome_falta: "lbuf_consume t q b = Some (q1, b1) \<Longrightarrow> falta_c q1 < falta_c q"
  by (cases q) (auto split: option.splits if_splits prod.splits)

lemma anda_falta:
  assumes "passo_lbuf ev s = Some s1" "ev \<in> {AndaD 0, AndaC 0}"
  shows "falta s1 < falta s"
proof -
  from assms(2) consider "ev = AndaD 0" | "ev = AndaC 0"
    by auto
  then show ?thesis
  proof cases
    case 1
    with assms(1) obtain q b where "lbuf_deposit (prod s 0) (bf s) = Some (q, b)" "prod s1 0 = q" "cons s1 = cons s"
      by (auto split: if_splits option.splits)
    then show ?thesis
      by (simp add: falta_def deposita_falta)
  next
    case 2
    with assms(1) obtain q b where "lbuf_consume 0 (cons s 0) (bf s) = Some (q, b)" "cons s1 0 = q" "prod s1 = prod s"
      by (auto split: if_splits option.splits)
    then show ?thesis
      by (simp add: falta_def consome_falta)
  qed
qed

lemma corrida_falta:
  "corrida es s = Some s1 \<Longrightarrow> set es \<subseteq> {AndaD 0, AndaC 0} \<Longrightarrow> length es + falta s1 \<le> falta s"
proof (induction es arbitrary: s)
  case (Cons ev es)
  then obtain s2 where "passo_lbuf ev s = Some s2" "corrida es s2 = Some s1"
    by (auto split: option.splits)
  with Cons.IH [of s2] anda_falta [of ev s s2] Cons.prems(2) show ?case
    by simp
qed simp

lemma parado:
  assumes "invariante n s" "passo_lbuf (AndaD 0) s = None" "passo_lbuf (AndaC 0) s = None"
  shows "(prod s 0 = ForaD \<and> cons s 0 = ForaC) \<or>
    (prod s 0 = ForaD \<and> esperaR (cons s 0) \<and> length (depositados s) = length (obtidos s 0)) \<or>
    (esperaW (prod s 0) \<and> cons s 0 = ForaC \<and> length (depositados s) = length (obtidos s 0) + n)"
proof -
  have I: "vez n (sem_e (bf s)) (sem_sW (bf s)) (sem_sR (bf s)) (waitForDeposit (bf s)) (waitForRead (bf s))
      (length (depositados s)) (length (obtidos s 0)) (esperaW (prod s 0)) (esperaR (cons s 0))"
      "lb_p (bf s) = 1" "lb_c (bf s) = 1" "0 < n" "\<And>r. cons s 0 = EsperaR r \<Longrightarrow> r = length (obtidos s 0) mod n"
    using assms(1) by (auto simp: invariante_def Let_def)
  have p: "prod s 0 = ForaD \<or> (esperaW (prod s 0) \<and> sem_sW (bf s) = 0) \<or> sem_e (bf s) = 0 \<and> \<not> esperaW (prod s 0)"
    using assms(2) I(2) by (cases "prod s 0") (auto simp: wait_e_def wait_sW_def split: option.splits if_splits)
  have c: "cons s 0 = ForaC \<or> (esperaR (cons s 0) \<and> sem_sR (bf s) (length (obtidos s 0) mod n) = 0) \<or>
      sem_e (bf s) = 0 \<and> \<not> esperaR (cons s 0)"
    using assms(3) I(3,5) by (cases "cons s 0") (auto simp: wait_e_def wait_sR_def split: option.splits if_splits prod.splits)
  show ?thesis
    using I(1,4) p c unfolding vez_def by auto
qed

text \<open>
  (C14) Limited buffer, one producer and one consumer: from every reachable state the calls that are going
  on make at most nine steps, whatever the scheduler does, and when neither can go on both have
  returned, or a deposit waits for room in a full buffer and nobody is consuming, or a consume
  waits on an empty buffer and nobody is depositing.
\<close>

theorem lbuf_progress:
  assumes "0 < n" "corrida evs (inicio lixo n 1 1) = Some s"
    and "corrida es s = Some s1" "set es \<subseteq> {AndaD 0, AndaC 0}"
  shows "length es \<le> 9 \<and>
    (passo_lbuf (AndaD 0) s1 = None \<and> passo_lbuf (AndaC 0) s1 = None \<longrightarrow>
      (prod s1 0 = ForaD \<and> cons s1 0 = ForaC) \<or>
      (prod s1 0 = ForaD \<and> esperaR (cons s1 0) \<and> length (depositados s1) = length (obtidos s1 0)) \<or>
      (esperaW (prod s1 0) \<and> cons s1 0 = ForaC \<and> length (depositados s1) = length (obtidos s1 0) + n))"
proof -
  have "invariante n s1"
    by (rule inv_corrida [OF assms(1), of "evs @ es" lixo]) (use assms(2,3) in \<open>simp add: corrida_append\<close>)
  moreover have "length es \<le> 9"
    using corrida_falta [OF assms(3,4)] falta_max [of s] by simp
  ultimately show ?thesis
    using parado by blast
qed

definition lbuf_cheio :: "evento list" where
  "lbuf_cheio = [Deposita 0 7, AndaD 0, AndaD 0, AndaD 0, AndaD 0, Deposita 0 8]"

lemma lbuf_cheio_anda:
  "map_option (\<lambda>s. map_option (\<lambda>s1. (prod s1 0, passo_lbuf (AndaD 0) s1 = None \<and> passo_lbuf (AndaC 0) s1 = None)) (corrida [AndaD 0] s))
     (corrida lbuf_cheio (inicio (\<lambda>i. 0) 1 1 1)) = Some (Some (EsperaW 8, True))"
  by code_simp

lemma lbuf_progress_witness:
  "\<exists>s s1. corrida lbuf_cheio (inicio (\<lambda>i. 0) 1 1 1) = Some s \<and> corrida [AndaD 0] s = Some s1 \<and>
     prod s1 0 = EsperaW 8 \<and> cons s1 0 = ForaC \<and> length (depositados s1) = length (obtidos s1 0) + 1"
proof -
  obtain s s1 where r: "corrida lbuf_cheio (inicio (\<lambda>i. 0) 1 1 1) = Some s" "corrida [AndaD 0] s = Some s1" and
      p: "prod s1 0 = EsperaW 8" "passo_lbuf (AndaD 0) s1 = None \<and> passo_lbuf (AndaC 0) s1 = None"
    using lbuf_cheio_anda by (auto simp del: corrida.simps passo_lbuf.simps)
  have "set [AndaD 0] \<subseteq> {AndaD 0, AndaC 0}"
    by simp
  from lbuf_progress [OF _ r this] p r show ?thesis
    by (auto simp del: corrida.simps passo_lbuf.simps)
qed

section \<open>A second producer or a second consumer\<close>

lemma find_igual [simp]: "List.find (\<lambda>i. i = r) [0..<n] = (if r < n then Some r else None)"
proof (cases "r < n")
  case True
  then have "List.find (\<lambda>i. i = r) [0..<n] = Some r"
    unfolding find_Some_iff by (intro exI [of _ r]) auto
  with True show ?thesis by simp
qed (auto simp: find_None_iff)

lemma find_nada [simp]: "List.find (\<lambda>i. False) xs = None"
  by (induction xs) auto

text \<open>Both producers pass the test for a free slot before either one has moved \<open>nextWriteIndex\<close>.\<close>

definition dois_produtores :: "int \<Rightarrow> int \<Rightarrow> evento list" where
  "dois_produtores x y =
     [Deposita 0 x, AndaD 0, Deposita 1 y, AndaD 1, AndaD 0, AndaD 1, AndaD 0, AndaD 1, AndaD 0, AndaD 1,
      Consome 0, AndaC 0, AndaC 0, AndaC 0, Consome 0, AndaC 0]"

text \<open>Consumer 0 waits for the second value; consumer 1 enters for the first one and wakes it.\<close>

definition dois_consumidores :: "int \<Rightarrow> evento list" where
  "dois_consumidores x =
     [Deposita 0 x, AndaD 0, AndaD 0, AndaD 0, AndaD 0, Consome 0, AndaC 0, AndaC 0, AndaC 0, Consome 0, AndaC 0,
      Consome 1, AndaC 1, AndaC 0, AndaC 0, AndaC 0]"

lemmas passos = inicio_def lbuf_create_def wait_e_def wait_sW_def wait_sR_def livre_def SIGNAL_def entra_deposito_def
  sai_deposito_def getAndAdvanceNextReadIndex_def entra_consumo_def sai_consumo_def Let_def upt_rec

lemma corre_dois_produtores:
  assumes "0 < n"
  shows "\<exists>s. corrida (dois_produtores x y) (inicio lixo n 2 1) = Some s \<and> depositados s = [x, y] \<and> obtidos s 0 = [y] \<and>
    prod s 0 = ForaD \<and> prod s 1 = ForaD \<and> esperaR (cons s 0) \<and> passo_lbuf (AndaC 0) s = None"
  using assms by (simp add: dois_produtores_def passos)

lemma corre_dois_consumidores:
  assumes "0 < n"
  shows "\<exists>s. corrida (dois_consumidores x) (inicio lixo n 1 2) = Some s \<and> depositados s = [x] \<and>
    obtidos s 0 = [x, if n = 1 then x else lixo 1]"
  using assms by (simp add: dois_consumidores_def passos)

text \<open>
  (C36) Limited buffer, more than one producer or consumer, with any number of slots. Two producers
  can both be let in for the same slot: both calls return, the consumer gets only the second value, and its
  next call waits although two values were deposited. Two consumers: one that waits for a value is
  woken when the other one enters, and returns what \<open>malloc\<close> left in the slot (or the first value again when
  there is one slot only), although nothing was deposited since.
\<close>

theorem lbuf_races:
  assumes "0 < n"
  shows "(\<exists>evs s. corrida evs (inicio lixo n 2 1) = Some s \<and> depositados s = [x, y] \<and> obtidos s 0 = [y] \<and>
      prod s 0 = ForaD \<and> prod s 1 = ForaD \<and> esperaR (cons s 0) \<and> passo_lbuf (AndaC 0) s = None) \<and>
    (\<exists>evs s. corrida evs (inicio lixo n 1 2) = Some s \<and> depositados s = [x] \<and>
      obtidos s 0 = [x, if n = 1 then x else lixo 1])"
  using corre_dois_produtores [OF assms] corre_dois_consumidores [OF assms] by blast

lemma lbuf_races_witness:
  "\<exists>evs s. corrida evs (inicio (\<lambda>i. - 1) 4 1 2) = Some s \<and> depositados s = [7] \<and> obtidos s 0 = [7, - 1]"
  using lbuf_races [of 4 "\<lambda>i. - 1" 7 8] by simp

end
