(* ===== verification/Pager.thy ===== *)
theory Pager
  imports Prelude "HOL-Library.Word"
begin

text \<open>
  The simulator of virtual memory of the course \<open>INF1019\<close> (\<open>INF1019-Computer-Systems/trab2/src\<close>:
  \<open>simulation.h\<close>, \<open>simulation.c\<close>, \<open>lru.c\<close>, \<open>nru.c\<close>, \<open>sec.c\<close>): the page table, one memory access, and the three
  page replacement algorithms.

  The linked list of nodes is a list, \<open>None\<close> is a node whose \<open>current\<close> is \<open>NULL\<close>. A call of \<open>exit\<close> is a
  \<open>RuntimeError\<close>; an access through a null pointer and the overflow of \<open>time\<close> are undefined behaviour. The
  value of \<open>rand()\<close> is an argument. The shift \<open>pageIndex << bits\<close> of an \<open>int\<close> wraps, as compilers define it.
\<close>

unbundle bit_operations_syntax

datatype algoritmo = PR_NRU | PR_LRU | PR_SEC

record pte =
  address :: "32 word"
  lastAccessTime :: int
  status :: int
  rBit :: int

record simulacao =
  pageSize :: int
  pageFaults :: int
  pageWrites :: int
  time :: int
  prAlgo :: algoritmo
  maxPages :: int
  pageTableList :: "pte option list"
  lastFlagResetTime :: int

abbreviation (input) REFERENCED_PAGE :: int where "REFERENCED_PAGE \<equiv> 1"
abbreviation (input) MODIFIED_PAGE :: int where "MODIFIED_PAGE \<equiv> 16"

definition ponteiro_nulo :: sim_error where
  "ponteiro_nulo = UndefinedBehaviour ''tempPTNode->current''"

definition lista_invalida :: sim_error where
  "lista_invalida = RuntimeError ''exit(-4): Invalid page table list structure''"

section \<open>Least recently used\<close>

text \<open>
  The loop that \<open>algo_lru\<close> and \<open>algo_sec\<close> share: \<open>k\<close> rounds are left, \<open>i\<close> is the index of \<open>tempPTNode\<close>, \<open>e\<close>
  that of \<open>earliestPTNode\<close> and \<open>t\<close> is \<open>earliestTime\<close>.
\<close>

fun mais_antiga :: "nat \<Rightarrow> nat \<Rightarrow> int \<Rightarrow> nat \<Rightarrow> pte option list \<Rightarrow> nat res" where
  "mais_antiga 0 i t e xs = Inr e"
| "mais_antiga (Suc k) i t e [] = Inl ponteiro_nulo"
| "mais_antiga (Suc k) i t e (None # xs) = Inl lista_invalida"
| "mais_antiga (Suc k) i t e (Some p # xs) =
     (if lastAccessTime p < t then mais_antiga k (Suc i) (lastAccessTime p) i xs else mais_antiga k (Suc i) t e xs)"

definition algo_lru :: "pte \<Rightarrow> simulacao \<Rightarrow> simulacao res" where
  "algo_lru tempPTE s =
     res_bind (mais_antiga (nat (maxPages s)) 0 (time s) 0 (pageTableList s)) (\<lambda>e.
       if e < length (pageTableList s) then Inr (s\<lparr>pageTableList := (pageTableList s)[e := Some tempPTE]\<rparr>)
       else Inl ponteiro_nulo)"

section \<open>Second chance\<close>

definition com_bit :: "pte option list \<Rightarrow> nat" where
  "com_bit xs = length (filter (\<lambda>x. case x of Some p \<Rightarrow> rBit p = 1 | None \<Rightarrow> False) xs)"

lemma com_bit_update:
  "e < length xs \<Longrightarrow> xs ! e = Some p \<Longrightarrow> rBit p = 1 \<Longrightarrow> rBit q \<noteq> 1 \<Longrightarrow> com_bit (xs[e := Some q]) < com_bit xs"
proof (induction xs arbitrary: e)
  case (Cons x xs)
  then show ?case
    by (cases e) (auto simp: com_bit_def split: option.splits)
qed simp

text \<open>The call of itself: every round clears a bit.\<close>

function algo_sec :: "pte \<Rightarrow> simulacao \<Rightarrow> simulacao res" where
  "algo_sec tempPTE s =
     (case mais_antiga (nat (maxPages s)) 0 (time s) 0 (pageTableList s) of
        Inl er \<Rightarrow> Inl er
      | Inr e \<Rightarrow>
          if e < length (pageTableList s) then
            (case pageTableList s ! e of
               None \<Rightarrow> Inl ponteiro_nulo
             | Some p \<Rightarrow>
                 if rBit p = 1 then
                   algo_sec tempPTE (s\<lparr>pageTableList := (pageTableList s)[e := Some (p\<lparr>rBit := 0, lastAccessTime := time s\<rparr>)]\<rparr>)
                 else Inr (s\<lparr>pageTableList := (pageTableList s)[e := Some tempPTE]\<rparr>))
          else Inl ponteiro_nulo)"
  by pat_completeness auto
termination
  by (relation "measure (\<lambda>(p, s). com_bit (pageTableList s))") (auto intro: com_bit_update)

declare algo_sec.simps [simp del]

section \<open>Not recently used\<close>

text \<open>The numbers of pages of each category: \<open>cat0\<close> to \<open>cat3\<close>\<close>

fun nru_conta :: "nat \<Rightarrow> int \<Rightarrow> int \<Rightarrow> int \<Rightarrow> int \<Rightarrow> pte option list \<Rightarrow> (int \<times> int \<times> int \<times> int) res" where
  "nru_conta 0 a b c d xs = Inr (a, b, c, d)"
| "nru_conta (Suc k) a b c d [] = Inl ponteiro_nulo"
| "nru_conta (Suc k) a b c d (None # xs) = Inl lista_invalida"
| "nru_conta (Suc k) a b c d (Some p # xs) =
     (if status p = 0 then nru_conta k (a + 1) b c d xs
      else if status p = MODIFIED_PAGE then nru_conta k a (b + 1) c d xs
      else if status p = REFERENCED_PAGE then nru_conta k a b (c + 1) d xs
      else if status p = (REFERENCED_PAGE OR MODIFIED_PAGE) then nru_conta k a b c (d + 1) xs
      else nru_conta k a b c d xs)"

definition nru_escolhe :: "int \<Rightarrow> int \<Rightarrow> int \<Rightarrow> int \<Rightarrow> int \<Rightarrow> int \<times> int" where
  "nru_escolhe rand a b c d =
     (if 0 < a then (0, rand mod a)
      else if 0 < b then (MODIFIED_PAGE, rand mod b)
      else if 0 < c then (REFERENCED_PAGE, rand mod c)
      else if 0 < d then (REFERENCED_PAGE OR MODIFIED_PAGE, rand mod d)
      else (- 1, - 1))"

text \<open>The second loop: \<open>n\<close> is \<open>foundStatusCounter\<close>.\<close>

fun nru_troca :: "nat \<Rightarrow> int \<Rightarrow> int \<Rightarrow> int \<Rightarrow> pte \<Rightarrow> pte option list \<Rightarrow> pte option list res" where
  "nru_troca 0 st r n q xs = Inl (RuntimeError ''exit(-6): NRU Failure'')"
| "nru_troca (Suc k) st r n q [] = Inl ponteiro_nulo"
| "nru_troca (Suc k) st r n q (None # xs) = Inl ponteiro_nulo"
| "nru_troca (Suc k) st r n q (Some p # xs) =
     (if status p = st then
        if r = n then Inr (Some q # xs)
        else res_bind (nru_troca k st r (n + 1) q xs) (\<lambda>ys. Inr (Some p # ys))
      else res_bind (nru_troca k st r n q xs) (\<lambda>ys. Inr (Some p # ys)))"

definition algo_nru :: "int \<Rightarrow> pte \<Rightarrow> simulacao \<Rightarrow> simulacao res" where
  "algo_nru rand tempPTE s =
     res_bind (nru_conta (nat (maxPages s)) 0 0 0 0 (pageTableList s)) (\<lambda>(a, b, c, d).
       case nru_escolhe rand a b c d of (chosenStatus, randomIndex) \<Rightarrow>
         res_bind (nru_troca (nat (maxPages s)) chosenStatus randomIndex 0 tempPTE (pageTableList s)) (\<lambda>xs.
           Inr (s\<lparr>pageTableList := xs\<rparr>)))"

section \<open>The simulation\<close>

function getNeededBits :: "nat \<Rightarrow> nat" where
  "getNeededBits v = (if v div 2 = 0 then 0 else Suc (getNeededBits (v div 2)))"
  by pat_completeness auto
termination by (relation "measure id") auto

declare getNeededBits.simps [simp del]

definition createTableList :: "pte option list" where
  "createTableList = [None]"

definition simulation_configure :: "algoritmo \<Rightarrow> int \<Rightarrow> int \<Rightarrow> simulacao res" where
  "simulation_configure prAlg pageSizeKB physicalMemorySizeKB =
     (if pageSizeKB < 8 \<or> 32 < pageSizeKB then Inl (RuntimeError ''exit(-2): Page size'')
      else if physicalMemorySizeKB < 128 \<or> 16 * 1024 < physicalMemorySizeKB then
        Inl (RuntimeError ''exit(-2): Physical memory size'')
      else Inr \<lparr>pageSize = pageSizeKB, pageFaults = 0, pageWrites = 0, time = 0, prAlgo = prAlg,
        maxPages = physicalMemorySizeKB div pageSizeKB, pageTableList = createTableList, lastFlagResetTime = - 1\<rparr>)"

definition pageFault_add :: "simulacao \<Rightarrow> simulacao" where
  "pageFault_add s = s\<lparr>pageFaults := pageFaults s + 1\<rparr>"

definition pageFault_replace :: "int \<Rightarrow> pte \<Rightarrow> simulacao \<Rightarrow> simulacao res" where
  "pageFault_replace rand pageTableEntry s =
     (let s1 = s\<lparr>pageFaults := pageFaults s + 1\<rparr> in
      case prAlgo s1 of
        PR_LRU \<Rightarrow> algo_lru pageTableEntry s1
      | PR_NRU \<Rightarrow> algo_nru rand pageTableEntry s1
      | PR_SEC \<Rightarrow> algo_sec pageTableEntry s1)"

definition createPTE :: "32 word \<Rightarrow> char \<Rightarrow> int \<Rightarrow> simulacao \<Rightarrow> pte \<times> simulacao" where
  "createPTE startingAddress rw tm s =
     (if rw = CHR ''W'' then
        (\<lparr>address = startingAddress, lastAccessTime = tm, status = MODIFIED_PAGE, rBit = 1\<rparr>, s\<lparr>pageWrites := pageWrites s + 1\<rparr>)
      else (\<lparr>address = startingAddress, lastAccessTime = tm, status = 0, rBit = 1\<rparr>, s))"

definition accessMemory :: "int \<Rightarrow> char \<Rightarrow> pte \<Rightarrow> pte" where
  "accessMemory tm rw p =
     p\<lparr>lastAccessTime := tm,
       status := (if rw = CHR ''W'' then REFERENCED_PAGE OR MODIFIED_PAGE else REFERENCED_PAGE)\<rparr>"

fun zera_status :: "nat \<Rightarrow> pte option list \<Rightarrow> pte option list" where
  "zera_status 0 xs = xs"
| "zera_status (Suc k) [] = []"
| "zera_status (Suc k) (None # xs) = None # xs"
| "zera_status (Suc k) (Some p # xs) = Some (p\<lparr>status := 0\<rparr>) # zera_status k xs"

definition resetFlags :: "simulacao \<Rightarrow> simulacao" where
  "resetFlags s = s\<lparr>pageTableList := zera_status (nat (maxPages s)) (pageTableList s)\<rparr>"

text \<open>
  The loop over the table: it ends at an empty node, which gets the page \<open>q\<close>, at the page looked for,
  which is accessed by \<open>f\<close>, or after \<open>k\<close> nodes. It appends an empty node where the list ends.
\<close>

datatype busca = Livre | Achada | Cheia

fun percorre :: "nat \<Rightarrow> pte \<Rightarrow> (pte \<Rightarrow> bool) \<Rightarrow> (pte \<Rightarrow> pte) \<Rightarrow> pte option list \<Rightarrow> busca \<times> pte option list" where
  "percorre 0 q e f xs = (Cheia, xs)"
| "percorre (Suc k) q e f [] = (Cheia, [])"
| "percorre (Suc k) q e f (None # xs) = (Livre, Some q # xs)"
| "percorre (Suc k) q e f (Some p # xs) =
     (if e p then (Achada, Some (f p) # xs)
      else case percorre k q e f (if xs = [] then [None] else xs) of (b, ys) \<Rightarrow> (b, Some p # ys))"

definition precisa_reset :: "simulacao \<Rightarrow> bool" where
  "precisa_reset s \<longleftrightarrow>
     (lastFlagResetTime s = - 1 \<and> maxPages s * 1024 < time s) \<or>
     (0 < lastFlagResetTime s \<and> maxPages s * 1024 < time s - lastFlagResetTime s)"

definition simulation_simulateMemoryAccess :: "int \<Rightarrow> 32 word \<Rightarrow> char \<Rightarrow> simulacao \<Rightarrow> simulacao res" where
  "simulation_simulateMemoryAccess rand addr rw s =
     (let bits = getNeededBits (nat (pageSize s * 1024)); pageIndex = drop_bit bits addr; pos = push_bit bits pageIndex in
      check_that (time s < 2147483647) (UndefinedBehaviour ''simulationInfo.time++'')
       (let s1 = s\<lparr>time := time s + 1\<rparr>; (novo, s2) = createPTE pos rw (time s1) s1 in
        case percorre (nat (maxPages s1)) novo (\<lambda>p. drop_bit bits (address p) = pageIndex) (accessMemory (time s1) rw)
               (pageTableList s1) of
          (Livre, xs) \<Rightarrow> Inr (pageFault_add (s2\<lparr>pageTableList := xs\<rparr>))
        | (Achada, xs) \<Rightarrow> Inr (s1\<lparr>pageTableList := xs\<rparr>)
        | (Cheia, xs) \<Rightarrow>
            (let s3 = s1\<lparr>pageTableList := xs\<rparr>; s4 = (if precisa_reset s3 then resetFlags s3 else s3) in
             case createPTE pos rw (time s4) s4 of (novo, s5) \<Rightarrow> pageFault_replace rand novo s5)))"

text \<open>The loop of \<open>runSimulator\<close> over the accesses of the file, each with the value \<open>rand()\<close> has then\<close>

type_synonym acesso = "int \<times> 32 word \<times> char"

definition acessos :: "simulacao \<Rightarrow> acesso list \<Rightarrow> simulacao res" where
  "acessos = res_run (\<lambda>s (rand, addr, rw). simulation_simulateMemoryAccess rand addr rw s)"

end
