(* ===== verification/PagerProofs.thy ===== *)
theory PagerProofs
  imports Pager
begin

text \<open>
  The simulator of virtual memory: the loops on a page table without holes, what the three algorithms
  do on a full table, and one access, by cases, with the invariant \<open>pag_ok\<close> that it keeps.
\<close>

section \<open>The loops on a table without holes\<close>

text \<open>The pages come first; an empty node may follow.\<close>

definition resto :: "pte list \<Rightarrow> pte option list \<Rightarrow> bool" where
  "resto es r \<longleftrightarrow> r = [None] \<or> r = [] \<and> es \<noteq> []"

lemma percorre_achada:
  assumes "\<exists>p \<in> set es. e p" "length es \<le> k"
  shows "\<exists>es1 p es2. es = es1 @ p # es2 \<and> e p \<and> (\<forall>x \<in> set es1. \<not> e x) \<and>
    percorre k q e f (map Some es @ r) = (Achada, map Some (es1 @ f p # es2) @ r)"
  using assms
proof (induction es arbitrary: k)
  case (Cons x es)
  then obtain k1 where k: "k = Suc k1" by (cases k) auto
  show ?case
  proof (cases "e x")
    case True
    then show ?thesis
      unfolding k by (intro exI [of _ "[]"] exI [of _ x] exI [of _ es]) simp
  next
    case False
    with Cons k obtain es1 p es2 where i: "es = es1 @ p # es2" "e p" "\<forall>x \<in> set es1. \<not> e x"
        "percorre k1 q e f (map Some es @ r) = (Achada, map Some (es1 @ f p # es2) @ r)"
      by fastforce
    with False show ?thesis
      unfolding k by (intro exI [of _ "x # es1"] exI [of _ p] exI [of _ es2]) simp
  qed
qed simp

lemma percorre_livre:
  assumes "\<forall>p \<in> set es. \<not> e p" "length es < k" "resto es r"
  shows "percorre k q e f (map Some es @ r) = (Livre, map Some (es @ [q]))"
  using assms
proof (induction es arbitrary: k r)
  case Nil
  then show ?case by (cases k) (auto simp: resto_def)
next
  case (Cons x es)
  then obtain k1 where k: "k = Suc k1" by (cases k) auto
  let ?r = "if map Some es @ r = [] then [None] else r"
  have "percorre k1 q e f (map Some es @ ?r) = (Livre, map Some (es @ [q]))"
    using Cons.prems k by (intro Cons.IH) (auto simp: resto_def)
  then show ?case
    using Cons.prems(1) unfolding k by (cases "map Some es @ r = []") auto
qed

lemma percorre_cheia:
  assumes "\<forall>p \<in> set es. \<not> e p" "length es = k" "resto es r" "0 < k"
  shows "percorre k q e f (map Some es @ r) = (Cheia, map Some es @ [None])"
  using assms
proof (induction es arbitrary: k r)
  case (Cons x es)
  then obtain k1 where k: "k = Suc k1" by (cases k) auto
  show ?case
  proof (cases "es = []")
    case True
    with Cons k show ?thesis by (auto simp: resto_def)
  next
    case False
    then have "percorre k1 q e f (map Some es @ r) = (Cheia, map Some es @ [None])"
      using Cons.prems k by (intro Cons.IH) (auto simp: resto_def)
    with Cons.prems(1) False show ?thesis unfolding k by simp
  qed
qed simp

lemma mais_antiga_forma:
  "k \<le> length es \<Longrightarrow> \<exists>v. mais_antiga k i t e (map Some es @ r) = Inr v \<and>
     ((v = e \<and> (\<forall>j<k. t \<le> lastAccessTime (es ! j))) \<or>
      (\<exists>j<k. v = i + j \<and> lastAccessTime (es ! j) < t \<and> (\<forall>l<k. lastAccessTime (es ! j) \<le> lastAccessTime (es ! l))))"
proof (induction es arbitrary: k i t e)
  case (Cons p es)
  show ?case
  proof (cases k)
    case (Suc k1)
    let ?t = "if lastAccessTime p < t then lastAccessTime p else t" and ?e = "if lastAccessTime p < t then i else e"
    obtain v where v: "mais_antiga k1 (Suc i) ?t ?e (map Some es @ r) = Inr v" and
        "(v = ?e \<and> (\<forall>j<k1. ?t \<le> lastAccessTime (es ! j))) \<or>
         (\<exists>j<k1. v = Suc i + j \<and> lastAccessTime (es ! j) < ?t \<and> (\<forall>l<k1. lastAccessTime (es ! j) \<le> lastAccessTime (es ! l)))"
      using Cons.IH [of k1 "Suc i" ?t ?e] Cons.prems Suc by auto
    then consider "v = ?e" "\<forall>j<k1. ?t \<le> lastAccessTime (es ! j)" |
        j where "j < k1" "v = Suc i + j" "lastAccessTime (es ! j) < ?t" "\<forall>l<k1. lastAccessTime (es ! j) \<le> lastAccessTime (es ! l)"
      by blast
    then have "(v = e \<and> (\<forall>j<Suc k1. t \<le> lastAccessTime ((p # es) ! j))) \<or>
      (\<exists>j<Suc k1. v = i + j \<and> lastAccessTime ((p # es) ! j) < t \<and>
        (\<forall>l<Suc k1. lastAccessTime ((p # es) ! j) \<le> lastAccessTime ((p # es) ! l)))"
    proof cases
      case 1
      then show ?thesis
        by (cases "lastAccessTime p < t") (auto simp: less_Suc_eq_0_disj intro!: exI [of _ 0])
    next
      case 2
      then show ?thesis
        by (intro disjI2 exI [of _ "Suc j"]) (auto simp: less_Suc_eq_0_disj split: if_splits)
    qed
    then show ?thesis using v Suc by auto
  qed auto
qed auto

lemma zera_status_forma: "k = length es \<Longrightarrow> zera_status k (map Some es @ r) = map Some (map (\<lambda>p. p\<lparr>status := 0\<rparr>) es) @ r"
  by (induction es arbitrary: k) auto

section \<open>The pages in memory\<close>

definition carregadas :: "simulacao \<Rightarrow> pte list" where
  "carregadas s = map the (filter (\<lambda>x. x \<noteq> None) (pageTableList s))"

definition bits_de :: "simulacao \<Rightarrow> nat" where
  "bits_de s = getNeededBits (nat (pageSize s * 1024))"

definition pagina :: "simulacao \<Rightarrow> pte \<Rightarrow> 32 word" where
  "pagina s p = drop_bit (bits_de s) (address p)"

definition paginas :: "simulacao \<Rightarrow> 32 word list" where
  "paginas s = map (pagina s) (carregadas s)"

lemma carregadas_forma: "pageTableList s = map Some es @ r \<Longrightarrow> resto es r \<Longrightarrow> carregadas s = es"
  by (auto simp: carregadas_def resto_def filter_map comp_def)

definition pte_ok :: "int \<Rightarrow> pte \<Rightarrow> bool" where
  "pte_ok tm p \<longleftrightarrow> lastAccessTime p \<le> tm \<and> rBit p \<in> {0, 1} \<and> status p \<in> {0, 1, 16, 17}"

lemma pte_ok_depois: "pte_ok tm p \<Longrightarrow> pte_ok (tm + 1) p"
  by (simp add: pte_ok_def)

lemma pte_ok_acesso: "pte_ok tm p \<Longrightarrow> pte_ok (tm + 1) (accessMemory (tm + 1) rw p)"
  by (auto simp: pte_ok_def accessMemory_def)

definition pag_ok :: "simulacao \<Rightarrow> bool" where
  "pag_ok s \<longleftrightarrow>
     (\<exists>r. pageTableList s = map Some (carregadas s) @ r \<and> resto (carregadas s) r) \<and>
     0 < maxPages s \<and> distinct (paginas s) \<and> int (length (carregadas s)) = min (maxPages s) (pageFaults s) \<and>
     (\<forall>p \<in> set (carregadas s). pte_ok (time s) p) \<and>
     0 \<le> pageWrites s \<and> pageWrites s \<le> pageFaults s \<and> pageFaults s \<le> time s"

text \<open>What a step leaves alone\<close>

definition mesma_conf :: "simulacao \<Rightarrow> simulacao \<Rightarrow> bool" where
  "mesma_conf s t \<longleftrightarrow> pageSize t = pageSize s \<and> maxPages t = maxPages s \<and> prAlgo t = prAlgo s \<and>
     lastFlagResetTime t = lastFlagResetTime s"

text \<open>A page is in the table, and another one is put in its place.\<close>

definition troca :: "nat \<Rightarrow> pte \<Rightarrow> simulacao \<Rightarrow> simulacao" where
  "troca v q s = s\<lparr>pageTableList := (pageTableList s)[v := Some q]\<rparr>"

lemma resto_mesmo: "length es = length ds \<Longrightarrow> resto es r = resto ds r"
  by (auto simp: resto_def)

lemma carregadas_troca:
  assumes "pageTableList s = map Some es @ r" "resto es r" "v < length es"
  shows "carregadas (troca v q s) = es[v := q]" "pageTableList (troca v q s) = map Some (es[v := q]) @ r"
proof -
  show t: "pageTableList (troca v q s) = map Some (es[v := q]) @ r"
    using assms by (simp add: troca_def list_update_append map_update)
  show "carregadas (troca v q s) = es[v := q]"
    using assms(2) by (intro carregadas_forma [OF t]) (simp add: resto_mesmo [of "es[v := q]" es])
qed

section \<open>The three algorithms on a full table\<close>

definition cheia :: "simulacao \<Rightarrow> bool" where
  "cheia s \<longleftrightarrow> (\<exists>r. pageTableList s = map Some (carregadas s) @ r \<and> resto (carregadas s) r) \<and>
     0 < maxPages s \<and> int (length (carregadas s)) = maxPages s"

lemma algo_lru_cheia:
  assumes "cheia s" "\<forall>p \<in> set (carregadas s). lastAccessTime p < time s"
  shows "\<exists>v < length (carregadas s). algo_lru q s = Inr (troca v q s) \<and>
    (\<forall>l < length (carregadas s). lastAccessTime (carregadas s ! v) \<le> lastAccessTime (carregadas s ! l))"
proof -
  let ?es = "carregadas s"
  obtain r where r: "pageTableList s = map Some ?es @ r" "resto ?es r"
    using assms(1) by (auto simp: cheia_def)
  have m: "nat (maxPages s) = length ?es" "0 < length ?es"
    using assms(1) by (auto simp: cheia_def)
  obtain v where v: "mais_antiga (length ?es) 0 (time s) 0 (map Some ?es @ r) = Inr v" and
      c: "(v = 0 \<and> (\<forall>j<length ?es. time s \<le> lastAccessTime (?es ! j))) \<or>
        (\<exists>j<length ?es. v = 0 + j \<and> lastAccessTime (?es ! j) < time s \<and>
          (\<forall>l<length ?es. lastAccessTime (?es ! j) \<le> lastAccessTime (?es ! l)))"
    using mais_antiga_forma [of "length ?es" ?es 0 "time s" 0 r] by auto
  have "\<not> (\<forall>j<length ?es. time s \<le> lastAccessTime (?es ! j))"
    using assms(2) m(2) nth_mem [of 0 ?es] by (metis not_le)
  with c have j: "v < length ?es" "\<forall>l<length ?es. lastAccessTime (?es ! v) \<le> lastAccessTime (?es ! l)"
    by auto
  moreover have "v < length (pageTableList s)"
    using j(1) by (simp add: r(1))
  moreover have "mais_antiga (nat (maxPages s)) 0 (time s) 0 (pageTableList s) = Inr v"
    using v r(1) m(1) by metis
  ultimately show ?thesis
    by (intro exI [of _ v]) (simp add: algo_lru_def troca_def)
qed

definition poupa :: "int \<Rightarrow> pte \<Rightarrow> pte" where
  "poupa tm p = p\<lparr>rBit := 0, lastAccessTime := tm\<rparr>"

text \<open>The page \<open>v\<close> that second chance replaces, and what it leaves of the other ones (\<open>ds\<close>)\<close>

definition segunda_chance :: "int \<Rightarrow> pte list \<Rightarrow> nat \<Rightarrow> pte list \<Rightarrow> bool" where
  "segunda_chance tm es v ds \<longleftrightarrow> v < length es \<and> length ds = length es \<and>
     (if \<exists>l < length es. rBit (es ! l) \<noteq> 1 \<and> lastAccessTime (es ! l) < tm then
        rBit (es ! v) \<noteq> 1 \<and> lastAccessTime (es ! v) < tm \<and>
        (\<forall>l < length es. rBit (es ! l) \<noteq> 1 \<longrightarrow> lastAccessTime (es ! v) \<le> lastAccessTime (es ! l)) \<and>
        (\<forall>l < length es.
          (ds ! l = es ! l \<and> (rBit (es ! l) = 1 \<longrightarrow> lastAccessTime (es ! v) \<le> lastAccessTime (es ! l))) \<or>
          (ds ! l = poupa tm (es ! l) \<and> rBit (es ! l) = 1 \<and> lastAccessTime (es ! l) \<le> lastAccessTime (es ! v)))
      else v = 0 \<and> (\<forall>l < length es. ds ! l = (if lastAccessTime (es ! l) < tm then poupa tm (es ! l) else es ! l)))"

lemma segunda_chance_passo:
  assumes "segunda_chance tm (es[e := poupa tm (es ! e)]) v ds" "e < length es" "rBit (es ! e) = 1"
    "lastAccessTime (es ! e) < tm" "\<forall>l < length es. lastAccessTime (es ! e) \<le> lastAccessTime (es ! l)"
  shows "segunda_chance tm es v ds"
proof -
  let ?ds = "es[e := poupa tm (es ! e)]"
  have n: "?ds ! l = (if l = e then poupa tm (es ! e) else es ! l)" if "l < length es" for l
    using that assms(2) by simp
  have p: "rBit (poupa tm x) = 0" "lastAccessTime (poupa tm x) = tm" for x
    by (simp_all add: poupa_def)
  have c: "(\<exists>l < length es. rBit (?ds ! l) \<noteq> 1 \<and> lastAccessTime (?ds ! l) < tm) \<longleftrightarrow>
      (\<exists>l < length es. rBit (es ! l) \<noteq> 1 \<and> lastAccessTime (es ! l) < tm)"
    using n p assms(3) by (metis less_irrefl)
  show ?thesis
  proof (cases "\<exists>l < length es. rBit (es ! l) \<noteq> 1 \<and> lastAccessTime (es ! l) < tm")
    case True
    with assms(1) c have v: "v < length es" "rBit (?ds ! v) \<noteq> 1" "lastAccessTime (?ds ! v) < tm" "length ds = length es"
        "\<And>l. l < length es \<Longrightarrow> rBit (?ds ! l) \<noteq> 1 \<Longrightarrow> lastAccessTime (?ds ! v) \<le> lastAccessTime (?ds ! l)"
        "\<And>l. l < length es \<Longrightarrow> (ds ! l = ?ds ! l \<and> (rBit (?ds ! l) = 1 \<longrightarrow> lastAccessTime (?ds ! v) \<le> lastAccessTime (?ds ! l))) \<or>
          (ds ! l = poupa tm (?ds ! l) \<and> rBit (?ds ! l) = 1 \<and> lastAccessTime (?ds ! l) \<le> lastAccessTime (?ds ! v))"
      unfolding segunda_chance_def by (simp_all del: nth_list_update)
    have "v \<noteq> e"
      using v(3) p(2) assms(2) by auto
    then have w: "?ds ! v = es ! v"
      by simp
    have ev: "lastAccessTime (es ! e) \<le> lastAccessTime (es ! v)"
      using assms(5) v(1) by blast
    have "rBit (es ! l) \<noteq> 1 \<Longrightarrow> lastAccessTime (es ! v) \<le> lastAccessTime (es ! l)" if "l < length es" for l
      using v(5) [OF that] n [OF that] w assms(3) by (cases "l = e") auto
    moreover have "(ds ! l = es ! l \<and> (rBit (es ! l) = 1 \<longrightarrow> lastAccessTime (es ! v) \<le> lastAccessTime (es ! l))) \<or>
        (ds ! l = poupa tm (es ! l) \<and> rBit (es ! l) = 1 \<and> lastAccessTime (es ! l) \<le> lastAccessTime (es ! v))"
      if "l < length es" for l
      using v(6) [OF that] n [OF that] w assms(3) ev p(1) by (cases "l = e") auto
    ultimately show ?thesis
      using True v(1-4) w by (simp add: segunda_chance_def)
  next
    case False
    with assms(1) c have v: "v = 0" "length ds = length es"
        "\<And>l. l < length es \<Longrightarrow> ds ! l = (if lastAccessTime (?ds ! l) < tm then poupa tm (?ds ! l) else ?ds ! l)"
      unfolding segunda_chance_def by (simp_all del: nth_list_update)
    have "ds ! l = (if lastAccessTime (es ! l) < tm then poupa tm (es ! l) else es ! l)" if "l < length es" for l
      using v(3) [OF that] n [OF that] assms(4) p(2) by (cases "l = e") auto
    moreover have "0 < length es"
      using assms(2) by linarith
    ultimately show ?thesis
      unfolding segunda_chance_def if_not_P [OF False] using v(1,2) by blast
  qed
qed

lemma algo_sec_cheia:
  assumes "cheia s" "\<forall>p \<in> set (carregadas s). lastAccessTime p \<le> time s \<and> (lastAccessTime p = time s \<longrightarrow> rBit p \<noteq> 1)"
  shows "\<exists>v ds r. segunda_chance (time s) (carregadas s) v ds \<and> resto ds r \<and>
    algo_sec q s = Inr (s\<lparr>pageTableList := map Some (ds[v := q]) @ r\<rparr>)"
  using assms
proof (induction q s rule: algo_sec.induct)
  case (1 q s)
  let ?es = "carregadas s"
  obtain r where r: "pageTableList s = map Some ?es @ r" "resto ?es r"
    using "1.prems"(1) by (auto simp: cheia_def)
  have m: "nat (maxPages s) = length ?es" "0 < length ?es"
    using "1.prems"(1) by (auto simp: cheia_def)
  obtain e where e: "mais_antiga (length ?es) 0 (time s) 0 (map Some ?es @ r) = Inr e" and
      c: "(e = 0 \<and> (\<forall>j<length ?es. time s \<le> lastAccessTime (?es ! j))) \<or>
        (e < length ?es \<and> lastAccessTime (?es ! e) < time s \<and>
          (\<forall>l<length ?es. lastAccessTime (?es ! e) \<le> lastAccessTime (?es ! l)))"
    using mais_antiga_forma [of "length ?es" ?es 0 "time s" 0 r] by auto
  have e1: "mais_antiga (nat (maxPages s)) 0 (time s) 0 (pageTableList s) = Inr e"
    using e r(1) m(1) by metis
  have el: "e < length ?es" "e < length (pageTableList s)" "pageTableList s ! e = Some (?es ! e)"
    using c m(2) by (auto simp: r(1) nth_append)
  have alto: "\<And>l. l < length ?es \<Longrightarrow> lastAccessTime (?es ! l) \<le> time s \<and> (lastAccessTime (?es ! l) = time s \<longrightarrow> rBit (?es ! l) \<noteq> 1)"
    using "1.prems"(2) by simp
  show ?case
  proof (cases "rBit (?es ! e) = 1")
    case True
    with c alto [OF el(1)] have antes: "lastAccessTime (?es ! e) < time s"
        "\<forall>l<length ?es. lastAccessTime (?es ! e) \<le> lastAccessTime (?es ! l)"
      by fastforce+
    let ?s = "troca e (poupa (time s) (?es ! e)) s"
    have t: "carregadas ?s = ?es[e := poupa (time s) (?es ! e)]" "pageTableList ?s = map Some (?es[e := poupa (time s) (?es ! e)]) @ r"
      by (rule carregadas_troca [OF r el(1)])+
    have a: "algo_sec q s = algo_sec q ?s"
      using e1 el True by (subst algo_sec.simps) (simp add: troca_def poupa_def)
    have k: "time ?s = time s" "maxPages ?s = maxPages s"
      by (simp_all add: troca_def)
    have "cheia ?s"
      using "1.prems"(1) r(2) unfolding cheia_def t k by (auto simp: resto_mesmo [of "?es[e := poupa (time s) (?es ! e)]" ?es])
    moreover have "\<forall>p \<in> set (carregadas ?s). lastAccessTime p \<le> time ?s \<and> (lastAccessTime p = time ?s \<longrightarrow> rBit p \<noteq> 1)"
      using "1.prems"(2) set_update_subset_insert [of ?es e "poupa (time s) (?es ! e)"]
      unfolding t k by (auto simp: poupa_def)
    ultimately obtain v ds r1 where i: "segunda_chance (time ?s) (carregadas ?s) v ds" "resto ds r1"
        "algo_sec q ?s = Inr (?s\<lparr>pageTableList := map Some (ds[v := q]) @ r1\<rparr>)"
      using "1.IH" [OF e1 el(2,3) True] unfolding troca_def poupa_def by blast
    have "segunda_chance (time s) ?es v ds"
      using segunda_chance_passo [OF i(1) [unfolded t(1) k(1)] el(1) True antes] .
    with i(2,3) a show ?thesis
      by (auto simp: troca_def)
  next
    case False
    have "segunda_chance (time s) ?es e ?es"
      using c el(1) False alto by (auto simp: segunda_chance_def intro: nth_equalityI)
    moreover have "algo_sec q s = Inr (s\<lparr>pageTableList := map Some (?es[e := q]) @ r\<rparr>)"
      using e1 el False r(1) by (subst algo_sec.simps) (simp add: list_update_append map_update)
    ultimately show ?thesis
      using r(2) by blast
  qed
qed

definition conta :: "int \<Rightarrow> pte list \<Rightarrow> int" where
  "conta st es = int (length (filter (\<lambda>p. status p = st) es))"

lemma conta_simps [simp]: "conta st [] = 0" "conta st (p # es) = (if status p = st then 1 else 0) + conta st es"
  by (simp_all add: conta_def)

lemma conta_pos: "0 < conta st es \<longleftrightarrow> (\<exists>p \<in> set es. status p = st)"
  by (auto simp: conta_def filter_empty_conv)

lemma conta_nao_neg [simp]: "0 \<le> conta st es"
  by (simp add: conta_def)

text \<open>The category of a page, as the comment of \<open>nru.c\<close> numbers them\<close>

definition categoria :: "pte \<Rightarrow> nat" where
  "categoria p = (if status p = 0 then 0 else if status p = 16 then 1 else if status p = 1 then 2 else 3)"

lemma nru_conta_forma:
  "nru_conta (length es) a b c d (map Some es @ r) = Inr (a + conta 0 es, b + conta 16 es, c + conta 1 es, d + conta 17 es)"
  by (induction es arbitrary: a b c d) auto

lemma nru_troca_forma:
  "n \<le> k \<Longrightarrow> k < n + conta st es \<Longrightarrow> \<exists>v < length es. status (es ! v) = st \<and> k = n + conta st (take v es) \<and>
     nru_troca (length es) st k n q (map Some es @ r) = Inr (map Some (es[v := q]) @ r)"
proof (induction es arbitrary: n)
  case (Cons p es)
  show ?case
  proof (cases "status p = st \<and> k = n")
    case True
    then show ?thesis
      by (intro exI [of _ 0]) simp
  next
    case False
    let ?n = "if status p = st then n + 1 else n"
    obtain v where "v < length es" "status (es ! v) = st" "k = ?n + conta st (take v es)"
        "nru_troca (length es) st k ?n q (map Some es @ r) = Inr (map Some (es[v := q]) @ r)"
      using Cons.IH [of ?n] Cons.prems False by (auto split: if_splits)
    with False show ?thesis
      by (intro exI [of _ "Suc v"]) (auto split: if_splits)
  qed
qed simp

lemma algo_nru_cheia:
  assumes "cheia s" "0 \<le> rand" "\<forall>p \<in> set (carregadas s). status p \<in> {0, 1, 16, 17}"
  shows "\<exists>v < length (carregadas s). algo_nru rand q s = Inr (troca v q s) \<and>
    (\<forall>l < length (carregadas s). categoria (carregadas s ! v) \<le> categoria (carregadas s ! l)) \<and>
    conta (status (carregadas s ! v)) (take v (carregadas s)) = rand mod conta (status (carregadas s ! v)) (carregadas s)"
proof -
  let ?es = "carregadas s"
  obtain r where r: "pageTableList s = map Some ?es @ r" "resto ?es r"
    using assms(1) by (auto simp: cheia_def)
  have m: "nat (maxPages s) = length ?es" "0 < length ?es"
    using assms(1) by (auto simp: cheia_def)
  have c: "nru_conta (nat (maxPages s)) 0 0 0 0 (pageTableList s) = Inr (conta 0 ?es, conta 16 ?es, conta 1 ?es, conta 17 ?es)"
    using nru_conta_forma [of ?es 0 0 0 0 r] r(1) m(1) by (metis add_0)
  obtain p where "p \<in> set ?es" using m(2) by (metis length_greater_0_conv list.set_sel(1))
  then have alguma: "0 < conta 0 ?es \<or> 0 < conta 16 ?es \<or> 0 < conta 1 ?es \<or> 0 < conta 17 ?es"
    using assms(3) unfolding conta_pos by blast
  define st where "st = fst (nru_escolhe rand (conta 0 ?es) (conta 16 ?es) (conta 1 ?es) (conta 17 ?es))"
  have e: "nru_escolhe rand (conta 0 ?es) (conta 16 ?es) (conta 1 ?es) (conta 17 ?es) = (st, rand mod conta st ?es)"
    and pos: "0 < conta st ?es"
    using alguma by (auto simp: st_def nru_escolhe_def)
  have menor: "categoria x \<le> categoria y" if "x \<in> set ?es" "y \<in> set ?es" "status x = st" for x y
  proof -
    have "status y \<in> {0, 1, 16, 17}" using assms(3) that(2) by blast
    moreover have "0 < conta (status y) ?es" using that(2) by (auto simp: conta_pos)
    ultimately show ?thesis
      using that(3) by (auto simp: st_def nru_escolhe_def categoria_def split: if_splits)
  qed
  obtain v where v: "v < length ?es" "status (?es ! v) = st" "rand mod conta st ?es = 0 + conta st (take v ?es)"
      "nru_troca (length ?es) st (rand mod conta st ?es) 0 q (map Some ?es @ r) = Inr (map Some (?es[v := q]) @ r)"
    using nru_troca_forma [of 0 "rand mod conta st ?es" st ?es q r] pos by auto
  have "nru_troca (nat (maxPages s)) st (rand mod conta st ?es) 0 q (pageTableList s) = Inr (map Some (?es[v := q]) @ r)"
    using v(4) r(1) m(1) by metis
  then have "algo_nru rand q s = Inr (troca v q s)"
    using carregadas_troca(2) [OF r v(1), of q] by (simp add: algo_nru_def c e troca_def)
  then show ?thesis
    using v(1,2,3) menor by (intro exI [of _ v]) auto
qed

section \<open>One access\<close>

unbundle bit_operations_syntax

definition nova_pte :: "simulacao \<Rightarrow> 32 word \<Rightarrow> char \<Rightarrow> pte" where
  "nova_pte s x rw = \<lparr>address = push_bit (bits_de s) x, lastAccessTime = time s + 1,
     status = (if rw = CHR ''W'' then 16 else 0), rBit = 1\<rparr>"

definition escrita :: "char \<Rightarrow> int" where
  "escrita rw = (if rw = CHR ''W'' then 1 else 0)"

lemma createPTE_nova: "tm = time s + 1 \<Longrightarrow> createPTE (push_bit (bits_de s) x) rw tm t =
    (nova_pte s x rw, t\<lparr>pageWrites := pageWrites t + escrita rw\<rparr>)"
  by (simp add: createPTE_def nova_pte_def escrita_def)

lemma volta_drop: "drop_bit b (push_bit b (drop_bit b a)) = drop_bit b (a :: 32 word)"
  by (rule bit_word_eqI) (auto simp: bit_simps dest: bit_imp_le_length)

lemma fora_paginas: "drop_bit (bits_de s) a \<notin> set (paginas s) \<longleftrightarrow>
    (\<forall>p \<in> set (carregadas s). drop_bit (bits_de s) (address p) \<noteq> drop_bit (bits_de s) a)"
  by (force simp: paginas_def pagina_def)

lemma pagina_nova: "bits_de t = bits_de s \<Longrightarrow> pagina t (nova_pte s (drop_bit (bits_de s) a) rw) = drop_bit (bits_de s) a"
  by (simp add: pagina_def nova_pte_def volta_drop)

lemma acesso_achada:
  assumes "pag_ok s" "time s < 2147483647" "drop_bit (bits_de s) a \<in> set (paginas s)"
  shows "\<exists>es1 p es2 r. carregadas s = es1 @ p # es2 \<and> pagina s p = drop_bit (bits_de s) a \<and>
    resto (es1 @ p # es2) r \<and> simulation_simulateMemoryAccess rand a rw s =
      Inr (s\<lparr>time := time s + 1, pageTableList := map Some (es1 @ accessMemory (time s + 1) rw p # es2) @ r\<rparr>)"
proof -
  let ?es = "carregadas s" and ?e = "\<lambda>p. drop_bit (bits_de s) (address p) = drop_bit (bits_de s) a"
  obtain r where r: "pageTableList s = map Some ?es @ r" "resto ?es r"
    using assms(1) by (auto simp: pag_ok_def)
  let ?q = "nova_pte s (drop_bit (bits_de s) a) rw"
  have "length ?es \<le> nat (maxPages s)" "\<exists>p \<in> set ?es. ?e p"
    using assms(1,3) fora_paginas [of s a] by (auto simp: pag_ok_def)
  then obtain es1 p es2 where c: "?es = es1 @ p # es2" "?e p" and
      l: "percorre (nat (maxPages s)) ?q ?e (accessMemory (time s + 1) rw) (pageTableList s) =
        (Achada, map Some (es1 @ accessMemory (time s + 1) rw p # es2) @ r)"
    using percorre_achada [of ?es ?e "nat (maxPages s)" ?q "accessMemory (time s + 1) rw" r] r(1) by metis
  have "simulation_simulateMemoryAccess rand a rw s =
      Inr (s\<lparr>time := time s + 1, pageTableList := map Some (es1 @ accessMemory (time s + 1) rw p # es2) @ r\<rparr>)"
    using assms(2) by (simp add: simulation_simulateMemoryAccess_def Let_def bits_de_def [symmetric] createPTE_nova l
      del: map_append)
  with c r(2) show ?thesis
    by (intro exI [of _ es1] exI [of _ p] exI [of _ es2] exI [of _ r]) (simp add: pagina_def)
qed

lemma acesso_livre:
  assumes "pag_ok s" "time s < 2147483647" "drop_bit (bits_de s) a \<notin> set (paginas s)"
    "int (length (carregadas s)) < maxPages s"
  shows "simulation_simulateMemoryAccess rand a rw s =
      Inr (s\<lparr>time := time s + 1, pageWrites := pageWrites s + escrita rw, pageFaults := pageFaults s + 1,
        pageTableList := map Some (carregadas s @ [nova_pte s (drop_bit (bits_de s) a) rw])\<rparr>)"
proof -
  let ?es = "carregadas s" and ?e = "\<lambda>p. drop_bit (bits_de s) (address p) = drop_bit (bits_de s) a"
  obtain r where r: "pageTableList s = map Some ?es @ r" "resto ?es r"
    using assms(1) by (auto simp: pag_ok_def)
  have "length ?es < nat (maxPages s)" "\<forall>p \<in> set ?es. \<not> ?e p"
    using assms(1,4) assms(3) [unfolded fora_paginas] by (auto simp: pag_ok_def)
  then have l: "percorre (nat (maxPages s)) q ?e f (pageTableList s) = (Livre, map Some (?es @ [q]))" for q f
    using percorre_livre [of ?es ?e "nat (maxPages s)" r q f] r by metis
  show ?thesis
    using assms(2) by (simp add: simulation_simulateMemoryAccess_def Let_def bits_de_def [symmetric] createPTE_nova l
      pageFault_add_def del: map_append)
qed

text \<open>The table with which a page is replaced\<close>

definition antes_da_troca :: "char \<Rightarrow> simulacao \<Rightarrow> simulacao" where
  "antes_da_troca rw s =
     (let es = carregadas s; s1 = s\<lparr>time := time s + 1\<rparr> in
      s\<lparr>time := time s + 1, pageTableList := map Some (if precisa_reset s1 then map (\<lambda>p. p\<lparr>status := 0\<rparr>) es else es) @ [None],
        pageWrites := pageWrites s + escrita rw, pageFaults := pageFaults s + 1\<rparr>)"

lemma acesso_cheia:
  assumes "pag_ok s" "time s < 2147483647" "drop_bit (bits_de s) a \<notin> set (paginas s)"
    "int (length (carregadas s)) = maxPages s"
  shows "simulation_simulateMemoryAccess rand a rw s =
    (let q = nova_pte s (drop_bit (bits_de s) a) rw; t = antes_da_troca rw s in
     case prAlgo s of PR_LRU \<Rightarrow> algo_lru q t | PR_NRU \<Rightarrow> algo_nru rand q t | PR_SEC \<Rightarrow> algo_sec q t)"
proof -
  let ?es = "carregadas s" and ?e = "\<lambda>p. drop_bit (bits_de s) (address p) = drop_bit (bits_de s) a"
  obtain r where r: "pageTableList s = map Some ?es @ r" "resto ?es r"
    using assms(1) by (auto simp: pag_ok_def)
  have m: "length ?es = nat (maxPages s)" "0 < nat (maxPages s)" "\<forall>p \<in> set ?es. \<not> ?e p"
    using assms(1,4) assms(3) [unfolded fora_paginas] by (auto simp: pag_ok_def)
  then have l: "percorre (nat (maxPages s)) q ?e f (pageTableList s) = (Cheia, map Some ?es @ [None])" for q f
    using percorre_cheia [of ?es ?e "nat (maxPages s)" r q f] r by metis
  have z: "zera_status (nat (maxPages s)) (map Some ?es @ [None]) = map Some (map (\<lambda>p. p\<lparr>status := 0\<rparr>) ?es) @ [None]"
    using zera_status_forma [of "nat (maxPages s)" ?es "[None]"] m(1) by simp
  have p: "precisa_reset (u\<lparr>pageTableList := xs\<rparr>) = precisa_reset u" for u xs
    by (simp add: precisa_reset_def)
  show ?thesis
    using assms(2) by (simp add: simulation_simulateMemoryAccess_def Let_def bits_de_def [symmetric] createPTE_nova l z p
      resetFlags_def pageFault_replace_def antes_da_troca_def split: algoritmo.split)
qed

text \<open>What the algorithms find\<close>

definition na_troca :: "simulacao \<Rightarrow> pte list" where
  "na_troca s = (if precisa_reset (s\<lparr>time := time s + 1\<rparr>) then map (\<lambda>p. p\<lparr>status := 0\<rparr>) (carregadas s) else carregadas s)"

lemma antes_simps:
  "carregadas (antes_da_troca rw s) = na_troca s" "time (antes_da_troca rw s) = time s + 1"
  "maxPages (antes_da_troca rw s) = maxPages s" "length (na_troca s) = length (carregadas s)"
  "pageTableList (antes_da_troca rw s) = map Some (na_troca s) @ [None]" "prAlgo (antes_da_troca rw s) = prAlgo s"
  "bits_de (antes_da_troca rw s) = bits_de s" "pageFaults (antes_da_troca rw s) = pageFaults s + 1"
  "pageWrites (antes_da_troca rw s) = pageWrites s + escrita rw" "mesma_conf s (antes_da_troca rw s)"
proof -
  show t: "pageTableList (antes_da_troca rw s) = map Some (na_troca s) @ [None]"
    by (simp add: antes_da_troca_def na_troca_def Let_def)
  show "carregadas (antes_da_troca rw s) = na_troca s"
    by (rule carregadas_forma [OF t]) (simp add: resto_def)
qed (simp_all add: antes_da_troca_def na_troca_def Let_def bits_de_def mesma_conf_def)

lemma na_troca_nth: "l < length (carregadas s) \<Longrightarrow> address (na_troca s ! l) = address (carregadas s ! l) \<and>
    lastAccessTime (na_troca s ! l) = lastAccessTime (carregadas s ! l) \<and> rBit (na_troca s ! l) = rBit (carregadas s ! l) \<and>
    (status (na_troca s ! l) = 0 \<or> status (na_troca s ! l) = status (carregadas s ! l))"
  by (simp add: na_troca_def)

lemma cheia_antes:
  assumes "pag_ok s" "int (length (carregadas s)) = maxPages s"
  shows "cheia (antes_da_troca rw s)" "\<forall>p \<in> set (na_troca s). lastAccessTime p < time s + 1 \<and> rBit p \<in> {0, 1} \<and>
    status p \<in> {0, 1, 16, 17}"
proof -
  show "cheia (antes_da_troca rw s)"
    using assms unfolding cheia_def antes_simps by (auto simp: pag_ok_def resto_def)
  show "\<forall>p \<in> set (na_troca s). lastAccessTime p < time s + 1 \<and> rBit p \<in> {0, 1} \<and> status p \<in> {0, 1, 16, 17}"
    using assms(1) by (auto simp: pag_ok_def pte_ok_def na_troca_def)
qed

text \<open>Which page is replaced, and what happens to the others\<close>

definition vitima :: "int \<Rightarrow> simulacao \<Rightarrow> nat \<Rightarrow> pte list \<Rightarrow> bool" where
  "vitima rand s v ds \<longleftrightarrow>
     (let es = na_troca s in
      case prAlgo s of
        PR_LRU \<Rightarrow> ds = es \<and> (\<forall>l < length es. lastAccessTime (es ! v) \<le> lastAccessTime (es ! l))
      | PR_SEC \<Rightarrow> segunda_chance (time s + 1) es v ds
      | PR_NRU \<Rightarrow> ds = es \<and> (\<forall>l < length es. categoria (es ! v) \<le> categoria (es ! l)) \<and>
          conta (status (es ! v)) (take v es) = rand mod conta (status (es ! v)) es)"

lemma segunda_chance_nth:
  "segunda_chance tm es v ds \<Longrightarrow> v < length es \<and> length ds = length es \<and>
    (\<forall>l < length es. ds ! l = es ! l \<or> ds ! l = poupa tm (es ! l))"
  unfolding segunda_chance_def by (auto split: if_splits)

lemma acesso_troca:
  assumes "pag_ok s" "time s < 2147483647" "drop_bit (bits_de s) a \<notin> set (paginas s)"
    "int (length (carregadas s)) = maxPages s" "0 \<le> rand"
  shows "\<exists>v ds r. v < length ds \<and> length ds = length (carregadas s) \<and> vitima rand s v ds \<and> resto ds r \<and>
    simulation_simulateMemoryAccess rand a rw s =
      Inr ((antes_da_troca rw s)\<lparr>pageTableList := map Some (ds[v := nova_pte s (drop_bit (bits_de s) a) rw]) @ r\<rparr>)"
proof -
  let ?t = "antes_da_troca rw s" and ?q = "nova_pte s (drop_bit (bits_de s) a) rw"
  note c = cheia_antes [OF assms(1,4)]
  have n: "0 < length (na_troca s)"
    using assms(1,4) by (auto simp: antes_simps pag_ok_def)
  have rn: "resto (na_troca s) [None]"
    by (simp add: resto_def)
  have tr: "troca v ?q ?t = ?t\<lparr>pageTableList := map Some ((na_troca s)[v := ?q]) @ [None]\<rparr>" if "v < length (na_troca s)" for v
    using that by (simp add: troca_def antes_simps list_update_append map_update)
  have k: "\<forall>p \<in> set (carregadas ?t). lastAccessTime p < time ?t" "\<forall>p \<in> set (carregadas ?t). status p \<in> {0, 1, 16, 17}"
      "\<forall>p \<in> set (carregadas ?t). lastAccessTime p \<le> time ?t \<and> (lastAccessTime p = time ?t \<longrightarrow> rBit p \<noteq> 1)"
    using c(2) by (auto simp: antes_simps)
  note simu = acesso_cheia [OF assms(1-4), of rand rw, unfolded Let_def]
  show ?thesis
  proof (cases "prAlgo s")
    case PR_LRU
    from algo_lru_cheia [OF c(1) k(1), of ?q] obtain v where "v < length (na_troca s)" "algo_lru ?q ?t = Inr (troca v ?q ?t)"
        "\<forall>l < length (na_troca s). lastAccessTime (na_troca s ! v) \<le> lastAccessTime (na_troca s ! l)"
      unfolding antes_simps by blast
    then show ?thesis
      using PR_LRU rn tr by (intro exI [of _ v] exI [of _ "na_troca s"] exI [of _ "[None]"]) (simp add: simu vitima_def antes_simps)
  next
    case PR_NRU
    from algo_nru_cheia [OF c(1) assms(5) k(2), of ?q] obtain v where "v < length (na_troca s)" "algo_nru rand ?q ?t = Inr (troca v ?q ?t)"
        "\<forall>l < length (na_troca s). categoria (na_troca s ! v) \<le> categoria (na_troca s ! l)"
        "conta (status (na_troca s ! v)) (take v (na_troca s)) = rand mod conta (status (na_troca s ! v)) (na_troca s)"
      unfolding antes_simps by blast
    then show ?thesis
      using PR_NRU rn tr by (intro exI [of _ v] exI [of _ "na_troca s"] exI [of _ "[None]"]) (simp add: simu vitima_def antes_simps)
  next
    case PR_SEC
    from algo_sec_cheia [OF c(1) k(3), of ?q] obtain v ds r where "segunda_chance (time s + 1) (na_troca s) v ds" "resto ds r"
        "algo_sec ?q ?t = Inr (?t\<lparr>pageTableList := map Some (ds[v := ?q]) @ r\<rparr>)"
      unfolding antes_simps by blast
    then show ?thesis
      using PR_SEC segunda_chance_nth [of "time s + 1" "na_troca s" v ds]
      by (intro exI [of _ v] exI [of _ ds] exI [of _ r]) (simp add: simu vitima_def antes_simps)
  qed
qed

lemma vitima_nth: "vitima rand s v ds \<Longrightarrow> l < length (na_troca s) \<Longrightarrow>
    ds ! l = na_troca s ! l \<or> ds ! l = poupa (time s + 1) (na_troca s ! l)"
  by (auto simp: vitima_def Let_def dest: segunda_chance_nth split: algoritmo.splits)

text \<open>One access keeps the table in order.\<close>

definition depois :: "simulacao \<Rightarrow> 32 word \<Rightarrow> simulacao \<Rightarrow> bool" where
  "depois s x t \<longleftrightarrow> pag_ok t \<and> mesma_conf s t \<and> time t = time s + 1 \<and> x \<in> set (paginas t) \<and>
     pageFaults t = (if x \<in> set (paginas s) then pageFaults s else pageFaults s + 1)"

lemma pagina_conf: "pageSize t = pageSize s \<Longrightarrow> pagina t = pagina s"
  by (auto simp: pagina_def bits_de_def)

lemma escrita_bounds: "0 \<le> escrita rw" "escrita rw \<le> 1"
  by (simp_all add: escrita_def)

lemma depois_troca:
  assumes "pag_ok s" "drop_bit (bits_de s) a \<notin> set (paginas s)" "int (length (carregadas s)) = maxPages s"
    "v < length ds" "length ds = length (carregadas s)" "vitima rand s v ds" "resto ds r"
    "t = (antes_da_troca rw s)\<lparr>pageTableList := map Some (ds[v := nova_pte s (drop_bit (bits_de s) a) rw]) @ r\<rparr>"
  shows "depois s (drop_bit (bits_de s) a) t" "carregadas t = ds[v := nova_pte s (drop_bit (bits_de s) a) rw]"
    "paginas t = (paginas s)[v := drop_bit (bits_de s) a]"
proof -
  let ?x = "drop_bit (bits_de s) a" and ?q = "nova_pte s (drop_bit (bits_de s) a) rw"
  have l: "pageTableList t = map Some (ds[v := ?q]) @ r" "resto (ds[v := ?q]) r"
    using assms(7) by (simp_all add: assms(8) resto_mesmo [of "ds[v := ?q]" ds])
  show ct: "carregadas t = ds[v := ?q]"
    by (rule carregadas_forma [OF l])
  have conf: "mesma_conf s t"
    using antes_simps(10) [of s rw] by (simp add: mesma_conf_def assms(8))
  have d: "ds ! i = na_troca s ! i \<or> ds ! i = poupa (time s + 1) (na_troca s ! i)" if "i < length ds" for i
    using vitima_nth [OF assms(6), of i] that assms(5) by (simp add: antes_simps)
  have "pagina s (ds ! i) = pagina s (carregadas s ! i)" if "i < length ds" for i
    using d [OF that] na_troca_nth [of i s] that assms(5) by (auto simp: pagina_def poupa_def)
  then have "map (pagina s) ds = paginas s"
    using assms(5) by (intro nth_equalityI) (auto simp: paginas_def)
  then show pt: "paginas t = (paginas s)[v := ?x]"
    using conf pagina_nova [of s s a rw] pagina_conf [of t s] by (simp add: paginas_def ct map_update mesma_conf_def)
  have b: "pte_ok (time s + 1) p" if p: "p \<in> set (ds[v := ?q])" for p
  proof (cases "p = ?q")
    case False
    with p have "p \<in> set ds"
      using set_update_subset_insert [of ds v ?q] by blast
    then obtain i where i: "i < length ds" "p = ds ! i" by (metis in_set_conv_nth)
    then have "na_troca s ! i \<in> set (na_troca s)"
      using assms(5) by (simp add: antes_simps)
    with d [OF i(1)] i(2) cheia_antes(2) [OF assms(1,3)] show ?thesis
      by (auto simp: poupa_def pte_ok_def)
  qed (auto simp: nova_pte_def pte_ok_def)
  have tm: "time t = time s + 1" "pageFaults t = pageFaults s + 1" "pageWrites t = pageWrites s + escrita rw" "maxPages t = maxPages s"
    by (simp_all add: assms(8) antes_simps)
  have "pag_ok t"
    unfolding pag_ok_def ct pt tm using assms(1,2,3,5) b l escrita_bounds [of rw]
    by (auto simp: pag_ok_def distinct_list_update)
  moreover have "?x \<in> set (paginas t)"
    unfolding pt using assms(4,5) by (auto simp: paginas_def intro: set_update_memI)
  ultimately show "depois s ?x t"
    using conf tm assms(2) by (simp add: depois_def)
qed

lemma depois_achada:
  assumes "pag_ok s" "carregadas s = es1 @ p # es2" "pagina s p = x" "resto (es1 @ p # es2) r"
    "t = s\<lparr>time := time s + 1, pageTableList := map Some (es1 @ accessMemory (time s + 1) rw p # es2) @ r\<rparr>"
  shows "depois s x t" "carregadas t = es1 @ accessMemory (time s + 1) rw p # es2" "paginas t = paginas s"
proof -
  let ?ds = "es1 @ accessMemory (time s + 1) rw p # es2"
  have l: "pageTableList t = map Some ?ds @ r" "resto ?ds r"
    using assms(4) by (simp_all add: assms(5) resto_def)
  show ct: "carregadas t = ?ds"
    by (rule carregadas_forma [OF l])
  have pg: "pagina t = pagina s"
    by (rule pagina_conf) (simp add: assms(5))
  show pt: "paginas t = paginas s"
    unfolding paginas_def ct assms(2) pg by (simp add: pagina_def accessMemory_def)
  have tm: "time t = time s + 1" "pageFaults t = pageFaults s" "pageWrites t = pageWrites s" "maxPages t = maxPages s"
    by (simp_all add: assms(5))
  have "int (length ?ds) = int (length (carregadas s))" by (simp add: assms(2))
  moreover have "\<forall>q \<in> set ?ds. pte_ok (time s + 1) q"
    using assms(1) by (auto simp: pag_ok_def assms(2) intro: pte_ok_acesso pte_ok_depois)
  ultimately have "pag_ok t"
    unfolding pag_ok_def ct pt tm using assms(1) l by (auto simp: pag_ok_def)
  moreover have "x \<in> set (paginas s)"
    by (auto simp: paginas_def assms(2,3))
  ultimately show "depois s x t"
    using pt by (simp add: depois_def tm) (simp add: mesma_conf_def assms(5))
qed

lemma depois_livre:
  assumes "pag_ok s" "drop_bit (bits_de s) a \<notin> set (paginas s)" "int (length (carregadas s)) < maxPages s"
    "t = s\<lparr>time := time s + 1, pageWrites := pageWrites s + escrita rw, pageFaults := pageFaults s + 1,
        pageTableList := map Some (carregadas s @ [nova_pte s (drop_bit (bits_de s) a) rw])\<rparr>"
  shows "depois s (drop_bit (bits_de s) a) t" "carregadas t = carregadas s @ [nova_pte s (drop_bit (bits_de s) a) rw]"
    "paginas t = paginas s @ [drop_bit (bits_de s) a]"
proof -
  let ?q = "nova_pte s (drop_bit (bits_de s) a) rw"
  have l: "pageTableList t = map Some (carregadas s @ [?q]) @ []" "resto (carregadas s @ [?q]) []"
    by (simp_all add: assms(4) resto_def)
  show ct: "carregadas t = carregadas s @ [?q]"
    by (rule carregadas_forma [OF l])
  have conf: "mesma_conf s t"
    by (simp add: mesma_conf_def assms(4))
  then show pt: "paginas t = paginas s @ [drop_bit (bits_de s) a]"
    using pagina_nova [of s s a rw] pagina_conf [of t s] by (simp add: paginas_def ct mesma_conf_def)
  have tm: "time t = time s + 1" "pageFaults t = pageFaults s + 1" "pageWrites t = pageWrites s + escrita rw" "maxPages t = maxPages s"
    by (simp_all add: assms(4))
  have "\<forall>q \<in> set (carregadas s @ [?q]). pte_ok (time s + 1) q"
    using assms(1) by (auto simp: pag_ok_def nova_pte_def pte_ok_def)
  moreover have "int (length (carregadas s @ [?q])) = min (maxPages s) (pageFaults s + 1)"
    using assms(1,3) by (auto simp: pag_ok_def)
  ultimately have "pag_ok t"
    unfolding pag_ok_def ct pt tm using assms(1,2) l escrita_bounds [of rw] by (auto simp: pag_ok_def)
  then show "depois s (drop_bit (bits_de s) a) t"
    using pt conf tm assms(2) by (simp add: depois_def)
qed

end
