(* ===== verification/PagerProps.thy ===== *)
theory PagerProps
  imports PagerProofs
begin

text \<open>
  The properties of the simulator of virtual memory: what every run keeps of the page table
  (\<open>pager_safe\<close>), the refinement of the list of the most recently used pages (\<open>pager_lru\<close>), and which page the
  other two algorithms replace (\<open>pager_second_chance\<close>, \<open>pager_nru\<close>).
\<close>

unbundle bit_operations_syntax

section \<open>Every run\<close>

lemma acesso_ok:
  assumes "pag_ok s" "time s < 2147483647" "0 \<le> rand"
  shows "\<exists>t. simulation_simulateMemoryAccess rand a rw s = Inr t \<and> depois s (drop_bit (bits_de s) a) t"
proof (cases "drop_bit (bits_de s) a \<in> set (paginas s)")
  case True
  then show ?thesis
    using acesso_achada [OF assms(1,2), of a rand rw] depois_achada(1) [OF assms(1)] by blast
next
  case fora: False
  show ?thesis
  proof (cases "int (length (carregadas s)) < maxPages s")
    case True
    then show ?thesis
      using acesso_livre [OF assms(1,2) fora] depois_livre(1) [OF assms(1) fora] by blast
  next
    case False
    then have "int (length (carregadas s)) = maxPages s"
      using assms(1) by (simp add: pag_ok_def)
    then show ?thesis
      using acesso_troca [OF assms(1,2) fora _ assms(3), of rw] depois_troca(1) [OF assms(1) fora] by blast
  qed
qed

lemma acessos_Cons: "acessos s ((rand, a, rw) # as) =
    res_bind (simulation_simulateMemoryAccess rand a rw s) (\<lambda>t. acessos t as)"
  by (simp add: acessos_def)

lemma acessos_Nil: "acessos s [] = Inr s"
  by (simp add: acessos_def)

definition rand_ok :: "acesso list \<Rightarrow> bool" where
  "rand_ok as \<longleftrightarrow> list_all (\<lambda>(rand, a, rw). 0 \<le> rand) as"

lemma mesma_conf_trans: "mesma_conf s t \<Longrightarrow> mesma_conf t u \<Longrightarrow> mesma_conf s u"
  by (simp add: mesma_conf_def)

lemma mesma_conf_bits: "mesma_conf s t \<Longrightarrow> bits_de t = bits_de s"
  by (simp add: mesma_conf_def bits_de_def)

lemma acessos_ok:
  assumes "pag_ok s" "time s + int (length as) \<le> 2147483647" "rand_ok as"
  shows "\<exists>t. acessos s as = Inr t \<and> pag_ok t \<and> mesma_conf s t \<and> time t = time s + int (length as) \<and>
    (as \<noteq> [] \<longrightarrow> drop_bit (bits_de s) (fst (snd (last as))) \<in> set (paginas t))"
  using assms
proof (induction as arbitrary: s)
  case Nil
  then show ?case by (simp add: acessos_Nil mesma_conf_def)
next
  case (Cons c as)
  obtain rand a rw where c: "c = (rand, a, rw)" by (cases c)
  obtain t where t: "simulation_simulateMemoryAccess rand a rw s = Inr t" "depois s (drop_bit (bits_de s) a) t"
    using acesso_ok [OF Cons.prems(1), of rand a rw] Cons.prems(2,3) c by (auto simp: rand_ok_def)
  then have d: "pag_ok t" "mesma_conf s t" "time t = time s + 1" "drop_bit (bits_de s) a \<in> set (paginas t)"
    by (simp_all add: depois_def)
  then obtain u where "acessos t as = Inr u" "pag_ok u" "mesma_conf t u" "time u = time t + int (length as)"
      "as \<noteq> [] \<longrightarrow> drop_bit (bits_de t) (fst (snd (last as))) \<in> set (paginas u)"
    using Cons.IH [of t] Cons.prems(2,3) by (auto simp: rand_ok_def)
  moreover from this have "as = [] \<Longrightarrow> u = t"
    by (simp add: acessos_Nil)
  ultimately show ?case
    using t(1) d mesma_conf_trans [of s t u] mesma_conf_bits [OF d(2)]
    by (intro exI [of _ u]) (auto simp: c acessos_Cons)
qed

lemma configura:
  assumes "simulation_configure alg kb mem = Inr s"
  shows "pag_ok s" "time s = 0" "pageSize s = kb" "maxPages s = mem div kb" "prAlgo s = alg" "lastFlagResetTime s = - 1"
    "paginas s = []" "pageFaults s = 0" "bits_de s = getNeededBits (nat (kb * 1024))"
proof -
  have c: "8 \<le> kb" "kb \<le> 32" "128 \<le> mem" and
    s: "s = \<lparr>pageSize = kb, pageFaults = 0, pageWrites = 0, time = 0, prAlgo = alg, maxPages = mem div kb,
        pageTableList = [None], lastFlagResetTime = - 1\<rparr>"
    using assms by (auto simp: simulation_configure_def createTableList_def split: if_splits)
  have "kb \<le> mem" using c by simp
  then have "0 < mem div kb"
    using c by (simp add: pos_imp_zdiv_pos_iff)
  moreover have "carregadas s = []"
    by (simp add: carregadas_def s)
  ultimately show "pag_ok s" "paginas s = []"
    by (simp_all add: pag_ok_def paginas_def) (simp_all add: s resto_def)
qed (use assms in \<open>auto simp: simulation_configure_def bits_de_def split: if_splits\<close>)

lemma alcancada:
  assumes "simulation_configure alg kb mem = Inr s0" "length as \<le> 2147483647" "rand_ok as"
  shows "\<exists>s. acessos s0 as = Inr s \<and> pag_ok s \<and> mesma_conf s0 s \<and> time s = int (length as) \<and>
    (as \<noteq> [] \<longrightarrow> drop_bit (bits_de s0) (fst (snd (last as))) \<in> set (paginas s))"
  using acessos_ok [OF configura(1) [OF assms(1)], of as] assms(2,3) by (auto simp: configura(2) [OF assms(1)])

text \<open>
  (C16) Virtual memory, whichever algorithm replaces the pages: from a valid configuration a run of fewer than
  \<open>2^31\<close> accesses, with any values of \<open>rand()\<close>, ends without an error. The pages in memory are distinct, the
  page accessed last is among them, and there are as many as the memory has room for once there were that many page
  faults; page faults are at most the accesses and pages written at most the page faults.
\<close>

theorem pager_safe:
  assumes "simulation_configure alg kb mem = Inr s0" "length as \<le> 2147483647" "rand_ok as"
  shows "\<exists>s. acessos s0 as = Inr s \<and> distinct (paginas s) \<and>
    int (length (paginas s)) = min (mem div kb) (pageFaults s) \<and>
    (as \<noteq> [] \<longrightarrow> drop_bit (getNeededBits (nat (kb * 1024))) (fst (snd (last as))) \<in> set (paginas s)) \<and>
    0 \<le> pageWrites s \<and> pageWrites s \<le> pageFaults s \<and> pageFaults s \<le> int (length as)"
proof -
  obtain s where s: "acessos s0 as = Inr s" "pag_ok s" "mesma_conf s0 s" "time s = int (length as)"
      "as \<noteq> [] \<longrightarrow> drop_bit (bits_de s0) (fst (snd (last as))) \<in> set (paginas s)"
    using alcancada [OF assms] by blast
  moreover have "maxPages s = mem div kb"
    using s(3) configura(4) [OF assms(1)] by (simp add: mesma_conf_def)
  ultimately show ?thesis
    using configura(9) [OF assms(1)] by (intro exI [of _ s]) (auto simp: pag_ok_def paginas_def)
qed

text \<open>Four pages of 32 KB, five pages accessed\<close>

definition pag_inicio :: "algoritmo \<Rightarrow> simulacao" where
  "pag_inicio alg = \<lparr>pageSize = 32, pageFaults = 0, pageWrites = 0, time = 0, prAlgo = alg, maxPages = 4,
     pageTableList = [None], lastFlagResetTime = - 1\<rparr>"

lemma pag_inicio: "simulation_configure alg 32 128 = Inr (pag_inicio alg)"
  by (simp add: simulation_configure_def pag_inicio_def createTableList_def)

definition pag_exemplo :: "acesso list" where
  "pag_exemplo = [(0, 0x0, CHR ''R''), (0, 0x8000, CHR ''W''), (0, 0x10000, CHR ''R''), (0, 0x18000, CHR ''R''), (0, 0x10, CHR ''R'')]"

lemma bits_exemplo: "getNeededBits (nat (32 * 1024)) = 15"
  by (simp add: getNeededBits.simps)

lemma pag_exemplo: "length pag_exemplo \<le> 2147483647" "rand_ok pag_exemplo" "pag_exemplo \<noteq> []"
    "drop_bit 15 (fst (snd (last pag_exemplo))) = 0"
  by (simp_all add: pag_exemplo_def rand_ok_def)

lemma pager_safe_witness:
  "\<exists>s. acessos (pag_inicio PR_SEC) pag_exemplo = Inr s \<and> distinct (paginas s) \<and> 0 \<in> set (paginas s) \<and> pageFaults s \<le> 5"
  using pager_safe [OF pag_inicio pag_exemplo(1,2), of PR_SEC] pag_exemplo(3,4) bits_exemplo by (auto simp: pag_exemplo_def)

section \<open>Least recently used\<close>

text \<open>
  The specification: the pages in memory from the one used last to the one unused for the longest time,
  and the page faults so far.
\<close>

definition lru_acesso :: "nat \<Rightarrow> 32 word list \<times> nat \<Rightarrow> 32 word \<Rightarrow> 32 word list \<times> nat" where
  "lru_acesso cap c x = (case c of (ps, f) \<Rightarrow>
     if x \<in> set ps then (x # filter (\<lambda>y. y \<noteq> x) ps, f) else (x # take (cap - 1) ps, Suc f))"

definition lru_lista :: "nat \<Rightarrow> 32 word list \<Rightarrow> 32 word list \<times> nat" where
  "lru_lista cap xs = foldl (lru_acesso cap) ([], 0) xs"

definition mais_recente :: "simulacao \<Rightarrow> 32 word \<Rightarrow> 32 word \<Rightarrow> bool" where
  "mais_recente s x y \<longleftrightarrow> (\<forall>p \<in> set (carregadas s). \<forall>q \<in> set (carregadas s).
     pagina s p = x \<longrightarrow> pagina s q = y \<longrightarrow> lastAccessTime q < lastAccessTime p)"

definition lru_rel :: "simulacao \<Rightarrow> 32 word list \<Rightarrow> bool" where
  "lru_rel s ps \<longleftrightarrow> distinct ps \<and> set ps = set (paginas s) \<and> sorted_wrt (mais_recente s) ps"

text \<open>The page \<open>x\<close> comes to the front when it is the only one whose time changes.\<close>

lemma frente:
  assumes "\<forall>q \<in> set (carregadas t). if pagina t q = x then lastAccessTime q = time t
      else lastAccessTime q < time t \<and>
        (\<exists>p \<in> set (carregadas s). pagina s p = pagina t q \<and> lastAccessTime p = lastAccessTime q)"
    and "sorted_wrt (mais_recente s) qs" "x \<notin> set qs"
  shows "sorted_wrt (mais_recente t) (x # qs)"
proof -
  have "mais_recente t x y" if "y \<in> set qs" for y
    using assms(1,3) that unfolding mais_recente_def by (metis (full_types))
  moreover have "mais_recente t y z" if "y \<in> set qs" "z \<in> set qs" "mais_recente s y z" for y z
    using assms(1,3) that unfolding mais_recente_def by (metis (full_types))
  ultimately show ?thesis
    using assms(2) by (auto intro: sorted_wrt_mono_rel)
qed

lemma lru_achada:
  assumes "pag_ok s" "lru_rel s ps" "carregadas s = es1 @ p # es2" "pagina s p = x" "paginas t = paginas s"
    "carregadas t = es1 @ accessMemory (time s + 1) rw p # es2" "time t = time s + 1" "pagina t = pagina s"
  shows "lru_rel t (x # filter (\<lambda>y. y \<noteq> x) ps)"
proof -
  have d: "x \<notin> pagina s ` set es1" "x \<notin> pagina s ` set es2"
    using assms(1,3,4) by (auto simp: pag_ok_def paginas_def)
  have l: "lastAccessTime q < time s + 1" if "q \<in> set es1 \<union> set es2" for q
    using assms(1,3) that by (auto simp: pag_ok_def pte_ok_def)
  have a: "pagina s (accessMemory tm rw p) = pagina s p" "lastAccessTime (accessMemory tm rw p) = tm" for tm
    by (simp_all add: pagina_def accessMemory_def)
  have "\<forall>q \<in> set (carregadas t). if pagina t q = x then lastAccessTime q = time t
      else lastAccessTime q < time t \<and>
        (\<exists>p \<in> set (carregadas s). pagina s p = pagina t q \<and> lastAccessTime p = lastAccessTime q)"
    using d l a assms(3,4,6-8) by (auto simp: image_iff)
  then have "sorted_wrt (mais_recente t) (x # filter (\<lambda>y. y \<noteq> x) ps)"
    using assms(2) by (intro frente) (auto simp: lru_rel_def sorted_wrt_filter)
  moreover have "x \<in> set ps"
    using assms(2-4) by (auto simp: lru_rel_def paginas_def)
  ultimately show ?thesis
    using assms(2,5) by (auto simp: lru_rel_def)
qed

lemma lru_livre:
  assumes "pag_ok s" "lru_rel s ps" "x \<notin> set (paginas s)" "carregadas t = carregadas s @ [q]" "pagina s q = x"
    "lastAccessTime q = time s + 1" "time t = time s + 1" "pagina t = pagina s" "paginas t = paginas s @ [x]"
  shows "lru_rel t (x # ps)"
proof -
  have "\<forall>q \<in> set (carregadas t). if pagina t q = x then lastAccessTime q = time t
      else lastAccessTime q < time t \<and>
        (\<exists>p \<in> set (carregadas s). pagina s p = pagina t q \<and> lastAccessTime p = lastAccessTime q)"
  proof -
    have "pagina s q1 \<noteq> x \<and> lastAccessTime q1 < time s + 1" if "q1 \<in> set (carregadas s)" for q1
      using assms(1,3) that by (auto simp: pag_ok_def pte_ok_def paginas_def)
    then show ?thesis
      using assms(4-8) by auto
  qed
  moreover have "x \<notin> set ps"
    using assms(2,3) by (simp add: lru_rel_def)
  ultimately show ?thesis
    using assms(2,9) frente [of t x s ps] by (simp add: lru_rel_def)
qed

lemma lru_troca:
  assumes "pag_ok s" "lru_rel s ps" "x \<notin> set (paginas s)" "v < length (carregadas s)"
    "\<And>l. l < length (carregadas s) \<Longrightarrow> lastAccessTime (carregadas s ! v) \<le> lastAccessTime (carregadas s ! l)"
    "carregadas t = ds[v := q]" "length ds = length (carregadas s)" "paginas t = (paginas s)[v := x]"
    "\<And>l. l < length ds \<Longrightarrow> pagina s (ds ! l) = pagina s (carregadas s ! l) \<and> lastAccessTime (ds ! l) = lastAccessTime (carregadas s ! l)"
    "pagina s q = x" "lastAccessTime q = time s + 1" "time t = time s + 1" "pagina t = pagina s"
  shows "lru_rel t (x # take (length (carregadas s) - 1) ps)"
proof -
  let ?es = "carregadas s" and ?w = "paginas s ! v"
  have n: "length (paginas s) = length ?es" "distinct (paginas s)" "distinct ps" "set ps = set (paginas s)"
    using assms(1,2) by (auto simp: paginas_def pag_ok_def lru_rel_def)
  then have "length ps = length ?es"
    by (metis distinct_card)
  then have b: "take (length ?es - 1) ps = butlast ps" "ps \<noteq> []"
    using assms(4) by (auto simp: butlast_conv_take)
  have w: "?w \<in> set ps"
    using n assms(4) by simp
  have so: "sorted_wrt (mais_recente s) (butlast ps @ [last ps])"
    using assms(2) b(2) by (simp add: lru_rel_def)
  have "?w = last ps"
  proof (rule ccontr)
    assume "?w \<noteq> last ps"
    with w b(2) have "?w \<in> set (butlast ps)"
      by (metis append_butlast_last_id in_set_conv_decomp_first insertE list.simps(15) rotate1.simps(2) set_rotate1)
    with so have r: "mais_recente s ?w (last ps)"
      by (simp add: sorted_wrt_append)
    obtain l where l: "l < length ?es" "last ps = pagina s (?es ! l)"
      using n(4) b(2) last_in_set [OF b(2)] by (auto simp: paginas_def in_set_conv_nth)
    have "lastAccessTime (?es ! l) < lastAccessTime (?es ! v)"
      using r l assms(4) unfolding mais_recente_def by (simp add: paginas_def)
    with assms(5) [OF l(1)] show False by simp
  qed
  then have sb: "set (butlast ps) = set (paginas s) - {?w}"
    using n(3,4) b(2) by (metis distinct_butlast butlast_append append_butlast_last_id distinct_append insert_Diff1 Diff_insert_absorb
        set_append list.set(1,2) Un_insert_right Un_empty_right not_distinct_conv_prefix)
  have "pagina s z \<noteq> x \<and> lastAccessTime z < time s + 1 \<and> (\<exists>p \<in> set ?es. pagina s p = pagina s z \<and> lastAccessTime p = lastAccessTime z)"
    if z: "z \<in> set ds" for z
  proof -
    obtain l where "l < length ds" "ds ! l = z" using z unfolding in_set_conv_nth by blast
    then have l: "l < length ?es" "z = ds ! l" by (simp_all add: assms(7))
    moreover have "?es ! l \<in> set ?es" using l(1) by simp
    ultimately show ?thesis
      using assms(1,3) assms(9) [of l] assms(7) by (auto simp: pag_ok_def pte_ok_def paginas_def)
  qed
  then have "\<forall>z \<in> set (carregadas t). if pagina t z = x then lastAccessTime z = time t
      else lastAccessTime z < time t \<and>
        (\<exists>p \<in> set (carregadas s). pagina s p = pagina t z \<and> lastAccessTime p = lastAccessTime z)"
    using set_update_subset_insert [of ds v q] assms(6,10-13) by auto
  then have "sorted_wrt (mais_recente t) (x # butlast ps)"
    using so sb assms(3) by (intro frente) (auto simp: sorted_wrt_append)
  moreover have "set (paginas t) = insert x (set (paginas s) - {?w})"
    unfolding assms(8) using set_update_distinct [OF n(2), of v x] assms(4) n(1) by simp
  ultimately show ?thesis
    unfolding lru_rel_def b(1) using n(3) sb assms(3) by (simp add: distinct_butlast)
qed

lemma lru_passo:
  assumes "pag_ok s" "lru_rel s ps" "prAlgo s = PR_LRU" "time s < 2147483647" "0 \<le> rand"
    "lru_acesso (nat (maxPages s)) (ps, f) (drop_bit (bits_de s) a) = (qs, g)" "pageFaults s = int f"
  shows "\<exists>t. simulation_simulateMemoryAccess rand a rw s = Inr t \<and> depois s (drop_bit (bits_de s) a) t \<and>
    lru_rel t qs \<and> pageFaults t = int g"
proof (cases "drop_bit (bits_de s) a \<in> set (paginas s)")
  let ?x = "drop_bit (bits_de s) a"
  have pg: "depois s ?x t \<Longrightarrow> pagina t = pagina s \<and> time t = time s + 1" for t
    unfolding depois_def mesma_conf_def by (blast intro: pagina_conf)
  have set: "set ps = set (paginas s)"
    using assms(2) by (simp add: lru_rel_def)
  {
    case True
    obtain es1 p es2 r where e: "carregadas s = es1 @ p # es2" "pagina s p = ?x" "resto (es1 @ p # es2) r"
      and t: "simulation_simulateMemoryAccess rand a rw s = Inr (s\<lparr>time := time s + 1,
        pageTableList := map Some (es1 @ accessMemory (time s + 1) rw p # es2) @ r\<rparr>)" (is "_ = Inr ?t")
      using acesso_achada [OF assms(1,4) True, of rand rw] by blast
    note d = depois_achada [OF assms(1) e refl, of rw]
    have "lru_rel ?t (?x # filter (\<lambda>y. y \<noteq> ?x) ps)"
      using lru_achada [OF assms(1,2) e(1,2) d(3,2)] pg [OF d(1)] by simp
    then show ?thesis
      using t d(1) True assms(6,7) set by (auto simp: lru_acesso_def depois_def)
  next
    case fora: False
    show ?thesis
    proof (cases "int (length (carregadas s)) < maxPages s")
      case True
      note d = depois_livre [OF assms(1) fora True refl, of rw]
      have "length ps < nat (maxPages s)"
        using True set assms(1,2) by (metis distinct_card length_map lru_rel_def pag_ok_def paginas_def zless_nat_eq_int_zless)
      then have "qs = ?x # ps" "g = Suc f"
        using assms(6) fora set by (auto simp: lru_acesso_def)
      then show ?thesis
        using acesso_livre [OF assms(1,4) fora True, of rand rw] d(1) assms(7) fora
          lru_livre [OF assms(1,2) fora d(2) _ _ _ _ d(3)] pg [OF d(1)] pagina_nova [of s s a rw]
        by (simp add: depois_def nova_pte_def)
    next
      case False
      then have full: "int (length (carregadas s)) = maxPages s"
        using assms(1) by (simp add: pag_ok_def)
      obtain v ds r where v: "v < length ds" "length ds = length (carregadas s)" "vitima rand s v ds" "resto ds r"
        and t: "simulation_simulateMemoryAccess rand a rw s =
          Inr ((antes_da_troca rw s)\<lparr>pageTableList := map Some (ds[v := nova_pte s ?x rw]) @ r\<rparr>)" (is "_ = Inr ?t")
        using acesso_troca [OF assms(1,4) fora full assms(5), of rw] by blast
      note d = depois_troca [OF assms(1) fora full v refl]
      have ds: "ds = na_troca s" "\<And>l. l < length (carregadas s) \<Longrightarrow> lastAccessTime (carregadas s ! v) \<le> lastAccessTime (carregadas s ! l)"
        using v na_troca_nth [of _ s] by (auto simp: vitima_def Let_def assms(3) antes_simps)
      have "lru_rel ?t (?x # take (length (carregadas s) - 1) ps)"
        using lru_troca [OF assms(1,2) fora _ ds(2) d(2) v(2) d(3)] v(1,2) ds(1) na_troca_nth [of _ s] pg [OF d(1)] pagina_nova [of s s a rw]
        by (simp add: nova_pte_def pagina_def)
      moreover have "nat (maxPages s) = length (carregadas s)"
        using full by simp
      ultimately show ?thesis
        using t d(1) assms(6,7) fora set by (auto simp: lru_acesso_def depois_def)
    qed
  }
qed

lemma lru_corre:
  assumes "pag_ok s" "prAlgo s = PR_LRU" "lru_rel s ps" "pageFaults s = int f" "time s + int (length as) \<le> 2147483647" "rand_ok as"
  shows "\<exists>t. acessos s as = Inr t \<and>
    (case foldl (lru_acesso (nat (maxPages s))) (ps, f) (map (\<lambda>(r, a, w). drop_bit (bits_de s) a) as) of
      (qs, g) \<Rightarrow> lru_rel t qs \<and> pageFaults t = int g)"
  using assms
proof (induction as arbitrary: s ps f)
  case Nil
  then show ?case by (simp add: acessos_Nil)
next
  case (Cons c as)
  obtain rand a rw where c: "c = (rand, a, rw)" by (cases c)
  obtain qs g where g: "lru_acesso (nat (maxPages s)) (ps, f) (drop_bit (bits_de s) a) = (qs, g)"
    by fastforce
  obtain t where t: "simulation_simulateMemoryAccess rand a rw s = Inr t" "depois s (drop_bit (bits_de s) a) t"
      "lru_rel t qs" "pageFaults t = int g"
    using lru_passo [OF Cons.prems(1,3,2) _ _ g Cons.prems(4), of rand rw] Cons.prems(5,6) c by (auto simp: rand_ok_def)
  then have d: "pag_ok t" "prAlgo t = PR_LRU" "time t = time s + 1" "maxPages t = maxPages s" "bits_de t = bits_de s"
    using Cons.prems(2) by (auto simp: depois_def mesma_conf_def bits_de_def)
  then show ?case
    using Cons.IH [OF d(1,2) t(3,4)] Cons.prems(5,6) t(1) by (simp add: c acessos_Cons g rand_ok_def)
qed

text \<open>
  (C15) Virtual memory with the algorithm \<open>LRU\<close>: after every run the pages in memory are those of the list of
  the most recently used pages, and the page faults are the accesses that did not find their page in this list.
\<close>

theorem pager_lru:
  assumes "simulation_configure PR_LRU kb mem = Inr s0" "length as \<le> 2147483647" "rand_ok as"
  shows "\<exists>s. acessos s0 as = Inr s \<and>
    (case lru_lista (nat (mem div kb)) (map (\<lambda>(r, a, w). drop_bit (getNeededBits (nat (kb * 1024))) a) as) of
      (ps, f) \<Rightarrow> set (paginas s) = set ps \<and> pageFaults s = int f)"
proof -
  note c = configura [OF assms(1)]
  have "lru_rel s0 []"
    by (simp add: lru_rel_def c)
  from lru_corre [OF c(1,5) this _ _ assms(3), of 0] assms(2) show ?thesis
    by (auto simp: c lru_lista_def lru_rel_def)
qed

lemma pager_lru_witness:
  "\<exists>s. acessos (pag_inicio PR_LRU) (pag_exemplo @ [(0, 0x20000, CHR ''R'')]) = Inr s \<and>
     set (paginas s) = {4, 0, 3, 2} \<and> pageFaults s = 5"
proof -
  have "lru_lista 4 (map (\<lambda>(r, a, w). drop_bit 15 a) (pag_exemplo @ [(0, 0x20000, CHR ''R'')])) = ([4, 0, 3, 2], 5)"
    by code_simp
  then show ?thesis
    using pager_lru [OF pag_inicio, of "pag_exemplo @ [(0, 0x20000, CHR ''R'')]"] pag_exemplo(2) bits_exemplo
    by (auto simp: rand_ok_def pag_exemplo_def)
qed

text \<open>The table of the example after its five accesses: full, nothing replaced\<close>

lemma percorre_numeral:
  "percorre (numeral n) q e f (None # xs) = (Livre, Some q # xs)"
  "percorre (numeral n) q e f (Some p # xs) = (if e p then (Achada, Some (f p) # xs)
     else case percorre (pred_numeral n) q e f (if xs = [] then [None] else xs) of (b, ys) \<Rightarrow> (b, Some p # ys))"
  by (simp_all add: numeral_eq_Suc)

lemma exemplo_cheio:
  "\<exists>s. acessos (pag_inicio alg) pag_exemplo = Inr s \<and> paginas s = [0, 1, 2, 3] \<and> bits_de s = 15"
  by (simp add: pag_exemplo_def pag_inicio_def acessos_def simulation_simulateMemoryAccess_def Let_def bits_exemplo [simplified]
    createPTE_def pageFault_add_def accessMemory_def paginas_def pagina_def carregadas_def bits_de_def percorre_numeral)

section \<open>Second chance\<close>

text \<open>
  (C27) Virtual memory with the algorithm \<open>SEC\<close>, in every state a run reaches. When the memory is full, an access
  to another page replaces the page without the bit that was used least recently, and every page with the bit
  that is older loses it and becomes as recent as the access; when all have the bit, all lose it and the first
  page of the table is replaced. An access to a page in memory does not set its bit: a page has one second chance in
  its life, however often it is used.
\<close>

theorem pager_second_chance:
  assumes "simulation_configure PR_SEC kb mem = Inr s0" "acessos s0 as = Inr s" "length as < 2147483647" "rand_ok as" "0 \<le> rand"
  shows "(drop_bit (bits_de s) a \<notin> set (paginas s) \<and> int (length (paginas s)) = mem div kb \<longrightarrow>
      (\<exists>t v ds. simulation_simulateMemoryAccess rand a rw s = Inr t \<and> segunda_chance (time s + 1) (na_troca s) v ds \<and>
        carregadas t = ds[v := nova_pte s (drop_bit (bits_de s) a) rw])) \<and>
    (drop_bit (bits_de s) a \<in> set (paginas s) \<longrightarrow>
      (\<exists>t. simulation_simulateMemoryAccess rand a rw s = Inr t \<and> map rBit (carregadas t) = map rBit (carregadas s)))"
proof -
  have s: "pag_ok s" "mesma_conf s0 s" "time s < 2147483647"
    using alcancada [OF assms(1) _ assms(4)] assms(2,3) by auto
  then have m: "maxPages s = mem div kb" "prAlgo s = PR_SEC"
    using configura(4,5) [OF assms(1)] by (simp_all add: mesma_conf_def)
  have "\<exists>t v ds. simulation_simulateMemoryAccess rand a rw s = Inr t \<and> segunda_chance (time s + 1) (na_troca s) v ds \<and>
        carregadas t = ds[v := nova_pte s (drop_bit (bits_de s) a) rw]"
    if f: "drop_bit (bits_de s) a \<notin> set (paginas s)" "int (length (paginas s)) = mem div kb"
  proof -
    have l: "int (length (carregadas s)) = maxPages s"
      using f(2) m(1) by (simp add: paginas_def)
    from acesso_troca [OF s(1,3) f(1) l assms(5), of rw] show ?thesis
      using depois_troca(2) [OF s(1) f(1) l] m(2) by (fastforce simp: vitima_def Let_def)
  qed
  moreover have "\<exists>t. simulation_simulateMemoryAccess rand a rw s = Inr t \<and> map rBit (carregadas t) = map rBit (carregadas s)"
    if f: "drop_bit (bits_de s) a \<in> set (paginas s)"
    using acesso_achada [OF s(1,3) f, of rand rw] depois_achada(2) [OF s(1)] by (fastforce simp: accessMemory_def)
  ultimately show ?thesis by blast
qed

lemma pager_second_chance_witness:
  "\<exists>s t v ds. acessos (pag_inicio PR_SEC) pag_exemplo = Inr s \<and> simulation_simulateMemoryAccess 0 0x20000 CHR ''R'' s = Inr t \<and>
     segunda_chance (time s + 1) (na_troca s) v ds \<and> carregadas t = ds[v := nova_pte s 4 CHR ''R'']"
proof -
  obtain s where s: "acessos (pag_inicio PR_SEC) pag_exemplo = Inr s" "paginas s = [0, 1, 2, 3]" "bits_de s = 15"
    using exemplo_cheio by blast
  have "length pag_exemplo < 2147483647" by (simp add: pag_exemplo_def)
  from pager_second_chance [OF pag_inicio s(1) this pag_exemplo(2), of 0 "0x20000" "CHR ''R''"] s show ?thesis
    by auto
qed

section \<open>Not recently used\<close>

lemma conta_zero: "conta 0 (map (\<lambda>p. p\<lparr>status := 0\<rparr>) es) = int (length es)"
  by (induction es) auto

text \<open>
  (C28) Virtual memory with the algorithm \<open>NRU\<close>, in every state a run reaches. When the memory is full, an access to
  another page replaces the page that \<open>rand()\<close> picks among those of the lowest category. A page that was
  just loaded counts as not referenced, and an access that reads makes a page unmodified. After 1024 accesses for
  each page of memory the categories no longer matter: the flags are cleared before every replacement, as \<open>lastFlagResetTime\<close>
  is never set, and the page replaced is \<open>rand()\<close> modulo the number of pages.
\<close>

theorem pager_nru:
  assumes "simulation_configure PR_NRU kb mem = Inr s0" "acessos s0 as = Inr s" "length as < 2147483647" "rand_ok as" "0 \<le> rand"
    and "drop_bit (bits_de s) a \<notin> set (paginas s)" "int (length (paginas s)) = mem div kb"
  shows "\<exists>t v. simulation_simulateMemoryAccess rand a rw s = Inr t \<and> v < length (carregadas s) \<and>
    carregadas t = (na_troca s)[v := nova_pte s (drop_bit (bits_de s) a) rw] \<and>
    (\<forall>l < length (carregadas s). categoria (na_troca s ! v) \<le> categoria (na_troca s ! l)) \<and>
    conta (status (na_troca s ! v)) (take v (na_troca s)) = rand mod conta (status (na_troca s ! v)) (na_troca s) \<and>
    categoria (carregadas t ! v) < 2 \<and>
    (mem div kb * 1024 \<le> int (length as) \<longrightarrow> int v = rand mod (mem div kb))"
proof -
  have s: "pag_ok s" "mesma_conf s0 s" "time s < 2147483647" "time s = int (length as)"
    using alcancada [OF assms(1) _ assms(4)] assms(2,3) by auto
  then have m: "maxPages s = mem div kb" "prAlgo s = PR_NRU" "lastFlagResetTime s = - 1"
    using configura(4-6) [OF assms(1)] by (simp_all add: mesma_conf_def)
  have l: "int (length (carregadas s)) = maxPages s"
    using assms(7) m(1) by (simp add: paginas_def)
  obtain v ds r where v: "v < length ds" "length ds = length (carregadas s)" "vitima rand s v ds" "resto ds r" and
      t: "simulation_simulateMemoryAccess rand a rw s =
        Inr ((antes_da_troca rw s)\<lparr>pageTableList := map Some (ds[v := nova_pte s (drop_bit (bits_de s) a) rw]) @ r\<rparr>)" (is "_ = Inr ?t")
    using acesso_troca [OF s(1,3) assms(6) l assms(5), of rw] by blast
  have d: "ds = na_troca s" "\<forall>l < length (na_troca s). categoria (na_troca s ! v) \<le> categoria (na_troca s ! l)"
      "conta (status (na_troca s ! v)) (take v (na_troca s)) = rand mod conta (status (na_troca s ! v)) (na_troca s)"
    using v(3) m(2) by (simp_all add: vitima_def Let_def)
  have c: "carregadas ?t = (na_troca s)[v := nova_pte s (drop_bit (bits_de s) a) rw]"
    using depois_troca(2) [OF s(1) assms(6) l v refl] d(1) by simp
  have "int v = rand mod (mem div kb)" if "mem div kb * 1024 \<le> int (length as)"
  proof -
    have n: "na_troca s = map (\<lambda>p. p\<lparr>status := 0\<rparr>) (carregadas s)"
      using that m s(4) by (simp add: na_troca_def precisa_reset_def)
    have "conta 0 (take v (na_troca s)) = int v"
      using v(1,2) unfolding n take_map conta_zero by simp
    moreover have "status (na_troca s ! v) = 0"
      using v(1,2) by (simp add: n)
    ultimately show ?thesis
      using d(3) l m(1) by (simp add: n conta_zero)
  qed
  then show ?thesis
    using t c d v(1,2) by (intro exI [of _ ?t] exI [of _ v]) (simp add: antes_simps categoria_def nova_pte_def)
qed

lemma pager_nru_witness:
  "\<exists>s t v. acessos (pag_inicio PR_NRU) pag_exemplo = Inr s \<and> simulation_simulateMemoryAccess 7 0x20000 CHR ''R'' s = Inr t \<and>
     v < 4 \<and> categoria (carregadas t ! v) < 2"
proof -
  obtain s where s: "acessos (pag_inicio PR_NRU) pag_exemplo = Inr s" "paginas s = [0, 1, 2, 3]" "bits_de s = 15"
    using exemplo_cheio by blast
  have "length pag_exemplo < 2147483647" by (simp add: pag_exemplo_def)
  moreover have "length (carregadas s) = 4"
    using arg_cong [OF s(2), of length] by (simp add: paginas_def)
  ultimately show ?thesis
    using pager_nru [OF pag_inicio s(1) _ pag_exemplo(2), of 7 "0x20000" "CHR ''R''"] s by auto
qed

end
