(* ===== verification/Spec2Isabelle.thy ===== *)
theory Spec2Isabelle
  imports MamNodeProps L3Props BleMeshProps MamCollectorProps TcpSackProps ListaDetect SbCorreto SbLimites MongaProps LbufProps PagerProps
begin

text \<open>
  The mesh of mobile sinks of the repository's dissertation project (\<open>INF3000-MSCDISS\<close>, a fork of the
  simulation framework INET with the author's own applications and medium access), and parts of the
  framework under it; and, from the author's course works, the doubly linked list of \<open>INF1301\<close> that tests
  itself, the code generator of \<open>INF1018\<close>, the type checker of the compiler of \<open>INF1715\<close>, the limited buffer of \<open>INF2591\<close>
  and the simulator of virtual memory of \<open>INF1019\<close>. Paths below are relative to \<open>INF3000-MSCDISS/src/inet\<close>, those of the course works are given in
  full.

  \<^bold>\<open>The program.\<close> Sensor nodes (\<open>MamNodeApp\<close>) produce data packets and relay those of others; a mobile
  sink (\<open>MamDataCollectorApp\<close>) broadcasts that it is there, nodes that hear it announce the route, and
  data packets are flooded or sent along the route until the sink counts them. A node remembers relayed
  packets in a cache of limited size and time (\<open>LruCache\<close>); MD5 (\<open>Md5\<close>) gives short keys. Both
  applications are driven by the life cycle of INET (\<open>OperationalBase\<close>) and send through UDP sockets to
  generic addresses (\<open>L3Address\<close>). Below the network layer the mesh MAC (\<open>BleMeshMac\<close>) sends frames after
  random backoffs, repeats them until they are acknowledged, drops duplicates and switches the radio of
  low power nodes. TCP's retransmission queue for selective acknowledgements is a component of its own.
  So is the list of \<open>INF1301\<close>: its functions keep elements, head and current element linked, its debug build
  registers every space it allocates with a control of dynamic memory, \<open>LIS_VerificarLista\<close> checks a list
  against it, and \<open>LIS_DeturparLista\<close> damages a list to see whether the verification notices. The generator
  \<open>geracod\<close> of \<open>INF1018\<close> reads the text of a program in the small language SB and writes, in one pass that
  patches the jumps of loops when it meets their ends, a function in the machine code of the IA-32. The
  compiler of \<open>INF1715\<close> parses the language Monga into a tree; its type checker walks the tree with a table of
  nested scopes, resolves names, fills in types and inserts casts, or ends the program with a message.
  In the limited buffer of \<open>INF2591\<close> every consumer is to get every value deposited; producers and consumers are
  threads that pass a baton over semaphores. The simulator of \<open>INF1019\<close> reads a trace of memory accesses, keeps a table
  of the pages in memory and counts the page faults under one of three replacement algorithms.

  \<^bold>\<open>Theories and code.\<close>
  \<^item> \<open>Prelude\<close>: the errors of a C++ handler as values (\<open>sim_error\<close>, \<open>res\<close>), sequencing, runs.
  \<^item> \<open>SimKernel\<close>: the simulation kernel as a parameter with its documented laws (locale
    \<open>sim_kernel_laws\<close>), and \<open>ref_kernel\<close>, an executable kernel with these laws.
  \<^item> \<open>LruCache\<close> (\<open>applications/mamapp/LruCache.h\<close>): list, map and iterators of the cache; the refinement of a
    bounded most-recent-first list; the contract \<open>expiring_cache\<close>.
  \<^item> \<open>Md5\<close> (\<open>applications/mamapp/Md5.h\<close>, \<open>Md5.cc\<close>): the rounds, the buffer and the counters; equality with
    the block iteration of RFC 1321.
  \<^item> \<open>Ipv4Address\<close>, \<open>Ipv4Prefix\<close> (\<open>networklayer/contract/ipv4/Ipv4Address.h\<close>, \<open>.cc\<close>): text, parser, classes,
    netmasks and prefixes. \<open>MacAddress\<close> (\<open>linklayer/common/MacAddress.h\<close>, \<open>.cc\<close>): bytes, text, groups,
    generated addresses. \<open>ClnsAddress\<close> (\<open>networklayer/contract/clns/ClnsAddress.h\<close>, \<open>.cc\<close>).
  \<^item> \<open>Ipv6Address\<close> (\<open>networklayer/contract/ipv6/Ipv6Address.h\<close>, \<open>.cc\<close>): words, text, the parser with its
    \<open>strtoul\<close>, scopes, prefixes. \<open>Ipv6Proofs\<close> has the text (gap and round trip), \<open>Ipv6Prefix\<close> the masks bit
    by bit.
  \<^item> \<open>L3Address\<close> (\<open>networklayer/common/L3Address.h\<close>, \<open>.cc\<close>, \<open>ModuleIdAddress.cc\<close>, \<open>ModulePathAddress.cc\<close>): one
    type over all these addresses, every operation by cases on the type; \<open>L3Props\<close> the properties that
    hold whatever the type.
  \<^item> \<open>Operational\<close>, \<open>OperationalProps\<close> (\<open>common/lifecycle/OperationalBase.h\<close>, \<open>.cc\<close>): which message reaches an
    application in which state; what the base class leaves alone and the contract \<open>lifecycle_app\<close>.
  \<^item> \<open>MamCommon\<close> (\<open>applications/mamapp/BMeshPacket.msg\<close>, \<open>transportlayer/contract/udp/UdpSocket.cc\<close>): packets, the
    log of calls of an application, the dispatch of a socket, the pages of recorded identifiers.
  \<^item> \<open>MamNode\<close> (\<open>applications/mamapp/MamNodeApp.h\<close>, \<open>MamNodeApp.cc\<close>): one definition for each handler, with
    the state \<open>mam_node\<close>. \<open>MamNodeProofs\<close> relates the states before and after a handler, \<open>MamNodeSafety\<close>
    has the inputs, the runs and the safety of every run, \<open>MamNodeProps\<close> the other properties.
  \<^item> \<open>MamCollector\<close>, \<open>MamCollectorProps\<close> (\<open>applications/mamapp/MamDataCollectorApp.h\<close>, \<open>.cc\<close>): the sink, its
    counters, and the path of a packet from a node through a relay to the sink.
  \<^item> \<open>BleMeshMac\<close> (\<open>linklayer/blemesh/BleMeshMac.h\<close>, \<open>BleMeshMac.cc\<close>, \<open>BleMeshMacHeader.msg\<close>): one definition for
    each state of the machine and each entry point, state \<open>ble_mac\<close>, parameters \<open>ble_cfg\<close>. \<open>BleMeshProofs\<close>
    has the invariant that ties the state to the one pending timer, \<open>BleMeshRun\<close> the runs and the frame
    conditions, \<open>BleMeshProps\<close> the properties.
  \<^item> \<open>TcpSack\<close> (\<open>transportlayer/tcp/TcpSackRexmitQueue.h\<close>, \<open>.cc\<close>, \<open>transportlayer/tcp_common/TcpHeader.h\<close>): the
    list of regions and every operation on it. \<open>TcpSackProofs\<close> has regions at offsets from the first byte,
    \<open>TcpSackProps\<close> the refinement of a list of flags for each byte.
  \<^item> \<open>EspacoDin\<close> (\<open>INF1301-Modular-Programming/TRAB4/TRAB4-1/TRAB4-1/CESPDIN.H\<close>): the control of dynamic memory
    as a parameter with its documented laws (locale \<open>ced_laws\<close>) and \<open>ref_ced\<close>, an executable control.
  \<^item> \<open>Lista\<close>, \<open>ListaDebug\<close> (\<open>LISTA.C\<close>, \<open>LISTA.H\<close> in the same directory): a memory of heads and elements
    (\<open>lis_mem\<close>), one definition for each function of the module; the damaging modes and the verifier.
    \<open>ListaProofs\<close> has the shape of an undamaged list (\<open>lista_ok\<close>) and of lists after linking and unlinking,
    \<open>ListaOps\<close> and \<open>ListaProps\<close> the effect of each function, \<open>ListaSpec\<close> the specification \<open>lis_espec\<close> and the
    refinement, \<open>ListaVerify\<close> the end and the verdicts of the verification, \<open>ListaDetect\<close> the damaging modes.
  \<^item> \<open>CLib\<close>: the numbers of the C library, printed (\<open>printf\<close>, streams) and read (\<open>scanf\<close>, \<open>strtoul\<close>).
  \<^item> \<open>Geracod\<close> (\<open>INF1018-Software-Basico/Trabalho 2\<close>, \<open>geracod.c\<close>): one definition for each function that emits
    code, the loop of \<open>geracod\<close> over the text (\<open>sb_laco\<close>) with one definition for each case of its switch,
    state \<open>sb_estado\<close>. \<open>SbLing\<close> is the specification: syntax, text, meaning (\<open>sb_exec\<close>) and code of SB programs.
    \<open>SbGera\<close> shows that the one pass writes this code, \<open>Ia32\<close> is the processor as a parameter with the
    documented effect of the instructions used (locale \<open>ia32_laws\<close>) and an executable one (\<open>ref_ia32\<close>),
    \<open>SbCorreto\<close> has the simulation in both directions, \<open>SbLimites\<close> the limits the code does not check.
  \<^item> \<open>MongaAst\<close> (\<open>INF1715-Compilers/ast.h\<close>, \<open>ast.c\<close>, \<open>symboltable.h\<close>, \<open>symboltable.c\<close>): the tree and the table of
    scopes. \<open>MongaCheck\<close> (\<open>typechecking.c\<close>): one definition for each function of the checker. \<open>MongaTipos\<close> and
    \<open>MongaProg\<close> are the typing rules as inductive relations over an environment, and what a well annotated
    tree is; \<open>MongaProps\<close> has the equivalence of checker and rules.
  \<^item> \<open>Lbuf\<close> (\<open>INF2591-Concurrent-And-Parallel-Programming/T1-Limited-Buffer\<close>, \<open>limitedbuffer.h\<close>, \<open>limitedbuffer.c\<close>):
    the buffer and its semaphores (\<open>lbuf\<close>), where a call is (\<open>deposito\<close>, \<open>consumo\<close>), one step of a call from
    one semaphore operation or shared access to the next, and the threads, which take steps in any order (\<open>passo_lbuf\<close>,
    \<open>corrida\<close>). \<open>LbufProps\<close> has the invariant of one producer and one consumer, what follows from it, and the
    runs that go wrong with two of either.
  \<^item> \<open>Pager\<close> (\<open>INF1019-Computer-Systems/trab2/src\<close>, \<open>simulation.h\<close>, \<open>simulation.c\<close>, \<open>lru.c\<close>, \<open>nru.c\<close>, \<open>sec.c\<close>): the
    table as a list of nodes, state \<open>simulacao\<close>, one definition for each function and each of its loops.
    \<open>PagerProofs\<close> has the loops, the algorithms on a full table and one access by cases, \<open>PagerProps\<close> the runs,
    the specification of \<open>LRU\<close> and the properties.

  \<^bold>\<open>How effects are modelled.\<close> A handler takes the state to \<open>Inr\<close> of the new state or to \<open>Inl\<close> of an error: a
  failed assertion, a thrown exception, an error of the simulation kernel, or undefined behaviour.
  Assertions are those of a debug build. Calls on sockets, signals, results and the radio are appended to
  a log in the state. Words keep their width where the code relies on it (digests, addresses, sequence
  numbers of TCP); counters of packets are natural numbers, \<open>simtime_t\<close> is a number of ticks.

  \<^bold>\<open>Parameters.\<close> The simulation kernel, the random generators, the floating point clock of the node, the
  address resolver, the interface table, the bit rates and protocol tables of the MAC, and the modules
  that module path addresses name are arguments. The radio and the channel are inputs of the MAC:
  any sequence of signals is considered. The control of dynamic memory and the function that destroys a
  value (locale \<open>lis_cliente\<close>: it touches only the space of the value) are arguments of the list. The
  processor and the values of uninitialised variables are arguments of the code generator, the values
  of \<open>rand()\<close> arguments of the simulator of virtual memory; the processor runs without interrupts that write below the stack pointer.

  \<^bold>\<open>What the properties show.\<close>
  \<^item> Equivalence and refinement: the cache implements a bounded list (C1, C19), MD5 computes RFC 1321 (C2,
    C32), addresses of all types but CLNS are read back from their text (C18), IPv6 texts are shortened at
    the leftmost longest gap (C23), prefixes match exactly when their first bits agree (C21), groups map to
    their multicast addresses (C29), the regions of the SACK queue implement flags of bytes across the wrap
    of sequence numbers, and its queries answer from these flags (C8, C20), the linked list implements a
    list with a current position (C9), and the machine code of an SB program computes what the program
    means, on every processor with the documented instructions (C10, C11); the type checker of Monga is sound
    and complete for its typing rules, and annotates the tree as they say (C12).
  \<^item> The limited buffer with one producer and one consumer hands over the values in order, in every
    interleaving (C13), and never blocks a call that could go on (C14); with a second producer a value can be
    lost and a consumer wait although one was deposited for it, with a second consumer one can return a value that
    was never deposited (C36).
  \<^item> Virtual memory: every run keeps the page table in order (C16), \<open>LRU\<close> implements the list of the most
    recently used pages (C15), \<open>SEC\<close> and \<open>NRU\<close> replace the page their rules name, and where these rules depart
    from the algorithms of the textbooks (C27, C28).
  \<^item> Safety in every run: an application node that is not a low power node handles every input the network
    offers it (C3; the answer of UDP to a closed socket is not among them, see C35), and so does the MAC
    (C5); no packet is relayed twice within a second (C4) or handed up twice (C6); transmissions and
    backoffs are bounded (C7, C24, C25); frames are numbered consecutively (C30); the sink counts each packet
    as new or excess (C31).
  \<^item> Functional behaviour of the relays (C26), and what the verification of a linked
    list finds: a verdict on every memory (C17), the right one on an undamaged list (C33), and for each way
    of damaging a list the exact verdict (C22).
  \<^item> Defects, each with the run that shows it: a stopped node falls silent (C34), a stop ends the simulation
    (C35), frames are acknowledged and lost (C37), generic addresses fail on short prefixes and on MAC
    addresses without separators (C38), the code generator writes behind its arrays and reads an open comment
    for ever (C39), the type checker crashes on the value of a \<open>void\<close> call and departs from the description of
    the language (C40). Further theorems show that hop counts are not decreased, that friend queues never
    drain, that recorded delays are not delays, that a sink with a stop time is mute, that a low power node
    never listens and fails when its receive window closes during a backoff, and that the verification of the list
    reads a freed element and overlooks an unlinked one.

  \<^bold>\<open>Termination and fuel.\<close> The loops of the models are structural or \<open>function\<close>s with a measure; no fuel is
  used. The loop over the blocks of a digest decreases the distance of its 32-bit counter to the length;
  where the counter wraps, the access behind the input ends it. The loops over the links of a list may run
  for ever in a damaged memory (\<open>partial_function\<close>, where \<open>None\<close> is not returning): those of the functions
  end on every undamaged list (C9), that of the verification on every memory (C17). The loop of \<open>geracod\<close>
  over its file is one as well, for the sake of the open comment; it ends on the text of every valid
  program (C11). A call of the limited buffer has a number of steps left that every step decreases (C14). The
  call of itself of \<open>algo_sec\<close> clears a bit of the table each time. That
  generated code returns is a statement on the number of steps of the processor (C10).

  \<^bold>\<open>Not modelled.\<close> The display and the log messages; \<open>chooseDestAddr\<close> of the node, which is never called; the
  registration of the MAC's interface; the packet a low power node ignores while asleep keeps no trace; the
  life cycle listener that resets the counter of generated MAC addresses; the search for the module at a path;
  the coverage counters of the linked list and its test driver; the messages the code generator and the type checker print; the scanner, the
  parser and the unfinished LLVM output of the Monga compiler; \<open>lbuf_free\<close> and the test
  program of the limited buffer; the command line and the debug output of the simulator of virtual memory. The
  rest of INET, the other course works in C and C++ and vendored libraries are outside the development.
\<close>

end
